(* ===== verification/Js_Number.thy ===== *)
theory Js_Number
  imports Complex_Main
begin

text \<open>
  The Number type of JavaScript: an IEEE 754 binary64 value.  A finite value is the exact
  rational it denotes, and every operation computes the exact result and rounds it to
  the nearest double, ties to even, as ECMAScript asks (sections Number::add,
  Number::multiply, Number::divide).  The two zeros are identified: no modelled code
  divides by a zero whose sign could be negative, and no modelled code reads a sign of
  zero.

  Rounding is an interface (locale \<open>rounding\<close>): monotone, odd, and exact on the
  doubles.  The facts about ranges are proved from these laws only and interpreted on
  the binary64 rounding \<open>rd64\<close>.
\<close>

named_theorems num_range \<open>range facts: the result of an operation stays between two integers\<close>

section \<open>Rounding to binary64\<close>

function blen :: "int \<Rightarrow> int" where
  "blen n = (if n \<le> 0 then 0 else 1 + blen (n div 2))"
  by pat_completeness auto
termination
  by (relation "measure nat") auto

declare blen.simps [simp del]

definition pow2 :: "int \<Rightarrow> rat" where
  "pow2 k = (if 0 \<le> k then of_int (2 ^ nat k) else 1 / of_int (2 ^ nat (- k)))"

definition ilog2 :: "rat \<Rightarrow> int" where
  "ilog2 x =
     (case quotient_of x of (a, b) \<Rightarrow>
        let k = blen a - blen b
        in if pow2 k \<le> x then k else k - 1)"

definition ulp_exp :: "rat \<Rightarrow> int" where
  "ulp_exp x = max (ilog2 \<bar>x\<bar> - 52) (- 1074)"

definition rne :: "rat \<Rightarrow> int" where
  "rne x =
     (let f = \<lfloor>x\<rfloor>; d = x - of_int f
      in if d < 1 / 2 \<or> (d = 1 / 2 \<and> even f) then f else f + 1)"

definition rd64 :: "rat \<Rightarrow> rat" where
  "rd64 x = (if x = 0 then 0 else of_int (rne (x / pow2 (ulp_exp x))) * pow2 (ulp_exp x))"

section \<open>Laws of the rounding\<close>

lemma pow2_pos [simp]: "0 < pow2 k"
  by (simp add: pow2_def)

lemma pow2_nonneg [simp]: "0 \<le> pow2 k"
  using pow2_pos [of k] by (rule less_imp_le)

lemma pow2_neq [simp]: "pow2 k \<noteq> 0"
  using pow2_pos [of k] by (rule less_imp_neq [THEN not_sym])

lemma pow2_powi: "pow2 k = 2 powi k"
  by (simp add: pow2_def power_int_def power_one_over inverse_eq_divide)

lemma pow2_0 [simp]: "pow2 0 = 1"
  by (simp add: pow2_def)

lemma pow2_add: "pow2 (a + b) = pow2 a * pow2 b"
  by (simp add: pow2_powi power_int_add)

lemma pow2_diff: "pow2 (a - b) = pow2 a / pow2 b"
  by (simp add: pow2_powi power_int_diff)

lemma pow2_mono: "a \<le> b \<Longrightarrow> pow2 a \<le> pow2 b"
  by (simp add: pow2_powi power_int_increasing)

lemma pow2_strict_mono: "a < b \<Longrightarrow> pow2 a < pow2 b"
  by (simp add: pow2_powi power_int_strict_increasing)

lemma pow2_less_iff: "pow2 a < pow2 b \<longleftrightarrow> a < b"
  by (meson linorder_not_less pow2_mono pow2_strict_mono)

lemma pow2_nat: "0 \<le> k \<Longrightarrow> pow2 k = of_int (2 ^ nat k)"
  by (simp add: pow2_def)

lemma blen_nonneg: "0 \<le> blen n"
  by (induction n rule: blen.induct) (subst blen.simps, simp)

lemma blen_bounds: "0 < n \<Longrightarrow> pow2 (blen n - 1) \<le> of_int n \<and> of_int n < pow2 (blen n)"
proof (induction n rule: blen.induct)
  case (1 n)
  show ?case
  proof (cases "n div 2 \<le> 0")
    case True
    then have "n = 1" using 1 by auto
    then show ?thesis by (simp add: blen.simps pow2_def)
  next
    case False
    let ?m = "n div 2" and ?k = "blen (n div 2)"
    have IH: "pow2 (?k - 1) \<le> of_int ?m" "of_int ?m < pow2 ?k"
      using 1 False by auto
    have b: "blen n = 1 + ?k" using 1(2) by (subst blen.simps) simp
    have k: "1 \<le> ?k" using False blen_nonneg [of "?m div 2"] by (subst blen.simps) simp
    have two: "pow2 ?k = 2 * pow2 (?k - 1)" "pow2 (1 + ?k) = 2 * pow2 ?k"
      using pow2_add [of 1 "?k - 1"] pow2_add [of 1 ?k] by (simp_all add: pow2_def)
    have hi: "of_int n < 2 * pow2 ?k"
    proof -
      have "of_int ?m < (of_int (2 ^ nat ?k) :: rat)" using IH(2) k by (simp add: pow2_def)
      then have "?m < 2 ^ nat ?k" by (simp only: of_int_less_iff)
      then have "n < 2 * 2 ^ nat ?k" by linarith
      then have "(of_int n :: rat) < of_int (2 * 2 ^ nat ?k)" by (simp only: of_int_less_iff)
      then show ?thesis using k by (simp add: pow2_def)
    qed
    have "2 * ?m \<le> n" by simp
    then have "(of_int (2 * ?m) :: rat) \<le> of_int n" by (simp only: of_int_le_iff)
    then have lo: "pow2 ?k \<le> of_int n" using IH(1) two by simp
    show ?thesis using lo hi b two by simp
  qed
qed

lemma ilog2_bounds:
  assumes "0 < x"
  shows "pow2 (ilog2 x) \<le> x \<and> x < pow2 (ilog2 x + 1)"
proof -
  obtain a b where q: "quotient_of x = (a, b)" by force
  have b: "0 < b" and x: "x = of_int a / of_int b"
    using q quotient_of_denom_pos quotient_of_div by blast+
  have a: "0 < a" using assms x b by (simp add: zero_less_divide_iff)
  let ?k = "blen a - blen b"
  have ra: "pow2 (blen a - 1) \<le> of_int a" "of_int a < pow2 (blen a)"
    using blen_bounds [OF a] by auto
  have rb: "pow2 (blen b - 1) \<le> of_int b" "of_int b < pow2 (blen b)"
    using blen_bounds [OF b] by auto
  have bp: "(0::rat) < of_int b" using b by simp
  have lo: "pow2 (?k - 1) \<le> x"
  proof -
    have "pow2 (?k - 1) * of_int b \<le> pow2 (?k - 1) * pow2 (blen b)"
      using rb(2) by (simp add: less_imp_le)
    also have "\<dots> = pow2 (blen a - 1)" by (simp add: pow2_add [symmetric])
    also have "\<dots> \<le> of_int a" by (rule ra)
    finally show ?thesis using bp by (simp add: x pos_le_divide_eq)
  qed
  have hi: "x < pow2 (?k + 1)"
  proof -
    have "of_int a < pow2 (blen a)" by (rule ra)
    also have "\<dots> = pow2 (?k + 1) * pow2 (blen b - 1)" by (simp add: pow2_add [symmetric])
    also have "\<dots> \<le> pow2 (?k + 1) * of_int b" using rb(1) by simp
    finally show ?thesis using bp by (simp add: x pos_divide_less_eq)
  qed
  show ?thesis using lo hi by (simp add: ilog2_def q Let_def)
qed

lemma ilog2_unique:
  assumes "pow2 k \<le> x" and "x < pow2 (k + 1)"
  shows "ilog2 x = k"
proof -
  have "0 < x" using assms(1) pow2_pos [of k] by linarith
  then have "pow2 (ilog2 x) < pow2 (k + 1)" "pow2 k < pow2 (ilog2 x + 1)"
    using ilog2_bounds [of x] assms by linarith+
  then show ?thesis by (simp add: pow2_less_iff)
qed

lemma ilog2_mono: "0 < x \<Longrightarrow> x \<le> y \<Longrightarrow> ilog2 x \<le> ilog2 y"
proof -
  assume "0 < x" "x \<le> y"
  then have "pow2 (ilog2 x) < pow2 (ilog2 y + 1)"
    using ilog2_bounds [of x] ilog2_bounds [of y] by linarith
  then show ?thesis by (simp add: pow2_less_iff)
qed

lemma rne_of_int [simp]: "rne (of_int n) = n"
  by (simp add: rne_def)

lemma rne_bounds: "of_int (rne x) - 1 / 2 \<le> x \<and> x \<le> of_int (rne x) + 1 / 2"
proof -
  have fl: "of_int \<lfloor>x\<rfloor> \<le> x" "x < of_int \<lfloor>x\<rfloor> + 1"
    using floor_correct [of x] by auto
  show ?thesis
  proof (cases "x - of_int \<lfloor>x\<rfloor> < 1 / 2 \<or> (x - of_int \<lfloor>x\<rfloor> = 1 / 2 \<and> even \<lfloor>x\<rfloor>)")
    case True
    then have "rne x = \<lfloor>x\<rfloor>" unfolding rne_def Let_def by (rule if_P)
    moreover from True have "x - of_int \<lfloor>x\<rfloor> \<le> 1 / 2" by (rule disjE) linarith+
    ultimately show ?thesis using fl by (simp only:) linarith
  next
    case False
    then have "rne x = \<lfloor>x\<rfloor> + 1" unfolding rne_def Let_def by (rule if_not_P)
    moreover from False have "1 / 2 \<le> x - of_int \<lfloor>x\<rfloor>" by linarith
    ultimately show ?thesis using fl by (simp only: of_int_add of_int_1) linarith
  qed
qed

lemma rne_mono: "x \<le> y \<Longrightarrow> rne x \<le> rne y"
proof -
  assume xy: "x \<le> y"
  have fl: "\<lfloor>x\<rfloor> \<le> \<lfloor>y\<rfloor>" using xy by (rule floor_mono)
  show ?thesis
  proof (cases "\<lfloor>x\<rfloor> = \<lfloor>y\<rfloor>")
    case True
    then show ?thesis using xy unfolding rne_def Let_def by auto
  next
    case False
    then have "\<lfloor>x\<rfloor> + 1 \<le> \<lfloor>y\<rfloor>" using fl by simp
    then show ?thesis unfolding rne_def Let_def by auto
  qed
qed

lemma rne_minus: "rne (- x) = - rne x"
proof (cases "x \<in> \<int>")
  case True
  then obtain n where x: "x = of_int n" by (rule Ints_cases)
  have "rne (- x) = rne (of_int (- n))" by (simp add: x)
  then show ?thesis by (simp add: x del: of_int_minus)
next
  case False
  then have "x \<noteq> of_int \<lfloor>x\<rfloor>" by (metis Ints_of_int)
  then have f: "\<lfloor>- x\<rfloor> = - \<lfloor>x\<rfloor> - 1"
    using floor_correct [of x] by (intro floor_unique) (auto simp: less_le)
  then show ?thesis
    unfolding rne_def Let_def f by (auto simp: field_simps)
qed

lemma ulp_exp_minus [simp]: "ulp_exp (- x) = ulp_exp x"
  by (simp add: ulp_exp_def)

lemma rd64_minus: "rd64 (- x) = - rd64 x"
  by (simp add: rd64_def rne_minus)

lemma rd64_0 [simp]: "rd64 0 = 0"
  by (simp add: rd64_def)

lemma rd64_scale:
  assumes "0 < x" and "ulp_exp x = q"
  shows "rd64 x = of_int (rne (x / pow2 q)) * pow2 q"
  using assms by (simp add: rd64_def)

lemma rd64_grid:
  assumes "q \<le> k" and "q = ulp_exp x" and "0 < x"
  shows "x \<le> of_int n * pow2 k \<Longrightarrow> rd64 x \<le> of_int n * pow2 k"
    and "of_int n * pow2 k \<le> x \<Longrightarrow> of_int n * pow2 k \<le> rd64 x"
proof -
  let ?m = "n * 2 ^ nat (k - q)"
  have m: "of_int n * pow2 k = of_int ?m * pow2 q"
  proof -
    have "pow2 k = pow2 (k - q) * pow2 q" by (simp add: pow2_add [symmetric])
    then show ?thesis using assms(1) by (simp add: pow2_def)
  qed
  have rd: "rd64 x = of_int (rne (x / pow2 q)) * pow2 q"
    using assms by (simp add: rd64_scale)
  {
    assume "x \<le> of_int n * pow2 k"
    then have "x / pow2 q \<le> of_int ?m" unfolding m by (simp add: pos_divide_le_eq)
    then have "rne (x / pow2 q) \<le> ?m" using rne_mono rne_of_int by metis
    then have "(of_int (rne (x / pow2 q)) :: rat) \<le> of_int ?m" by (simp only: of_int_le_iff)
    then show "rd64 x \<le> of_int n * pow2 k" unfolding rd m by (rule mult_right_mono) simp
  }
  {
    assume "of_int n * pow2 k \<le> x"
    then have "of_int ?m \<le> x / pow2 q" unfolding m by (simp add: pos_le_divide_eq)
    then have "?m \<le> rne (x / pow2 q)" using rne_mono rne_of_int by metis
    then have "(of_int ?m :: rat) \<le> of_int (rne (x / pow2 q))" by (simp only: of_int_le_iff)
    then show "of_int n * pow2 k \<le> rd64 x" unfolding rd m by (rule mult_right_mono) simp
  }
qed

lemma rd64_nonneg: "0 \<le> x \<Longrightarrow> 0 \<le> rd64 x"
  using rd64_grid(2) [of "ulp_exp x" "ulp_exp x" x 0] by (cases "x = 0") auto

lemma rd64_mono_pos:
  assumes "0 < x" and "x \<le> y"
  shows "rd64 x \<le> rd64 y"
proof (cases "ulp_exp x = ulp_exp y")
  case True
  have "rne (x / pow2 (ulp_exp x)) \<le> rne (y / pow2 (ulp_exp x))"
    by (rule rne_mono) (simp add: assms divide_right_mono)
  then show ?thesis
    using assms True by (simp add: rd64_def mult_right_mono)
next
  case False
  have y: "0 < y" using assms by simp
  have l: "ilog2 x \<le> ilog2 y" using assms by (rule ilog2_mono)
  have u: "ilog2 x < ilog2 y" "ulp_exp y = ilog2 y - 52" "ulp_exp x \<le> ilog2 y"
    using False l assms y by (auto simp: ulp_exp_def)
  have "x < pow2 (ilog2 x + 1)" using ilog2_bounds [OF assms(1)] by simp
  also have "\<dots> \<le> pow2 (ilog2 y)" using u by (intro pow2_mono) simp
  finally have "rd64 x \<le> pow2 (ilog2 y)"
    using rd64_grid(1) [of "ulp_exp x" "ilog2 y" x 1] u assms by simp
  also have "\<dots> \<le> rd64 y"
    using rd64_grid(2) [of "ulp_exp y" "ilog2 y" y 1] u y ilog2_bounds [OF y] by simp
  finally show ?thesis .
qed

lemma rd64_mono: "x \<le> y \<Longrightarrow> rd64 x \<le> rd64 y"
proof -
  assume xy: "x \<le> y"
  consider "0 < x" | "x \<le> 0" "0 \<le> y" | "y < 0" by linarith
  then show ?thesis
  proof cases
    case 1
    then show ?thesis using xy by (rule rd64_mono_pos)
  next
    case 2
    then have "0 \<le> rd64 (- x)" "0 \<le> rd64 y" by (auto intro: rd64_nonneg)
    then show ?thesis by (simp add: rd64_minus)
  next
    case 3
    then have "rd64 (- y) \<le> rd64 (- x)" using xy by (intro rd64_mono_pos) auto
    then show ?thesis by (simp add: rd64_minus)
  qed
qed

lemma rd64_exact_pos:
  assumes "0 < n" and "n \<le> 2 ^ 53" and "- 1074 \<le> k"
  shows "rd64 (of_int n * pow2 k) = of_int n * pow2 k"
proof -
  let ?x = "of_int n * pow2 k"
  have x: "0 < ?x" using assms by simp
  have fix_on: "rd64 ?x = ?x" if "ulp_exp ?x \<le> j" and "?x = of_int m * pow2 j" for j m
    using rd64_grid [OF that(1) refl x, of m] that(2) by (simp add: order.antisym)
  show ?thesis
  proof (cases "n = 2 ^ 53")
    case True
    have xe: "?x = of_int (2 ^ 52) * pow2 (k + 1)"
      by (simp add: True pow2_add) (simp add: pow2_def)
    have "?x = pow2 (k + 53)" by (simp add: True pow2_add) (simp add: pow2_def)
    then have "ilog2 ?x = k + 53" by (intro ilog2_unique) (simp_all add: pow2_strict_mono)
    then have "ulp_exp ?x \<le> k + 1" using x assms by (simp add: ulp_exp_def)
    then show ?thesis using xe by (rule fix_on)
  next
    case False
    then have n: "of_int n < (of_int (2 ^ 53) :: rat)" using assms by (simp only: of_int_less_iff)
    have "?x < of_int (2 ^ 53) * pow2 k" using n by (rule mult_strict_right_mono) simp
    also have "\<dots> = pow2 (k + 53)" by (simp add: pow2_add) (simp add: pow2_def)
    finally have "pow2 (ilog2 ?x) < pow2 (k + 53)" using ilog2_bounds [OF x] by linarith
    then have "ulp_exp ?x \<le> k" using x assms by (simp add: pow2_less_iff ulp_exp_def)
    then show ?thesis using refl by (rule fix_on)
  qed
qed

lemma rd64_exact:
  assumes "\<bar>n\<bar> \<le> 2 ^ 53" and "- 1074 \<le> k"
  shows "rd64 (of_int n * pow2 k) = of_int n * pow2 k"
proof -
  consider "n = 0" | "0 < n" | "0 < - n" by linarith
  then show ?thesis
  proof cases
    case 1
    then show ?thesis by simp
  next
    case 2
    then show ?thesis using assms by (intro rd64_exact_pos) auto
  next
    case 3
    have "rd64 (of_int (- n) * pow2 k) = of_int (- n) * pow2 k"
      using assms 3 by (intro rd64_exact_pos) auto
    then show ?thesis by (simp add: rd64_minus)
  qed
qed

lemma rne_le: "x \<le> of_int b \<Longrightarrow> rne x \<le> b"
  using rne_mono [of x "of_int b"] by simp

lemma rd64_form: "\<exists>n k. rd64 x = of_int n * pow2 k \<and> \<bar>n\<bar> \<le> 2 ^ 53 \<and> - 1074 \<le> k"
proof (cases "x = 0")
  case True
  then show ?thesis by (intro exI [of _ 0]) auto
next
  case False
  let ?u = "ulp_exp x"
  have "\<bar>x\<bar> < pow2 (ilog2 \<bar>x\<bar> + 1)" using ilog2_bounds [of "\<bar>x\<bar>"] False by simp
  also have "\<dots> \<le> pow2 (53 + ?u)" by (rule pow2_mono) (simp add: ulp_exp_def)
  also have "\<dots> = of_int (2 ^ 53) * pow2 ?u" by (simp add: pow2_add) (simp add: pow2_def)
  finally have "\<bar>x\<bar> / pow2 ?u \<le> of_int (2 ^ 53)" by (simp add: pos_divide_le_eq)
  then have "\<bar>x / pow2 ?u\<bar> \<le> of_int (2 ^ 53)" by (simp add: abs_divide)
  from abs_le_D1 [OF this] abs_le_D2 [OF this]
  have "x / pow2 ?u \<le> of_int (2 ^ 53)" "- (x / pow2 ?u) \<le> of_int (2 ^ 53)" .
  then have "rne (x / pow2 ?u) \<le> 2 ^ 53" "- rne (x / pow2 ?u) \<le> 2 ^ 53"
    using rne_le rne_minus by metis+
  then have "\<bar>rne (x / pow2 ?u)\<bar> \<le> 2 ^ 53" by linarith
  then show ?thesis using False
    by (intro exI [of _ "rne (x / pow2 ?u)"] exI [of _ ?u]) (auto simp: rd64_def ulp_exp_def)
qed

lemma rd64_idem: "rd64 (rd64 x) = rd64 x"
  using rd64_form [of x] rd64_exact by auto

lemma rd64_error:
  assumes "\<bar>x\<bar> < 8"
  shows "\<bar>rd64 x - x\<bar> \<le> 1 / 2251799813685248"
proof (cases "x = 0")
  case False
  let ?u = "ulp_exp x"
  have "pow2 (ilog2 \<bar>x\<bar>) \<le> \<bar>x\<bar>" using ilog2_bounds [of "\<bar>x\<bar>"] False by simp
  also have "\<dots> < pow2 3" using assms by (simp add: pow2_def)
  finally have "ilog2 \<bar>x\<bar> < 3" by (simp only: pow2_less_iff)
  then have "pow2 ?u \<le> pow2 (- 50)" by (intro pow2_mono) (simp add: ulp_exp_def)
  then have u: "pow2 ?u / 2 \<le> 1 / 2251799813685248" by (simp add: pow2_def)
  define y where "y = x / pow2 ?u"
  have "\<bar>of_int (rne y) - y\<bar> \<le> 1 / 2" using rne_bounds [of y] by linarith
  then have "\<bar>of_int (rne y) - y\<bar> * pow2 ?u \<le> 1 / 2 * pow2 ?u"
    by (rule mult_right_mono) (rule pow2_nonneg)
  moreover have "\<bar>of_int (rne y) - y\<bar> * pow2 ?u = \<bar>of_int (rne y) * pow2 ?u - y * pow2 ?u\<bar>"
    unfolding left_diff_distrib [symmetric] abs_mult by simp
  moreover have "y * pow2 ?u = x" by (simp add: y_def)
  ultimately have "\<bar>of_int (rne y) * pow2 ?u - x\<bar> \<le> pow2 ?u / 2" by simp
  then show ?thesis using u False by (simp add: rd64_def y_def)
qed simp

lemma double_gap:
  assumes "rd64 a = a" and "rd64 b = b" and "a < b"
  shows "a < a + rd64 (b - a)"
proof -
  have grid: "\<exists>m::int. c = of_int m * pow2 (- 1074)" if h: "rd64 c = c" for c
  proof -
    obtain n k where c: "c = of_int n * pow2 k" "- 1074 \<le> k" using rd64_form [of c] h by auto
    have "pow2 k = of_int (2 ^ nat (k + 1074)) * pow2 (- 1074)"
      using c(2) pow2_add [of "k + 1074" "- 1074"] pow2_nat [of "k + 1074"] by simp
    then show ?thesis using c(1) by (intro exI [of _ "n * 2 ^ nat (k + 1074)"]) simp
  qed
  obtain m n where "a = of_int m * pow2 (- 1074)" "b = of_int n * pow2 (- 1074)"
    using grid assms(1,2) by metis
  then have d: "b - a = of_int (n - m) * pow2 (- 1074)" by (simp add: algebra_simps)
  have "0 < b - a" using assms(3) by simp
  then have "(0::rat) < of_int (n - m)" unfolding d using pow2_pos [of "- 1074"]
    by (simp only: zero_less_mult_iff) auto
  then have "0 < n - m" by (simp only: of_int_0_less_iff)
  then have "1 \<le> n - m" by simp
  then have "(of_int 1 :: rat) \<le> of_int (n - m)" by (simp only: of_int_le_iff)
  then have "of_int 1 * pow2 (- 1074) \<le> b - a"
    unfolding d by (rule mult_right_mono) (rule pow2_nonneg)
  then have "of_int 1 * pow2 (- 1074) \<le> rd64 (b - a)"
    using rd64_mono rd64_exact [of 1 "- 1074"] by fastforce
  then have "0 < rd64 (b - a)" using pow2_pos [of "- 1074"] by linarith
  then show ?thesis by simp
qed

section \<open>The interface of rounding\<close>

text \<open>
  Two thirds of the arithmetic below use nothing else of binary64: rounding is monotone
  and odd, and a dyadic rational with at most 53 significant bits is its own rounding.
\<close>

locale rounding =
  fixes rd :: "rat \<Rightarrow> rat"
  assumes mono: "x \<le> y \<Longrightarrow> rd x \<le> rd y"
    and odd: "rd (- x) = - rd x"
    and exact: "\<bar>n\<bar> \<le> 2 ^ 53 \<Longrightarrow> - 1074 \<le> k \<Longrightarrow> rd (of_int n * pow2 k) = of_int n * pow2 k"
begin

lemma int_exact: "\<bar>n\<bar> \<le> 2 ^ 53 \<Longrightarrow> rd (of_int n) = of_int n"
  using exact [of n 0] by simp

lemma lower: "of_int a \<le> x \<Longrightarrow> \<bar>a\<bar> \<le> 2 ^ 53 \<Longrightarrow> of_int a \<le> rd x"
  using mono [of "of_int a" x] by (simp add: int_exact)

lemma upper: "x \<le> of_int b \<Longrightarrow> \<bar>b\<bar> \<le> 2 ^ 53 \<Longrightarrow> rd x \<le> of_int b"
  using mono [of x "of_int b"] by (simp add: int_exact)

lemma zero: "rd 0 = 0"
  using int_exact [of 0] by simp

lemma one: "rd 1 = 1"
  using int_exact [of 1] by simp

lemma nonneg: "0 \<le> x \<Longrightarrow> 0 \<le> rd x"
  using mono [of 0 x] by (simp add: zero)

lemma nonpos: "x \<le> 0 \<Longrightarrow> rd x \<le> 0"
  using mono [of x 0] by (simp add: zero)

lemma abs_eq: "rd \<bar>x\<bar> = \<bar>rd x\<bar>"
  by (cases "0 \<le> x") (auto simp: odd nonneg nonpos abs_of_nonneg abs_of_nonpos)

end

interpretation binary64: rounding rd64
  by unfold_locales (auto intro: rd64_mono rd64_minus rd64_exact)

section \<open>The Number type and its operations\<close>

datatype jsnum = NaN | PInf | NInf | Fin rat

text \<open>The rounded value overflows when its exponent leaves the range of binary64.\<close>

definition rnd :: "rat \<Rightarrow> jsnum" where
  "rnd x = (let y = rd64 x in
     if 0 < y \<and> 1024 \<le> ilog2 y then PInf
     else if y < 0 \<and> 1024 \<le> ilog2 (- y) then NInf else Fin y)"

text \<open>A literal of the source denotes the double nearest to its decimal value.\<close>

abbreviation N :: "rat \<Rightarrow> jsnum" where
  "N r \<equiv> rnd r"

instantiation jsnum :: "{zero, one, plus, minus, uminus, times, inverse, abs, ord}"
begin

definition zero_jsnum :: jsnum where "0 = Fin 0"

definition one_jsnum :: jsnum where "1 = Fin 1"

fun plus_jsnum :: "jsnum \<Rightarrow> jsnum \<Rightarrow> jsnum" where
  "NaN + y = NaN"
| "x + NaN = NaN"
| "PInf + NInf = NaN"
| "NInf + PInf = NaN"
| "PInf + y = PInf"
| "x + PInf = PInf"
| "NInf + y = NInf"
| "x + NInf = NInf"
| "Fin a + Fin b = rnd (a + b)"

fun uminus_jsnum :: "jsnum \<Rightarrow> jsnum" where
  "- NaN = NaN"
| "- PInf = NInf"
| "- NInf = PInf"
| "- Fin a = Fin (- a)"

definition minus_jsnum :: "jsnum \<Rightarrow> jsnum \<Rightarrow> jsnum" where
  "x - y = x + (- y :: jsnum)"

fun sgn_mult :: "bool \<Rightarrow> jsnum" where
  "sgn_mult pos = (if pos then PInf else NInf)"

fun times_jsnum :: "jsnum \<Rightarrow> jsnum \<Rightarrow> jsnum" where
  "NaN * y = NaN"
| "x * NaN = NaN"
| "Fin a * Fin b = rnd (a * b)"
| "PInf * PInf = PInf"
| "PInf * NInf = NInf"
| "NInf * PInf = NInf"
| "NInf * NInf = PInf"
| "PInf * Fin b = (if b = 0 then NaN else if 0 < b then PInf else NInf)"
| "NInf * Fin b = (if b = 0 then NaN else if 0 < b then NInf else PInf)"
| "Fin a * PInf = (if a = 0 then NaN else if 0 < a then PInf else NInf)"
| "Fin a * NInf = (if a = 0 then NaN else if 0 < a then NInf else PInf)"

fun divide_jsnum :: "jsnum \<Rightarrow> jsnum \<Rightarrow> jsnum" where
  "NaN div y = NaN"
| "x div NaN = NaN"
| "Fin a div Fin b =
     (if b = 0 then (if a = 0 then NaN else if 0 < a then PInf else NInf) else rnd (a / b))"
| "Fin a div PInf = Fin 0"
| "Fin a div NInf = Fin 0"
| "PInf div Fin b = (if b < 0 then NInf else PInf)"
| "NInf div Fin b = (if b < 0 then PInf else NInf)"
| "PInf div PInf = NaN"
| "PInf div NInf = NaN"
| "NInf div PInf = NaN"
| "NInf div NInf = NaN"

definition inverse_jsnum :: "jsnum \<Rightarrow> jsnum" where
  "inverse x = (1 :: jsnum) div x"

fun abs_jsnum :: "jsnum \<Rightarrow> jsnum" where
  "abs NaN = NaN"
| "abs PInf = PInf"
| "abs NInf = PInf"
| "abs (Fin a) = Fin (abs a)"

fun less_eq_jsnum :: "jsnum \<Rightarrow> jsnum \<Rightarrow> bool" where
  "NaN \<le> y \<longleftrightarrow> False"
| "x \<le> NaN \<longleftrightarrow> False"
| "NInf \<le> y \<longleftrightarrow> True"
| "x \<le> PInf \<longleftrightarrow> True"
| "Fin a \<le> Fin b \<longleftrightarrow> a \<le> b"
| "PInf \<le> y \<longleftrightarrow> False"
| "x \<le> NInf \<longleftrightarrow> False"

fun less_jsnum :: "jsnum \<Rightarrow> jsnum \<Rightarrow> bool" where
  "NaN < y \<longleftrightarrow> False"
| "x < NaN \<longleftrightarrow> False"
| "Fin a < Fin b \<longleftrightarrow> a < b"
| "NInf < NInf \<longleftrightarrow> False"
| "NInf < y \<longleftrightarrow> True"
| "PInf < y \<longleftrightarrow> False"
| "x < PInf \<longleftrightarrow> True"
| "x < NInf \<longleftrightarrow> False"

instance ..

end

lemma jsnum_le_trans: "a \<le> b \<Longrightarrow> b \<le> c \<Longrightarrow> a \<le> (c :: jsnum)"
  by (cases a; cases b; cases c) auto

text \<open>\<open>===\<close> on numbers: NaN is not equal to itself.\<close>

definition num_eq :: "jsnum \<Rightarrow> jsnum \<Rightarrow> bool" where
  "num_eq x y \<longleftrightarrow> x = y \<and> x \<noteq> NaN"

fun num_truthy :: "jsnum \<Rightarrow> bool" where
  "num_truthy NaN = False"
| "num_truthy (Fin r) = (r \<noteq> 0)"
| "num_truthy _ = True"

text \<open>\<open>a || b\<close> on numbers.\<close>

definition num_or :: "jsnum \<Rightarrow> jsnum \<Rightarrow> jsnum" where
  "num_or a b = (if num_truthy a then a else b)"

text \<open>\<open>Math.min\<close>, \<open>Math.max\<close>, \<open>Math.floor\<close>, \<open>Math.ceil\<close> and \<open>Math.round\<close>.\<close>

definition jmin :: "jsnum \<Rightarrow> jsnum \<Rightarrow> jsnum" where
  "jmin a b = (if a = NaN \<or> b = NaN then NaN else if a \<le> b then a else b)"

definition jmax :: "jsnum \<Rightarrow> jsnum \<Rightarrow> jsnum" where
  "jmax a b = (if a = NaN \<or> b = NaN then NaN else if a \<le> b then b else a)"

fun jfloor :: "jsnum \<Rightarrow> jsnum" where
  "jfloor (Fin r) = Fin (of_int \<lfloor>r\<rfloor>)"
| "jfloor x = x"

fun jceil :: "jsnum \<Rightarrow> jsnum" where
  "jceil (Fin r) = Fin (of_int \<lceil>r\<rceil>)"
| "jceil x = x"

fun jround :: "jsnum \<Rightarrow> jsnum" where
  "jround (Fin r) = Fin (of_int \<lfloor>r + 1 / 2\<rfloor>)"
| "jround x = x"

text \<open>An integer, such as a length or an index, as a Number (exact below $2^{53}$).\<close>

definition jint :: "int \<Rightarrow> jsnum" where
  "jint n = rnd (of_int n)"

section \<open>Exactness on small integers\<close>

lemma pow2_1024: "(of_int (2 ^ 53) :: rat) < pow2 1024"
proof -
  have "(of_int (2 ^ 53) :: rat) = pow2 53" by (simp add: pow2_nat)
  also have "\<dots> < pow2 1024" by (rule pow2_strict_mono) simp
  finally show ?thesis .
qed

lemma ilog2_ge: "0 < y \<Longrightarrow> k \<le> ilog2 y \<longleftrightarrow> pow2 k \<le> y"
proof -
  assume "0 < y"
  then have "pow2 (ilog2 y) \<le> y" "y < pow2 (ilog2 y + 1)" using ilog2_bounds by blast+
  then show ?thesis
    using pow2_mono [of k "ilog2 y"] pow2_mono [of "ilog2 y + 1" k] by linarith
qed

lemma rnd_overflow:
  "rnd x = (let y = rd64 x in
     if pow2 1024 \<le> y then PInf else if y \<le> - pow2 1024 then NInf else Fin y)"
proof -
  define y where "y = rd64 x"
  have "(0 < y \<and> 1024 \<le> ilog2 y) \<longleftrightarrow> pow2 1024 \<le> y"
    using pow2_pos [of 1024] ilog2_ge [of y 1024] by linarith
  moreover have "(y < 0 \<and> 1024 \<le> ilog2 (- y)) \<longleftrightarrow> y \<le> - pow2 1024"
    using pow2_pos [of 1024] ilog2_ge [of "- y" 1024] by linarith
  ultimately show ?thesis by (simp add: rnd_def Let_def y_def [symmetric])
qed

lemma rnd_between:
  assumes "of_int a \<le> x" and "x \<le> of_int b" and "\<bar>a\<bar> \<le> 2 ^ 53" and "\<bar>b\<bar> \<le> 2 ^ 53"
  shows "\<exists>r. rnd x = Fin r \<and> r = rd64 x \<and> of_int a \<le> r \<and> r \<le> of_int b"
proof -
  have l: "of_int a \<le> rd64 x" and u: "rd64 x \<le> of_int b"
    using assms binary64.lower binary64.upper by blast+
  have "(of_int b :: rat) \<le> of_int (2 ^ 53)" "(of_int (- (2 ^ 53)) :: rat) \<le> of_int a"
    using assms(3,4) by (simp_all only: of_int_le_iff)
  then have "rd64 x < pow2 1024" "- pow2 1024 < rd64 x"
    using l u pow2_1024 by (simp_all only: of_int_minus)
  then show ?thesis using l u by (simp add: rnd_overflow Let_def)
qed

lemma rnd_of_int: "\<bar>n\<bar> \<le> 2 ^ 53 \<Longrightarrow> rnd (of_int n) = Fin (of_int n)"
  using rnd_between [of n "of_int n" n] by (auto simp: binary64.int_exact)

lemma rnd_0 [simp]: "rnd 0 = Fin 0"
  using rnd_of_int [of 0] by simp

lemma rnd_1 [simp]: "rnd 1 = Fin 1"
  using rnd_of_int [of 1] by simp

lemma rnd_numeral [simp]:
  "(numeral k :: int) \<le> 9007199254740992 \<Longrightarrow> rnd (numeral k) = Fin (numeral k)"
  using rnd_of_int [of "numeral k"] by simp

lemma rnd_neg_numeral [simp]:
  "(numeral k :: int) \<le> 9007199254740992 \<Longrightarrow> rnd (- numeral k) = Fin (- numeral k)"
  using rnd_of_int [of "- numeral k"] by simp

lemma rnd_uminus: "rnd (- x) = - rnd x"
proof -
  have "\<not> (pow2 1024 \<le> rd64 x \<and> rd64 x \<le> - pow2 1024)"
    using pow2_pos [of 1024] by linarith
  then show ?thesis by (auto simp: rnd_overflow Let_def rd64_minus)
qed

lemma num_eq_Fin [simp]: "num_eq (Fin a) (Fin b) \<longleftrightarrow> a = b"
  by (simp add: num_eq_def)

lemma jint_small: "\<bar>n\<bar> \<le> 2 ^ 53 \<Longrightarrow> jint n = Fin (of_int n)"
  by (simp add: jint_def rnd_of_int)

lemma jint_pos: "0 < n \<Longrightarrow> jint n > Fin 0"
proof -
  assume "0 < n"
  then have "(1 :: rat) \<le> of_int n" by simp
  then have "1 \<le> rd64 (of_int n)" using binary64.mono binary64.one by metis
  then show ?thesis using pow2_pos [of 1024] by (auto simp: jint_def rnd_overflow Let_def)
qed

section \<open>Ranges\<close>

text \<open>
  \<open>ranged a b v\<close>: the Number \<open>v\<close> is finite and lies between the integers \<open>a\<close> and
  \<open>b\<close>.  Rounding never leaves such a range, so the range of an expression is computed as
  if the arithmetic were exact.
\<close>

definition ranged :: "int \<Rightarrow> int \<Rightarrow> jsnum \<Rightarrow> bool" where
  "ranged a b v = (case v of Fin r \<Rightarrow> of_int a \<le> r \<and> r \<le> of_int b | _ \<Rightarrow> False)"

lemma ranged_Fin [simp]: "ranged a b (Fin r) \<longleftrightarrow> of_int a \<le> r \<and> r \<le> of_int b"
  by (simp add: ranged_def)

lemma rangedE:
  assumes "ranged a b v"
  obtains r where "v = Fin r" "of_int a \<le> r" "r \<le> of_int b"
  using assms by (auto simp: ranged_def split: jsnum.splits)

lemma ranged_mono: "ranged a b v \<Longrightarrow> c \<le> a \<Longrightarrow> b \<le> d \<Longrightarrow> ranged c d v"
  by (erule rangedE) (auto intro: order_trans [of "of_int c" "of_int a"] order_trans [of _ "of_int b"])

lemma ranged_rnd:
  "of_int a \<le> x \<Longrightarrow> x \<le> of_int b \<Longrightarrow> \<bar>a\<bar> \<le> 2 ^ 53 \<Longrightarrow> \<bar>b\<bar> \<le> 2 ^ 53 \<Longrightarrow> ranged a b (rnd x)"
  using rnd_between by fastforce

lemma ranged_add [num_range]:
  assumes "ranged a b x" and "ranged c d y" and "\<bar>a + c\<bar> \<le> 2 ^ 53" and "\<bar>b + d\<bar> \<le> 2 ^ 53"
  shows "ranged (a + c) (b + d) (x + y)"
  using assms by (auto elim!: rangedE intro!: ranged_rnd add_mono)

lemma ranged_uminus [num_range]: "ranged a b x \<Longrightarrow> ranged (- b) (- a) (- x)"
  by (auto elim!: rangedE)

lemma ranged_diff [num_range]:
  assumes "ranged a b x" and "ranged c d y" and "\<bar>a - d\<bar> \<le> 2 ^ 53" and "\<bar>b - c\<bar> \<le> 2 ^ 53"
  shows "ranged (a - d) (b - c) (x - y)"
  using ranged_add [OF assms(1) ranged_uminus [OF assms(2)]] assms(3,4)
  by (simp add: minus_jsnum_def)

lemma ranged_mult [num_range]:
  assumes "ranged a b x" and "ranged c d y" and "0 \<le> a" and "0 \<le> c" and "b * d \<le> 2 ^ 53"
  shows "ranged (a * c) (b * d) (x * y)"
proof -
  obtain r s where r: "x = Fin r" "of_int a \<le> r" "r \<le> of_int b"
    and s: "y = Fin s" "of_int c \<le> s" "s \<le> of_int d"
    using assms(1,2) by (elim rangedE)
  have ab: "a \<le> b" "c \<le> d" using r s by (metis of_int_le_iff order_trans)+
  have nn: "(0::rat) \<le> of_int a" "(0::rat) \<le> of_int c" using assms by auto
  have "of_int (a * c) \<le> r * s"
    using r s nn by (simp add: mult_mono)
  moreover have "r * s \<le> of_int (b * d)"
    using r s nn by (simp add: mult_mono)
  moreover have "0 \<le> a * c" "a * c \<le> b * d" using assms ab by (auto intro: mult_mono)
  ultimately show ?thesis using r s assms(5) by (auto intro!: ranged_rnd)
qed

lemma ranged_div [num_range]:
  assumes "ranged a b x" and "0 < n" and "a = c * n" and "b = d * n"
    and "\<bar>c\<bar> \<le> 2 ^ 53" and "\<bar>d\<bar> \<le> 2 ^ 53"
  shows "ranged c d (x / Fin (of_int n))"
proof -
  obtain r where r: "x = Fin r" "of_int a \<le> r" "r \<le> of_int b"
    using assms(1) by (elim rangedE)
  have n: "(0::rat) < of_int n" using assms by simp
  have "of_int c \<le> r / of_int n" "r / of_int n \<le> of_int d"
    using r n assms(3,4) by (simp_all add: pos_le_divide_eq pos_divide_le_eq)
  then show ?thesis using r n assms by (auto intro!: ranged_rnd)
qed

lemma ranged_ratio:
  assumes "0 \<le> r" and "r \<le> s" and "0 < s"
  shows "ranged 0 1 (Fin r / Fin s)"
  using assms by (auto intro!: ranged_rnd simp: pos_divide_le_eq)

lemma ranged_jmin: "ranged a b x \<Longrightarrow> ranged c d y \<Longrightarrow> ranged (min a c) (min b d) (jmin x y)"
  by (auto elim!: rangedE simp: jmin_def min_def)

lemma ranged_jmax: "ranged a b x \<Longrightarrow> ranged c d y \<Longrightarrow> ranged (max a c) (max b d) (jmax x y)"
  by (auto elim!: rangedE simp: jmax_def max_def)


section \<open>Doubles\<close>

text \<open>
  A Number of the program is a double: the finite values are rounded already.  Every
  operation yields one.  \<open>nonneg_or_nan\<close> is the range of sums of non-negative terms, which
  may overflow or have seen a NaN.
\<close>

definition double :: "jsnum \<Rightarrow> bool" where
  "double v = (case v of Fin r \<Rightarrow> rd64 r = r | _ \<Rightarrow> True)"

lemma double_simps [simp]: "double NaN" "double PInf" "double NInf"
  by (simp_all add: double_def)

lemma double_Fin: "double (Fin r) \<longleftrightarrow> rd64 r = r"
  by (simp add: double_def)

lemma double_rnd [simp]: "double (rnd x)"
  by (simp add: rnd_def Let_def double_def rd64_idem)

lemma double_add [simp]: "double (x + y)"
  by (cases x; cases y) simp_all

lemma double_0 [simp]: "double (Fin 0)"
  by (simp add: double_Fin)

definition nonneg_or_nan :: "jsnum \<Rightarrow> bool" where
  "nonneg_or_nan v \<longleftrightarrow> v = NaN \<or> Fin 0 \<le> v"

lemma nonneg_or_nan_simps [simp]:
  "nonneg_or_nan NaN" "nonneg_or_nan PInf" "\<not> nonneg_or_nan NInf"
  "nonneg_or_nan (Fin r) \<longleftrightarrow> 0 \<le> r"
  by (simp_all add: nonneg_or_nan_def)

lemma nonneg_rnd: "0 \<le> x \<Longrightarrow> nonneg_or_nan (rnd x)"
  using binary64.nonneg [of x] pow2_pos [of 1024] by (auto simp: rnd_overflow Let_def)

lemma nonneg_add: "nonneg_or_nan x \<Longrightarrow> nonneg_or_nan y \<Longrightarrow> nonneg_or_nan (x + y)"
  by (cases x; cases y) (auto intro: nonneg_rnd)

lemma nonneg_mult: "nonneg_or_nan x \<Longrightarrow> nonneg_or_nan y \<Longrightarrow> nonneg_or_nan (x * y)"
  by (cases x; cases y) (auto intro: nonneg_rnd)

lemma nonneg_div: "nonneg_or_nan x \<Longrightarrow> nonneg_or_nan y \<Longrightarrow> nonneg_or_nan (x / y)"
  by (cases x; cases y) (auto intro!: nonneg_rnd)

lemma rnd_Fin: "rnd x = Fin y \<Longrightarrow> y = rd64 x"
  by (auto simp: rnd_def Let_def split: if_splits)

text \<open>The share of one non-negative sum in a total is NaN or between 0 and 1.\<close>

lemma share_range:
  assumes "nonneg_or_nan x" and "nonneg_or_nan y" and "double x" and "x + y > Fin 0"
  shows "x / (x + y) = NaN \<or> ranged 0 1 (x / (x + y))"
proof (cases "x + y")
  case (Fin t)
  then obtain a b where a: "x = Fin a" and b: "y = Fin b" by (cases x; cases y) auto
  then have nn: "0 \<le> a" "0 \<le> b" using assms by auto
  have t: "t = rd64 (a + b)" using Fin a b rnd_Fin by simp
  have "rd64 a \<le> t" unfolding t using nn by (intro binary64.mono) simp
  then have "a \<le> t" using assms(3) a by (simp add: double_Fin)
  moreover have "0 < t" using assms(4) Fin by simp
  ultimately have "ranged 0 1 (Fin a / Fin t)" using nn by (intro ranged_ratio)
  then show ?thesis using a Fin by simp
qed (cases x, simp_all)+

text \<open>On doubles the difference has the sign of the comparison.\<close>

lemma diff_sign:
  assumes "double (Fin a)" and "double (Fin b)"
  shows "Fin a - Fin b > Fin 0 \<longleftrightarrow> b < a"
proof -
  have r: "Fin a - Fin b = rnd (a - b)" by (simp add: minus_jsnum_def)
  show ?thesis
  proof (cases "b < a")
    case True
    then have "0 < rd64 (a - b)" using double_gap [of b a] assms by (simp add: double_Fin)
    then show ?thesis using True pow2_pos [of 1024] unfolding r by (auto simp: rnd_overflow Let_def)
  next
    case False
    then have "rd64 (a - b) \<le> 0" by (intro binary64.nonpos) simp
    moreover from this have "\<not> pow2 1024 \<le> rd64 (a - b)" using pow2_pos [of 1024] by linarith
    ultimately show ?thesis using False unfolding r by (auto simp: rnd_overflow Let_def)
  qed
qed

section \<open>Math.sqrt\<close>

text \<open>
  The square root, correctly rounded: \<open>s\<close> is the integer part of the root scaled so that it
  has at least 58 bits, and half a unit stands for an inexact rest.
\<close>

function isqrt :: "int \<Rightarrow> int" where
  "isqrt n = (if n < 1 then 0 else
     let s = 2 * isqrt (n div 4) in if (s + 1) * (s + 1) \<le> n then s + 1 else s)"
  by pat_completeness auto
termination
  by (relation "measure nat") auto

declare isqrt.simps [simp del]

lemma isqrt_bounds: "0 \<le> n \<Longrightarrow> 0 \<le> isqrt n \<and> isqrt n * isqrt n \<le> n \<and> n < (isqrt n + 1) * (isqrt n + 1)"
proof (induction n rule: isqrt.induct)
  case (1 n)
  show ?case
  proof (cases "n < 1")
    case True
    then show ?thesis using 1 by (simp add: isqrt.simps [of n])
  next
    case False
    define q where "q = isqrt (n div 4)"
    have ih: "0 \<le> q" "q * q \<le> n div 4" "n div 4 < (q + 1) * (q + 1)"
      using 1 False by (auto simp: q_def)
    have d: "4 * (n div 4) \<le> n" "n < 4 * (n div 4) + 4" by presburger+
    have "4 * (q * q) \<le> n" using ih(2) d(1) by linarith
    moreover have "n < 4 * ((q + 1) * (q + 1))" using ih(3) d(2) by linarith
    ultimately show ?thesis
      using False ih(1) by (subst isqrt.simps, subst (2 3) isqrt.simps)
        (auto simp: Let_def q_def [symmetric] isqrt.simps [of n] algebra_simps)
  qed
qed

definition root_scaled :: "rat \<Rightarrow> rat" where
  "root_scaled y =
     (let s = isqrt \<lfloor>y\<rfloor> in of_int s + (if of_int (s * s) = y then 0 else 1 / 2))"

fun jsqrt :: "jsnum \<Rightarrow> jsnum" where
  "jsqrt (Fin r) =
     (if r < 0 then NaN else if r = 0 then Fin 0
      else let k = 60 - ilog2 r div 2 in rnd (root_scaled (r * pow2 (2 * k)) * pow2 (- k)))"
| "jsqrt PInf = PInf"
| "jsqrt _ = NaN"

lemma root_scaled_bounds:
  assumes "0 \<le> y"
  shows "0 \<le> root_scaled y" and "\<bar>root_scaled y - of_int (isqrt \<lfloor>y\<rfloor>)\<bar> \<le> 1 / 2"
  using isqrt_bounds [of "\<lfloor>y\<rfloor>"] assms by (auto simp: root_scaled_def Let_def)

lemma jsqrt_nonneg: "nonneg_or_nan (jsqrt x)"
  by (cases x) (auto simp: Let_def intro!: nonneg_rnd mult_nonneg_nonneg root_scaled_bounds(1))

end
