(* ===== verification/Js_Value.thy ===== *)
theory Js_Value
  imports Js_Number
begin

text \<open>
  The dynamic values of JavaScript that cross the program's interfaces (parsed JSON,
  Redux payloads, storage): primitives, arrays and plain objects.  A plain object is the
  list of its properties in enumeration order (\<open>Object.keys\<close>): integer keys ascending,
  then the other keys in insertion order.  Strings are lists of ASCII characters; a
  character of the source outside ASCII is written by its UTF-8 bytes.  Reading a property
  of \<open>undefined\<close> or \<open>null\<close> throws; the model returns \<open>Inl TypeError\<close>.
\<close>

datatype jsval =
    Undef
  | Null
  | Bool bool
  | Num jsnum
  | Str string
  | Arr "jsval list"
  | Obj "(string \<times> jsval) list"

datatype js_error = TypeError | Thrown jsval

type_synonym 'a result = "js_error + 'a"

section \<open>Results: throw and catch\<close>

definition res_bind :: "'a result \<Rightarrow> ('a \<Rightarrow> 'b result) \<Rightarrow> 'b result" where
  "res_bind m f = (case m of Inl e \<Rightarrow> Inl e | Inr x \<Rightarrow> f x)"

lemma res_bind_simps [simp]:
  "res_bind (Inl e) f = Inl e"
  "res_bind (Inr x) f = f x"
  by (simp_all add: res_bind_def)

fun res_map :: "('a \<Rightarrow> 'b result) \<Rightarrow> 'a list \<Rightarrow> 'b list result" where
  "res_map f [] = Inr []"
| "res_map f (x # xs) = res_bind (f x) (\<lambda>y. res_bind (res_map f xs) (\<lambda>ys. Inr (y # ys)))"

lemma res_map_Inr: "(\<And>x. x \<in> set xs \<Longrightarrow> f x = Inr (g x)) \<Longrightarrow> res_map f xs = Inr (map g xs)"
  by (induction xs) auto

section \<open>Characters and numerals\<close>

definition digit_char :: "int \<Rightarrow> char" where
  "digit_char d = char_of (nat (48 + d))"

definition char_code :: "char \<Rightarrow> int" where
  "char_code c = int (of_char c)"

definition is_digit :: "char \<Rightarrow> bool" where
  "is_digit c \<longleftrightarrow> 48 \<le> char_code c \<and> char_code c \<le> 57"

definition is_space :: "char \<Rightarrow> bool" where
  "is_space c \<longleftrightarrow> char_code c \<in> {9, 10, 11, 12, 13, 32}"

function show_nat :: "int \<Rightarrow> string" where
  "show_nat n = (if n < 10 then [digit_char n] else show_nat (n div 10) @ [digit_char (n mod 10)])"
  by pat_completeness auto
termination
  by (relation "measure nat") auto

declare show_nat.simps [simp del]

definition show_int :: "int \<Rightarrow> string" where
  "show_int n = (if n < 0 then ''-'' @ show_nat (- n) else show_nat n)"

definition digits_val :: "string \<Rightarrow> int" where
  "digits_val s = foldl (\<lambda>v c. 10 * v + (char_code c - 48)) 0 s"

definition pad_start :: "nat \<Rightarrow> char \<Rightarrow> string \<Rightarrow> string" where
  "pad_start n c s = replicate (n - length s) c @ s"

section \<open>Number to string\<close>

text \<open>
  \<open>Number::toString\<close>: the shortest digit string that rounds to the number, printed
  plainly for exponents between $-6$ and $21$ and in scientific notation otherwise.
  \<open>dec_exp\<close> is the decimal exponent; 400 steps cover the range of binary64.
\<close>

fun dec_exp :: "nat \<Rightarrow> rat \<Rightarrow> int" where
  "dec_exp 0 r = 0"
| "dec_exp (Suc fuel) r =
     (if 1 \<le> r then 1 + dec_exp fuel (r / 10)
      else if r < 1 / 10 then dec_exp fuel (r * 10) - 1 else 0)"

definition pow10 :: "int \<Rightarrow> rat" where
  "pow10 k = (if 0 \<le> k then of_int (10 ^ nat k) else 1 / of_int (10 ^ nat (- k)))"

fun shortest :: "nat \<Rightarrow> rat \<Rightarrow> int \<Rightarrow> int \<Rightarrow> int \<times> int" where
  "shortest 0 r e k = (rne (r / pow10 (e - k)), k)"
| "shortest (Suc fuel) r e k =
     (let s = rne (r / pow10 (e - k))
      in if rd64 (of_int s * pow10 (e - k)) = r then (s, k) else shortest fuel r e (k + 1))"

definition show_pos :: "rat \<Rightarrow> string" where
  "show_pos r =
     (let e = dec_exp 400 r;
          (s0, k0) = shortest 16 r e 1;
          (s, k, n) = (if s0 = 10 ^ nat k0 then (1, 1, e + 1) else (s0, k0, e));
          ds = show_nat s
      in if k \<le> n \<and> n \<le> 21 then ds @ replicate (nat (n - k)) (CHR ''0'')
         else if 0 < n \<and> n \<le> 21 then take (nat n) ds @ ''.'' @ drop (nat n) ds
         else if - 6 < n \<and> n \<le> 0 then ''0.'' @ replicate (nat (- n)) (CHR ''0'') @ ds
         else take 1 ds @ (if k = 1 then '''' else ''.'' @ drop 1 ds) @ ''e'' @
              (if 0 \<le> n - 1 then ''+'' else '''') @ show_int (n - 1))"

fun num_to_string :: "jsnum \<Rightarrow> string" where
  "num_to_string NaN = ''NaN''"
| "num_to_string PInf = ''Infinity''"
| "num_to_string NInf = ''-Infinity''"
| "num_to_string (Fin r) =
     (if r = 0 then ''0'' else if r < 0 then ''-'' @ show_pos (- r) else show_pos r)"

text \<open>\<open>toFixed(d)\<close>: the nearest multiple of $10^{-d}$, ties away from zero.\<close>

definition fixed_digits :: "nat \<Rightarrow> rat \<Rightarrow> string" where
  "fixed_digits d r =
     (let n = \<lfloor>r * 10 ^ d + 1 / 2\<rfloor>; m = pad_start (d + 1) (CHR ''0'') (show_nat n);
          i = length m - d
      in if d = 0 then m else take i m @ ''.'' @ drop i m)"

fun to_fixed :: "nat \<Rightarrow> jsnum \<Rightarrow> string" where
  "to_fixed d (Fin r) =
     (if 10 ^ 21 \<le> \<bar>r\<bar> then num_to_string (Fin r)
      else if r < 0 then ''-'' @ fixed_digits d (- r) else fixed_digits d r)"
| "to_fixed d x = num_to_string x"

section \<open>String to number\<close>

definition int_suffix :: "string \<Rightarrow> (int \<times> string) option" where
  "int_suffix s =
     (let (neg, t) = (case s of c # cs \<Rightarrow> if c = CHR ''-'' then (True, cs)
                                       else if c = CHR ''+'' then (False, cs) else (False, s)
                              | [] \<Rightarrow> (False, s));
          ds = takeWhile is_digit t
      in if ds = [] then None
         else Some ((if neg then - digits_val ds else digits_val ds), dropWhile is_digit t))"

definition parse_unsigned :: "string \<Rightarrow> (jsnum \<times> string) option" where
  "parse_unsigned s =
     (if take 8 s = ''Infinity'' then Some (PInf, drop 8 s)
      else
        let ip = takeWhile is_digit s; r1 = dropWhile is_digit s;
            dot = (r1 \<noteq> [] \<and> hd r1 = CHR ''.'');
            fp = (if dot then takeWhile is_digit (tl r1) else []);
            r2 = (if dot then dropWhile is_digit (tl r1) else r1);
            ex = (if r2 \<noteq> [] \<and> (hd r2 = CHR ''e'' \<or> hd r2 = CHR ''E'') then int_suffix (tl r2) else None);
            e = (case ex of None \<Rightarrow> 0 | Some (n, _) \<Rightarrow> n);
            r3 = (case ex of None \<Rightarrow> r2 | Some (_, t) \<Rightarrow> t)
        in if ip = [] \<and> fp = [] then None
           else Some (rnd (of_int (digits_val (ip @ fp)) * pow10 (e - int (length fp))), r3))"

definition parse_signed :: "string \<Rightarrow> (jsnum \<times> string) option" where
  "parse_signed s =
     (case s of
        [] \<Rightarrow> None
      | c # cs \<Rightarrow>
          if c = CHR ''-'' then map_option (\<lambda>(v, t). (- v, t)) (parse_unsigned cs)
          else if c = CHR ''+'' then parse_unsigned cs
          else parse_unsigned s)"

text \<open>\<open>parseFloat\<close> reads the longest numeric prefix, \<open>Number\<close> the whole trimmed string.\<close>

definition parse_float :: "string \<Rightarrow> jsnum" where
  "parse_float s =
     (case parse_signed (dropWhile is_space s) of None \<Rightarrow> NaN | Some (v, _) \<Rightarrow> v)"

definition trim_ws :: "string \<Rightarrow> string" where
  "trim_ws s = rev (dropWhile is_space (rev (dropWhile is_space s)))"

definition string_to_number :: "string \<Rightarrow> jsnum" where
  "string_to_number s =
     (let t = trim_ws s
      in if t = [] then Fin 0
         else case parse_signed t of Some (v, []) \<Rightarrow> v | _ \<Rightarrow> NaN)"

text \<open>\<open>parseInt\<close> in radix 10: sign and leading digits, nothing else.\<close>

definition parse_int :: "string \<Rightarrow> jsnum" where
  "parse_int s =
     (case int_suffix (dropWhile is_space s) of None \<Rightarrow> NaN | Some (n, _) \<Rightarrow> rnd (of_int n))"

section \<open>Objects\<close>

definition index_key :: "string \<Rightarrow> int option" where
  "index_key s =
     (if s \<noteq> [] \<and> (\<forall>c \<in> set s. is_digit c) \<and> (s = ''0'' \<or> hd s \<noteq> CHR ''0'')
         \<and> digits_val s < 4294967295
      then Some (digits_val s) else None)"

definition key_before :: "string \<Rightarrow> string \<Rightarrow> bool" where
  "key_before k k' =
     (case index_key k of
        None \<Rightarrow> False
      | Some i \<Rightarrow> (case index_key k' of None \<Rightarrow> True | Some j \<Rightarrow> i < j))"

definition put :: "string \<Rightarrow> 'v \<Rightarrow> (string \<times> 'v) list \<Rightarrow> (string \<times> 'v) list" where
  "put k v ps =
     (if k \<in> fst ` set ps then map (\<lambda>p. if fst p = k then (k, v) else p) ps
      else takeWhile (\<lambda>p. \<not> key_before k (fst p)) ps @
           (k, v) # dropWhile (\<lambda>p. \<not> key_before k (fst p)) ps)"

definition del :: "string \<Rightarrow> (string \<times> 'v) list \<Rightarrow> (string \<times> 'v) list" where
  "del k ps = filter (\<lambda>p. fst p \<noteq> k) ps"

lemma map_of_put: "map_of (put k v ps) = (map_of ps)(k \<mapsto> v)"
proof (cases "k \<in> fst ` set ps")
  case True
  then have "map_of (map (\<lambda>p. if fst p = k then (k, v) else p) ps) = (map_of ps)(k \<mapsto> v)"
  proof (induction ps)
    case Nil
    then show ?case by simp
  next
    case (Cons p ps)
    show ?case
    proof (cases "k \<in> fst ` set ps")
      case True
      then show ?thesis using Cons.IH by (cases p) auto
    next
      case False
      then have "map (\<lambda>p. if fst p = k then (k, v) else p) ps = ps"
        by (induction ps) auto
      then show ?thesis using Cons.prems False by (cases p) auto
    qed
  qed
  then show ?thesis using True by (simp add: put_def)
next
  case False
  let ?P = "\<lambda>p. \<not> key_before k (fst p)"
  have nin: "k \<notin> fst ` set (takeWhile ?P ps)"
    using False by (auto dest: set_takeWhileD)
  have "map_of ps = map_of (takeWhile ?P ps @ dropWhile ?P ps)" by simp
  also have "\<dots> = map_of (dropWhile ?P ps) ++ map_of (takeWhile ?P ps)" by (simp only: map_of_append)
  finally have s: "map_of ps = map_of (dropWhile ?P ps) ++ map_of (takeWhile ?P ps)" .
  have d: "k \<notin> dom (map_of (takeWhile ?P ps))" using nin by (simp add: dom_map_of_conv_image_fst)
  show ?thesis using False d
    by (simp add: put_def s map_add_upd_left)
qed

lemma map_of_del: "map_of (del k ps) = (map_of ps)(k := None)"
  unfolding del_def by (induction ps) auto

lemma keys_put: "fst ` set (put k v ps) = insert k (fst ` set ps)"
proof -
  have "dom (map_of (put k v ps)) = insert k (dom (map_of ps))"
    by (simp add: map_of_put)
  then show ?thesis by (simp add: dom_map_of_conv_image_fst)
qed

lemma set_put: "set (put k v ps) = insert (k, v) {p \<in> set ps. fst p \<noteq> k}"
proof (cases "k \<in> fst ` set ps")
  case True
  then show ?thesis by (auto simp: put_def image_iff)
next
  case False
  let ?P = "\<lambda>p. \<not> key_before k (fst p)"
  have "set ps = set (takeWhile ?P ps) \<union> set (dropWhile ?P ps)"
    by (metis set_append takeWhile_dropWhile_id)
  moreover have "{p \<in> set ps. fst p \<noteq> k} = set ps" using False by force
  ultimately show ?thesis using False by (simp add: put_def)
qed

lemma distinct_put: "distinct (map fst ps) \<Longrightarrow> distinct (map fst (put k v ps))"
proof (cases "k \<in> fst ` set ps")
  case True
  moreover assume "distinct (map fst ps)"
  moreover have "map fst (map (\<lambda>p. if fst p = k then (k, v) else p) ps) = map fst ps"
    by (induction ps) auto
  ultimately show ?thesis by (simp add: put_def del: map_map)
next
  case False
  let ?P = "\<lambda>p. \<not> key_before k (fst p)"
  assume d: "distinct (map fst ps)"
  have "map fst ps = map fst (takeWhile ?P ps) @ map fst (dropWhile ?P ps)"
    by (simp only: map_append [symmetric] takeWhile_dropWhile_id)
  then have "distinct (map fst (takeWhile ?P ps) @ map fst (dropWhile ?P ps))" using d by simp
  moreover have "k \<notin> fst ` set (takeWhile ?P ps)" "k \<notin> fst ` set (dropWhile ?P ps)"
    using False by (auto dest: set_takeWhileD set_dropWhileD)
  ultimately show ?thesis using False by (auto simp: put_def)
qed

section \<open>Reading values\<close>

fun truthy :: "jsval \<Rightarrow> bool" where
  "truthy Undef = False"
| "truthy Null = False"
| "truthy (Bool b) = b"
| "truthy (Num x) = num_truthy x"
| "truthy (Str s) = (s \<noteq> [])"
| "truthy (Arr _) = True"
| "truthy (Obj _) = True"

fun nullish :: "jsval \<Rightarrow> bool" where
  "nullish Undef = True"
| "nullish Null = True"
| "nullish _ = False"

definition js_or :: "jsval \<Rightarrow> jsval \<Rightarrow> jsval" where
  "js_or a b = (if truthy a then a else b)"

lemma js_or_truthy [simp]: "truthy a \<Longrightarrow> js_or a b = a"
  and js_or_falsy [simp]: "\<not> truthy a \<Longrightarrow> js_or a b = b"
  by (simp_all add: js_or_def)

text \<open>Property access: \<open>v.k\<close> (\<open>get\<close>, which throws) and \<open>v?.k\<close> (\<open>opt\<close>).\<close>

definition own :: "(string \<times> jsval) list \<Rightarrow> string \<Rightarrow> jsval" where
  "own ps k = (case map_of ps k of None \<Rightarrow> Undef | Some v \<Rightarrow> v)"

fun opt :: "jsval \<Rightarrow> string \<Rightarrow> jsval" where
  "opt (Obj ps) k = own ps k"
| "opt (Arr xs) k = (if k = ''length'' then Num (jint (int (length xs))) else Undef)"
| "opt (Str s) k = (if k = ''length'' then Num (jint (int (length s))) else Undef)"
| "opt _ k = Undef"

definition get :: "jsval \<Rightarrow> string \<Rightarrow> jsval result" where
  "get v k = (if nullish v then Inl TypeError else Inr (opt v k))"

definition set_prop :: "jsval \<Rightarrow> string \<Rightarrow> jsval \<Rightarrow> jsval" where
  "set_prop v k x = (case v of Obj ps \<Rightarrow> Obj (put k x ps) | _ \<Rightarrow> v)"

lemma own_put: "own (put k v ps) j = (if j = k then v else own ps j)"
  by (simp add: own_def map_of_put)

lemma own_del: "own (del k ps) j = (if j = k then Undef else own ps j)"
  by (simp add: own_def map_of_del)

lemma own_Cons [simp]: "own ((k, v) # ps) j = (if j = k then v else own ps j)"
  by (simp add: own_def)

lemma own_Nil [simp]: "own [] j = Undef"
  by (simp add: own_def)

fun strict_eq :: "jsval \<Rightarrow> jsval \<Rightarrow> bool" where
  "strict_eq (Num x) (Num y) = num_eq x y"
| "strict_eq (Arr _) (Arr _) = False"
| "strict_eq (Obj _) (Obj _) = False"
| "strict_eq a b = (a = b)"

fun to_number :: "jsval \<Rightarrow> jsnum" where
  "to_number Undef = NaN"
| "to_number Null = Fin 0"
| "to_number (Bool b) = (if b then Fin 1 else Fin 0)"
| "to_number (Num x) = x"
| "to_number (Str s) = string_to_number s"
| "to_number (Arr []) = Fin 0"
| "to_number (Arr [Bool b]) = NaN"
| "to_number (Arr [Undef]) = Fin 0"
| "to_number (Arr [x]) = to_number x"
| "to_number (Arr _) = NaN"
| "to_number (Obj _) = NaN"

section \<open>Strings\<close>

fun split_on :: "char \<Rightarrow> string \<Rightarrow> string list" where
  "split_on c [] = [[]]"
| "split_on c (x # xs) =
     (if x = c then [] # split_on c xs
      else case split_on c xs of p # ps \<Rightarrow> (x # p) # ps | [] \<Rightarrow> [[x]])"

fun join_with :: "string \<Rightarrow> string list \<Rightarrow> string" where
  "join_with sep [] = []"
| "join_with sep [s] = s"
| "join_with sep (s # ss) = s @ sep @ join_with sep ss"

lemma split_on_nonempty [simp]: "split_on c s \<noteq> []"
  by (induction s) (auto split: list.splits)

lemma join_split: "join_with [c] (split_on c s) = s"
proof (induction s)
  case Nil
  then show ?case by simp
next
  case (Cons x xs)
  obtain p ps where s: "split_on c xs = p # ps"
    using split_on_nonempty [of c xs] by (cases "split_on c xs") auto
  then show ?case using Cons.IH by (cases ps) auto
qed

lemma split_on_notin: "c \<notin> set s \<Longrightarrow> split_on c s = [s]"
  by (induction s) auto

lemma split_on_append: "c \<notin> set s \<Longrightarrow> split_on c (s @ c # t) = s # split_on c t"
  by (induction s) auto

end
