(* ===== verification/Js_Date.thy ===== *)
theory Js_Date
  imports Js_Value
begin

text \<open>
  The part of \<open>Date\<close> and \<open>JSON\<close> the program uses: the UTC calendar day of a time value in
  milliseconds (ECMAScript's proleptic Gregorian calendar, computed in eras of 400 years)
  and \<open>JSON.stringify\<close> without replacer.
\<close>

section \<open>The calendar\<close>

definition civil_of_days :: "int \<Rightarrow> int \<times> int \<times> int" where
  "civil_of_days days =
     (let z = days + 719468;
          era = z div 146097; doe = z mod 146097;
          cen = min (doe div 36524) 3; doc = doe - 36524 * cen;
          yq = min (doc mod 1461 div 365) 3; doy = doc mod 1461 - 365 * yq;
          y = 400 * era + 100 * cen + 4 * (doc div 1461) + yq;
          mp = (5 * doy + 2) div 153;
          d = doy - (153 * mp + 2) div 5 + 1;
          m = (if mp < 10 then mp + 3 else mp - 9)
      in ((if m \<le> 2 then y + 1 else y), m, d))"

definition days_of_civil :: "int \<times> int \<times> int \<Rightarrow> int" where
  "days_of_civil ymd =
     (case ymd of (y0, m, d) \<Rightarrow>
        let y = (if m \<le> 2 then y0 - 1 else y0);
            era = y div 400; yoe = y mod 400;
            mp = (if 2 < m then m - 3 else m + 9);
            doy = (153 * mp + 2) div 5 + d - 1;
            doe = yoe * 365 + yoe div 4 - yoe div 100 + doy
        in era * 146097 + doe - 719468)"

text \<open>\<open>new Date(ms)\<close>: \<open>None\<close> is an invalid date (TimeClip).\<close>

definition trunc_rat :: "rat \<Rightarrow> int" where
  "trunc_rat r = (if r < 0 then - \<lfloor>- r\<rfloor> else \<lfloor>r\<rfloor>)"

fun time_clip :: "jsnum \<Rightarrow> int option" where
  "time_clip (Fin r) = (if \<bar>r\<bar> \<le> 8640000000000000 then Some (trunc_rat r) else None)"
| "time_clip _ = None"

definition utc_civil :: "jsnum \<Rightarrow> (int \<times> int \<times> int) option" where
  "utc_civil ms = map_option (\<lambda>t. civil_of_days (t div 86400000)) (time_clip ms)"

lemma month_day_bounds:
  fixes doy :: int
  assumes "0 \<le> doy" and "doy \<le> 365" and "mp = (5 * doy + 2) div 153"
  shows "0 \<le> mp \<and> mp \<le> 11 \<and> 1 \<le> doy - (153 * mp + 2) div 5 + 1 \<and> doy - (153 * mp + 2) div 5 + 1 \<le> 31"
proof -
  define e where "e = (153 * mp + 2) div 5"
  have 1: "153 * mp \<le> 5 * doy + 2" "5 * doy + 2 < 153 * mp + 153" using assms(3) by linarith+
  have 2: "5 * e \<le> 153 * mp + 2" "153 * mp + 2 < 5 * e + 5" unfolding e_def by linarith+
  have "0 \<le> mp" "mp \<le> 11" "e \<le> doy" "doy - e \<le> 30"
    using 1 2 assms(1,2) by linarith+
  then show ?thesis unfolding e_def by simp
qed

lemma year_day_bounds:
  fixes doc :: int
  shows "0 \<le> doc mod 1461 - 365 * min (doc mod 1461 div 365) 3"
    and "doc mod 1461 - 365 * min (doc mod 1461 div 365) 3 \<le> 365"
  unfolding min_def by (split if_split, linarith)+

lemma civil_bounds:
  assumes "civil_of_days n = (y, m, d)"
  shows "1 \<le> m \<and> m \<le> 12 \<and> 1 \<le> d \<and> d \<le> 31"
proof -
  define doe where "doe = (n + 719468) mod 146097"
  define doc where "doc = doe - 36524 * min (doe div 36524) 3"
  define doy where "doy = doc mod 1461 - 365 * min (doc mod 1461 div 365) 3"
  define mp where "mp = (5 * doy + 2) div 153"
  have "0 \<le> doy" "doy \<le> 365" unfolding doy_def by (rule year_day_bounds)+
  from month_day_bounds [OF this mp_def]
  have b: "0 \<le> mp" "mp \<le> 11" "1 \<le> doy - (153 * mp + 2) div 5 + 1"
      "doy - (153 * mp + 2) div 5 + 1 \<le> 31" by blast+
  have "civil_of_days n = (fst (civil_of_days n),
      (if mp < 10 then mp + 3 else mp - 9), doy - (153 * mp + 2) div 5 + 1)"
    by (simp only: civil_of_days_def Let_def mp_def doy_def doc_def doe_def fst_conv)
  then have md: "m = (if mp < 10 then mp + 3 else mp - 9)" "d = doy - (153 * mp + 2) div 5 + 1"
    using assms by (simp_all only: prod.inject)
  have "1 \<le> m \<and> m \<le> 12" unfolding md(1) using b(1,2) by (simp split: if_split)
  moreover have "1 \<le> d \<and> d \<le> 31" unfolding md(2) using b(3,4) by (rule conjI)
  ultimately show ?thesis by blast
qed

section \<open>JSON.stringify\<close>

text \<open>The other control characters become \<open>\u\<close> escapes with four hexadecimal digits.\<close>

definition hex_digit :: "int \<Rightarrow> char" where
  "hex_digit n = (if n < 10 then digit_char n else char_of (nat (87 + n)))"

definition json_char :: "char \<Rightarrow> string" where
  "json_char c =
     (if c = CHR ''\"'' then [CHR 0x5C, CHR ''\"'']
      else if c = CHR 0x5C then [CHR 0x5C, CHR 0x5C]
      else if c = CHR 0x08 then [CHR 0x5C, CHR ''b'']
      else if c = CHR 0x0C then [CHR 0x5C, CHR ''f'']
      else if c = CHR 0x0A then [CHR 0x5C, CHR ''n'']
      else if c = CHR 0x0D then [CHR 0x5C, CHR ''r'']
      else if c = CHR 0x09 then [CHR 0x5C, CHR ''t'']
      else if char_code c < 32
        then [CHR 0x5C, CHR ''u'', CHR ''0'', CHR ''0'', hex_digit (char_code c div 16), hex_digit (char_code c mod 16)]
      else [c])"

definition json_quote :: "string \<Rightarrow> string" where
  "json_quote s = ''\"'' @ concat (map json_char s) @ ''\"''"

fun json_num :: "jsnum \<Rightarrow> string" where
  "json_num (Fin r) = num_to_string (Fin r)"
| "json_num _ = ''null''"

fun json_stringify :: "jsval \<Rightarrow> string" where
  "json_stringify Undef = ''null''"
| "json_stringify Null = ''null''"
| "json_stringify (Bool b) = (if b then ''true'' else ''false'')"
| "json_stringify (Num x) = json_num x"
| "json_stringify (Str s) = json_quote s"
| "json_stringify (Arr xs) = ''['' @ join_with '','' (map json_stringify xs) @ '']''"
| "json_stringify (Obj ps) =
     ''{'' @ join_with '','' (concat (map (\<lambda>(k, v).
        if v = Undef then [] else [json_quote k @ '':'' @ json_stringify v]) ps)) @ ''}''"

end
