(* ===== verification/Js_Store.thy ===== *)
theory Js_Store
  imports Js_Date
begin

text \<open>
  Keyed stores: the built-in \<open>Map\<close>, \<open>localStorage\<close> and \<open>sessionStorage\<close>.  A client
  reads (\<open>get\<close>), writes (\<open>set\<close>/\<open>setItem\<close>) and removes (\<open>delete\<close>/\<open>removeItem\<close>) by key;
  the laws say what a read returns after each.  The model's stores are property lists with
  \<open>put\<close> and \<open>del\<close> of Js_Value.
\<close>

locale keyed_store =
  fixes empty :: 's
    and get :: "'s \<Rightarrow> 'k \<Rightarrow> 'v option"
    and set :: "'k \<Rightarrow> 'v \<Rightarrow> 's \<Rightarrow> 's"
    and del :: "'k \<Rightarrow> 's \<Rightarrow> 's"
  assumes get_empty: "get empty k = None"
    and get_set: "get (set k v s) j = (if j = k then Some v else get s j)"
    and get_del: "get (del k s) j = (if j = k then None else get s j)"
begin

lemma get_set_same: "get (set k v s) k = Some v"
  by (simp add: get_set)

lemma get_del_same: "get (del k s) k = None"
  by (simp add: get_del)

lemma get_dels: "get (foldr del ks s) j = (if j \<in> List.set ks then None else get s j)"
  by (induction ks) (auto simp: get_del)

lemma get_set_del: "get (del k (set k v s)) j = get (del k s) j"
  by (simp add: get_set get_del)

end

type_synonym storage = "(string \<times> string) list"

interpretation props: keyed_store "[]" map_of put del
  by unfold_locales (auto simp: map_of_put map_of_del)

text \<open>\<open>localStorage.removeItem\<close> for several keys, in the order written.\<close>

definition remove_items :: "string list \<Rightarrow> storage \<Rightarrow> storage" where
  "remove_items ks s = foldr del (rev ks) s"

lemma get_remove_items: "map_of (remove_items ks s) j = (if j \<in> set ks then None else map_of s j)"
  by (simp add: remove_items_def props.get_dels)

text \<open>An empty string read from storage is falsy, as a missing one is.\<close>

definition str_or :: "string option \<Rightarrow> string option \<Rightarrow> string option" where
  "str_or a b = (case a of Some s \<Rightarrow> if s = [] then b else Some s | None \<Rightarrow> b)"

definition str_truthy :: "string option \<Rightarrow> bool" where
  "str_truthy a = (case a of Some s \<Rightarrow> s \<noteq> [] | None \<Rightarrow> False)"

end
