(* ===== verification/Js_Http.thy ===== *)
theory Js_Http
  imports Js_Store
begin

text \<open>
  HTTP requests as the program hands them to axios or fetch: method, URL, query parameters,
  headers and body.  What the server answers is a parameter of the definitions that use it.
  \<open>js_to_string\<close> is the conversion of template literals and string concatenation.
\<close>

datatype http_method = GET | POST | PUT | PATCH | DELETE

record http_request =
  r_method :: http_method
  r_url :: string
  r_params :: jsval
  r_headers :: "(string \<times> string) list"
  r_body :: jsval

fun js_to_string :: "jsval \<Rightarrow> string" where
  "js_to_string Undef = ''undefined''"
| "js_to_string Null = ''null''"
| "js_to_string (Bool b) = (if b then ''true'' else ''false'')"
| "js_to_string (Num x) = num_to_string x"
| "js_to_string (Str s) = s"
| "js_to_string (Arr xs) =
     join_with '','' (map (\<lambda>v. if nullish v then [] else js_to_string v) xs)"
| "js_to_string (Obj _) = ''[object Object]''"

definition http_get :: "string \<Rightarrow> jsval \<Rightarrow> http_request" where
  "http_get url params =
     \<lparr>r_method = GET, r_url = url, r_params = params, r_headers = [], r_body = Undef\<rparr>"

definition http_send :: "http_method \<Rightarrow> string \<Rightarrow> jsval \<Rightarrow> http_request" where
  "http_send m url body =
     \<lparr>r_method = m, r_url = url, r_params = Undef, r_headers = [], r_body = body\<rparr>"

text \<open>The \<open>data\<close> of an axios response.\<close>

definition response_data :: "jsval result \<Rightarrow> jsval result" where
  "response_data resp = res_bind resp (\<lambda>r. get r ''data'')"

text \<open>The error a \<open>catch\<close> clause receives; a \<open>TypeError\<close> is an object with a message.\<close>

definition caught :: "js_error \<Rightarrow> jsval" where
  "caught e = (case e of Thrown v \<Rightarrow> v
                       | TypeError \<Rightarrow> Obj [(''name'', Str ''TypeError''), (''message'', Str ''TypeError'')])"

text \<open>\<open>String.prototype.replace\<close> with a string: the first occurrence.\<close>

fun replace_first :: "string \<Rightarrow> string \<Rightarrow> string \<Rightarrow> string" where
  "replace_first pat rep [] = (if pat = [] then rep else [])"
| "replace_first pat rep (c # cs) =
     (if take (length pat) (c # cs) = pat then rep @ drop (length pat) (c # cs)
      else c # replace_first pat rep cs)"

end
