(* ===== verification/Js_Json.thy ===== *)
theory Js_Json
  imports Js_Http
begin

text \<open>
  \<open>JSON.parse\<close>, \<open>atob\<close> and \<open>Date.prototype.toISOString\<close>, as far as the program uses them.
  The parser spends one unit of fuel per nesting level and per element; every call consumes a
  character, so \<open>length s + 1\<close> units are enough for a text \<open>s\<close>.  A \<open>\u\<close> escape yields the
  UTF-8 bytes of its code unit.
\<close>

section \<open>JSON.parse\<close>

definition skip_ws :: "string \<Rightarrow> string" where
  "skip_ws s = dropWhile (\<lambda>c. char_code c \<in> {9, 10, 13, 32}) s"

definition hex_val :: "char \<Rightarrow> int option" where
  "hex_val c =
     (let n = char_code c in
      if 48 \<le> n \<and> n \<le> 57 then Some (n - 48)
      else if 97 \<le> n \<and> n \<le> 102 then Some (n - 87)
      else if 65 \<le> n \<and> n \<le> 70 then Some (n - 55) else None)"

definition chr :: "int \<Rightarrow> char" where
  "chr n = char_of (nat n)"

definition utf8 :: "int \<Rightarrow> string" where
  "utf8 n =
     (if n < 128 then [chr n]
      else if n < 2048 then [chr (192 + n div 64), chr (128 + n mod 64)]
      else [chr (224 + n div 4096), chr (128 + n div 64 mod 64), chr (128 + n mod 64)])"

definition escape_char :: "char \<Rightarrow> char option" where
  "escape_char c =
     (if c = CHR ''\"'' then Some (CHR ''\"'') else if c = CHR 0x5C then Some (CHR 0x5C)
      else if c = CHR ''/'' then Some (CHR ''/'') else if c = CHR ''b'' then Some (CHR 0x08)
      else if c = CHR ''f'' then Some (CHR 0x0C) else if c = CHR ''n'' then Some (CHR 0x0A)
      else if c = CHR ''r'' then Some (CHR 0x0D) else if c = CHR ''t'' then Some (CHR 0x09) else None)"

fun json_string :: "string \<Rightarrow> (string \<times> string) option" where
  "json_string [] = None"
| "json_string (c # cs) =
     (if c = CHR ''\"'' then Some ([], cs)
      else if char_code c < 32 then None
      else if c = CHR 0x5C then
        (case cs of
           [] \<Rightarrow> None
         | d # ds \<Rightarrow>
             if d = CHR ''u'' then
               (case ds of
                  w # x # y # z # rest \<Rightarrow>
                    (case (hex_val w, hex_val x, hex_val y, hex_val z, json_string rest) of
                       (Some i, Some j, Some k, Some l, Some (t, r)) \<Rightarrow>
                         Some (utf8 (4096 * i + 256 * j + 16 * k + l) @ t, r)
                     | _ \<Rightarrow> None)
                | _ \<Rightarrow> None)
             else (case (escape_char d, json_string ds) of
                     (Some e, Some (t, r)) \<Rightarrow> Some (e # t, r)
                   | _ \<Rightarrow> None))
      else map_option (\<lambda>(t, r). (c # t, r)) (json_string cs))"

text \<open>A JSON number: an integer part without leading zeros, then fraction and exponent.\<close>

definition json_number :: "string \<Rightarrow> (jsnum \<times> string) option" where
  "json_number s =
     (let t = (case s of c # cs \<Rightarrow> if c = CHR ''-'' then cs else s | [] \<Rightarrow> s);
          ip = takeWhile is_digit t; r = dropWhile is_digit t
      in if ip = [] \<or> (hd ip = CHR ''0'' \<and> length ip \<noteq> 1) then None
         else if r \<noteq> [] \<and> hd r = CHR ''.'' \<and> (tl r = [] \<or> \<not> is_digit (hd (tl r))) then None
         else parse_signed s)"

fun json_value :: "nat \<Rightarrow> string \<Rightarrow> (jsval \<times> string) option"
  and json_elems :: "nat \<Rightarrow> string \<Rightarrow> (jsval list \<times> string) option"
  and json_members :: "nat \<Rightarrow> (string \<times> jsval) list \<Rightarrow> string \<Rightarrow> ((string \<times> jsval) list \<times> string) option"
where
  "json_value 0 s = None"
| "json_value (Suc n) s =
     (case skip_ws s of
        [] \<Rightarrow> None
      | c # cs \<Rightarrow>
          if c = CHR ''{'' then
            (case skip_ws cs of
               d # ds \<Rightarrow> if d = CHR ''}'' then Some (Obj [], ds)
                         else map_option (\<lambda>(ps, r). (Obj ps, r)) (json_members n [] (d # ds))
             | [] \<Rightarrow> None)
          else if c = CHR ''['' then
            (case skip_ws cs of
               d # ds \<Rightarrow> if d = CHR '']'' then Some (Arr [], ds)
                         else map_option (\<lambda>(xs, r). (Arr xs, r)) (json_elems n (d # ds))
             | [] \<Rightarrow> None)
          else if c = CHR ''\"'' then map_option (\<lambda>(t, r). (Str t, r)) (json_string cs)
          else if take 4 (c # cs) = ''null'' then Some (Null, drop 4 (c # cs))
          else if take 4 (c # cs) = ''true'' then Some (Bool True, drop 4 (c # cs))
          else if take 5 (c # cs) = ''false'' then Some (Bool False, drop 5 (c # cs))
          else map_option (\<lambda>(x, r). (Num x, r)) (json_number (c # cs)))"
| "json_elems 0 s = None"
| "json_elems (Suc n) s =
     (case json_value n s of
        None \<Rightarrow> None
      | Some (v, r) \<Rightarrow>
          (case skip_ws r of
             c # cs \<Rightarrow> if c = CHR '']'' then Some ([v], cs)
                       else if c = CHR '','' then map_option (\<lambda>(xs, t). (v # xs, t)) (json_elems n cs)
                       else None
           | [] \<Rightarrow> None))"
| "json_members 0 acc s = None"
| "json_members (Suc n) acc s =
     (case skip_ws s of
        c # cs \<Rightarrow>
          if c \<noteq> CHR ''\"'' then None
          else (case json_string cs of
            None \<Rightarrow> None
          | Some (k, r) \<Rightarrow>
              (case skip_ws r of
                 d # ds \<Rightarrow>
                   if d \<noteq> CHR '':'' then None
                   else (case json_value n ds of
                     None \<Rightarrow> None
                   | Some (v, r2) \<Rightarrow>
                       (case skip_ws r2 of
                          e # es \<Rightarrow> if e = CHR ''}'' then Some (put k v acc, es)
                                    else if e = CHR '','' then json_members n (put k v acc) es
                                    else None
                        | [] \<Rightarrow> None))
               | [] \<Rightarrow> None))
      | [] \<Rightarrow> None)"

definition syntax_error :: js_error where
  "syntax_error = Thrown (Obj [(''name'', Str ''SyntaxError'')])"

definition json_parse :: "string \<Rightarrow> jsval result" where
  "json_parse s =
     (case json_value (Suc (length s)) s of
        Some (v, r) \<Rightarrow> if skip_ws r = [] then Inr v else Inl syntax_error
      | None \<Rightarrow> Inl syntax_error)"

section \<open>atob\<close>

definition b64_val :: "char \<Rightarrow> int option" where
  "b64_val c =
     (let n = char_code c in
      if 65 \<le> n \<and> n \<le> 90 then Some (n - 65)
      else if 97 \<le> n \<and> n \<le> 122 then Some (n - 71)
      else if 48 \<le> n \<and> n \<le> 57 then Some (n + 4)
      else if c = CHR ''+'' then Some 62 else if c = CHR ''/'' then Some 63 else None)"

fun b64_bytes :: "int list \<Rightarrow> string" where
  "b64_bytes (a # b # c # d # xs) =
     chr (4 * a + b div 16) # chr (16 * (b mod 16) + c div 4) # chr (64 * (c mod 4) + d) # b64_bytes xs"
| "b64_bytes [a, b, c] = [chr (4 * a + b div 16), chr (16 * (b mod 16) + c div 4)]"
| "b64_bytes [a, b] = [chr (4 * a + b div 16)]"
| "b64_bytes _ = []"

text \<open>Whitespace is dropped, then up to two padding characters of a full last group.\<close>

definition strip_padding :: "string \<Rightarrow> string" where
  "strip_padding s =
     (if length s mod 4 = 0 then
        (case rev s of
           c # d # r \<Rightarrow> if c = CHR ''='' then (if d = CHR ''='' then rev r else rev (d # r)) else s
         | _ \<Rightarrow> s)
      else s)"

definition atob :: "string \<Rightarrow> string result" where
  "atob s =
     (let t = strip_padding (filter (\<lambda>c. char_code c \<notin> {9, 10, 12, 13, 32}) s);
          vs = map b64_val t
      in if length t mod 4 = 1 \<or> None \<in> set vs
         then Inl (Thrown (Obj [(''name'', Str ''InvalidCharacterError'')]))
         else Inr (b64_bytes (map the vs)))"

section \<open>Time stamps\<close>

text \<open>\<open>new Date(now).toISOString()\<close> for a time \<open>now\<close> in whole milliseconds, years 0 to 9999.\<close>

definition to_iso :: "int \<Rightarrow> string" where
  "to_iso now =
     (case civil_of_days (now div 86400000) of (y, m, d) \<Rightarrow>
        let t = now mod 86400000; p2 = (\<lambda>n. pad_start 2 (CHR ''0'') (show_int n))
        in pad_start 4 (CHR ''0'') (show_int y) @ ''-'' @ p2 m @ ''-'' @ p2 d @ ''T'' @
           p2 (t div 3600000) @ '':'' @ p2 (t div 60000 mod 60) @ '':'' @ p2 (t div 1000 mod 60) @
           ''.'' @ pad_start 3 (CHR ''0'') (show_int (t mod 1000)) @ ''Z'')"

section \<open>Storing objects\<close>

text \<open>\<open>\{...v, ...\}\<close>: the entries a spread copies.\<close>

fun entries :: "jsval \<Rightarrow> (string \<times> jsval) list" where
  "entries (Obj ps) = ps"
| "entries (Arr xs) = map (\<lambda>(i, x). (show_nat (int i), x)) (enumerate 0 xs)"
| "entries (Str s) = map (\<lambda>(i, c). (show_nat (int i), Str [c])) (enumerate 0 s)"
| "entries _ = []"

definition spread :: "jsval \<Rightarrow> (string \<times> jsval) list \<Rightarrow> jsval" where
  "spread v ps = Obj (fold (\<lambda>(k, x) acc. put k x acc) ps (entries v))"

text \<open>Assignment \<open>v.k = x\<close>: in a module it throws on primitives.\<close>

fun assign :: "string \<Rightarrow> jsval \<Rightarrow> jsval \<Rightarrow> jsval result" where
  "assign k x (Obj ps) = Inr (Obj (put k x ps))"
| "assign k x (Arr xs) = Inr (Arr xs)"
| "assign k x v = Inl TypeError"

lemma map_of_fold_put:
  "k \<notin> fst ` set ps \<Longrightarrow> map_of (fold (\<lambda>(j, x) acc. put j x acc) ps acc) k = map_of acc k"
  by (induction ps arbitrary: acc) (auto simp: map_of_put)

lemma own_spread_last:
  "own (fold (\<lambda>(j, x) acc. put j x acc) (ps @ [(k, v)]) acc) k = v"
  by (simp add: own_put)

end
