(* ===== verification/Data_Slice.thy ===== *)
theory Data_Slice
  imports Js_Json
begin

text \<open>
  The market-data slice of the Redux store (src/context/dataSlice.js): the helpers that
  read expiries and errors, the normaliser that turns a REST or WebSocket message into the
  shape the components read, the reducer with every action it handles, and the thunks with
  their table of requests in flight.
\<close>

section \<open>Helpers\<close>

record browser =
  local_storage :: storage
  session_storage :: storage
  reloads :: nat

text \<open>The first truthy property of a list, else a default: \<open>v?.a || v?.b || d\<close>.\<close>

definition first_of :: "jsval \<Rightarrow> string list \<Rightarrow> jsval \<Rightarrow> jsval" where
  "first_of v ks d = foldr (\<lambda>k acc. js_or (opt v k) acc) ks d"

definition getAuthToken :: "browser \<Rightarrow> string option" where
  "getAuthToken b = map_of (local_storage b) ''authToken''"

definition handleApiError :: "jsval \<Rightarrow> browser \<Rightarrow> jsval \<times> browser" where
  "handleApiError err b =
     (if strict_eq (opt (opt err ''response'') ''status'') (Num (Fin 401)) then
        let b' = b\<lparr>local_storage := del ''authToken'' (local_storage b)\<rparr>;
            b'' = (if str_truthy (getAuthToken b') then b'\<lparr>reloads := Suc (reloads b')\<rparr> else b')
        in (Str ''Session expired. Please login again.'', b'')
      else if truthy (opt err ''response'') then
        (js_or (opt (opt (opt err ''response'') ''data'') ''message'') (Str ''Server error''), b)
      else if truthy (opt err ''request'') then (Str ''No response from server'', b)
      else (js_or (opt err ''message'') (Str ''An error occurred''), b))"

text \<open>\<open>parseInt\<close> of a value that is neither an object nor a number.\<close>

fun parse_int_val :: "jsval \<Rightarrow> jsnum" where
  "parse_int_val (Str s) = parse_int s"
| "parse_int_val _ = NaN"

fun expiry_number :: "jsval \<Rightarrow> jsnum result" where
  "expiry_number Null = Inl TypeError"
| "expiry_number (Obj ps) = Inr (to_number (first_of (Obj ps) [''exp_sid'', ''value'', ''timestamp''] (Num (Fin 0))))"
| "expiry_number (Arr xs) = Inr (to_number (first_of (Arr xs) [''exp_sid'', ''value'', ''timestamp''] (Num (Fin 0))))"
| "expiry_number (Num x) = Inr x"
| "expiry_number v = Inr (num_or (parse_int_val v) (Fin 0))"

definition math_min :: "jsnum list \<Rightarrow> jsnum" where
  "math_min xs = foldl jmin PInf xs"

fun getLatestExpiry :: "jsval \<Rightarrow> jsval result" where
  "getLatestExpiry (Arr (e # es)) =
     res_bind (res_map expiry_number (e # es)) (\<lambda>ns. Inr (Num (math_min ns)))"
| "getLatestExpiry _ = Inr Null"

definition createRequestKey :: "string \<Rightarrow> jsval \<Rightarrow> string" where
  "createRequestKey action params = action @ ''_'' @ json_stringify params"

definition two_digits :: "int \<Rightarrow> string" where
  "two_digits n = pad_start 2 (CHR ''0'') (show_int n)"

text \<open>
  \<open>MM-DD\<close> of an expiry, or \<open>null\<close>.  A time value outside the range of \<open>Date\<close> has
  \<open>NaN\<close> for its month and day, which \<open>String\<close> prints.
\<close>

definition normalizeExpiryForComparison :: "jsval \<Rightarrow> jsval" where
  "normalizeExpiryForComparison expiry =
     (if \<not> truthy expiry then Null
      else if (case expiry of Str s \<Rightarrow> CHR ''-'' \<in> set s | _ \<Rightarrow> False) then
        (let parts = split_on (CHR ''-'') (hd (split_on (CHR ''T'') (case expiry of Str s \<Rightarrow> s | _ \<Rightarrow> [])))
         in if 3 \<le> length parts then Str (parts ! 1 @ ''-'' @ parts ! 2) else Null)
      else
        (let ts = to_number expiry
         in if ts \<noteq> NaN \<and> ts > Fin 0 then
              (case utc_civil (ts * Fin 1000) of
                 Some (y, m, d) \<Rightarrow> Str (two_digits m @ ''-'' @ two_digits d)
               | None \<Rightarrow> Str ''NaN-NaN'')
            else Null))"

section \<open>The normaliser\<close>

definition transformLeg :: "jsval \<Rightarrow> string \<Rightarrow> jsval" where
  "transformLeg leg type =
     (let z = Num (Fin 0); g = opt leg ''optgeeks'' in Obj
       [(''ltp'', first_of leg [''ltp''] z),
        (''atp'', first_of leg [''atp''] z),
        (''pc'', first_of leg [''pc''] z),
        (''volume'', first_of leg [''volume'', ''vol''] z),
        (''vol'', first_of leg [''vol'', ''volume''] z),
        (''pVol'', first_of leg [''pVol''] z),
        (''OI'', first_of leg [''OI'', ''oi''] z),
        (''oi'', first_of leg [''OI'', ''oi''] z),
        (''oichng'', first_of leg [''oichng'', ''oi_change''] z),
        (''oi_change'', first_of leg [''oichng'', ''oi_change''] z),
        (''p_oi'', first_of leg [''p_oi''] z),
        (''oiperchnge'', first_of leg [''oiperchnge''] z),
        (''iv'', first_of leg [''iv''] z),
        (''optgeeks'', first_of leg [''optgeeks''] (Obj [])),
        (''delta'', first_of g [''delta''] z),
        (''gamma'', first_of g [''gamma''] z),
        (''theta'', first_of g [''theta''] z),
        (''vega'', first_of g [''vega''] z),
        (''p_chng'', first_of leg [''p_chng'', ''change''] z),
        (''p_pchng'', first_of leg [''p_pchng''] z),
        (''bid'', first_of leg [''bid''] z),
        (''ask'', first_of leg [''ask''] z),
        (''bid_qty'', first_of leg [''bid_qty''] z),
        (''ask_qty'', first_of leg [''ask_qty''] z),
        (''btyp'', first_of leg [''btyp''] (Str ''NT'')),
        (''BuiltupName'', first_of leg [''BuiltupName''] (Str ''NEUTRAL'')),
        (''mness'', first_of leg [''mness''] (Str [])),
        (''sym'', first_of leg [''sym''] (Str [])),
        (''sid'', first_of leg [''sid''] z),
        (''disp_sym'', first_of leg [''disp_sym''] (Str [])),
        (''otype'', first_of leg [''otype''] (Str type))])"

definition transformStrike :: "jsnum \<Rightarrow> jsval \<Rightarrow> jsval result" where
  "transformStrike numericKey sd =
     (if nullish sd then Inl TypeError
      else let z = Num (Fin 0); nk = Num numericKey in Inr (Obj
       [(''strike'', first_of sd [''strike''] nk),
        (''strike_price'', first_of sd [''strike_price''] nk),
        (''ce'', transformLeg (opt sd ''ce'') ''CE''),
        (''pe'', transformLeg (opt sd ''pe'') ''PE''),
        (''reversal'', first_of sd [''reversal''] z),
        (''wkly_reversal'', first_of sd [''wkly_reversal''] z),
        (''fut_reversal'', first_of sd [''fut_reversal''] z),
        (''rs'', first_of sd [''rs''] z),
        (''rr'', first_of sd [''rr''] z),
        (''ss'', first_of sd [''ss''] z),
        (''sr_diff'', first_of sd [''sr_diff''] z),
        (''ce_tv'', first_of sd [''ce_tv''] z),
        (''pe_tv'', first_of sd [''pe_tv''] z),
        (''pcr'', first_of sd [''pcr''] z),
        (''trading_signals'', first_of sd [''trading_signals''] (Obj [])),
        (''market_regimes'', first_of sd [''market_regimes''] (Obj [])),
        (''price_range'', first_of sd [''price_range''] (Obj []))]))"

fun transformChain :: "(string \<times> jsval) list \<Rightarrow> (string \<times> jsval) list \<Rightarrow> (string \<times> jsval) list result" where
  "transformChain acc [] = Inr acc"
| "transformChain acc ((k, sd) # ps) =
     (let numericKey = parse_float k
      in res_bind (transformStrike numericKey sd)
           (\<lambda>st. transformChain (put (num_to_string numericKey) st acc) ps))"

definition transformOc :: "jsval \<Rightarrow> jsval result" where
  "transformOc oc =
     (if truthy oc then res_bind (transformChain [] (entries oc)) (\<lambda>ps. Inr (Obj ps))
      else Inr (Obj []))"

definition normalizedShape :: "jsval \<Rightarrow> jsval \<Rightarrow> jsval" where
  "normalizedShape raw oc =
     (let z = Num (Fin 0); spot = opt raw ''spot'' in Obj
       [(''options'', Obj [(''data'', Obj
          [(''oc'', oc),
           (''sltp'', js_or (opt spot ''ltp'') (first_of raw [''sltp''] z)),
           (''schng'', js_or (opt spot ''change'') (first_of raw [''schng''] z)),
           (''sperchng'', js_or (opt spot ''change_percent'') (first_of raw [''sperchng''] z)),
           (''u_id'', first_of raw [''u_id''] z),
           (''fl'', first_of raw [''future'', ''fl''] (Obj [])),
           (''atmiv'', first_of raw [''atmiv''] z),
           (''atmiv_change'', first_of raw [''atmiv_change''] z),
           (''atm_strike'', first_of raw [''atm_strike''] z),
           (''symbol'', opt raw ''symbol''),
           (''expiry'', opt raw ''expiry''),
           (''max_pain_strike'', first_of raw [''max_pain_strike''] z),
           (''dte'', first_of raw [''dte'', ''days_to_expiry''] z),
           (''lot_size'', first_of raw [''lot_size''] (Num (Fin 75))),
           (''total_ce_oi'', first_of raw [''total_ce_oi''] z),
           (''total_pe_oi'', first_of raw [''total_pe_oi''] z),
           (''pcr'', first_of raw [''pcr''] z),
           (''expiry_list'', first_of raw [''expiry_list''] (Arr [])),
           (''analyses'', first_of raw [''hft_analyses'', ''analyses''] (Obj []))])]),
        (''spot'', Obj [(''data'', Obj
          [(''Ltp'', first_of spot [''ltp''] z),
           (''Change'', first_of spot [''change''] z),
           (''ChangePercent'', first_of spot [''change_percent''] z),
           (''ltp'', first_of spot [''ltp''] z),
           (''change'', first_of spot [''change''] z),
           (''change_percent'', first_of spot [''change_percent''] z)])]),
        (''fut'', Obj [(''data'',
           js_or (opt raw ''future'') (first_of (opt raw ''fut'') [''data''] (Obj [])))])])"

definition normalizeBackendData :: "jsval \<Rightarrow> jsval result" where
  "normalizeBackendData raw =
     (if \<not> truthy raw then Inr Null
      else res_bind (transformOc (opt raw ''oc'')) (\<lambda>oc. Inr (normalizedShape raw oc)))"

section \<open>The slice\<close>

record data_state =
  d_data :: jsval
  d_expDate :: jsval
  d_exp_sid :: jsval
  d_ingestedExpiry :: jsval
  d_isExpiryMatch :: bool
  d_sid :: jsval
  d_isOc :: jsval
  d_error :: jsval
  d_isStreaming :: jsval
  d_loading :: bool
  d_popupData :: jsval
  d_connectionMethod :: jsval

definition data_initial :: data_state where
  "data_initial =
     \<lparr>d_data = Obj [], d_expDate = Arr [], d_exp_sid = Null, d_ingestedExpiry = Null,
      d_isExpiryMatch = True, d_sid = Str ''NIFTY'', d_isOc = Bool True, d_error = Null,
      d_isStreaming = Bool False, d_loading = False, d_popupData = Null,
      d_connectionMethod = Str ''api''\<rparr>"

datatype data_action =
    SetExpSid jsval
  | SetIngestedExpiry jsval
  | SetSid jsval
  | SetIsOc jsval
  | UpdateLiveData jsval
  | SetStreamingState jsval
  | SetConnectionMethod jsval
  | ResetError
  | SetPopupData jsval
  | ClearData
  | SetLatestExpiry
  | LivePending
  | LiveFulfilled jsval
  | LiveRejected jsval
  | SocketPending
  | SocketFulfilled
  | SocketRejected jsval
  | InitPending
  | InitFulfilled
  | InitRejected jsval
  | ExpiryPending
  | ExpiryFulfilled jsval
  | ExpiryRejected jsval

definition setExp_sid :: "jsval \<Rightarrow> data_state \<Rightarrow> data_state" where
  "setExp_sid payload s =
     (let newExpiry = Num (to_number payload);
          normalizedNew = normalizeExpiryForComparison newExpiry;
          normalizedIngested = normalizeExpiryForComparison (d_ingestedExpiry s)
      in s\<lparr>d_exp_sid := newExpiry,
           d_isExpiryMatch := (\<not> truthy normalizedIngested \<or> strict_eq normalizedNew normalizedIngested)\<rparr>)"

definition setIngestedExpiry :: "jsval \<Rightarrow> data_state \<Rightarrow> data_state" where
  "setIngestedExpiry payload s =
     (let normalizedIngested = normalizeExpiryForComparison payload;
          normalizedExpSid = normalizeExpiryForComparison (d_exp_sid s)
      in s\<lparr>d_ingestedExpiry := payload,
           d_isExpiryMatch := (\<not> truthy normalizedExpSid \<or> strict_eq normalizedExpSid normalizedIngested)\<rparr>)"

definition setSid :: "jsval \<Rightarrow> data_state \<Rightarrow> data_state" where
  "setSid payload s =
     s\<lparr>d_sid := payload, d_exp_sid := Null, d_ingestedExpiry := Null, d_isExpiryMatch := True,
       d_data := Obj []\<rparr>"

text \<open>\<open>v.length > 0\<close>; every caller passes a truthy value.\<close>

definition has_elements :: "jsval \<Rightarrow> bool" where
  "has_elements v \<longleftrightarrow> to_number (opt v ''length'') > Fin 0"

definition incomingExpiry :: "jsval \<Rightarrow> jsval" where
  "incomingExpiry raw = js_or (opt raw ''expiry'') (opt (opt raw ''context'') ''expiry'')"

definition stored_expiry_list :: "data_state \<Rightarrow> jsval" where
  "stored_expiry_list s = opt (opt (opt (d_data s) ''options'') ''data'') ''expiry_list''"

text \<open>Replace \<open>normalized.options.data.expiry_list\<close>.\<close>

definition with_expiry_list :: "jsval \<Rightarrow> jsval \<Rightarrow> jsval" where
  "with_expiry_list l n =
     set_prop n ''options'' (set_prop (opt n ''options'') ''data''
       (set_prop (opt (opt n ''options'') ''data'') ''expiry_list'' l))"

definition expiry_mismatch :: "data_state \<Rightarrow> jsval \<Rightarrow> bool" where
  "expiry_mismatch s raw \<longleftrightarrow>
     truthy (d_exp_sid s) \<and> truthy (incomingExpiry raw) \<and>
     \<not> strict_eq (normalizeExpiryForComparison (d_exp_sid s))
                 (normalizeExpiryForComparison (incomingExpiry raw))"

definition updateLiveData :: "jsval \<Rightarrow> data_state \<Rightarrow> data_state result" where
  "updateLiveData raw s =
     (if \<not> truthy raw \<or> \<not> truthy (opt raw ''oc'') then Inr s
      else if expiry_mismatch s raw then Inr s
      else res_bind (normalizeBackendData raw) (\<lambda>n.
        let l = opt (opt (opt n ''options'') ''data'') ''expiry_list'';
            n' = (if truthy n \<and> truthy (stored_expiry_list s) \<and>
                     (\<not> truthy l \<or> num_eq (to_number (opt l ''length'')) (Fin 0))
                  then with_expiry_list (stored_expiry_list s) n else n)
        in Inr (s\<lparr>d_data := n', d_connectionMethod := Str ''websocket''\<rparr>)))"

definition setLatestExpiry :: "data_state \<Rightarrow> data_state result" where
  "setLatestExpiry s =
     (if has_elements (d_expDate s) then
        res_bind (getLatestExpiry (d_expDate s)) (\<lambda>latest.
          if truthy latest \<and> \<not> strict_eq latest (d_exp_sid s)
          then Inr (s\<lparr>d_exp_sid := latest\<rparr>) else Inr s)
      else Inr s)"

text \<open>The two shapes of the expiry response.\<close>

definition expiry_dates_of :: "jsval \<Rightarrow> jsval" where
  "expiry_dates_of payload =
     (case payload of
        Arr xs \<Rightarrow> Arr xs
      | _ \<Rightarrow> js_or (opt (opt payload ''data'') ''expiry_dates'')
                 (js_or (opt payload ''expiry_dates'') (Arr [])))"

definition expiryFulfilled :: "jsval \<Rightarrow> data_state \<Rightarrow> data_state result" where
  "expiryFulfilled payload s =
     (let expiryDates = expiry_dates_of payload; s1 = s\<lparr>d_expDate := expiryDates\<rparr>
      in if has_elements expiryDates then
           res_bind (getLatestExpiry expiryDates) (\<lambda>latest.
             if truthy latest
             then Inr (s1\<lparr>d_exp_sid := latest, d_ingestedExpiry := latest,
                          d_isExpiryMatch := True, d_loading := False\<rparr>)
             else Inr (s1\<lparr>d_loading := False\<rparr>))
         else Inr (s1\<lparr>d_loading := False\<rparr>))"

fun data_reducer :: "data_state \<Rightarrow> data_action \<Rightarrow> data_state result" where
  "data_reducer s (SetExpSid p) = Inr (setExp_sid p s)"
| "data_reducer s (SetIngestedExpiry p) = Inr (setIngestedExpiry p s)"
| "data_reducer s (SetSid p) = Inr (setSid p s)"
| "data_reducer s (SetIsOc p) = Inr (s\<lparr>d_isOc := p\<rparr>)"
| "data_reducer s (UpdateLiveData raw) = updateLiveData raw s"
| "data_reducer s (SetStreamingState p) = Inr (s\<lparr>d_isStreaming := p\<rparr>)"
| "data_reducer s (SetConnectionMethod p) = Inr (s\<lparr>d_connectionMethod := p\<rparr>)"
| "data_reducer s ResetError = Inr (s\<lparr>d_error := Null\<rparr>)"
| "data_reducer s (SetPopupData p) = Inr (s\<lparr>d_popupData := p\<rparr>)"
| "data_reducer s ClearData = Inr (s\<lparr>d_data := Obj [], d_error := Null, d_isStreaming := Bool False\<rparr>)"
| "data_reducer s SetLatestExpiry = setLatestExpiry s"
| "data_reducer s LivePending =
     Inr (s\<lparr>d_loading := True, d_error := Null, d_connectionMethod := Str ''api''\<rparr>)"
| "data_reducer s (LiveFulfilled raw) =
     res_bind (normalizeBackendData raw) (\<lambda>n. Inr (s\<lparr>d_data := n, d_loading := False\<rparr>))"
| "data_reducer s (LiveRejected p) =
     Inr (s\<lparr>d_error := js_or p (Str ''Failed to fetch live data''), d_loading := False,
            d_isStreaming := Bool False\<rparr>)"
| "data_reducer s SocketPending =
     Inr (s\<lparr>d_loading := True, d_error := Null, d_connectionMethod := Str ''socket''\<rparr>)"
| "data_reducer s SocketFulfilled = Inr (s\<lparr>d_loading := False\<rparr>)"
| "data_reducer s (SocketRejected p) =
     Inr (s\<lparr>d_error := js_or p (Str ''Failed to connect via socket''), d_loading := False,
            d_isStreaming := Bool False\<rparr>)"
| "data_reducer s InitPending = Inr (s\<lparr>d_loading := True, d_error := Null\<rparr>)"
| "data_reducer s InitFulfilled = Inr (s\<lparr>d_loading := False\<rparr>)"
| "data_reducer s (InitRejected p) =
     Inr (s\<lparr>d_error := js_or p (Str ''Failed to initialize live data''), d_loading := False,
            d_isStreaming := Bool False\<rparr>)"
| "data_reducer s ExpiryPending = Inr (s\<lparr>d_loading := True, d_error := Null\<rparr>)"
| "data_reducer s (ExpiryFulfilled p) = expiryFulfilled p s"
| "data_reducer s (ExpiryRejected p) =
     Inr (s\<lparr>d_error := js_or p (Str ''Failed to fetch expiry dates''), d_loading := False\<rparr>)"

text \<open>A dispatch whose reducer throws leaves the store as it was.\<close>

definition data_dispatch :: "data_state \<Rightarrow> data_action \<Rightarrow> data_state" where
  "data_dispatch s a = (case data_reducer s a of Inl _ \<Rightarrow> s | Inr s' \<Rightarrow> s')"

fun data_run :: "data_state \<Rightarrow> data_action list \<Rightarrow> data_state" where
  "data_run s [] = s"
| "data_run s (a # as) = data_run (data_dispatch s a) as"

section \<open>Thunks and the requests in flight\<close>

text \<open>
  \<open>activeRequests\<close> maps a request key to its promise, here the number of the HTTP request.
  A thunk that finds its key joins that promise; otherwise it needs a token, and then
  registers a new request.  When the request settles, its thunk deletes the key.
\<close>

record fetch_state =
  f_active :: "(string \<times> nat) list"
  f_next :: nat

datatype fetch_start = Joined nat | NoToken | Issued nat

definition fetch_begin :: "string \<Rightarrow> browser \<Rightarrow> fetch_state \<Rightarrow> fetch_start \<times> fetch_state" where
  "fetch_begin key b f =
     (case map_of (f_active f) key of
        Some pid \<Rightarrow> (Joined pid, f)
      | None \<Rightarrow>
          if \<not> str_truthy (getAuthToken b) then (NoToken, f\<lparr>f_active := del key (f_active f)\<rparr>)
          else (Issued (f_next f),
                f\<lparr>f_active := put key (f_next f) (f_active f), f_next := Suc (f_next f)\<rparr>))"

definition fetch_end :: "string \<Rightarrow> fetch_state \<Rightarrow> fetch_state" where
  "fetch_end key f = f\<lparr>f_active := del key (f_active f)\<rparr>"

definition clearActiveRequests :: "fetch_state \<Rightarrow> fetch_state" where
  "clearActiveRequests f = f\<lparr>f_active := []\<rparr>"

definition expiry_symbol :: "jsval \<Rightarrow> jsval" where
  "expiry_symbol params = first_of params [''sid'', ''symbol''] (Str ''NIFTY'')"

definition bearer :: "browser \<Rightarrow> string" where
  "bearer b = ''Bearer '' @ (case getAuthToken b of Some t \<Rightarrow> t | None \<Rightarrow> [])"

definition fetchExpiryDate_key :: "jsval \<Rightarrow> string" where
  "fetchExpiryDate_key params = createRequestKey ''fetchExpiryDate'' params"

text \<open>A thunk's start, with the request it sends when it issues one.\<close>

definition with_request ::
  "http_request \<Rightarrow> fetch_start \<times> fetch_state \<Rightarrow> (fetch_start \<times> http_request option) \<times> fetch_state" where
  "with_request q r =
     ((fst r, case fst r of Issued _ \<Rightarrow> Some q | _ \<Rightarrow> None), snd r)"

definition fetchExpiryDate ::
  "string \<Rightarrow> jsval \<Rightarrow> browser \<Rightarrow> fetch_state \<Rightarrow> (fetch_start \<times> http_request option) \<times> fetch_state" where
  "fetchExpiryDate baseURL params b f =
     with_request
       ((http_get (baseURL @ ''/options/expiry/'' @ js_to_string (expiry_symbol params)) Undef)
          \<lparr>r_headers := [(''Authorization'', bearer b)]\<rparr>)
       (fetch_begin (fetchExpiryDate_key params) b f)"

definition live_params :: "jsval \<Rightarrow> data_state \<Rightarrow> jsval" where
  "live_params params s =
     Obj [(''sid'', js_or (opt params ''sid'') (d_sid s)),
          (''exp_sid'', js_or (opt params ''exp_sid'') (d_exp_sid s))]"

definition fetchLiveData_key :: "jsval \<Rightarrow> data_state \<Rightarrow> string" where
  "fetchLiveData_key params s = createRequestKey ''fetchLiveData'' (live_params params s)"

definition fetchLiveData ::
  "string \<Rightarrow> jsval \<Rightarrow> data_state \<Rightarrow> browser \<Rightarrow> fetch_state \<Rightarrow>
   (fetch_start \<times> http_request option) \<times> fetch_state" where
  "fetchLiveData baseURL params s b f =
     with_request
       ((http_get (baseURL @ ''/options/live'') (live_params params s))
          \<lparr>r_headers := [(''Authorization'', bearer b), (''Content-Type'', ''application/json'')]\<rparr>)
       (fetch_begin (fetchLiveData_key params s) b f)"

text \<open>
  How a thunk's promise settles, as the reducer and \<open>unwrap\<close> see it: fulfilled, rejected
  with a value (\<open>rejectWithValue\<close>), or rejected by an exception, whose action has no payload
  and carries the error serialised by Redux Toolkit (the parameter \<open>ser\<close>).  The thunk that
  issued a request awaits it inside its \<open>try\<close> and rejects with \<open>handleApiError\<close>; a thunk
  that joined returns the promise unawaited, so a failure passes its \<open>catch\<close>.
\<close>

datatype settled = Fulfilled jsval | RejectedWith jsval | RejectedError jsval

fun error_value :: "js_error \<Rightarrow> jsval" where
  "error_value (Thrown v) = v"
| "error_value TypeError = Obj [(''name'', Str ''TypeError'')]"

definition settle_issuer :: "jsval result \<Rightarrow> browser \<Rightarrow> settled \<times> browser" where
  "settle_issuer outcome b =
     (case outcome of
        Inr v \<Rightarrow> (Fulfilled v, b)
      | Inl e \<Rightarrow> (case handleApiError (error_value e) b of (msg, b') \<Rightarrow> (RejectedWith msg, b')))"

definition settle_joiner :: "(jsval \<Rightarrow> jsval) \<Rightarrow> jsval result \<Rightarrow> settled" where
  "settle_joiner ser outcome =
     (case outcome of Inr v \<Rightarrow> Fulfilled v | Inl e \<Rightarrow> RejectedError (ser (error_value e)))"

definition no_token_error :: jsval where
  "no_token_error = Obj [(''message'', Str ''No auth token'')]"

fun unwrap :: "settled \<Rightarrow> jsval result" where
  "unwrap (Fulfilled v) = Inr v"
| "unwrap (RejectedWith p) = Inl (Thrown p)"
| "unwrap (RejectedError e) = Inl (Thrown e)"

fun live_settled_action :: "settled \<Rightarrow> data_action" where
  "live_settled_action (Fulfilled v) = LiveFulfilled v"
| "live_settled_action (RejectedWith p) = LiveRejected p"
| "live_settled_action (RejectedError e) = LiveRejected Undef"

fun socket_settled_action :: "settled \<Rightarrow> data_action" where
  "socket_settled_action (Fulfilled v) = SocketFulfilled"
| "socket_settled_action (RejectedWith p) = SocketRejected p"
| "socket_settled_action (RejectedError e) = SocketRejected Undef"

fun init_settled_action :: "settled \<Rightarrow> data_action" where
  "init_settled_action (Fulfilled v) = InitFulfilled"
| "init_settled_action (RejectedWith p) = InitRejected p"
| "init_settled_action (RejectedError e) = InitRejected Undef"

fun expiry_settled_action :: "settled \<Rightarrow> data_action" where
  "expiry_settled_action (Fulfilled v) = ExpiryFulfilled v"
| "expiry_settled_action (RejectedWith p) = ExpiryRejected p"
| "expiry_settled_action (RejectedError e) = ExpiryRejected Undef"

text \<open>\<open>fetchLiveDataDirectSocket\<close> dispatches \<open>fetchLiveData\<close> and unwraps it, with no \<open>catch\<close>.\<close>

definition fetchLiveDataDirectSocket :: "(jsval \<Rightarrow> jsval) \<Rightarrow> settled \<Rightarrow> data_action list \<times> settled" where
  "fetchLiveDataDirectSocket ser live =
     (let r = (case unwrap live of Inr v \<Rightarrow> Fulfilled v
                                 | Inl e \<Rightarrow> RejectedError (ser (error_value e)))
      in ([SocketPending, LivePending, live_settled_action live, socket_settled_action r], r))"

definition initializeLiveData_key :: "bool \<Rightarrow> data_state \<Rightarrow> string" where
  "initializeLiveData_key useDirectSocket s =
     createRequestKey ''initializeLiveData''
       (Obj [(''useDirectSocket'', Bool useDirectSocket), (''sid'', d_sid s), (''exp_sid'', d_exp_sid s)])"

definition initializeLiveData ::
  "(jsval \<Rightarrow> jsval) \<Rightarrow> bool \<Rightarrow> settled \<Rightarrow> data_action list \<times> settled" where
  "initializeLiveData ser useDirectSocket live =
     (let (acts, inner) = (if useDirectSocket then fetchLiveDataDirectSocket ser live
                           else ([LivePending, live_settled_action live], live));
          r = (case unwrap inner of
                 Inr v \<Rightarrow> Fulfilled v
               | Inl e \<Rightarrow>
                   if nullish (error_value e) then RejectedError (ser (error_value TypeError))
                   else RejectedWith (js_or (opt (error_value e) ''message'')
                                            (Str ''Failed to initialize live data'')))
      in (InitPending # acts @ [init_settled_action r], r))"

text \<open>
  \<open>setSidAndFetchData\<close>: the actions it dispatches and its result, given how the expiry
  request and the live-data request settle.
\<close>

definition setSid_after_expiry :: "jsval \<Rightarrow> jsval result" where
  "setSid_after_expiry expiryResponse =
     (let expiryDates = expiry_dates_of expiryResponse
      in if \<not> truthy (opt expiryDates ''length'') then Inl (Thrown (Str ''No expiry dates available''))
         else res_bind (getLatestExpiry expiryDates) (\<lambda>latest.
           if \<not> truthy latest then Inl (Thrown (Str ''No valid expiry date found'')) else Inr latest))"

definition setSidAndFetchData ::
  "(jsval \<Rightarrow> jsval) \<Rightarrow> jsval \<Rightarrow> bool \<Rightarrow> settled \<Rightarrow> settled \<Rightarrow> data_action list \<times> jsval result" where
  "setSidAndFetchData ser newSid useDirectSocket expiry live =
     (let pre = [SetSid newSid, ExpiryPending, expiry_settled_action expiry]
      in case res_bind (unwrap expiry) setSid_after_expiry of
           Inl e \<Rightarrow> (pre, Inl e)
         | Inr latest \<Rightarrow>
             (case initializeLiveData ser useDirectSocket live of (acts, r) \<Rightarrow>
                (pre @ SetExpSid latest # acts,
                 res_bind (unwrap r) (\<lambda>_. Inr (Obj
                   [(''success'', Bool True), (''sid'', newSid), (''exp_sid'', latest)])))))"

definition stopLiveStream :: "data_action list" where
  "stopLiveStream = [SetStreamingState (Bool False)]"

section \<open>Properties of the normaliser\<close>

lemma js_or_laws [simp]:
  "js_or (js_or a z) z = js_or a z"
  "js_or a (js_or a z) = js_or a z"
  "js_or (js_or a (js_or b z)) z = js_or a (js_or b z)"
  "js_or (js_or a (js_or b z)) (js_or a (js_or b z)) = js_or a (js_or b z)"
  "js_or (js_or a (js_or b z)) (js_or b (js_or a z)) = js_or a (js_or b z)"
  "js_or Undef z = z"
  by (auto simp: js_or_def)

lemma opt_or_object [simp]: "k \<noteq> ''length'' \<Longrightarrow> opt (js_or g (Obj [])) k = opt g k"
  by (cases g) (auto simp: js_or_def)

lemma transformLeg_field [simp]:
  "opt (transformLeg leg t) ''ltp'' = first_of leg [''ltp''] (Num (Fin 0))"
  "opt (transformLeg leg t) ''atp'' = first_of leg [''atp''] (Num (Fin 0))"
  "opt (transformLeg leg t) ''pc'' = first_of leg [''pc''] (Num (Fin 0))"
  "opt (transformLeg leg t) ''volume'' = first_of leg [''volume'', ''vol''] (Num (Fin 0))"
  "opt (transformLeg leg t) ''vol'' = first_of leg [''vol'', ''volume''] (Num (Fin 0))"
  "opt (transformLeg leg t) ''pVol'' = first_of leg [''pVol''] (Num (Fin 0))"
  "opt (transformLeg leg t) ''OI'' = first_of leg [''OI'', ''oi''] (Num (Fin 0))"
  "opt (transformLeg leg t) ''oi'' = first_of leg [''OI'', ''oi''] (Num (Fin 0))"
  "opt (transformLeg leg t) ''oichng'' = first_of leg [''oichng'', ''oi_change''] (Num (Fin 0))"
  "opt (transformLeg leg t) ''oi_change'' = first_of leg [''oichng'', ''oi_change''] (Num (Fin 0))"
  "opt (transformLeg leg t) ''p_oi'' = first_of leg [''p_oi''] (Num (Fin 0))"
  "opt (transformLeg leg t) ''oiperchnge'' = first_of leg [''oiperchnge''] (Num (Fin 0))"
  "opt (transformLeg leg t) ''iv'' = first_of leg [''iv''] (Num (Fin 0))"
  "opt (transformLeg leg t) ''optgeeks'' = first_of leg [''optgeeks''] (Obj [])"
  "opt (transformLeg leg t) ''delta'' = first_of (opt leg ''optgeeks'') [''delta''] (Num (Fin 0))"
  "opt (transformLeg leg t) ''gamma'' = first_of (opt leg ''optgeeks'') [''gamma''] (Num (Fin 0))"
  "opt (transformLeg leg t) ''theta'' = first_of (opt leg ''optgeeks'') [''theta''] (Num (Fin 0))"
  "opt (transformLeg leg t) ''vega'' = first_of (opt leg ''optgeeks'') [''vega''] (Num (Fin 0))"
  "opt (transformLeg leg t) ''p_chng'' = first_of leg [''p_chng'', ''change''] (Num (Fin 0))"
  "opt (transformLeg leg t) ''p_pchng'' = first_of leg [''p_pchng''] (Num (Fin 0))"
  "opt (transformLeg leg t) ''bid'' = first_of leg [''bid''] (Num (Fin 0))"
  "opt (transformLeg leg t) ''ask'' = first_of leg [''ask''] (Num (Fin 0))"
  "opt (transformLeg leg t) ''bid_qty'' = first_of leg [''bid_qty''] (Num (Fin 0))"
  "opt (transformLeg leg t) ''ask_qty'' = first_of leg [''ask_qty''] (Num (Fin 0))"
  "opt (transformLeg leg t) ''btyp'' = first_of leg [''btyp''] (Str ''NT'')"
  "opt (transformLeg leg t) ''BuiltupName'' = first_of leg [''BuiltupName''] (Str ''NEUTRAL'')"
  "opt (transformLeg leg t) ''mness'' = first_of leg [''mness''] (Str [])"
  "opt (transformLeg leg t) ''sym'' = first_of leg [''sym''] (Str [])"
  "opt (transformLeg leg t) ''sid'' = first_of leg [''sid''] (Num (Fin 0))"
  "opt (transformLeg leg t) ''disp_sym'' = first_of leg [''disp_sym''] (Str [])"
  "opt (transformLeg leg t) ''otype'' = first_of leg [''otype''] (Str t)"
  "opt (transformLeg leg t) ''change'' = Undef"
  by (simp_all add: transformLeg_def Let_def)

text \<open>
  normalising a leg is idempotent: a leg that has already been normalised (a REST answer
  sent through the WebSocket path again) is unchanged, whatever value the backend sent.
\<close>

theorem transformLeg_idem: "transformLeg (transformLeg leg t) t = transformLeg leg t"
proof -
  define L where "L = transformLeg leg t"
  note f = transformLeg_field [of leg t, folded L_def]
  have "transformLeg L t = transformLeg leg t"
    unfolding transformLeg_def Let_def by (simp add: first_of_def f)
  then show ?thesis by (simp add: L_def)
qed

lemma res_bind_Inr_iff: "(\<exists>y. res_bind m f = Inr y) \<longleftrightarrow> (\<exists>x. m = Inr x \<and> (\<exists>y. f x = Inr y))"
  by (cases m) auto

lemma transformChain_ok_iff:
  "(\<exists>out. transformChain acc ps = Inr out) \<longleftrightarrow> (\<forall>p \<in> set ps. \<not> nullish (snd p))"
proof (induction ps arbitrary: acc)
  case Nil
  then show ?case by simp
next
  case (Cons p ps)
  then show ?case
    by (cases p) (auto simp: Let_def transformStrike_def)
qed

lemma transformOc_ok_iff:
  "(\<exists>oc'. transformOc oc = Inr oc') \<longleftrightarrow> (truthy oc \<longrightarrow> (\<forall>p \<in> set (entries oc). \<not> nullish (snd p)))"
  using transformChain_ok_iff [of "[]" "entries oc"]
  by (auto simp: transformOc_def res_bind_Inr_iff)

text \<open>
  the normaliser throws on exactly the messages whose option chain holds a null or
  missing strike entry; on every other message it returns a value.
\<close>

theorem normalize_succeeds_iff:
  "(\<exists>n. normalizeBackendData raw = Inr n) \<longleftrightarrow>
   (truthy raw \<longrightarrow> truthy (opt raw ''oc'') \<longrightarrow>
      (\<forall>p \<in> set (entries (opt raw ''oc'')). \<not> nullish (snd p)))"
  using transformOc_ok_iff [of "opt raw ''oc''"]
  by (auto simp: normalizeBackendData_def res_bind_Inr_iff)

theorem normalize_succeeds_iff_witness:
  "\<nexists>n. normalizeBackendData (Obj [(''oc'', Obj [(''100'', Null)])]) = Inr n"
  using normalize_succeeds_iff [of "Obj [(''oc'', Obj [(''100'', Null)])]"] by simp

definition chain_key :: "string \<Rightarrow> string" where
  "chain_key k = num_to_string (parse_float k)"

definition strike_entry :: "string \<Rightarrow> jsval \<Rightarrow> jsval" where
  "strike_entry k sd = (case transformStrike (parse_float k) sd of Inr v \<Rightarrow> v | Inl _ \<Rightarrow> Undef)"

lemma transformChain_lookup:
  "transformChain acc ps = Inr out \<Longrightarrow>
   map_of out = map_of acc ++ map_of (rev (map (\<lambda>(k, sd). (chain_key k, strike_entry k sd)) ps))"
proof (induction ps arbitrary: acc)
  case Nil
  then show ?case by simp
next
  case (Cons p ps)
  obtain k sd where p: "p = (k, sd)" by (cases p)
  obtain st where st: "transformStrike (parse_float k) sd = Inr st"
      and rest: "transformChain (put (num_to_string (parse_float k)) st acc) ps = Inr out"
    using Cons.prems by (cases "transformStrike (parse_float k) sd") (auto simp: p Let_def)
  have e: "strike_entry k sd = st" using st by (simp add: strike_entry_def)
  let ?M = "map_of (rev (map (\<lambda>(k, sd). (chain_key k, strike_entry k sd)) ps))"
  have "map_of out = map_of acc ++ ([chain_key k \<mapsto> strike_entry k sd] ++ ?M)"
    unfolding Cons.IH [OF rest] map_of_put e chain_key_def map_add_assoc by (simp only: map_add_upd map_add_empty)
  then show ?case by (simp add: p map_add_assoc)
qed

text \<open>
  C4: the normalised chain is the raw chain re-keyed by number: under each numeric key it
  holds the normalised strike of the last raw entry with that key, and nothing else.
\<close>

theorem normalized_chain_lookup:
  assumes "transformOc (Obj ps) = Inr oc"
  shows "opt oc key = (case map_of (rev (map (\<lambda>(k, sd). (chain_key k, strike_entry k sd)) ps)) key of
                         Some v \<Rightarrow> v | None \<Rightarrow> Undef)"
proof -
  obtain out where out: "transformChain [] ps = Inr out" and oc: "oc = Obj out"
    using assms by (cases "transformChain [] ps") (auto simp: transformOc_def)
  then show ?thesis
    using transformChain_lookup [OF out] by (simp add: own_def)
qed

theorem normalized_chain_lookup_witness:
  "\<exists>oc. transformOc (Obj [(''5'', Obj [(''pcr'', Num (Fin 1))]), (''5.0'', Obj [(''pcr'', Num (Fin 2))])]) = Inr oc
     \<and> opt (opt oc ''5'') ''pcr'' = Num (Fin 2) \<and> opt (opt oc ''5'') ''strike'' = Num (Fin 5) \<and> opt oc ''6'' = Undef"
proof -
  let ?ps = "[(''5'', Obj [(''pcr'', Num (Fin 1))]), (''5.0'', Obj [(''pcr'', Num (Fin 2))])]"
  have num: "parse_float ''5'' = Fin 5" "parse_float ''5.0'' = Fin 5" and key: "show_pos 5 = ''5''" by code_simp+
  obtain oc where oc: "transformOc (Obj ?ps) = Inr oc"
    by (simp add: transformOc_def transformStrike_def Let_def)
  have entry: "opt (strike_entry ''5.0'' (Obj [(''pcr'', Num (Fin 2))])) ''pcr'' = Num (Fin 2)"
    "opt (strike_entry ''5.0'' (Obj [(''pcr'', Num (Fin 2))])) ''strike'' = Num (Fin 5)"
    by (simp_all add: strike_entry_def transformStrike_def num Let_def first_of_def js_or_def)
  have "opt oc ''5'' = strike_entry ''5.0'' (Obj [(''pcr'', Num (Fin 2))])" and "opt oc ''6'' = Undef"
    using normalized_chain_lookup [OF oc, of "''5''"] normalized_chain_lookup [OF oc, of "''6''"]
    by (simp_all add: chain_key_def num key)
  then show ?thesis using oc entry by simp
qed

section \<open>Properties of the expiry filter\<close>

lemma updateLiveData_cases:
  assumes "updateLiveData raw s = Inr s'"
  obtains "s' = s"
    | n where "\<not> expiry_mismatch s raw" "normalizeBackendData raw = Inr n"
        "s' = s\<lparr>d_data := d_data s', d_connectionMethod := Str ''websocket''\<rparr>"
        "d_data s' = n \<or> d_data s' = with_expiry_list (stored_expiry_list s) n"
  using assms
  by (cases "normalizeBackendData raw") (auto simp: updateLiveData_def Let_def split: if_splits)

lemma opt_set_prop: "opt (set_prop (Obj ps) k x) j = (if j = k then x else opt (Obj ps) j)"
  by (simp add: set_prop_def own_put)

lemma normalized_parts:
  assumes "normalizeBackendData raw = Inr n" and "truthy raw"
  obtains oc where "n = normalizedShape raw oc" "transformOc (opt raw ''oc'') = Inr oc"
  using assms by (cases "transformOc (opt raw ''oc'')") (auto simp: normalizeBackendData_def)

lemma shape_options: "opt (opt (normalizedShape raw oc) ''options'') ''data'' =
    (case opt (normalizedShape raw oc) ''options'' of Obj ps \<Rightarrow> own ps ''data'' | _ \<Rightarrow> Undef)"
  by (simp add: normalizedShape_def Let_def)

lemma with_expiry_list_read:
  "opt (opt (opt (with_expiry_list l (normalizedShape raw oc)) ''options'') ''data'') ''expiry_list'' = l"
  by (simp add: with_expiry_list_def normalizedShape_def Let_def set_prop_def own_put)

lemma stored_list_of_update:
  "stored_expiry_list (s\<lparr>d_data := v, d_connectionMethod := c\<rparr>) =
   opt (opt (opt v ''options'') ''data'') ''expiry_list''"
  by (simp add: stored_expiry_list_def)

text \<open>
  an accepted WebSocket message never loses the expiry list: if the store held one and
  the message brings none (or an empty one), the stored list stays.
\<close>

theorem updateLiveData_keeps_expiry_list:
  assumes "data_reducer s (UpdateLiveData raw) = Inr s'"
    and "truthy (stored_expiry_list s)"
    and "opt raw ''expiry_list'' = Undef \<or> opt raw ''expiry_list'' = Arr []"
  shows "stored_expiry_list s' = stored_expiry_list s"
proof (cases "\<not> truthy raw \<or> \<not> truthy (opt raw ''oc'') \<or> expiry_mismatch s raw")
  case True
  then have "updateLiveData raw s = Inr s" by (auto simp: updateLiveData_def)
  then show ?thesis using assms(1) by simp
next
  case False
  then obtain n where n: "normalizeBackendData raw = Inr n"
    using assms(1) by (cases "normalizeBackendData raw") (auto simp: updateLiveData_def)
  obtain oc where oc: "n = normalizedShape raw oc"
    using n False by (auto elim: normalized_parts)
  let ?l = "opt (opt (opt n ''options'') ''data'') ''expiry_list''"
  have l: "?l = Arr []"
    using assms(3) by (auto simp: oc normalizedShape_def Let_def first_of_def js_or_def)
  have "truthy n" by (simp add: oc normalizedShape_def Let_def)
  moreover have "num_eq (to_number (opt ?l ''length'')) (Fin 0)" by (simp add: l jint_small)
  ultimately have "s' = s\<lparr>d_data := with_expiry_list (stored_expiry_list s) n,
                           d_connectionMethod := Str ''websocket''\<rparr>"
    using assms(1,2) False n by (auto simp: updateLiveData_def Let_def)
  then show ?thesis by (simp add: stored_list_of_update oc with_expiry_list_read)
qed

lemma empty_chain_normalizes:
  "opt raw ''oc'' = Obj [] \<Longrightarrow> truthy raw \<Longrightarrow> normalizeBackendData raw = Inr (normalizedShape raw (Obj []))"
  by (simp add: normalizeBackendData_def transformOc_def)

text \<open>A concrete run: the 30 December expiry is selected and a message for it arrives.\<close>

definition sample_state :: data_state where
  "sample_state = data_initial\<lparr>d_exp_sid := Num (Fin 1451433600),
     d_data := with_expiry_list (Arr [Null]) (normalizedShape (Obj []) (Obj []))\<rparr>"

definition sample_raw :: jsval where
  "sample_raw = Obj [(''oc'', Obj []), (''expiry'', Str ''2025-12-30'')]"

lemma sample_update:
  "\<exists>s'. data_reducer sample_state (UpdateLiveData sample_raw) = Inr s' \<and> s' \<noteq> sample_state"
proof -
  have "normalizeExpiryForComparison (Num (Fin 1451433600)) = Str ''12-30''" by code_simp
  moreover have "normalizeExpiryForComparison (Str ''2025-12-30'') = Str ''12-30''" by code_simp
  ultimately have m: "\<not> expiry_mismatch sample_state sample_raw"
    by (simp add: expiry_mismatch_def sample_state_def sample_raw_def incomingExpiry_def)
  have n: "normalizeBackendData sample_raw = Inr (normalizedShape sample_raw (Obj []))"
    by (rule empty_chain_normalizes) (simp_all add: sample_raw_def)
  have "\<exists>s'. updateLiveData sample_raw sample_state = Inr s' \<and> d_connectionMethod s' = Str ''websocket''"
    using m n by (simp add: updateLiveData_def Let_def) (simp add: sample_raw_def)
  then show ?thesis by (auto simp: sample_state_def data_initial_def)
qed

theorem updateLiveData_keeps_expiry_list_witness:
  "\<exists>s'. data_reducer sample_state (UpdateLiveData sample_raw) = Inr s' \<and>
        stored_expiry_list s' = Arr [Null]"
proof -
  obtain s' where s': "data_reducer sample_state (UpdateLiveData sample_raw) = Inr s'"
    using sample_update by blast
  have l: "stored_expiry_list sample_state = Arr [Null]"
    by (simp add: stored_expiry_list_def sample_state_def with_expiry_list_read)
  have u: "opt sample_raw ''expiry_list'' = Undef" by (simp add: sample_raw_def)
  show ?thesis using updateLiveData_keeps_expiry_list [OF s'] l u s' by auto
qed

section \<open>Invariants of the slice\<close>

text \<open>
  Type invariant: the selected expiry is \<open>null\<close> or a number, and \<open>expDate\<close> is never
  undefined, null or another falsy value.
\<close>

definition data_inv :: "data_state \<Rightarrow> bool" where
  "data_inv s \<longleftrightarrow> (d_exp_sid s = Null \<or> (\<exists>x. d_exp_sid s = Num x)) \<and> truthy (d_expDate s)"

lemma getLatestExpiry_Num: "getLatestExpiry v = Inr r \<Longrightarrow> truthy r \<Longrightarrow> \<exists>x. r = Num x"
proof (cases v rule: getLatestExpiry.cases)
  case (1 e es)
  moreover assume "getLatestExpiry v = Inr r"
  ultimately show ?thesis by (cases "res_map expiry_number (e # es)") (auto simp del: res_map.simps)
qed auto

lemma expiry_dates_truthy: "truthy (expiry_dates_of p)"
  by (cases p) (auto simp: expiry_dates_of_def js_or_def)

lemma data_reducer_inv: "data_inv s \<Longrightarrow> data_reducer s a = Inr s' \<Longrightarrow> data_inv s'"
proof (cases a)
  case (UpdateLiveData raw)
  assume "data_inv s" "data_reducer s a = Inr s'"
  then show ?thesis
    by (auto simp: UpdateLiveData updateLiveData_def Let_def data_inv_def res_bind_def
        split: if_splits sum.splits)
next
  case SetLatestExpiry
  assume "data_inv s" "data_reducer s a = Inr s'"
  then show ?thesis
    by (auto simp: SetLatestExpiry setLatestExpiry_def data_inv_def res_bind_def
        split: if_splits sum.splits dest: getLatestExpiry_Num)
next
  case (ExpiryFulfilled p)
  assume "data_inv s" "data_reducer s a = Inr s'"
  then show ?thesis
    using expiry_dates_truthy [of p]
    by (auto simp: ExpiryFulfilled expiryFulfilled_def data_inv_def res_bind_def Let_def
        split: if_splits sum.splits dest: getLatestExpiry_Num)
qed (auto simp: data_inv_def setExp_sid_def setIngestedExpiry_def setSid_def Let_def res_bind_def
      split: sum.splits)

lemma data_dispatch_inv: "data_inv s \<Longrightarrow> data_inv (data_dispatch s a)"
  by (auto simp: data_dispatch_def split: sum.splits intro: data_reducer_inv)

lemma data_run_inv: "data_inv s \<Longrightarrow> data_inv (data_run s as)"
  by (induction as arbitrary: s) (auto intro: data_dispatch_inv)

text \<open>
  C5: after any sequence of actions from the initial state the selected expiry is null or a
  number (never a string, object or undefined), so its comparison with an incoming expiry is
  always made on a number.
\<close>

theorem reachable_exp_sid_type:
  "d_exp_sid (data_run data_initial as) = Null \<or> (\<exists>x. d_exp_sid (data_run data_initial as) = Num x)"
proof -
  have "data_inv data_initial" by (simp add: data_inv_def data_initial_def)
  then show ?thesis using data_run_inv by (auto simp: data_inv_def)
qed

fun settles :: "data_action \<Rightarrow> bool" where
  "settles (LiveFulfilled _) = True"
| "settles (LiveRejected _) = True"
| "settles SocketFulfilled = True"
| "settles (SocketRejected _) = True"
| "settles InitFulfilled = True"
| "settles (InitRejected _) = True"
| "settles (ExpiryFulfilled _) = True"
| "settles (ExpiryRejected _) = True"
| "settles _ = False"

fun starts :: "data_action \<Rightarrow> bool" where
  "starts LivePending = True"
| "starts SocketPending = True"
| "starts InitPending = True"
| "starts ExpiryPending = True"
| "starts _ = False"

lemma loading_after:
  assumes "data_reducer s a = Inr s'"
  shows "d_loading s' = (if starts a then True else if settles a then False else d_loading s)"
  using assms
  by (cases a) (auto simp: updateLiveData_def setLatestExpiry_def expiryFulfilled_def setExp_sid_def
      setIngestedExpiry_def setSid_def Let_def res_bind_def split: if_splits sum.splits)

text \<open>
  the loading flag is driven by request actions alone: it is set by every pending action,
  cleared by every fulfilled or rejected action that the reducer completes, and left alone by
  every other action.
\<close>

theorem loading_flag:
  "data_reducer s a = Inr s' \<Longrightarrow>
   d_loading s' = (if starts a then True else if settles a then False else d_loading s)"
  by (rule loading_after)

theorem loading_flag_witness:
  "d_loading (data_dispatch data_initial LivePending)"
proof -
  have "data_reducer data_initial LivePending = Inr (data_dispatch data_initial LivePending)"
    by (simp add: data_dispatch_def)
  from loading_flag [OF this] show ?thesis by simp
qed

section \<open>Expiries are compared by month and day\<close>

lemma char_code_digit:
  assumes "0 \<le> n" and "n < 10"
  shows "char_code (digit_char n) = 48 + n"
proof -
  have "nat (48 + n) mod 256 = nat (48 + n)" using assms by (intro mod_less) simp
  then show ?thesis using assms by (simp add: char_code_def digit_char_def)
qed

lemma digit_char_inj:
  assumes "0 \<le> a" "a < 10" "0 \<le> b" "b < 10" "digit_char a = digit_char b"
  shows "a = b"
proof -
  have "char_code (digit_char a) = char_code (digit_char b)" using assms(5) by (rule arg_cong)
  then show ?thesis
    unfolding char_code_digit [OF assms(1,2)] char_code_digit [OF assms(3,4)] by (rule add_left_imp_eq)
qed

lemma two_digits_eq:
  assumes "0 \<le> n" and "n < 100"
  shows "two_digits n = [digit_char (n div 10), digit_char (n mod 10)]"
proof (cases "n < 10")
  case True
  then have "show_int n = [digit_char n]" using assms by (simp add: show_int_def show_nat.simps)
  moreover have "digit_char 0 = CHR ''0''" by code_simp
  ultimately show ?thesis using True assms by (simp add: two_digits_def pad_start_def)
next
  case False
  moreover have "n div 10 < 10" using assms by linarith
  ultimately have "show_int n = [digit_char (n div 10), digit_char (n mod 10)]"
    using assms by (simp add: show_int_def show_nat.simps [of n] show_nat.simps [of "n div 10"])
  then show ?thesis by (simp add: two_digits_def pad_start_def)
qed

lemma two_digits_inj:
  assumes "0 \<le> a" "a < 100" "0 \<le> b" "b < 100"
  shows "two_digits a = two_digits b \<longleftrightarrow> a = b"
proof
  assume "two_digits a = two_digits b"
  then have "digit_char (a div 10) = digit_char (b div 10)" "digit_char (a mod 10) = digit_char (b mod 10)"
    using assms by (simp_all add: two_digits_eq)
  then have "a div 10 = b div 10" "a mod 10 = b mod 10"
    using assms by (auto intro!: digit_char_inj)
  then show "a = b" by (metis mult_div_mod_eq)
qed simp

lemma length_two_digits: "0 \<le> a \<Longrightarrow> a < 100 \<Longrightarrow> length (two_digits a) = 2"
  by (simp add: two_digits_eq)

lemma normalize_timestamp:
  assumes "ts > Fin 0" and "utc_civil (ts * Fin 1000) = Some (y, m, d)"
  shows "normalizeExpiryForComparison (Num ts) = Str (two_digits m @ ''-'' @ two_digits d)"
  using assms by (cases ts) (auto simp: normalizeExpiryForComparison_def)

lemma normalize_date_string:
  assumes "CHR ''-'' \<notin> set y \<union> set m \<union> set d" and "CHR ''T'' \<notin> set y \<union> set m \<union> set d"
  shows "normalizeExpiryForComparison (Str (y @ ''-'' @ m @ ''-'' @ d)) = Str (m @ ''-'' @ d)"
proof -
  have "split_on (CHR ''T'') (y @ ''-'' @ m @ ''-'' @ d) = [y @ ''-'' @ m @ ''-'' @ d]"
    using assms by (intro split_on_notin) auto
  moreover have "split_on (CHR ''-'') (y @ CHR ''-'' # m @ CHR ''-'' # d) = [y, m, d]"
    using assms by (simp add: split_on_append split_on_notin)
  ultimately show ?thesis by (simp add: normalizeExpiryForComparison_def)
qed

lemma utc_civil_range:
  assumes "utc_civil t = Some (y, m, d)"
  shows "0 \<le> m" "m < 100" "0 \<le> d" "d < 100"
  using assms civil_bounds [of _ y m d] by (fastforce simp: utc_civil_def)+

lemma same_day_iff:
  assumes "utc_civil t = Some (y, m, d)" and "utc_civil t' = Some (y', m', d')"
  shows "two_digits m @ ''-'' @ two_digits d = two_digits m' @ ''-'' @ two_digits d' \<longleftrightarrow> m = m' \<and> d = d'"
  using utc_civil_range [OF assms(1)] utc_civil_range [OF assms(2)]
  by (auto simp: two_digits_inj length_two_digits)

text \<open>
  two expiries given as Unix timestamps match exactly when their UTC month and day agree,
  whatever their years: the rule that lets the broker's old-year identifiers match.
\<close>

theorem timestamps_match_iff_same_day:
  assumes "ts > Fin 0" and "utc_civil (ts * Fin 1000) = Some (y, m, d)"
    and "ts' > Fin 0" and "utc_civil (ts' * Fin 1000) = Some (y', m', d')"
  shows "strict_eq (normalizeExpiryForComparison (Num ts)) (normalizeExpiryForComparison (Num ts'))
         \<longleftrightarrow> m = m' \<and> d = d'"
  using same_day_iff [OF assms(2,4)] by (simp add: normalize_timestamp assms)

theorem timestamps_match_iff_same_day_witness:
  "strict_eq (normalizeExpiryForComparison (Num (Fin 1451433600)))
             (normalizeExpiryForComparison (Num (Fin 1767052800)))"
proof -
  have "utc_civil (Fin 1451433600 * Fin 1000) = Some (2015, 12, 30)" by code_simp
  moreover have "utc_civil (Fin 1767052800 * Fin 1000) = Some (2025, 12, 30)" by code_simp
  ultimately show ?thesis
    using timestamps_match_iff_same_day [of "Fin 1451433600" 2015 12 30 "Fin 1767052800" 2025 12 30]
    by simp
qed

text \<open>
  an incoming date string matches a selected timestamp exactly when its month and day are
  the timestamp's UTC month and day, zero-padded; the year is ignored.
\<close>

theorem date_string_matches_timestamp:
  assumes "CHR ''-'' \<notin> set y \<union> set m \<union> set d" and "CHR ''T'' \<notin> set y \<union> set m \<union> set d"
    and "length m = 2"
    and "ts > Fin 0" and "utc_civil (ts * Fin 1000) = Some (y', m', d')"
  shows "strict_eq (normalizeExpiryForComparison (Num ts))
           (normalizeExpiryForComparison (Str (y @ ''-'' @ m @ ''-'' @ d)))
         \<longleftrightarrow> m = two_digits m' \<and> d = two_digits d'"
  using normalize_date_string [OF assms(1,2)] normalize_timestamp [OF assms(4,5)]
    utc_civil_range [OF assms(5)] assms(3)
  by (auto simp: length_two_digits)

theorem date_string_matches_timestamp_witness:
  "strict_eq (normalizeExpiryForComparison (Num (Fin 1451433600)))
             (normalizeExpiryForComparison (Str ''2025-12-30''))"
proof -
  have u: "utc_civil (Fin 1451433600 * Fin 1000) = Some (2015, 12, 30)" by code_simp
  have d: "two_digits 12 = ''12''" "two_digits 30 = ''30''" by code_simp+
  show ?thesis
    using date_string_matches_timestamp [of "''2025''" "''12''" "''30''" "Fin 1451433600" 2015 12 30] u d
    by simp
qed

text \<open>
  The day an expiry names, read off its value: a Unix time in seconds (a number, or its digits) falls on its UTC day; a
  date string, with or without a time after it, names the month and day it is written with.
\<close>

definition digits2 :: "int \<Rightarrow> string" where
  "digits2 n = [digit_char (n div 10), digit_char (n mod 10)]"

definition falls_on :: "jsval \<Rightarrow> int \<Rightarrow> int \<Rightarrow> bool" where
  "falls_on e m d \<longleftrightarrow>
     (\<exists>ts y. (e = Num ts \<or> (\<exists>t. e = Str t \<and> CHR ''-'' \<notin> set t \<and> string_to_number t = ts))
        \<and> Fin 0 < ts \<and> utc_civil (ts * Fin 1000) = Some (y, m, d))
     \<or> (\<exists>y rest. e = Str (y @ ''-'' @ digits2 m @ ''-'' @ digits2 d @ rest)
        \<and> CHR ''-'' \<notin> set y \<and> CHR ''T'' \<notin> set y \<and> hd (rest @ ''T'') = CHR ''T''
        \<and> 1 \<le> m \<and> m \<le> 12 \<and> 1 \<le> d \<and> d \<le> 31)"

lemma digit_char_neq:
  assumes "0 \<le> n" and "n < 10"
  shows "digit_char n \<noteq> CHR ''-'' \<and> digit_char n \<noteq> CHR ''T''"
proof -
  have "char_code (CHR ''-'') = 45" "char_code (CHR ''T'') = 84" by (simp_all add: char_code_def)
  then show ?thesis using char_code_digit [OF assms] assms by (intro conjI notI) simp_all
qed

lemma digits2_plain: "0 \<le> n \<Longrightarrow> n < 100 \<Longrightarrow> CHR ''-'' \<notin> set (digits2 n) \<and> CHR ''T'' \<notin> set (digits2 n)"
proof -
  assume n: "0 \<le> n" "n < 100"
  then have "0 \<le> n div 10" "n div 10 < 10" by linarith+
  then show ?thesis using digit_char_neq [of "n div 10"] digit_char_neq [of "n mod 10"] by (auto simp: digits2_def)
qed

lemma split_first: "c \<notin> set s \<Longrightarrow> hd (rest @ [c]) = c \<Longrightarrow> hd (split_on c (s @ rest)) = s"
  by (cases rest) (auto simp: split_on_append split_on_notin)

lemma falls_on_normalized:
  assumes "falls_on e m d"
  shows "truthy e" and "normalizeExpiryForComparison e = Str (digits2 m @ ''-'' @ digits2 d)"
    and "0 \<le> m \<and> m < 100 \<and> 0 \<le> d \<and> d < 100"
proof -
  from assms have "truthy e \<and> normalizeExpiryForComparison e = Str (digits2 m @ ''-'' @ digits2 d)
      \<and> 0 \<le> m \<and> m < 100 \<and> 0 \<le> d \<and> d < 100"
    unfolding falls_on_def
  proof (elim disjE exE conjE)
    fix ts y assume e: "e = Num ts" and ts: "Fin 0 < ts" "utc_civil (ts * Fin 1000) = Some (y, m, d)"
    have "truthy e" using ts(1) by (cases ts) (simp_all add: e)
    then show ?thesis using normalize_timestamp [OF ts] utc_civil_range [OF ts(2)] by (simp add: e two_digits_eq digits2_def)
  next
    fix ts y t assume e: "e = Str t" and t: "CHR ''-'' \<notin> set t" "string_to_number t = ts"
      and ts: "Fin 0 < ts" "utc_civil (ts * Fin 1000) = Some (y, m, d)"
    have "t \<noteq> []" using t(2) ts(1) by (auto simp: string_to_number_def trim_ws_def)
    then have "normalizeExpiryForComparison e = normalizeExpiryForComparison (Num ts)"
      using t ts(1) by (cases ts) (simp_all add: e normalizeExpiryForComparison_def)
    then show ?thesis using normalize_timestamp [OF ts] utc_civil_range [OF ts(2)] \<open>t \<noteq> []\<close>
      by (simp add: e two_digits_eq digits2_def)
  next
    fix y rest assume e: "e = Str (y @ ''-'' @ digits2 m @ ''-'' @ digits2 d @ rest)"
      and y: "CHR ''-'' \<notin> set y" "CHR ''T'' \<notin> set y" "hd (rest @ ''T'') = CHR ''T''"
      and r: "1 \<le> m" "m \<le> 12" "1 \<le> d" "d \<le> 31"
    let ?date = "y @ ''-'' @ digits2 m @ ''-'' @ digits2 d"
    have plain: "CHR ''-'' \<notin> set (digits2 m) \<and> CHR ''T'' \<notin> set (digits2 m)"
      "CHR ''-'' \<notin> set (digits2 d) \<and> CHR ''T'' \<notin> set (digits2 d)"
      using digits2_plain r by simp_all
    then have "CHR ''T'' \<notin> set ?date" using y by simp
    from split_first [OF this y(3)] have "hd (split_on (CHR ''T'') (?date @ rest)) = ?date" .
    moreover have "split_on (CHR ''-'') (y @ CHR ''-'' # digits2 m @ CHR ''-'' # digits2 d) = [y, digits2 m, digits2 d]"
      using y plain by (simp add: split_on_append split_on_notin)
    ultimately show ?thesis using r by (simp add: e normalizeExpiryForComparison_def)
  qed
  then show "truthy e" "normalizeExpiryForComparison e = Str (digits2 m @ ''-'' @ digits2 d)"
    "0 \<le> m \<and> m < 100 \<and> 0 \<le> d \<and> d < 100" by blast+
qed

lemma digits2_inj: "0 \<le> a \<Longrightarrow> a < 100 \<Longrightarrow> 0 \<le> b \<Longrightarrow> b < 100 \<Longrightarrow> digits2 a = digits2 b \<longleftrightarrow> a = b"
  using two_digits_inj [of a b] by (simp add: two_digits_eq digits2_def)

lemma mismatch_iff_other_day:
  assumes "falls_on (d_exp_sid s) m d" and "falls_on (incomingExpiry raw) m' d'"
  shows "expiry_mismatch s raw \<longleftrightarrow> \<not> (m = m' \<and> d = d')"
proof -
  note sel = falls_on_normalized [OF assms(1)] and inc = falls_on_normalized [OF assms(2)]
  have "digits2 m @ ''-'' @ digits2 d = digits2 m' @ ''-'' @ digits2 d' \<longleftrightarrow> digits2 m = digits2 m' \<and> digits2 d = digits2 d'"
    by (simp add: digits2_def)
  then show ?thesis
    using sel inc digits2_inj [of m m'] digits2_inj [of d d'] by (simp add: expiry_mismatch_def del: append_Cons append_assoc)
qed

text \<open>
  C1: With an expiry selected, a WebSocket message that names its expiry is taken over exactly when both fall on the same
  month and day, in whichever of the two formats each is given and whatever the years: then only the data and the
  connection method change, to the normalised message (with the stored list of expiries where it brings none); a message
  for any other day leaves the whole state as it was.
\<close>

theorem updateLiveData_respects_expiry:
  assumes "falls_on (d_exp_sid s) m d" and "falls_on (incomingExpiry raw) m' d'"
    and "truthy (opt raw ''oc'')" and "normalizeBackendData raw = Inr n"
  shows "\<exists>n'. data_reducer s (UpdateLiveData raw) =
      Inr (if m = m' \<and> d = d' then s\<lparr>d_data := n', d_connectionMethod := Str ''websocket''\<rparr> else s)
    \<and> (n' = n \<or> n' = with_expiry_list (stored_expiry_list s) n)"
proof -
  have "truthy raw" using assms(3) by (cases raw) auto
  then show ?thesis
    using mismatch_iff_other_day [OF assms(1,2)] assms(3,4) by (auto simp: updateLiveData_def Let_def)
qed

theorem updateLiveData_respects_expiry_witness:
  "(\<exists>s'. data_reducer sample_state (UpdateLiveData sample_raw) = Inr s' \<and> d_connectionMethod s' = Str ''websocket'')
   \<and> data_reducer sample_state (UpdateLiveData (Obj [(''oc'', Obj []), (''expiry'', Str ''2025-11-30T00:00:00'')])) = Inr sample_state"
proof -
  let ?other = "Obj [(''oc'', Obj []), (''expiry'', Str ''2025-11-30T00:00:00'')]"
  have d: "digits2 12 = ''12''" "digits2 30 = ''30''" "digits2 11 = ''11''" by code_simp+
  have "utc_civil (Fin 1451433600 * Fin 1000) = Some (2015, 12, 30)" by code_simp
  then have sel: "falls_on (d_exp_sid sample_state) 12 30" by (auto simp: falls_on_def sample_state_def)
  have "falls_on (Str (''2025'' @ ''-'' @ digits2 12 @ ''-'' @ digits2 30 @ [])) 12 30"
    unfolding falls_on_def by (rule disjI2, intro exI conjI, rule refl) simp_all
  then have same: "falls_on (incomingExpiry sample_raw) 12 30" by (simp add: d sample_raw_def incomingExpiry_def)
  have "falls_on (Str (''2025'' @ ''-'' @ digits2 11 @ ''-'' @ digits2 30 @ ''T00:00:00'')) 11 30"
    unfolding falls_on_def by (rule disjI2, intro exI conjI, rule refl) simp_all
  then have other: "falls_on (incomingExpiry ?other) 11 30" by (simp add: d incomingExpiry_def)
  have n: "normalizeBackendData sample_raw = Inr (normalizedShape sample_raw (Obj []))"
    "normalizeBackendData ?other = Inr (normalizedShape ?other (Obj []))"
    by (rule empty_chain_normalizes; simp add: sample_raw_def)+
  have oc: "truthy (opt sample_raw ''oc'')" "truthy (opt ?other ''oc'')" by (simp_all add: sample_raw_def)
  show ?thesis
    using updateLiveData_respects_expiry [OF sel same oc(1) n(1)] updateLiveData_respects_expiry [OF sel other oc(2) n(2)]
    by auto
qed

section \<open>Selecting a symbol\<close>

lemma math_min_spec:
  assumes "\<forall>x \<in> set xs. \<exists>r. x = Fin r" and "xs \<noteq> []"
  shows "math_min xs \<in> set xs \<and> (\<forall>x \<in> set xs. math_min xs \<le> x)"
proof -
  have "\<forall>x \<in> set xs. \<exists>r. x = Fin r \<Longrightarrow> acc \<noteq> NaN \<Longrightarrow>
      (foldl jmin acc xs = acc \<or> foldl jmin acc xs \<in> set xs) \<and> foldl jmin acc xs \<noteq> NaN \<and>
      foldl jmin acc xs \<le> acc \<and> (\<forall>x \<in> set xs. foldl jmin acc xs \<le> x)" for acc
  proof (induction xs arbitrary: acc)
    case Nil
    then show ?case by (cases acc) auto
  next
    case (Cons x xs)
    obtain r where x: "x = Fin r" using Cons.prems by auto
    have nn: "jmin acc x \<noteq> NaN" "jmin acc x = acc \<or> jmin acc x = x" "jmin acc x \<le> acc" "jmin acc x \<le> x"
      using Cons.prems(2) by (cases acc; auto simp: jmin_def x)+
    from Cons.prems(1) have fin: "\<forall>x \<in> set xs. \<exists>r. x = Fin r" by simp
    let ?R = "foldl jmin (jmin acc x) xs"
    from Cons.IH [OF fin nn(1)]
    have ih: "?R = jmin acc x \<or> ?R \<in> set xs" "?R \<noteq> NaN" "?R \<le> jmin acc x" "\<forall>x \<in> set xs. ?R \<le> x"
      by blast+
    have "?R \<le> acc" "?R \<le> x" using ih(3) nn(3,4) jsnum_le_trans by blast+
    then show ?case using ih nn(2) by auto
  qed
  from this [of PInf] assms have
    "(math_min xs = PInf \<or> math_min xs \<in> set xs) \<and> (\<forall>x \<in> set xs. math_min xs \<le> x)"
    by (auto simp: math_min_def)
  moreover have "math_min xs \<noteq> PInf"
  proof
    assume "math_min xs = PInf"
    then have "\<forall>x \<in> set xs. PInf \<le> x" using calculation by simp
    then show False using assms by (metis less_eq_jsnum.simps list.set_intros(1) neq_Nil_conv jsnum.exhaust less_eq_jsnum.simps(6))
  qed
  ultimately show ?thesis by blast
qed

lemma res_map_numbers: "res_map expiry_number (map Num xs) = Inr xs"
  by (induction xs) auto

lemma getLatestExpiry_numbers: "xs \<noteq> [] \<Longrightarrow> getLatestExpiry (Arr (map Num xs)) = Inr (Num (math_min xs))"
proof -
  assume "xs \<noteq> []"
  then obtain y ys where xs: "xs = y # ys" by (cases xs) auto
  have "getLatestExpiry (Arr (map Num xs)) =
      res_bind (res_map expiry_number (map Num xs)) (\<lambda>ns. Inr (Num (math_min ns)))"
    by (simp add: xs del: res_map.simps)
  then show ?thesis by (simp only: res_map_numbers res_bind_simps)
qed

text \<open>
  C0: despite its name, \<open>getLatestExpiry\<close> of a non-empty array of timestamps is the earliest of
  them: the result is in the array and no element is smaller.
\<close>

theorem getLatestExpiry_is_earliest:
  assumes "\<forall>x \<in> set xs. \<exists>r. x = Fin r" and "xs \<noteq> []"
  shows "\<exists>m. getLatestExpiry (Arr (map Num xs)) = Inr (Num m) \<and> m \<in> set xs \<and> (\<forall>x \<in> set xs. m \<le> x)"
  using getLatestExpiry_numbers [OF assms(2)] math_min_spec [OF assms] by blast

theorem getLatestExpiry_is_earliest_witness:
  "\<exists>m. getLatestExpiry (Arr (map Num [Fin 30, Fin 10, Fin 20])) = Inr (Num m) \<and>
       m \<in> set [Fin 30, Fin 10, Fin 20] \<and> (\<forall>x \<in> set [Fin 30, Fin 10, Fin 20]. m \<le> x)"
  by (rule getLatestExpiry_is_earliest) auto

lemma data_run_append: "data_run s (as @ bs) = data_run (data_run s as) bs"
  by (induction as arbitrary: s) auto

lemma expiry_dates_of_nested:
  "expiry_dates_of (Obj [(''data'', Obj [(''expiry_dates'', Arr es)])]) = Arr es"
  by (simp add: expiry_dates_of_def js_or_def)

lemma normalize_expiry_refl:
  "truthy (normalizeExpiryForComparison v) \<Longrightarrow>
   strict_eq (normalizeExpiryForComparison v) (normalizeExpiryForComparison v)"
  by (auto simp: normalizeExpiryForComparison_def Let_def split: option.splits)

lemma setExp_same_match:
  "d_isExpiryMatch (setExp_sid v (s\<lparr>d_ingestedExpiry := Num (to_number v)\<rparr>))"
  by (auto simp: setExp_sid_def Let_def intro: normalize_expiry_refl)

definition after_expiry :: "jsval \<Rightarrow> jsval \<Rightarrow> jsnum \<Rightarrow> data_state \<Rightarrow> data_state" where
  "after_expiry symb dates x s =
     setExp_sid (Num x) ((setSid symb s)\<lparr>d_error := Null, d_expDate := dates, d_exp_sid := Num x,
       d_ingestedExpiry := Num x, d_isExpiryMatch := True, d_loading := False\<rparr>)"

lemma setSid_prefix_run:
  assumes "getLatestExpiry (Arr es) = Inr (Num x)" and "num_truthy x" and "es \<noteq> []"
  shows "data_run s [SetSid symb, ExpiryPending, ExpiryFulfilled (Arr es), SetExpSid (Num x)] =
         after_expiry symb (Arr es) x s"
proof -
  have "has_elements (Arr es)"
    using assms(3) by (simp add: has_elements_def jint_pos)
  then show ?thesis
    using assms by (simp add: data_dispatch_def expiryFulfilled_def expiry_dates_of_def after_expiry_def Let_def setSid_def)
qed

lemma setSid_prefix_run_payload:
  assumes "expiry_dates_of payload = Arr es"
    and "getLatestExpiry (Arr es) = Inr (Num x)" and "num_truthy x" and "es \<noteq> []"
  shows "data_run s [SetSid symb, ExpiryPending, ExpiryFulfilled payload, SetExpSid (Num x)] =
         after_expiry symb (Arr es) x s"
proof -
  have "expiryFulfilled payload t = expiryFulfilled (Arr es) t" for t
    by (simp add: expiryFulfilled_def assms(1) expiry_dates_of_def [of "Arr es"])
  then show ?thesis
    using setSid_prefix_run [OF assms(2-4), of s symb] by (simp add: data_dispatch_def)
qed

lemma after_expiry_fields:
  "d_sid (after_expiry symb ds x s) = symb" "d_exp_sid (after_expiry symb ds x s) = Num x"
  "d_isExpiryMatch (after_expiry symb ds x s)" "d_error (after_expiry symb ds x s) = Null"
  using setExp_same_match [of "Num x"]
  by (simp_all add: after_expiry_def setExp_sid_def setSid_def Let_def)

lemma setSid_after_expiry_ok:
  assumes "expiry_dates_of payload = Arr es"
    and "getLatestExpiry (Arr es) = Inr (Num x)" and "num_truthy x" and "es \<noteq> []"
  shows "setSid_after_expiry payload = Inr (Num x)"
proof -
  have "jint (int (length es)) > Fin 0" using assms(4) by (intro jint_pos) simp
  then have "num_truthy (jint (int (length es)))" by (cases "jint (int (length es))") auto
  then show ?thesis using assms by (simp add: setSid_after_expiry_def)
qed

text \<open>
  C2: switching the symbol, when both requests succeed and the backend lists timestamps, ends with the store on the new
  symbol and the least of the listed timestamps as its expiry, the expiry flag set, the normalised answer as data, no
  error and nothing loading, and the thunk returns that expiry.
\<close>

theorem setSidAndFetchData_ok:
  assumes "expiry_dates_of payload = Arr (map Num xs)" and "xs \<noteq> []" and "\<forall>x \<in> set xs. \<exists>q. x = Fin q \<and> 0 < q"
    and "normalizeBackendData raw = Inr n"
    and "setSidAndFetchData ser symb False (Fulfilled payload) (Fulfilled raw) = (acts, r)"
    and "s' = data_run s acts"
  shows "\<exists>x \<in> set xs. (\<forall>y \<in> set xs. x \<le> y)
       \<and> r = Inr (Obj [(''success'', Bool True), (''sid'', symb), (''exp_sid'', Num x)])
       \<and> d_sid s' = symb \<and> d_exp_sid s' = Num x \<and> d_isExpiryMatch s' \<and> d_data s' = n
       \<and> d_error s' = Null \<and> \<not> d_loading s'"
proof -
  let ?x = "math_min xs"
  have "\<forall>x \<in> set xs. \<exists>r. x = Fin r" using assms(3) by blast
  then have least: "?x \<in> set xs" "\<forall>y \<in> set xs. ?x \<le> y" using math_min_spec assms(2) by blast+
  have ok: "getLatestExpiry (Arr (map Num xs)) = Inr (Num ?x)" "num_truthy ?x" "map Num xs \<noteq> []"
    using getLatestExpiry_numbers [OF assms(2)] assms(2,3) least(1) by auto
  have a: "acts = [SetSid symb, ExpiryPending, ExpiryFulfilled payload, SetExpSid (Num ?x)] @
            [InitPending, LivePending, LiveFulfilled raw, InitFulfilled]"
    and r: "r = Inr (Obj [(''success'', Bool True), (''sid'', symb), (''exp_sid'', Num ?x)])"
    using assms(5) setSid_after_expiry_ok [OF assms(1) ok]
    by (auto simp: setSidAndFetchData_def initializeLiveData_def)
  let ?t = "after_expiry symb (Arr (map Num xs)) ?x s"
  have "s' = data_run ?t [InitPending, LivePending, LiveFulfilled raw, InitFulfilled]"
    unfolding assms(6) a data_run_append setSid_prefix_run_payload [OF assms(1) ok] ..
  then show ?thesis
    using r assms(4) least after_expiry_fields [of symb "Arr (map Num xs)" ?x s]
    by (intro bexI [of _ ?x]) (simp_all add: data_dispatch_def)
qed

theorem setSidAndFetchData_ok_witness:
  "d_exp_sid (data_run data_initial (fst (setSidAndFetchData id (Str ''BANKNIFTY'') False
      (Fulfilled (Arr [Num (Fin 1767657600), Num (Fin 1767052800)])) (Fulfilled (Obj []))))) = Num (Fin 1767052800)"
proof -
  let ?xs = "[Fin 1767657600, Fin 1767052800]"
  have n: "normalizeBackendData (Obj []) = Inr (normalizedShape (Obj []) (Obj []))"
    by (simp add: normalizeBackendData_def transformOc_def)
  have dates: "expiry_dates_of (Arr [Num (Fin 1767657600), Num (Fin 1767052800)]) = Arr (map Num ?xs)"
    by (simp add: expiry_dates_of_def)
  show ?thesis
    using setSidAndFetchData_ok [OF dates _ _ n prod.collapse [symmetric] refl, of id "Str ''BANKNIFTY''" data_initial] by auto
qed

text \<open>
  a symbol without expiries leaves the store on the new symbol with no data, no expiry and
  nothing loading, and the thunk fails with its message.
\<close>

theorem setSidAndFetchData_no_expiries:
  assumes "expiry_dates_of payload = Arr []"
    and "setSidAndFetchData ser symb direct (Fulfilled payload) live = (acts, r)"
    and "s' = data_run s acts"
  shows "r = Inl (Thrown (Str ''No expiry dates available''))
       \<and> d_sid s' = symb \<and> d_exp_sid s' = Null \<and> d_data s' = Obj [] \<and> \<not> d_loading s'"
proof -
  have "acts = [SetSid symb, ExpiryPending, ExpiryFulfilled payload]"
    and r: "r = Inl (Thrown (Str ''No expiry dates available''))"
    using assms(1,2) by (auto simp: setSidAndFetchData_def setSid_after_expiry_def jint_def)
  then show ?thesis
    using assms by (auto simp: data_dispatch_def expiryFulfilled_def has_elements_def setSid_def Let_def jint_def)
qed

theorem setSidAndFetchData_no_expiries_witness:
  "snd (setSidAndFetchData id (Str ''XYZ'') True (Fulfilled (Obj [])) (Fulfilled Null)) =
   Inl (Thrown (Str ''No expiry dates available''))"
proof -
  have "expiry_dates_of (Obj []) = Arr []" by (simp add: expiry_dates_of_def)
  from setSidAndFetchData_no_expiries [OF this prod.collapse [symmetric] refl]
  show ?thesis by blast
qed

text \<open>
  a live-data answer is stored whatever symbol is selected when it arrives: an answer
  requested for one symbol, arriving after the user switched to another, becomes the data of
  the new symbol.
\<close>

theorem stale_live_answer_is_stored:
  assumes "normalizeBackendData raw = Inr n"
  shows "d_data (data_run s [LivePending, SetSid new, LiveFulfilled raw]) = n
       \<and> d_sid (data_run s [LivePending, SetSid new, LiveFulfilled raw]) = new"
  using assms by (simp add: data_dispatch_def setSid_def)

theorem stale_live_answer_is_stored_witness:
  "d_sid (data_run data_initial [LivePending, SetSid (Str ''BANKNIFTY''), LiveFulfilled Null]) = Str ''BANKNIFTY''
   \<and> d_data (data_run data_initial [LivePending, SetSid (Str ''BANKNIFTY''), LiveFulfilled Null]) = Null"
proof -
  have "normalizeBackendData Null = Inr Null" by (simp add: normalizeBackendData_def)
  from stale_live_answer_is_stored [OF this, of data_initial "Str ''BANKNIFTY''"] show ?thesis by simp
qed

text \<open>
  the two actions that set the expiry flag disagree on a missing expiry: selecting an expiry
  while none is ingested sets the flag, but clearing the ingested expiry while one is selected
  unsets it.
\<close>

theorem expiry_flag_asymmetry:
  "d_isExpiryMatch (setExp_sid p (s\<lparr>d_ingestedExpiry := Null\<rparr>)) \<and>
   (d_isExpiryMatch (setIngestedExpiry Null s) \<longleftrightarrow>
      \<not> truthy (normalizeExpiryForComparison (d_exp_sid s)))"
proof -
  have null: "normalizeExpiryForComparison Null = Null" by (simp add: normalizeExpiryForComparison_def)
  have "\<not> strict_eq (normalizeExpiryForComparison v) Null"
    if "truthy (normalizeExpiryForComparison v)" for v
    using that by (cases "normalizeExpiryForComparison v") auto
  then show ?thesis by (auto simp: setExp_sid_def setIngestedExpiry_def Let_def null)
qed

text \<open>
  C0: on every error \<open>handleApiError\<close> never reloads the page: a 401 removes the token first,
  so the test that guards the reload always fails.  It removes the token exactly on a 401.
\<close>

theorem handleApiError_effect:
  assumes "handleApiError err b = (msg, b')"
  shows "reloads b' = reloads b \<and> session_storage b' = session_storage b \<and>
         getAuthToken b' = (if strict_eq (opt (opt err ''response'') ''status'') (Num (Fin 401))
                            then None else getAuthToken b)"
  using assms
  by (auto simp: handleApiError_def Let_def getAuthToken_def str_truthy_def props.get_del split: if_splits)

theorem handleApiError_effect_witness:
  "reloads (snd (handleApiError (Obj [(''response'', Obj [(''status'', Num (Fin 401))])])
      \<lparr>local_storage = [(''authToken'', ''t'')], session_storage = [], reloads = 0\<rparr>)) = 0"
  using handleApiError_effect [OF prod.collapse [symmetric]] by simp

text \<open>
  the data thunks send a request only while the browser holds a token, the request carries
  that token, and the live-data request names the given symbol and expiry or else the selected
  ones.
\<close>

theorem data_requests_authorised:
  assumes "fetchLiveData baseURL params s b f = ((st, Some q), f')"
  shows "(\<exists>t. getAuthToken b = Some t \<and> t \<noteq> [] \<and> (''Authorization'', ''Bearer '' @ t) \<in> set (r_headers q))
       \<and> r_url q = baseURL @ ''/options/live''
       \<and> opt (r_params q) ''sid'' = js_or (opt params ''sid'') (d_sid s)
       \<and> opt (r_params q) ''exp_sid'' = js_or (opt params ''exp_sid'') (d_exp_sid s)"
proof -
  have "fst (fetch_begin (fetchLiveData_key params s) b f) = Issued pid \<Longrightarrow> str_truthy (getAuthToken b)" for pid
    by (auto simp: fetch_begin_def split: option.splits if_splits)
  then have "str_truthy (getAuthToken b)" and "q = (http_get (baseURL @ ''/options/live'') (live_params params s))
      \<lparr>r_headers := [(''Authorization'', bearer b), (''Content-Type'', ''application/json'')]\<rparr>"
    using assms by (auto simp: fetchLiveData_def with_request_def split: fetch_start.splits)
  then show ?thesis
    by (auto simp: http_get_def bearer_def str_truthy_def live_params_def split: option.splits)
qed

theorem data_requests_authorised_witness:
  "\<exists>q. snd (fst (fetchLiveData ''b'' Undef data_initial
      \<lparr>local_storage = [(''authToken'', ''t'')], session_storage = [], reloads = 0\<rparr>
      \<lparr>f_active = [], f_next = 0\<rparr>)) = Some q \<and> r_url q = ''b/options/live''"
proof -
  let ?b = "\<lparr>local_storage = [(''authToken'', ''t'')], session_storage = [], reloads = 0\<rparr>"
  let ?f = "\<lparr>f_active = [], f_next = 0\<rparr>"
  obtain st q f' where c: "fetchLiveData ''b'' Undef data_initial ?b ?f = ((st, Some q), f')"
    by (simp add: fetchLiveData_def with_request_def fetch_begin_def getAuthToken_def str_truthy_def)
  then show ?thesis using data_requests_authorised [OF c] by simp
qed

section \<open>Requests in flight\<close>

text \<open>
  The wire: the requests sent and not settled, with their keys.  A step is one thunk starting
  (with whatever token the browser holds then) or one request settling.
\<close>

type_synonym wire = "(string \<times> nat) list"

inductive fetch_step :: "fetch_state \<times> wire \<Rightarrow> fetch_state \<times> wire \<Rightarrow> bool" where
  issue: "fetch_begin key b f = (Issued pid, f') \<Longrightarrow> fetch_step (f, w) (f', (key, pid) # w)"
| join: "fetch_begin key b f = (Joined pid, f') \<Longrightarrow> fetch_step (f, w) (f', w)"
| refuse: "fetch_begin key b f = (NoToken, f') \<Longrightarrow> fetch_step (f, w) (f', w)"
| settle: "(key, pid) \<in> set w \<Longrightarrow>
     fetch_step (f, w) (fetch_end key f, filter (\<lambda>r. r \<noteq> (key, pid)) w)"

inductive fetch_reachable :: "fetch_state \<times> wire \<Rightarrow> bool" where
  start: "fetch_reachable (\<lparr>f_active = [], f_next = 0\<rparr>, [])"
| step: "fetch_reachable s \<Longrightarrow> fetch_step s t \<Longrightarrow> fetch_reachable t"

definition fetch_inv :: "fetch_state \<times> wire \<Rightarrow> bool" where
  "fetch_inv s \<longleftrightarrow>
     map_of (f_active (fst s)) = map_of (snd s) \<and> distinct (map fst (snd s)) \<and>
     (\<forall>r \<in> set (snd s). snd r < f_next (fst s))"

lemma map_of_filter_pair:
  "distinct (map fst w) \<Longrightarrow> (k, p) \<in> set w \<Longrightarrow> map_of (filter (\<lambda>r. r \<noteq> (k, p)) w) = (map_of w)(k := None)"
proof (induction w)
  case Nil
  then show ?case by simp
next
  case (Cons r w)
  show ?case
  proof (cases "r = (k, p)")
    case True
    then have "k \<notin> fst ` set w" using Cons.prems by auto
    then have "filter (\<lambda>r. r \<noteq> (k, p)) w = w" by (force simp: filter_id_conv)
    moreover have "map_of w k = None" using \<open>k \<notin> fst ` set w\<close> by (simp add: map_of_eq_None_iff)
    ultimately show ?thesis using True by (auto simp: fun_eq_iff)
  next
    case False
    then have "fst r \<noteq> k" using Cons.prems by (cases r) force
    then show ?thesis using Cons False by (cases r) (auto simp: fun_upd_twist)
  qed
qed

lemma fetch_step_inv: "fetch_step s t \<Longrightarrow> fetch_inv s \<Longrightarrow> fetch_inv t"
proof (induction rule: fetch_step.induct)
  case (issue key b f pid f' w)
  then have "map_of w key = None"
    by (auto simp: fetch_begin_def fetch_inv_def split: option.splits if_splits)
  then show ?case
    using issue by (auto simp: fetch_begin_def fetch_inv_def map_of_put map_of_eq_None_iff less_Suc_eq
        split: option.splits if_splits)
next
  case (join key b f pid f' w)
  then show ?case by (auto simp: fetch_begin_def split: option.splits if_splits)
next
  case (refuse key b f f' w)
  then show ?case
    by (auto simp: fetch_begin_def fetch_inv_def map_of_del split: option.splits if_splits)
next
  case (settle key pid w f)
  have "distinct (map fst (filter (\<lambda>r. r \<noteq> (key, pid)) w))"
    using settle by (auto simp: fetch_inv_def intro: distinct_map_filter)
  then show ?case
    using settle by (auto simp: fetch_inv_def fetch_end_def map_of_del map_of_filter_pair)
qed

lemma fetch_reachable_inv: "fetch_reachable s \<Longrightarrow> fetch_inv s"
proof (induction rule: fetch_reachable.induct)
  case start
  then show ?case by (simp add: fetch_inv_def)
next
  case (step s t)
  then show ?case by (blast intro: fetch_step_inv)
qed

text \<open>
  C3: request deduplication: in every reachable state there is at most one request on the wire
  per key, and a thunk that joins waits for a request that is on the wire under its own key.
\<close>

theorem fetch_dedup:
  assumes "fetch_reachable (f, w)"
  shows "distinct (map fst w) \<and> (fetch_begin key b f = (Joined pid, f') \<longrightarrow> (key, pid) \<in> set w)"
proof -
  have inv: "fetch_inv (f, w)" using assms by (rule fetch_reachable_inv)
  then show ?thesis
    by (auto simp: fetch_inv_def fetch_begin_def split: option.splits if_splits dest: map_of_SomeD)
qed

theorem fetch_dedup_witness:
  "\<exists>f w. fetch_reachable (f, w) \<and> w = [(''k'', 0)] \<and> distinct (map fst w)"
proof -
  let ?b = "\<lparr>local_storage = [(''authToken'', ''t'')], session_storage = [], reloads = 0\<rparr>"
  have "fetch_begin ''k'' ?b \<lparr>f_active = [], f_next = 0\<rparr> =
      (Issued 0, \<lparr>f_active = [(''k'', 0)], f_next = 1\<rparr>)"
    by (simp add: fetch_begin_def getAuthToken_def str_truthy_def put_def)
  then have "fetch_reachable (\<lparr>f_active = [(''k'', 0)], f_next = 1\<rparr>, [(''k'', 0)])"
    by (intro fetch_reachable.step [OF fetch_reachable.start] fetch_step.issue)
  then show ?thesis using fetch_dedup by blast
qed

end
