(* ===== verification/Auth_Slice.thy ===== *)
theory Auth_Slice
  imports Js_Json
begin

text \<open>
  Authentication (src/context/authSlice.js): the token manager over \<open>localStorage\<close>,
  \<open>sessionStorage\<close>, the default header of axios and the refresh timers; the slice's reducer
  with its side effects; the thunks that initialise, refresh and log out; and the listeners
  Firebase calls.  Firebase itself is a parameter: the current user, the token it issues and
  whether signing out succeeds.  Times are whole milliseconds.
\<close>

section \<open>The token manager\<close>

record auth_env =
  a_local :: storage
  a_session :: storage
  a_header :: "string option"
  a_timers :: "(nat \<times> int) list"
  a_next_timer :: nat
  a_timeouts :: "(string \<times> nat) list"
  a_isRefreshing :: bool
  a_refreshPromise :: bool

definition env_initial :: "storage \<Rightarrow> storage \<Rightarrow> auth_env" where
  "env_initial l s =
     \<lparr>a_local = l, a_session = s, a_header = None, a_timers = [], a_next_timer = 0,
      a_timeouts = [], a_isRefreshing = False, a_refreshPromise = False\<rparr>"

definition local_item :: "auth_env \<Rightarrow> string \<Rightarrow> string option" where
  "local_item e k = map_of (a_local e) k"

definition session_item :: "auth_env \<Rightarrow> string \<Rightarrow> string option" where
  "session_item e k = map_of (a_session e) k"

text \<open>\<open>localStorage.getItem(k) || sessionStorage.getItem(k)\<close>.\<close>

definition stored :: "auth_env \<Rightarrow> string \<Rightarrow> string option" where
  "stored e k = str_or (local_item e k) (session_item e k)"

text \<open>\<open>JSON.parse(atob(token.split(".")[1]))\<close>; a token without a dot has no second part.\<close>

definition token_payload :: "string \<Rightarrow> jsval result" where
  "token_payload token =
     (let parts = split_on (CHR ''.'') token
      in res_bind (atob (if length parts < 2 then ''undefined'' else parts ! 1)) json_parse)"

definition isTokenExpired :: "int \<Rightarrow> string option \<Rightarrow> bool" where
  "isTokenExpired now token =
     (if \<not> str_truthy token then True
      else case res_bind (token_payload (the token)) (\<lambda>p. get p ''exp'') of
             Inl e \<Rightarrow> True
           | Inr ex \<Rightarrow> to_number ex \<le> jint (now div 1000 + 300))"

definition drop_if_expired :: "int \<Rightarrow> storage \<Rightarrow> storage \<times> bool" where
  "drop_if_expired now s =
     (let token = map_of s ''authToken''
      in if str_truthy token \<and> isTokenExpired now token
         then (remove_items [''authToken'', ''user''] s, True) else (s, False))"

definition clearExpiredTokens :: "int \<Rightarrow> auth_env \<Rightarrow> bool \<times> auth_env" where
  "clearExpiredTokens now e =
     (case (drop_if_expired now (a_local e), drop_if_expired now (a_session e)) of
        ((l, b1), (s, b2)) \<Rightarrow> (b1 \<or> b2, e\<lparr>a_local := l, a_session := s\<rparr>))"

definition auth_keys :: "string list" where
  "auth_keys = [''authToken'', ''user'', ''redirectAfterLogin'']"

definition clearAllAuthData :: "auth_env \<Rightarrow> auth_env" where
  "clearAllAuthData e =
     e\<lparr>a_local := remove_items auth_keys (a_local e),
       a_session := remove_items auth_keys (a_session e), a_header := None\<rparr>"

text \<open>\<open>setTimeout\<close> reads its delay as a 32-bit integer, at least zero.\<close>

fun timer_delay :: "jsnum \<Rightarrow> int" where
  "timer_delay (Fin r) = max 0 ((trunc_rat r + 2147483648) mod 4294967296 - 2147483648)"
| "timer_delay _ = 0"

definition scheduleTokenRefresh :: "int \<Rightarrow> auth_env \<Rightarrow> auth_env" where
  "scheduleTokenRefresh now e =
     (let token = stored e ''authToken''
      in if isTokenExpired now token then e
         else case res_bind (token_payload (the token)) (\<lambda>p. get p ''exp'') of
                Inl _ \<Rightarrow> e
              | Inr ex \<Rightarrow>
                  (let refreshTime = to_number ex * Fin 1000 - jint now - Fin 600000
                   in if refreshTime > Fin 0
                      then e\<lparr>a_timers := (a_next_timer e, now + timer_delay refreshTime) # a_timers e,
                             a_next_timer := Suc (a_next_timer e),
                             a_timeouts := put ''main'' (a_next_timer e) (a_timeouts e)\<rparr>
                      else e))"

definition cleanup :: "auth_env \<Rightarrow> auth_env" where
  "cleanup e =
     e\<lparr>a_timers := filter (\<lambda>t. fst t \<notin> snd ` set (a_timeouts e)) (a_timers e),
       a_timeouts := [], a_isRefreshing := False, a_refreshPromise := False\<rparr>"

section \<open>The slice\<close>

record auth_state =
  u_user :: jsval
  u_isAuthenticated :: bool
  u_loading :: bool
  u_error :: jsval
  u_authLoading :: jsval
  u_lastActivity :: jsval
  u_tokenRefreshing :: jsval
  u_initializationComplete :: bool

definition auth_initial :: auth_state where
  "auth_initial =
     \<lparr>u_user = Null, u_isAuthenticated = False, u_loading = False, u_error = Null,
      u_authLoading = Bool True, u_lastActivity = Null, u_tokenRefreshing = Bool False,
      u_initializationComplete = False\<rparr>"

datatype auth_action =
    SetUser jsval
  | ClearUser
  | UpdateTokenData jsval
  | SetTokenRefreshing jsval
  | UpdateLastActivity
  | SetInitializationComplete
  | SetAuthLoading jsval
  | InitializePending
  | InitializeFulfilled jsval
  | InitializeRejected jsval
  | RefreshPending
  | RefreshFulfilled jsval
  | RefreshRejected jsval
  | LogoutPending
  | LogoutFulfilled
  | LogoutRejected jsval

definition set_token_fields :: "int \<Rightarrow> jsval \<Rightarrow> jsval \<Rightarrow> jsval result" where
  "set_token_fields now payload user =
     res_bind (get payload ''token'') (\<lambda>tok.
     res_bind (assign ''token'' tok user) (\<lambda>u1.
     res_bind (assign ''tokenExpiry'' (opt payload ''expiry'') u1) (\<lambda>u2.
     assign ''lastRefresh'' (Str (to_iso now)) u2)))"

definition setUser :: "int \<Rightarrow> jsval \<Rightarrow> auth_state \<times> auth_env \<Rightarrow> (auth_state \<times> auth_env) result" where
  "setUser now payload se =
     res_bind (get payload ''token'') (\<lambda>tok. Inr
       ((fst se)\<lparr>u_user := payload, u_isAuthenticated := True, u_loading := False, u_error := Null,
           u_lastActivity := Num (jint now), u_authLoading := Bool False,
           u_initializationComplete := True\<rparr>,
        (if truthy tok then (snd se)\<lparr>a_header := Some (''Bearer '' @ js_to_string tok)\<rparr> else snd se)))"

definition clearUser :: "auth_state \<times> auth_env \<Rightarrow> auth_state \<times> auth_env" where
  "clearUser se =
     ((fst se)\<lparr>u_user := Null, u_isAuthenticated := False, u_loading := False, u_error := Null,
         u_lastActivity := Null, u_tokenRefreshing := Bool False, u_authLoading := Bool False,
         u_initializationComplete := True\<rparr>,
      cleanup (clearAllAuthData (snd se)))"

definition updateTokenData :: "int \<Rightarrow> jsval \<Rightarrow> auth_state \<Rightarrow> auth_state result" where
  "updateTokenData now payload s =
     (if truthy (u_user s) then
        res_bind (set_token_fields now payload (u_user s)) (\<lambda>u.
          Inr (s\<lparr>u_user := u, u_tokenRefreshing := Bool False\<rparr>))
      else Inr (s\<lparr>u_tokenRefreshing := Bool False\<rparr>))"

definition initializeFulfilled :: "int \<Rightarrow> jsval \<Rightarrow> auth_state \<Rightarrow> auth_state result" where
  "initializeFulfilled now payload s =
     (let s1 = s\<lparr>u_authLoading := Bool False, u_initializationComplete := True\<rparr>
      in res_bind (get payload ''isAuthenticated'') (\<lambda>a.
           if truthy a then Inr (s1\<lparr>u_user := opt payload ''user'', u_isAuthenticated := True,
                                    u_lastActivity := Num (jint now)\<rparr>)
           else Inr (s1\<lparr>u_user := Null, u_isAuthenticated := False\<rparr>)))"

definition refreshFulfilled :: "int \<Rightarrow> jsval \<Rightarrow> auth_state \<Rightarrow> auth_state result" where
  "refreshFulfilled now payload s =
     (let s1 = s\<lparr>u_tokenRefreshing := Bool False\<rparr>
      in if truthy (u_user s) \<and> truthy payload then
           res_bind (set_token_fields now payload (u_user s)) (\<lambda>u. Inr (s1\<lparr>u_user := u\<rparr>))
         else Inr s1)"

definition on_state :: "(auth_state \<Rightarrow> auth_state result) \<Rightarrow> auth_state \<times> auth_env \<Rightarrow>
    (auth_state \<times> auth_env) result" where
  "on_state f se = res_bind (f (fst se)) (\<lambda>s. Inr (s, snd se))"

fun auth_reducer :: "int \<Rightarrow> auth_state \<times> auth_env \<Rightarrow> auth_action \<Rightarrow> (auth_state \<times> auth_env) result" where
  "auth_reducer now se (SetUser p) = setUser now p se"
| "auth_reducer now se ClearUser = Inr (clearUser se)"
| "auth_reducer now se (UpdateTokenData p) = on_state (updateTokenData now p) se"
| "auth_reducer now se (SetTokenRefreshing p) = on_state (\<lambda>s. Inr (s\<lparr>u_tokenRefreshing := p\<rparr>)) se"
| "auth_reducer now se UpdateLastActivity = on_state (\<lambda>s. Inr (s\<lparr>u_lastActivity := Num (jint now)\<rparr>)) se"
| "auth_reducer now se SetInitializationComplete =
     on_state (\<lambda>s. Inr (s\<lparr>u_initializationComplete := True, u_authLoading := Bool False\<rparr>)) se"
| "auth_reducer now se (SetAuthLoading p) = on_state (\<lambda>s. Inr (s\<lparr>u_authLoading := p\<rparr>)) se"
| "auth_reducer now se InitializePending =
     on_state (\<lambda>s. Inr (s\<lparr>u_authLoading := Bool True, u_initializationComplete := False, u_error := Null\<rparr>)) se"
| "auth_reducer now se (InitializeFulfilled p) = on_state (initializeFulfilled now p) se"
| "auth_reducer now se (InitializeRejected p) =
     on_state (\<lambda>s. Inr (s\<lparr>u_authLoading := Bool False, u_initializationComplete := True, u_user := Null,
       u_isAuthenticated := False,
       u_error := js_or (opt p ''message'') (Str ''Authentication initialization failed'')\<rparr>)) se"
| "auth_reducer now se RefreshPending = on_state (\<lambda>s. Inr (s\<lparr>u_tokenRefreshing := Bool True\<rparr>)) se"
| "auth_reducer now se (RefreshFulfilled p) = on_state (refreshFulfilled now p) se"
| "auth_reducer now se (RefreshRejected p) =
     Inr ((fst se)\<lparr>u_tokenRefreshing := Bool False, u_error := p, u_user := Null, u_isAuthenticated := False\<rparr>,
          clearAllAuthData (snd se))"
| "auth_reducer now se LogoutPending = on_state (\<lambda>s. Inr (s\<lparr>u_loading := True\<rparr>)) se"
| "auth_reducer now se LogoutFulfilled =
     on_state (\<lambda>s. Inr (s\<lparr>u_user := Null, u_isAuthenticated := False, u_loading := False, u_error := Null,
       u_lastActivity := Null, u_tokenRefreshing := Bool False, u_authLoading := Bool False\<rparr>)) se"
| "auth_reducer now se (LogoutRejected p) =
     on_state (\<lambda>s. Inr (s\<lparr>u_user := Null, u_isAuthenticated := False, u_loading := False, u_error := p\<rparr>)) se"

section \<open>Thunks\<close>

definition not_authenticated :: jsval where
  "not_authenticated = Obj [(''user'', Null), (''isAuthenticated'', Bool False)]"

text \<open>
  \<open>initializeAuth\<close>: what it returns and what it leaves behind.  Nothing in it throws outside
  the inner \<open>try\<close>, so it is always fulfilled.
\<close>

definition initializeAuth :: "int \<Rightarrow> auth_env \<Rightarrow> jsval \<times> auth_env" where
  "initializeAuth now e0 =
     (case clearExpiredTokens now e0 of (had, e) \<Rightarrow>
        if had then (not_authenticated, e)
        else
          let storedUser = stored e ''user''; storedToken = stored e ''authToken''
          in if str_truthy storedUser \<and> str_truthy storedToken then
               (case json_parse (the storedUser) of
                  Inl _ \<Rightarrow> (not_authenticated, clearAllAuthData e)
                | Inr parsedUser \<Rightarrow>
                    if \<not> isTokenExpired now storedToken then
                      (Obj [(''user'', spread parsedUser [(''token'', Str (the storedToken))]),
                            (''isAuthenticated'', Bool True)],
                       scheduleTokenRefresh now (e\<lparr>a_header := Some (''Bearer '' @ the storedToken)\<rparr>))
                    else (not_authenticated, clearAllAuthData e))
             else (not_authenticated, e))"

text \<open>
  \<open>refreshUserToken\<close> starts by joining a refresh under way, or by marking one.  Without a
  Firebase user the inner function throws before the promise is stored, so the flag is down
  while a (rejected) promise is stored; with one it awaits the token.
\<close>

datatype refresh_start = JoinRefresh | NoCurrentUser | AwaitToken

definition refresh_begin :: "bool \<Rightarrow> auth_env \<Rightarrow> refresh_start \<times> auth_env" where
  "refresh_begin hasUser e =
     (if a_isRefreshing e \<and> a_refreshPromise e then (JoinRefresh, e)
      else if \<not> hasUser then (NoCurrentUser, e\<lparr>a_isRefreshing := False, a_refreshPromise := True\<rparr>)
      else (AwaitToken, e\<lparr>a_isRefreshing := True, a_refreshPromise := True\<rparr>))"

text \<open>Storing the refreshed user; the token is stored before the user is parsed.\<close>

definition store_refreshed :: "int \<Rightarrow> string \<Rightarrow> storage \<Rightarrow> storage \<times> unit result" where
  "store_refreshed now token st =
     (let st1 = put ''authToken'' token st; storedUser = map_of st1 ''user''
      in if \<not> str_truthy storedUser then (st1, Inr ())
         else case res_bind (json_parse (the storedUser))
                     (set_token_fields now (Obj [(''token'', Str token), (''expiry'', Num (jint (now + 3300000)))])) of
                Inl e \<Rightarrow> (st1, Inl e)
              | Inr u \<Rightarrow> (put ''user'' (json_stringify u) st1, Inr ()))"

definition refresh_finish :: "int \<Rightarrow> string result \<Rightarrow> auth_env \<Rightarrow> jsval result \<times> auth_env" where
  "refresh_finish now outcome e =
     (let idle = (\<lambda>e. e\<lparr>a_isRefreshing := False, a_refreshPromise := False\<rparr>)
      in case outcome of
           Inl err \<Rightarrow> (Inl err, idle e)
         | Inr token \<Rightarrow>
             (let inLocal = str_truthy (local_item e ''authToken'');
                  (st, r) = store_refreshed now token (if inLocal then a_local e else a_session e);
                  e1 = (if inLocal then e\<lparr>a_local := st\<rparr> else e\<lparr>a_session := st\<rparr>)
              in case r of
                   Inl err \<Rightarrow> (Inl err, idle e1)
                 | Inr _ \<Rightarrow>
                     (Inr (Obj [(''token'', Str token), (''expiry'', Num (jint (now + 3300000)))]),
                      idle (e1\<lparr>a_header := Some (''Bearer '' @ token)\<rparr>))))"

text \<open>
  The promise is returned unawaited, so a failure escapes the thunk's \<open>catch\<close>: the rejected
  action has no payload.
\<close>

definition refresh_action :: "jsval result \<Rightarrow> auth_action" where
  "refresh_action r = (case r of Inr v \<Rightarrow> RefreshFulfilled v | Inl _ \<Rightarrow> RefreshRejected Undef)"

text \<open>\<open>performLogout\<close>, given whether Firebase signs out (\<open>None\<close>) or throws.\<close>

definition performLogout :: "jsval option \<Rightarrow> auth_env \<Rightarrow> auth_action \<times> auth_env" where
  "performLogout signOutError e =
     (let e' = cleanup (clearAllAuthData e)
      in case signOutError of
           None \<Rightarrow> (LogoutFulfilled, e')
         | Some err \<Rightarrow> (LogoutRejected (opt err ''message''), e'))"

section \<open>The Firebase listeners\<close>

text \<open>Where the user is stored: \<open>localStorage\<close> unless only \<open>sessionStorage\<close> holds one.\<close>

definition uses_local :: "auth_env \<Rightarrow> bool" where
  "uses_local e =
     (if str_truthy (stored e ''user'') then str_truthy (local_item e ''user'') else True)"

definition store_user :: "string \<Rightarrow> string \<Rightarrow> auth_env \<Rightarrow> auth_env" where
  "store_user user token e =
     (if uses_local e
      then e\<lparr>a_local := put ''authToken'' token (put ''user'' user (a_local e))\<rparr>
      else e\<lparr>a_session := put ''authToken'' token (put ''user'' user (a_session e))\<rparr>)"

definition backend_user :: "jsval result \<Rightarrow> jsval" where
  "backend_user verify =
     (case verify of
        Inl _ \<Rightarrow> Null
      | Inr response \<Rightarrow> js_or (opt (opt response ''data'') ''user'')
                            (opt (opt (opt response ''data'') ''data'') ''user''))"

definition backend_fields :: "string list" where
  "backend_fields = [''id'', ''username'', ''full_name'', ''role'', ''is_premium'', ''is_active'',
     ''is_email_verified'', ''subscription_expires'', ''login_provider'', ''preferences'', ''phone'',
     ''bio'', ''location'']"

definition user_data :: "int \<Rightarrow> jsval \<Rightarrow> string \<Rightarrow> jsval \<Rightarrow> jsval" where
  "user_data now user token backendUser =
     spread (Obj [(''uid'', opt user ''uid''), (''email'', opt user ''email''),
                  (''displayName'', opt user ''displayName''), (''photoURL'', opt user ''photoURL''),
                  (''token'', Str token), (''tokenExpiry'', Num (jint (now + 3300000))),
                  (''lastRefresh'', Str (to_iso now))])
       (if truthy backendUser then map (\<lambda>k. (k, opt backendUser k)) backend_fields else [])"

datatype theme_choice = DarkTheme | LightTheme

definition theme_of :: "jsval \<Rightarrow> theme_choice option" where
  "theme_of userData =
     (let t = opt (opt userData ''preferences'') ''theme''
      in if truthy t then Some (if strict_eq t (Str ''dark'') then DarkTheme else LightTheme) else None)"

definition auth_dispatch :: "int \<Rightarrow> auth_state \<times> auth_env \<Rightarrow> auth_action \<Rightarrow> auth_state \<times> auth_env" where
  "auth_dispatch now se a = (case auth_reducer now se a of Inl _ \<Rightarrow> se | Inr se' \<Rightarrow> se')"

text \<open>The first authentication event: \<open>user\<close> is Firebase's user or a falsy value.\<close>

definition first_auth_event ::
  "int \<Rightarrow> jsval \<Rightarrow> string result \<Rightarrow> jsval result \<Rightarrow> auth_state \<times> auth_env \<Rightarrow>
   (auth_state \<times> auth_env) \<times> theme_choice option" where
  "first_auth_event now user idToken verify se =
     (if \<not> truthy user then (auth_dispatch now se SetInitializationComplete, None)
      else case idToken of
        Inl _ \<Rightarrow> (auth_dispatch now se SetInitializationComplete, None)
      | Inr token \<Rightarrow>
          (let userData = user_data now user token (backend_user verify);
               e1 = store_user (json_stringify userData) token (snd se);
               (s2, e2) = auth_dispatch now (fst se, e1) (SetUser userData)
           in ((s2, scheduleTokenRefresh now e2), theme_of userData)))"

definition auth_event ::
  "int \<Rightarrow> bool \<Rightarrow> jsval \<Rightarrow> string result \<Rightarrow> jsval result \<Rightarrow> auth_state \<times> auth_env \<Rightarrow>
   (auth_state \<times> auth_env) \<times> theme_choice option" where
  "auth_event now initialized user idToken verify se =
     (if \<not> initialized then first_auth_event now user idToken verify se
      else if \<not> truthy user then (auth_dispatch now se ClearUser, None) else (se, None))"

definition auth_error_event :: "int \<Rightarrow> auth_state \<times> auth_env \<Rightarrow> auth_state \<times> auth_env" where
  "auth_error_event now se = auth_dispatch now se SetInitializationComplete"

definition id_token_event ::
  "int \<Rightarrow> bool \<Rightarrow> jsval \<Rightarrow> string result \<Rightarrow> auth_state \<times> auth_env \<Rightarrow> auth_state \<times> auth_env" where
  "id_token_event now initialized user idToken se =
     (if \<not> (truthy user \<and> initialized) then se
      else case idToken of
        Inl _ \<Rightarrow> se
      | Inr token \<Rightarrow>
          (let storedUser = stored (snd se) ''user'' in
           if \<not> str_truthy storedUser then se
           else case json_parse (the storedUser) of
             Inl _ \<Rightarrow> se
           | Inr parsedUser \<Rightarrow>
               (let expiry = Num (jint (now + 3300000));
                    updated = spread parsedUser [(''token'', Str token), (''tokenExpiry'', expiry),
                                (''lastRefresh'', Str (to_iso now))];
                    e1 = store_user (json_stringify updated) token (snd se);
                    p = Obj [(''token'', Str token), (''expiry'', expiry)]
                in case auth_reducer now (fst se, e1) (UpdateTokenData p) of
                     Inl _ \<Rightarrow> (fst se, e1)
                   | Inr (s2, e2) \<Rightarrow> (s2, scheduleTokenRefresh now e2))))"

definition stop_auth_listener :: "auth_env \<Rightarrow> auth_env" where
  "stop_auth_listener e = cleanup e"

section \<open>The sign-in forms\<close>

text \<open>
  What the forms of src/components/auth/Login.jsx and Register.jsx do with the user Firebase gives them and a fresh token;
  the registration form takes the name from its own field.  They store the token, not the user.
\<close>

definition sign_in :: "int \<Rightarrow> jsval \<Rightarrow> jsval \<Rightarrow> string \<Rightarrow> auth_state \<times> auth_env \<Rightarrow> auth_state \<times> auth_env" where
  "sign_in now user displayName token se =
     (let userData = Obj [(''uid'', opt user ''uid''), (''email'', opt user ''email''), (''displayName'', displayName),
                          (''photoURL'', opt user ''photoURL''), (''token'', Str token)]
      in auth_dispatch now (fst se, (snd se)\<lparr>a_local := put ''authToken'' token (a_local (snd se))\<rparr>) (SetUser userData))"

section \<open>Logging out leaves nothing behind\<close>

definition logged_out :: "auth_env \<Rightarrow> bool" where
  "logged_out e \<longleftrightarrow>
     (\<forall>k \<in> set auth_keys. local_item e k = None \<and> session_item e k = None) \<and>
     a_header e = None"

lemma clearAll_logged_out: "logged_out (clearAllAuthData e)"
  by (auto simp: logged_out_def clearAllAuthData_def local_item_def session_item_def get_remove_items)

lemma cleanup_logged_out: "logged_out e \<Longrightarrow> logged_out (cleanup e)"
  by (simp add: logged_out_def cleanup_def local_item_def session_item_def)

lemma logged_out_not_stored: "logged_out e \<Longrightarrow> k \<in> set auth_keys \<Longrightarrow> stored e k = None"
  by (auto simp: logged_out_def stored_def str_or_def)

text \<open>
  C6: signing out, by the logout thunk whether or not Firebase signs out, by the action that clears the user, or by a
  rejected refresh, leaves no token, user or redirect in either storage and no default header, with no user in the store; a
  later start of the application then finds nobody signed in.  (The answer 401 to a request is no such way: the interceptor
  of the API client empties \<open>localStorage\<close> alone.)
\<close>

theorem logout_leaves_nothing:
  assumes "(\<exists>err a. performLogout err e0 = (a, e) \<and> auth_reducer now (s, e) a = Inr (s', e'))
         \<or> auth_reducer now (s, e0) ClearUser = Inr (s', e')
         \<or> (\<exists>p. auth_reducer now (s, e0) (RefreshRejected p) = Inr (s', e'))"
  shows "logged_out e' \<and> u_user s' = Null \<and> \<not> u_isAuthenticated s'
         \<and> fst (initializeAuth now' e') = not_authenticated"
proof -
  have lo: "logged_out e' \<and> u_user s' = Null \<and> \<not> u_isAuthenticated s'"
    using assms clearAll_logged_out cleanup_logged_out
    by (auto simp: performLogout_def clearUser_def on_state_def Let_def split: option.splits)
  have "map_of (a_local e') ''authToken'' = None" "map_of (a_session e') ''authToken'' = None"
    using lo by (auto simp: logged_out_def auth_keys_def local_item_def session_item_def)
  then have "clearExpiredTokens now' e' = (False, e')"
    by (simp add: clearExpiredTokens_def drop_if_expired_def Let_def str_truthy_def)
  moreover have "stored e' ''authToken'' = None"
    using lo logged_out_not_stored [of e' "''authToken''"] by (simp add: auth_keys_def)
  ultimately show ?thesis
    using lo by (simp add: initializeAuth_def Let_def str_truthy_def)
qed

theorem logout_leaves_nothing_witness:
  "fst (initializeAuth 0 (snd (clearUser (auth_initial, env_initial [(''authToken'', ''t'')] [])))) =
   not_authenticated"
proof -
  have "auth_reducer 0 (auth_initial, env_initial [(''authToken'', ''t'')] []) ClearUser =
      Inr (fst (clearUser (auth_initial, env_initial [(''authToken'', ''t'')] [])),
           snd (clearUser (auth_initial, env_initial [(''authToken'', ''t'')] [])))"
    by simp
  then show ?thesis using logout_leaves_nothing by blast
qed

section \<open>The signed-in flag and the user agree\<close>

definition auth_inv :: "auth_state \<Rightarrow> bool" where
  "auth_inv s \<longleftrightarrow>
     (if u_isAuthenticated s then (\<exists>ps. u_user s = Obj ps) else u_user s = Null)"

text \<open>The payloads the program dispatches: a user is an object, and so is the initial user.\<close>

fun good_action :: "auth_action \<Rightarrow> bool" where
  "good_action (SetUser p) \<longleftrightarrow> (case p of Obj _ \<Rightarrow> True | _ \<Rightarrow> False)"
| "good_action (InitializeFulfilled p) \<longleftrightarrow>
     (truthy (opt p ''isAuthenticated'') \<longrightarrow> (case opt p ''user'' of Obj _ \<Rightarrow> True | _ \<Rightarrow> False))"
| "good_action _ = True"

lemma set_token_fields_obj:
  "set_token_fields now p u = Inr v \<Longrightarrow> u = Obj ps \<Longrightarrow> \<exists>qs. v = Obj qs"
  by (cases "get p ''token''") (auto simp: set_token_fields_def)

lemma get_Inr: "get v k = Inr x \<Longrightarrow> x = opt v k"
  by (auto simp: get_def split: if_splits)

lemma auth_reducer_inv:
  assumes "auth_inv (fst se)" and "good_action a" and "auth_reducer now se a = Inr se'"
  shows "auth_inv (fst se')"
proof (cases a)
  case (SetUser p)
  then show ?thesis
    using assms by (cases p) (auto simp: setUser_def auth_inv_def res_bind_def split: sum.splits)
next
  case (UpdateTokenData p)
  then show ?thesis
    using assms set_token_fields_obj
    by (fastforce simp: on_state_def updateTokenData_def auth_inv_def res_bind_def split: sum.splits if_splits)
next
  case (InitializeFulfilled p)
  then show ?thesis
    using assms
    by (cases "opt p ''user''")
       (auto simp: on_state_def initializeFulfilled_def auth_inv_def res_bind_def Let_def dest!: get_Inr
         split: sum.splits if_splits)
next
  case (RefreshFulfilled p)
  then show ?thesis
    using assms set_token_fields_obj
    by (fastforce simp: on_state_def refreshFulfilled_def auth_inv_def res_bind_def Let_def
        split: sum.splits if_splits)
qed (use assms in \<open>auto simp: on_state_def auth_inv_def clearUser_def\<close>)


text \<open>
  What the program dispatches, as steps on the store, its environment and the number of refreshes whose token request is
  out.  A call that joins a refresh, or finds no Firebase user, settles in a step of its own.  The storages and the default
  header are also written by the API client, by the provider and by other windows, and timers run out, so any value may
  appear there.
\<close>

inductive auth_step :: "auth_state \<times> auth_env \<times> nat \<Rightarrow> auth_state \<times> auth_env \<times> nat \<Rightarrow> bool" where
  init_start: "auth_reducer now (s, e) InitializePending = Inr (s', e') \<Longrightarrow> auth_step (s, e, n) (s', e', n)"
| init_end: "initializeAuth now e = (r, e1) \<Longrightarrow>
    auth_reducer now (s, e1) (InitializeFulfilled r) = Inr (s', e') \<Longrightarrow> auth_step (s, e, n) (s', e', n)"
| refresh_start: "refresh_begin hasUser e = (r, e1) \<Longrightarrow> auth_reducer now (s, e1) RefreshPending = Inr (s', e') \<Longrightarrow>
    auth_step (s, e, n) (s', e', if r = AwaitToken then Suc n else n)"
| refresh_end: "refresh_finish now outcome e = (r, e1) \<Longrightarrow>
    auth_reducer now (s, e1) (refresh_action r) = Inr (s', e') \<Longrightarrow> auth_step (s, e, Suc n) (s', e', n)"
| refresh_joined: "auth_reducer now (s, e) (refresh_action r) = Inr (s', e') \<Longrightarrow> auth_step (s, e, n) (s', e', n)"
| logout_start: "auth_reducer now (s, e) LogoutPending = Inr (s', e') \<Longrightarrow> auth_step (s, e, n) (s', e', n)"
| logout_end: "performLogout err e = (a, e1) \<Longrightarrow> auth_reducer now (s, e1) a = Inr (s', e') \<Longrightarrow> auth_step (s, e, n) (s', e', n)"
| signs_in: "sign_in now user displayName token (s, e) = (s', e') \<Longrightarrow> auth_step (s, e, n) (s', e', n)"
| firebase_event: "auth_event now initialized user idToken verify (s, e) = ((s', e'), th) \<Longrightarrow> auth_step (s, e, n) (s', e', n)"
| firebase_error: "auth_error_event now (s, e) = (s', e') \<Longrightarrow> auth_step (s, e, n) (s', e', n)"
| token_event: "id_token_event now initialized user idToken (s, e) = (s', e') \<Longrightarrow> auth_step (s, e, n) (s', e', n)"
| listener_stopped: "auth_step (s, e, n) (s, stop_auth_listener e, n)"
| written: "auth_step (s, e, n) (s, e\<lparr>a_local := l, a_session := ss, a_header := h, a_timers := ts\<rparr>, n)"

inductive_cases auth_stepE: "auth_step (s, e) se'"

definition refresh_flags_ok :: "nat \<Rightarrow> auth_env \<Rightarrow> bool" where
  "refresh_flags_ok n e \<longleftrightarrow> (a_isRefreshing e \<longrightarrow> a_refreshPromise e \<and> 0 < n)"

lemma auth_reducer_flags:
  "refresh_flags_ok n e \<Longrightarrow> auth_reducer now (s, e) a = Inr (s', e') \<Longrightarrow> refresh_flags_ok n e'"
  by (cases a)
     (auto simp: on_state_def res_bind_def refresh_flags_ok_def clearUser_def cleanup_def
       clearAllAuthData_def setUser_def split: sum.splits if_splits)

lemma schedule_flags [simp]:
  "a_isRefreshing (scheduleTokenRefresh now e) = a_isRefreshing e"
  "a_refreshPromise (scheduleTokenRefresh now e) = a_refreshPromise e"
  "a_local (scheduleTokenRefresh now e) = a_local e"
  "a_session (scheduleTokenRefresh now e) = a_session e"
  "a_header (scheduleTokenRefresh now e) = a_header e"
  by (auto simp: scheduleTokenRefresh_def Let_def split: sum.splits)

lemma store_user_flags [simp]:
  "a_isRefreshing (store_user u t e) = a_isRefreshing e"
  "a_refreshPromise (store_user u t e) = a_refreshPromise e"
  "a_header (store_user u t e) = a_header e"
  by (auto simp: store_user_def)

lemma clearAll_flags [simp]:
  "a_isRefreshing (clearAllAuthData e) = a_isRefreshing e"
  "a_refreshPromise (clearAllAuthData e) = a_refreshPromise e"
  by (auto simp: clearAllAuthData_def)

lemma initializeAuth_flags:
  "initializeAuth now e = (r, e') \<Longrightarrow>
     a_isRefreshing e' = a_isRefreshing e \<and> a_refreshPromise e' = a_refreshPromise e"
  by (auto simp: initializeAuth_def clearExpiredTokens_def Let_def split: prod.splits if_splits sum.splits)

lemma initializeAuth_good: "initializeAuth now e = (r, e') \<Longrightarrow> good_action (InitializeFulfilled r)"
  by (auto simp: initializeAuth_def not_authenticated_def spread_def Let_def
      split: prod.splits if_splits sum.splits)

lemma user_data_obj: "\<exists>ps. user_data now user token b = Obj ps"
  by (simp add: user_data_def spread_def)

lemma refresh_finish_flags:
  "refresh_finish now outcome e = (r, e') \<Longrightarrow> \<not> a_isRefreshing e' \<and> \<not> a_refreshPromise e'"
  by (auto simp: refresh_finish_def Let_def split: sum.splits prod.splits if_splits)

lemma auth_dispatch_inv:
  assumes "auth_inv s" and "refresh_flags_ok n e" and "good_action a"
    and "auth_dispatch now (s, e) a = (s', e')"
  shows "auth_inv s' \<and> refresh_flags_ok n e'"
  using assms auth_reducer_inv [of "(s, e)" a now] auth_reducer_flags [of n e now s a]
  by (auto simp: auth_dispatch_def split: sum.splits)

lemma first_auth_event_inv:
  assumes "auth_inv s" and "refresh_flags_ok n e"
    and "first_auth_event now user idToken verify (s, e) = ((s', e'), th)"
  shows "auth_inv s' \<and> refresh_flags_ok n e'"
proof (cases "truthy user \<and> (\<exists>t. idToken = Inr t)")
  case False
  then have "auth_dispatch now (s, e) SetInitializationComplete = (s', e')"
    using assms(3) by (auto simp: first_auth_event_def split: if_splits sum.splits)
  from auth_dispatch_inv [OF assms(1,2) _ this] show ?thesis by simp
next
  case True
  then obtain t where t: "idToken = Inr t" by blast
  define u where "u = user_data now user t (backend_user verify)"
  define e1 where "e1 = store_user (json_stringify u) t e"
  obtain s2 e2 where d: "auth_dispatch now (s, e1) (SetUser u) = (s2, e2)" by fastforce
  have "refresh_flags_ok n e1" using assms(2) by (simp add: refresh_flags_ok_def e1_def)
  moreover have "good_action (SetUser u)" using user_data_obj [of now user t "backend_user verify"] by (auto simp: u_def)
  ultimately have "auth_inv s2 \<and> refresh_flags_ok n e2" using auth_dispatch_inv assms(1) d by blast
  moreover have "s' = s2 \<and> e' = scheduleTokenRefresh now e2"
    using assms(3) True t d by (auto simp: first_auth_event_def Let_def u_def e1_def)
  ultimately show ?thesis by (simp add: refresh_flags_ok_def)
qed

lemma id_token_event_inv:
  assumes "auth_inv s" and "refresh_flags_ok n e"
    and "id_token_event now initialized user idToken (s, e) = (s', e')"
  shows "auth_inv s' \<and> refresh_flags_ok n e'"
proof -
  have "\<exists>e1. refresh_flags_ok n e1 \<and> ((s', e') = (s, e1) \<or>
      (\<exists>p e2. auth_reducer now (s, e1) (UpdateTokenData p) = Inr (s', e2) \<and>
         e' = scheduleTokenRefresh now e2))"
  proof (cases "id_token_event now initialized user idToken (s, e) = (s, e)")
    case True
    then show ?thesis using assms by auto
  next
    case False
    then obtain u t where "e' = store_user u t e \<and> s' = s \<or>
        (\<exists>p e2. auth_reducer now (s, store_user u t e) (UpdateTokenData p) = Inr (s', e2) \<and>
         e' = scheduleTokenRefresh now e2)"
      using assms(3)
      by (simp add: id_token_event_def Let_def del: auth_reducer.simps split: if_splits sum.splits prod.splits)
        metis+
    moreover have "refresh_flags_ok n (store_user u t e)" using assms(2) by (simp add: refresh_flags_ok_def)
    ultimately show ?thesis by blast
  qed
  then obtain e1 where e1: "refresh_flags_ok n e1" and c: "(s', e') = (s, e1) \<or>
      (\<exists>p e2. auth_reducer now (s, e1) (UpdateTokenData p) = Inr (s', e2) \<and>
         e' = scheduleTokenRefresh now e2)" by blast
  from c show ?thesis
  proof
    assume "(s', e') = (s, e1)"
    then show ?thesis using assms(1) e1 by simp
  next
    assume "\<exists>p e2. auth_reducer now (s, e1) (UpdateTokenData p) = Inr (s', e2) \<and>
         e' = scheduleTokenRefresh now e2"
    then obtain p e2 where r: "auth_reducer now (s, e1) (UpdateTokenData p) = Inr (s', e2)"
      and e': "e' = scheduleTokenRefresh now e2" by blast
    have "auth_inv s'" using auth_reducer_inv [OF _ _ r] assms(1) by simp
    moreover have "refresh_flags_ok n e2" using auth_reducer_flags [OF e1 r] .
    ultimately show ?thesis by (simp add: e' refresh_flags_ok_def)
  qed
qed


lemma sign_in_inv:
  assumes "auth_inv s" and "refresh_flags_ok n e" and "sign_in now user displayName token (s, e) = (s', e')"
  shows "auth_inv s' \<and> refresh_flags_ok n e'"
proof -
  have "refresh_flags_ok n (e\<lparr>a_local := put ''authToken'' token (a_local e)\<rparr>)"
    using assms(2) by (simp add: refresh_flags_ok_def)
  from auth_dispatch_inv [OF assms(1) this _ assms(3) [unfolded sign_in_def Let_def fst_conv snd_conv]]
  show ?thesis by simp
qed

definition auth_state_inv :: "auth_state \<times> auth_env \<times> nat \<Rightarrow> bool" where
  "auth_state_inv c \<longleftrightarrow> auth_inv (fst c) \<and> refresh_flags_ok (snd (snd c)) (fst (snd c))"

lemma auth_step_inv:
  assumes "auth_step c c'" and "auth_state_inv c"
  shows "auth_state_inv c'"
proof -
  have red: "auth_inv s' \<and> refresh_flags_ok n e'"
    if "auth_reducer now (s, e) a = Inr (s', e')" "good_action a" "auth_inv s" "refresh_flags_ok n e" for now s e a s' e' n
    using that auth_reducer_inv [of "(s, e)" a now "(s', e')"] auth_reducer_flags [of n e now s a s' e'] by simp
  show ?thesis
    using assms
  proof (induction rule: auth_step.induct)
    case (init_end now e r e1 s s' e' n)
    then have "refresh_flags_ok n e1"
      using initializeAuth_flags [of now e r e1] by (simp add: auth_state_inv_def refresh_flags_ok_def)
    then show ?case
      using init_end red [OF init_end.hyps(2)] initializeAuth_good [OF init_end.hyps(1)] by (simp add: auth_state_inv_def)
  next
    case (refresh_start hasUser e r e1 now s s' e' n)
    then have "refresh_flags_ok (if r = AwaitToken then Suc n else n) e1"
      by (auto simp: auth_state_inv_def refresh_begin_def refresh_flags_ok_def split: if_splits)
    then show ?case using refresh_start red [OF refresh_start.hyps(2)] by (simp add: auth_state_inv_def)
  next
    case (refresh_end now outcome e r e1 s s' e' n)
    then have "refresh_flags_ok n e1" using refresh_finish_flags by (auto simp: refresh_flags_ok_def)
    moreover have "good_action (refresh_action r)" by (simp add: refresh_action_def split: sum.splits)
    ultimately show ?case using refresh_end red [OF refresh_end.hyps(2)] by (simp add: auth_state_inv_def)
  next
    case (refresh_joined now s e r s' e' n)
    have "good_action (refresh_action r)" by (simp add: refresh_action_def split: sum.splits)
    then show ?case using refresh_joined red [OF refresh_joined.hyps, where n = n] by (simp add: auth_state_inv_def)
  next
    case (logout_end err e a e1 now s s' e' n)
    then have "refresh_flags_ok n e1 \<and> good_action a"
      by (auto simp: performLogout_def Let_def cleanup_def refresh_flags_ok_def split: option.splits)
    then show ?case using logout_end red [OF logout_end.hyps(2), where n = n] by (simp add: auth_state_inv_def)
  next
    case (signs_in now user displayName token s e s' e' n)
    then show ?case using sign_in_inv [of s n e now user displayName token s' e'] by (simp add: auth_state_inv_def)
  next
    case (firebase_event now initialized user idToken verify s e s' e' th n)
    show ?case
    proof (cases initialized)
      case True
      then show ?thesis
        using firebase_event auth_dispatch_inv [of s n e ClearUser now s' e']
        by (auto simp: auth_event_def auth_state_inv_def split: if_splits)
    next
      case False
      then show ?thesis
        using firebase_event first_auth_event_inv [of s n e now user idToken verify s' e' th]
        by (simp add: auth_event_def auth_state_inv_def)
    qed
  next
    case (firebase_error now s e s' e' n)
    then show ?case
      using auth_dispatch_inv [of s n e SetInitializationComplete now s' e'] by (simp add: auth_error_event_def auth_state_inv_def)
  next
    case (token_event now initialized user idToken s e s' e' n)
    then show ?case
      using id_token_event_inv [of s n e now initialized user idToken s' e'] by (simp add: auth_state_inv_def)
  next
    case (listener_stopped s e n)
    then show ?case by (simp add: auth_state_inv_def stop_auth_listener_def cleanup_def refresh_flags_ok_def)
  next
    case (written s e n l ss h ts)
    then show ?case by (simp add: auth_state_inv_def refresh_flags_ok_def)
  next
    case (init_start now s e s' e' n)
    then show ?case using init_start red [OF init_start.hyps, where n = n] by (simp add: auth_state_inv_def)
  next
    case (logout_start now s e s' e' n)
    then show ?case using logout_start red [OF logout_start.hyps, where n = n] by (simp add: auth_state_inv_def)
  qed
qed

text \<open>
  C8: In every state the program reaches from a fresh start (whatever the storages hold, in any order of initialisations,
  sign-ins by form, refreshes, logouts and Firebase events, with the storages and the header rewritten by others at any
  time), the signed-in flag is set exactly when the store holds a user object, and while the flag of a refresh is up its
  promise is there to join and its token request, or that of another refresh, is still out.
\<close>

theorem auth_reachable_consistent:
  assumes "auth_step\<^sup>*\<^sup>* (auth_initial, env_initial l ss, 0) (s, e, n)"
  shows "(if u_isAuthenticated s then (\<exists>ps. u_user s = Obj ps) else u_user s = Null)
         \<and> (a_isRefreshing e \<longrightarrow> a_refreshPromise e \<and> 0 < n)"
proof -
  have "auth_state_inv c" if "auth_step\<^sup>*\<^sup>* (auth_initial, env_initial l ss, 0) c" for c
    using that
  proof (induction rule: rtranclp_induct)
    case base
    then show ?case
      by (simp add: auth_state_inv_def auth_inv_def auth_initial_def refresh_flags_ok_def env_initial_def)
  next
    case (step y z)
    then show ?case using auth_step_inv by blast
  qed
  from this [OF assms] show ?thesis by (simp add: auth_state_inv_def auth_inv_def refresh_flags_ok_def)
qed

text \<open>A sign-in by form followed by a refresh.\<close>

theorem auth_reachable_consistent_witness:
  "\<exists>s e. auth_step\<^sup>*\<^sup>* (auth_initial, env_initial [] [], 0) (s, e, 1) \<and> u_isAuthenticated s \<and> a_isRefreshing e
     \<and> (\<exists>ps. u_user s = Obj ps) \<and> a_refreshPromise e"
proof -
  obtain s1 e1 where s1: "sign_in 0 (Obj []) (Str ''Ada'') ''t'' (auth_initial, env_initial [] []) = (s1, e1)" by fastforce
  then have f: "u_isAuthenticated s1" "\<not> a_isRefreshing e1"
    by (auto simp: sign_in_def auth_dispatch_def setUser_def get_def Let_def env_initial_def)
  let ?e = "e1\<lparr>a_isRefreshing := True, a_refreshPromise := True\<rparr>" and ?s = "s1\<lparr>u_tokenRefreshing := Bool True\<rparr>"
  have "auth_step (auth_initial, env_initial [] [], 0) (s1, e1, 0)" by (rule auth_step.signs_in [OF s1])
  moreover have "auth_step (s1, e1, 0) (?s, ?e, if AwaitToken = AwaitToken then Suc 0 else 0)"
    by (rule auth_step.refresh_start [of True e1 AwaitToken ?e 0]) (simp_all add: refresh_begin_def f on_state_def)
  ultimately have run: "auth_step\<^sup>*\<^sup>* (auth_initial, env_initial [] [], 0) (?s, ?e, 1)"
    by (simp add: rtranclp.rtrancl_into_rtrancl [OF r_into_rtranclp])
  note c = auth_reachable_consistent [OF run]
  have "\<exists>ps. u_user ?s = Obj ps" using c f(1) by simp
  moreover have "a_refreshPromise ?e" using c by simp
  ultimately show ?thesis using run f(1) by (intro exI [of _ ?s] exI [of _ ?e]) simp
qed

text \<open>
  The converse fails: a clean-up (a logout, a stopped listener) lowers the flag while the token request is out, and the next
  call asks for a second token instead of joining.
\<close>

lemma cleanup_forgets_refresh:
  "fst (refresh_begin True e) = AwaitToken \<Longrightarrow>
   refresh_begin True (cleanup (snd (refresh_begin True e))) =
     (AwaitToken, (cleanup (snd (refresh_begin True e)))\<lparr>a_isRefreshing := True, a_refreshPromise := True\<rparr>)"
  by (simp add: refresh_begin_def cleanup_def)

section \<open>Who is signed in after a start\<close>

definition expired_in :: "int \<Rightarrow> storage \<Rightarrow> bool" where
  "expired_in now st \<longleftrightarrow>
     str_truthy (map_of st ''authToken'') \<and> isTokenExpired now (map_of st ''authToken'')"

lemma clearExpiredTokens_none:
  "clearExpiredTokens now e = (had, e') \<Longrightarrow>
     had = (expired_in now (a_local e) \<or> expired_in now (a_session e)) \<and> (\<not> had \<longrightarrow> e' = e)"
  by (auto simp: clearExpiredTokens_def drop_if_expired_def expired_in_def Let_def split: if_splits)

lemma stored_not_expired:
  "\<not> expired_in now (a_local e) \<Longrightarrow> \<not> expired_in now (a_session e) \<Longrightarrow>
     str_truthy (stored e ''authToken'') \<Longrightarrow> \<not> isTokenExpired now (stored e ''authToken'')"
  by (auto simp: stored_def str_or_def expired_in_def local_item_def session_item_def str_truthy_def
      split: option.splits if_splits)

lemma initializeAuth_cases:
  "fst (initializeAuth now e) =
     (if expired_in now (a_local e) \<or> expired_in now (a_session e) then not_authenticated
      else if str_truthy (stored e ''user'') \<and> str_truthy (stored e ''authToken'') then
        (case json_parse (the (stored e ''user'')) of
           Inl _ \<Rightarrow> not_authenticated
         | Inr v \<Rightarrow> Obj [(''user'', spread v [(''token'', Str (the (stored e ''authToken'')))]),
                         (''isAuthenticated'', Bool True)])
      else not_authenticated)"
proof -
  obtain had e' where c: "clearExpiredTokens now e = (had, e')" by fastforce
  note h = clearExpiredTokens_none [OF c]
  show ?thesis
  proof (cases had)
    case True
    then show ?thesis using h c by (auto simp: initializeAuth_def)
  next
    case False
    then have e': "e' = e" and n: "\<not> expired_in now (a_local e)" "\<not> expired_in now (a_session e)"
      using h by auto
    show ?thesis
    proof (cases "str_truthy (stored e ''user'') \<and> str_truthy (stored e ''authToken'')")
      case t: True
      then have "\<not> isTokenExpired now (stored e ''authToken'')" using stored_not_expired n by blast
      then show ?thesis using t False n c
        by (cases "json_parse (the (stored e ''user''))") (simp_all add: initializeAuth_def Let_def e')
    next
      case f: False
      then show ?thesis using False n c by (auto simp: initializeAuth_def Let_def e')
    qed
  qed
qed

text \<open>
  C7: Starting the application signs the stored user in exactly when neither storage holds an
  expired token, a token and a user are stored and the user parses; the signed-in user carries
  the stored token.  In particular the later check for an expired stored token never finds
  one, and an expired token in one storage turns away a valid session in the other.
\<close>

theorem initializeAuth_signs_in_iff:
  "fst (initializeAuth now e) = Obj [(''user'', u), (''isAuthenticated'', Bool True)] \<longleftrightarrow>
     (\<exists>su t v. stored e ''user'' = Some su \<and> su \<noteq> [] \<and> stored e ''authToken'' = Some t \<and> t \<noteq> [] \<and>
        json_parse su = Inr v \<and> u = spread v [(''token'', Str t)] \<and>
        \<not> expired_in now (a_local e) \<and> \<not> expired_in now (a_session e))"
proof (cases "str_truthy (stored e ''user'') \<and> str_truthy (stored e ''authToken'')")
  case True
  then obtain su t where "stored e ''user'' = Some su" "su \<noteq> []" "stored e ''authToken'' = Some t" "t \<noteq> []"
    by (auto simp: str_truthy_def split: option.splits)
  then show ?thesis
    by (cases "json_parse su") (auto simp: initializeAuth_cases not_authenticated_def str_truthy_def)
next
  case False
  then show ?thesis
    by (auto simp: initializeAuth_cases not_authenticated_def str_truthy_def split: option.splits)
qed


section \<open>The refresh timer\<close>

text \<open>The facts about a token whose \<open>exp\<close> is a whole number of seconds.\<close>

lemma token_exp_read:
  assumes "t \<noteq> []" and "token_payload t = Inr p" and "get p ''exp'' = Inr (Num (jint x))"
    and "\<bar>x\<bar> \<le> 2 ^ 42" and "0 \<le> now" and "now \<le> 2 ^ 52"
  shows "isTokenExpired now (Some t) \<longleftrightarrow> x \<le> now div 1000 + 300"
    and "to_number (Num (jint x)) * Fin 1000 - jint now - Fin 600000 = Fin (of_int (x * 1000 - now - 600000))"
proof -
  have x: "jint x = Fin (of_int x)" using assms(4) by (intro jint_small) simp
  have "now div 1000 \<le> 2 ^ 52 div 1000" using assms(6) by (rule zdiv_mono1) simp
  moreover have "0 \<le> now div 1000" using assms(5) by simp
  ultimately have b: "jint (now div 1000 + 300) = Fin (of_int (now div 1000 + 300))"
    by (intro jint_small) simp
  show "isTokenExpired now (Some t) \<longleftrightarrow> x \<le> now div 1000 + 300"
    using assms(1-3) by (simp add: isTokenExpired_def str_truthy_def x b)
      (simp only: of_int_le_iff [symmetric, where 'a = rat] of_int_add of_int_numeral)
  have n: "jint now = Fin (of_int now)" using assms(5,6) by (intro jint_small) simp
  have 1: "rnd (of_int (x * 1000)) = Fin (of_int (x * 1000))"
    using assms(4) by (intro rnd_of_int) simp
  have 2: "rnd (of_int (x * 1000 - now)) = Fin (of_int (x * 1000 - now))"
    using assms(4,5,6) by (intro rnd_of_int) simp
  have 3: "rnd (of_int (x * 1000 - now - 600000)) = Fin (of_int (x * 1000 - now - 600000))"
    using assms(4,5,6) by (intro rnd_of_int) simp
  show "to_number (Num (jint x)) * Fin 1000 - jint now - Fin 600000 = Fin (of_int (x * 1000 - now - 600000))"
    using 1 2 3 by (simp add: x n minus_jsnum_def)
qed

definition refresh_scheduled :: "int \<Rightarrow> auth_env \<Rightarrow> bool" where
  "refresh_scheduled now e \<longleftrightarrow> a_timers (scheduleTokenRefresh now e) \<noteq> a_timers e"

text \<open>
  For a stored token that expires at the whole second \<open>x\<close>, a refresh is scheduled exactly
  when the token has more than ten minutes left, and the token counts as expired exactly when
  at most five minutes (to the second) are left.  A valid token in its last ten minutes is
  therefore never refreshed by a timer.
\<close>

theorem refresh_window:
  assumes "stored e ''authToken'' = Some t" and "t \<noteq> []" and "token_payload t = Inr p"
    and "get p ''exp'' = Inr (Num (jint x))" and "\<bar>x\<bar> \<le> 2 ^ 42" and "0 \<le> now" and "now \<le> 2 ^ 52"
  shows "(refresh_scheduled now e \<longleftrightarrow> x * 1000 > now + 600000)
         \<and> (isTokenExpired now (stored e ''authToken'') \<longleftrightarrow> x \<le> now div 1000 + 300)"
proof -
  note tok = token_exp_read [OF assms(2-7)]
  have sched: "refresh_scheduled now e \<longleftrightarrow>
      \<not> isTokenExpired now (Some t) \<and> x * 1000 - now - 600000 > 0"
    using assms(1,3,4) tok(2)
    by (auto simp: refresh_scheduled_def scheduleTokenRefresh_def Let_def)
  have "now div 1000 * 1000 \<le> now" by presburger
  then show ?thesis using sched tok(1) assms(1) by auto
qed

lemma sample_token:
  "token_payload ''h.eyJleHAiOjQwMDB9.s'' = Inr (Obj [(''exp'', Num (jint 4000))])"
  by code_simp

theorem refresh_window_witness:
  "\<not> refresh_scheduled 3500000 (env_initial [(''authToken'', ''h.eyJleHAiOjQwMDB9.s'')] [])
   \<and> \<not> isTokenExpired 3500000 (Some ''h.eyJleHAiOjQwMDB9.s'')"
proof -
  let ?t = "''h.eyJleHAiOjQwMDB9.s''" and ?e = "env_initial [(''authToken'', ''h.eyJleHAiOjQwMDB9.s'')] []"
  have s: "stored ?e ''authToken'' = Some ?t"
    by (simp add: stored_def str_or_def local_item_def env_initial_def)
  have g: "get (Obj [(''exp'', Num (jint 4000))]) ''exp'' = Inr (Num (jint 4000))"
    by (simp add: get_def)
  show ?thesis
    using refresh_window [OF s _ sample_token g, of 3500000] s by simp
qed

text \<open>
  Scheduling a second refresh while one is pending forgets the first timer: after a clean-up,
  which is meant to cancel every timer, the first one is still running and will refresh the
  token of a user who has left.
\<close>

theorem superseded_timer_survives_cleanup:
  assumes "refresh_scheduled now e" and "refresh_scheduled now' (scheduleTokenRefresh now e)"
    and "a_next_timer e \<notin> snd ` set (a_timeouts e)"
  shows "a_next_timer e \<in> fst ` set (a_timers (cleanup (scheduleTokenRefresh now' (scheduleTokenRefresh now e))))"
proof -
  have one: "\<exists>d. scheduleTokenRefresh n f = f\<lparr>a_timers := (a_next_timer f, d) # a_timers f,
               a_next_timer := Suc (a_next_timer f),
               a_timeouts := put ''main'' (a_next_timer f) (a_timeouts f)\<rparr>"
    if "refresh_scheduled n f" for n f
    using that by (auto simp: refresh_scheduled_def scheduleTokenRefresh_def Let_def split: sum.splits if_splits)
  obtain d where 1: "scheduleTokenRefresh now e = e\<lparr>a_timers := (a_next_timer e, d) # a_timers e,
               a_next_timer := Suc (a_next_timer e),
               a_timeouts := put ''main'' (a_next_timer e) (a_timeouts e)\<rparr>" (is "_ = ?e1")
    using one assms(1) by blast
  obtain d' where 2: "scheduleTokenRefresh now' ?e1 = ?e1\<lparr>a_timers := (a_next_timer ?e1, d') # a_timers ?e1,
               a_next_timer := Suc (a_next_timer ?e1),
               a_timeouts := put ''main'' (a_next_timer ?e1) (a_timeouts ?e1)\<rparr>"
    using one assms(2) 1 by metis
  show ?thesis unfolding 1 2 using assms(3) by (auto simp: cleanup_def set_put)
qed

theorem superseded_timer_survives_cleanup_witness:
  "a_timers (cleanup (scheduleTokenRefresh 1 (scheduleTokenRefresh 0
     (env_initial [(''authToken'', ''h.eyJleHAiOjQwMDB9.s'')] [])))) \<noteq> []"
proof -
  let ?e = "env_initial [(''authToken'', ''h.eyJleHAiOjQwMDB9.s'')] []"
  have st: "stored f ''authToken'' = Some ''h.eyJleHAiOjQwMDB9.s''" if "a_local f = a_local ?e" for f
    using that by (simp add: stored_def str_or_def local_item_def env_initial_def)
  have ex: "get (Obj [(''exp'', Num (jint 4000))]) ''exp'' = Inr (Num (jint 4000))"
    by (simp add: get_def)
  have sch: "refresh_scheduled now f" if "a_local f = a_local ?e" "now \<in> {0, 1}" for now f
  proof -
    have "\<not> isTokenExpired now (Some ''h.eyJleHAiOjQwMDB9.s'')"
      using token_exp_read(1) [OF _ sample_token ex, of now] that(2) by auto
    moreover have "to_number (Num (jint 4000)) * Fin 1000 - jint now - Fin 600000 =
        Fin (of_int (4000 * 1000 - now - 600000))"
      using token_exp_read(2) [OF _ sample_token ex, of now] that(2) by auto
    ultimately show ?thesis
      using that st [OF that(1)] ex sample_token
      by (auto simp: refresh_scheduled_def scheduleTokenRefresh_def Let_def)
  qed
  have "a_next_timer ?e \<notin> snd ` set (a_timeouts ?e)" by (simp add: env_initial_def)
  from superseded_timer_survives_cleanup [OF sch sch this, of 0 1]
  show ?thesis by fastforce
qed

section \<open>Refreshing\<close>

text \<open>
  A refresh that fails signs the user out and empties both storages, but its reason is lost:
  whatever the error was, the stored error is \<open>undefined\<close>.
\<close>

theorem refresh_failure_loses_error:
  assumes "refresh_finish now (Inl err) e0 = (r, e)"
  shows "auth_reducer now' (s, e) (refresh_action r) =
           Inr (s\<lparr>u_tokenRefreshing := Bool False, u_error := Undef, u_user := Null, u_isAuthenticated := False\<rparr>,
                clearAllAuthData e)
         \<and> \<not> a_isRefreshing e \<and> \<not> a_refreshPromise e"
  using assms by (auto simp: refresh_finish_def refresh_action_def Let_def)

theorem refresh_failure_loses_error_witness:
  "\<exists>s e'. auth_reducer 0 (auth_initial, env_initial [] []) (refresh_action (Inl TypeError)) = Inr (s, e') \<and> u_error s = Undef"
proof -
  have "refresh_finish 0 (Inl TypeError) (env_initial [] []) = (Inl TypeError, env_initial [] [])"
    by (simp add: refresh_finish_def Let_def env_initial_def)
  from refresh_failure_loses_error [OF this, of 0 auth_initial] show ?thesis by simp
qed

text \<open>The storage a session lives in.\<close>

definition session_storage :: "bool \<Rightarrow> auth_env \<Rightarrow> storage" where
  "session_storage inLocal e = (if inLocal then a_local e else a_session e)"

text \<open>
  C9: A refresh that succeeds stores the new token where the old one was, in \<open>localStorage\<close> or in \<open>sessionStorage\<close>, updates
  the user stored beside it and leaves the other storage alone; it sends the token on every later request, the store takes
  the new token over, and a second caller in the meantime joins instead of asking again.
\<close>

theorem refresh_ok:
  assumes "refresh_begin True e0 = (AwaitToken, e1)"
    and "map_of (session_storage inLocal e0) ''authToken'' = Some old" and "old \<noteq> []"
    and "\<not> inLocal \<Longrightarrow> map_of (a_local e0) ''authToken'' = None"
    and "map_of (session_storage inLocal e0) ''user'' = Some su" and "su \<noteq> []" and "json_parse su = Inr (Obj ps)"
    and "u_user s = Obj us"
  shows "\<exists>r e2 s'. refresh_finish now (Inr token) e1 = (r, e2) \<and>
           auth_reducer now (s, e2) (refresh_action r) = Inr (s', e2) \<and>
           refresh_begin True e1 = (JoinRefresh, e1) \<and>
           map_of (session_storage inLocal e2) ''authToken'' = Some token \<and> a_header e2 = Some (''Bearer '' @ token) \<and>
           session_storage (\<not> inLocal) e2 = session_storage (\<not> inLocal) e0 \<and>
           (\<exists>qs. map_of (session_storage inLocal e2) ''user'' = Some (json_stringify (Obj qs)) \<and> own qs ''token'' = Str token) \<and>
           opt (u_user s') ''token'' = Str token \<and> u_tokenRefreshing s' = Bool False"
proof -
  have e1: "e1 = e0\<lparr>a_isRefreshing := True, a_refreshPromise := True\<rparr>"
    using assms(1) by (auto simp: refresh_begin_def split: if_splits)
  define v where "v = Obj [(''token'', Str token), (''expiry'', Num (jint (now + 3300000)))]"
  have upd: "\<exists>rs. set_token_fields now v (Obj qs) = Inr (Obj rs) \<and> own rs ''token'' = Str token" for qs
    by (auto simp: set_token_fields_def v_def get_def own_put)
  obtain qs where q: "set_token_fields now v (Obj ps) = Inr (Obj qs)" "own qs ''token'' = Str token"
    using upd by blast
  obtain us' where u: "set_token_fields now v (Obj us) = Inr (Obj us')" "own us' ''token'' = Str token"
    using upd by blast
  define st where "st = put ''user'' (json_stringify (Obj qs)) (put ''authToken'' token (session_storage inLocal e0))"
  have "store_refreshed now token (session_storage inLocal e0) = (st, Inr ())"
    using assms(5-7) q(1) by (simp add: store_refreshed_def Let_def map_of_put str_truthy_def st_def v_def)
  moreover have "str_truthy (local_item e1 ''authToken'') \<longleftrightarrow> inLocal"
    using assms(2-4) by (cases inLocal) (simp_all add: e1 local_item_def str_truthy_def session_storage_def)
  moreover define e2 where "e2 = (if inLocal then e1\<lparr>a_local := st\<rparr> else e1\<lparr>a_session := st\<rparr>)
      \<lparr>a_header := Some (''Bearer '' @ token), a_isRefreshing := False, a_refreshPromise := False\<rparr>"
  ultimately have f: "refresh_finish now (Inr token) e1 = (Inr v, e2)"
    by (cases inLocal) (simp_all add: refresh_finish_def Let_def e1 session_storage_def v_def)
  have "truthy v" by (simp add: v_def)
  then have d: "auth_reducer now (s, e2) (refresh_action (Inr v)) =
      Inr (s\<lparr>u_tokenRefreshing := Bool False, u_user := Obj us'\<rparr>, e2)"
    using assms(8) u(1) by (simp add: refresh_action_def on_state_def refreshFulfilled_def Let_def)
  have j: "refresh_begin True e1 = (JoinRefresh, e1)" by (simp add: refresh_begin_def e1)
  have here: "session_storage inLocal e2 = st" by (simp add: e2_def session_storage_def)
  have there: "session_storage (\<not> inLocal) e2 = session_storage (\<not> inLocal) e0" by (simp add: e2_def e1 session_storage_def)
  have l: "map_of st ''authToken'' = Some token" "map_of st ''user'' = Some (json_stringify (Obj qs))"
    by (simp_all add: st_def map_of_put)
  show ?thesis
    by (intro exI conjI, rule f, rule d, rule j, unfold here, rule l(1)) (use l q u there in \<open>auto simp: e2_def\<close>)
qed

text \<open>A user whose session lives in \<open>sessionStorage\<close>.\<close>

theorem refresh_ok_witness:
  "\<exists>r e2. refresh_finish 0 (Inr ''new'')
       ((env_initial [] [(''authToken'', ''old''), (''user'', ''{}'')])\<lparr>a_isRefreshing := True, a_refreshPromise := True\<rparr>)
     = (r, e2) \<and> session_item e2 ''authToken'' = Some ''new'' \<and> a_local e2 = []"
proof -
  let ?e = "env_initial [] [(''authToken'', ''old''), (''user'', ''{}'')]"
  have p: "json_parse ''{}'' = Inr (Obj [])" by code_simp
  have b: "refresh_begin True ?e = (AwaitToken, ?e\<lparr>a_isRefreshing := True, a_refreshPromise := True\<rparr>)"
    by (simp add: refresh_begin_def env_initial_def)
  have l: "map_of (session_storage False ?e) ''authToken'' = Some ''old''" "map_of (a_local ?e) ''authToken'' = None"
    "map_of (session_storage False ?e) ''user'' = Some ''{}''" by (simp_all add: env_initial_def session_storage_def)
  show ?thesis
    using refresh_ok [OF b l(1) _ l(2) l(3) _ p, of "auth_initial\<lparr>u_user := Obj []\<rparr>" "[]" 0 "''new''"]
    by (auto simp: session_storage_def session_item_def env_initial_def)
qed

text \<open>
  The listener of token changes stores the new token and updates the user, but leaves the
  default header of later requests on the token it replaced.
\<close>

theorem id_token_event_keeps_old_header:
  assumes "stored e ''user'' = Some su" and "su \<noteq> []" and "json_parse su = Inr v" and "truthy user"
    and "u_user s = Obj us" and "id_token_event now True user (Inr token) (s, e) = (s', e')"
  shows "a_header e' = a_header e
         \<and> (if uses_local e then local_item e' else session_item e') ''authToken'' = Some token
         \<and> opt (u_user s') ''token'' = Str token"
proof -
  define upd where "upd = spread v [(''token'', Str token), (''tokenExpiry'', Num (jint (now + 3300000))),
      (''lastRefresh'', Str (to_iso now))]"
  define e1 where "e1 = store_user (json_stringify upd) token e"
  define p where "p = Obj [(''token'', Str token), (''expiry'', Num (jint (now + 3300000)))]"
  obtain us' where u: "set_token_fields now p (Obj us) = Inr (Obj us')" "own us' ''token'' = Str token"
    by (auto simp: set_token_fields_def p_def get_def own_put)
  have r: "auth_reducer now (s, e1) (UpdateTokenData p) =
      Inr (s\<lparr>u_user := Obj us', u_tokenRefreshing := Bool False\<rparr>, e1)"
    using assms(5) u(1) by (simp add: on_state_def updateTokenData_def)
  have "str_truthy (stored e ''user'')" using assms(1,2) by (simp add: str_truthy_def)
  then have "s' = s\<lparr>u_user := Obj us', u_tokenRefreshing := Bool False\<rparr>" "e' = scheduleTokenRefresh now e1"
    using assms(1,3,4,6) r
    by (simp_all del: auth_reducer.simps add: id_token_event_def Let_def upd_def [symmetric] e1_def [symmetric] p_def [symmetric])
  then show ?thesis
    using u(2) by (simp add: e1_def local_item_def session_item_def store_user_def map_of_put)
qed

theorem id_token_event_keeps_old_header_witness:
  "a_header (snd (id_token_event 0 True (Obj []) (Inr ''new'')
     (auth_initial\<lparr>u_user := Obj []\<rparr>,
      (env_initial [(''authToken'', ''old''), (''user'', ''{}'')] [])\<lparr>a_header := Some ''Bearer old''\<rparr>))) =
   Some ''Bearer old''"
proof -
  let ?e = "(env_initial [(''authToken'', ''old''), (''user'', ''{}'')] [])\<lparr>a_header := Some ''Bearer old''\<rparr>"
  have p: "json_parse ''{}'' = Inr (Obj [])" by code_simp
  have s: "stored ?e ''user'' = Some ''{}''"
    by (simp add: stored_def str_or_def local_item_def env_initial_def)
  obtain s' e' where r: "id_token_event 0 True (Obj []) (Inr ''new'') (auth_initial\<lparr>u_user := Obj []\<rparr>, ?e) = (s', e')"
    by fastforce
  have "a_header e' = a_header ?e"
    by (rule id_token_event_keeps_old_header [OF s _ p _ _ r, THEN conjunct1]) simp_all
  then show ?thesis unfolding r by simp
qed

end
