(* ===== verification/Js_Array.thy ===== *)
theory Js_Array
  imports Js_Json "HOL-Library.Multiset"
begin

text \<open>
  Arrays as lists: \<open>sort\<close> with a comparator, \<open>reduce\<close> with addition, \<open>findIndex\<close>.
  \<open>Array.prototype.sort\<close> is stable; for a comparator that is not a consistent order
  ECMAScript leaves the result open, and the model takes the one of insertion sort.  A
  comparator is an interface: the locale \<open>comparator\<close> states when it is consistent on the
  values that satisfy \<open>ok\<close>, and the sortedness of the result is proved from that.
\<close>

section \<open>Sorting\<close>

fun insert_by :: "('a \<Rightarrow> 'a \<Rightarrow> jsnum) \<Rightarrow> 'a \<Rightarrow> 'a list \<Rightarrow> 'a list" where
  "insert_by cmp x [] = [x]"
| "insert_by cmp x (y # ys) =
     (if Fin 0 < cmp y x then x # y # ys else y # insert_by cmp x ys)"

definition js_sort :: "('a \<Rightarrow> 'a \<Rightarrow> jsnum) \<Rightarrow> 'a list \<Rightarrow> 'a list" where
  "js_sort cmp xs = foldl (\<lambda>acc x. insert_by cmp x acc) [] xs"

lemma mset_insert_by [simp]: "mset (insert_by cmp x ys) = add_mset x (mset ys)"
  by (induction ys) auto

lemma mset_js_sort [simp]: "mset (js_sort cmp xs) = mset xs"
proof -
  have "mset (foldl (\<lambda>acc x. insert_by cmp x acc) ys xs) = mset ys + mset xs" for ys
    by (induction xs arbitrary: ys) auto
  then show ?thesis by (simp add: js_sort_def)
qed

lemma set_js_sort [simp]: "set (js_sort cmp xs) = set xs"
  using mset_js_sort [of cmp xs] by (metis set_mset_mset)

lemma length_js_sort [simp]: "length (js_sort cmp xs) = length xs"
  using mset_js_sort [of cmp xs] by (metis size_mset)

lemma distinct_js_sort [simp]: "distinct (js_sort cmp xs) = distinct xs"
  using mset_js_sort [of cmp xs] by (metis mset_eq_imp_distinct_iff)

locale comparator =
  fixes ok :: "'a \<Rightarrow> bool"
    and cmp :: "'a \<Rightarrow> 'a \<Rightarrow> jsnum"
  assumes trans: "ok x \<Longrightarrow> ok y \<Longrightarrow> ok z \<Longrightarrow> \<not> Fin 0 < cmp x y \<Longrightarrow> \<not> Fin 0 < cmp y z \<Longrightarrow> \<not> Fin 0 < cmp x z"
    and total: "ok x \<Longrightarrow> ok y \<Longrightarrow> Fin 0 < cmp x y \<Longrightarrow> \<not> Fin 0 < cmp y x"
begin

definition le :: "'a \<Rightarrow> 'a \<Rightarrow> bool" where
  "le x y \<longleftrightarrow> \<not> Fin 0 < cmp x y"

lemma set_insert_by: "List.set (insert_by cmp x ys) = insert x (List.set ys)"
  by (induction ys) auto

lemma sorted_insert_by:
  "ok x \<Longrightarrow> (\<forall>y \<in> List.set ys. ok y) \<Longrightarrow> sorted_wrt le ys \<Longrightarrow> sorted_wrt le (insert_by cmp x ys)"
proof (induction ys)
  case Nil
  then show ?case by simp
next
  case (Cons y ys)
  show ?case
  proof (cases "Fin 0 < cmp y x")
    case True
    then have "le x y" using Cons.prems total [of y x] by (auto simp: le_def)
    moreover have "le x z" if "z \<in> List.set ys" for z
      using that Cons.prems \<open>le x y\<close> trans [of x y z] by (auto simp: le_def)
    ultimately show ?thesis using True Cons.prems by simp
  next
    case False
    then show ?thesis using Cons by (auto simp: set_insert_by le_def)
  qed
qed

lemma sorted_js_sort: "(\<forall>x \<in> List.set xs. ok x) \<Longrightarrow> sorted_wrt le (js_sort cmp xs)"
proof -
  have "sorted_wrt le (foldl (\<lambda>acc x. insert_by cmp x acc) ys xs)"
    if "\<forall>x \<in> List.set xs. ok x" "\<forall>y \<in> List.set ys. ok y" "sorted_wrt le ys" for ys
    using that
  proof (induction xs arbitrary: ys)
    case (Cons x xs)
    then show ?case by (auto intro!: Cons.IH sorted_insert_by simp: set_insert_by)
  qed simp
  then show "(\<forall>x \<in> List.set xs. ok x) \<Longrightarrow> sorted_wrt le (js_sort cmp xs)"
    by (simp add: js_sort_def)
qed

lemma js_sort_sorted: "sorted_wrt le xs \<Longrightarrow> js_sort cmp xs = xs"
proof (induction xs rule: rev_induct)
  case (snoc x xs)
  have "insert_by cmp x ys = ys @ [x]" if "\<forall>y \<in> List.set ys. le y x" for ys
    using that by (induction ys) (auto simp: le_def)
  then show ?case using snoc by (simp add: js_sort_def sorted_wrt_append)
qed (simp add: js_sort_def)

end

text \<open>The comparators of the program subtract a numeric key, ascending or descending.\<close>

definition fin_double :: "jsnum \<Rightarrow> bool" where
  "fin_double v \<longleftrightarrow> double v \<and> (\<exists>r. v = Fin r)"

lemma fin_double_int: "\<bar>n\<bar> \<le> 2 ^ 53 \<Longrightarrow> fin_double (Fin (of_int n))"
  by (simp add: fin_double_def double_Fin binary64.int_exact)

lemma fin_double_numeral [simp]:
  "(numeral k :: int) \<le> 9007199254740992 \<Longrightarrow> fin_double (Fin (numeral k))"
  using fin_double_int [of "numeral k"] by simp

lemma fin_double_diff: "fin_double x \<Longrightarrow> fin_double y \<Longrightarrow> Fin 0 < x - y \<longleftrightarrow> y < x"
  using diff_sign by (auto simp: fin_double_def)

lemma ascending_key: "comparator (\<lambda>x. fin_double (key x)) (\<lambda>a b. key a - key b)"
  by unfold_locales (auto simp: fin_double_diff fin_double_def)

lemma descending_key: "comparator (\<lambda>x. fin_double (key x)) (\<lambda>a b. key b - key a)"
  by unfold_locales (auto simp: fin_double_diff fin_double_def)

text \<open>Sorting by a numeric key: the comparator is lawful on the elements whose key is a finite double, and the
  sorted keys are in order.\<close>

locale ascending_by =
  fixes key :: "'a \<Rightarrow> jsnum"

sublocale ascending_by \<subseteq> comparator "\<lambda>x. fin_double (key x)" "\<lambda>a b. key a - key b"
  by (rule ascending_key)

context ascending_by
begin

lemma le_key: "fin_double (key a) \<Longrightarrow> fin_double (key b) \<Longrightarrow> le a b \<Longrightarrow> key a \<le> key b"
  using fin_double_diff by (auto simp: le_def fin_double_def)

lemma sorted_keys:
  assumes "\<forall>x \<in> set xs. fin_double (key x)"
  shows "sorted_wrt (\<lambda>a b. key a \<le> key b) (js_sort (\<lambda>a b. key a - key b) xs)"
  using assms le_key by (intro sorted_wrt_mono_rel [OF _ sorted_js_sort]) auto

end

locale descending_by =
  fixes key :: "'a \<Rightarrow> jsnum"

sublocale descending_by \<subseteq> comparator "\<lambda>x. fin_double (key x)" "\<lambda>a b. key b - key a"
  by (rule descending_key)

context descending_by
begin

lemma le_key: "fin_double (key a) \<Longrightarrow> fin_double (key b) \<Longrightarrow> le a b \<Longrightarrow> key b \<le> key a"
  using fin_double_diff by (auto simp: le_def fin_double_def)

lemma sorted_keys:
  assumes "\<forall>x \<in> set xs. fin_double (key x)"
  shows "sorted_wrt (\<lambda>a b. key b \<le> key a) (js_sort (\<lambda>a b. key b - key a) xs)"
  using assms le_key by (intro sorted_wrt_mono_rel [OF _ sorted_js_sort]) auto

end

definition sort_numbers :: "jsnum list \<Rightarrow> jsnum list" where
  "sort_numbers xs = js_sort (\<lambda>a b. a - b) xs"

interpretation ascending: ascending_by "\<lambda>x. x" .

lemma sorted_sort_numbers:
  "\<forall>x \<in> set xs. fin_double x \<Longrightarrow> sorted_wrt (\<le>) (sort_numbers xs)"
  unfolding sort_numbers_def by (rule ascending.sorted_keys)

section \<open>Sums and searches\<close>

definition jsum :: "jsnum list \<Rightarrow> jsnum" where
  "jsum xs = foldl (+) (Fin 0) xs"

lemma foldl_add_nonneg:
  "nonneg_or_nan a \<Longrightarrow> (\<forall>x \<in> set xs. nonneg_or_nan x) \<Longrightarrow> nonneg_or_nan (foldl (+) a xs)"
  by (induction xs arbitrary: a) (auto intro: nonneg_add)

lemma jsum_nonneg: "(\<forall>x \<in> set xs. nonneg_or_nan x) \<Longrightarrow> nonneg_or_nan (jsum xs)"
  by (simp add: jsum_def foldl_add_nonneg)

lemma double_jsum [simp]: "double (jsum xs)"
  by (cases xs rule: rev_cases) (auto simp: jsum_def)

definition jlen :: "'a list \<Rightarrow> jsnum" where
  "jlen xs = jint (int (length xs))"

fun find_index :: "('a \<Rightarrow> bool) \<Rightarrow> 'a list \<Rightarrow> nat option" where
  "find_index P [] = None"
| "find_index P (x # xs) = (if P x then Some 0 else map_option Suc (find_index P xs))"

lemma find_index_less: "find_index P xs = Some i \<Longrightarrow> i < length xs \<and> P (xs ! i)"
  by (induction xs arbitrary: i) (auto split: if_splits)

lemma find_index_None: "find_index P xs = None \<longleftrightarrow> (\<forall>x \<in> set xs. \<not> P x)"
  by (induction xs) auto

text \<open>\<open>Math.max(...xs)\<close> and \<open>Math.min(...xs)\<close>.\<close>

definition max_of :: "jsnum list \<Rightarrow> jsnum" where
  "max_of xs = foldl jmax NInf xs"

definition min_of :: "jsnum list \<Rightarrow> jsnum" where
  "min_of xs = foldl jmin PInf xs"

text \<open>A number that may be missing, with a default: \<open>x || d\<close>.\<close>

definition or_num :: "jsnum option \<Rightarrow> jsnum \<Rightarrow> jsnum" where
  "or_num x d = (case x of Some v \<Rightarrow> num_or v d | None \<Rightarrow> d)"

text \<open>The first truthy property of a list as a number: \<open>v?.a || v?.b || 0\<close>.\<close>

definition either_num :: "jsval \<Rightarrow> string list \<Rightarrow> jsnum" where
  "either_num v ks = to_number (foldr (\<lambda>k d. js_or (opt v k) d) ks (Num (Fin 0)))"

section \<open>The least value\<close>

text \<open>One step of a loop that keeps the smallest value seen and where it was seen.\<close>

definition argmin_step :: "('a \<Rightarrow> jsnum) \<Rightarrow> jsnum \<times> 'a \<Rightarrow> 'a \<Rightarrow> jsnum \<times> 'a" where
  "argmin_step f acc t = (if f t < fst acc then (f t, t) else acc)"

lemma num_linear: "x \<noteq> NaN \<Longrightarrow> y \<noteq> NaN \<Longrightarrow> \<not> x < y \<longleftrightarrow> y \<le> (x :: jsnum)"
  by (cases x; cases y) auto

lemma num_order: "x < y \<Longrightarrow> x \<le> (y :: jsnum)" "x \<noteq> NaN \<Longrightarrow> x \<le> x" "x \<noteq> NaN \<Longrightarrow> x \<le> PInf" "PInf \<le> x \<longleftrightarrow> x = PInf"
  by (cases x; cases y; auto)+

lemma argmin_fold:
  assumes "\<forall>t \<in> set ts. f t \<noteq> NaN" and "p \<noteq> NaN" and "foldl (argmin_step f) (p, x) ts = (p', x')"
  shows "p' \<noteq> NaN \<and> p' \<le> p \<and> (\<forall>t \<in> set ts. p' \<le> f t)
       \<and> (x' \<in> set ts \<and> p' = f x' \<or> p' = p \<and> x' = x)"
  using assms
proof (induction ts arbitrary: p x)
  case Nil
  then show ?case by (simp add: num_order)
next
  case (Cons t ts)
  show ?case
  proof (cases "f t < p")
    case True
    then have IH: "p' \<noteq> NaN \<and> p' \<le> f t \<and> (\<forall>t \<in> set ts. p' \<le> f t)
        \<and> (x' \<in> set ts \<and> p' = f x' \<or> p' = f t \<and> x' = t)"
      using Cons.prems by (intro Cons.IH) (auto simp: argmin_step_def)
    then have "p' \<le> p" using True num_order(1) jsnum_le_trans by blast
    then show ?thesis using IH by auto
  next
    case False
    then have IH: "p' \<noteq> NaN \<and> p' \<le> p \<and> (\<forall>t \<in> set ts. p' \<le> f t)
        \<and> (x' \<in> set ts \<and> p' = f x' \<or> p' = p \<and> x' = x)"
      using Cons.prems by (intro Cons.IH) (auto simp: argmin_step_def)
    moreover have "p \<le> f t" using False Cons.prems(1,2) num_linear by simp
    ultimately have "p' \<le> f t" using jsnum_le_trans by blast
    then show ?thesis using IH by auto
  qed
qed

end
