(* ===== verification/Buildup.thy ===== *)
theory Buildup
  imports Js_Array
begin

text \<open>
  The build-up analysis of an option chain (src/services/buildupAnalytics.js): the thresholds,
  the statistics, the classifier, the eight-factor score, the cluster miner and the analysis
  that combines them.  A leg of the chain is a JSON object whose numeric fields may be missing.
  \<open>Math.log10\<close>, \<open>Math.pow\<close> and \<open>Math.exp\<close>, which ECMAScript leaves to the engine,
  are parameters.  \<open>detectClusters\<close> updates shared contract objects through two sorted arrays
  of references; the model keeps one list of contracts and sorts indices into it.
\<close>

section \<open>Configuration\<close>

definition lotSize :: jsnum where "lotSize = N 75"
definition contractMultiplier :: jsnum where "contractMultiplier = N 75"
definition minOI :: jsnum where "minOI = N 10000"
definition institutionalOI :: jsnum where "institutionalOI = N 300000"
definition minOIChange :: jsnum where "minOIChange = N 1000"
definition minVolume :: jsnum where "minVolume = N 200"
definition minPremium :: jsnum where "minPremium = N 100000"
definition strongPremium :: jsnum where "strongPremium = N 1000000"
definition institutionalPremium :: jsnum where "institutionalPremium = N 2500000"
definition deltaThreshold :: jsnum where "deltaThreshold = N (1 / 10)"
definition zScoreSignificant :: jsnum where "zScoreSignificant = N 1"
definition zScoreStrong :: jsnum where "zScoreStrong = N (3 / 2)"
definition zScoreExtreme :: jsnum where "zScoreExtreme = N (5 / 2)"

datatype opt_type = CE | PE

datatype buildup = LB | SB | SC | LU | NT

datatype implication = Bullish | Bearish | NeutralImp

fun market_implication :: "opt_type \<Rightarrow> buildup \<Rightarrow> implication" where
  "market_implication CE LB = Bullish"
| "market_implication CE SB = Bearish"
| "market_implication CE SC = Bullish"
| "market_implication CE LU = Bearish"
| "market_implication PE LB = Bearish"
| "market_implication PE SB = Bullish"
| "market_implication PE SC = Bearish"
| "market_implication PE LU = Bullish"
| "market_implication _ NT = NeutralImp"

section \<open>Statistics\<close>

definition mean :: "jsnum list \<Rightarrow> jsnum" where
  "mean arr = (if arr \<noteq> [] then jsum arr / jlen arr else Fin 0)"

definition stdDev :: "(jsnum \<Rightarrow> jsnum \<Rightarrow> jsnum) \<Rightarrow> jsnum list \<Rightarrow> jsnum" where
  "stdDev mpow arr =
     (if length arr < 2 then Fin 0
      else let m = mean arr in jsqrt (jsum (map (\<lambda>x. mpow (x - m) (N 2)) arr) / jlen arr))"

definition zScore :: "jsnum \<Rightarrow> jsnum \<Rightarrow> jsnum \<Rightarrow> jsnum" where
  "zScore value m sd = (if num_eq sd (Fin 0) then Fin 0 else (value - m) / sd)"

definition percentile :: "jsnum \<Rightarrow> jsnum list \<Rightarrow> jsnum" where
  "percentile value sortedArr =
     (if sortedArr = [] then N 50
      else case find_index (\<lambda>v. value \<le> v) sortedArr of
             None \<Rightarrow> N 100
           | Some idx \<Rightarrow> jint (int idx) / jlen sortedArr * N 100)"

definition median :: "jsnum list \<Rightarrow> jsnum" where
  "median arr =
     (if arr = [] then Fin 0
      else let sorted = sort_numbers arr; mid = length sorted div 2
           in if length sorted mod 2 \<noteq> 0 then sorted ! mid
              else (sorted ! (mid - 1) + sorted ! mid) / N 2)"

record iqr_stats =
  q1 :: jsnum
  q3 :: jsnum
  iqr_range :: jsnum
  lowerBound :: jsnum
  upperBound :: jsnum

text \<open>The quartile indices: \<open>n * 0.25\<close> and \<open>n * 0.75\<close> are exact for array lengths.\<close>

definition iqr :: "jsnum list \<Rightarrow> iqr_stats" where
  "iqr arr =
     (if length arr < 4
      then \<lparr>q1 = Fin 0, q3 = Fin 0, iqr_range = Fin 0, lowerBound = Fin 0, upperBound = Fin 0\<rparr>
      else let sorted = sort_numbers arr;
               a = sorted ! (length sorted div 4); b = sorted ! (3 * length sorted div 4); r = b - a
           in \<lparr>q1 = a, q3 = b, iqr_range = r, lowerBound = a - N (3 / 2) * r,
                upperBound = b + N (3 / 2) * r\<rparr>)"

definition correlation :: "(jsnum \<Rightarrow> jsnum \<Rightarrow> jsnum) \<Rightarrow> jsnum list \<Rightarrow> jsnum list \<Rightarrow> jsnum" where
  "correlation mpow arr1 arr2 =
     (if length arr1 \<noteq> length arr2 \<or> length arr1 < 3 then Fin 0
      else let m1 = mean arr1; m2 = mean arr2; s1 = stdDev mpow arr1; s2 = stdDev mpow arr2
           in if num_eq s1 (Fin 0) \<or> num_eq s2 (Fin 0) then Fin 0
              else jsum (map2 (\<lambda>a b. (a - m1) * (b - m2)) arr1 arr2) / jlen arr1 / (s1 * s2))"

definition sigmoid :: "(jsnum \<Rightarrow> jsnum) \<Rightarrow> jsnum \<Rightarrow> jsnum \<Rightarrow> jsnum" where
  "sigmoid mexp x k = N 100 / (Fin 1 + mexp (- k * x))"

section \<open>Formatting\<close>

definition rupee :: string where
  "rupee = [CHR 0xE2, CHR 0x82, CHR 0xB9]"

definition formatNumber :: "jsnum \<Rightarrow> string" where
  "formatNumber num =
     (if \<not> num_truthy num then ''0''
      else let a = abs num
           in if N 10000000 \<le> a then to_fixed 2 (num / N 10000000) @ ''Cr''
              else if N 100000 \<le> a then to_fixed 2 (num / N 100000) @ ''L''
              else if N 1000 \<le> a then to_fixed 1 (num / N 1000) @ ''K''
              else to_fixed 0 num)"

definition formatCurrency :: "jsnum \<Rightarrow> string" where
  "formatCurrency num =
     (if \<not> num_truthy num then rupee @ ''0''
      else let a = abs num
           in if N 10000000 \<le> a then rupee @ to_fixed 1 (num / N 10000000) @ ''Cr''
              else if N 100000 \<le> a then rupee @ to_fixed 1 (num / N 100000) @ ''L''
              else if N 1000 \<le> a then rupee @ to_fixed 0 (num / N 1000) @ ''K''
              else rupee @ to_fixed 0 num)"

section \<open>Contracts\<close>

record contract =
  c_strike :: jsnum
  c_type :: opt_type
  c_vol :: jsnum
  c_oi :: jsnum
  c_oiChg :: jsnum
  c_oiChgPct :: jsnum
  c_ltp :: jsnum
  c_pChg :: jsnum
  c_pChgPct :: jsnum
  c_premium :: jsnum
  c_volOIRatio :: jsnum
  c_atmDistance :: jsnum
  c_iv :: jsnum
  c_delta :: jsnum
  c_gamma :: jsnum
  c_vega :: jsnum
  c_theta :: jsnum
  c_deltaAdjustedOI :: jsnum
  c_gammaExposure :: jsnum

record factor =
  f_score :: jsnum
  f_weight :: jsnum
  f_raw :: string

record scored = contract +
  s_buildupType :: buildup
  s_confidence :: jsnum
  s_tier :: string
  s_factors :: "(string \<times> factor) list"
  s_isInstitutional :: bool
  s_isAnomaly :: bool
  s_marketImplication :: implication
  s_isClustered :: bool

definition classifyBuildup :: "'a contract_scheme \<Rightarrow> buildup" where
  "classifyBuildup c =
     (let hasSignificantActivity =
            minOIChange \<le> abs (c_oiChg c) \<or> Fin 1 \<le> abs (c_oiChgPct c);
          priceUp = N (5 / 100) < c_pChgPct c; priceDown = c_pChgPct c < N (- 5 / 100)
      in if \<not> hasSignificantActivity then NT
         else if priceUp \<and> Fin 0 < c_oiChg c then LB
         else if priceDown \<and> Fin 0 < c_oiChg c then SB
         else if priceUp \<and> c_oiChg c < Fin 0 then SC
         else if priceDown \<and> c_oiChg c < Fin 0 then LU
         else NT)"

section \<open>Clusters\<close>

text \<open>The references of one option type in strike order, as indices.\<close>

definition strike_order :: "opt_type \<Rightarrow> scored list \<Rightarrow> nat list" where
  "strike_order t cs =
     map fst (js_sort (\<lambda>a b. c_strike (snd a) - c_strike (snd b))
       (filter (\<lambda>p. c_type (snd p) = t) (enumerate 0 cs)))"

definition clusterSupport :: factor where
  "clusterSupport = \<lparr>f_score = N 100, f_weight = N 25, f_raw = ''3-Strike Pattern''\<rparr>"

definition boost :: "jsnum \<Rightarrow> scored \<Rightarrow> scored" where
  "boost k c =
     c\<lparr>s_isClustered := True, s_confidence := jmin (N 100) (s_confidence c * k),
       s_factors := put ''clusterSupport'' clusterSupport (s_factors c)\<rparr>"

definition in_pattern :: "scored list \<Rightarrow> nat \<Rightarrow> nat \<Rightarrow> nat \<Rightarrow> bool" where
  "in_pattern cs p c n \<longleftrightarrow>
     s_buildupType (cs ! c) \<noteq> NT \<and> s_buildupType (cs ! p) = s_buildupType (cs ! c) \<and>
     s_buildupType (cs ! n) = s_buildupType (cs ! c)"

definition mark_at :: "nat list \<Rightarrow> nat \<Rightarrow> scored list \<Rightarrow> scored list" where
  "mark_at idx i cs =
     (let p = idx ! (i - 1); c = idx ! i; n = idx ! (i + 1)
      in if in_pattern cs p c n
         then let cs1 = cs[p := boost (N (6 / 5)) (cs ! p)];
                  cs2 = cs1[c := boost (N (13 / 10)) (cs1 ! c)]
              in cs2[n := boost (N (6 / 5)) (cs2 ! n)]
         else cs)"

definition markClusters :: "nat list \<Rightarrow> scored list \<Rightarrow> scored list" where
  "markClusters idx cs = fold (mark_at idx) [1..<length idx - 1] cs"

definition detectClusters :: "scored list \<Rightarrow> scored list" where
  "detectClusters cs = markClusters (strike_order PE cs) (markClusters (strike_order CE cs) cs)"

section \<open>The multi-factor score\<close>

record global_stats =
  g_sortedOI :: "jsnum list"
  g_oiChgMean :: jsnum
  g_oiChgStdDev :: jsnum
  g_oiChgIQR :: iqr_stats
  g_premiumMean :: jsnum
  g_premiumStdDev :: jsnum
  g_premiumIQR :: iqr_stats
  g_gexMean :: jsnum
  g_gexStdDev :: jsnum

definition oiChgScore :: "jsnum \<Rightarrow> jsnum" where
  "oiChgScore z =
     (if zScoreExtreme \<le> z then N 100 else if zScoreStrong \<le> z then N 80
      else if zScoreSignificant \<le> z then N 60 else if Fin 1 \<le> z then N 40
      else if N (1 / 2) \<le> z then N 20 else Fin 0)"

definition volOIScore :: "jsnum \<Rightarrow> jsnum" where
  "volOIScore r =
     (if N 100 \<le> r then N 100 else if N 50 \<le> r then N 70 else if N 25 \<le> r then N 40
      else if N 10 \<le> r then N 20 else Fin 0)"

definition premiumScore :: "jsnum \<Rightarrow> jsnum" where
  "premiumScore p =
     (if institutionalPremium \<le> p then N 100 else if strongPremium \<le> p then N 70
      else if minPremium \<le> p then N 40 else Fin 0)"

definition deltaScore :: "jsnum \<Rightarrow> jsnum" where
  "deltaScore d =
     (if N (4 / 10) \<le> d \<and> d \<le> N (6 / 10) then N 100 else if N (25 / 100) \<le> d then N 70
      else if deltaThreshold \<le> d then N 40 else Fin 0)"

definition gammaScore :: "jsnum \<Rightarrow> jsnum" where
  "gammaScore z =
     (if N 2 \<le> z then N 100 else if Fin 1 \<le> z then N 60 else if N (1 / 2) \<le> z then N 30 else Fin 0)"

definition ivScore :: "jsnum \<Rightarrow> jsnum" where
  "ivScore r =
     (if N (12 / 10) \<le> r then N 80 else if N (11 / 10) \<le> r then N 50
      else if N (9 / 10) \<le> r then N 30 else Fin 0)"

definition atmScore :: "jsnum \<Rightarrow> jsnum" where
  "atmScore s =
     (if s \<le> N 2 then N 100 else if s \<le> N 4 then N 70 else if s \<le> N 6 then N 40
      else if s \<le> N 10 then N 20 else Fin 0)"

definition tier_of :: "jsnum \<Rightarrow> string" where
  "tier_of s =
     (if N 70 \<le> s then ''Very High'' else if N 55 \<le> s then ''High''
      else if N 40 \<le> s then ''Medium'' else ''Low'')"

record score_data =
  sd_score :: jsnum
  sd_factors :: "(string \<times> factor) list"
  sd_tier :: string
  sd_isInstitutional :: bool
  sd_isAnomaly :: bool

definition score_factors ::
  "'a contract_scheme \<Rightarrow> global_stats \<Rightarrow> jsnum option \<Rightarrow> (string \<times> factor) list" where
  "score_factors c g atmIV =
     (let oiPercentile = percentile (c_oi c) (g_sortedOI g);
          oiChgZ = zScore (abs (c_oiChg c)) (g_oiChgMean g) (g_oiChgStdDev g);
          delta = num_or (c_delta c) (Fin 0);
          gammaGEX = abs (num_or (c_gamma c) (Fin 0)) * c_oi c * contractMultiplier;
          gammaZ = zScore gammaGEX (g_gexMean g) (g_gexStdDev g);
          ivRatio = (case atmIV of
                       Some a \<Rightarrow> if num_truthy (c_iv c) \<and> num_truthy a then c_iv c / a else Fin 1
                     | None \<Rightarrow> Fin 1);
          strikesFromATM = abs (c_atmDistance c / N 50)
      in [(''oiMagnitude'', \<lparr>f_score = oiPercentile / N 100 * N 100, f_weight = N 15,
             f_raw = to_fixed 0 oiPercentile @ ''th''\<rparr>),
          (''oiChangeZScore'', \<lparr>f_score = oiChgScore oiChgZ, f_weight = N 20,
             f_raw = to_fixed 2 oiChgZ @ [CHR 0xCF, CHR 0x83]\<rparr>),
          (''volumeRatio'', \<lparr>f_score = volOIScore (c_volOIRatio c), f_weight = N 10,
             f_raw = to_fixed 0 (c_volOIRatio c) @ ''%''\<rparr>),
          (''premiumFlow'', \<lparr>f_score = premiumScore (c_premium c), f_weight = N 15,
             f_raw = formatCurrency (c_premium c)\<rparr>),
          (''deltaMagnitude'', \<lparr>f_score = deltaScore (abs delta), f_weight = N 12,
             f_raw = to_fixed 3 delta\<rparr>),
          (''gammaExposure'', \<lparr>f_score = gammaScore gammaZ, f_weight = N 10,
             f_raw = formatNumber gammaGEX\<rparr>),
          (''ivContext'', \<lparr>f_score = ivScore ivRatio, f_weight = N 8,
             f_raw = to_fixed 1 (c_iv c) @ ''%''\<rparr>),
          (''atmProximity'', \<lparr>f_score = atmScore strikesFromATM, f_weight = N 10,
             f_raw = to_fixed 0 strikesFromATM @ '' strikes''\<rparr>)])"

definition calculateAdvancedScore ::
  "'a contract_scheme \<Rightarrow> global_stats \<Rightarrow> jsnum option \<Rightarrow> score_data" where
  "calculateAdvancedScore c g atmIV =
     (let factors = score_factors c g atmIV;
          totalScore = jsum (map (\<lambda>f. f_score (snd f) * f_weight (snd f)) factors);
          totalWeight = jsum (map (\<lambda>f. f_weight (snd f)) factors);
          finalScore = (if Fin 0 < totalWeight then totalScore / totalWeight else Fin 0);
          oiChgZ = zScore (abs (c_oiChg c)) (g_oiChgMean g) (g_oiChgStdDev g)
      in \<lparr>sd_score = finalScore, sd_factors = factors, sd_tier = tier_of finalScore,
           sd_isInstitutional = (institutionalOI \<le> c_oi c \<or> institutionalPremium \<le> c_premium c
             \<or> zScoreStrong \<le> oiChgZ),
           sd_isAnomaly = (upperBound (g_oiChgIQR g) < abs (c_oiChg c)
             \<or> upperBound (g_premiumIQR g) < c_premium c)\<rparr>)"


section \<open>The analysis\<close>

record greeks_in =
  gi_delta :: "jsnum option"
  gi_gamma :: "jsnum option"
  gi_vega :: "jsnum option"
  gi_theta :: "jsnum option"

definition no_greeks :: greeks_in where
  "no_greeks = \<lparr>gi_delta = None, gi_gamma = None, gi_vega = None, gi_theta = None\<rparr>"

record leg_in =
  li_vol :: "jsnum option"
  li_volume :: "jsnum option"
  li_oi :: "jsnum option"
  li_OI :: "jsnum option"
  li_oichng :: "jsnum option"
  li_oi_change :: "jsnum option"
  li_ltp :: "jsnum option"
  li_p_chng :: "jsnum option"
  li_iv :: "jsnum option"
  li_optgeeks :: "greeks_in option"

type_synonym chain_in = "(string \<times> (opt_type \<Rightarrow> leg_in option)) list"

text \<open>\<open>a || b || 0\<close> on fields that may be missing.\<close>

definition field2 :: "jsnum option \<Rightarrow> jsnum option \<Rightarrow> jsnum" where
  "field2 a b = or_num a (or_num b (Fin 0))"

definition make_contract ::
  "jsnum \<Rightarrow> jsnum \<Rightarrow> jsnum \<Rightarrow> jsnum \<Rightarrow> opt_type \<Rightarrow> leg_in \<Rightarrow> contract" where
  "make_contract strike spotPrice atm configLotSize optType leg =
     (let vol = field2 (li_vol leg) (li_volume leg); oi = field2 (li_oi leg) (li_OI leg);
          oiChg = field2 (li_oichng leg) (li_oi_change leg);
          ltp = or_num (li_ltp leg) (Fin 0); pChg = or_num (li_p_chng leg) (Fin 0);
          iv = or_num (li_iv leg) (Fin 0);
          greeks = (case li_optgeeks leg of Some g \<Rightarrow> g | None \<Rightarrow> no_greeks);
          delta = or_num (gi_delta greeks) (Fin 0); gamma = or_num (gi_gamma greeks) (Fin 0)
      in \<lparr>c_strike = strike, c_type = optType, c_vol = vol, c_oi = oi, c_oiChg = oiChg,
           c_oiChgPct = (if Fin 0 < oi then oiChg / oi * N 100 else Fin 0),
           c_ltp = ltp, c_pChg = pChg,
           c_pChgPct = (if Fin 0 < ltp then pChg / ltp * N 100 else Fin 0),
           c_premium = vol * ltp * configLotSize,
           c_volOIRatio = (if Fin 0 < oi then vol / oi * N 100 else Fin 0),
           c_atmDistance = abs (strike - atm), c_iv = iv, c_delta = delta, c_gamma = gamma,
           c_vega = or_num (gi_vega greeks) (Fin 0), c_theta = or_num (gi_theta greeks) (Fin 0),
           c_deltaAdjustedOI = abs delta * oi * contractMultiplier,
           c_gammaExposure = gamma * oi * contractMultiplier * spotPrice / N 100\<rparr>)"

text \<open>Insignificant legs are skipped.\<close>

definition insignificant :: "leg_in \<Rightarrow> bool" where
  "insignificant leg \<longleftrightarrow>
     field2 (li_oi leg) (li_OI leg) < minOI \<or> field2 (li_vol leg) (li_volume leg) < minVolume"

definition contract_of_leg ::
  "jsnum \<Rightarrow> jsnum \<Rightarrow> jsnum \<Rightarrow> jsnum \<Rightarrow> opt_type \<Rightarrow> leg_in option \<Rightarrow> contract list" where
  "contract_of_leg strike spotPrice atm configLotSize t l =
     (case l of
        None \<Rightarrow> []
      | Some leg \<Rightarrow> if insignificant leg then []
                    else [make_contract strike spotPrice atm configLotSize t leg])"

definition extract_contracts :: "chain_in \<Rightarrow> jsnum \<Rightarrow> jsnum \<Rightarrow> jsnum \<Rightarrow> contract list" where
  "extract_contracts chain spotPrice atm configLotSize =
     concat (map (\<lambda>(strikeKey, data).
       concat (map (\<lambda>t. contract_of_leg (parse_float strikeKey) spotPrice atm configLotSize t (data t))
         [CE, PE])) chain)"

definition global_statistics ::
  "(jsnum \<Rightarrow> jsnum \<Rightarrow> jsnum) \<Rightarrow> contract list \<Rightarrow> global_stats" where
  "global_statistics mpow cs =
     (let oiChgAbs = map (\<lambda>c. abs (c_oiChg c)) cs; premiums = map c_premium cs;
          gexValues = map (\<lambda>c. abs (c_gammaExposure c)) cs
      in \<lparr>g_sortedOI = sort_numbers (map c_oi cs),
           g_oiChgMean = mean oiChgAbs, g_oiChgStdDev = stdDev mpow oiChgAbs, g_oiChgIQR = iqr oiChgAbs,
           g_premiumMean = mean premiums, g_premiumStdDev = stdDev mpow premiums,
           g_premiumIQR = iqr premiums,
           g_gexMean = mean gexValues, g_gexStdDev = stdDev mpow gexValues\<rparr>)"

definition score_contract :: "global_stats \<Rightarrow> jsnum option \<Rightarrow> contract \<Rightarrow> scored" where
  "score_contract g atmIV c =
     (let b = classifyBuildup c; d = calculateAdvancedScore c g atmIV
      in contract.extend c
           (scored.fields b (sd_score d) (sd_tier d) (sd_factors d) (sd_isInstitutional d)
             (sd_isAnomaly d) (market_implication (c_type c) b) False))"

record sentiment_acc =
  bullishScore :: jsnum
  bearishScore :: jsnum
  deltaBullish :: jsnum
  deltaBearish :: jsnum
  bullishContracts :: "scored list"
  bearishContracts :: "scored list"

definition sentiment_weight :: "(jsnum \<Rightarrow> jsnum) \<Rightarrow> scored \<Rightarrow> jsnum" where
  "sentiment_weight mlog10 c =
     jsqrt (s_confidence c / N 100 * mlog10 (c_premium c + Fin 1)
            * (Fin 1 + c_deltaAdjustedOI c / N 1000000))
     * (if s_isClustered c then N 2 else Fin 1)"

definition sentiment_step :: "(jsnum \<Rightarrow> jsnum) \<Rightarrow> scored \<Rightarrow> sentiment_acc \<Rightarrow> sentiment_acc" where
  "sentiment_step mlog10 c a =
     (if s_buildupType c = NT then a
      else let weight = sentiment_weight mlog10 c
           in case s_marketImplication c of
                Bullish \<Rightarrow> a\<lparr>bullishScore := bullishScore a + weight,
                              bullishContracts := bullishContracts a @ [c],
                              deltaBullish := deltaBullish a + c_deltaAdjustedOI c\<rparr>
              | Bearish \<Rightarrow> a\<lparr>bearishScore := bearishScore a + weight,
                              bearishContracts := bearishContracts a @ [c],
                              deltaBearish := deltaBearish a + c_deltaAdjustedOI c\<rparr>
              | NeutralImp \<Rightarrow> a)"

definition sentiment_sums :: "(jsnum \<Rightarrow> jsnum) \<Rightarrow> scored list \<Rightarrow> sentiment_acc" where
  "sentiment_sums mlog10 cs =
     fold (sentiment_step mlog10) cs
       \<lparr>bullishScore = Fin 0, bearishScore = Fin 0, deltaBullish = Fin 0, deltaBearish = Fin 0,
        bullishContracts = [], bearishContracts = []\<rparr>"

definition by_confidence :: "scored list \<Rightarrow> scored list" where
  "by_confidence cs = js_sort (\<lambda>a b. s_confidence b - s_confidence a) cs"

definition sentiment_score :: "jsnum \<Rightarrow> jsnum \<Rightarrow> jsnum" where
  "sentiment_score bull bear =
     (let totalScore = bull + bear
      in if Fin 0 < totalScore then bull / totalScore * N 100 else N 50)"

definition green :: string where "green = [CHR 0xF0, CHR 0x9F, CHR 0x9F, CHR 0xA2]"
definition yellow :: string where "yellow = [CHR 0xF0, CHR 0x9F, CHR 0x9F, CHR 0xA1]"
definition red :: string where "red = [CHR 0xF0, CHR 0x9F, CHR 0x94, CHR 0xB4]"
definition scales :: string where
  "scales = [CHR 0xE2, CHR 0x9A, CHR 0x96, CHR 0xEF, CHR 0xB8, CHR 0x8F]"

text \<open>The label and emoji of a score; a total that is not positive leaves it neutral.\<close>

definition sentiment_label :: "jsnum \<Rightarrow> jsnum \<Rightarrow> string \<times> string" where
  "sentiment_label totalScore s =
     (if \<not> Fin 0 < totalScore then (''Neutral'', scales)
      else if N 70 \<le> s then (''Strongly Bullish'', green @ green)
      else if N 58 \<le> s then (''Moderately Bullish'', green)
      else if N 52 \<le> s then (''Mildly Bullish'', yellow @ green)
      else if s \<le> N 30 then (''Strongly Bearish'', red @ red)
      else if s \<le> N 42 then (''Moderately Bearish'', red)
      else if s \<le> N 48 then (''Mildly Bearish'', yellow @ red)
      else (''Neutral'', scales))"

record type_stats =
  t_count :: nat
  t_ceCount :: nat
  t_peCount :: nat
  t_oiChange :: jsnum
  t_premium :: jsnum
  t_deltaAdjustedOI :: jsnum
  t_gammaExposure :: jsnum
  t_avgConfidence :: jsnum
  t_highConfidence :: nat
  t_institutional :: nat
  t_anomalies :: nat
  t_clustered :: nat
  t_contracts :: "scored list"

definition type_statistics :: "scored list \<Rightarrow> buildup \<Rightarrow> type_stats" where
  "type_statistics cs b =
     (let tc = filter (\<lambda>c. s_buildupType c = b) cs; n = (\<lambda>P. length (filter P tc))
      in \<lparr>t_count = length tc, t_ceCount = n (\<lambda>c. c_type c = CE), t_peCount = n (\<lambda>c. c_type c = PE),
           t_oiChange = jsum (map c_oiChg tc), t_premium = jsum (map c_premium tc),
           t_deltaAdjustedOI = jsum (map c_deltaAdjustedOI tc),
           t_gammaExposure = jsum (map c_gammaExposure tc),
           t_avgConfidence = (if 0 < length tc then mean (map s_confidence tc) else Fin 0),
           t_highConfidence = n (\<lambda>c. N 55 \<le> s_confidence c), t_institutional = n s_isInstitutional,
           t_anomalies = n s_isAnomaly, t_clustered = n s_isClustered, t_contracts = tc\<rparr>)"

definition typeStats :: "scored list \<Rightarrow> (buildup \<times> type_stats) list" where
  "typeStats cs = map (\<lambda>b. (b, type_statistics cs b)) [LB, SB, SC, LU, NT]"

record insight =
  i_factor :: string
  i_confidence :: jsnum
  i_description :: string

definition insight_for ::
  "scored list \<Rightarrow> opt_type \<times> buildup \<times> string \<times> string \<Rightarrow> insight list" where
  "insight_for cs q =
     (case q of (t, b, name, description) \<Rightarrow>
        let sel = filter (\<lambda>c. c_type c = t \<and> s_buildupType c = b) cs
        in if sel = [] then []
           else [\<lparr>i_factor = name @ '' ('' @ show_int (int (length sel)) @ '')'',
                  i_confidence = mean (map s_confidence sel), i_description = description\<rparr>])"

definition bullishFactors :: "scored list \<Rightarrow> insight list" where
  "bullishFactors cs = concat (map (insight_for cs)
     [(CE, LB, ''CE Long Buildup'', ''Call buyers active - expecting upside''),
      (PE, SB, ''PE Short Buildup'', ''Put writers supporting - expecting stability/upside''),
      (PE, LU, ''PE Long Unwinding'', ''Put buyers exiting - downside fear subsiding'')])"

definition bearishFactors :: "scored list \<Rightarrow> insight list" where
  "bearishFactors cs = concat (map (insight_for cs)
     [(PE, LB, ''PE Long Buildup'', ''Put buyers active - expecting downside''),
      (CE, SB, ''CE Short Buildup'', ''Call writers capping - expecting sideways/down''),
      (CE, LU, ''CE Long Unwinding'', ''Call buyers exiting - upside hope fading'')])"

definition anomalies :: "scored list \<Rightarrow> scored list" where
  "anomalies cs = take 5 (by_confidence (filter s_isAnomaly cs))"

record level =
  l_strike :: jsnum
  l_oi :: jsnum

definition strikeOI :: "scored list \<Rightarrow> (string \<times> (jsnum \<times> jsnum)) list" where
  "strikeOI cs =
     fold (\<lambda>c m. let k = num_to_string (c_strike c);
                     (ce, pe) = (case map_of m k of Some d \<Rightarrow> d | None \<Rightarrow> (Fin 0, Fin 0))
                 in put k (case c_type c of CE \<Rightarrow> (c_oi c, pe) | PE \<Rightarrow> (ce, c_oi c)) m) cs []"

definition side_of :: "opt_type \<Rightarrow> jsnum \<times> jsnum \<Rightarrow> jsnum" where
  "side_of t d = (case t of CE \<Rightarrow> fst d | PE \<Rightarrow> snd d)"

definition max_level :: "(jsnum \<times> jsnum \<Rightarrow> jsnum) \<Rightarrow> (string \<times> (jsnum \<times> jsnum)) list \<Rightarrow> level" where
  "max_level side m =
     fold (\<lambda>(k, d) best. if l_oi best < side d then \<lparr>l_strike = parse_float k, l_oi = side d\<rparr> else best)
       m \<lparr>l_strike = Fin 0, l_oi = Fin 0\<rparr>"

record market_state =
  ms_pcr :: jsnum
  ms_atmIV :: jsnum
  ms_dte :: jsnum
  ms_totalGEX :: jsnum
  ms_netGEX :: jsnum
  ms_deltaAdjustedBias :: jsnum
  ms_gammaRegime :: string

definition gex_of :: "scored list \<Rightarrow> jsnum" where
  "gex_of cs = jsum (map c_gammaExposure cs)"

definition marketState ::
  "scored list \<Rightarrow> sentiment_acc \<Rightarrow> jsnum option \<Rightarrow> jsnum option \<Rightarrow> jsnum option \<Rightarrow> market_state" where
  "marketState cs a pcr atmIV dte =
     (let netGEX = gex_of (filter (\<lambda>c. c_type c = CE) cs) - gex_of (filter (\<lambda>c. c_type c = PE) cs)
      in \<lparr>ms_pcr = or_num pcr (Fin 0), ms_atmIV = or_num atmIV (Fin 0), ms_dte = or_num dte (Fin 0),
           ms_totalGEX = gex_of cs, ms_netGEX = netGEX,
           ms_deltaAdjustedBias = (deltaBullish a - deltaBearish a)
             / (deltaBullish a + deltaBearish a + Fin 1) * N 100,
           ms_gammaRegime = (if Fin 0 < netGEX then ''Positive (Mean Reverting)''
                             else ''Negative (Trending)'')\<rparr>)"

record analysis_result =
  ar_analysis :: "(buildup \<times> type_stats) list"
  ar_contracts :: "scored list"
  ar_sentiment :: string
  ar_sentimentScore :: jsnum
  ar_sentimentEmoji :: string
  ar_bullishScore :: jsnum
  ar_bearishScore :: jsnum
  ar_bullishCount :: nat
  ar_bearishCount :: nat
  ar_topBullish :: "scored list"
  ar_topBearish :: "scored list"
  ar_totalContracts :: nat
  ar_institutionalCount :: nat
  ar_anomalyCount :: nat
  ar_clusterCount :: nat
  ar_bullishFactors :: "insight list"
  ar_bearishFactors :: "insight list"
  ar_anomalies :: "scored list"
  ar_resistance :: level
  ar_support :: level
  ar_marketState :: market_state

definition analyse_scored ::
  "(jsnum \<Rightarrow> jsnum) \<Rightarrow> scored list \<Rightarrow> jsnum option \<Rightarrow> jsnum option \<Rightarrow> jsnum option \<Rightarrow> analysis_result" where
  "analyse_scored mlog10 cs atmIV pcr dte =
     (let a = sentiment_sums mlog10 cs; bull = bullishScore a; bear = bearishScore a;
          s = sentiment_score bull bear; label = sentiment_label (bull + bear) s;
          count = (\<lambda>P. length (filter P cs))
      in \<lparr>ar_analysis = typeStats cs, ar_contracts = cs, ar_sentiment = fst label,
           ar_sentimentScore = s, ar_sentimentEmoji = snd label, ar_bullishScore = bull,
           ar_bearishScore = bear, ar_bullishCount = length (bullishContracts a),
           ar_bearishCount = length (bearishContracts a),
           ar_topBullish = take 5 (by_confidence (bullishContracts a)),
           ar_topBearish = take 5 (by_confidence (bearishContracts a)),
           ar_totalContracts = length cs, ar_institutionalCount = count s_isInstitutional,
           ar_anomalyCount = count s_isAnomaly, ar_clusterCount = count s_isClustered,
           ar_bullishFactors = bullishFactors cs, ar_bearishFactors = bearishFactors cs,
           ar_anomalies = anomalies cs, ar_resistance = max_level (side_of CE) (strikeOI cs),
           ar_support = max_level (side_of PE) (strikeOI cs), ar_marketState = marketState cs a pcr atmIV dte\<rparr>)"

definition analyzeBuildup ::
  "(jsnum \<Rightarrow> jsnum \<Rightarrow> jsnum) \<Rightarrow> (jsnum \<Rightarrow> jsnum) \<Rightarrow> chain_in option \<Rightarrow> jsnum option \<Rightarrow>
   jsnum option \<Rightarrow> jsnum option \<Rightarrow> jsnum option \<Rightarrow> jsnum option \<Rightarrow> jsnum option \<Rightarrow>
   analysis_result option" where
  "analyzeBuildup mpow mlog10 optionChain spotPrice atmStrike lot atmIV pcr dte =
     (case (optionChain, spotPrice) of
        (Some chain, Some spot) \<Rightarrow>
          if \<not> num_truthy spot then None
          else let allContracts = extract_contracts chain spot (or_num atmStrike spot) (or_num lot lotSize)
               in if allContracts = [] then None
                  else let g = global_statistics mpow allContracts
                       in Some (analyse_scored mlog10
                            (detectClusters (map (score_contract g atmIV) allContracts)) atmIV pcr dte)
      | _ \<Rightarrow> None)"


section \<open>What a build-up means\<close>

lemma up_not_down: "N (5 / 100) < x \<Longrightarrow> \<not> x < N (- 5 / 100)"
proof -
  have n: "N (- 5 / 100) = - N (5 / 100)" using rnd_uminus [of "5 / 100"] by simp
  have "nonneg_or_nan (N (5 / 100))" by (rule nonneg_rnd) simp
  then show "N (5 / 100) < x \<Longrightarrow> \<not> x < N (- 5 / 100)"
    unfolding n by (cases "N (5 / 100)"; cases x) auto
qed

definition active :: "'a contract_scheme \<Rightarrow> bool" where
  "active c \<longleftrightarrow> (minOIChange \<le> abs (c_oiChg c) \<or> Fin 1 \<le> abs (c_oiChgPct c))
     \<and> (Fin 0 < c_oiChg c \<or> c_oiChg c < Fin 0)"

definition premium_up :: "'a contract_scheme \<Rightarrow> bool" where
  "premium_up c \<longleftrightarrow> N (5 / 100) < c_pChgPct c"

definition premium_down :: "'a contract_scheme \<Rightarrow> bool" where
  "premium_down c \<longleftrightarrow> c_pChgPct c < N (- 5 / 100)"

lemma classify_cases:
  "classifyBuildup c =
     (if \<not> active c then NT
      else if premium_up c then (if Fin 0 < c_oiChg c then LB else SC)
      else if premium_down c then (if Fin 0 < c_oiChg c then SB else LU) else NT)"
  using up_not_down [of "c_pChgPct c"]
  by (auto simp: classifyBuildup_def active_def premium_up_def premium_down_def Let_def)

text \<open>
  For every contract, NaN fields included: the implication is bullish exactly when the open
  interest moved enough and the premium rose on a call or fell on a put, bearish exactly in
  the mirrored case, and neutral otherwise.  Whether the open interest rose or fell decides
  the name of the build-up only, never its direction.
\<close>

theorem implication_is_direction:
  "market_implication (c_type c) (classifyBuildup c) =
     (if active c \<and> (if c_type c = CE then premium_up c else premium_down c) then Bullish
      else if active c \<and> (if c_type c = CE then premium_down c else premium_up c) then Bearish
      else NeutralImp)"
proof (cases "c_type c")
  case CE
  then show ?thesis
    using up_not_down [of "c_pChgPct c"] by (auto simp: classify_cases premium_up_def premium_down_def)
next
  case PE
  then show ?thesis
    using up_not_down [of "c_pChgPct c"] by (auto simp: classify_cases premium_up_def premium_down_def)
qed

section \<open>Bounds of the score\<close>

lemmas score_steps = oiChgScore_def volOIScore_def premiumScore_def deltaScore_def gammaScore_def
  ivScore_def atmScore_def

lemma step_scores_ranged:
  "ranged 0 100 (oiChgScore x)" "ranged 0 100 (volOIScore x)" "ranged 0 100 (premiumScore x)"
  "ranged 0 100 (deltaScore x)" "ranged 0 100 (gammaScore x)" "ranged 0 100 (ivScore x)"
  "ranged 0 100 (atmScore x)"
  by (simp_all add: score_steps)

lemma ratio_ranged: "i \<le> n \<Longrightarrow> 0 < n \<Longrightarrow> n \<le> 2 ^ 32 \<Longrightarrow> ranged 0 1 (jint (int i) / jint (int n))"
  using ranged_ratio [of "of_nat i" "of_nat n"] by (simp add: jint_small)

lemma percentile_ranged:
  assumes "length xs \<le> 2 ^ 32"
  shows "ranged 0 100 (percentile v xs)"
proof (cases "find_index (\<lambda>w. v \<le> w) xs")
  case None
  then show ?thesis by (simp add: percentile_def)
next
  case (Some i)
  then have i: "i < length xs" using find_index_less by blast
  then have "ranged 0 1 (jint (int i) / jint (int (length xs)))"
    using assms by (intro ratio_ranged) auto
  then have "ranged (0 * 0) (1 * 100) (jint (int i) / jint (int (length xs)) * Fin 100)"
    by (rule ranged_mult) auto
  then show ?thesis using i by (auto simp: percentile_def Some jlen_def)
qed

lemma percent_again_ranged:
  assumes "ranged 0 100 p"
  shows "ranged 0 100 (p / N 100 * N 100)"
proof -
  have "ranged 0 1 (p / Fin (of_int 100))"
    by (rule ranged_div [OF assms]) auto
  then have "ranged (0 * 0) (1 * 100) (p / Fin (of_int 100) * Fin 100)"
    by (rule ranged_mult) auto
  then show ?thesis by simp
qed

lemma weighted:
  assumes "ranged 0 100 s" and "0 \<le> w" and "w \<le> 100" and "ranged 0 b t" and "0 \<le> b" and "b \<le> 10000"
  shows "ranged 0 (b + 100 * w) (t + s * Fin (of_int w))"
proof -
  have "ranged (0 * 0) (100 * w) (s * Fin (of_int w))"
    using assms(1-3) by (intro ranged_mult) auto
  then have "ranged (0 + 0) (b + 100 * w) (t + s * Fin (of_int w))"
    using assms by (intro ranged_add) auto
  then show ?thesis by simp
qed

lemma score_factors_ranged:
  assumes "length (g_sortedOI g) \<le> 2 ^ 32" and "(k, f) \<in> set (score_factors c g atmIV)"
  shows "ranged 0 100 (f_score f)"
  using assms percent_again_ranged [OF percentile_ranged] step_scores_ranged
  by (auto simp: score_factors_def Let_def)

definition factor_weights :: "int list" where
  "factor_weights = [15, 20, 10, 15, 12, 10, 8, 10]"

lemma score_weights:
  "map (\<lambda>f. f_weight (snd f)) (score_factors c g atmIV) = map (\<lambda>w. Fin (of_int w)) factor_weights"
  by (simp add: score_factors_def Let_def factor_weights_def)

lemma weighted_sum_ranged:
  assumes "\<forall>f \<in> set fs. ranged 0 100 (f_score (snd f))"
    and "map (\<lambda>f. f_weight (snd f)) fs = map (\<lambda>w. Fin (of_int w)) ws"
    and "\<forall>w \<in> set ws. 0 \<le> w" and "ranged 0 b t" and "0 \<le> b" and "b + 100 * sum_list ws \<le> 10000"
  shows "ranged 0 (b + 100 * sum_list ws) (foldl (+) t (map (\<lambda>f. f_score (snd f) * f_weight (snd f)) fs))"
  using assms
proof (induction fs arbitrary: b t ws)
  case Nil
  then show ?case by simp
next
  case (Cons f fs)
  then obtain w ws' where ws: "ws = w # ws'" "f_weight (snd f) = Fin (of_int w)" by (cases ws) auto
  have s: "0 \<le> sum_list ws'" using Cons.prems(3) ws(1) by (auto intro: sum_list_nonneg)
  have w: "0 \<le> w" using Cons.prems(3) ws(1) by simp
  have t: "ranged 0 (b + 100 * w) (t + f_score (snd f) * f_weight (snd f))"
    unfolding ws(2) using Cons.prems s w ws(1) by (intro weighted) auto
  have "ranged 0 (b + 100 * w + 100 * sum_list ws')
     (foldl (+) (t + f_score (snd f) * f_weight (snd f)) (map (\<lambda>f. f_score (snd f) * f_weight (snd f)) fs))"
    using Cons.prems ws s w by (intro Cons.IH t) auto
  then show ?case by (simp add: ws(1) algebra_simps)
qed

lemma total_weight: "jsum (map (\<lambda>f. f_weight (snd f)) (score_factors c g atmIV)) = Fin 100"
  unfolding score_weights by (simp add: factor_weights_def jsum_def)

text \<open>
  The confidence of a contract lies between 0 and 100 whatever the fields of the contract and
  the statistics hold (NaN and infinities included), for arrays of at most $2^{32}$ entries, the
  bound of the language; the weights add up to 100 and each factor scores between 0 and 100.
\<close>

theorem score_bounds:
  assumes "length (g_sortedOI g) \<le> 2 ^ 32"
  shows "ranged 0 100 (sd_score (calculateAdvancedScore c g atmIV))
         \<and> (\<forall>(k, f) \<in> set (sd_factors (calculateAdvancedScore c g atmIV)). ranged 0 100 (f_score f))"
proof -
  have r: "\<forall>f \<in> set (score_factors c g atmIV). ranged 0 100 (f_score (snd f))"
    using score_factors_ranged [OF assms] by (metis prod.collapse)
  have "ranged 0 (0 + 100 * sum_list factor_weights)
      (jsum (map (\<lambda>f. f_score (snd f) * f_weight (snd f)) (score_factors c g atmIV)))"
    unfolding jsum_def using r score_weights
    by (intro weighted_sum_ranged) (auto simp: factor_weights_def)
  then have "ranged 0 100 (jsum (map (\<lambda>f. f_score (snd f) * f_weight (snd f)) (score_factors c g atmIV)) / Fin (of_int 100))"
    by (intro ranged_div) (auto simp: factor_weights_def)
  then show ?thesis
    using score_factors_ranged [OF assms]
    by (auto simp: calculateAdvancedScore_def total_weight Let_def)
qed

text \<open>A sample leg, contract and statistics for concrete instances.\<close>

definition sample_leg :: "jsnum \<Rightarrow> jsnum \<Rightarrow> leg_in" where
  "sample_leg oiChg pChg =
     \<lparr>li_vol = Some (N 500), li_volume = None, li_oi = Some (N 50000), li_OI = None,
      li_oichng = Some oiChg, li_oi_change = None, li_ltp = Some (N 100), li_p_chng = Some pChg,
      li_iv = Some (N 15), li_optgeeks = None\<rparr>"

definition sample_chain :: chain_in where
  "sample_chain =
     map (\<lambda>k. (k, (\<lambda>t. if t = CE then Some (sample_leg (N 6000) (N 2)) else None)))
       [''22000'', ''22050'', ''22100'']"

definition sample_contract :: contract where
  "sample_contract = make_contract (N 22000) (N 22010) (N 22000) (N 75) CE (sample_leg (N 6000) (N 2))"

definition sample_stats :: global_stats where
  "sample_stats = global_statistics (\<lambda>x y. x * x) [sample_contract]"

theorem score_bounds_witness:
  "ranged 0 100 (sd_score (calculateAdvancedScore sample_contract sample_stats (Some (N 14))))"
proof -
  have "length (g_sortedOI sample_stats) = 1"
    by (simp add: sample_stats_def global_statistics_def Let_def sort_numbers_def)
  then show ?thesis using score_bounds [of sample_stats sample_contract "Some (N 14)"] by simp
qed

section \<open>Clusters: which contracts are marked\<close>

lemma boost_fields [simp]:
  "c_strike (boost k c) = c_strike c" "c_type (boost k c) = c_type c" "c_oi (boost k c) = c_oi c"
  "s_buildupType (boost k c) = s_buildupType c" "s_isClustered (boost k c) = True"
  "c_premium (boost k c) = c_premium c" "c_deltaAdjustedOI (boost k c) = c_deltaAdjustedOI c"
  "contract.truncate (boost k c) = contract.truncate c"
  "s_marketImplication (boost k c) = s_marketImplication c"
  by (simp_all add: boost_def contract.truncate_def)

lemma boost_ranged:
  assumes "ranged 0 100 (s_confidence c)" and "ranged 1 2 k"
  shows "ranged 0 100 (s_confidence (boost k c))"
proof -
  have "ranged (0 * 1) (100 * 2) (s_confidence c * k)" using assms by (intro ranged_mult) auto
  then have "ranged (min 100 0) (min 100 200) (jmin (Fin 100) (s_confidence c * k))"
    by (intro ranged_jmin) auto
  then show ?thesis by (simp add: boost_def)
qed

lemma boosts_ranged: "ranged 1 2 (N (6 / 5))" "ranged 1 2 (N (13 / 10))"
  by (rule ranged_rnd; simp)+

definition window :: "nat list \<Rightarrow> nat \<Rightarrow> nat set" where
  "window idx i = {idx ! (i - 1), idx ! i, idx ! (i + 1)}"

definition matches :: "scored list \<Rightarrow> nat list \<Rightarrow> nat \<Rightarrow> bool" where
  "matches cs idx i \<longleftrightarrow> in_pattern cs (idx ! (i - 1)) (idx ! i) (idx ! (i + 1))"

text \<open>What a marking step keeps, and what it changes.\<close>

definition same_but_marks :: "scored list \<Rightarrow> scored list \<Rightarrow> bool" where
  "same_but_marks cs ds \<longleftrightarrow> length ds = length cs \<and>
     (\<forall>j < length cs. contract.truncate (ds ! j) = contract.truncate (cs ! j) \<and>
        s_buildupType (ds ! j) = s_buildupType (cs ! j) \<and>
        s_marketImplication (ds ! j) = s_marketImplication (cs ! j))"

lemma same_refl: "same_but_marks cs cs"
  by (simp add: same_but_marks_def)

lemma same_trans: "same_but_marks a b \<Longrightarrow> same_but_marks b c \<Longrightarrow> same_but_marks a c"
  by (simp add: same_but_marks_def)

lemma same_update: "j < length cs \<Longrightarrow> same_but_marks cs (cs[j := boost k (cs ! j)])"
  by (auto simp: same_but_marks_def nth_list_update)

lemma mark_at_same:
  assumes "window idx i \<subseteq> {..<length cs}"
  shows "same_but_marks cs (mark_at idx i cs)"
proof -
  note step = same_trans [OF _ same_update]
  show ?thesis
  proof (cases "in_pattern cs (idx ! (i - 1)) (idx ! i) (idx ! (i + 1))")
    case True
    then show ?thesis unfolding mark_at_def Let_def using assms
      by (simp only: if_True) (intro step same_refl; simp only: length_list_update window_def; simp)
  next
    case False
    then show ?thesis by (simp add: mark_at_def Let_def same_refl)
  qed
qed

lemma mark_at_clustered:
  assumes "window idx i \<subseteq> {..<length cs}" and "j < length cs"
  shows "s_isClustered (mark_at idx i cs ! j) \<longleftrightarrow>
     s_isClustered (cs ! j) \<or> (matches cs idx i \<and> j \<in> window idx i)"
  using assms by (auto simp: mark_at_def Let_def window_def matches_def nth_list_update)

lemma mark_at_ranged:
  assumes "window idx i \<subseteq> {..<length cs}" and "\<forall>c \<in> set cs. ranged 0 100 (s_confidence c)"
  shows "\<forall>c \<in> set (mark_at idx i cs). ranged 0 100 (s_confidence c)"
proof -
  have upd: "\<forall>c \<in> set (ds[j := boost k (ds ! j)]). ranged 0 100 (s_confidence c)"
    if "j < length ds" "\<forall>c \<in> set ds. ranged 0 100 (s_confidence c)" "ranged 1 2 k" for ds j k
    using that set_update_subset_insert [of ds j] by (fastforce intro: boost_ranged)
  note step = upd [OF _ _ boosts_ranged(1)] upd [OF _ _ boosts_ranged(2)]
  show ?thesis
  proof (cases "in_pattern cs (idx ! (i - 1)) (idx ! i) (idx ! (i + 1))")
    case True
    then show ?thesis unfolding mark_at_def Let_def using assms
      by (simp only: if_True) (intro step; simp only: length_list_update window_def; simp)
  next
    case False
    then show ?thesis using assms(2) by (simp add: mark_at_def Let_def)
  qed
qed

lemma matches_same:
  assumes "same_but_marks cs ds" and "window idx i \<subseteq> {..<length cs}"
  shows "matches ds idx i \<longleftrightarrow> matches cs idx i"
  using assms by (simp add: matches_def in_pattern_def same_but_marks_def window_def)

lemma windows_inside:
  assumes "set idx \<subseteq> {..<n}" and "i \<in> set [1..<length idx - 1]"
  shows "window idx i \<subseteq> {..<n}"
proof -
  have "i + 1 < length idx" using assms(2) by auto
  then have "{idx ! (i - 1), idx ! i, idx ! (i + 1)} \<subseteq> set idx" by auto
  then show ?thesis using assms(1) by (auto simp: window_def)
qed

lemma fold_mark_at:
  assumes "\<forall>i \<in> set is. window idx i \<subseteq> {..<length cs}"
  shows "same_but_marks cs (fold (mark_at idx) is cs)
     \<and> (\<forall>j < length cs. s_isClustered (fold (mark_at idx) is cs ! j) \<longleftrightarrow>
          s_isClustered (cs ! j) \<or> (\<exists>i \<in> set is. matches cs idx i \<and> j \<in> window idx i))
     \<and> ((\<forall>c \<in> set cs. ranged 0 100 (s_confidence c)) \<longrightarrow>
          (\<forall>c \<in> set (fold (mark_at idx) is cs). ranged 0 100 (s_confidence c)))"
  using assms
proof (induction "is" arbitrary: cs)
  case Nil
  then show ?case by (simp add: same_refl)
next
  case (Cons i "is")
  let ?ds = "mark_at idx i cs"
  have w: "window idx i \<subseteq> {..<length cs}" using Cons.prems by simp
  have s: "same_but_marks cs ?ds" by (rule mark_at_same [OF w])
  then have l: "length ?ds = length cs" by (simp add: same_but_marks_def)
  have m: "matches ?ds idx k \<longleftrightarrow> matches cs idx k" if "k \<in> set is" for k
    using that Cons.prems matches_same [OF s] by simp
  have "\<forall>i \<in> set is. window idx i \<subseteq> {..<length ?ds}" using Cons.prems l by simp
  note ih = Cons.IH [OF this]
  have f: "fold (mark_at idx) (i # is) cs = fold (mark_at idx) is ?ds" by simp
  show ?case unfolding f
  proof (intro conjI allI impI)
    show "same_but_marks cs (fold (mark_at idx) is ?ds)"
      by (rule same_trans [OF s conjunct1 [OF ih]])
    fix j assume j: "j < length cs"
    have "s_isClustered (fold (mark_at idx) is ?ds ! j) \<longleftrightarrow>
        s_isClustered (?ds ! j) \<or> (\<exists>k \<in> set is. matches ?ds idx k \<and> j \<in> window idx k)"
      using ih j l by metis
    also have "\<dots> \<longleftrightarrow> s_isClustered (?ds ! j) \<or> (\<exists>k \<in> set is. matches cs idx k \<and> j \<in> window idx k)"
      using m by blast
    also have "\<dots> \<longleftrightarrow> s_isClustered (cs ! j) \<or> (\<exists>k \<in> set (i # is). matches cs idx k \<and> j \<in> window idx k)"
      using mark_at_clustered [OF w j] by (simp only: list.set(2) bex_simps(5) insert_iff) blast
    finally show "s_isClustered (fold (mark_at idx) is ?ds ! j) \<longleftrightarrow>
          s_isClustered (cs ! j) \<or> (\<exists>k \<in> set (i # is). matches cs idx k \<and> j \<in> window idx k)" .
  next
    assume "\<forall>c \<in> set cs. ranged 0 100 (s_confidence c)"
    from mark_at_ranged [OF w this] ih
    show "\<forall>c \<in> set (fold (mark_at idx) is ?ds). ranged 0 100 (s_confidence c)" by blast
  qed
qed

lemma enumerate_nth: "p \<in> set (enumerate 0 cs) \<longleftrightarrow> fst p < length cs \<and> snd p = cs ! fst p"
  by (cases p) (auto simp: in_set_enumerate_eq)

lemma strike_order_set: "set (strike_order t cs) = {i. i < length cs \<and> c_type (cs ! i) = t}"
  by (force simp: strike_order_def enumerate_nth image_iff)

interpretation by_strike: ascending_by "\<lambda>p :: nat \<times> scored. c_strike (snd p)" .

lemma strike_order_sorted:
  assumes "\<forall>c \<in> set cs. fin_double (c_strike c)"
  shows "sorted_wrt (\<lambda>i j. c_strike (cs ! i) \<le> c_strike (cs ! j)) (strike_order t cs)"
proof -
  let ?ps = "filter (\<lambda>p. c_type (snd p) = t) (enumerate 0 cs)"
  let ?s = "js_sort (\<lambda>a b. c_strike (snd a) - c_strike (snd b)) ?ps"
  have fin: "fin_double (c_strike (snd p))" and nth: "snd p = cs ! fst p" if "p \<in> set ?s" for p
    using that assms by (auto simp: enumerate_nth)
  have "sorted_wrt (\<lambda>p q. c_strike (snd p) \<le> c_strike (snd q)) ?s"
    using fin by (intro by_strike.sorted_keys) (metis set_js_sort)
  then show ?thesis
    unfolding strike_order_def sorted_wrt_map by (rule sorted_wrt_mono_rel [rotated]) (metis nth)
qed

definition in_cluster :: "scored list \<Rightarrow> nat \<Rightarrow> bool" where
  "in_cluster cs j \<longleftrightarrow>
     (\<exists>t i. 1 \<le> i \<and> i + 1 < length (strike_order t cs) \<and> matches cs (strike_order t cs) i
            \<and> j \<in> window (strike_order t cs) i)"

lemma detectClusters_facts:
  shows "same_but_marks cs (detectClusters cs)"
    and "j < length cs \<Longrightarrow> s_isClustered (detectClusters cs ! j) \<longleftrightarrow> s_isClustered (cs ! j) \<or> in_cluster cs j"
    and "(\<forall>c \<in> set cs. ranged 0 100 (s_confidence c)) \<Longrightarrow>
         (\<forall>c \<in> set (detectClusters cs). ranged 0 100 (s_confidence c))"
proof -
  define ce where "ce = strike_order CE cs"
  define pe where "pe = strike_order PE cs"
  define ds where "ds = markClusters ce cs"
  have order_sets: "set ce \<subseteq> {..<length cs}" "set pe \<subseteq> {..<length cs}"
    by (auto simp: ce_def pe_def strike_order_set)
  have wc: "\<forall>i \<in> set [1..<length ce - 1]. window ce i \<subseteq> {..<length cs}"
    and wp: "\<forall>i \<in> set [1..<length pe - 1]. window pe i \<subseteq> {..<length cs}"
    using windows_inside [OF order_sets(1)] windows_inside [OF order_sets(2)] by blast+
  note c = fold_mark_at [OF wc, folded markClusters_def, folded ds_def]
  then have l: "length ds = length cs" by (simp add: same_but_marks_def)
  have wp': "\<forall>i \<in> set [1..<length pe - 1]. window pe i \<subseteq> {..<length ds}" using wp l by simp
  note p = fold_mark_at [OF wp', folded markClusters_def]
  have d: "detectClusters cs = markClusters pe ds"
    by (simp add: detectClusters_def ds_def ce_def pe_def)
  show "same_but_marks cs (detectClusters cs)"
    unfolding d using c p same_trans by blast
  have m: "matches ds pe i \<longleftrightarrow> matches cs pe i" if "i \<in> set [1..<length pe - 1]" for i
    using c wp that matches_same by blast
  have "in_cluster cs j \<longleftrightarrow> (\<exists>i \<in> set [1..<length ce - 1]. matches cs ce i \<and> j \<in> window ce i)
      \<or> (\<exists>i \<in> set [1..<length pe - 1]. matches cs pe i \<and> j \<in> window pe i)" for j
  proof -
    have r: "i \<in> set [1..<n - 1] \<longleftrightarrow> 1 \<le> i \<and> i + 1 < n" for i n :: nat by auto
    have ex: "(\<exists>t. P t) \<longleftrightarrow> P CE \<or> P PE" for P by (metis opt_type.exhaust)
    show ?thesis unfolding in_cluster_def ce_def pe_def Bex_def r ex by blast
  qed
  then show "j < length cs \<Longrightarrow> s_isClustered (detectClusters cs ! j) \<longleftrightarrow> s_isClustered (cs ! j) \<or> in_cluster cs j"
    unfolding d using c p l m by auto
  show "(\<forall>c \<in> set cs. ranged 0 100 (s_confidence c)) \<Longrightarrow>
         (\<forall>c \<in> set (detectClusters cs). ranged 0 100 (s_confidence c))"
    unfolding d using c p by blast
qed

text \<open>
  Mining marks exactly the contracts of some run of three neighbours in strike order, of one
  option type, with one build-up type that is not neutral, and touches nothing but the mark,
  the confidence and the factors; every contract keeps its confidence between 0 and 100.  The
  order of the neighbours is the order of the strikes.
\<close>

theorem detectClusters_marks:
  assumes "\<forall>c \<in> set cs. \<not> s_isClustered c \<and> ranged 0 100 (s_confidence c) \<and> fin_double (c_strike c)"
    and "j < length cs"
  shows "(s_isClustered (detectClusters cs ! j) \<longleftrightarrow> in_cluster cs j)
    \<and> length (detectClusters cs) = length cs
    \<and> contract.truncate (detectClusters cs ! j) = contract.truncate (cs ! j)
    \<and> s_buildupType (detectClusters cs ! j) = s_buildupType (cs ! j)
    \<and> ranged 0 100 (s_confidence (detectClusters cs ! j))
    \<and> sorted_wrt (\<lambda>i k. c_strike (cs ! i) \<le> c_strike (cs ! k)) (strike_order (c_type (cs ! j)) cs)"
proof -
  have l: "length (detectClusters cs) = length cs"
    using detectClusters_facts(1) [of cs] by (simp add: same_but_marks_def)
  have "\<not> s_isClustered (cs ! j)" using assms by simp
  then have "s_isClustered (detectClusters cs ! j) \<longleftrightarrow> in_cluster cs j"
    using detectClusters_facts(2) assms(2) by blast
  moreover have "ranged 0 100 (s_confidence (detectClusters cs ! j))"
    using detectClusters_facts(3) [of cs] assms l by simp
  moreover have "sorted_wrt (\<lambda>i k. c_strike (cs ! i) \<le> c_strike (cs ! k)) (strike_order (c_type (cs ! j)) cs)"
    using assms(1) by (intro strike_order_sorted) blast
  ultimately show ?thesis
    using detectClusters_facts(1) [of cs] assms(2) by (simp add: same_but_marks_def)
qed

definition sample_scored :: "scored list" where
  "sample_scored = map (\<lambda>k. score_contract sample_stats None (sample_contract\<lparr>c_strike := k\<rparr>))
     [N 22000, N 22050, N 22100]"

lemma sample_scored_ok:
  "\<forall>c \<in> set sample_scored. \<not> s_isClustered c \<and> ranged 0 100 (s_confidence c) \<and> fin_double (c_strike c)"
proof -
  have "length (g_sortedOI sample_stats) \<le> 2 ^ 32"
    by (simp add: sample_stats_def global_statistics_def Let_def sort_numbers_def)
  note b = score_bounds [where 'a = unit, OF this, THEN conjunct1]
  have "\<not> s_isClustered (score_contract g a c) \<and> s_confidence (score_contract g a c) = sd_score (calculateAdvancedScore c g a)
      \<and> c_strike (score_contract g a c) = c_strike c" for g a c
    by (simp add: score_contract_def Let_def scored.defs contract.defs)
  then show ?thesis using b by (simp add: sample_scored_def)
qed

theorem detectClusters_marks_witness:
  "s_isClustered (detectClusters sample_scored ! 1) = in_cluster sample_scored 1"
proof -
  have "1 < length sample_scored" by (simp add: sample_scored_def)
  from detectClusters_marks [OF sample_scored_ok this] show ?thesis by (rule conjunct1)
qed

section \<open>Bounds of the sentiment\<close>

lemma sentiment_weight_nonneg: "nonneg_or_nan (sentiment_weight mlog10 c)"
  unfolding sentiment_weight_def by (rule nonneg_mult) (simp_all add: jsqrt_nonneg)

definition sums_ok :: "sentiment_acc \<Rightarrow> bool" where
  "sums_ok a \<longleftrightarrow> nonneg_or_nan (bullishScore a) \<and> double (bullishScore a)
     \<and> nonneg_or_nan (bearishScore a)"

definition deltas_ok :: "sentiment_acc \<Rightarrow> bool" where
  "deltas_ok a \<longleftrightarrow> nonneg_or_nan (deltaBullish a) \<and> double (deltaBullish a)
     \<and> nonneg_or_nan (deltaBearish a) \<and> double (deltaBearish a)"

lemma sentiment_sums_ok: "sums_ok (sentiment_sums mlog10 cs)"
proof -
  have step: "sums_ok (sentiment_step mlog10 c a)" if "sums_ok a" for c a
    using that sentiment_weight_nonneg
    by (auto simp: sums_ok_def sentiment_step_def Let_def intro: nonneg_add split: implication.splits)
  have "sums_ok (fold (sentiment_step mlog10) cs a)" if "sums_ok a" for a
    using that by (induction cs arbitrary: a) (auto intro: step)
  then show ?thesis by (simp add: sentiment_sums_def sums_ok_def)
qed

lemma sentiment_deltas_ok:
  assumes "\<forall>c \<in> set cs. nonneg_or_nan (c_deltaAdjustedOI c)"
  shows "deltas_ok (sentiment_sums mlog10 cs)"
proof -
  have step: "deltas_ok (sentiment_step mlog10 c a)"
    if "deltas_ok a" "nonneg_or_nan (c_deltaAdjustedOI c)" for c a
    using that
    by (auto simp: deltas_ok_def sentiment_step_def Let_def intro: nonneg_add split: implication.splits)
  have "deltas_ok (fold (sentiment_step mlog10) cs a)" if "deltas_ok a" for a
    using that assms by (induction cs arbitrary: a) (auto intro: step)
  then show ?thesis by (simp add: sentiment_sums_def deltas_ok_def)
qed

lemma sentiment_score_range:
  assumes "sums_ok a"
  shows "sentiment_score (bullishScore a) (bearishScore a) = NaN
     \<or> ranged 0 100 (sentiment_score (bullishScore a) (bearishScore a))"
proof (cases "Fin 0 < bullishScore a + bearishScore a")
  case True
  then have "bullishScore a / (bullishScore a + bearishScore a) = NaN
      \<or> ranged 0 1 (bullishScore a / (bullishScore a + bearishScore a))"
    using assms by (intro share_range) (auto simp: sums_ok_def)
  moreover have "ranged (0 * 0) (1 * 100) (x * Fin 100)" if "ranged 0 1 x" for x
    using that by (rule ranged_mult) auto
  ultimately show ?thesis using True by (auto simp: sentiment_score_def Let_def)
next
  case False
  then show ?thesis by (simp add: sentiment_score_def Let_def)
qed

text \<open>The bias of two non-negative totals.\<close>

lemma bias_range:
  assumes "nonneg_or_nan x" and "nonneg_or_nan y" and "double x"
  shows "(x - y) / (x + y + Fin 1) * N 100 = NaN \<or> ranged (- 100) 100 ((x - y) / (x + y + Fin 1) * N 100)"
proof (cases "x + y + Fin 1")
  case (Fin d)
  then obtain a b where a: "x = Fin a" and b: "y = Fin b" by (cases x; cases y) auto
  then have nn: "0 \<le> a" "0 \<le> b" using assms by auto
  obtain s where s: "x + y = Fin s" using Fin by (cases "x + y") auto
  have s': "s = rd64 (a + b)" and d': "d = rd64 (s + 1)"
    using s Fin a b rnd_Fin by auto
  have sp: "0 \<le> s" unfolding s' using nn by (intro binary64.nonneg) simp
  have "rd64 s \<le> d" unfolding d' by (intro binary64.mono) simp
  then have sd: "s \<le> d" by (simp add: s' rd64_idem)
  have "(1 :: rat) \<le> d" unfolding d' using sp binary64.mono [of 1 "s + 1"] by (simp add: binary64.one)
  have up: "rd64 (a - b) \<le> s" unfolding s' using nn by (intro binary64.mono) simp
  have "- rd64 (a - b) = rd64 (b - a)" using rd64_minus [of "a - b"] by simp
  also have "\<dots> \<le> s" unfolding s' using nn by (intro binary64.mono) simp
  finally have lo: "- s \<le> rd64 (a - b)" by simp
  have fits: "s < pow2 1024"
    using s a b pow2_pos [of 1024] by (auto simp: rnd_overflow Let_def s' split: if_splits)
  have diff: "x - y = Fin (rd64 (a - b))"
    using up lo fits a b by (simp add: minus_jsnum_def rnd_overflow Let_def)
  have "- 1 \<le> rd64 (a - b) / d" "rd64 (a - b) / d \<le> 1"
    using up lo sd \<open>1 \<le> d\<close> by (simp_all add: le_divide_eq divide_le_eq)
  then have "ranged (- 1) 1 (rnd (rd64 (a - b) / d))" by (intro ranged_rnd) auto
  then obtain r where r: "rnd (rd64 (a - b) / d) = Fin r" "- 1 \<le> r" "r \<le> 1" by (auto elim: rangedE)
  have "ranged (- 100) 100 (rnd (r * 100))" using r by (intro ranged_rnd) auto
  then show ?thesis using diff Fin \<open>1 \<le> d\<close> r(1) by auto
next
  case PInf
  then show ?thesis by (cases "x - y") auto
next
  case NInf
  have "nonneg_or_nan (x + y + Fin 1)" using assms by (intro nonneg_add) auto
  then show ?thesis using NInf by simp
next
  case NaN
  then show ?thesis by (cases "x - y") auto
qed

section \<open>The analysis as a whole\<close>

lemma contract_of_leg_mem:
  "c \<in> set (contract_of_leg k spot atm lot t l) \<longleftrightarrow>
     (\<exists>leg. l = Some leg \<and> \<not> insignificant leg \<and> c = make_contract k spot atm lot t leg)"
  by (auto simp: contract_of_leg_def split: option.splits)

lemma extract_length: "length (extract_contracts chain s a l) \<le> 2 * length chain"
  by (induction chain) (auto simp: extract_contracts_def contract_of_leg_def split: option.splits)

lemma extract_mem:
  "c \<in> set (extract_contracts chain spot atm lot) \<longleftrightarrow>
     (\<exists>key data t. (key, data) \<in> set chain \<and>
        c \<in> set (contract_of_leg (parse_float key) spot atm lot t (data t)))"
proof -
  have "(\<exists>t. c \<in> set (contract_of_leg k spot atm lot t (data t))) \<longleftrightarrow>
      c \<in> set (contract_of_leg k spot atm lot CE (data CE)) \<or>
      c \<in> set (contract_of_leg k spot atm lot PE (data PE))" for k and data :: "opt_type \<Rightarrow> leg_in option"
    by (metis opt_type.exhaust)
  then show ?thesis by (simp add: extract_contracts_def) blast
qed

lemma extract_delta_nonneg:
  assumes "c \<in> set (extract_contracts chain spot atm lot)"
  shows "nonneg_or_nan (c_deltaAdjustedOI c)"
proof -
  obtain key t leg where n: "\<not> insignificant leg" and c: "c = make_contract (parse_float key) spot atm lot t leg"
    using assms by (auto simp: extract_mem contract_of_leg_mem)
  have oi: "nonneg_or_nan (field2 (li_oi leg) (li_OI leg))"
    using n by (cases "field2 (li_oi leg) (li_OI leg)") (auto simp: insignificant_def minOI_def)
  have "nonneg_or_nan (abs x)" for x by (cases x) auto
  then show ?thesis
    using oi by (auto simp: c make_contract_def Let_def contractMultiplier_def intro!: nonneg_mult)
qed

lemma score_contract_fields [simp]:
  "contract.truncate (score_contract g a c) = contract.truncate c"
  "c_deltaAdjustedOI (score_contract g a c) = c_deltaAdjustedOI c"
  "s_isClustered (score_contract g a c) = False"
  "s_confidence (score_contract g a c) = sd_score (calculateAdvancedScore c g a)"
  "s_buildupType (score_contract g a c) = classifyBuildup c"
  "s_marketImplication (score_contract g a c) = market_implication (c_type c) (classifyBuildup c)"
  by (simp_all add: score_contract_def Let_def scored.defs contract.defs)

lemma truncate_delta: "contract.truncate c = contract.truncate d \<Longrightarrow> c_deltaAdjustedOI c = c_deltaAdjustedOI d"
  by (simp add: contract.truncate_def)

lemma same_delta_nonneg:
  assumes "same_but_marks cs ds" and "\<forall>c \<in> set cs. nonneg_or_nan (c_deltaAdjustedOI c)"
  shows "\<forall>c \<in> set ds. nonneg_or_nan (c_deltaAdjustedOI c)"
proof
  fix d assume "d \<in> set ds"
  then obtain j where j: "j < length ds" "d = ds ! j" by (auto simp: in_set_conv_nth)
  then have "c_deltaAdjustedOI d = c_deltaAdjustedOI (cs ! j)" "j < length cs"
    using assms(1) truncate_delta by (auto simp: same_but_marks_def)
  then show "nonneg_or_nan (c_deltaAdjustedOI d)" using assms(2) by simp
qed

lemma type_counts:
  "(\<Sum>b \<leftarrow> [LB, SB, SC, LU, NT]. length (filter (\<lambda>c. s_buildupType c = b) cs)) = length cs"
proof (induction cs)
  case (Cons c cs)
  then show ?case by (cases "s_buildupType c") auto
qed simp

lemma ce_pe_counts: "length (filter (\<lambda>c. c_type c = CE) cs) + length (filter (\<lambda>c. c_type c = PE) cs) = length cs"
proof (induction cs)
  case (Cons c cs)
  then show ?case by (cases "c_type c") auto
qed simp

text \<open>
  C10: Whenever the analysis returns a result: every confidence is between 0 and 100; the sentiment
  score is NaN or between 0 and 100 and the bias NaN or between $-100$ and $100$ (NaN only when
  the inputs overflow or the engine's logarithm fails); the five build-up classes partition
  the contracts, and calls and puts partition each class.  Nothing is assumed of the chain but
  the language's bound on its size.
\<close>

theorem analyzeBuildup_bounds:
  assumes "analyzeBuildup mpow mlog10 (Some chain) spot atm lot iv pcr dte = Some r"
    and "length chain \<le> 2 ^ 31"
  shows "(\<forall>c \<in> set (ar_contracts r). ranged 0 100 (s_confidence c))
    \<and> (ar_sentimentScore r = NaN \<or> ranged 0 100 (ar_sentimentScore r))
    \<and> (ms_deltaAdjustedBias (ar_marketState r) = NaN
        \<or> ranged (- 100) 100 (ms_deltaAdjustedBias (ar_marketState r)))
    \<and> (\<Sum>p \<leftarrow> ar_analysis r. t_count (snd p)) = ar_totalContracts r
    \<and> (\<forall>p \<in> set (ar_analysis r). t_ceCount (snd p) + t_peCount (snd p) = t_count (snd p))"
proof -
  obtain s where s: "spot = Some s" and "num_truthy s"
    using assms(1) by (auto simp: analyzeBuildup_def split: option.splits if_splits)
  define ac where "ac = extract_contracts chain s (or_num atm s) (or_num lot lotSize)"
  define g where "g = global_statistics mpow ac"
  define sc where "sc = map (score_contract g iv) ac"
  define cs where "cs = detectClusters sc"
  have r: "r = analyse_scored mlog10 cs iv pcr dte"
    using assms(1) s by (simp add: analyzeBuildup_def Let_def ac_def g_def sc_def cs_def split: if_splits)
  have "length (g_sortedOI g) = length ac"
    by (simp add: g_def global_statistics_def Let_def sort_numbers_def)
  also have "\<dots> \<le> 2 * length chain" unfolding ac_def by (rule extract_length)
  finally have len: "length (g_sortedOI g) \<le> 2 ^ 32" using assms(2) by simp
  have "\<forall>c \<in> set sc. ranged 0 100 (s_confidence c)"
    using score_bounds [where 'a = unit, OF len] by (simp add: sc_def)
  then have conf: "\<forall>c \<in> set cs. ranged 0 100 (s_confidence c)"
    unfolding cs_def by (rule detectClusters_facts(3))
  have "\<forall>c \<in> set sc. nonneg_or_nan (c_deltaAdjustedOI c)"
    using extract_delta_nonneg by (simp add: sc_def ac_def)
  then have "\<forall>c \<in> set cs. nonneg_or_nan (c_deltaAdjustedOI c)"
    unfolding cs_def using same_delta_nonneg detectClusters_facts(1) by blast
  then have d: "deltas_ok (sentiment_sums mlog10 cs)" by (rule sentiment_deltas_ok)
  have "ms_deltaAdjustedBias (ar_marketState r) = NaN
        \<or> ranged (- 100) 100 (ms_deltaAdjustedBias (ar_marketState r))"
    using d bias_range by (simp add: r analyse_scored_def marketState_def deltas_ok_def Let_def)
  moreover have "ar_sentimentScore r = NaN \<or> ranged 0 100 (ar_sentimentScore r)"
    using sentiment_score_range [OF sentiment_sums_ok] by (simp add: r analyse_scored_def Let_def)
  moreover have "(\<Sum>p \<leftarrow> ar_analysis r. t_count (snd p)) = ar_totalContracts r"
    using type_counts [of cs] by (simp add: r analyse_scored_def typeStats_def type_statistics_def Let_def)
  moreover have "\<forall>p \<in> set (ar_analysis r). t_ceCount (snd p) + t_peCount (snd p) = t_count (snd p)"
    using ce_pe_counts by (auto simp del: filter_filter simp: r analyse_scored_def typeStats_def type_statistics_def Let_def)
  ultimately show ?thesis using conf by (simp add: r analyse_scored_def Let_def)
qed

lemma sample_extract: "extract_contracts sample_chain s a l \<noteq> []"
  by (simp add: sample_chain_def extract_contracts_def contract_of_leg_def insignificant_def sample_leg_def
      field2_def or_num_def num_or_def minOI_def minVolume_def)

theorem analyzeBuildup_bounds_witness:
  "\<exists>r. analyzeBuildup (\<lambda>x y. x * x) (\<lambda>x. x) (Some sample_chain) (Some (N 22010)) None None None None None = Some r
     \<and> (\<forall>c \<in> set (ar_contracts r). ranged 0 100 (s_confidence c))"
proof -
  obtain r where r: "analyzeBuildup (\<lambda>x y. x * x) (\<lambda>x. x) (Some sample_chain) (Some (N 22010)) None None None None None = Some r"
    using sample_extract by (simp add: analyzeBuildup_def Let_def)
  have "length sample_chain \<le> 2 ^ 31" by (simp add: sample_chain_def)
  from analyzeBuildup_bounds [OF r this] r show ?thesis by blast
qed

text \<open>
  The analysis returns nothing exactly when there is no chain, no spot price, or no leg with
  enough open interest and volume; otherwise it scores every significant leg of the chain.
\<close>

theorem analyzeBuildup_defined_iff:
  "analyzeBuildup mpow mlog10 chain spot atm lot iv pcr dte = None \<longleftrightarrow>
     chain = None \<or> spot = None \<or> (\<exists>s. spot = Some s \<and> \<not> num_truthy s) \<or>
     (\<exists>c. chain = Some c \<and> (\<forall>(key, data) \<in> set c. \<forall>t leg. data t = Some leg \<longrightarrow> insignificant leg))"
proof -
  have ex: "extract_contracts c s a l = [] \<longleftrightarrow>
      (\<forall>(key, data) \<in> set c. \<forall>t leg. data t = Some leg \<longrightarrow> insignificant leg)" for c s a l
  proof -
    have "extract_contracts c s a l = [] \<longleftrightarrow> \<not> (\<exists>x. x \<in> set (extract_contracts c s a l))"
      by (metis all_not_in_conv set_empty)
    then show ?thesis
      by (simp only: extract_mem contract_of_leg_mem Ball_def split_paired_All prod.case) blast
  qed
  show ?thesis
    by (cases chain; cases spot) (auto simp: analyzeBuildup_def Let_def ex)
qed

section \<open>Key levels\<close>

definition strike_key :: "scored \<Rightarrow> string" where
  "strike_key c = num_to_string (c_strike c)"

definition strike_step :: "scored \<Rightarrow> (string \<times> (jsnum \<times> jsnum)) list \<Rightarrow> (string \<times> (jsnum \<times> jsnum)) list" where
  "strike_step c m =
     (let (ce, pe) = (case map_of m (strike_key c) of Some d \<Rightarrow> d | None \<Rightarrow> (Fin 0, Fin 0))
      in put (strike_key c) (case c_type c of CE \<Rightarrow> (c_oi c, pe) | PE \<Rightarrow> (ce, c_oi c)) m)"

lemma strikeOI_fold: "strikeOI cs = fold strike_step cs []"
  unfolding strikeOI_def strike_step_def strike_key_def by (simp only: Let_def)

lemma strike_step_side:
  "map_of (strike_step c m) k = Some d \<Longrightarrow>
     (if k = strike_key c \<and> t = c_type c then side_of t d = c_oi c
      else if k = strike_key c then side_of t d = (case map_of m k of Some d' \<Rightarrow> side_of t d' | None \<Rightarrow> Fin 0)
      else map_of m k = Some d)"
  by (cases t; cases "c_type c")
     (auto simp: strike_step_def side_of_def map_of_put Let_def split: prod.splits option.splits if_splits)

lemma strike_step_dom: "map_of (strike_step c m) k = None \<longleftrightarrow> k \<noteq> strike_key c \<and> map_of m k = None"
  by (auto simp: strike_step_def map_of_put Let_def split: prod.splits)

lemma strikeOI_entry:
  assumes "map_of (strikeOI cs) k = Some d"
  shows "side_of t d = Fin 0 \<or> (\<exists>c \<in> set cs. c_type c = t \<and> strike_key c = k \<and> side_of t d = c_oi c)"
  using assms unfolding strikeOI_fold
proof (induction cs arbitrary: d rule: rev_induct)
  case Nil
  then show ?case by simp
next
  case (snoc c cs)
  let ?m = "fold strike_step cs []"
  have m: "map_of (strike_step c ?m) k = Some d" using snoc.prems by simp
  note s = strike_step_side [OF m, of t]
  consider "k = strike_key c \<and> t = c_type c" | "k = strike_key c \<and> t \<noteq> c_type c" | "k \<noteq> strike_key c" by blast
  then show ?case
  proof cases
    case 1
    then show ?thesis using s by auto
  next
    case 2
    then show ?thesis using s snoc.IH by (cases "map_of ?m k") auto
  next
    case 3
    then show ?thesis using s snoc.IH by auto
  qed
qed

lemma strikeOI_last:
  assumes "distinct (map (\<lambda>c. (c_type c, strike_key c)) cs)" and "c \<in> set cs"
  shows "\<exists>d. map_of (strikeOI cs) (strike_key c) = Some d \<and> side_of (c_type c) d = c_oi c"
  using assms unfolding strikeOI_fold
proof (induction cs rule: rev_induct)
  case Nil
  then show ?case by simp
next
  case (snoc e cs)
  let ?m = "fold strike_step cs []"
  obtain d where d: "map_of (strike_step e ?m) (strike_key c) = Some d"
    using snoc strike_step_dom [of e ?m "strike_key c"] by (cases "c = e") auto
  note s = strike_step_side [OF d, of "c_type c"]
  show ?case
  proof (cases "c = e")
    case True
    then show ?thesis using d s by simp
  next
    case False
    then have c: "c \<in> set cs" using snoc.prems by simp
    have n: "(c_type c, strike_key c) \<noteq> (c_type e, strike_key e)"
      using snoc.prems(1) c by (auto simp: image_iff)
    obtain d' where "map_of ?m (strike_key c) = Some d'" "side_of (c_type c) d' = c_oi c"
      using snoc c by auto
    then show ?thesis using d s n by (auto split: if_splits)
  qed
qed

lemma max_level_fold:
  assumes "\<forall>p \<in> set m. \<exists>r. side (snd p) = Fin r" and "l_oi b = Fin q"
  shows "(let best = fold (\<lambda>(k, d) best. if l_oi best < side d then \<lparr>l_strike = parse_float k, l_oi = side d\<rparr> else best) m b
     in l_oi b \<le> l_oi best \<and> (\<forall>p \<in> set m. side (snd p) \<le> l_oi best) \<and>
        (best = b \<or> (\<exists>p \<in> set m. best = \<lparr>l_strike = parse_float (fst p), l_oi = side (snd p)\<rparr>)))"
  using assms
proof (induction m arbitrary: b q)
  case Nil
  then show ?case by simp
next
  case (Cons p m)
  obtain k d where p: "p = (k, d)" by fastforce
  obtain r where r: "side d = Fin r" using Cons.prems(1) p by auto
  define b' where "b' = (if l_oi b < side d then \<lparr>l_strike = parse_float k, l_oi = side d\<rparr> else b)"
  have b': "l_oi b' = Fin (max q r)" using Cons.prems(2) r by (auto simp: b'_def)
  have ih: "let best = fold (\<lambda>(k, d) best. if l_oi best < side d then \<lparr>l_strike = parse_float k, l_oi = side d\<rparr> else best) m b'
     in l_oi b' \<le> l_oi best \<and> (\<forall>p \<in> set m. side (snd p) \<le> l_oi best) \<and>
        (best = b' \<or> (\<exists>p \<in> set m. best = \<lparr>l_strike = parse_float (fst p), l_oi = side (snd p)\<rparr>))"
    using Cons.prems(1) b' by (intro Cons.IH) auto
  have le: "l_oi b \<le> l_oi b'" "side d \<le> l_oi b'" using Cons.prems(2) r b' by auto
  have case_b: "b' = b \<or> b' = \<lparr>l_strike = parse_float k, l_oi = side d\<rparr>" by (simp add: b'_def)
  show ?case
    using ih le case_b jsnum_le_trans by (simp add: p b'_def [symmetric] Let_def) blast
qed

text \<open>
  When each option type lists a strike once and no open interest is NaN or infinite, the
  resistance is the largest open interest of a call and the support that of a put, at the
  strike of such a contract; with no positive open interest they stay at zero.
\<close>

theorem key_levels_are_maxima:
  assumes "distinct (map (\<lambda>c. (c_type c, strike_key c)) cs)"
    and "\<forall>c \<in> set cs. \<exists>r. c_oi c = Fin r"
  shows "(\<forall>c \<in> set cs. c_oi c \<le> l_oi (max_level (side_of (c_type c)) (strikeOI cs)))
    \<and> (let best = max_level (side_of t) (strikeOI cs)
       in l_oi best = Fin 0 \<or>
          (\<exists>c \<in> set cs. c_type c = t \<and> l_oi best = c_oi c \<and> l_strike best = parse_float (strike_key c)))"
proof -
  have "distinct (map fst (strike_step c m))" if "distinct (map fst m)" for c and m
    using that by (auto simp: strike_step_def Let_def intro: distinct_put split: prod.splits)
  then have "distinct (map fst (fold strike_step cs m))" if "distinct (map fst m)" for m
    using that by (induction cs arbitrary: m) auto
  then have dist: "distinct (map fst (strikeOI cs))" by (simp add: strikeOI_fold)
  have entry: "side_of u (snd p) = Fin 0 \<or>
      (\<exists>c \<in> set cs. c_type c = u \<and> strike_key c = fst p \<and> side_of u (snd p) = c_oi c)"
    if "p \<in> set (strikeOI cs)" for p u
    using that dist strikeOI_entry by (metis map_of_is_SomeI prod.collapse)
  then have fin: "\<forall>p \<in> set (strikeOI cs). \<exists>r. side_of u (snd p) = Fin r" for u
    using assms(2) by metis
  have best: "let best = max_level (side_of u) (strikeOI cs)
     in (\<forall>p \<in> set (strikeOI cs). side_of u (snd p) \<le> l_oi best) \<and>
        (best = \<lparr>l_strike = Fin 0, l_oi = Fin 0\<rparr> \<or>
         (\<exists>p \<in> set (strikeOI cs). best = \<lparr>l_strike = parse_float (fst p), l_oi = side_of u (snd p)\<rparr>))" for u
    using max_level_fold [OF fin, of "\<lparr>l_strike = Fin 0, l_oi = Fin 0\<rparr>" 0 u]
    unfolding max_level_def Let_def by simp
  have "c_oi c \<le> l_oi (max_level (side_of (c_type c)) (strikeOI cs))" if c: "c \<in> set cs" for c
  proof -
    obtain d where "map_of (strikeOI cs) (strike_key c) = Some d" "side_of (c_type c) d = c_oi c"
      using strikeOI_last [OF assms(1) c] by blast
    then show ?thesis using best [of "c_type c"] map_of_SomeD by (fastforce simp: Let_def)
  qed
  moreover have "let best = max_level (side_of t) (strikeOI cs)
       in l_oi best = Fin 0 \<or>
          (\<exists>c \<in> set cs. c_type c = t \<and> l_oi best = c_oi c \<and> l_strike best = parse_float (strike_key c))"
    using best [of t] entry [of _ t] unfolding Let_def by force
  ultimately show ?thesis by blast
qed

theorem analyzeBuildup_defined_iff_witness:
  "analyzeBuildup (\<lambda>x y. x * x) (\<lambda>x. x) (Some sample_chain) (Some (N 0)) None None None None None = None"
  by (rule analyzeBuildup_defined_iff [THEN iffD2]) simp

theorem key_levels_are_maxima_witness:
  "let c = score_contract sample_stats None sample_contract
   in c_oi c \<le> l_oi (max_level (side_of (c_type c)) (strikeOI [c]))"
proof -
  have "\<exists>r. c_oi (score_contract sample_stats None sample_contract) = Fin r"
    by (simp add: score_contract_def Let_def scored.defs contract.defs sample_contract_def make_contract_def
        sample_leg_def field2_def or_num_def num_or_def)
  then show ?thesis
    using key_levels_are_maxima [of "[score_contract sample_stats None sample_contract]"] by (simp add: Let_def)
qed

end
