(* ===== verification/Ui_Slices.thy ===== *)
theory Ui_Slices
  imports Js_Array
begin

text \<open>
  The small slices of the store (src/context): chart, trading-cost analysis, theme, toasts,
  option-chain popups, configuration and user.  Payloads are arbitrary values.  The class on
  the document element that the theme sets is part of the model; the clock that stamps toasts
  is read where the source reads it.
\<close>

section \<open>Chart\<close>

record chart_state =
  ch_symbols :: jsval
  ch_currentSymbol :: jsval
  ch_timeframe :: jsval
  ch_chartData :: "jsval list"
  ch_connectionStatus :: jsval
  ch_weekly :: jsval
  ch_daily :: jsval
  ch_avg :: jsval

definition chart_initial :: chart_state where
  "chart_initial =
     \<lparr>ch_symbols = Arr [], ch_currentSymbol = Str ''INR'', ch_timeframe = Str ''10'',
      ch_chartData = [], ch_connectionStatus = Str ''disconnected'', ch_weekly = Bool True,
      ch_daily = Bool False, ch_avg = Bool False\<rparr>"

datatype chart_action =
    SetSymbols jsval
  | SetWeekly jsval
  | SetDaily jsval
  | SetAvg jsval
  | SetCurrentSymbol jsval
  | SetTimeframe jsval
  | SetChartData jsval
  | SetConnectionStatus jsval
  | AppendLiveCandle jsval

text \<open>The candle at index \<open>length - 1\<close>; reading index $-1$ gives \<open>undefined\<close>.\<close>

definition last_candle :: "jsval list \<Rightarrow> jsval" where
  "last_candle cs = (if cs = [] then Undef else last cs)"

definition appendLiveCandle :: "jsval \<Rightarrow> jsval list \<Rightarrow> jsval list" where
  "appendLiveCandle newCandle cs =
     (if \<not> truthy newCandle \<or> \<not> truthy (opt newCandle ''time'') then cs
      else if strict_eq (opt (last_candle cs) ''time'') (opt newCandle ''time'')
           then cs[length cs - 1 := newCandle]
           else cs @ [newCandle])"

fun chart_reducer :: "chart_state \<Rightarrow> chart_action \<Rightarrow> chart_state" where
  "chart_reducer s (SetSymbols p) = s\<lparr>ch_symbols := p\<rparr>"
| "chart_reducer s (SetWeekly p) = s\<lparr>ch_weekly := p\<rparr>"
| "chart_reducer s (SetDaily p) = s\<lparr>ch_daily := p\<rparr>"
| "chart_reducer s (SetAvg p) = s\<lparr>ch_avg := p\<rparr>"
| "chart_reducer s (SetCurrentSymbol p) = s\<lparr>ch_currentSymbol := p\<rparr>"
| "chart_reducer s (SetTimeframe p) =
     s\<lparr>ch_timeframe := (if strict_eq p (Str ''1'') then Str [] else p)\<rparr>"
| "chart_reducer s (SetChartData p) = s\<lparr>ch_chartData := (case p of Arr xs \<Rightarrow> xs | _ \<Rightarrow> [])\<rparr>"
| "chart_reducer s (SetConnectionStatus p) = s\<lparr>ch_connectionStatus := p\<rparr>"
| "chart_reducer s (AppendLiveCandle p) = s\<lparr>ch_chartData := appendLiveCandle p (ch_chartData s)\<rparr>"

section \<open>Trading-cost analysis\<close>

record tca_state =
  tca_tradePerDay :: jsval
  tca_ndtpc :: jsval
  tca_tradeAmount :: jsval
  tca_riskReward :: jsval
  tca_chancePercent :: jsval
  tca_chargesPerTrade :: jsval
  tca_results :: jsval
  tca_profitLossChart :: jsval

definition tca_initial :: tca_state where
  "tca_initial =
     \<lparr>tca_tradePerDay = Num (N 3), tca_ndtpc = Num (N 20), tca_tradeAmount = Num (N 500),
      tca_riskReward = Num (N 2), tca_chancePercent = Num (N 50), tca_chargesPerTrade = Num (N 56),
      tca_results = Num (N 0), tca_profitLossChart = Num (N 0)\<rparr>"

datatype tca_action =
    SetTradePerDay jsval
  | SetNdtpc jsval
  | SetTradeAmount jsval
  | SetRiskReward jsval
  | SetChancePercent jsval
  | SetChargesPerTrade jsval
  | SetResults jsval
  | SetProfitLossChart jsval

fun tca_reducer :: "tca_state \<Rightarrow> tca_action \<Rightarrow> tca_state" where
  "tca_reducer s (SetTradePerDay p) = s\<lparr>tca_tradePerDay := p\<rparr>"
| "tca_reducer s (SetNdtpc p) = s\<lparr>tca_ndtpc := p\<rparr>"
| "tca_reducer s (SetTradeAmount p) = s\<lparr>tca_tradeAmount := p\<rparr>"
| "tca_reducer s (SetRiskReward p) = s\<lparr>tca_riskReward := p\<rparr>"
| "tca_reducer s (SetChancePercent p) = s\<lparr>tca_chancePercent := p\<rparr>"
| "tca_reducer s (SetChargesPerTrade p) = s\<lparr>tca_chargesPerTrade := p\<rparr>"
| "tca_reducer s (SetResults p) = s\<lparr>tca_results := p\<rparr>"
| "tca_reducer s (SetProfitLossChart p) = s\<lparr>tca_profitLossChart := p\<rparr>"

section \<open>Theme\<close>

text \<open>The flag \<open>dom_dark\<close> is the class on the document element; outside a browser there is none.\<close>

record theme_state =
  th_theme :: jsval
  th_isReversed :: bool
  th_isHighlighting :: bool
  th_isItmHighlighting :: bool

definition theme_initial :: theme_state where
  "theme_initial =
     \<lparr>th_theme = Str ''dark'', th_isReversed = True, th_isHighlighting = True,
      th_isItmHighlighting = False\<rparr>"

datatype theme_action =
    SetDarkTheme
  | SetLightTheme
  | ToggleTheme
  | SetIsItmHighlighting
  | ApplyStoredTheme

definition applyThemeToDOM :: "bool \<Rightarrow> jsval \<Rightarrow> bool \<Rightarrow> bool" where
  "applyThemeToDOM has_document theme dom_dark =
     (if has_document then strict_eq theme (Str ''dark'') else dom_dark)"

fun theme_reducer :: "bool \<Rightarrow> theme_state \<times> bool \<Rightarrow> theme_action \<Rightarrow> theme_state \<times> bool" where
  "theme_reducer doc (s, d) SetDarkTheme =
     (s\<lparr>th_theme := Str ''dark''\<rparr>, applyThemeToDOM doc (Str ''dark'') d)"
| "theme_reducer doc (s, d) SetLightTheme =
     (s\<lparr>th_theme := Str ''light''\<rparr>, applyThemeToDOM doc (Str ''light'') d)"
| "theme_reducer doc (s, d) ToggleTheme =
     (let t = (if strict_eq (th_theme s) (Str ''light'') then Str ''dark'' else Str ''light'')
      in (s\<lparr>th_theme := t\<rparr>, applyThemeToDOM doc t d))"
| "theme_reducer doc (s, d) SetIsItmHighlighting =
     (s\<lparr>th_isItmHighlighting := \<not> th_isItmHighlighting s\<rparr>, d)"
| "theme_reducer doc (s, d) ApplyStoredTheme = (s, applyThemeToDOM doc (th_theme s) d)"

section \<open>Toasts\<close>

record toast =
  to_id :: int
  to_message :: jsval
  to_type :: jsval
  to_duration :: jsval

datatype toast_action = AddToast jsval | RemoveToast jsval

fun toast_reducer :: "int \<Rightarrow> toast list \<Rightarrow> toast_action \<Rightarrow> toast list result" where
  "toast_reducer now ts (AddToast p) =
     res_bind (get p ''message'') (\<lambda>m. Inr (ts @
       [\<lparr>to_id = now, to_message = m, to_type = js_or (opt p ''type'') (Str ''info''),
         to_duration = js_or (opt p ''duration'') (Num (N 3000))\<rparr>]))"
| "toast_reducer now ts (RemoveToast p) =
     Inr (filter (\<lambda>t. \<not> strict_eq (Num (Fin (of_int (to_id t)))) p) ts)"

text \<open>
  \<open>showToast\<close> reads the clock for its own id (\<open>t1\<close>), and the reducer reads it again
  (\<open>t2\<close>); the timer it starts removes the id \<open>t1\<close>.
\<close>

definition showToast :: "int \<Rightarrow> int \<Rightarrow> jsval \<Rightarrow> toast list \<Rightarrow> (toast list \<times> toast_action) result" where
  "showToast t1 t2 toastData ts =
     res_bind (toast_reducer t2 ts (AddToast (spread toastData [(''id'', Num (Fin (of_int t1)))])))
       (\<lambda>ts'. Inr (ts', RemoveToast (Num (Fin (of_int t1)))))"

section \<open>Option-chain popups\<close>

record popup_state =
  po_popupData :: jsval
  po_strike :: jsval
  po_isPopupVisible :: bool
  po_isDeltaPopupVisible :: bool
  po_isFuturePricePopupVisible :: bool
  po_isReversalPopupVisible :: bool
  po_isIVPopupVisible :: bool
  po_loading :: jsval
  po_fetchError :: jsval
  po_tickerOptions :: "string list"

definition tickers :: "string list" where
  "tickers =
     [''NIFTY'', ''BANKNIFTY'', ''FINNIFTY'', ''MIDCPNIFTY'', ''NIFTYNXT50'', ''SENSEX'',
      ''BANKEX'', ''SHRIRAMFIN'', ''MM'', ''HDFCLIFE'', ''DIVISLAB'', ''LT'',
      ''CRUDEOIL'', ''ADANIENT'', ''ADANIPORTS'', ''APOLLOHOSP'', ''ASIANPAINT'', ''AXISBANK'',
      ''BAJAJ-AUTO'', ''BAJFINANCE'', ''BAJAJFINSV'', ''BEL'', ''BPCL'', ''BHARTIARTL'',
      ''BRITANNIA'', ''CIPLA'', ''COALINDIA'', ''DRREDDY'', ''EICHERMOT'', ''GRASIM'',
      ''HCLTECH'', ''HDFCBANK'', ''HEROMOTOCO'', ''HINDALCO'', ''HINDUNILVR'', ''ICICIBANK'',
      ''ITC'', ''INDUSINDBK'', ''INFY'', ''JSWSTEEL'', ''KOTAKBANK'', ''MARUTI'', ''NTPC'',
      ''NESTLEIND'', ''ONGC'', ''POWERGRID'', ''RELIANCE'', ''SBILIFE'', ''SBIN'', ''SUNPHARMA'',
      ''TCS'', ''TATACONSUM'', ''TATAMOTORS'', ''TATASTEEL'', ''TECHM'', ''TRENT'',
      ''ULTRACEMCO'', ''WIPRO'']"

definition popup_initial :: popup_state where
  "popup_initial =
     \<lparr>po_popupData = Null, po_strike = Null, po_isPopupVisible = False,
      po_isDeltaPopupVisible = False, po_isFuturePricePopupVisible = False,
      po_isReversalPopupVisible = False, po_isIVPopupVisible = False, po_loading = Bool False,
      po_fetchError = Null, po_tickerOptions = tickers\<rparr>"

datatype popup_action =
    SetPopupData jsval
  | SetStrike jsval
  | TogglePopup
  | ToggleDeltaPopup
  | ToggleFuturePricePopup
  | ToggleReversalPopup
  | ToggleIVPopup
  | SetPopupLoading jsval
  | SetFetchError jsval

fun popup_reducer :: "popup_state \<Rightarrow> popup_action \<Rightarrow> popup_state" where
  "popup_reducer s (SetPopupData p) = s\<lparr>po_popupData := p\<rparr>"
| "popup_reducer s (SetStrike p) = s\<lparr>po_strike := p\<rparr>"
| "popup_reducer s TogglePopup = s\<lparr>po_isPopupVisible := \<not> po_isPopupVisible s\<rparr>"
| "popup_reducer s ToggleDeltaPopup = s\<lparr>po_isDeltaPopupVisible := \<not> po_isDeltaPopupVisible s\<rparr>"
| "popup_reducer s ToggleFuturePricePopup =
     s\<lparr>po_isFuturePricePopupVisible := \<not> po_isFuturePricePopupVisible s\<rparr>"
| "popup_reducer s ToggleReversalPopup =
     s\<lparr>po_isReversalPopupVisible := \<not> po_isReversalPopupVisible s\<rparr>"
| "popup_reducer s ToggleIVPopup = s\<lparr>po_isIVPopupVisible := \<not> po_isIVPopupVisible s\<rparr>"
| "popup_reducer s (SetPopupLoading p) = s\<lparr>po_loading := p\<rparr>"
| "popup_reducer s (SetFetchError p) = s\<lparr>po_fetchError := p\<rparr>"

section \<open>Configuration and user\<close>

record config_state =
  co_baseURL :: jsval
  co_socketURL :: jsval

text \<open>The URLs of the build environment, when it sets them.\<close>

definition localURLs :: "string option \<Rightarrow> string option \<Rightarrow> config_state" where
  "localURLs api socket =
     \<lparr>co_baseURL = Str (case str_or api (Some ''http://localhost:8000'') of Some u \<Rightarrow> u | None \<Rightarrow> []),
      co_socketURL = Str (case str_or socket (Some ''ws://localhost:8000'') of Some u \<Rightarrow> u | None \<Rightarrow> [])\<rparr>"

datatype config_action = SetURLs jsval | ResetURLs

fun config_reducer ::
  "string option \<Rightarrow> string option \<Rightarrow> config_state \<Rightarrow> config_action \<Rightarrow> config_state result" where
  "config_reducer api socket s (SetURLs p) =
     res_bind (get p ''baseURL'') (\<lambda>b. Inr (s\<lparr>co_baseURL := b, co_socketURL := opt p ''socketURL''\<rparr>))"
| "config_reducer api socket s ResetURLs = Inr (localURLs api socket)"

datatype user_action = LoginUser jsval | LogoutUser

fun user_reducer :: "jsval \<Rightarrow> user_action \<Rightarrow> jsval" where
  "user_reducer u (LoginUser p) = p"
| "user_reducer u LogoutUser = Null"

section \<open>Properties\<close>

text \<open>
  A run of live candles: a time stays at most once in a row, the stored history before the last
  candle is never rewritten, and the last candle is the newest one.
\<close>

definition times_step :: "jsval list \<Rightarrow> bool" where
  "times_step cs \<longleftrightarrow>
     (\<forall>i. Suc i < length cs \<longrightarrow> \<not> strict_eq (opt (cs ! i) ''time'') (opt (cs ! Suc i) ''time''))"

definition live_candle :: "jsval \<Rightarrow> bool" where
  "live_candle c \<longleftrightarrow> truthy c \<and> truthy (opt c ''time'')"

lemma strict_eq_imp_eq: "strict_eq a b \<Longrightarrow> a = b"
  by (cases "(a, b)" rule: strict_eq.cases) (auto simp: num_eq_def)

lemma times_step_snoc:
  "times_step (cs @ [c]) \<longleftrightarrow>
     times_step cs \<and> (cs \<noteq> [] \<longrightarrow> \<not> strict_eq (opt (last cs) ''time'') (opt c ''time''))"
proof -
  have "(\<forall>i. Suc i < Suc (length cs) \<longrightarrow> P i) \<longleftrightarrow> (\<forall>i. Suc i < length cs \<longrightarrow> P i) \<and> (cs \<noteq> [] \<longrightarrow> P (length cs - 1))" for P
    by (cases cs) (auto simp: less_Suc_eq)
  then show ?thesis
    by (auto simp: times_step_def nth_append last_conv_nth)
qed

lemma appendLiveCandle_step:
  assumes "times_step cs"
  shows "times_step (appendLiveCandle c cs)"
proof (cases "live_candle c")
  case False
  then show ?thesis using assms by (simp add: appendLiveCandle_def live_candle_def)
next
  case True
  show ?thesis
  proof (cases "strict_eq (opt (last_candle cs) ''time'') (opt c ''time'')")
    case eq: True
    have "cs \<noteq> []"
      using eq True by (cases "opt c ''time''") (auto simp: last_candle_def live_candle_def)
    then obtain ds d where cs: "cs = ds @ [d]" by (metis rev_exhaust)
    have d: "strict_eq (opt d ''time'') (opt c ''time'')" using eq by (simp add: cs last_candle_def)
    have "appendLiveCandle c cs = ds @ [c]"
      using eq True by (simp add: appendLiveCandle_def live_candle_def cs list_update_append)
    moreover have "times_step ds \<and> (ds \<noteq> [] \<longrightarrow> \<not> strict_eq (opt (last ds) ''time'') (opt d ''time''))"
      using assms by (simp add: cs times_step_snoc)
    ultimately show ?thesis using strict_eq_imp_eq [OF d] by (simp add: times_step_snoc)
  next
    case False
    then show ?thesis
      using True assms by (auto simp: appendLiveCandle_def live_candle_def last_candle_def times_step_snoc)
  qed
qed

theorem live_candles_merge:
  assumes "times_step cs"
  shows "times_step (fold appendLiveCandle candles cs)
    \<and> butlast cs = take (length cs - 1) (fold appendLiveCandle candles cs)
    \<and> (candles \<noteq> [] \<and> live_candle (last candles) \<longrightarrow>
         last (fold appendLiveCandle candles cs) = last candles)"
proof (intro conjI impI)
  show "times_step (fold appendLiveCandle candles cs)"
    using assms by (induction candles arbitrary: cs) (auto intro: appendLiveCandle_step)
next
  have one: "take (n - 1) (appendLiveCandle c ds) = take (n - 1) ds \<and> n \<le> length (appendLiveCandle c ds)"
    if "n \<le> length ds" for n c ds
    using that by (auto simp: appendLiveCandle_def)
  have "n \<le> length ds \<Longrightarrow> take (n - 1) (fold appendLiveCandle candles ds) = take (n - 1) ds" for n ds
  proof (induction candles arbitrary: ds)
    case (Cons c candles)
    then show ?case using one [of n ds c] by simp
  qed simp
  then show "butlast cs = take (length cs - 1) (fold appendLiveCandle candles cs)"
    by (simp add: butlast_conv_take)
next
  assume a: "candles \<noteq> [] \<and> live_candle (last candles)"
  then obtain ds d where c: "candles = ds @ [d]" by (metis rev_exhaust)
  have "last (appendLiveCandle d es) = d" if "live_candle d" for es
  proof (cases "strict_eq (opt (last_candle es) ''time'') (opt d ''time'')")
    case True
    then have "es \<noteq> []"
      using that by (cases "opt d ''time''") (auto simp: last_candle_def live_candle_def)
    then show ?thesis using True that
      by (simp add: appendLiveCandle_def live_candle_def last_list_update)
  next
    case False
    then show ?thesis using that by (simp add: appendLiveCandle_def live_candle_def)
  qed
  then show "last (fold appendLiveCandle candles cs) = last candles" using a by (simp add: c)
qed

theorem live_candles_merge_witness:
  "last (fold appendLiveCandle [Obj [(''time'', Num (N 5))], Obj [(''time'', Num (N 5)), (''close'', Num (N 1))]] []) =
   Obj [(''time'', Num (N 5)), (''close'', Num (N 1))]"
proof -
  have "times_step []" by (simp add: times_step_def)
  from live_candles_merge [OF this, of "[Obj [(''time'', Num (N 5))], Obj [(''time'', Num (N 5)), (''close'', Num (N 1))]]"]
  show ?thesis by (simp add: live_candle_def)
qed

text \<open>
  A toast shown on an empty list is removed by its own timer exactly when the thunk and the
  reducer read the same millisecond; otherwise it stays for good.
\<close>

theorem toast_removed_iff_same_ms:
  assumes "showToast t1 t2 p [] = Inr (ts, timer)"
  shows "toast_reducer now ts timer = Inr [] \<longleftrightarrow> t1 = t2"
  using assms by (auto simp: showToast_def spread_def get_def split: if_splits)

theorem toast_removed_iff_same_ms_witness:
  "\<exists>ts timer. showToast 1000 1001 (Obj [(''message'', Str ''hi'')]) [] = Inr (ts, timer)
     \<and> toast_reducer 4000 ts timer \<noteq> Inr []"
proof -
  obtain ts timer where s: "showToast 1000 1001 (Obj [(''message'', Str ''hi'')]) [] = Inr (ts, timer)"
    by (simp add: showToast_def spread_def get_def)
  with toast_removed_iff_same_ms [OF s, of 4000] show ?thesis by simp
qed

text \<open>
  In a browser, every theme action but the one that only toggles the highlighting leaves the
  document showing the stored theme, and only the values dark and light are ever stored.
\<close>

theorem theme_and_document_agree:
  assumes "d = strict_eq (th_theme s) (Str ''dark'')" and "th_theme s \<in> {Str ''dark'', Str ''light''}"
    and "fold (\<lambda>a sd. theme_reducer True sd a) actions (s, d) = (s', d')"
  shows "d' = strict_eq (th_theme s') (Str ''dark'') \<and> th_theme s' \<in> {Str ''dark'', Str ''light''}"
  using assms
proof (induction actions arbitrary: s d)
  case (Cons a actions)
  obtain s1 d1 where 1: "theme_reducer True (s, d) a = (s1, d1)" by fastforce
  have "d1 = strict_eq (th_theme s1) (Str ''dark'') \<and> th_theme s1 \<in> {Str ''dark'', Str ''light''}"
    using 1 Cons.prems(1,2) by (cases a) (auto simp: applyThemeToDOM_def Let_def split: if_splits)
  then show ?case using Cons.IH [of d1 s1] Cons.prems(3) 1 by simp
qed simp

theorem theme_and_document_agree_witness:
  "fold (\<lambda>a sd. theme_reducer True sd a) [ToggleTheme] (theme_initial, True) =
     (theme_initial\<lparr>th_theme := Str ''light''\<rparr>, False)"
proof -
  obtain s' d' where f: "fold (\<lambda>a sd. theme_reducer True sd a) [ToggleTheme] (theme_initial, True) = (s', d')"
    by fastforce
  have "d' = strict_eq (th_theme s') (Str ''dark'')"
    by (rule theme_and_document_agree [OF _ _ f, THEN conjunct1]) (simp_all add: theme_initial_def)
  then show ?thesis using f by (auto simp: theme_initial_def Let_def)
qed

end
