(* ===== verification/Selectors.thy ===== *)
theory Selectors
  imports Data_Slice Auth_Slice Ui_Slices
begin

text \<open>
  The root state (src/context/store.js) and the selectors over it (src/context/selectors.js).
  A selector reads properties by name, also names the slice does not have; the slices are
  therefore seen as the objects they are in the program (\<open>data_object\<close>,
  \<open>auth_object\<close> and so on).  redux-persist is not modelled beyond the lists of slices it is
  told to keep.
\<close>

section \<open>The root state\<close>

record root_state =
  r_user :: jsval
  r_theme :: theme_state
  r_data :: data_state
  r_optionChain :: popup_state
  r_tca :: tca_state
  r_config :: config_state
  r_auth :: auth_state
  r_toast :: "toast list"
  r_chart :: chart_state

definition root_whitelist :: "string list" where
  "root_whitelist = [''auth'', ''theme'', ''config'', ''user'', ''tca'', ''chart'', ''data'']"

definition data_whitelist :: "string list" where
  "data_whitelist = [''sid'', ''exp_sid'']"

definition data_object :: "data_state \<Rightarrow> jsval" where
  "data_object s =
     Obj [(''data'', d_data s), (''expDate'', d_expDate s), (''exp_sid'', d_exp_sid s),
          (''ingestedExpiry'', d_ingestedExpiry s), (''isExpiryMatch'', Bool (d_isExpiryMatch s)),
          (''sid'', d_sid s), (''isOc'', d_isOc s), (''error'', d_error s),
          (''isStreaming'', d_isStreaming s), (''loading'', Bool (d_loading s)),
          (''popupData'', d_popupData s), (''connectionMethod'', d_connectionMethod s)]"

definition auth_object :: "auth_state \<Rightarrow> jsval" where
  "auth_object s =
     Obj [(''user'', u_user s), (''isAuthenticated'', Bool (u_isAuthenticated s)),
          (''loading'', Bool (u_loading s)), (''error'', u_error s), (''authLoading'', u_authLoading s),
          (''lastActivity'', u_lastActivity s), (''tokenRefreshing'', u_tokenRefreshing s),
          (''initializationComplete'', Bool (u_initializationComplete s))]"

definition theme_object :: "theme_state \<Rightarrow> jsval" where
  "theme_object s =
     Obj [(''theme'', th_theme s), (''isReversed'', Bool (th_isReversed s)),
          (''isHighlighting'', Bool (th_isHighlighting s)),
          (''isItmHighlighting'', Bool (th_isItmHighlighting s))]"

definition config_object :: "config_state \<Rightarrow> jsval" where
  "config_object s = Obj [(''baseURL'', co_baseURL s), (''socketURL'', co_socketURL s)]"

definition chart_object :: "chart_state \<Rightarrow> jsval" where
  "chart_object s =
     Obj [(''symbols'', ch_symbols s), (''currentSymbol'', ch_currentSymbol s),
          (''timeframe'', ch_timeframe s), (''chartData'', Arr (ch_chartData s)),
          (''connectionStatus'', ch_connectionStatus s), (''weekly'', ch_weekly s),
          (''daily'', ch_daily s), (''avg'', ch_avg s)]"

definition in_data :: "root_state \<Rightarrow> string \<Rightarrow> jsval" where
  "in_data s k = opt (data_object (r_data s)) k"

definition in_auth :: "root_state \<Rightarrow> string \<Rightarrow> jsval" where
  "in_auth s k = opt (auth_object (r_auth s)) k"

definition in_theme :: "root_state \<Rightarrow> string \<Rightarrow> jsval" where
  "in_theme s k = opt (theme_object (r_theme s)) k"

text \<open>\<open>v?.a?.b\<close> along a path.\<close>

definition path :: "jsval \<Rightarrow> string list \<Rightarrow> jsval" where
  "path v ks = foldl opt v ks"

section \<open>Data selectors\<close>

definition selectOptionsData :: "root_state \<Rightarrow> jsval" where
  "selectOptionsData s = path (in_data s ''data'') [''options'', ''data'']"

definition selectLiveDataSnapshot :: "root_state \<Rightarrow> jsval" where
  "selectLiveDataSnapshot s = path (in_data s ''data'') [''options'', ''data'']"

definition selectOptionChain :: "root_state \<Rightarrow> jsval" where
  "selectOptionChain s = path (in_data s ''data'') [''options'', ''data'', ''oc'']"

definition selectSpotData :: "root_state \<Rightarrow> jsval" where
  "selectSpotData s = path (in_data s ''data'') [''spot'', ''data'']"

definition selectSpotPrice :: "root_state \<Rightarrow> jsval" where
  "selectSpotPrice s =
     js_or (path (in_data s ''data'') [''spot'', ''data'', ''ltp''])
       (js_or (path (in_data s ''data'') [''options'', ''data'', ''sltp'']) (Num (N 0)))"

definition selectSpotChange :: "root_state \<Rightarrow> jsval" where
  "selectSpotChange s =
     js_or (path (in_data s ''data'') [''spot'', ''data'', ''change''])
       (js_or (path (in_data s ''data'') [''options'', ''data'', ''schng'']) (Num (N 0)))"

definition selectFuturesData :: "root_state \<Rightarrow> jsval" where
  "selectFuturesData s = path (in_data s ''data'') [''fut'', ''data'']"

definition selectATMStrike :: "root_state \<Rightarrow> jsval" where
  "selectATMStrike s = path (in_data s ''data'') [''options'', ''data'', ''atm_strike'']"

definition selectATMIV :: "root_state \<Rightarrow> jsval" where
  "selectATMIV s = path (in_data s ''data'') [''options'', ''data'', ''atmiv'']"

definition selectMaxPainStrike :: "root_state \<Rightarrow> jsval" where
  "selectMaxPainStrike s = path (in_data s ''data'') [''options'', ''data'', ''max_pain_strike'']"

definition selectPCR :: "root_state \<Rightarrow> jsval" where
  "selectPCR s = path (in_data s ''data'') [''options'', ''data'', ''pcr'']"

definition selectDaysToExpiry :: "root_state \<Rightarrow> jsval" where
  "selectDaysToExpiry s = path (in_data s ''data'') [''options'', ''data'', ''dte'']"

definition selectLotSize :: "root_state \<Rightarrow> jsval" where
  "selectLotSize s = js_or (path (in_data s ''data'') [''options'', ''data'', ''lot_size'']) (Num (N 75))"

definition selectExpiryList :: "root_state \<Rightarrow> jsval" where
  "selectExpiryList s = js_or (path (in_data s ''data'') [''options'', ''data'', ''expiry_list'']) (Arr [])"

definition selectDataLoading :: "root_state \<Rightarrow> jsval" where "selectDataLoading s = in_data s ''loading''"
definition selectDataError :: "root_state \<Rightarrow> jsval" where "selectDataError s = in_data s ''error''"
definition selectIsLiveDataLoading :: "root_state \<Rightarrow> jsval" where
  "selectIsLiveDataLoading s = in_data s ''isLiveDataLoading''"
definition selectExpDates :: "root_state \<Rightarrow> jsval" where
  "selectExpDates s = js_or (in_data s ''expDate'') (Arr [])"
definition selectSelectedExpiry :: "root_state \<Rightarrow> jsval" where "selectSelectedExpiry s = in_data s ''exp_sid''"
definition selectSelectedSymbol :: "root_state \<Rightarrow> jsval" where
  "selectSelectedSymbol s = js_or (in_data s ''sid'') (Str ''NIFTY'')"
definition selectIngestedExpiry :: "root_state \<Rightarrow> jsval" where
  "selectIngestedExpiry s = in_data s ''ingestedExpiry''"
definition selectIsExpiryMatch :: "root_state \<Rightarrow> jsval" where
  "selectIsExpiryMatch s = in_data s ''isExpiryMatch''"

section \<open>The other slices\<close>

definition selectIsAuthenticated :: "root_state \<Rightarrow> jsval" where
  "selectIsAuthenticated s = in_auth s ''isAuthenticated''"
definition selectAuthLoading :: "root_state \<Rightarrow> jsval" where "selectAuthLoading s = in_auth s ''authLoading''"
definition selectCurrentUser :: "root_state \<Rightarrow> jsval" where "selectCurrentUser s = in_auth s ''user''"
definition selectAuthError :: "root_state \<Rightarrow> jsval" where "selectAuthError s = in_auth s ''error''"
definition selectIsPremium :: "root_state \<Rightarrow> jsval" where
  "selectIsPremium s = js_or (opt (in_auth s ''user'') ''isPremium'') (Bool False)"
definition selectTheme :: "root_state \<Rightarrow> jsval" where "selectTheme s = in_theme s ''theme''"
definition selectIsDarkMode :: "root_state \<Rightarrow> bool" where
  "selectIsDarkMode s = strict_eq (in_theme s ''theme'') (Str ''dark'')"
definition selectSymbol :: "root_state \<Rightarrow> jsval" where
  "selectSymbol s = opt (config_object (r_config s)) ''sym''"
definition selectApiMode :: "root_state \<Rightarrow> jsval" where
  "selectApiMode s = opt (config_object (r_config s)) ''useTestApi''"
definition selectChartSymbol :: "root_state \<Rightarrow> jsval" where
  "selectChartSymbol s = opt (chart_object (r_chart s)) ''chartSymbol''"
definition selectChartType :: "root_state \<Rightarrow> jsval" where
  "selectChartType s = opt (chart_object (r_chart s)) ''chartType''"

section \<open>Derived selectors\<close>

definition object_keys :: "jsval \<Rightarrow> string list" where
  "object_keys v = map fst (entries v)"

definition selectSortedStrikes :: "root_state \<Rightarrow> jsnum list" where
  "selectSortedStrikes s =
     (let oc = selectOptionChain s
      in if \<not> truthy oc then [] else sort_numbers (map parse_float (object_keys oc)))"

text \<open>\<open>s >= atm\<close> for a number and a value; a string would be compared as a number.\<close>

definition selectStrikesAroundATM :: "nat \<Rightarrow> root_state \<Rightarrow> jsnum list" where
  "selectStrikesAroundATM strikeCount s =
     (let strikes = selectSortedStrikes s; atm = selectATMStrike s
      in if \<not> truthy atm \<or> strikes = [] then strikes
         else case find_index (\<lambda>k. to_number atm \<le> k) strikes of
                None \<Rightarrow> if strikeCount = 0 then strikes else drop (length strikes - strikeCount) strikes
              | Some atmIndex \<Rightarrow>
                  (let start = atmIndex - strikeCount div 2;
                       stop = min (length strikes) (start + strikeCount)
                   in drop start (take stop strikes)))"

definition selectTotalOI :: "root_state \<Rightarrow> jsval \<times> jsval" where
  "selectTotalOI s =
     (js_or (opt (selectOptionsData s) ''total_ce_oi'') (Num (N 0)),
      js_or (opt (selectOptionsData s) ''total_pe_oi'') (Num (N 0)))"

definition selectData :: "root_state \<Rightarrow> jsval" where "selectData s = in_data s ''data''"
definition selectExp :: "root_state \<Rightarrow> jsval" where "selectExp s = in_data s ''exp''"
definition selectExpDateRaw :: "root_state \<Rightarrow> jsval" where "selectExpDateRaw s = in_data s ''expDate''"
definition selectIsOc :: "root_state \<Rightarrow> jsval" where "selectIsOc s = in_data s ''isOc''"
definition selectIsStreaming :: "root_state \<Rightarrow> jsval" where "selectIsStreaming s = in_data s ''isStreaming''"
definition selectExpSid :: "root_state \<Rightarrow> jsval" where "selectExpSid s = in_data s ''exp_sid''"
definition selectDataSymbol :: "root_state \<Rightarrow> jsval" where "selectDataSymbol s = in_data s ''symbol''"
definition selectSid :: "root_state \<Rightarrow> jsval" where "selectSid s = in_data s ''sid''"
definition selectIsReversed :: "root_state \<Rightarrow> jsval" where "selectIsReversed s = in_theme s ''isReversed''"
definition selectIsHighlighting :: "root_state \<Rightarrow> jsval" where
  "selectIsHighlighting s = in_theme s ''isHighlighting''"

definition selectAppState :: "root_state \<Rightarrow> jsval" where
  "selectAppState s =
     Obj [(''user'', selectCurrentUser s), (''token'', in_auth s ''token''),
          (''isAuthenticated'', selectIsAuthenticated s), (''authLoading'', selectAuthLoading s),
          (''theme'', selectTheme s), (''isReversed'', selectIsReversed s),
          (''isHighlighting'', selectIsHighlighting s), (''data'', selectData s), (''exp'', selectExp s),
          (''symbol'', selectSid s), (''expDate'', selectExpDateRaw s), (''isOc'', selectIsOc s),
          (''isStreaming'', selectIsStreaming s), (''exp_sid'', selectExpSid s)]"

section \<open>Properties\<close>

text \<open>
  The strikes around the money: whatever the chain, the selection is a contiguous run of the
  sorted strikes, no longer than asked for when there is a money strike, and it contains the
  first strike at or above the money strike whenever there is one and at least two strikes are
  asked for.
\<close>

theorem strikes_around_atm:
  assumes "truthy (selectATMStrike s)" and "2 \<le> n"
  shows "(\<exists>pre post. selectSortedStrikes s = pre @ selectStrikesAroundATM n s @ post)
    \<and> length (selectStrikesAroundATM n s) \<le> n
    \<and> (\<forall>i. find_index (\<lambda>k. to_number (selectATMStrike s) \<le> k) (selectSortedStrikes s) = Some i \<longrightarrow>
         selectSortedStrikes s ! i \<in> set (selectStrikesAroundATM n s))"
proof -
  define xs where "xs = selectSortedStrikes s"
  define f where "f = find_index (\<lambda>k. to_number (selectATMStrike s) \<le> k) xs"
  show ?thesis
  proof (cases "xs = []")
    case True
    then have "selectStrikesAroundATM n s = []"
      by (simp add: selectStrikesAroundATM_def Let_def xs_def [symmetric])
    then show ?thesis using True by (simp add: xs_def)
  next
    case ne: False
    show ?thesis
    proof (cases f)
      case None
      then have r: "selectStrikesAroundATM n s = drop (length xs - n) xs"
        using assms ne by (simp add: selectStrikesAroundATM_def Let_def xs_def [symmetric] f_def)
      have "\<exists>pre post. xs = pre @ drop (length xs - n) xs @ post"
        by (rule exI [of _ "take (length xs - n) xs"], rule exI [of _ "[]"]) simp
      then show ?thesis using None by (simp add: r xs_def [symmetric] f_def [symmetric])
    next
      case (Some i)
      define a where "a = i - n div 2"
      define b where "b = min (length xs) (a + n)"
      have r: "selectStrikesAroundATM n s = drop a (take b xs)"
        using assms ne Some
        by (simp add: selectStrikesAroundATM_def Let_def xs_def [symmetric] f_def a_def b_def)
      have i: "i < length xs" using Some find_index_less by (fastforce simp: f_def)
      have ab: "a \<le> b" "b \<le> length xs" using i by (auto simp: a_def b_def)
      have "xs = take a xs @ drop a (take b xs) @ drop b xs"
      proof -
        have "take b xs = take a (take b xs) @ drop a (take b xs)" by (rule append_take_drop_id [symmetric])
        also have "take a (take b xs) = take a xs" using ab by (simp add: min_def)
        finally show ?thesis by (metis append_assoc append_take_drop_id)
      qed
      moreover have "length (drop a (take b xs)) \<le> n" by (simp add: b_def)
      moreover have "xs ! i \<in> set (drop a (take b xs))"
      proof -
        have "a \<le> i" by (simp add: a_def)
        have "i < b" using i assms(2) by (auto simp: a_def b_def)
        then have "drop a (take b xs) ! (i - a) = xs ! i" using \<open>a \<le> i\<close> ab by simp
        moreover have "i - a < length (drop a (take b xs))" using \<open>i < b\<close> \<open>a \<le> i\<close> ab by simp
        ultimately show ?thesis by (metis nth_mem)
      qed
      ultimately show ?thesis using Some by (auto simp: r xs_def [symmetric] f_def [symmetric])
    qed
  qed
qed

theorem strikes_around_atm_witness:
  "\<exists>s pre post. selectSortedStrikes s = pre @ selectStrikesAroundATM 20 s @ post \<and> truthy (selectATMStrike s)"
proof -
  let ?d = "data_initial\<lparr>d_data := Obj [(''options'', Obj [(''data'', Obj [(''oc'', Obj [(''100'', Null)]),
      (''atm_strike'', Num (N 100))])])]\<rparr>"
  define s where "s = \<lparr>r_user = Null, r_theme = theme_initial, r_data = ?d, r_optionChain = popup_initial,
      r_tca = tca_initial, r_config = localURLs None None, r_auth = auth_initial, r_toast = [],
      r_chart = chart_initial\<rparr>"
  have t: "truthy (selectATMStrike s)"
    by (simp add: selectATMStrike_def path_def in_data_def data_object_def s_def)
  from strikes_around_atm [OF t, of 20] t show ?thesis by auto
qed

text \<open>
  The sorted strikes are the numeric strikes of the chain in ascending order.
\<close>

lemma strikes_sorted:
  assumes "\<forall>k \<in> set (object_keys (selectOptionChain s)). fin_double (parse_float k)"
  shows "sorted_wrt (\<le>) (selectSortedStrikes s)"
  using assms by (simp add: selectSortedStrikes_def Let_def sorted_sort_numbers)

text \<open>
  No signed-in user is ever premium for the selector: after any Firebase sign-in, whatever the
  back end answers (premium included), the flag reads false, because the stored user spells it
  differently.
\<close>

theorem premium_never_selected:
  assumes "first_auth_event now user (Inr token) verify (r_auth s, e) = ((a, e'), th)" and "truthy user"
  shows "selectIsPremium (s\<lparr>r_auth := a\<rparr>) = Bool False"
proof -
  define u where "u = user_data now user token (backend_user verify)"
  have "u_user a = u"
  proof -
    have "u_user (fst (auth_dispatch now (r_auth s, e1) (SetUser u))) = u" for e1
      using user_data_obj [of now user token "backend_user verify"]
      by (auto simp: auth_dispatch_def setUser_def u_def get_def)
    from this [of "store_user (json_stringify u) token e"] show ?thesis
      using assms by (auto simp: first_auth_event_def Let_def u_def [symmetric] split: prod.splits)
  qed
  moreover have "opt u ''isPremium'' = Undef"
    by (auto simp: u_def user_data_def spread_def backend_fields_def own_put)
  ultimately show ?thesis by (simp add: selectIsPremium_def in_auth_def auth_object_def)
qed

theorem premium_never_selected_witness:
  "\<exists>a e th s. first_auth_event 0 (Obj []) (Inr ''t'')
      (Inr (Obj [(''data'', Obj [(''user'', Obj [(''is_premium'', Bool True)])])])) (r_auth s, env_initial [] []) = ((a, e), th)
    \<and> selectIsPremium (s\<lparr>r_auth := a\<rparr>) = Bool False"
proof -
  define s where "s = \<lparr>r_user = Null, r_theme = theme_initial, r_data = data_initial, r_optionChain = popup_initial,
      r_tca = tca_initial, r_config = localURLs None None, r_auth = auth_initial, r_toast = [],
      r_chart = chart_initial\<rparr>"
  obtain a e th where f: "first_auth_event 0 (Obj []) (Inr ''t'')
      (Inr (Obj [(''data'', Obj [(''user'', Obj [(''is_premium'', Bool True)])])])) (r_auth s, env_initial [] []) = ((a, e), th)"
    by (metis prod.collapse)
  from premium_never_selected [OF f] f show ?thesis by auto
qed

text \<open>
  The selectors of the configuration's symbol and test mode, the chart symbol and type, the
  live-loading flag, the expiry and the application's token read properties no slice has, in
  every state.
\<close>

theorem dead_selectors:
  "selectSymbol s = Undef \<and> selectApiMode s = Undef \<and> selectChartSymbol s = Undef \<and>
   selectChartType s = Undef \<and> selectIsLiveDataLoading s = Undef \<and> selectExp s = Undef \<and>
   selectDataSymbol s = Undef \<and> opt (selectAppState s) ''token'' = Undef"
  by (simp add: selectSymbol_def selectApiMode_def selectChartSymbol_def selectChartType_def
      selectIsLiveDataLoading_def selectExp_def selectDataSymbol_def selectAppState_def in_data_def
      in_auth_def data_object_def auth_object_def config_object_def chart_object_def)

end
