(* ===== verification/Js_Format.thy ===== *)
theory Js_Format
  imports Js_Array
begin

text \<open>
  Printing and reading numbers: the decimal digits of an integer read back, and
  \<open>Number(x.toFixed(d))\<close> is \<open>x\<close> rounded to \<open>d\<close> decimals.  Rounding to
  decimals keeps a value between two integers.
\<close>

section \<open>Digits\<close>

lemma digit_char_facts:
  assumes "0 \<le> d" and "d < 10"
  shows "is_digit (digit_char d)" and "char_code (digit_char d) = 48 + d"
  using assms by (simp_all add: is_digit_def char_code_def digit_char_def nat_add_distrib)

lemma show_nat_digits: "0 \<le> n \<Longrightarrow> (\<forall>c \<in> set (show_nat n). is_digit c) \<and> show_nat n \<noteq> []"
proof (induction n rule: show_nat.induct)
  case (1 n)
  show ?case
  proof (cases "n < 10")
    case True
    then show ?thesis using 1 digit_char_facts(1) by (simp add: show_nat.simps [of n])
  next
    case False
    then have "is_digit (digit_char (n mod 10))" by (intro digit_char_facts) auto
    then show ?thesis using 1 False by (auto simp: show_nat.simps [of n])
  qed
qed

lemma digits_val_snoc: "digits_val (s @ [c]) = 10 * digits_val s + (char_code c - 48)"
  by (simp add: digits_val_def)

lemma digits_val_show_nat: "0 \<le> n \<Longrightarrow> digits_val (show_nat n) = n"
proof (induction n rule: show_nat.induct)
  case (1 n)
  show ?case
  proof (cases "n < 10")
    case True
    then show ?thesis using 1 digit_char_facts(2) [of n]
      by (simp add: show_nat.simps [of n] digits_val_def)
  next
    case False
    then have "digits_val (show_nat n) = 10 * (n div 10) + n mod 10"
      using 1 digit_char_facts(2) [of "n mod 10"] by (simp add: show_nat.simps [of n] digits_val_snoc)
    then show ?thesis by simp
  qed
qed

lemma digits_val_zeros: "digits_val (replicate k (CHR ''0'') @ s) = digits_val s"
  by (induction k) (simp_all add: digits_val_def char_code_def)

lemma pad_start_digits:
  "0 \<le> n \<Longrightarrow> (\<forall>c \<in> set (pad_start k (CHR ''0'') (show_nat n)). is_digit c)
     \<and> digits_val (pad_start k (CHR ''0'') (show_nat n)) = n \<and> k \<le> length (pad_start k (CHR ''0'') (show_nat n))"
  using show_nat_digits [of n] digits_val_show_nat [of n] digits_val_zeros
  by (auto simp: pad_start_def is_digit_def char_code_def)

section \<open>Reading a decimal\<close>

lemma digit_not:
  assumes "is_digit c"
  shows "c \<noteq> CHR ''-''" and "c \<noteq> CHR ''+''" and "c \<noteq> CHR ''I''" and "c \<noteq> CHR ''.''" and "\<not> is_space c"
  using assms by (auto simp: is_digit_def is_space_def char_code_def)

lemma parse_unsigned_int:
  assumes "\<forall>c \<in> set s. is_digit c" and "s \<noteq> []"
  shows "parse_unsigned s = Some (rnd (of_int (digits_val s)), [])"
proof -
  have "take 8 s \<noteq> ''Infinity''" using assms digit_not(3) by (cases s) auto
  moreover have t: "takeWhile is_digit s = s" "dropWhile is_digit s = []"
    using assms(1) by (auto simp: takeWhile_eq_all_conv)
  ultimately show ?thesis using assms(2) by (simp add: parse_unsigned_def Let_def pow10_def t)
qed

lemma parse_unsigned_dot:
  assumes "\<forall>c \<in> set i. is_digit c" and "\<forall>c \<in> set f. is_digit c" and "i \<noteq> []"
  shows "parse_unsigned (i @ CHR ''.'' # f) =
     Some (rnd (of_int (digits_val (i @ f)) * pow10 (- int (length f))), [])"
proof -
  have "take 8 (i @ CHR ''.'' # f) \<noteq> ''Infinity''" using assms digit_not(3) by (cases i) auto
  moreover have "takeWhile is_digit (i @ CHR ''.'' # f) = i" "dropWhile is_digit (i @ CHR ''.'' # f) = CHR ''.'' # f"
    using assms(1) by (auto simp: takeWhile_append dropWhile_append is_digit_def char_code_def)
  moreover have t: "takeWhile is_digit f = f" "dropWhile is_digit f = []"
    using assms(2) by (auto simp: takeWhile_eq_all_conv)
  ultimately show ?thesis using assms(3) by (simp add: parse_unsigned_def Let_def t)
qed

lemma parse_fixed_digits:
  assumes "0 \<le> r"
  shows "parse_unsigned (fixed_digits d r) = Some (rnd (of_int \<lfloor>r * 10 ^ d + 1 / 2\<rfloor> / 10 ^ d), [])"
    and "fixed_digits d r \<noteq> []" and "is_digit (hd (fixed_digits d r))" and "is_digit (last (fixed_digits d r))"
proof -
  define n where "n = \<lfloor>r * 10 ^ d + 1 / 2\<rfloor>"
  have n: "0 \<le> n" using assms by (simp add: n_def)
  define m where "m = pad_start (d + 1) (CHR ''0'') (show_nat n)"
  have m: "\<forall>c \<in> set m. is_digit c" "digits_val m = n" "d < length m"
    using pad_start_digits [OF n, of "d + 1"] by (auto simp: m_def)
  then have ne: "m \<noteq> []" by auto
  have f: "fixed_digits d r = (if d = 0 then m else take (length m - d) m @ CHR ''.'' # drop (length m - d) m)"
    by (simp add: fixed_digits_def Let_def n_def m_def)
  have p: "pow10 (- int d) = 1 / 10 ^ d" by (simp add: pow10_def)
  show "parse_unsigned (fixed_digits d r) = Some (rnd (of_int \<lfloor>r * 10 ^ d + 1 / 2\<rfloor> / 10 ^ d), [])"
  proof (cases "d = 0")
    case True
    then have "fixed_digits d r = m" using f by simp
    then show ?thesis using parse_unsigned_int [OF m(1) ne] m(2) True by (simp add: n_def)
  next
    case False
    have "\<forall>c \<in> set (take (length m - d) m). is_digit c" "\<forall>c \<in> set (drop (length m - d) m). is_digit c"
      using m(1) in_set_takeD in_set_dropD by fast+
    moreover have "take (length m - d) m \<noteq> []" using m(3) by auto
    ultimately have "parse_unsigned (take (length m - d) m @ CHR ''.'' # drop (length m - d) m) =
        Some (rnd (of_int (digits_val m) * pow10 (- int (length (drop (length m - d) m)))), [])"
      using parse_unsigned_dot by (metis append_take_drop_id)
    moreover have "length (drop (length m - d) m) = d" using m(3) by simp
    ultimately show ?thesis using False m(2) p by (simp add: f n_def)
  qed
  show "fixed_digits d r \<noteq> []" using ne by (simp add: f)
  show "is_digit (hd (fixed_digits d r))"
    using m ne by (auto simp: f hd_append hd_take intro: bspec [OF m(1)])
  show "is_digit (last (fixed_digits d r))"
    using m ne by (auto simp: f last_append last_drop intro: bspec [OF m(1)])
qed

lemma trim_ws_id:
  assumes "s \<noteq> []" and "\<not> is_space (hd s)" and "\<not> is_space (last s)"
  shows "trim_ws s = s"
proof -
  have "dropWhile is_space s = s" using assms by (cases s) auto
  moreover have "dropWhile is_space (rev s) = rev s" using assms by (cases s rule: rev_cases) auto
  ultimately show ?thesis by (simp add: trim_ws_def)
qed

section \<open>Number(x.toFixed(d))\<close>

definition fixed_num :: "nat \<Rightarrow> jsnum \<Rightarrow> jsnum" where
  "fixed_num d x = string_to_number (to_fixed d x)"

definition round_dec :: "nat \<Rightarrow> rat \<Rightarrow> rat" where
  "round_dec d r = of_int \<lfloor>r * 10 ^ d + 1 / 2\<rfloor> / 10 ^ d"

lemma fixed_num_pos:
  assumes "0 \<le> r" and "r < 10 ^ 21"
  shows "fixed_num d (Fin r) = rnd (round_dec d r)"
proof -
  note p = parse_fixed_digits [OF assms(1), of d]
  define s where "s = fixed_digits d r"
  have s: "s \<noteq> []" "is_digit (hd s)" "is_digit (last s)" "parse_unsigned s = Some (rnd (round_dec d r), [])"
    using p by (simp_all add: s_def round_dec_def)
  have "trim_ws s = s" using s digit_not(5) by (intro trim_ws_id) auto
  moreover have "parse_signed s = parse_unsigned s"
    using s digit_not(1,2) by (cases s) (auto simp: parse_signed_def)
  moreover have "to_fixed d (Fin r) = s" using assms by (simp add: s_def)
  ultimately show ?thesis using s by (simp add: fixed_num_def string_to_number_def Let_def)
qed

lemma fixed_num_neg:
  assumes "r < 0" and "- r < 10 ^ 21"
  shows "fixed_num d (Fin r) = - rnd (round_dec d (- r))"
proof -
  have "0 \<le> - r" using assms by simp
  note p = parse_fixed_digits [OF this, of d]
  define s where "s = fixed_digits d (- r)"
  have s: "s \<noteq> []" "is_digit (last s)" "parse_unsigned s = Some (rnd (round_dec d (- r)), [])"
    using p by (simp_all add: s_def round_dec_def)
  have "\<not> is_space (CHR ''-'')" by (simp add: is_space_def char_code_def)
  then have "trim_ws (CHR ''-'' # s) = CHR ''-'' # s"
    using s digit_not(5) by (intro trim_ws_id) auto
  moreover have "parse_signed (CHR ''-'' # s) = Some (- rnd (round_dec d (- r)), [])"
    using s by (simp add: parse_signed_def)
  moreover have "to_fixed d (Fin r) = CHR ''-'' # s" using assms by (simp add: s_def)
  ultimately show ?thesis using s by (simp add: fixed_num_def string_to_number_def Let_def)
qed

lemma round_dec_bounds:
  assumes "of_int a \<le> r" and "r \<le> of_int b"
  shows "of_int a \<le> round_dec d r" and "round_dec d r \<le> of_int b"
proof -
  have p: "(0::rat) < 10 ^ d" by simp
  have "of_int (a * 10 ^ d) \<le> r * 10 ^ d" using assms(1) by simp
  then have "of_int (a * 10 ^ d) \<le> r * 10 ^ d + 1 / 2" by linarith
  then have "a * 10 ^ d \<le> \<lfloor>r * 10 ^ d + 1 / 2\<rfloor>" by (simp only: le_floor_iff)
  then have "(of_int (a * 10 ^ d) :: rat) \<le> of_int \<lfloor>r * 10 ^ d + 1 / 2\<rfloor>" by (simp only: of_int_le_iff)
  then show "of_int a \<le> round_dec d r" using p by (simp add: round_dec_def pos_le_divide_eq)
  have "r * 10 ^ d \<le> of_int (b * 10 ^ d)" using assms(2) by simp
  then have "r * 10 ^ d + 1 / 2 < of_int (b * 10 ^ d) + 1" by linarith
  then have "r * 10 ^ d + 1 / 2 < of_int (b * 10 ^ d + 1)" by (simp only: of_int_add of_int_1)
  then have "\<lfloor>r * 10 ^ d + 1 / 2\<rfloor> < b * 10 ^ d + 1" by (simp only: floor_less_iff)
  then have "\<lfloor>r * 10 ^ d + 1 / 2\<rfloor> \<le> b * 10 ^ d" by simp
  then have "(of_int \<lfloor>r * 10 ^ d + 1 / 2\<rfloor> :: rat) \<le> of_int (b * 10 ^ d)" by (simp only: of_int_le_iff)
  then show "round_dec d r \<le> of_int b" using p by (simp add: round_dec_def pos_divide_le_eq)
qed

lemma fixed_num_ranged:
  assumes "ranged a b x" and "\<bar>a\<bar> \<le> 2 ^ 53" and "\<bar>b\<bar> \<le> 2 ^ 53"
  shows "ranged a b (fixed_num d x)"
proof -
  obtain r where r: "x = Fin r" "of_int a \<le> r" "r \<le> of_int b" using assms(1) by (elim rangedE)
  have ab: "(of_int b :: rat) \<le> of_int (2 ^ 53)" "- of_int (2 ^ 53) \<le> (of_int a :: rat)"
    using assms(2,3) by (simp_all only: of_int_le_iff abs_le_iff of_int_minus [symmetric], simp_all)
  have big: "(of_int (2 ^ 53) :: rat) < 10 ^ 21" by simp
  show ?thesis
  proof (cases "0 \<le> r")
    case True
    have "r < 10 ^ 21" using r(3) ab(1) big by linarith
    then show ?thesis using True r(1) round_dec_bounds [OF r(2,3), of d] assms(2,3)
      by (simp add: fixed_num_pos) (intro ranged_rnd; simp)
  next
    case False
    have lim: "- r < 10 ^ 21" using r(2) ab(2) big by linarith
    have "of_int (- b) \<le> - r" "- r \<le> of_int (- a)" using r(2,3) by simp_all
    from round_dec_bounds [OF this, of d] have "ranged (- b) (- a) (rnd (round_dec d (- r)))"
      using assms(2,3) by (intro ranged_rnd) auto
    then have "ranged (- (- a)) (- (- b)) (- rnd (round_dec d (- r)))" by (rule ranged_uminus)
    then show ?thesis using False r(1) lim by (simp add: fixed_num_neg)
  qed
qed

lemma fixed_num_nan [simp]: "fixed_num d NaN = NaN"
  by (simp add: fixed_num_def string_to_number_def trim_ws_def is_space_def char_code_def
      parse_signed_def parse_unsigned_def is_digit_def Let_def)

end
