(* ===== verification/Greeks.thy ===== *)
theory Greeks
  imports Js_Format
begin

text \<open>
  Option Greeks: the web worker (public/workers/greeks.worker.js) and the hook that talks to it
  (src/hooks/useGreeksWorker.js), with its table of pending requests and the simplified
  calculation on the main thread.  \<open>Math.exp\<close> and \<open>Math.log\<close>, which ECMAScript leaves
  to the engine, are parameters (\<open>mexp\<close>, \<open>mlog\<close>).  A numeric field that is missing is
  NaN: every use of such a field is arithmetic, a comparison or \<open>|| d\<close>, which treat the two alike.
  The interest rate may be missing.
\<close>

section \<open>The normal distribution\<close>

definition cdf_a1 :: rat where "cdf_a1 = 254829592 / 1000000000"
definition cdf_a2 :: rat where "cdf_a2 = - 284496736 / 1000000000"
definition cdf_a3 :: rat where "cdf_a3 = 1421413741 / 1000000000"
definition cdf_a4 :: rat where "cdf_a4 = - 1453152027 / 1000000000"
definition cdf_a5 :: rat where "cdf_a5 = 1061405429 / 1000000000"
definition cdf_p :: rat where "cdf_p = 3275911 / 10000000"

definition normalCDF :: "(jsnum \<Rightarrow> jsnum) \<Rightarrow> jsnum \<Rightarrow> jsnum" where
  "normalCDF mexp x0 =
     (let sign = (if x0 < Fin 0 then N (- 1) else N 1);
          x = abs x0 / jsqrt (N 2);
          t = N 1 / (N 1 + N cdf_p * x);
          y = N 1 - (((((N cdf_a5 * t + N cdf_a4) * t) + N cdf_a3) * t + N cdf_a2) * t + N cdf_a1) * t
                    * mexp (- x * x)
      in N (1 / 2) * (N 1 + sign * y))"

definition math_pi :: jsnum where
  "math_pi = N (3141592653589793 / 1000000000000000)"

definition normalPDF :: "(jsnum \<Rightarrow> jsnum) \<Rightarrow> jsnum \<Rightarrow> jsnum" where
  "normalPDF mexp x = mexp (N (- 1 / 2) * x * x) / jsqrt (N 2 * math_pi)"

section \<open>Greeks of one option\<close>

record greeks_params =
  p_spot :: jsnum
  p_strike :: jsnum
  p_timeToExpiry :: jsnum
  p_riskFreeRate :: "jsnum option"
  p_volatility :: jsnum
  p_optionType :: jsval

record greeks =
  g_delta :: jsnum
  g_gamma :: jsnum
  g_theta :: jsnum
  g_vega :: jsnum
  g_rho :: jsnum
  g_iv :: jsnum

definition calculateD1D2 ::
  "(jsnum \<Rightarrow> jsnum) \<Rightarrow> jsnum \<Rightarrow> jsnum \<Rightarrow> jsnum \<Rightarrow> jsnum \<Rightarrow> jsnum \<Rightarrow> jsnum \<times> jsnum" where
  "calculateD1D2 mlog s k t r sigma =
     (let d1 = (mlog (s / k) + (r + N (1 / 2) * sigma * sigma) * t) / (sigma * jsqrt t)
      in (d1, d1 - sigma * jsqrt t))"

definition invalid_params :: "greeks_params \<Rightarrow> bool" where
  "invalid_params p \<longleftrightarrow>
     p_timeToExpiry p \<le> Fin 0 \<or> p_volatility p \<le> Fin 0 \<or> p_spot p \<le> Fin 0 \<or> p_strike p \<le> Fin 0"

definition delta_of :: "(jsnum \<Rightarrow> jsnum) \<Rightarrow> bool \<Rightarrow> jsnum \<Rightarrow> jsnum" where
  "delta_of mexp isCall d1 = (if isCall then normalCDF mexp d1 else normalCDF mexp d1 - N 1)"

definition theta_of ::
  "(jsnum \<Rightarrow> jsnum) \<Rightarrow> bool \<Rightarrow> jsnum \<Rightarrow> jsnum \<Rightarrow> jsnum \<Rightarrow> jsnum \<Rightarrow> jsnum \<Rightarrow> jsnum \<Rightarrow> jsnum \<Rightarrow> jsnum" where
  "theta_of mexp isCall s k t r sigma d1 d2 =
     (let term1 = - (s * normalPDF mexp d1 * sigma) / (N 2 * jsqrt t)
      in (if isCall then term1 - r * k * mexp (- r * t) * normalCDF mexp d2
          else term1 + r * k * mexp (- r * t) * normalCDF mexp (- d2)) / N 365)"

definition rho_of ::
  "(jsnum \<Rightarrow> jsnum) \<Rightarrow> bool \<Rightarrow> jsnum \<Rightarrow> jsnum \<Rightarrow> jsnum \<Rightarrow> jsnum \<Rightarrow> jsnum" where
  "rho_of mexp isCall k t r d2 =
     (if isCall then k * t * mexp (- r * t) * normalCDF mexp d2 * N (1 / 100)
      else - k * t * mexp (- r * t) * normalCDF mexp (- d2) * N (1 / 100))"

definition calculateGreeks ::
  "(jsnum \<Rightarrow> jsnum) \<Rightarrow> (jsnum \<Rightarrow> jsnum) \<Rightarrow> greeks_params \<Rightarrow> greeks" where
  "calculateGreeks mexp mlog p =
     (if invalid_params p
      then \<lparr>g_delta = Fin 0, g_gamma = Fin 0, g_theta = Fin 0, g_vega = Fin 0, g_rho = Fin 0,
            g_iv = num_or (p_volatility p) (Fin 0)\<rparr>
      else let s = p_spot p; k = p_strike p; t = p_timeToExpiry p / N 365;
               r = or_num (p_riskFreeRate p) (N (5 / 100)); sigma = p_volatility p;
               isCall = strict_eq (p_optionType p) (Str ''CE'');
               (d1, d2) = calculateD1D2 mlog s k t r sigma; sqrtT = jsqrt t
           in \<lparr>g_delta = fixed_num 4 (delta_of mexp isCall d1),
               g_gamma = fixed_num 6 (normalPDF mexp d1 / (s * sigma * sqrtT)),
               g_theta = fixed_num 4 (theta_of mexp isCall s k t r sigma d1 d2),
               g_vega = fixed_num 4 (s * sqrtT * normalPDF mexp d1 * N (1 / 100)),
               g_rho = fixed_num 4 (rho_of mexp isCall k t r d2),
               g_iv = fixed_num 2 (sigma * N 100)\<rparr>)"

record option_in =
  o_strike :: jsnum
  o_daysToExpiry :: jsnum
  o_iv :: jsnum
  o_type :: jsval

definition option_params :: "jsnum \<Rightarrow> jsnum option \<Rightarrow> option_in \<Rightarrow> greeks_params" where
  "option_params spot riskFreeRate o1 =
     \<lparr>p_spot = spot, p_strike = o_strike o1, p_timeToExpiry = o_daysToExpiry o1,
      p_riskFreeRate = riskFreeRate, p_volatility = o_iv o1 / N 100, p_optionType = o_type o1\<rparr>"

definition calculateBatchGreeks ::
  "(jsnum \<Rightarrow> jsnum) \<Rightarrow> (jsnum \<Rightarrow> jsnum) \<Rightarrow> option_in list \<Rightarrow> jsnum \<Rightarrow> jsnum option \<Rightarrow>
   (jsnum \<times> jsval \<times> greeks) list" where
  "calculateBatchGreeks mexp mlog options spot riskFreeRate =
     map (\<lambda>o1. (o_strike o1, o_type o1, calculateGreeks mexp mlog (option_params spot riskFreeRate o1)))
       options"

section \<open>The message protocol\<close>

datatype worker_message =
    CalculateSingle greeks_params
  | CalculateBatch "option_in list" jsnum "jsnum option"
  | Ping
  | UnknownMessage string

datatype worker_value =
    Single greeks
  | Batch "(jsnum \<times> jsval \<times> greeks) list"
  | Pong

datatype worker_reply = Success nat worker_value | WorkerError nat string | Ready

fun worker_onmessage ::
  "(jsnum \<Rightarrow> jsnum) \<Rightarrow> (jsnum \<Rightarrow> jsnum) \<Rightarrow> nat \<Rightarrow> worker_message \<Rightarrow> worker_reply" where
  "worker_onmessage mexp mlog rid (CalculateSingle p) = Success rid (Single (calculateGreeks mexp mlog p))"
| "worker_onmessage mexp mlog rid (CalculateBatch os s r) =
     Success rid (Batch (calculateBatchGreeks mexp mlog os s r))"
| "worker_onmessage mexp mlog rid Ping = Success rid Pong"
| "worker_onmessage mexp mlog rid (UnknownMessage t) = WorkerError rid (''Unknown message type: '' @ t)"

text \<open>
  The hook's side: the pending requests, the number of the last request, and how each request
  settled, newest first.
\<close>

datatype settlement = Resolved worker_value | Rejected string

record pending_state =
  pe_pending :: "nat list"
  pe_requestId :: nat
  pe_settled :: "(nat \<times> settlement) list"

definition pending_initial :: pending_state where
  "pending_initial = \<lparr>pe_pending = [], pe_requestId = 0, pe_settled = []\<rparr>"

text \<open>A request to a worker that could be started; its number travels with the message.\<close>

definition sendToWorker :: "pending_state \<Rightarrow> nat \<times> pending_state" where
  "sendToWorker s =
     (let rid = Suc (pe_requestId s)
      in (rid, s\<lparr>pe_requestId := rid, pe_pending := pe_pending s @ [rid]\<rparr>))"

definition settle :: "nat \<Rightarrow> settlement \<Rightarrow> pending_state \<Rightarrow> pending_state" where
  "settle rid v s =
     (if rid \<in> set (pe_pending s)
      then s\<lparr>pe_pending := filter (\<lambda>i. i \<noteq> rid) (pe_pending s), pe_settled := (rid, v) # pe_settled s\<rparr>
      else s)"

fun hook_onmessage :: "worker_reply \<Rightarrow> pending_state \<Rightarrow> pending_state" where
  "hook_onmessage Ready s = s"
| "hook_onmessage (Success rid v) s = settle rid (Resolved v) s"
| "hook_onmessage (WorkerError rid e) s = settle rid (Rejected e) s"

definition request_timeout :: "nat \<Rightarrow> pending_state \<Rightarrow> pending_state" where
  "request_timeout rid s = settle rid (Rejected ''Worker timeout'') s"

inductive pending_step :: "pending_state \<Rightarrow> pending_state \<Rightarrow> bool" where
  send: "pending_step s (snd (sendToWorker s))"
| message: "pending_step s (hook_onmessage r s)"
| timeout: "pending_step s (request_timeout rid s)"

section \<open>The calculation without a worker\<close>

definition fallbackCalculateGreeks ::
  "(jsnum \<Rightarrow> jsnum) \<Rightarrow> (jsnum \<Rightarrow> jsnum) \<Rightarrow> greeks_params \<Rightarrow> greeks" where
  "fallbackCalculateGreeks mexp mlog p =
     (if p_timeToExpiry p \<le> Fin 0 \<or> p_volatility p \<le> Fin 0
      then \<lparr>g_delta = Fin 0, g_gamma = Fin 0, g_theta = Fin 0, g_vega = Fin 0, g_rho = Fin 0, g_iv = Fin 0\<rparr>
      else let s = p_spot p; k = p_strike p; t = p_timeToExpiry p / N 365;
               r = (case p_riskFreeRate p of Some r \<Rightarrow> r | None \<Rightarrow> N (5 / 100)); sigma = p_volatility p;
               isCall = strict_eq (p_optionType p) (Str ''CE'');
               d1 = (mlog (s / k) + (r + N (1 / 2) * sigma * sigma) * t) / (sigma * jsqrt t);
               delta = (if isCall then normalCDF mexp d1 else normalCDF mexp d1 - N 1)
           in \<lparr>g_delta = fixed_num 4 delta, g_gamma = Fin 0, g_theta = Fin 0, g_vega = Fin 0,
               g_rho = Fin 0, g_iv = fixed_num 2 (sigma * N 100)\<rparr>)"

definition fallback_batch ::
  "(jsnum \<Rightarrow> jsnum) \<Rightarrow> (jsnum \<Rightarrow> jsnum) \<Rightarrow> option_in list \<Rightarrow> jsnum \<Rightarrow> jsnum option \<Rightarrow>
   (jsnum \<times> jsval \<times> greeks) list" where
  "fallback_batch mexp mlog options spot riskFreeRate =
     map (\<lambda>o1. (o_strike o1, o_type o1,
        fallbackCalculateGreeks mexp mlog (option_params spot (Some (case riskFreeRate of
          Some r \<Rightarrow> r | None \<Rightarrow> N (5 / 100))) o1))) options"

text \<open>What the hook's callers get: the worker's answer, or the fallback when it was rejected.\<close>

definition calculateSingle ::
  "(jsnum \<Rightarrow> jsnum) \<Rightarrow> (jsnum \<Rightarrow> jsnum) \<Rightarrow> settlement \<Rightarrow> greeks_params \<Rightarrow> worker_value" where
  "calculateSingle mexp mlog answer p =
     (case answer of Resolved v \<Rightarrow> v | Rejected _ \<Rightarrow> Single (fallbackCalculateGreeks mexp mlog p))"

definition calculateBatch ::
  "(jsnum \<Rightarrow> jsnum) \<Rightarrow> (jsnum \<Rightarrow> jsnum) \<Rightarrow> settlement \<Rightarrow> option_in list \<Rightarrow> jsnum \<Rightarrow> jsnum option \<Rightarrow>
   worker_value" where
  "calculateBatch mexp mlog answer options spot riskFreeRate =
     (case answer of Resolved v \<Rightarrow> v
      | Rejected _ \<Rightarrow> Batch (fallback_batch mexp mlog options spot riskFreeRate))"

section \<open>The polynomial of the distribution\<close>

text \<open>One Horner step on doubles stays close to the exact one; \<open>1 / 2251799813685248\<close> is $2^{-51}$.\<close>

abbreviation eps :: rat where "eps \<equiv> 1 / 2251799813685248"

lemma rnd_small: "\<bar>x\<bar> \<le> 8 \<Longrightarrow> rnd x = Fin (rd64 x)"
  using rnd_between [of "- 8" x 8] by (auto simp: abs_le_iff)

lemma rnd_coeff: "\<bar>c\<bar> < 8 \<Longrightarrow> \<exists>c'. N c = Fin c' \<and> \<bar>c' - c\<bar> \<le> eps"
  using rnd_small [of c] rd64_error [of c] by auto

lemma horner_step:
  assumes "\<bar>v' - v\<bar> \<le> k * eps" and "k \<le> 100" and "\<bar>v\<bar> \<le> 5" and "0 \<le> t" and "t \<le> 1" and "\<bar>c\<bar> \<le> 2"
  shows "\<exists>w. Fin v' * Fin t + N c = Fin w \<and> \<bar>w - (v * t + c)\<bar> \<le> (k + 3) * eps"
proof -
  have k: "k * eps \<le> 100 * eps" using assms(2) by (intro mult_right_mono) auto
  obtain c' where c: "N c = Fin c'" "\<bar>c' - c\<bar> \<le> eps" using rnd_coeff [of c] assms(6) by auto
  have "\<bar>v' * t - v * t\<bar> = \<bar>v' - v\<bar> * t" using assms(4) by (simp add: left_diff_distrib [symmetric] abs_mult)
  also have "\<dots> \<le> \<bar>v' - v\<bar>" using assms(4,5) by (simp add: mult_left_le)
  finally have d: "\<bar>v' * t - v * t\<bar> \<le> k * eps" using assms(1) by linarith
  have "\<bar>v * t\<bar> \<le> \<bar>v\<bar>" using assms(4,5) by (simp add: abs_mult mult_left_le)
  then have vt: "\<bar>v * t\<bar> \<le> 5" using assms(3) by linarith
  have m: "\<bar>v' * t\<bar> < 11 / 2" using d vt k by linarith
  then have m2: "\<bar>rd64 (v' * t) - v' * t\<bar> \<le> eps" by (intro rd64_error) linarith
  have s: "\<bar>rd64 (v' * t) + c'\<bar> < 8" using m m2 c(2) assms(6) by linarith
  then have s2: "\<bar>rd64 (rd64 (v' * t) + c') - (rd64 (v' * t) + c')\<bar> \<le> eps" by (rule rd64_error)
  have p: "Fin v' * Fin t = Fin (rd64 (v' * t))" using rnd_small [of "v' * t"] m by simp
  have q: "Fin (rd64 (v' * t)) + Fin c' = Fin (rd64 (rd64 (v' * t) + c'))"
    using rnd_small [of "rd64 (v' * t) + c'"] s by simp
  have "\<bar>rd64 (rd64 (v' * t) + c') - (v * t + c)\<bar> \<le> k * eps + eps + eps + eps"
    using s2 m2 d c(2) by linarith
  also have "\<dots> = (k + 3) * eps" by (simp add: field_simps)
  finally have e: "\<bar>rd64 (rd64 (v' * t) + c') - (v * t + c)\<bar> \<le> (k + 3) * eps" .
  have "Fin v' * Fin t + N c = Fin (rd64 (rd64 (v' * t) + c'))" by (simp only: p c(1) q)
  then show ?thesis using e by blast
qed

definition cdf_poly :: "rat \<Rightarrow> rat" where
  "cdf_poly t = (((cdf_a5 * t + cdf_a4) * t + cdf_a3) * t + cdf_a2) * t + cdf_a1"

lemmas cdf_coeffs = cdf_a1_def cdf_a2_def cdf_a3_def cdf_a4_def cdf_a5_def

lemma abs_step: "\<bar>v\<bar> \<le> b \<Longrightarrow> \<bar>c\<bar> \<le> d \<Longrightarrow> 0 \<le> t \<Longrightarrow> t \<le> 1 \<Longrightarrow> \<bar>v * t + c\<bar> \<le> b + (d :: rat)"
proof -
  assume a: "\<bar>v\<bar> \<le> b" "\<bar>c\<bar> \<le> d" "0 \<le> t" "t \<le> 1"
  then have "\<bar>v * t\<bar> \<le> \<bar>v\<bar>" by (simp add: abs_mult mult_left_le)
  then show ?thesis using a by linarith
qed

lemma cdf_poly_computed:
  assumes "0 \<le> t" and "t \<le> 1"
  shows "\<exists>w. (((N cdf_a5 * Fin t + N cdf_a4) * Fin t + N cdf_a3) * Fin t + N cdf_a2) * Fin t + N cdf_a1 = Fin w
     \<and> \<bar>w - cdf_poly t\<bar> \<le> 13 * eps"
proof -
  obtain v5 where v5: "N cdf_a5 = Fin v5" "\<bar>v5 - cdf_a5\<bar> \<le> 1 * eps"
    using rnd_coeff [of cdf_a5] by (auto simp: cdf_coeffs)
  have b5: "\<bar>cdf_a5\<bar> \<le> 107 / 100" by (simp add: cdf_coeffs)
  obtain v4 where v4: "Fin v5 * Fin t + N cdf_a4 = Fin v4" "\<bar>v4 - (cdf_a5 * t + cdf_a4)\<bar> \<le> (1 + 3) * eps"
    using horner_step [OF v5(2) _ _ assms, of cdf_a4] by (auto simp: cdf_coeffs)
  have b4: "\<bar>cdf_a5 * t + cdf_a4\<bar> \<le> 107 / 100 + 146 / 100"
    by (rule abs_step [OF b5 _ assms]) (simp add: cdf_coeffs)
  obtain v3 where v3: "Fin v4 * Fin t + N cdf_a3 = Fin v3"
      "\<bar>v3 - ((cdf_a5 * t + cdf_a4) * t + cdf_a3)\<bar> \<le> (1 + 3 + 3) * eps"
    using horner_step [OF v4(2) _ _ assms, of cdf_a3] b4 by (auto simp: cdf_a3_def)
  have b3: "\<bar>(cdf_a5 * t + cdf_a4) * t + cdf_a3\<bar> \<le> 107 / 100 + 146 / 100 + 143 / 100"
    by (rule abs_step [OF b4 _ assms]) (simp add: cdf_coeffs)
  obtain v2 where v2: "Fin v3 * Fin t + N cdf_a2 = Fin v2"
      "\<bar>v2 - (((cdf_a5 * t + cdf_a4) * t + cdf_a3) * t + cdf_a2)\<bar> \<le> (1 + 3 + 3 + 3) * eps"
    using horner_step [OF v3(2) _ _ assms, of cdf_a2] b3 by (auto simp: cdf_a2_def)
  have b2: "\<bar>((cdf_a5 * t + cdf_a4) * t + cdf_a3) * t + cdf_a2\<bar> \<le> 107 / 100 + 146 / 100 + 143 / 100 + 29 / 100"
    by (rule abs_step [OF b3 _ assms]) (simp add: cdf_coeffs)
  obtain v1 where v1: "Fin v2 * Fin t + N cdf_a1 = Fin v1"
      "\<bar>v1 - ((((cdf_a5 * t + cdf_a4) * t + cdf_a3) * t + cdf_a2) * t + cdf_a1)\<bar> \<le> (1 + 3 + 3 + 3 + 3) * eps"
    using horner_step [OF v2(2) _ _ assms, of cdf_a1] b2 by (auto simp: cdf_a1_def)
  have "\<bar>v1 - cdf_poly t\<bar> \<le> 13 * eps" using v1(2) by (simp add: cdf_poly_def)
  then show ?thesis by (simp only: v5(1) v4(1) v3(1) v2(1) v1(1)) blast
qed


lemma cdf_poly_lower:
  assumes "0 \<le> t" and "t \<le> 1"
  shows "1 / 5 \<le> cdf_poly t"
proof -
  have sq: "14 / 10 * t - 49 / 100 \<le> t * t" using zero_le_square [of "t - 7 / 10"] by (simp add: algebra_simps)
  have "9 / 10 \<le> (cdf_a5 * t + cdf_a4) * t + cdf_a3"
    using sq assms by (simp add: cdf_coeffs algebra_simps)
  then have "9 / 10 * (t * t) \<le> ((cdf_a5 * t + cdf_a4) * t + cdf_a3) * (t * t)"
    by (rule mult_right_mono) simp
  moreover have "cdf_poly t = ((cdf_a5 * t + cdf_a4) * t + cdf_a3) * (t * t) + cdf_a2 * t + cdf_a1"
    by (simp add: cdf_poly_def algebra_simps)
  moreover have "32 / 100 * t - 256 / 10000 \<le> t * t"
    using zero_le_square [of "t - 16 / 100"] by (simp add: algebra_simps)
  ultimately show ?thesis using assms by (simp add: cdf_a1_def cdf_a2_def)
qed

lemma cdf_poly_upper:
  assumes "0 \<le> t" and "t \<le> 1"
  shows "cdf_poly t * t \<le> 999999999 / 1000000000"
proof -
  define u where "u = t * t"
  define v where "v = t * t * t"
  define w where "w = t * t * (t * t)"
  let ?q = "cdf_a1 + cdf_a2 * (1 + t) + cdf_a3 * (1 + t + u) + cdf_a4 * (1 + t + u + v)
    + cdf_a5 * (1 + t + u + v + w)"
  have "u \<le> 1" "v \<le> 1" "0 \<le> u" "0 \<le> w"
    using assms by (auto simp: u_def v_def w_def intro: mult_le_one)
  moreover have "?q = 999999999 / 1000000000 + 745170407 / 1000000000 * t + 1029667143 / 1000000000 * u
      - 391746598 / 1000000000 * v + 1061405429 / 1000000000 * w"
    by (simp add: cdf_coeffs field_simps)
  ultimately have "0 \<le> ?q" using assms by linarith
  then have "0 \<le> (1 - t) * ?q" using assms by (intro mult_nonneg_nonneg) auto
  moreover have "(1 - t) * ?q = cdf_a1 + cdf_a2 + cdf_a3 + cdf_a4 + cdf_a5 - cdf_poly t * t"
    by (simp add: cdf_poly_def u_def v_def w_def algebra_simps)
  moreover have "cdf_a1 + cdf_a2 + cdf_a3 + cdf_a4 + cdf_a5 = 999999999 / 1000000000"
    by (simp add: cdf_coeffs)
  ultimately show ?thesis by simp
qed

lemma cdf_tail_ranged:
  assumes "0 \<le> t" and "t \<le> 1"
  shows "ranged 0 1 (((((N cdf_a5 * Fin t + N cdf_a4) * Fin t + N cdf_a3) * Fin t + N cdf_a2) * Fin t + N cdf_a1) * Fin t)"
proof -
  obtain w where w: "(((N cdf_a5 * Fin t + N cdf_a4) * Fin t + N cdf_a3) * Fin t + N cdf_a2) * Fin t + N cdf_a1 = Fin w"
    "\<bar>w - cdf_poly t\<bar> \<le> 13 * eps"
    using cdf_poly_computed [OF assms] by blast
  have "0 \<le> w" using w(2) cdf_poly_lower [OF assms] by linarith
  have "w - cdf_poly t \<le> 13 * eps" using w(2) by linarith
  then have "(w - cdf_poly t) * t \<le> 13 * eps * 1" using assms by (intro mult_mono) auto
  then have "w * t \<le> 13 * eps + cdf_poly t * t" by (simp add: algebra_simps)
  also have "\<dots> \<le> 1" using cdf_poly_upper [OF assms] by simp
  finally have "w * t \<le> 1" .
  then have "ranged 0 1 (rnd (w * t))"
    using \<open>0 \<le> w\<close> assms by (intro ranged_rnd) auto
  then show ?thesis by (simp only: w(1) times_jsnum.simps)
qed

section \<open>The range of the distribution\<close>

text \<open>
  What is assumed of the engine's exponential: on arguments that are not positive it returns a
  number between 0 and 1 (also for $-\infty$), and NaN on NaN.
\<close>

definition exp_ok :: "(jsnum \<Rightarrow> jsnum) \<Rightarrow> bool" where
  "exp_ok mexp \<longleftrightarrow> mexp NaN = NaN \<and> (\<forall>z. z \<le> Fin 0 \<longrightarrow> ranged 0 1 (mexp z))"

lemma inv_ranged:
  assumes "nonneg_or_nan x"
  shows "N 1 / (N 1 + N cdf_p * x) = NaN \<or> ranged 0 1 (N 1 / (N 1 + N cdf_p * x))"
proof -
  have "nonneg_or_nan (N cdf_p)" by (rule nonneg_rnd) (simp add: cdf_p_def)
  then have "nonneg_or_nan (N cdf_p * x)" using assms by (rule nonneg_mult)
  then have "N 1 + N cdf_p * x = NaN \<or> N 1 + N cdf_p * x = PInf \<or> (\<exists>d. N 1 + N cdf_p * x = Fin d \<and> 1 \<le> d)"
  proof (cases "N cdf_p * x")
    case (Fin r)
    then have "0 \<le> r" using \<open>nonneg_or_nan (N cdf_p * x)\<close> by simp
    then have "1 \<le> rd64 (1 + r)" using binary64.mono [of 1 "1 + r"] by (simp add: binary64.one)
    moreover from this have "\<not> rd64 (1 + r) \<le> - pow2 1024" using pow2_pos [of 1024] by linarith
    ultimately have "rnd (1 + r) = PInf \<or> (\<exists>d. rnd (1 + r) = Fin d \<and> 1 \<le> d)"
      by (auto simp: rnd_overflow Let_def)
    then show ?thesis using Fin by simp
  qed auto
  then show ?thesis
  proof (elim disjE exE conjE)
    fix d assume "N 1 + N cdf_p * x = Fin d" "1 \<le> d"
    then show ?thesis using ranged_ratio [of 1 d] by simp
  qed simp_all
qed

lemma nan_simps [simp]:
  "x + NaN = NaN" "NaN * x = NaN" "x * NaN = NaN" "x - NaN = NaN" "NaN - x = NaN" "x / NaN = NaN"
  by (cases x; simp add: minus_jsnum_def)+

lemma nan_or_mult01:
  assumes "x = NaN \<or> ranged 0 1 x" and "y = NaN \<or> ranged 0 1 y"
  shows "x * y = NaN \<or> ranged 0 1 (x * y)"
  using assms ranged_mult [of 0 1 x 0 1 y] by auto

lemma normalCDF_range:
  assumes "exp_ok mexp"
  shows "normalCDF mexp x = NaN \<or> ranged 0 1 (normalCDF mexp x)"
proof -
  define a where "a = abs x / jsqrt (N 2)"
  define t where "t = N 1 / (N 1 + N cdf_p * a)"
  define q where "q = ((((N cdf_a5 * t + N cdf_a4) * t) + N cdf_a3) * t + N cdf_a2) * t + N cdf_a1"
  define y where "y = N 1 - q * t * mexp (- a * a)"
  define sg where "sg = (if x < Fin 0 then N (- 1) else N 1)"
  have n: "normalCDF mexp x = N (1 / 2) * (N 1 + sg * y)"
    by (simp add: normalCDF_def Let_def a_def t_def q_def y_def sg_def)
  have "nonneg_or_nan (abs x)" by (cases x) auto
  then have a: "nonneg_or_nan a" unfolding a_def using jsqrt_nonneg by (rule nonneg_div)
  then have t: "t = NaN \<or> ranged 0 1 t" unfolding t_def by (rule inv_ranged)
  have "q * t = NaN \<or> ranged 0 1 (q * t)"
    using t
  proof
    assume "ranged 0 1 t"
    then obtain r where r: "t = Fin r" "0 \<le> r" "r \<le> 1" by (auto elim: rangedE)
    have "ranged 0 1 (q * t)" unfolding q_def r(1) by (rule cdf_tail_ranged [OF r(2,3)])
    then show ?thesis ..
  qed simp
  moreover have "mexp (- a * a) = NaN \<or> ranged 0 1 (mexp (- a * a))"
  proof -
    have "- a * a = NaN \<or> - a * a \<le> Fin 0"
    proof (cases a)
      case (Fin r)
      have "- a * a = - rnd (r * r)" using Fin rnd_uminus [of "r * r"] by simp
      moreover have "nonneg_or_nan (rnd (r * r))" by (rule nonneg_rnd) simp
      ultimately show ?thesis by (cases "rnd (r * r)") auto
    qed (use a in auto)
    then show ?thesis using assms by (auto simp: exp_ok_def)
  qed
  ultimately have z: "q * t * mexp (- a * a) = NaN \<or> ranged 0 1 (q * t * mexp (- a * a))"
    by (rule nan_or_mult01)
  then have y: "y = NaN \<or> ranged 0 1 y"
    using ranged_diff [of 1 1 "N 1" 0 1 "q * t * mexp (- a * a)"] by (auto simp: y_def)
  have s: "sg * y = NaN \<or> ranged (- 1) 1 (sg * y)"
    using y
  proof
    assume "ranged 0 1 y"
    then obtain r where "y = Fin r" "0 \<le> r" "r \<le> 1" by (auto elim: rangedE)
    moreover have "N (- 1) = Fin (- 1)" using rnd_of_int [of "- 1"] by simp
    ultimately show ?thesis by (auto simp: sg_def intro!: ranged_rnd)
  qed simp
  then show ?thesis
  proof
    assume "ranged (- 1) 1 (sg * y)"
    then have "ranged (1 + - 1) (1 + 1) (N 1 + sg * y)" by (intro ranged_add) auto
    then obtain r where r: "N 1 + sg * y = Fin r" "0 \<le> r" "r \<le> 2" by (auto elim: rangedE)
    have half: "N (1 / 2) = Fin (1 / 2)"
      using binary64.exact [of 1 "- 1"] rnd_small [of "1 / 2"] by (simp add: pow2_def)
    have "ranged 0 1 (rnd (1 / 2 * r))" using r by (intro ranged_rnd) auto
    then have "ranged 0 1 (Fin (1 / 2) * Fin r)" by simp
    then show ?thesis unfolding n r(1) half ..
  qed (simp add: n)
qed


text \<open>
  For every input, NaN and infinities included, the reported delta of a call is NaN or between
  0 and 1 and the delta of anything else NaN or between $-1$ and 0, after all roundings and the
  rounding to four decimals; the fallback's delta obeys the same bounds.
\<close>

definition delta_in_range :: "bool \<Rightarrow> jsnum \<Rightarrow> bool" where
  "delta_in_range isCall v \<longleftrightarrow> v = NaN \<or> (if isCall then ranged 0 1 v else ranged (- 1) 0 v)"

lemma delta_of_range:
  assumes "exp_ok mexp"
  shows "delta_in_range c (fixed_num d (delta_of mexp c x))"
proof (cases "normalCDF mexp x = NaN")
  case True
  then show ?thesis by (simp add: delta_in_range_def delta_of_def)
next
  case False
  then have r: "ranged 0 1 (normalCDF mexp x)" using normalCDF_range [OF assms] by blast
  then have "ranged (0 - 1) (1 - 1) (normalCDF mexp x - Fin 1)" by (intro ranged_diff) auto
  then have "ranged (- 1) 0 (normalCDF mexp x - Fin 1)" by simp
  then show ?thesis
    using r fixed_num_ranged [of 0 1] fixed_num_ranged [of "- 1" 0]
    by (simp add: delta_in_range_def delta_of_def)
qed

theorem delta_bounds:
  assumes "exp_ok mexp"
  shows "delta_in_range (strict_eq (p_optionType p) (Str ''CE'')) (g_delta (calculateGreeks mexp mlog p))
    \<and> delta_in_range (strict_eq (p_optionType p) (Str ''CE'')) (g_delta (fallbackCalculateGreeks mexp mlog p))"
proof -
  let ?c = "strict_eq (p_optionType p) (Str ''CE'')"
  have "g_delta (calculateGreeks mexp mlog p) = Fin 0 \<or>
      (\<exists>x. g_delta (calculateGreeks mexp mlog p) = fixed_num 4 (delta_of mexp ?c x))"
    by (auto simp: calculateGreeks_def Let_def split: prod.splits)
  moreover have "g_delta (fallbackCalculateGreeks mexp mlog p) = Fin 0 \<or>
      (\<exists>x. g_delta (fallbackCalculateGreeks mexp mlog p) = fixed_num 4 (delta_of mexp ?c x))"
    unfolding fallbackCalculateGreeks_def Let_def delta_of_def [symmetric] by auto
  moreover have "delta_in_range ?c (Fin 0)" by (simp add: delta_in_range_def)
  ultimately show ?thesis using delta_of_range [OF assms, of ?c 4] by metis
qed

text \<open>An exponential that is 1 at 0 and 0 below, for concrete instances.\<close>

definition step_exp :: "jsnum \<Rightarrow> jsnum" where
  "step_exp z = (if z = NaN then NaN else if z < Fin 0 then Fin 0 else Fin 1)"

lemma step_exp_ok: "exp_ok step_exp"
  by (auto simp: exp_ok_def step_exp_def)

definition sample_params :: greeks_params where
  "sample_params =
     \<lparr>p_spot = N 22000, p_strike = N 22100, p_timeToExpiry = N 7, p_riskFreeRate = Some (N (7 / 100)),
      p_volatility = N (15 / 100), p_optionType = Str ''CE''\<rparr>"

theorem delta_bounds_witness:
  "delta_in_range True (g_delta (calculateGreeks step_exp (\<lambda>x. x - Fin 1) sample_params))"
  using delta_bounds [OF step_exp_ok, of sample_params "\<lambda>x. x - Fin 1"] by (simp add: sample_params_def)

section \<open>Worker and fallback\<close>

text \<open>
  C14: The fallback reports the same delta and implied volatility as the worker whenever spot and
  strike are not refused, the two guards pass and the interest rate is missing or a truthy
  number.  A rate of zero separates them: the worker computes with five per cent.
\<close>

theorem fallback_agrees:
  assumes "\<not> p_spot p \<le> Fin 0" and "\<not> p_strike p \<le> Fin 0"
    and "\<not> p_timeToExpiry p \<le> Fin 0" and "\<not> p_volatility p \<le> Fin 0"
    and "\<forall>r. p_riskFreeRate p = Some r \<longrightarrow> num_truthy r"
  shows "g_delta (fallbackCalculateGreeks mexp mlog p) = g_delta (calculateGreeks mexp mlog p)
    \<and> g_iv (fallbackCalculateGreeks mexp mlog p) = g_iv (calculateGreeks mexp mlog p)
    \<and> calculateGreeks mexp mlog (p\<lparr>p_riskFreeRate := Some (Fin 0)\<rparr>)
        = calculateGreeks mexp mlog (p\<lparr>p_riskFreeRate := Some (N (5 / 100))\<rparr>)"
proof -
  have "or_num (p_riskFreeRate p) (N (5 / 100)) =
      (case p_riskFreeRate p of Some r \<Rightarrow> r | None \<Rightarrow> N (5 / 100))"
    using assms(5) by (auto simp: or_num_def num_or_def split: option.splits)
  moreover have "or_num (Some (Fin 0)) (N (5 / 100)) = or_num (Some (N (5 / 100))) (N (5 / 100))"
    by (simp add: or_num_def num_or_def)
  ultimately show ?thesis
    using assms(1-4)
    by (simp add: calculateGreeks_def fallbackCalculateGreeks_def invalid_params_def calculateD1D2_def
        delta_of_def Let_def)
qed

theorem fallback_agrees_witness:
  "g_delta (fallbackCalculateGreeks step_exp (\<lambda>x. x) sample_params) = g_delta (calculateGreeks step_exp (\<lambda>x. x) sample_params)"
proof -
  have pos: "\<not> N (7 / 100) \<le> Fin 0 \<and> num_truthy (N (7 / 100)) \<and> \<not> N (15 / 100) \<le> Fin 0" by code_simp
  show ?thesis
    using fallback_agrees [of sample_params step_exp "\<lambda>x. x"] pos by (simp add: sample_params_def)
qed

text \<open>
  An expired option is reported with its implied volatility as a fraction, a live one in
  per cent: the two exits of the calculation use different units.
\<close>

theorem iv_units_differ:
  assumes "o_iv opt1 = N 15"
  shows "(o_daysToExpiry opt1 = Fin 0 \<longrightarrow> g_iv (calculateGreeks mexp mlog (option_params s r opt1)) = N (15 / 100))
    \<and> (o_daysToExpiry opt1 = Fin 1 \<and> \<not> s \<le> Fin 0 \<and> \<not> o_strike opt1 \<le> Fin 0 \<longrightarrow>
        g_iv (calculateGreeks mexp mlog (option_params s r opt1)) = N 15)"
proof -
  have v: "N 15 / N 100 = N (15 / 100)" by simp
  have t: "num_truthy (N (15 / 100)) \<and> \<not> N (15 / 100) \<le> Fin 0" by code_simp
  have f: "fixed_num 2 (N (15 / 100) * N 100) = N 15" by code_simp
  show ?thesis
    using assms t f v
    by (auto simp: calculateGreeks_def option_params_def invalid_params_def num_or_def Let_def
        simp del: rnd_numeral split: prod.splits)
qed

theorem iv_units_differ_witness:
  "g_iv (calculateGreeks step_exp (\<lambda>x. x) (option_params (N 100) None
     \<lparr>o_strike = N 100, o_daysToExpiry = Fin 0, o_iv = N 15, o_type = Str ''CE''\<rparr>)) = N (15 / 100)"
  using iv_units_differ [of "\<lparr>o_strike = N 100, o_daysToExpiry = Fin 0, o_iv = N 15, o_type = Str ''CE''\<rparr>"
      step_exp "\<lambda>x. x" "N 100" None] by (simp del: rnd_numeral)

section \<open>Every request settles at most once\<close>

inductive_cases pending_stepE: "pending_step s s'"

definition pending_inv :: "pending_state \<Rightarrow> bool" where
  "pending_inv s \<longleftrightarrow>
     distinct (pe_pending s @ map fst (pe_settled s)) \<and>
     set (pe_pending s) \<union> fst ` set (pe_settled s) = {1..pe_requestId s}"

lemma settle_inv:
  assumes "pending_inv s"
  shows "pending_inv (settle rid v s)"
proof (cases "rid \<in> set (pe_pending s)")
  case True
  then have "set (filter (\<lambda>i. i \<noteq> rid) (pe_pending s)) \<union> fst ` set ((rid, v) # pe_settled s) =
      set (pe_pending s) \<union> fst ` set (pe_settled s)" by auto
  then show ?thesis using assms True by (auto simp: pending_inv_def settle_def)
qed (use assms in \<open>simp add: settle_def\<close>)

lemma pending_step_inv: "pending_step s s' \<Longrightarrow> pending_inv s \<Longrightarrow> pending_inv s'"
proof (induction rule: pending_step.induct)
  case (send s)
  have "{1..Suc n} = insert (Suc n) {1..n}" for n by auto
  moreover have "Suc (pe_requestId s) \<notin> set (pe_pending s) \<union> fst ` set (pe_settled s)"
    using send by (simp add: pending_inv_def)
  ultimately show ?case using send by (auto simp: pending_inv_def sendToWorker_def Let_def)
next
  case (message s r)
  then show ?case by (cases r) (auto intro: settle_inv)
next
  case (timeout s rid)
  then show ?case by (simp add: request_timeout_def settle_inv)
qed

lemma settled_grow: "pending_step s s' \<Longrightarrow> \<exists>new. pe_settled s' = new @ pe_settled s"
proof (induction rule: pending_step.induct)
  case (message s r)
  then show ?case by (cases r) (auto simp: settle_def)
qed (auto simp: sendToWorker_def Let_def settle_def request_timeout_def)

text \<open>
  C13: In every interleaving of requests, answers (late, duplicated or for unknown numbers
  included) and time-outs, each request made so far is either pending or settled exactly once,
  a settlement is never changed later, and the time-out of a pending request settles it.
\<close>

theorem requests_settle_once:
  assumes "pending_step\<^sup>*\<^sup>* pending_initial s" and "pending_step\<^sup>*\<^sup>* s s'"
  shows "distinct (pe_pending s @ map fst (pe_settled s))
    \<and> set (pe_pending s) \<union> fst ` set (pe_settled s) = {1..pe_requestId s}
    \<and> (\<exists>new. pe_settled s' = new @ pe_settled s)
    \<and> (\<forall>rid \<in> {1..pe_requestId s}. \<exists>v. (rid, v) \<in> set (pe_settled (request_timeout rid s)))"
proof -
  have i: "pending_inv s"
    using assms(1)
  proof (induction rule: rtranclp_induct)
    case base
    then show ?case by (simp add: pending_inv_def pending_initial_def)
  next
    case (step y z)
    then show ?case using pending_step_inv by blast
  qed
  have g: "\<exists>new. pe_settled s' = new @ pe_settled s"
    using assms(2)
  proof (induction rule: rtranclp_induct)
    case (step y z)
    then show ?case using settled_grow by (metis append.assoc)
  qed simp
  have "\<exists>v. (rid, v) \<in> set (pe_settled (request_timeout rid s))" if "rid \<in> {1..pe_requestId s}" for rid
  proof (cases "rid \<in> set (pe_pending s)")
    case True
    then show ?thesis by (auto simp: request_timeout_def settle_def)
  next
    case False
    then have "rid \<in> fst ` set (pe_settled s)" using i that unfolding pending_inv_def by blast
    then show ?thesis using False by (auto simp: request_timeout_def settle_def)
  qed
  then show ?thesis using i g by (simp add: pending_inv_def)
qed

theorem requests_settle_once_witness:
  "\<exists>s. pending_step\<^sup>*\<^sup>* pending_initial s \<and> pe_requestId s = 1 \<and> distinct (pe_pending s @ map fst (pe_settled s))"
proof -
  have 1: "pending_step\<^sup>*\<^sup>* pending_initial (snd (sendToWorker pending_initial))"
    by (rule r_into_rtranclp) (rule pending_step.send)
  from requests_settle_once [OF 1 rtranclp.rtrancl_refl] 1 show ?thesis
    by (intro exI [of _ "snd (sendToWorker pending_initial)"]) (simp add: sendToWorker_def pending_initial_def Let_def)
qed

end
