(* ===== verification/Js_Sim.thy ===== *)
theory Js_Sim
  imports Js_Json
begin

text \<open>
  Refinement of a stateful component by the specification of what it promises: a relation
  between the states that every step keeps, as long as the environment behaves (the clock does
  not run backwards, for instance).  The observations a client makes are part of the states.
\<close>

fun admissible :: "('i \<Rightarrow> 'a \<Rightarrow> bool) \<Rightarrow> ('i \<Rightarrow> 'a \<Rightarrow> 'a) \<Rightarrow> 'i list \<Rightarrow> 'a \<Rightarrow> bool" where
  "admissible allowed step [] a = True"
| "admissible allowed step (i # is) a = (allowed i a \<and> admissible allowed step is (step i a))"

lemma admissible_append:
  "admissible allowed step (is @ js) a =
     (admissible allowed step is a \<and> admissible allowed step js (fold step is a))"
  by (induction "is" arbitrary: a) auto

locale simulation =
  fixes related :: "'c \<Rightarrow> 'a \<Rightarrow> bool"
    and allowed :: "'i \<Rightarrow> 'a \<Rightarrow> bool"
    and cstep :: "'i \<Rightarrow> 'c \<Rightarrow> 'c"
    and astep :: "'i \<Rightarrow> 'a \<Rightarrow> 'a"
  assumes step: "related c a \<Longrightarrow> allowed i a \<Longrightarrow> related (cstep i c) (astep i a)"
begin

lemma run:
  "related c a \<Longrightarrow> admissible allowed astep is a \<Longrightarrow> related (fold cstep is c) (fold astep is a)"
  by (induction "is" arbitrary: c a) (auto intro: step)

lemma abstract_invariant:
  assumes "I a" and "\<And>i a. I a \<Longrightarrow> allowed i a \<Longrightarrow> I (astep i a)"
    and "admissible allowed astep is a"
  shows "I (fold astep is a)"
  using assms(1,3)
proof (induction "is" arbitrary: a)
  case (Cons i "is")
  have "I (astep i a)" using Cons.prems by (intro assms(2)) auto
  then show ?case using Cons by simp
qed simp

end

end
