(* ===== verification/Api_Client.thy ===== *)
theory Api_Client
  imports Auth_Slice Js_Sim
begin

text \<open>
  The shared HTTP client (src/services/apiClient.js): the request interceptor that adds the
  token, the response interceptor that reacts to failures, the rate limiter of error toasts
  with its history, and \<open>apiRequest\<close>.  axios and react-toastify are libraries: the model
  records the toasts that are shown and the page the browser is sent to.
\<close>

section \<open>The rate limiter of toasts\<close>

text \<open>Keys of a \<open>Map\<close>: primitives by value, an array or object only with itself.\<close>

fun is_primitive :: "jsval \<Rightarrow> bool" where
  "is_primitive (Arr _) = False"
| "is_primitive (Obj _) = False"
| "is_primitive _ = True"

definition same_key :: "jsval \<Rightarrow> jsval \<Rightarrow> bool" where
  "same_key a b \<longleftrightarrow> a = b \<and> is_primitive a"

type_synonym toast_times = "(jsval \<times> int) list"

record toasts =
  toastHistory :: toast_times
  shown :: toast_times

definition toasts_initial :: toasts where
  "toasts_initial = \<lparr>toastHistory = [], shown = []\<rparr>"

definition TOAST_COOLDOWN_MS :: int where
  "TOAST_COOLDOWN_MS = 5000"

definition history_get :: "jsval \<Rightarrow> toast_times \<Rightarrow> int option" where
  "history_get m h = map_option snd (find (\<lambda>p. same_key (fst p) m) h)"

fun history_set :: "jsval \<Rightarrow> int \<Rightarrow> toast_times \<Rightarrow> toast_times" where
  "history_set m t [] = [(m, t)]"
| "history_set m t (p # h) = (if same_key (fst p) m then (fst p, t) # h else p # history_set m t h)"

text \<open>A missing time and the time 0 both read as 0.\<close>

definition rate_limited_error :: "int \<Rightarrow> jsval \<Rightarrow> toasts \<Rightarrow> toasts" where
  "rate_limited_error now m s =
     (let lastShown = (case history_get m (toastHistory s) of Some t \<Rightarrow> t | None \<Rightarrow> 0)
      in if now - lastShown > TOAST_COOLDOWN_MS then
           let h = history_set m now (toastHistory s);
               cutoff = now - TOAST_COOLDOWN_MS;
               h' = (if length h > 20 then filter (\<lambda>p. \<not> snd p < cutoff) h else h)
           in s\<lparr>toastHistory := h', shown := shown s @ [(m, now)]\<rparr>
         else s)"

section \<open>The interceptors\<close>

record client =
  c_env :: auth_env
  c_toasts :: toasts
  c_pathname :: string
  c_href :: "string option"

text \<open>The token comes from \<open>localStorage\<close> only.\<close>

definition request_interceptor :: "client \<Rightarrow> http_request \<Rightarrow> http_request" where
  "request_interceptor c config =
     (let token = local_item (c_env c) ''authToken''
      in if str_truthy token
         then config\<lparr>r_headers := put ''Authorization'' (''Bearer '' @ the token) (r_headers config)\<rparr>
         else config)"

definition toast_error :: "int \<Rightarrow> jsval \<Rightarrow> client \<Rightarrow> client" where
  "toast_error now m c = c\<lparr>c_toasts := rate_limited_error now m (c_toasts c)\<rparr>"

definition unauthorized :: "client \<Rightarrow> client" where
  "unauthorized c =
     (let e = c_env c;
          c1 = c\<lparr>c_env := e\<lparr>a_local := remove_items [''authToken'', ''user''] (a_local e)\<rparr>\<rparr>
      in if c_pathname c \<noteq> ''/login'' then c1\<lparr>c_href := Some ''/login''\<rparr> else c1)"

text \<open>\<open>switch (response.status)\<close>.\<close>

definition status_is :: "jsval \<Rightarrow> int \<Rightarrow> bool" where
  "status_is response n = strict_eq (opt response ''status'') (Num (jint n))"

definition on_status :: "int \<Rightarrow> jsval \<Rightarrow> client \<Rightarrow> client" where
  "on_status now response c =
     (if status_is response 401 then unauthorized c
      else if status_is response 403
        then toast_error now (Str ''You do not have permission to perform this action'') c
      else if status_is response 404 then c
      else if status_is response 500
        then toast_error now (Str ''Server error. Please try again later.'') c
      else
        let detail = opt (opt response ''data'') ''detail''
        in if truthy detail then toast_error now detail c else c)"

text \<open>The rejection is passed on; only an error that is no object makes the interceptor throw.\<close>

definition response_error :: "int \<Rightarrow> bool \<Rightarrow> jsval \<Rightarrow> client \<Rightarrow> js_error \<times> client" where
  "response_error now onLine error c =
     (case get error ''response'' of
        Inl e \<Rightarrow> (e, c)
      | Inr response \<Rightarrow>
          (Thrown error,
           if truthy response then on_status now response c
           else if strict_eq (opt error ''code'') (Str ''ECONNABORTED'')
             then toast_error now (Str ''Request timed out. Please check your connection.'') c
           else if \<not> onLine then toast_error now (Str ''No internet connection'') c
           else c))"

section \<open>Requests\<close>

text \<open>
  \<open>apiClient.get\<close> and its siblings: the request on the wire and, for the outcome the
  network gives it, what the awaiting code sees.
\<close>

definition api_send :: "client \<Rightarrow> http_request \<Rightarrow> http_request" where
  "api_send = request_interceptor"

definition api_settle ::
    "int \<Rightarrow> bool \<Rightarrow> jsval result \<Rightarrow> client \<Rightarrow> jsval result \<times> client" where
  "api_settle now onLine outcome c =
     (case outcome of
        Inr response \<Rightarrow> (Inr response, c)
      | Inl TypeError \<Rightarrow> (Inl TypeError, c)
      | Inl (Thrown error) \<Rightarrow>
          (case response_error now onLine error c of (e, c') \<Rightarrow> (Inl e, c')))"

definition apiRequest :: "jsval result \<Rightarrow> jsval result" where
  "apiRequest outcome =
     (case response_data outcome of
        Inr d \<Rightarrow> Inr (Obj [(''data'', d), (''error'', Null)])
      | Inl e \<Rightarrow>
          res_bind (get (caught e) ''response'') (\<lambda>response.
            Inr (Obj [(''data'', Null),
                      (''error'', js_or (opt (opt response ''data'') ''detail'')
                                  (js_or (opt (caught e) ''message'') (Str ''An error occurred'')))])))"

section \<open>Properties\<close>

text \<open>
  What the rate limiter promises, without its history: the log of the toasts shown, and a
  toast is shown unless an equal message was shown in the last five seconds.
\<close>

type_synonym toast_log = "int \<times> toast_times"

definition spec_error :: "int \<times> jsval \<Rightarrow> toast_log \<Rightarrow> toast_log" where
  "spec_error call l =
     (case call of (now, m) \<Rightarrow>
        (now, if \<exists>p \<in> set (snd l). same_key (fst p) m \<and> now - snd p \<le> TOAST_COOLDOWN_MS
              then snd l else snd l @ [(m, now)]))"

definition toast_call :: "int \<times> jsval \<Rightarrow> toasts \<Rightarrow> toasts" where
  "toast_call call s = rate_limited_error (fst call) (snd call) s"

definition clock_forward :: "int \<times> jsval \<Rightarrow> toast_log \<Rightarrow> bool" where
  "clock_forward call l \<longleftrightarrow> fst l \<le> fst call"

definition keys_distinct :: "toast_times \<Rightarrow> bool" where
  "keys_distinct h \<longleftrightarrow> sorted_wrt (\<lambda>p q. \<not> same_key (fst p) (fst q)) h"

text \<open>
  The history knows every toast of the last five seconds and holds only toasts of the log; the
  log is not newer than the clock, which is past the first five seconds of 1970.
\<close>

definition history_ok :: "toasts \<Rightarrow> toast_log \<Rightarrow> bool" where
  "history_ok s l \<longleftrightarrow>
     shown s = snd l \<and> keys_distinct (toastHistory s) \<and> TOAST_COOLDOWN_MS < fst l \<and> (\<forall>p \<in> set (snd l). snd p \<le> fst l) \<and>
     (\<forall>m t. history_get m (toastHistory s) = Some t \<longrightarrow>
        (\<exists>p \<in> set (snd l). same_key (fst p) m \<and> snd p = t)) \<and>
     (\<forall>p \<in> set (snd l). is_primitive (fst p) \<and> fst l - snd p \<le> TOAST_COOLDOWN_MS \<longrightarrow>
        (\<exists>t \<ge> snd p. history_get (fst p) (toastHistory s) = Some t))"

lemma same_key_facts:
  "same_key a m \<Longrightarrow> a = m" "is_primitive m \<Longrightarrow> same_key m m" "same_key a m \<Longrightarrow> is_primitive m"
  by (auto simp: same_key_def)

lemma history_get_Cons [simp]:
  "history_get m (p # h) = (if same_key (fst p) m then Some (snd p) else history_get m h)"
  by (simp add: history_get_def)

lemma history_get_Nil [simp]: "history_get m [] = None"
  by (simp add: history_get_def)

lemma history_get_set:
  "history_get j (history_set m t h) = (if same_key m j then Some t else history_get j h)"
  by (induction h) (auto simp: same_key_def)

text \<open>Dropping old entries: keys are distinct, so a lookup finds the same entry or none.\<close>

lemma history_get_filter_None:
  "history_get m h = None \<Longrightarrow> history_get m (filter P h) = None"
  by (induction h) (auto split: if_splits)

lemma history_get_filter:
  "keys_distinct h \<Longrightarrow> history_get m (filter P h) =
     (case history_get m h of Some t \<Rightarrow> if P (m, t) then Some t else None | None \<Rightarrow> None)"
proof (induction h)
  case (Cons p h)
  show ?case
  proof (cases "same_key (fst p) m")
    case True
    then have p: "p = (m, snd p)" by (cases p) (simp add: same_key_def)
    have "history_get m h = None"
    proof -
      have "\<not> same_key (fst q) m" if "q \<in> set h" for q
        using Cons.prems that True by (auto simp: keys_distinct_def same_key_def)
      then show ?thesis by (force simp: history_get_def find_None_iff)
    qed
    then have rest: "history_get m (filter P h) = None" by (rule history_get_filter_None)
    have "history_get m (p # h) = Some (snd p)" using True by simp
    moreover have "history_get m (filter P (p # h)) = (if P p then Some (snd p) else None)"
      using True rest by (cases "P p") simp_all
    ultimately show ?thesis using p by (simp only: option.case)
  next
    case False
    then show ?thesis using Cons by (auto simp: keys_distinct_def)
  qed
qed simp

lemma keys_distinct_set: "keys_distinct h \<Longrightarrow> keys_distinct (history_set m t h)"
proof -
  have "fst ` set (history_set m t h) \<subseteq> insert m (fst ` set h)" for h
    by (induction h) (auto simp: same_key_def)
  moreover assume "keys_distinct h"
  ultimately show ?thesis
    by (induction h) (force simp: keys_distinct_def same_key_def)+
qed

lemma keys_distinct_filter: "keys_distinct h \<Longrightarrow> keys_distinct (filter P h)"
  by (simp add: keys_distinct_def sorted_wrt_filter)


text \<open>One call, with the clean-up: the history after it.\<close>

lemma rate_limited_error_shows:
  assumes "history_get m (toastHistory s) = None \<or>
      (\<exists>t. history_get m (toastHistory s) = Some t \<and> now - t > TOAST_COOLDOWN_MS)"
    and "TOAST_COOLDOWN_MS < now" and "keys_distinct (toastHistory s)"
  shows "shown (rate_limited_error now m s) = shown s @ [(m, now)]"
    and "keys_distinct (toastHistory (rate_limited_error now m s))"
    and "history_get j (toastHistory (rate_limited_error now m s)) = Some t \<Longrightarrow>
           (same_key m j \<and> t = now) \<or> history_get j (toastHistory s) = Some t"
    and "same_key m j \<Longrightarrow> history_get j (toastHistory (rate_limited_error now m s)) = Some now"
    and "history_get j (toastHistory s) = Some t \<Longrightarrow> now - t \<le> TOAST_COOLDOWN_MS \<Longrightarrow> t \<le> now \<Longrightarrow>
           \<exists>t' \<ge> t. history_get j (toastHistory (rate_limited_error now m s)) = Some t'"
proof -
  define h where "h = history_set m now (toastHistory s)"
  define r where "r = (if length h > 20 then filter (\<lambda>p. \<not> snd p < now - TOAST_COOLDOWN_MS) h else h)"
  have run: "rate_limited_error now m s = s\<lparr>toastHistory := r, shown := shown s @ [(m, now)]\<rparr>"
    using assms(1,2) by (auto simp: rate_limited_error_def h_def r_def Let_def TOAST_COOLDOWN_MS_def)
  have d: "keys_distinct h" unfolding h_def by (rule keys_distinct_set [OF assms(3)])
  have hist: "history_get j h = (if same_key m j then Some now else history_get j (toastHistory s))" for j
    by (simp add: h_def history_get_set)
  have r: "history_get j r = (case history_get j h of
      Some t \<Rightarrow> if length h > 20 \<and> t < now - TOAST_COOLDOWN_MS then None else Some t | None \<Rightarrow> None)" for j
    by (auto simp: r_def history_get_filter [OF d] split: option.splits)
  show "shown (rate_limited_error now m s) = shown s @ [(m, now)]" by (simp add: run)
  show "keys_distinct (toastHistory (rate_limited_error now m s))"
    using d keys_distinct_filter by (simp add: run r_def)
  show "history_get j (toastHistory (rate_limited_error now m s)) = Some t \<Longrightarrow>
           (same_key m j \<and> t = now) \<or> history_get j (toastHistory s) = Some t"
    by (auto simp: run r hist split: option.splits if_splits)
  show "same_key m j \<Longrightarrow> history_get j (toastHistory (rate_limited_error now m s)) = Some now"
    by (auto simp: run r hist TOAST_COOLDOWN_MS_def split: option.splits if_splits)
  show "history_get j (toastHistory s) = Some t \<Longrightarrow> now - t \<le> TOAST_COOLDOWN_MS \<Longrightarrow> t \<le> now \<Longrightarrow>
           \<exists>t' \<ge> t. history_get j (toastHistory (rate_limited_error now m s)) = Some t'"
    by (auto simp: run r hist TOAST_COOLDOWN_MS_def)
qed

lemma history_ok_step:
  assumes "history_ok s l" and "clock_forward call l"
  shows "history_ok (toast_call call s) (spec_error call l)"
proof -
  obtain now m where call: "call = (now, m)" by (cases call)
  obtain clk log where l: "l = (clk, log)" by (cases l)
  have le: "clk \<le> now" using assms(2) by (simp add: call l clock_forward_def)
  have ok: "shown s = log" "keys_distinct (toastHistory s)" "TOAST_COOLDOWN_MS < clk" "\<forall>p \<in> set log. snd p \<le> clk"
    and hist: "\<And>m t. history_get m (toastHistory s) = Some t \<Longrightarrow> \<exists>p \<in> set log. same_key (fst p) m \<and> snd p = t"
    and recent: "\<And>p. p \<in> set log \<Longrightarrow> is_primitive (fst p) \<Longrightarrow> clk - snd p \<le> TOAST_COOLDOWN_MS \<Longrightarrow>
        \<exists>t \<ge> snd p. history_get (fst p) (toastHistory s) = Some t"
    using assms(1) by (simp_all add: l history_ok_def)
  show ?thesis
  proof (cases "\<exists>p \<in> set log. same_key (fst p) m \<and> now - snd p \<le> TOAST_COOLDOWN_MS")
    case True
    then obtain p where p: "p \<in> set log" "fst p = m" "is_primitive m" "now - snd p \<le> TOAST_COOLDOWN_MS"
      by (auto simp: same_key_def)
    then obtain t where t: "t \<ge> snd p" "history_get m (toastHistory s) = Some t"
      using recent [of p] le by auto
    then have "toast_call call s = s"
      using p(4) by (simp add: toast_call_def rate_limited_error_def call)
    moreover have "spec_error call l = (now, log)" using True by (auto simp: spec_error_def call l)
    moreover have "history_ok s (now, log)"
      unfolding history_ok_def using ok hist recent le by fastforce
    ultimately show ?thesis by simp
  next
    case False
    have pre: "history_get m (toastHistory s) = None \<or>
        (\<exists>t. history_get m (toastHistory s) = Some t \<and> now - t > TOAST_COOLDOWN_MS)"
      using False hist [of m] by (cases "history_get m (toastHistory s)") force+
    have big: "TOAST_COOLDOWN_MS < now" using ok(3) le by simp
    note shows' = rate_limited_error_shows [OF pre big ok(2)]
    have "spec_error call l = (now, log @ [(m, now)])" using False by (auto simp: spec_error_def call l)
    moreover have "history_ok (rate_limited_error now m s) (now, log @ [(m, now)])"
      unfolding history_ok_def
    proof (intro conjI allI ballI impI)
      fix j t assume "history_get j (toastHistory (rate_limited_error now m s)) = Some t"
      from shows'(3) [OF this] hist [of j t]
      show "\<exists>p \<in> set (snd (now, log @ [(m, now)])). same_key (fst p) j \<and> snd p = t" by auto
    next
      fix p assume p: "p \<in> set (snd (now, log @ [(m, now)]))"
        "is_primitive (fst p) \<and> fst (now, log @ [(m, now)]) - snd p \<le> TOAST_COOLDOWN_MS"
      then consider "p = (m, now)" | "p \<in> set log" by auto
      then show "\<exists>t \<ge> snd p. history_get (fst p) (toastHistory (rate_limited_error now m s)) = Some t"
      proof cases
        case 1
        then show ?thesis using p(2) shows'(4) [of m] by (auto simp: same_key_def)
      next
        case 2
        then obtain t where t: "t \<ge> snd p" "history_get (fst p) (toastHistory s) = Some t"
          using recent [of p] p(2) le by auto
        have "t \<le> now" using hist [OF t(2)] ok(4) le by force
        then show ?thesis using shows'(5) [OF t(2)] t(1) p(2) by force
      qed
    qed (use shows'(1,2) ok le big in auto)
    ultimately show ?thesis by (simp add: toast_call_def call)
  qed
qed

interpretation limiter: simulation history_ok clock_forward toast_call spec_error
  by unfold_locales (rule history_ok_step)


text \<open>The specification itself keeps equal messages five seconds apart.\<close>

definition spaced :: "toast_log \<Rightarrow> bool" where
  "spaced l \<longleftrightarrow>
     sorted_wrt (\<lambda>p q. same_key (fst p) (fst q) \<longrightarrow> snd q - snd p > TOAST_COOLDOWN_MS) (snd l)"

lemma spaced_step: "spaced l \<Longrightarrow> spaced (spec_error call l)"
  by (cases call) (force simp: spaced_def spec_error_def sorted_wrt_append)

lemma admissible_calls:
  "sorted_wrt (\<lambda>c d. fst c \<le> fst d) calls \<Longrightarrow> (\<forall>c \<in> set calls. fst l \<le> fst c) \<Longrightarrow>
     admissible clock_forward spec_error calls l"
  by (induction calls arbitrary: l) (auto simp: clock_forward_def spec_error_def)

text \<open>C15: Whatever the interceptors ask for, the toasts shown are those of the specification: an
  error toast appears exactly when no equal message has appeared in the last five seconds, the
  clean-up of the history included, so equal messages are more than five seconds apart.\<close>

theorem toasts_refine_spec:
  assumes "sorted_wrt (\<lambda>c d. fst c \<le> fst d) calls" and "\<forall>c \<in> set calls. TOAST_COOLDOWN_MS < fst c"
  shows "shown (fold toast_call calls toasts_initial) = snd (fold spec_error calls (5001, []))
       \<and> spaced (fold spec_error calls (5001, []))"
proof -
  have adm: "admissible clock_forward spec_error calls (5001, [])"
    using assms by (intro admissible_calls) (auto simp: TOAST_COOLDOWN_MS_def)
  have "history_ok toasts_initial (5001, [])"
    by (simp add: history_ok_def toasts_initial_def keys_distinct_def TOAST_COOLDOWN_MS_def)
  from limiter.run [OF this adm]
  have "shown (fold toast_call calls toasts_initial) = snd (fold spec_error calls (5001, []))"
    by (simp add: history_ok_def)
  moreover have "spaced (5001, [])" by (simp add: spaced_def)
  then have "spaced (fold spec_error calls (5001, []))"
    by (rule limiter.abstract_invariant [OF _ _ adm]) (rule spaced_step)
  ultimately show ?thesis ..
qed

definition sample_calls :: "(int \<times> jsval) list" where
  "sample_calls = [(10000, Str ''a''), (12000, Str ''a''), (12000, Str ''b''), (15000, Str ''a''),
     (15001, Str ''a''), (15001, Arr [])]"

theorem toasts_refine_spec_witness:
  "shown (fold toast_call sample_calls toasts_initial)
     = [(Str ''a'', 10000), (Str ''b'', 12000), (Str ''a'', 15001), (Arr [], 15001)]"
proof -
  have "shown (fold toast_call sample_calls toasts_initial) = snd (fold spec_error sample_calls (5001, []))"
    by (rule toasts_refine_spec [THEN conjunct1]) (simp_all add: sample_calls_def TOAST_COOLDOWN_MS_def)
  also have "\<dots> = [(Str ''a'', 10000), (Str ''b'', 12000), (Str ''a'', 15001), (Arr [], 15001)]"
    by (simp add: sample_calls_def spec_error_def same_key_def TOAST_COOLDOWN_MS_def)
  finally show ?thesis .
qed

text \<open>The client reads the token from \<open>localStorage\<close> alone: while the user of a session is kept
  in \<open>sessionStorage\<close> (where the Firebase listener stores it again), every request of the client
  goes out without an \<open>Authorization\<close> header, although the store and axios carry the token.\<close>

theorem session_user_sends_no_token:
  assumes "\<not> uses_local (c_env c)" and "local_item (c_env c) ''authToken'' = None"
    and "c' = c\<lparr>c_env := store_user user token (c_env c)\<rparr>"
  shows "api_send c' req = req \<and> session_item (c_env c') ''authToken'' = Some token"
  using assms
  by (simp add: api_send_def request_interceptor_def store_user_def local_item_def session_item_def
      str_truthy_def map_of_put)

definition session_client :: client where
  "session_client =
     \<lparr>c_env = env_initial [] [(''user'', ''{}'')], c_toasts = toasts_initial, c_pathname = ''/'', c_href = None\<rparr>"

theorem session_user_sends_no_token_witness:
  "api_send (session_client\<lparr>c_env := store_user ''{}'' ''t'' (c_env session_client)\<rparr>) (http_get ''/x'' Undef)
     = http_get ''/x'' Undef"
  by (rule session_user_sends_no_token [where user = "''{}''" and token = "''t''" and c = session_client,
        THEN conjunct1])
    (simp_all add: session_client_def uses_local_def stored_def local_item_def session_item_def
      env_initial_def str_or_def str_truthy_def)

lemma status_is_unique: "status_is r m \<Longrightarrow> status_is r n \<Longrightarrow> \<bar>m\<bar> \<le> 2 ^ 53 \<Longrightarrow> \<bar>n\<bar> \<le> 2 ^ 53 \<Longrightarrow> m = n"
proof -
  have "num_eq x (Fin a) \<Longrightarrow> num_eq x (Fin b) \<Longrightarrow> a = b" for x a b
    by (cases x) (auto simp: num_eq_def)
  then show "status_is r m \<Longrightarrow> status_is r n \<Longrightarrow> \<bar>m\<bar> \<le> 2 ^ 53 \<Longrightarrow> \<bar>n\<bar> \<le> 2 ^ 53 \<Longrightarrow> m = n"
    by (cases "opt r ''status''") (fastforce simp: status_is_def jint_small)+
qed

lemma on_status_cases:
  "\<not> status_is r 401 \<Longrightarrow> on_status now r c = c \<or> (\<exists>m. on_status now r c = toast_error now m c)"
  unfolding on_status_def Let_def by (split if_split)+ blast

text \<open>How failures leave the client: the error is always passed on; a 401 removes token and user
  from \<open>localStorage\<close>, sends every page but the login page there and leaves \<open>sessionStorage\<close> and
  the default header as they were, so a session kept there is signed in again at the next start;
  a 404 changes nothing; no other failure touches storage or page.\<close>

theorem response_error_effect:
  assumes "response_error now onLine error c = (e, c')" and "\<not> nullish error"
  shows "e = Thrown error
     \<and> (if status_is (opt error ''response'') 401 \<and> truthy (opt error ''response'')
        then local_item (c_env c') ''authToken'' = None \<and> local_item (c_env c') ''user'' = None
             \<and> c_href c' = (if c_pathname c = ''/login'' then c_href c else Some ''/login'')
             \<and> a_session (c_env c') = a_session (c_env c) \<and> a_header (c_env c') = a_header (c_env c)
             \<and> c_toasts c' = c_toasts c
        else c_env c' = c_env c \<and> c_href c' = c_href c
             \<and> (status_is (opt error ''response'') 404 \<and> truthy (opt error ''response'') \<longrightarrow> c' = c))"
proof -
  define response where "response = opt error ''response''"
  have g: "get error ''response'' = Inr response" using assms(2) by (simp add: get_def response_def)
  have diff: "\<not> status_is response 403 \<and> \<not> status_is response 404" if "status_is response 401"
    using that status_is_unique [of response] by fastforce
  have diff2: "\<not> status_is response 403 \<and> \<not> status_is response 401" if "status_is response 404"
    using that status_is_unique [of response] by fastforce
  have e: "e = Thrown error" and c': "c' =
      (if truthy response then on_status now response c
       else if strict_eq (opt error ''code'') (Str ''ECONNABORTED'')
         then toast_error now (Str ''Request timed out. Please check your connection.'') c
       else if \<not> onLine then toast_error now (Str ''No internet connection'') c
       else c)"
    using assms(1) by (simp_all add: response_error_def g split: if_splits)
  have un: "local_item (c_env (unauthorized c)) ''authToken'' = None \<and> local_item (c_env (unauthorized c)) ''user'' = None
       \<and> c_href (unauthorized c) = (if c_pathname c = ''/login'' then c_href c else Some ''/login'')
       \<and> a_session (c_env (unauthorized c)) = a_session (c_env c) \<and> a_header (c_env (unauthorized c)) = a_header (c_env c)
       \<and> c_toasts (unauthorized c) = c_toasts c"
    by (simp add: unauthorized_def Let_def local_item_def get_remove_items)
  have toast: "c_env (toast_error now m c) = c_env c" "c_href (toast_error now m c) = c_href c" for m
    by (simp_all add: toast_error_def)
  show ?thesis
  proof (cases "status_is response 401 \<and> truthy response")
    case True
    then have "c' = unauthorized c" by (simp add: c' on_status_def)
    then show ?thesis using e True un unfolding response_def [symmetric] by simp
  next
    case False
    then have "c' = c \<or> (\<exists>m. c' = toast_error now m c)"
      using on_status_cases [of response now c] unfolding c' by (cases "truthy response") (simp, metis)
    moreover have "c' = c" if "status_is response 404" "truthy response"
      using that diff2 [OF that(1)] False by (simp add: c' on_status_def)
    ultimately show ?thesis using e False toast unfolding response_def [symmetric] by auto
  qed
qed

definition rejected_with :: "int \<Rightarrow> jsval" where
  "rejected_with n = Obj [(''response'', Obj [(''status'', Num (jint n))])]"

theorem response_error_effect_witness:
  "(case response_error 10000 True (rejected_with 401) session_client of
      (e, c') \<Rightarrow> e = Thrown (rejected_with 401) \<and> c_href c' = Some ''/login''
        \<and> a_session (c_env c') = [(''user'', ''{}'')])"
proof -
  obtain e c' where r: "response_error 10000 True (rejected_with 401) session_client = (e, c')"
    by (cases "response_error 10000 True (rejected_with 401) session_client")
  have "status_is (opt (rejected_with 401) ''response'') 401" "truthy (opt (rejected_with 401) ''response'')"
    by (simp_all add: rejected_with_def status_is_def jint_small)
  moreover have "\<not> nullish (rejected_with 401)" by (simp add: rejected_with_def)
  ultimately show ?thesis
    using response_error_effect [OF r]
    unfolding r by (simp add: session_client_def env_initial_def)
qed

end
