(* ===== verification/Js_Roundtrip.thy ===== *)
theory Js_Roundtrip
  imports Js_Format
begin

text \<open>
  \<open>JSON.parse\<close> undoes \<open>JSON.stringify\<close>: first for strings, with every escape the printer
  writes.
\<close>

section \<open>Strings\<close>

lemma char_code_range: "0 \<le> char_code c \<and> char_code c < 256"
proof -
  have "(of_char c :: nat) = of_char c mod 256" by simp
  then have "(of_char c :: nat) < 256" by (metis mod_less_divisor zero_less_numeral)
  then show ?thesis by (simp add: char_code_def)
qed

lemma char_of_code [simp]: "char_of (nat (char_code c)) = c"
  by (simp add: char_code_def)

lemma char_code_eq: "char_code c = char_code d \<longleftrightarrow> c = d"
  by (metis char_of_code)

lemma char_code_char_of: "0 \<le> n \<Longrightarrow> n < 256 \<Longrightarrow> char_code (char_of (nat n)) = n"
  by (simp add: char_code_def)

lemma hex_val_digit: "0 \<le> n \<Longrightarrow> n < 16 \<Longrightarrow> hex_val (hex_digit n) = Some n"
  by (simp add: hex_val_def hex_digit_def digit_char_def char_code_char_of)


lemma control_code: "char_code c < 32 \<Longrightarrow> char_code c div 16 < 16 \<and> char_code c mod 16 < 16
    \<and> 16 * (char_code c div 16) + char_code c mod 16 = char_code c"
  using char_code_range [of c] by auto

lemma json_string_char:
  "json_string (json_char c @ t) = map_option (\<lambda>(u, r). (c # u, r)) (json_string t)"
proof (cases "char_code c < 32")
  case False
  then show ?thesis
    by (cases "json_string t") (auto simp: json_char_def escape_char_def char_code_def)
next
  case True
  have cc: "0 \<le> char_code c" using char_code_range [of c] by simp
  let ?h = "char_code c div 16" and ?l = "char_code c mod 16"
  have hl: "hex_val (hex_digit ?h) = Some ?h" "hex_val (hex_digit ?l) = Some ?l"
    using True cc by (auto intro!: hex_val_digit)
  have z: "hex_val (CHR ''0'') = Some 0" by (simp add: hex_val_def char_code_def)
  have u: "utf8 (16 * ?h + ?l) = [c]"
    using True cc by (simp add: utf8_def chr_def)
  show ?thesis
  proof (cases "c \<in> {CHR 0x08, CHR 0x0C, CHR 0x0A, CHR 0x0D, CHR 0x09}")
    case True
    then show ?thesis
      by (cases "json_string t") (auto simp: json_char_def escape_char_def char_code_def)
  next
    case False
    moreover have "c \<noteq> CHR ''\"''" "c \<noteq> CHR 0x5C" using True by (auto simp: char_code_def)
    ultimately have "json_char c = [CHR 0x5C, CHR ''u'', CHR ''0'', CHR ''0'', hex_digit ?h, hex_digit ?l]"
      using True by (simp add: json_char_def)
    moreover have "json_string (CHR 0x5C # CHR ''u'' # CHR ''0'' # CHR ''0'' # hex_digit ?h # hex_digit ?l # t)
        = map_option (\<lambda>(u, r). (c # u, r)) (json_string t)"
      using hl z u by (cases "json_string t") (auto simp: char_code_def)
    ultimately show ?thesis by simp
  qed
qed

lemma json_string_quote:
  "json_string (concat (map json_char s) @ CHR ''\"'' # rest) = Some (s, rest)"
  by (induction s) (simp_all add: json_string_char)

lemma json_quote_split: "json_quote s @ rest = CHR ''\"'' # concat (map json_char s) @ CHR ''\"'' # rest"
  by (simp add: json_quote_def)

lemma json_quote_inj: "json_quote s @ x = json_quote t @ y \<longleftrightarrow> s = t \<and> x = y"
proof
  assume "json_quote s @ x = json_quote t @ y"
  then have "json_string (concat (map json_char s) @ CHR ''\"'' # x) = json_string (concat (map json_char t) @ CHR ''\"'' # y)"
    by (simp only: json_quote_split list.inject)
  then show "s = t \<and> x = y" by (simp add: json_string_quote)
qed simp

lemma json_quote_eq [simp]: "json_quote s = json_quote t \<longleftrightarrow> s = t"
  using json_quote_inj [of s "[]" t "[]"] by simp

end
