(* ===== verification/Options_Service.thy ===== *)
theory Options_Service
  imports Api_Client Js_Roundtrip
begin

text \<open>
  The options service (src/services/optionsService.js): its cache of answers, five seconds per
  key, and the request each method sends through the client of Api_Client.  A method either
  answers from the cache or sends a request and finishes when its outcome arrives.
\<close>

section \<open>The cache\<close>

record cache_entry =
  e_data :: jsval
  e_timestamp :: int

type_synonym cache = "(string \<times> cache_entry) list"

definition CACHE_DURATION :: int where
  "CACHE_DURATION = 5000"

text \<open>The cached data and the cache afterwards: a missing or stale entry is deleted.\<close>

definition getCachedData :: "int \<Rightarrow> string \<Rightarrow> cache \<Rightarrow> jsval \<times> cache" where
  "getCachedData now key c =
     (case map_of c key of
        Some cached \<Rightarrow> if now - e_timestamp cached < CACHE_DURATION then (e_data cached, c)
                       else (Null, del key c)
      | None \<Rightarrow> (Null, del key c))"

definition setCachedData :: "int \<Rightarrow> string \<Rightarrow> jsval \<Rightarrow> cache \<Rightarrow> cache" where
  "setCachedData now key d c = put key \<lparr>e_data = d, e_timestamp = now\<rparr> c"

definition getCacheKey :: "string \<Rightarrow> jsval \<Rightarrow> string" where
  "getCacheKey method params = method @ '':'' @ json_stringify params"

definition clearCache :: "cache \<Rightarrow> cache" where
  "clearCache c = []"

section \<open>The methods\<close>

text \<open>
  How a method starts: with an answer, or with a request and the key its answer is stored
  under (\<open>None\<close> for the methods that do not cache).
\<close>

datatype started = Answer jsval | Sent http_request "string option"

definition from_cache_or :: "int \<Rightarrow> string \<Rightarrow> http_request \<Rightarrow> cache \<Rightarrow> started \<times> cache" where
  "from_cache_or now cacheKey req c =
     (case getCachedData now cacheKey c of
        (cached, c') \<Rightarrow> (if truthy cached then Answer cached else Sent req (Some cacheKey), c'))"

definition uncached :: "http_request \<Rightarrow> cache \<Rightarrow> started \<times> cache" where
  "uncached req c = (Sent req None, c)"

text \<open>When the response arrives: \<open>response.data\<close> is stored and returned.\<close>

definition finish :: "int \<Rightarrow> string option \<Rightarrow> jsval result \<Rightarrow> cache \<Rightarrow> jsval result \<times> cache" where
  "finish now key outcome c =
     (case response_data outcome of
        Inl e \<Rightarrow> (Inl e, c)
      | Inr d \<Rightarrow> (Inr d, case key of Some k \<Rightarrow> setCachedData now k d c | None \<Rightarrow> c))"

definition liveData_key :: "jsval \<Rightarrow> jsval \<Rightarrow> string" where
  "liveData_key symbol expiry = getCacheKey ''liveData'' (Obj [(''symbol'', symbol), (''expiry'', expiry)])"

definition getLiveData :: "int \<Rightarrow> jsval \<Rightarrow> jsval \<Rightarrow> cache \<Rightarrow> started \<times> cache" where
  "getLiveData now symbol expiry =
     from_cache_or now (liveData_key symbol expiry)
       (http_get ''/options/live'' (Obj [(''sid'', symbol), (''exp_sid'', expiry)]))"

definition getBatchLiveOptions :: "jsval \<Rightarrow> cache \<Rightarrow> started \<times> cache" where
  "getBatchLiveOptions symbols =
     uncached (http_send POST ''/options/batch'' (Obj [(''symbols'', symbols)]))"

text \<open>A default parameter replaces \<open>undefined\<close> only.\<close>

definition default_to :: "jsval \<Rightarrow> jsval \<Rightarrow> jsval" where
  "default_to d v = (if v = Undef then d else v)"

definition getSymbols :: "jsval \<Rightarrow> cache \<Rightarrow> started \<times> cache" where
  "getSymbols activeOnly =
     uncached (http_get ''/symbols/simple'' (Obj [(''active_only'', default_to (Bool True) activeOnly)]))"

definition expiry_key :: "jsval \<Rightarrow> string" where
  "expiry_key symbol = getCacheKey ''expiry'' (Obj [(''symbol'', symbol)])"

definition getExpiryDates :: "int \<Rightarrow> jsval \<Rightarrow> cache \<Rightarrow> started \<times> cache" where
  "getExpiryDates now symbol =
     from_cache_or now (expiry_key symbol) (http_get (''/options/expiry/'' @ js_to_string symbol) Undef)"

definition optionChain_key :: "jsval \<Rightarrow> jsval \<Rightarrow> jsval \<Rightarrow> jsval \<Rightarrow> string" where
  "optionChain_key symbol expiry includeGreeks includeReversal =
     getCacheKey ''optionChain''
       (Obj [(''symbol'', symbol), (''expiry'', expiry), (''includeGreeks'', includeGreeks),
             (''includeReversal'', includeReversal)])"

definition optionChain_params :: "jsval \<Rightarrow> jsval \<Rightarrow> jsval \<Rightarrow> jsval \<Rightarrow> jsval \<Rightarrow> jsval" where
  "optionChain_params includeGreeks includeReversal mode date time =
     Obj ([(''include_greeks'', includeGreeks), (''include_reversal'', includeReversal), (''mode'', mode)] @
          (if strict_eq mode (Str ''historical'')
           then (if truthy date then [(''date'', date)] else []) @ (if truthy time then [(''time'', time)] else [])
           else []))"

text \<open>\<open>options\<close> is an object (\<open>\{\}\<close> when it is not given).\<close>

definition getOptionChain :: "int \<Rightarrow> jsval \<Rightarrow> jsval \<Rightarrow> jsval \<Rightarrow> cache \<Rightarrow> started \<times> cache" where
  "getOptionChain now symbol expiry options0 c =
     (let options = default_to (Obj []) options0;
          includeGreeks = default_to (Bool True) (opt options ''includeGreeks'');
          includeReversal = default_to (Bool True) (opt options ''includeReversal'');
          mode = default_to (Str ''live'') (opt options ''mode'');
          date = default_to Null (opt options ''date'');
          time = default_to Null (opt options ''time'');
          shouldCache = strict_eq mode (Str ''live'');
          cacheKey = optionChain_key symbol expiry includeGreeks includeReversal;
          req = http_get (''/options/chain/'' @ js_to_string symbol @ ''/'' @ js_to_string expiry)
                  (optionChain_params includeGreeks includeReversal mode date time)
      in if shouldCache then from_cache_or now cacheKey req c else uncached req c)"

definition getAvailableDates :: "jsval \<Rightarrow> http_request" where
  "getAvailableDates symbol = http_get (''/historical/dates/'' @ js_to_string symbol) Undef"

definition getAvailableTimes :: "jsval \<Rightarrow> jsval \<Rightarrow> http_request" where
  "getAvailableTimes symbol date =
     http_get (''/historical/times/'' @ js_to_string symbol @ ''/'' @ js_to_string date) Undef"

text \<open>\<open>response.data?.k || []\<close>.\<close>

definition list_in :: "string \<Rightarrow> jsval result \<Rightarrow> jsval result" where
  "list_in k outcome = res_bind (response_data outcome) (\<lambda>d. Inr (js_or (opt d k) (Arr [])))"

definition availableDates :: "jsval result \<Rightarrow> jsval result" where
  "availableDates = list_in ''dates''"

definition availableTimes :: "jsval result \<Rightarrow> jsval result" where
  "availableTimes = list_in ''times''"

definition getHistoricalSnapshot :: "jsval \<Rightarrow> jsval \<Rightarrow> jsval \<Rightarrow> jsval \<Rightarrow> cache \<Rightarrow> started \<times> cache" where
  "getHistoricalSnapshot symbol expiry date time =
     uncached (http_get (''/historical/snapshot/'' @ js_to_string symbol @ ''/'' @ js_to_string expiry)
       (Obj [(''date'', date), (''time'', time)]))"

definition getPercentageData :: "jsval \<Rightarrow> cache \<Rightarrow> started \<times> cache" where
  "getPercentageData params = uncached (http_send POST ''/options/percentage'' params)"

definition getIVData :: "jsval \<Rightarrow> cache \<Rightarrow> started \<times> cache" where
  "getIVData params = uncached (http_send POST ''/options/iv'' params)"

definition getDeltaData :: "jsval \<Rightarrow> cache \<Rightarrow> started \<times> cache" where
  "getDeltaData params = uncached (http_send POST ''/options/delta'' params)"

definition getFuturePriceData :: "jsval \<Rightarrow> cache \<Rightarrow> started \<times> cache" where
  "getFuturePriceData params = uncached (http_send POST ''/options/future'' params)"

definition getFutureData :: "jsval \<Rightarrow> jsval \<Rightarrow> cache \<Rightarrow> started \<times> cache" where
  "getFutureData symbol expiry =
     uncached (http_send POST ''/options/future'' (Obj [(''symbol'', symbol), (''expiry'', expiry)]))"

definition getFuturesSummary :: "jsval \<Rightarrow> cache \<Rightarrow> started \<times> cache" where
  "getFuturesSummary symbol = uncached (http_get (''/analytics/futures/'' @ js_to_string symbol) Undef)"

section \<open>Properties of the cache\<close>

text \<open>
  The calls that cache: live data with an expiry or, as the panels ask for it, without; expiries; the chain in live mode.
  Symbol and expiry are texts.  Then the events of a session with their times.
\<close>

datatype cached_call = LiveCall string string | LatestCall string | ExpiryCall string | ChainCall string string bool bool

datatype cache_event = Ask cached_call | Arrive cached_call jsval | Clear

fun start_call :: "int \<Rightarrow> cached_call \<Rightarrow> cache \<Rightarrow> started \<times> cache" where
  "start_call now (LiveCall s e) = getLiveData now (Str s) (Str e)"
| "start_call now (LatestCall s) = getLiveData now (Str s) Undef"
| "start_call now (ExpiryCall s) = getExpiryDates now (Str s)"
| "start_call now (ChainCall s e g r) =
     getOptionChain now (Str s) (Str e) (Obj [(''includeGreeks'', Bool g), (''includeReversal'', Bool r)])"

fun call_key :: "cached_call \<Rightarrow> string" where
  "call_key (LiveCall s e) = liveData_key (Str s) (Str e)"
| "call_key (LatestCall s) = liveData_key (Str s) Undef"
| "call_key (ExpiryCall s) = expiry_key (Str s)"
| "call_key (ChainCall s e g r) = optionChain_key (Str s) (Str e) (Bool g) (Bool r)"

lemma start_call_cached:
  "\<exists>req. start_call now q c = from_cache_or now (call_key q) req c"
  by (cases q) (auto simp: getLiveData_def getExpiryDates_def getOptionChain_def Let_def default_to_def
      liveData_key_def expiry_key_def)

lemma call_key_inj: "call_key q = call_key q' \<longleftrightarrow> q = q'"
proof
  assume k: "call_key q = call_key q'"
  show "q = q'"
  proof (cases q; cases q')
    fix s e s' e' assume "q = LiveCall s e" "q' = LiveCall s' e'"
    then show ?thesis using k by (simp add: liveData_key_def getCacheKey_def json_quote_inj)
  next
    fix s s' assume "q = LatestCall s" "q' = LatestCall s'"
    then show ?thesis using k by (simp add: liveData_key_def getCacheKey_def json_quote_inj)
  next
    fix s e s' assume "q = LiveCall s e" "q' = LatestCall s'"
    then show ?thesis using k json_quote_inj [of s _ s' "[]"] by (simp add: liveData_key_def getCacheKey_def)
  next
    fix s s' e' assume "q = LatestCall s" "q' = LiveCall s' e'"
    then show ?thesis using k json_quote_inj [of s "[]" s' "CHR '','' # json_quote ''expiry'' @ CHR '':'' # json_quote e'"]
      by (simp add: liveData_key_def getCacheKey_def)
  next
    fix s s' assume "q = ExpiryCall s" "q' = ExpiryCall s'"
    then show ?thesis using k by (simp add: expiry_key_def getCacheKey_def json_quote_inj)
  next
    fix s e g r s' e' g' r' assume "q = ChainCall s e g r" "q' = ChainCall s' e' g' r'"
    then show ?thesis using k
      by (auto simp: optionChain_key_def getCacheKey_def json_quote_inj split: if_splits)
  qed (use k in \<open>simp_all add: liveData_key_def expiry_key_def optionChain_key_def getCacheKey_def\<close>)
qed simp


text \<open>
  A session of the service: the cache and what each call was answered from the cache
  (\<open>None\<close>: it went to the server).  The specification keeps all responses since the last
  \<open>clearCache\<close>, newest first, and no cache.
\<close>

type_synonym answers = "(int \<times> cached_call \<times> jsval option) list"

type_synonym responses = "(cached_call \<times> jsval \<times> int) list"

fun answer_of :: "started \<Rightarrow> jsval option" where
  "answer_of (Answer v) = Some v"
| "answer_of (Sent _ _) = None"

fun session_step :: "int \<times> cache_event \<Rightarrow> cache \<times> answers \<Rightarrow> cache \<times> answers" where
  "session_step (now, Ask q) (c, as) =
     (case start_call now q c of (st, c') \<Rightarrow> (c', as @ [(now, q, answer_of st)]))"
| "session_step (now, Arrive q v) (c, as) =
     (snd (finish now (Some (call_key q)) (Inr (Obj [(''data'', v)])) c), as)"
| "session_step (now, Clear) (c, as) = (clearCache c, as)"

fun latest :: "cached_call \<Rightarrow> responses \<Rightarrow> (jsval \<times> int) option" where
  "latest q [] = None"
| "latest q ((q', v, t) # rs) = (if q' = q then Some (v, t) else latest q rs)"

definition fresh_answer :: "int \<Rightarrow> cached_call \<Rightarrow> responses \<Rightarrow> jsval option" where
  "fresh_answer now q rs =
     (case latest q rs of
        Some (v, t) \<Rightarrow> if now - t < CACHE_DURATION \<and> truthy v then Some v else None
      | None \<Rightarrow> None)"

fun spec_step :: "int \<times> cache_event \<Rightarrow> int \<times> responses \<times> answers \<Rightarrow> int \<times> responses \<times> answers" where
  "spec_step (now, Ask q) (_, rs, as) = (now, rs, as @ [(now, q, fresh_answer now q rs)])"
| "spec_step (now, Arrive q v) (_, rs, as) = (now, (q, v, now) # rs, as)"
| "spec_step (now, Clear) (_, rs, as) = (now, [], as)"

definition not_before :: "int \<times> cache_event \<Rightarrow> int \<times> responses \<times> answers \<Rightarrow> bool" where
  "not_before ev a \<longleftrightarrow> fst a \<le> fst ev"

definition entry_ok :: "int \<Rightarrow> cache_entry option \<Rightarrow> (jsval \<times> int) option \<Rightarrow> bool" where
  "entry_ok clk e l \<longleftrightarrow>
     (case l of
        None \<Rightarrow> e = None
      | Some (v, t) \<Rightarrow> e = Some \<lparr>e_data = v, e_timestamp = t\<rparr> \<or> (e = None \<and> CACHE_DURATION \<le> clk - t))"

definition cache_ok :: "cache \<times> answers \<Rightarrow> int \<times> responses \<times> answers \<Rightarrow> bool" where
  "cache_ok s a \<longleftrightarrow>
     snd s = snd (snd a) \<and>
     (\<forall>q. entry_ok (fst a) (map_of (fst s) (call_key q)) (latest q (fst (snd a))))"

lemma getCachedData_spec:
  "fst (getCachedData now k c) =
     (case map_of c k of Some e \<Rightarrow> if now - e_timestamp e < CACHE_DURATION then e_data e else Null | None \<Rightarrow> Null)"
  "map_of (snd (getCachedData now k c)) j =
     (if j = k \<and> \<not> (case map_of c k of Some e \<Rightarrow> now - e_timestamp e < CACHE_DURATION | None \<Rightarrow> False)
      then None else map_of c j)"
  by (auto simp: getCachedData_def map_of_del split: option.splits)

lemma cache_ok_step:
  assumes ok: "cache_ok s a" and clock: "not_before ev a"
  shows "cache_ok (session_step ev s) (spec_step ev a)"
proof -
  obtain c as where s: "s = (c, as)" by (cases s)
  obtain clk rs as' where a: "a = (clk, rs, as')" by (cases a)
  obtain now e where ev: "ev = (now, e)" by (cases ev)
  have le: "clk \<le> now" using clock by (simp add: not_before_def a ev)
  have as': "as' = as" using ok by (simp add: cache_ok_def a s)
  have rel: "entry_ok clk (map_of c (call_key q)) (latest q rs)" for q
    using ok by (simp add: cache_ok_def a s)
  have later: "entry_ok now (map_of c (call_key q)) (latest q rs)" for q
    using rel [of q] le by (auto simp: entry_ok_def split: option.splits)
  show ?thesis
  proof (cases e)
    case (Ask q)
    obtain req where st: "start_call now q c = from_cache_or now (call_key q) req c"
      using start_call_cached by blast
    define c' where "c' = snd (getCachedData now (call_key q) c)"
    have "answer_of (fst (from_cache_or now (call_key q) req c)) = fresh_answer now q rs"
      using rel [of q] le getCachedData_spec(1) [of now "call_key q" c]
      by (auto simp: from_cache_or_def fresh_answer_def entry_ok_def split: prod.splits option.splits if_splits)
    then have step: "session_step ev s = (c', as @ [(now, q, fresh_answer now q rs)])"
      by (auto simp: ev s Ask st from_cache_or_def c'_def split: prod.splits)
    have "entry_ok now (map_of c' (call_key p)) (latest p rs)" for p
      using later [of p] unfolding c'_def
      by (auto simp: entry_ok_def getCachedData_spec(2) call_key_inj split: option.splits)
    then show ?thesis unfolding step by (simp add: ev a as' Ask cache_ok_def)
  next
    case (Arrive q v)
    have "map_of (fst (session_step ev s)) (call_key p) =
        (if p = q then Some \<lparr>e_data = v, e_timestamp = now\<rparr> else map_of c (call_key p))" for p
      by (simp add: ev s Arrive finish_def response_data_def get_def setCachedData_def map_of_put call_key_inj)
    then have "entry_ok now (map_of (fst (session_step ev s)) (call_key p)) (latest p ((q, v, now) # rs))" for p
      using later [of p] by (simp add: entry_ok_def)
    moreover have "snd (session_step ev s) = as" by (simp add: ev s Arrive)
    ultimately show ?thesis by (simp add: cache_ok_def ev a as' Arrive)
  next
    case Clear
    then show ?thesis by (simp add: cache_ok_def ev a s as' clearCache_def entry_ok_def)
  qed
qed

interpretation cache_session: simulation cache_ok not_before session_step spec_step
  by unfold_locales (rule cache_ok_step)


definition in_order :: "(int \<times> cache_event) list \<Rightarrow> bool" where
  "in_order evs \<longleftrightarrow> sorted_wrt (\<lambda>x y. fst x \<le> fst y) evs"

lemma admissible_events:
  "in_order evs \<Longrightarrow> (\<forall>ev \<in> set evs. fst a \<le> fst ev) \<Longrightarrow> admissible not_before spec_step evs a"
proof (induction evs arbitrary: a)
  case (Cons ev evs)
  have "fst (spec_step ev a) = fst ev" by (cases "(ev, a)" rule: spec_step.cases) auto
  then show ?case using Cons by (auto simp: in_order_def not_before_def)
qed simp

text \<open>C17: For every sequence of calls, responses and clearings in the order of time, the calls
  answered without a request are those of the specification: a call (of live data with or without an expiry, of expiries, or
  of the chain in live mode) is answered exactly when the newest response to the very same call (method and all arguments) since the last clearing is
  truthy and less than five seconds old, and with that response's data.\<close>

theorem cache_refines_spec:
  assumes "in_order evs" and "\<forall>ev \<in> set evs. t0 \<le> fst ev"
  shows "snd (fold session_step evs ([], [])) = snd (snd (fold spec_step evs (t0, [], [])))"
proof -
  have "cache_ok ([], []) (t0, [], [])" by (simp add: cache_ok_def entry_ok_def)
  moreover have "admissible not_before spec_step evs (t0, [], [])"
    using assms by (intro admissible_events) auto
  ultimately show ?thesis using cache_session.run unfolding cache_ok_def by blast
qed

definition sample_events :: "(int \<times> cache_event) list" where
  "sample_events =
     [(100, Ask (ExpiryCall ''NIFTY'')), (200, Arrive (ExpiryCall ''NIFTY'') (Arr [])),
      (5199, Ask (ExpiryCall ''NIFTY'')), (5199, Ask (ExpiryCall ''BANKNIFTY'')),
      (5200, Ask (ExpiryCall ''NIFTY'')), (5300, Arrive (LiveCall ''NIFTY'' ''1'') Null),
      (5301, Ask (LiveCall ''NIFTY'' ''1''))]"

theorem cache_refines_spec_witness:
  "snd (fold session_step sample_events ([], [])) =
     [(100, ExpiryCall ''NIFTY'', None), (5199, ExpiryCall ''NIFTY'', Some (Arr [])),
      (5199, ExpiryCall ''BANKNIFTY'', None), (5200, ExpiryCall ''NIFTY'', None),
      (5301, LiveCall ''NIFTY'' ''1'', None)]"
proof -
  have "snd (fold session_step sample_events ([], [])) = snd (snd (fold spec_step sample_events (0, [], [])))"
    by (rule cache_refines_spec) (simp_all add: sample_events_def in_order_def)
  also have "\<dots> = [(100, ExpiryCall ''NIFTY'', None), (5199, ExpiryCall ''NIFTY'', Some (Arr [])),
      (5199, ExpiryCall ''BANKNIFTY'', None), (5200, ExpiryCall ''NIFTY'', None),
      (5301, LiveCall ''NIFTY'' ''1'', None)]"
    by (simp add: sample_events_def fresh_answer_def CACHE_DURATION_def)
  finally show ?thesis .
qed

text \<open>Every option-chain query whose mode is not \<open>live\<close> goes to the server and leaves the cache
  alone, at its start and at its end; the query names its mode.\<close>

theorem historical_chain_bypasses_cache:
  assumes "opt options ''mode'' \<noteq> Undef" and "opt options ''mode'' \<noteq> Str ''live''"
    and "options \<noteq> Undef"
  shows "\<exists>req. getOptionChain now symbol expiry options c = (Sent req None, c)
           \<and> opt (r_params req) ''mode'' = opt options ''mode''
           \<and> (\<forall>later outcome. snd (finish later None outcome c) = c)"
proof -
  have "\<not> strict_eq (opt options ''mode'') (Str ''live'')"
    using assms(2) by (cases "opt options ''mode''") auto
  then show ?thesis
    using assms by (auto simp: getOptionChain_def default_to_def uncached_def finish_def Let_def http_get_def
      optionChain_params_def split: sum.split)
qed

theorem historical_chain_bypasses_cache_witness:
  "\<exists>req. getOptionChain 0 (Str ''NIFTY'') (Str ''1'') (Obj [(''mode'', Str ''historical'')]) [] = (Sent req None, [])"
  using historical_chain_bypasses_cache [of "Obj [(''mode'', Str ''historical'')]" 0 "Str ''NIFTY''" "Str ''1''" "[]"]
  by auto

end
