(* ===== verification/Calculator_Service.thy ===== *)
theory Calculator_Service
  imports Api_Client
begin

text \<open>
  The calculator service (src/services/calculatorService.js): every method builds one request
  for the backend and returns the \<open>data\<close> of the answer.  The client and the network behind it
  are the parameter \<open>server\<close>, the outcome of each request.  The service object is built the way
  the literal is written, so that of two methods with one name the later one stays.
\<close>

section \<open>Calls\<close>

type_synonym server = "http_request \<Rightarrow> jsval result"

definition api_call :: "http_request result \<Rightarrow> server \<Rightarrow> jsval result" where
  "api_call req server = res_bind req (\<lambda>r. response_data (server r))"

text \<open>A default replaces \<open>undefined\<close> only; destructuring \<open>undefined\<close> or \<open>null\<close> throws.\<close>

definition or_default :: "jsval \<Rightarrow> string \<Rightarrow> jsval \<Rightarrow> jsval" where
  "or_default p k d = (if opt p k = Undef then d else opt p k)"

definition destructured :: "jsval \<Rightarrow> http_request result \<Rightarrow> http_request result" where
  "destructured p req = (if nullish p then Inl TypeError else req)"

definition CALC_BASE :: string where
  "CALC_BASE = ''/calculators''"

section \<open>Calculators\<close>

definition calculateOptionPrice :: "server \<Rightarrow> jsval \<Rightarrow> jsval result" where
  "calculateOptionPrice server p =
     api_call (destructured p (Inr (http_send POST (CALC_BASE @ ''/option-price'')
       (Obj [(''spot'', opt p ''spot''), (''strike'', opt p ''strike''),
             (''time_to_expiry'', opt p ''timeToExpiry''),
             (''risk_free_rate'', or_default p ''riskFreeRate'' (Num (N (7 / 100)))),
             (''volatility'', opt p ''volatility''),
             (''dividend_yield'', or_default p ''dividendYield'' (Num (Fin 0)))])))) server"

definition calculateIV :: "server \<Rightarrow> jsval \<Rightarrow> jsval result" where
  "calculateIV server p =
     api_call (destructured p (Inr (http_send POST (CALC_BASE @ ''/implied-volatility'')
       (Obj [(''option_price'', opt p ''optionPrice''), (''spot'', opt p ''spot''),
             (''strike'', opt p ''strike''), (''time_to_expiry'', opt p ''timeToExpiry''),
             (''risk_free_rate'', or_default p ''riskFreeRate'' (Num (N (7 / 100)))),
             (''option_type'', or_default p ''optionType'' (Str ''CE'')),
             (''dividend_yield'', or_default p ''dividendYield'' (Num (Fin 0)))])))) server"

definition calculateSIP :: "server \<Rightarrow> jsval \<Rightarrow> jsval result" where
  "calculateSIP server p =
     api_call (destructured p (Inr (http_send POST (CALC_BASE @ ''/sip'')
       (Obj [(''monthly_investment'', opt p ''monthlyInvestment''),
             (''annual_return'', opt p ''annualReturn''), (''years'', opt p ''years'')])))) server"

definition calculateLumpsum :: "server \<Rightarrow> jsval \<Rightarrow> jsval result" where
  "calculateLumpsum server p =
     api_call (destructured p (Inr (http_send POST (CALC_BASE @ ''/lumpsum'')
       (Obj [(''principal'', opt p ''principal''), (''annual_return'', opt p ''annualReturn''),
             (''years'', opt p ''years'')])))) server"

definition calculateSWP :: "server \<Rightarrow> jsval \<Rightarrow> jsval result" where
  "calculateSWP server p =
     api_call (destructured p (Inr (http_send POST (CALC_BASE @ ''/swp'')
       (Obj [(''initial_investment'', opt p ''initialInvestment''),
             (''monthly_withdrawal'', opt p ''monthlyWithdrawal''),
             (''annual_return'', opt p ''annualReturn''), (''years'', opt p ''years'')])))) server"

text \<open>The first of the two methods named \<open>calculateMargin\<close>: the margin of one option.\<close>

definition calculateMargin_option :: "server \<Rightarrow> jsval \<Rightarrow> jsval result" where
  "calculateMargin_option server p =
     api_call (destructured p (Inr (http_send POST (CALC_BASE @ ''/margin'')
       (Obj [(''spot'', opt p ''spot''), (''strike'', opt p ''strike''),
             (''option_type'', or_default p ''optionType'' (Str ''CE'')),
             (''premium'', opt p ''premium''), (''lot_size'', opt p ''lotSize''),
             (''is_buy'', or_default p ''isBuy'' (Bool True))])))) server"

section \<open>Strategy simulation\<close>

text \<open>
  The legs as the backend expects them.  Every method of the simulation writes the same
  mapping; \<open>_formatLegs\<close> is its copy of its own.
\<close>

definition or_chain :: "jsval \<Rightarrow> string list \<Rightarrow> jsval \<Rightarrow> jsval" where
  "or_chain leg ks last_value = foldr (\<lambda>k v. js_or (opt leg k) v) ks last_value"

definition format_leg :: "jsval \<Rightarrow> jsval result" where
  "format_leg leg =
     (if nullish leg then Inl TypeError
      else Inr (Obj [(''strike'', opt leg ''strike''),
             (''option_type'', or_chain leg [''optionType'', ''option_type''] (opt leg ''type'')),
             (''action'', opt leg ''action''), (''qty'', opt leg ''qty''),
             (''entry_price'', or_chain leg [''entryPrice'', ''entry_price''] (opt leg ''ltp'')),
             (''iv'', opt leg ''iv''), (''expiry'', opt leg ''expiry''),
             (''lot_size'', or_chain leg [''lotSize'', ''lot_size''] (Num (Fin 1)))]))"

fun js_map :: "(jsval \<Rightarrow> jsval result) \<Rightarrow> jsval \<Rightarrow> jsval result" where
  "js_map f (Arr xs) = res_bind (res_map f xs) (\<lambda>ys. Inr (Arr ys))"
| "js_map f v = Inl TypeError"

definition formatLegs :: "jsval \<Rightarrow> jsval result" where
  "formatLegs legs = js_map format_leg legs"

definition with_legs :: "jsval \<Rightarrow> (jsval \<Rightarrow> http_request) \<Rightarrow> http_request result" where
  "with_legs p req = destructured p (res_bind (formatLegs (opt p ''legs'')) (\<lambda>legs. Inr (req legs)))"

definition nums :: "rat list \<Rightarrow> jsval" where
  "nums rs = Arr (map (\<lambda>r. Num (N r)) rs)"

definition simulateStrategy :: "server \<Rightarrow> jsval \<Rightarrow> jsval result" where
  "simulateStrategy server p =
     api_call (with_legs p (\<lambda>legs. http_send POST ''/strategy-simulation/simulate''
       (Obj [(''legs'', legs), (''spot_price'', opt p ''spotPrice''),
             (''simulation_date'', or_default p ''simulationDate'' Null),
             (''iv_change'', or_default p ''ivChange'' (Num (Fin 0))),
             (''risk_free_rate'', or_default p ''riskFreeRate'' (Num (N (7 / 100))))]))) server"

definition getPayoffSurface :: "server \<Rightarrow> jsval \<Rightarrow> jsval result" where
  "getPayoffSurface server p =
     api_call (with_legs p (\<lambda>legs. http_send POST ''/strategy-simulation/payoff-surface''
       (Obj [(''legs'', legs), (''current_spot'', opt p ''currentSpot''),
             (''current_date'', or_default p ''currentDate'' Null),
             (''price_range_pct'', or_default p ''priceRangePct'' (nums [- (15 / 100), 15 / 100])),
             (''time_steps'', or_default p ''timeSteps'' (Num (Fin 10))),
             (''price_steps'', or_default p ''priceSteps'' (Num (Fin 50))),
             (''iv_change'', or_default p ''ivChange'' (Num (Fin 0)))]))) server"

definition getGreeksSurface :: "server \<Rightarrow> jsval \<Rightarrow> jsval result" where
  "getGreeksSurface server p =
     api_call (with_legs p (\<lambda>legs. http_send POST ''/strategy-simulation/greeks-surface''
       (Obj [(''legs'', legs), (''current_spot'', opt p ''currentSpot''),
             (''current_date'', or_default p ''currentDate'' Null),
             (''price_range_pct'', or_default p ''priceRangePct'' (nums [- (10 / 100), 10 / 100])),
             (''iv_range_pct'', or_default p ''ivRangePct'' (nums [- (10 / 100), 10 / 100])),
             (''price_steps'', or_default p ''priceSteps'' (Num (Fin 25))),
             (''iv_steps'', or_default p ''ivSteps'' (Num (Fin 25)))]))) server"

definition format_scenario :: "jsval \<Rightarrow> jsval result" where
  "format_scenario s =
     (if nullish s then Inl TypeError
      else Inr (Obj [(''name'', opt s ''name''),
             (''spot_change'', js_or (opt s ''spotChange'') (Num (Fin 0))),
             (''days_forward'', js_or (opt s ''daysForward'') (Num (Fin 0))),
             (''iv_change'', js_or (opt s ''ivChange'') (Num (Fin 0)))]))"

definition runScenarioAnalysis :: "server \<Rightarrow> jsval \<Rightarrow> jsval result" where
  "runScenarioAnalysis server p =
     api_call (destructured p
       (res_bind (formatLegs (opt p ''legs'')) (\<lambda>legs.
        res_bind (js_map format_scenario (opt p ''scenarios'')) (\<lambda>scenarios.
          Inr (http_send POST ''/strategy-simulation/scenario-analysis''
            (Obj [(''legs'', legs), (''current_spot'', opt p ''currentSpot''),
                  (''current_date'', or_default p ''currentDate'' Null),
                  (''scenarios'', scenarios)])))))) server"

definition getStrategyPresets :: "server \<Rightarrow> jsval \<Rightarrow> jsval result" where
  "getStrategyPresets server p = api_call (Inr (http_get ''/strategy-simulation/presets'' Undef)) server"

definition calculatePOP :: "server \<Rightarrow> jsval \<Rightarrow> jsval result" where
  "calculatePOP server p =
     api_call (with_legs p (\<lambda>legs. http_send POST ''/strategy-simulation/probability-of-profit''
       (Obj [(''legs'', legs), (''current_spot'', opt p ''currentSpot''),
             (''current_date'', or_default p ''currentDate'' Null),
             (''average_iv'', or_default p ''averageIV'' Null)]))) server"

definition getPriceSlices :: "server \<Rightarrow> jsval \<Rightarrow> jsval result" where
  "getPriceSlices server p =
     api_call (with_legs p (\<lambda>legs. http_send POST ''/strategy-simulation/price-slices''
       (Obj [(''legs'', legs), (''current_spot'', opt p ''currentSpot''),
             (''current_date'', or_default p ''currentDate'' Null),
             (''price_changes'', or_default p ''priceChanges''
                (nums [- (5 / 100), - (2 / 100), 0, 2 / 100, 5 / 100])),
             (''time_offsets'', or_default p ''timeOffsets''
                (Arr [Num (Fin 0), Num (Fin 3), Num (Fin 7), Null]))]))) server"

text \<open>The second \<open>calculateMargin\<close>: the margin of a strategy.\<close>

definition calculateMargin_strategy :: "server \<Rightarrow> jsval \<Rightarrow> jsval result" where
  "calculateMargin_strategy server p =
     api_call (with_legs p (\<lambda>legs. http_send POST ''/strategy-simulation/margin-requirement''
       (Obj [(''legs'', legs), (''current_spot'', opt p ''currentSpot'')]))) server"

definition calculateMaxProfitLoss :: "server \<Rightarrow> jsval \<Rightarrow> jsval result" where
  "calculateMaxProfitLoss server p =
     api_call (with_legs p (\<lambda>legs. http_send POST ''/strategy-simulation/max-profit-loss''
       (Obj [(''legs'', legs), (''current_spot'', opt p ''currentSpot'')]))) server"

definition getScenarioMatrix :: "server \<Rightarrow> jsval \<Rightarrow> jsval result" where
  "getScenarioMatrix server p =
     api_call (with_legs p (\<lambda>legs. http_send POST ''/strategy-simulation/scenario-matrix''
       (Obj [(''legs'', legs), (''current_spot'', opt p ''currentSpot''),
             (''current_date'', or_default p ''currentDate'' Null),
             (''spot_changes'', or_default p ''spotChanges''
                (nums [- (5 / 100), - (25 / 1000), 0, 25 / 1000, 5 / 100])),
             (''iv_changes'', or_default p ''ivChanges''
                (nums [- (10 / 100), - (5 / 100), 0, 5 / 100, 10 / 100]))]))) server"

definition getFullMetrics :: "server \<Rightarrow> jsval \<Rightarrow> jsval result" where
  "getFullMetrics server p =
     api_call (with_legs p (\<lambda>legs. http_send POST ''/strategy-simulation/full-metrics''
       (Obj [(''legs'', legs), (''current_spot'', opt p ''currentSpot''),
             (''current_date'', or_default p ''currentDate'' Null)]))) server"

section \<open>The service object\<close>

text \<open>The properties of the literal in source order; \<open>_formatLegs\<close> is \<open>formatLegs\<close> above.\<close>

definition calculator_literal :: "(string \<times> (server \<Rightarrow> jsval \<Rightarrow> jsval result)) list" where
  "calculator_literal =
     [(''calculateOptionPrice'', calculateOptionPrice), (''calculateIV'', calculateIV),
      (''calculateSIP'', calculateSIP), (''calculateLumpsum'', calculateLumpsum),
      (''calculateSWP'', calculateSWP), (''calculateMargin'', calculateMargin_option),
      (''simulateStrategy'', simulateStrategy), (''getPayoffSurface'', getPayoffSurface),
      (''getGreeksSurface'', getGreeksSurface), (''runScenarioAnalysis'', runScenarioAnalysis),
      (''getStrategyPresets'', getStrategyPresets), (''calculatePOP'', calculatePOP),
      (''getPriceSlices'', getPriceSlices), (''calculateMargin'', calculateMargin_strategy),
      (''calculateMaxProfitLoss'', calculateMaxProfitLoss),
      (''getScenarioMatrix'', getScenarioMatrix), (''getFullMetrics'', getFullMetrics)]"

definition calculatorService :: "(string \<times> (server \<Rightarrow> jsval \<Rightarrow> jsval result)) list" where
  "calculatorService = fold (\<lambda>(k, m) o'. put k m o') calculator_literal []"

definition call_method :: "string \<Rightarrow> server \<Rightarrow> jsval \<Rightarrow> jsval result" where
  "call_method k server p =
     (case map_of calculatorService k of Some m \<Rightarrow> m server p | None \<Rightarrow> Inl TypeError)"

section \<open>Properties\<close>

lemma calculator_lookup:
  "map_of calculatorService k = map_of (rev calculator_literal) k"
proof -
  have "map_of (fold (\<lambda>(k, m) o'. put k m o') ms acc) k = (map_of acc ++ map_of (rev ms)) k" for ms acc
    by (induction ms arbitrary: acc) (auto simp: map_of_put map_add_def split: option.split)
  from this [of calculator_literal "[]"] show ?thesis by (simp only: calculatorService_def map_add_empty map_add_def map_of.simps option.case) (simp split: option.split)
qed

text \<open>The margin calculator of one option is gone: the literal's second \<open>calculateMargin\<close>
  replaces it, so the margin page, whose inputs have no legs, always gets a \<open>TypeError\<close> and no
  request is sent, whatever the server would answer.\<close>

theorem margin_calculator_always_throws:
  assumes "opt inputs ''legs'' = Undef"
  shows "call_method ''calculateMargin'' server inputs = Inl TypeError
       \<and> (\<not> nullish inputs \<longrightarrow>
          calculateMargin_option server inputs =
            response_data (server (http_send POST ''/calculators/margin''
              (Obj [(''spot'', opt inputs ''spot''), (''strike'', opt inputs ''strike''),
                    (''option_type'', or_default inputs ''optionType'' (Str ''CE'')),
                    (''premium'', opt inputs ''premium''), (''lot_size'', opt inputs ''lotSize''),
                    (''is_buy'', or_default inputs ''isBuy'' (Bool True))]))))"
  using assms
  by (simp add: call_method_def calculator_lookup calculator_literal_def calculateMargin_strategy_def
      calculateMargin_option_def with_legs_def destructured_def formatLegs_def api_call_def CALC_BASE_def)

definition page_inputs :: jsval where
  "page_inputs = Obj [(''spot'', Num (Fin 24500)), (''strike'', Num (Fin 24500)),
     (''optionType'', Str ''CE''), (''premium'', Num (Fin 200)), (''lotSize'', Num (Fin 75)),
     (''isBuy'', Bool True)]"

theorem margin_calculator_always_throws_witness:
  "call_method ''calculateMargin'' (\<lambda>r. Inr (Obj [(''data'', r_body r)])) page_inputs = Inl TypeError"
  by (rule margin_calculator_always_throws [THEN conjunct1]) (simp add: page_inputs_def)

end
