(* ===== verification/Strategy_Presets.thy ===== *)
theory Strategy_Presets
  imports Calculator_Service
begin

text \<open>
  The preset strategies (src/constants/strategyPresets.js): the table, its filters and
  \<open>buildLegsFromPreset\<close>, which prices the legs of a preset from the option chain.  Characters
  outside ASCII are written by their UTF-8 bytes.
\<close>

section \<open>The table\<close>

datatype category = VOLATILITY | NEUTRAL | DIRECTIONAL | CALENDAR | INCOME

fun category_value :: "category \<Rightarrow> string" where
  "category_value VOLATILITY = ''volatility''"
| "category_value NEUTRAL = ''neutral''"
| "category_value DIRECTIONAL = ''directional''"
| "category_value CALENDAR = ''calendar''"
| "category_value INCOME = ''income''"

record leg_def =
  strikeOffset :: int
  leg_type :: string
  leg_action :: string
  leg_qty :: int
  expiryIndex :: "nat option"

record preset =
  p_id :: string
  p_name :: string
  p_description :: string
  p_category :: category
  p_multiExpiry :: bool
  p_maxProfit :: string
  p_maxLoss :: string
  p_breakeven :: string
  p_idealFor :: string
  p_legs :: "leg_def list"
  p_notes :: "string option"

definition long_straddle :: preset where
  "long_straddle =
     \<lparr>p_id = ''long_straddle'', p_name = ''Long Straddle'',
      p_description = ''Buy ATM Call + Put. Profit from large moves in either direction.'',
      p_category = VOLATILITY, p_multiExpiry = False,
      p_maxProfit = ''Unlimited'', p_maxLoss = ''Premium Paid'',
      p_breakeven = (''2 points (Strike '' @ [CHR 0xC2, CHR 0xB1] @ '' Premium)''), p_idealFor = ''High volatility expectation'',
      p_legs = [
        \<lparr>strikeOffset = 0, leg_type = ''CE'', leg_action = ''BUY'', leg_qty = 1, expiryIndex = None\<rparr>,
        \<lparr>strikeOffset = 0, leg_type = ''PE'', leg_action = ''BUY'', leg_qty = 1, expiryIndex = None\<rparr>],
      p_notes = None\<rparr>"

definition short_straddle :: preset where
  "short_straddle =
     \<lparr>p_id = ''short_straddle'', p_name = ''Short Straddle'',
      p_description = ''Sell ATM Call + Put. Profit from range-bound markets.'',
      p_category = VOLATILITY, p_multiExpiry = False,
      p_maxProfit = ''Premium Received'', p_maxLoss = ''Unlimited'',
      p_breakeven = (''2 points (Strike '' @ [CHR 0xC2, CHR 0xB1] @ '' Premium)''), p_idealFor = ''Low volatility expectation'',
      p_legs = [
        \<lparr>strikeOffset = 0, leg_type = ''CE'', leg_action = ''SELL'', leg_qty = 1, expiryIndex = None\<rparr>,
        \<lparr>strikeOffset = 0, leg_type = ''PE'', leg_action = ''SELL'', leg_qty = 1, expiryIndex = None\<rparr>],
      p_notes = None\<rparr>"

definition long_strangle :: preset where
  "long_strangle =
     \<lparr>p_id = ''long_strangle'', p_name = ''Long Strangle'',
      p_description = ''Buy OTM Call + Put. Cheaper than straddle, needs larger move.'',
      p_category = VOLATILITY, p_multiExpiry = False,
      p_maxProfit = ''Unlimited'', p_maxLoss = ''Premium Paid'',
      p_breakeven = ''2 points'', p_idealFor = ''Expecting big move, unsure of direction'',
      p_legs = [
        \<lparr>strikeOffset = 100, leg_type = ''CE'', leg_action = ''BUY'', leg_qty = 1, expiryIndex = None\<rparr>,
        \<lparr>strikeOffset = - 100, leg_type = ''PE'', leg_action = ''BUY'', leg_qty = 1, expiryIndex = None\<rparr>],
      p_notes = None\<rparr>"

definition short_strangle :: preset where
  "short_strangle =
     \<lparr>p_id = ''short_strangle'', p_name = ''Short Strangle'',
      p_description = ''Sell OTM Call + Put. Wider breakeven range than short straddle.'',
      p_category = VOLATILITY, p_multiExpiry = False,
      p_maxProfit = ''Premium Received'', p_maxLoss = ''Unlimited'',
      p_breakeven = ''2 points'', p_idealFor = ''Range-bound market expectation'',
      p_legs = [
        \<lparr>strikeOffset = 100, leg_type = ''CE'', leg_action = ''SELL'', leg_qty = 1, expiryIndex = None\<rparr>,
        \<lparr>strikeOffset = - 100, leg_type = ''PE'', leg_action = ''SELL'', leg_qty = 1, expiryIndex = None\<rparr>],
      p_notes = None\<rparr>"

definition iron_condor :: preset where
  "iron_condor =
     \<lparr>p_id = ''iron_condor'', p_name = ''Iron Condor'',
      p_description = ''Sell OTM Call Spread + Put Spread. Limited risk, limited reward.'',
      p_category = NEUTRAL, p_multiExpiry = False,
      p_maxProfit = ''Net Credit'', p_maxLoss = ''Wing Width - Credit'',
      p_breakeven = ''2 points'', p_idealFor = ''Range-bound, low volatility'',
      p_legs = [
        \<lparr>strikeOffset = - 200, leg_type = ''PE'', leg_action = ''BUY'', leg_qty = 1, expiryIndex = None\<rparr>,
        \<lparr>strikeOffset = - 100, leg_type = ''PE'', leg_action = ''SELL'', leg_qty = 1, expiryIndex = None\<rparr>,
        \<lparr>strikeOffset = 100, leg_type = ''CE'', leg_action = ''SELL'', leg_qty = 1, expiryIndex = None\<rparr>,
        \<lparr>strikeOffset = 200, leg_type = ''CE'', leg_action = ''BUY'', leg_qty = 1, expiryIndex = None\<rparr>],
      p_notes = None\<rparr>"

definition iron_butterfly :: preset where
  "iron_butterfly =
     \<lparr>p_id = ''iron_butterfly'', p_name = ''Iron Butterfly'',
      p_description = ''Sell ATM Straddle + Buy OTM Strangle. Higher credit, narrower range.'',
      p_category = NEUTRAL, p_multiExpiry = False,
      p_maxProfit = ''Net Credit'', p_maxLoss = ''Wing Width - Credit'',
      p_breakeven = (''2 points at ATM '' @ [CHR 0xC2, CHR 0xB1] @ '' Credit''), p_idealFor = ''Pinning at strike expectation'',
      p_legs = [
        \<lparr>strikeOffset = 0, leg_type = ''CE'', leg_action = ''SELL'', leg_qty = 1, expiryIndex = None\<rparr>,
        \<lparr>strikeOffset = 0, leg_type = ''PE'', leg_action = ''SELL'', leg_qty = 1, expiryIndex = None\<rparr>,
        \<lparr>strikeOffset = 100, leg_type = ''CE'', leg_action = ''BUY'', leg_qty = 1, expiryIndex = None\<rparr>,
        \<lparr>strikeOffset = - 100, leg_type = ''PE'', leg_action = ''BUY'', leg_qty = 1, expiryIndex = None\<rparr>],
      p_notes = None\<rparr>"

definition jade_lizard :: preset where
  "jade_lizard =
     \<lparr>p_id = ''jade_lizard'', p_name = ''Jade Lizard'',
      p_description = ''Sell OTM Put + OTM Call Spread. No upside risk if credit > call spread width.'',
      p_category = NEUTRAL, p_multiExpiry = False,
      p_maxProfit = ''Net Credit'', p_maxLoss = ''Put Strike - Credit (downside)'',
      p_breakeven = ''1 point on downside'', p_idealFor = ''Slight bullish bias with premium collection'',
      p_legs = [
        \<lparr>strikeOffset = - 100, leg_type = ''PE'', leg_action = ''SELL'', leg_qty = 1, expiryIndex = None\<rparr>,
        \<lparr>strikeOffset = 100, leg_type = ''CE'', leg_action = ''SELL'', leg_qty = 1, expiryIndex = None\<rparr>,
        \<lparr>strikeOffset = 200, leg_type = ''CE'', leg_action = ''BUY'', leg_qty = 1, expiryIndex = None\<rparr>],
      p_notes = None\<rparr>"

definition broken_wing_butterfly :: preset where
  "broken_wing_butterfly =
     \<lparr>p_id = ''broken_wing_butterfly'', p_name = ''Broken Wing Butterfly'',
      p_description = ''Asymmetric butterfly with reduced/no risk on one side.'',
      p_category = NEUTRAL, p_multiExpiry = False,
      p_maxProfit = ''At middle strike'', p_maxLoss = ''Reduced on one wing'',
      p_breakeven = ''2 points'', p_idealFor = ''Directional bias with butterfly structure'',
      p_legs = [
        \<lparr>strikeOffset = - 100, leg_type = ''PE'', leg_action = ''BUY'', leg_qty = 1, expiryIndex = None\<rparr>,
        \<lparr>strikeOffset = 0, leg_type = ''PE'', leg_action = ''SELL'', leg_qty = 2, expiryIndex = None\<rparr>,
        \<lparr>strikeOffset = 200, leg_type = ''PE'', leg_action = ''BUY'', leg_qty = 1, expiryIndex = None\<rparr>],
      p_notes = None\<rparr>"

definition bull_call_spread :: preset where
  "bull_call_spread =
     \<lparr>p_id = ''bull_call_spread'', p_name = ''Bull Call Spread'',
      p_description = ''Buy ATM Call + Sell OTM Call. Defined risk bullish play.'',
      p_category = DIRECTIONAL, p_multiExpiry = False,
      p_maxProfit = ''Strike Diff - Debit'', p_maxLoss = ''Net Debit'',
      p_breakeven = ''Lower Strike + Debit'', p_idealFor = ''Moderate bullish view'',
      p_legs = [
        \<lparr>strikeOffset = 0, leg_type = ''CE'', leg_action = ''BUY'', leg_qty = 1, expiryIndex = None\<rparr>,
        \<lparr>strikeOffset = 100, leg_type = ''CE'', leg_action = ''SELL'', leg_qty = 1, expiryIndex = None\<rparr>],
      p_notes = None\<rparr>"

definition bear_put_spread :: preset where
  "bear_put_spread =
     \<lparr>p_id = ''bear_put_spread'', p_name = ''Bear Put Spread'',
      p_description = ''Buy ATM Put + Sell OTM Put. Defined risk bearish play.'',
      p_category = DIRECTIONAL, p_multiExpiry = False,
      p_maxProfit = ''Strike Diff - Debit'', p_maxLoss = ''Net Debit'',
      p_breakeven = ''Higher Strike - Debit'', p_idealFor = ''Moderate bearish view'',
      p_legs = [
        \<lparr>strikeOffset = 0, leg_type = ''PE'', leg_action = ''BUY'', leg_qty = 1, expiryIndex = None\<rparr>,
        \<lparr>strikeOffset = - 100, leg_type = ''PE'', leg_action = ''SELL'', leg_qty = 1, expiryIndex = None\<rparr>],
      p_notes = None\<rparr>"

definition bull_put_spread :: preset where
  "bull_put_spread =
     \<lparr>p_id = ''bull_put_spread'', p_name = ''Bull Put Spread'',
      p_description = ''Sell ATM Put + Buy OTM Put. Credit spread with bullish bias.'',
      p_category = DIRECTIONAL, p_multiExpiry = False,
      p_maxProfit = ''Net Credit'', p_maxLoss = ''Strike Diff - Credit'',
      p_breakeven = ''Higher Strike - Credit'', p_idealFor = ''Bullish with income focus'',
      p_legs = [
        \<lparr>strikeOffset = 0, leg_type = ''PE'', leg_action = ''SELL'', leg_qty = 1, expiryIndex = None\<rparr>,
        \<lparr>strikeOffset = - 100, leg_type = ''PE'', leg_action = ''BUY'', leg_qty = 1, expiryIndex = None\<rparr>],
      p_notes = None\<rparr>"

definition bear_call_spread :: preset where
  "bear_call_spread =
     \<lparr>p_id = ''bear_call_spread'', p_name = ''Bear Call Spread'',
      p_description = ''Sell ATM Call + Buy OTM Call. Credit spread with bearish bias.'',
      p_category = DIRECTIONAL, p_multiExpiry = False,
      p_maxProfit = ''Net Credit'', p_maxLoss = ''Strike Diff - Credit'',
      p_breakeven = ''Lower Strike + Credit'', p_idealFor = ''Bearish with income focus'',
      p_legs = [
        \<lparr>strikeOffset = 0, leg_type = ''CE'', leg_action = ''SELL'', leg_qty = 1, expiryIndex = None\<rparr>,
        \<lparr>strikeOffset = 100, leg_type = ''CE'', leg_action = ''BUY'', leg_qty = 1, expiryIndex = None\<rparr>],
      p_notes = None\<rparr>"

definition calendar_spread_call :: preset where
  "calendar_spread_call =
     \<lparr>p_id = ''calendar_spread_call'', p_name = ''Calendar Spread (Call)'',
      p_description = ''Sell near-expiry Call + Buy far-expiry Call. Time decay play.'',
      p_category = CALENDAR, p_multiExpiry = True,
      p_maxProfit = ''At strike near front expiry'', p_maxLoss = ''Net Debit'',
      p_breakeven = ''Depends on IV'', p_idealFor = ''Neutral with falling near-term IV'',
      p_legs = [
        \<lparr>strikeOffset = 0, leg_type = ''CE'', leg_action = ''SELL'', leg_qty = 1, expiryIndex = Some 0\<rparr>,
        \<lparr>strikeOffset = 0, leg_type = ''CE'', leg_action = ''BUY'', leg_qty = 1, expiryIndex = Some 1\<rparr>],
      p_notes = None\<rparr>"

definition calendar_spread_put :: preset where
  "calendar_spread_put =
     \<lparr>p_id = ''calendar_spread_put'', p_name = ''Calendar Spread (Put)'',
      p_description = ''Sell near-expiry Put + Buy far-expiry Put.'',
      p_category = CALENDAR, p_multiExpiry = True,
      p_maxProfit = ''At strike near front expiry'', p_maxLoss = ''Net Debit'',
      p_breakeven = ''Depends on IV'', p_idealFor = ''Neutral with time decay focus'',
      p_legs = [
        \<lparr>strikeOffset = 0, leg_type = ''PE'', leg_action = ''SELL'', leg_qty = 1, expiryIndex = Some 0\<rparr>,
        \<lparr>strikeOffset = 0, leg_type = ''PE'', leg_action = ''BUY'', leg_qty = 1, expiryIndex = Some 1\<rparr>],
      p_notes = None\<rparr>"

definition diagonal_spread_call :: preset where
  "diagonal_spread_call =
     \<lparr>p_id = ''diagonal_spread_call'', p_name = ''Diagonal Spread (Call)'',
      p_description = ''Sell near OTM Call + Buy far ATM/ITM Call. Directional calendar.'',
      p_category = CALENDAR, p_multiExpiry = True,
      p_maxProfit = ''At short strike near front expiry'', p_maxLoss = ''Net Debit'',
      p_breakeven = ''Dynamic'', p_idealFor = ''Bullish with time decay'',
      p_legs = [
        \<lparr>strikeOffset = 100, leg_type = ''CE'', leg_action = ''SELL'', leg_qty = 1, expiryIndex = Some 0\<rparr>,
        \<lparr>strikeOffset = 0, leg_type = ''CE'', leg_action = ''BUY'', leg_qty = 1, expiryIndex = Some 1\<rparr>],
      p_notes = None\<rparr>"

definition diagonal_spread_put :: preset where
  "diagonal_spread_put =
     \<lparr>p_id = ''diagonal_spread_put'', p_name = ''Diagonal Spread (Put)'',
      p_description = ''Sell near OTM Put + Buy far ATM/ITM Put. Bearish diagonal.'',
      p_category = CALENDAR, p_multiExpiry = True,
      p_maxProfit = ''At short strike near front expiry'', p_maxLoss = ''Net Debit'',
      p_breakeven = ''Dynamic'', p_idealFor = ''Bearish with time decay'',
      p_legs = [
        \<lparr>strikeOffset = - 100, leg_type = ''PE'', leg_action = ''SELL'', leg_qty = 1, expiryIndex = Some 0\<rparr>,
        \<lparr>strikeOffset = 0, leg_type = ''PE'', leg_action = ''BUY'', leg_qty = 1, expiryIndex = Some 1\<rparr>],
      p_notes = None\<rparr>"

definition double_diagonal :: preset where
  "double_diagonal =
     \<lparr>p_id = ''double_diagonal'', p_name = ''Double Diagonal'',
      p_description = ''Diagonal call spread + Diagonal put spread. Neutral with wider range.'',
      p_category = CALENDAR, p_multiExpiry = True,
      p_maxProfit = ''At either short strike'', p_maxLoss = ''Net Debit'',
      p_breakeven = ''2 points (approximate)'', p_idealFor = ''Neutral, range-bound with dual time decay'',
      p_legs = [
        \<lparr>strikeOffset = - 100, leg_type = ''PE'', leg_action = ''SELL'', leg_qty = 1, expiryIndex = Some 0\<rparr>,
        \<lparr>strikeOffset = - 200, leg_type = ''PE'', leg_action = ''BUY'', leg_qty = 1, expiryIndex = Some 1\<rparr>,
        \<lparr>strikeOffset = 100, leg_type = ''CE'', leg_action = ''SELL'', leg_qty = 1, expiryIndex = Some 0\<rparr>,
        \<lparr>strikeOffset = 200, leg_type = ''CE'', leg_action = ''BUY'', leg_qty = 1, expiryIndex = Some 1\<rparr>],
      p_notes = None\<rparr>"

definition covered_call :: preset where
  "covered_call =
     \<lparr>p_id = ''covered_call'', p_name = ''Covered Call (Synthetic)'',
      p_description = ''Long stock (simulated) + Sell OTM Call.'',
      p_category = INCOME, p_multiExpiry = False,
      p_maxProfit = ''Strike - Entry + Premium'', p_maxLoss = ''Stock drops to zero'',
      p_breakeven = ''Entry - Premium'', p_idealFor = ''Income on existing position'',
      p_legs = [
        \<lparr>strikeOffset = 100, leg_type = ''CE'', leg_action = ''SELL'', leg_qty = 1, expiryIndex = None\<rparr>],
      p_notes = Some ''Requires underlying position''\<rparr>"

definition cash_secured_put :: preset where
  "cash_secured_put =
     \<lparr>p_id = ''cash_secured_put'', p_name = ''Cash Secured Put'',
      p_description = ''Sell OTM Put with cash to cover assignment.'',
      p_category = INCOME, p_multiExpiry = False,
      p_maxProfit = ''Premium Received'', p_maxLoss = ''Strike - Premium (if assigned)'',
      p_breakeven = ''Strike - Premium'', p_idealFor = ''Willing to own at lower price'',
      p_legs = [
        \<lparr>strikeOffset = - 100, leg_type = ''PE'', leg_action = ''SELL'', leg_qty = 1, expiryIndex = None\<rparr>],
      p_notes = None\<rparr>"

definition STRATEGY_PRESETS :: "preset list" where
  "STRATEGY_PRESETS =
     [long_straddle, short_straddle, long_strangle, short_strangle,
      iron_condor, iron_butterfly, jade_lizard, broken_wing_butterfly,
      bull_call_spread, bear_put_spread, bull_put_spread, bear_call_spread,
      calendar_spread_call, calendar_spread_put, diagonal_spread_call, diagonal_spread_put,
      double_diagonal, covered_call, cash_secured_put]"

section \<open>Operations\<close>

definition getPresetsByCategory :: "string \<Rightarrow> preset list" where
  "getPresetsByCategory c = filter (\<lambda>p. category_value (p_category p) = c) STRATEGY_PRESETS"

definition getCalendarPresets :: "preset list" where
  "getCalendarPresets = filter p_multiExpiry STRATEGY_PRESETS"

definition element :: "jsval list \<Rightarrow> nat \<Rightarrow> jsval" where
  "element xs i = (if i < length xs then xs ! i else Undef)"

definition leg_expiry :: "jsval list \<Rightarrow> leg_def \<Rightarrow> jsval" where
  "leg_expiry expiries l =
     js_or (element expiries (case expiryIndex l of Some i \<Rightarrow> i | None \<Rightarrow> 0)) (element expiries 0)"

definition leg_strike :: "jsnum \<Rightarrow> leg_def \<Rightarrow> jsnum" where
  "leg_strike atmStrike l = atmStrike + jint (strikeOffset l)"

definition option_data :: "jsval \<Rightarrow> jsnum \<Rightarrow> leg_def \<Rightarrow> jsval" where
  "option_data optionChain atmStrike l =
     (let chainData = opt optionChain (num_to_string (leg_strike atmStrike l))
      in if leg_type l = ''CE'' then opt chainData ''ce'' else opt chainData ''pe'')"

definition num_or_zero :: "jsval \<Rightarrow> jsval" where
  "num_or_zero v = js_or v (Num (Fin 0))"

text \<open>One leg; its id (clock plus random number) is a parameter.\<close>

definition build_leg :: "jsnum \<Rightarrow> jsnum \<Rightarrow> jsval \<Rightarrow> jsval list \<Rightarrow> jsval \<Rightarrow> leg_def \<Rightarrow> jsval" where
  "build_leg ident atmStrike optionChain expiries lotSize l =
     (let optionData = option_data optionChain atmStrike l;
          greek = (\<lambda>k. num_or_zero (opt (opt optionData ''optgeeks'') k))
      in Obj [(''id'', Num ident), (''strike'', Num (leg_strike atmStrike l)),
              (''type'', Str (leg_type l)), (''action'', Str (leg_action l)),
              (''qty'', js_or (Num (jint (leg_qty l))) (Num (Fin 1))),
              (''expiry'', leg_expiry expiries l),
              (''ltp'', num_or_zero (opt optionData ''ltp'')),
              (''iv'', js_or (opt optionData ''iv'') (Num (N (15 / 100)))),
              (''delta'', greek ''delta''), (''theta'', greek ''theta''), (''gamma'', greek ''gamma''),
              (''vega'', greek ''vega''), (''lotSize'', lotSize)])"

definition buildLegsFromPreset ::
    "(nat \<Rightarrow> jsnum) \<Rightarrow> preset \<Rightarrow> jsnum \<Rightarrow> jsval \<Rightarrow> jsval list \<Rightarrow> jsval \<Rightarrow> jsval list" where
  "buildLegsFromPreset idents preset atmStrike optionChain expiries lotSize0 =
     (let lotSize = (if lotSize0 = Undef then Num (Fin 1) else lotSize0)
      in map (\<lambda>(i, l). build_leg (idents i) atmStrike optionChain expiries lotSize l)
           (enumerate 0 (p_legs preset)))"

section \<open>Properties\<close>

subsection \<open>What the labels promise\<close>

text \<open>The value of a preset at expiry when the underlying stands at \<open>s\<close>, without the premium.\<close>

definition leg_sign :: "leg_def \<Rightarrow> rat" where
  "leg_sign l = (if leg_action l = ''BUY'' then of_int (leg_qty l) else - of_int (leg_qty l))"

definition intrinsic :: "rat \<Rightarrow> rat \<Rightarrow> leg_def \<Rightarrow> rat" where
  "intrinsic atm s l =
     (let k = atm + of_int (strikeOffset l)
      in if leg_type l = ''CE'' then max 0 (s - k) else max 0 (k - s))"

definition legs_value :: "leg_def list \<Rightarrow> rat \<Rightarrow> rat \<Rightarrow> rat" where
  "legs_value ls atm s = (\<Sum>l\<leftarrow>ls. leg_sign l * intrinsic atm s l)"

definition net_calls :: "leg_def list \<Rightarrow> rat" where
  "net_calls ls = (\<Sum>l\<leftarrow>ls. if leg_type l = ''CE'' then leg_sign l else 0)"

lemma legs_value_far:
  "\<exists>c m. \<forall>s. m \<le> s \<longrightarrow> legs_value ls atm s = net_calls ls * s + c"
proof (induction ls)
  case Nil
  then show ?case by (simp add: legs_value_def net_calls_def)
next
  case (Cons l ls)
  then obtain c m where cm: "\<And>s. m \<le> s \<Longrightarrow> legs_value ls atm s = net_calls ls * s + c" by blast
  let ?k = "atm + of_int (strikeOffset l)"
  let ?c = "c - (if leg_type l = ''CE'' then leg_sign l * ?k else 0)"
  have "legs_value (l # ls) atm s = net_calls (l # ls) * s + ?c" if s: "max m ?k \<le> s" for s
  proof -
    have "intrinsic atm s l = (if leg_type l = ''CE'' then s - ?k else 0)"
      using s by (simp add: intrinsic_def Let_def)
    moreover have "legs_value (l # ls) atm s = leg_sign l * intrinsic atm s l + legs_value ls atm s"
      "net_calls (l # ls) = (if leg_type l = ''CE'' then leg_sign l else 0) + net_calls ls"
      by (simp_all add: legs_value_def net_calls_def)
    ultimately show ?thesis using cm [of s] s by (simp add: algebra_simps)
  qed
  then show ?case by blast
qed

lemma legs_value_near:
  "\<exists>b. \<forall>s. 0 \<le> s \<and> s \<le> m \<longrightarrow> \<bar>legs_value ls atm s\<bar> \<le> b"
proof (induction ls)
  case Nil
  then show ?case by (auto simp: legs_value_def)
next
  case (Cons l ls)
  then obtain b where b: "\<And>s. 0 \<le> s \<Longrightarrow> s \<le> m \<Longrightarrow> \<bar>legs_value ls atm s\<bar> \<le> b" by blast
  let ?k = "atm + of_int (strikeOffset l)"
  have "\<bar>legs_value (l # ls) atm s\<bar> \<le> \<bar>leg_sign l\<bar> * (\<bar>m\<bar> + \<bar>?k\<bar>) + b" if s: "0 \<le> s" "s \<le> m" for s
  proof -
    have "\<bar>intrinsic atm s l\<bar> \<le> \<bar>m\<bar> + \<bar>?k\<bar>"
      using s unfolding intrinsic_def Let_def by (auto simp: max_def)
    then have "\<bar>leg_sign l * intrinsic atm s l\<bar> \<le> \<bar>leg_sign l\<bar> * (\<bar>m\<bar> + \<bar>?k\<bar>)"
      by (simp add: abs_mult mult_left_mono)
    moreover have "legs_value (l # ls) atm s = leg_sign l * intrinsic atm s l + legs_value ls atm s"
      by (simp add: legs_value_def)
    ultimately show ?thesis using b [OF s] by linarith
  qed
  then show ?case by blast
qed

lemma value_unbounded_iff: "(\<forall>b. \<exists>s \<ge> 0. b < legs_value ls atm s) \<longleftrightarrow> 0 < net_calls ls"
proof -
  obtain c m where far: "\<And>s. m \<le> s \<Longrightarrow> legs_value ls atm s = net_calls ls * s + c"
    using legs_value_far by blast
  obtain b0 where near: "\<And>s. 0 \<le> s \<Longrightarrow> s \<le> m \<Longrightarrow> \<bar>legs_value ls atm s\<bar> \<le> b0"
    using legs_value_near by blast
  show ?thesis
  proof
    assume "0 < net_calls ls"
    have "\<exists>s \<ge> 0. b < legs_value ls atm s" for b
    proof -
      let ?s = "max (max 0 m) ((b - c + 1) / net_calls ls)"
      have "b - c + 1 \<le> net_calls ls * ?s"
        using \<open>0 < net_calls ls\<close> pos_divide_le_eq [of "net_calls ls" "b - c + 1" ?s]
        by (simp only: mult.commute [of "net_calls ls"] max.cobounded2)
      then have "b < legs_value ls atm ?s" using far [of ?s] by simp
      then show ?thesis by (intro exI [of _ ?s]) simp
    qed
    then show "\<forall>b. \<exists>s \<ge> 0. b < legs_value ls atm s" by blast
  next
    assume unb: "\<forall>b. \<exists>s \<ge> 0. b < legs_value ls atm s"
    show "0 < net_calls ls"
    proof (rule ccontr)
      assume "\<not> 0 < net_calls ls"
      obtain s where "0 \<le> s \<and> max \<bar>b0\<bar> \<bar>c\<bar> < legs_value ls atm s" using unb by blast
      then have s: "0 \<le> s" "b0 < legs_value ls atm s" "c < legs_value ls atm s" by auto
      show False
      proof (cases "s \<le> m")
        case True
        then show False using near [of s] s by linarith
      next
        case False
        moreover have "net_calls ls * s \<le> 0"
          using \<open>\<not> 0 < net_calls ls\<close> s(1) by (simp add: mult_nonpos_nonneg)
        ultimately show False using far [of s] s(3) by simp
      qed
    qed
  qed
qed

text \<open>The mirror image: turning every leg round.\<close>

definition reversed_leg :: "leg_def \<Rightarrow> leg_def" where
  "reversed_leg l = l\<lparr>leg_qty := - leg_qty l\<rparr>"

lemma legs_value_reversed:
  "legs_value (map reversed_leg ls) atm s = - legs_value ls atm s"
  "net_calls (map reversed_leg ls) = - net_calls ls"
  by (induction ls) (auto simp: legs_value_def net_calls_def reversed_leg_def leg_sign_def intrinsic_def)

lemma loss_unbounded_iff: "(\<forall>b. \<exists>s \<ge> 0. legs_value ls atm s < b) \<longleftrightarrow> net_calls ls < 0"
proof -
  have "(\<forall>b. \<exists>s \<ge> 0. legs_value ls atm s < b) \<longleftrightarrow> (\<forall>b. \<exists>s \<ge> 0. b < - legs_value ls atm s)"
    by (metis minus_less_iff neg_less_iff_less)
  then show ?thesis
    using value_unbounded_iff [of "map reversed_leg ls" atm] by (simp add: legs_value_reversed)
qed

lemma preset_net_calls:
  "\<forall>p \<in> set STRATEGY_PRESETS. \<not> p_multiExpiry p \<longrightarrow>
     (p_maxProfit p = ''Unlimited'' \<longleftrightarrow> 0 < net_calls (p_legs p)) \<and>
     ((p_maxLoss p = ''Unlimited'' \<or> p_id p = ''covered_call'') \<longleftrightarrow> net_calls (p_legs p) < 0)"
  by (simp add: STRATEGY_PRESETS_def net_calls_def leg_sign_def long_straddle_def short_straddle_def long_strangle_def short_strangle_def
      iron_condor_def iron_butterfly_def jade_lizard_def broken_wing_butterfly_def
      bull_call_spread_def bear_put_spread_def bull_put_spread_def bear_call_spread_def
      calendar_spread_call_def calendar_spread_put_def diagonal_spread_call_def diagonal_spread_put_def
      double_diagonal_def covered_call_def cash_secured_put_def)

text \<open>The labels of the single-expiry presets are right about what has no bound: the value at
  expiry of the legs grows without limit exactly for the presets labelled with unlimited profit,
  and falls without limit exactly for those labelled with unlimited loss and for the covered
  call, whose only leg is the sold call (its label counts a stock position that is no leg).\<close>

theorem preset_labels:
  assumes "p \<in> set STRATEGY_PRESETS" and "\<not> p_multiExpiry p"
  shows "(p_maxProfit p = ''Unlimited'' \<longleftrightarrow> (\<forall>b. \<exists>s \<ge> 0. b < legs_value (p_legs p) atm s))
       \<and> ((p_maxLoss p = ''Unlimited'' \<or> p_id p = ''covered_call'') \<longleftrightarrow>
            (\<forall>b. \<exists>s \<ge> 0. legs_value (p_legs p) atm s < b))"
  using assms preset_net_calls by (auto simp: value_unbounded_iff loss_unbounded_iff)

theorem preset_labels_witness:
  "\<not> (\<forall>b. \<exists>s \<ge> 0. b < legs_value (p_legs iron_condor) 24500 s)
   \<and> (\<forall>b. \<exists>s \<ge> 0. legs_value (p_legs covered_call) 24500 s < b)"
  using preset_labels [of iron_condor 24500] preset_labels [of covered_call 24500]
  by (simp add: STRATEGY_PRESETS_def iron_condor_def covered_call_def)

subsection \<open>Presets on their way to the backend\<close>

definition encoded_leg :: "jsnum \<Rightarrow> jsval \<Rightarrow> jsval list \<Rightarrow> jsval \<Rightarrow> leg_def \<Rightarrow> jsval" where
  "encoded_leg atmStrike optionChain expiries lotSize l =
     Obj [(''strike'', Num (leg_strike atmStrike l)), (''option_type'', Str (leg_type l)),
          (''action'', Str (leg_action l)), (''qty'', Num (jint (leg_qty l))),
          (''entry_price'', num_or_zero (opt (option_data optionChain atmStrike l) ''ltp'')),
          (''iv'', js_or (opt (option_data optionChain atmStrike l) ''iv'') (Num (N (15 / 100)))),
          (''expiry'', leg_expiry expiries l),
          (''lot_size'', js_or lotSize (Num (Fin 1)))]"

definition plain_leg :: "leg_def \<Rightarrow> bool" where
  "plain_leg l \<longleftrightarrow> leg_type l \<noteq> [] \<and> 1 \<le> leg_qty l \<and> leg_qty l \<le> 2"

lemma presets_plain: "p \<in> set STRATEGY_PRESETS \<Longrightarrow> l \<in> set (p_legs p) \<Longrightarrow> plain_leg l"
proof -
  have "\<forall>p \<in> set STRATEGY_PRESETS. \<forall>l \<in> set (p_legs p). plain_leg l"
    by (simp add: STRATEGY_PRESETS_def plain_leg_def long_straddle_def short_straddle_def long_strangle_def short_strangle_def
      iron_condor_def iron_butterfly_def jade_lizard_def broken_wing_butterfly_def
      bull_call_spread_def bear_put_spread_def bull_put_spread_def bear_call_spread_def
      calendar_spread_call_def calendar_spread_put_def diagonal_spread_call_def diagonal_spread_put_def
      double_diagonal_def covered_call_def cash_secured_put_def)
  then show "p \<in> set STRATEGY_PRESETS \<Longrightarrow> l \<in> set (p_legs p) \<Longrightarrow> plain_leg l" by blast
qed

lemma format_build_leg:
  assumes "plain_leg l"
  shows "format_leg (build_leg i atm chain expiries lotSize l) = Inr (encoded_leg atm chain expiries lotSize l)"
proof -
  have "jint (leg_qty l) = Fin (of_int (leg_qty l))" "leg_qty l \<noteq> 0"
    using assms by (simp_all add: plain_leg_def jint_small)
  then show ?thesis
    using assms
    by (simp add: build_leg_def format_leg_def encoded_leg_def or_chain_def plain_leg_def Let_def)
qed

lemma built_legs_encoded:
  assumes "p \<in> set STRATEGY_PRESETS"
  shows "formatLegs (Arr (buildLegsFromPreset ids p atm chain expiries lotSize)) =
           Inr (Arr (map (encoded_leg atm chain expiries lotSize) (p_legs p)))"
proof -
  have lots: "encoded_leg atm chain expiries (if lotSize = Undef then Num (Fin 1) else lotSize) l
      = encoded_leg atm chain expiries lotSize l" for l
    by (simp add: encoded_leg_def)
  have "res_map format_leg (map (\<lambda>(i, l). build_leg (ids i) atm chain expiries n l) (enumerate j ls))
      = Inr (map (encoded_leg atm chain expiries n) ls)"
    if "\<forall>l \<in> set ls. plain_leg l" for j ls n
    using that by (induction ls arbitrary: j) (simp_all add: format_build_leg)
  then show ?thesis
    using presets_plain [OF assms] lots
    by (simp add: formatLegs_def buildLegsFromPreset_def Let_def)
qed

text \<open>A preset applied to an option chain reaches the backend intact: the legs that
  \<open>buildLegsFromPreset\<close> builds pass \<open>_formatLegs\<close> with their strikes, types, actions, quantities and
  expiries, priced at the last traded price of the chain, in the order of the preset.\<close>

theorem preset_legs_encoded:
  assumes "p \<in> set STRATEGY_PRESETS"
  shows "formatLegs (Arr (buildLegsFromPreset ids p atm chain expiries lotSize)) =
           Inr (Arr (map (encoded_leg atm chain expiries lotSize) (p_legs p)))"
  using assms by (rule built_legs_encoded)

theorem preset_legs_encoded_witness:
  "formatLegs (Arr (buildLegsFromPreset (\<lambda>i. Fin 0) covered_call (Fin 24500) Undef [Num (Fin 7)] Undef)) =
     Inr (Arr [Obj [(''strike'', Num (Fin 24600)), (''option_type'', Str ''CE''), (''action'', Str ''SELL''),
                    (''qty'', Num (Fin 1)), (''entry_price'', Num (Fin 0)), (''iv'', Num (N (15 / 100))),
                    (''expiry'', Num (Fin 7)), (''lot_size'', Num (Fin 1))]])"
proof -
  have "formatLegs (Arr (buildLegsFromPreset (\<lambda>i. Fin 0) covered_call (Fin 24500) Undef [Num (Fin 7)] Undef)) =
      Inr (Arr (map (encoded_leg (Fin 24500) Undef [Num (Fin 7)] Undef) (p_legs covered_call)))"
    by (rule preset_legs_encoded) (simp add: STRATEGY_PRESETS_def)
  then show ?thesis
    by (simp add: covered_call_def encoded_leg_def leg_strike_def jint_small option_data_def num_or_zero_def
        leg_expiry_def element_def)
qed

text \<open>With fewer than two expiries a calendar spread is no spread: both legs get the one expiry,
  and the legs sent differ in the action alone, a sale and a purchase of the same contract.\<close>

theorem calendar_spread_collapses:
  assumes "p = calendar_spread_call \<or> p = calendar_spread_put" and "\<not> truthy (element expiries 1)"
  shows "\<exists>leg. formatLegs (Arr (buildLegsFromPreset ids p atm chain expiries lotSize)) =
           Inr (Arr [set_prop leg ''action'' (Str ''SELL''), set_prop leg ''action'' (Str ''BUY'')])"
proof -
  have p: "p \<in> set STRATEGY_PRESETS" using assms(1) by (auto simp: STRATEGY_PRESETS_def)
  have e: "js_or (element expiries 1) (element expiries 0) = js_or (element expiries 0) (element expiries 0)"
    using assms(2) by (simp add: js_or_def)
  define l where "l = hd (p_legs p)"
  let ?leg = "encoded_leg atm chain expiries lotSize l"
  have "map (encoded_leg atm chain expiries lotSize) (p_legs p)
      = [set_prop ?leg ''action'' (Str ''SELL''), set_prop ?leg ''action'' (Str ''BUY'')]"
    using assms(1) e
    by (auto simp: l_def calendar_spread_call_def calendar_spread_put_def encoded_leg_def set_prop_def
        put_def leg_expiry_def option_data_def leg_strike_def)
  then show ?thesis
    using built_legs_encoded [OF p, of ids atm chain expiries lotSize] by (intro exI [of _ ?leg]) simp
qed

theorem calendar_spread_collapses_witness:
  "\<exists>leg. formatLegs (Arr (buildLegsFromPreset (\<lambda>i. Fin 0) calendar_spread_call (Fin 24500) Undef [Num (Fin 7)] Undef)) =
     Inr (Arr [set_prop leg ''action'' (Str ''SELL''), set_prop leg ''action'' (Str ''BUY'')])"
  by (rule calendar_spread_collapses) (simp_all add: element_def)

end
