(* ===== verification/Market_Services.thy ===== *)
theory Market_Services
  imports Calculator_Service
begin

text \<open>
  The services that read market data and analytics (src/services): marketDataService.js,
  historicalService.js, screenerService.js, analyticsService.js, analyticsProService.js and
  performanceAnalytics.js.  A method is the request it builds from its arguments and what it
  makes of the outcome; the client and the network are the parameter \<open>server\<close>.
\<close>

section \<open>Requests\<close>

definition request :: "http_request \<Rightarrow> server \<Rightarrow> jsval result" where
  "request req server = api_call (Inr req) server"

text \<open>A method that destructures its argument sends the request unless there is none.\<close>

definition request_with :: "jsval \<Rightarrow> http_request \<Rightarrow> server \<Rightarrow> jsval result" where
  "request_with p req server = api_call (destructured p (Inr req)) server"

text \<open>A method that awaits the answer without reading it.\<close>

definition sent_only :: "http_request \<Rightarrow> server \<Rightarrow> jsval result" where
  "sent_only req server = res_bind (server req) (\<lambda>r. Inr Undef)"

text \<open>A segment of a path, and default parameters.\<close>

definition seg :: "jsval \<Rightarrow> string" where
  "seg v = ''/'' @ js_to_string v"

definition default_arg :: "jsval \<Rightarrow> jsval \<Rightarrow> jsval" where
  "default_arg d v = (if v = Undef then d else v)"

definition or_empty :: "jsval \<Rightarrow> jsval" where
  "or_empty p = default_arg (Obj []) p"

text \<open>\<open>catch (error) \{ throw error.message || fallback \}\<close>.\<close>

definition rethrow :: "string \<Rightarrow> jsval result \<Rightarrow> jsval result" where
  "rethrow fallback r =
     (case r of
        Inr v \<Rightarrow> Inr v
      | Inl e \<Rightarrow> res_bind (get (caught e) ''message'') (\<lambda>m. Inl (Thrown (js_or m (Str fallback)))))"


section \<open>marketDataService\<close>

definition md_getExpiryDates :: "server \<Rightarrow> jsval \<Rightarrow> jsval result" where
  "md_getExpiryDates server symbol =
     rethrow ''Failed to fetch expiry dates'' (request (http_get (''/options/expiry'' @ seg symbol) Undef) server)"

definition md_getOptionChain :: "server \<Rightarrow> jsval \<Rightarrow> jsval \<Rightarrow> jsval result" where
  "md_getOptionChain server symbol expiry =
     rethrow ''Failed to fetch option chain'' (request (http_get (''/options/chain'' @ seg symbol @ seg expiry) Undef) server)"

definition md_getLiveData :: "server \<Rightarrow> jsval \<Rightarrow> jsval result" where
  "md_getLiveData server params =
     rethrow ''Failed to fetch live data'' (request (http_get ''/options/live''
       params) server)"

definition md_getPercentageData :: "server \<Rightarrow> jsval \<Rightarrow> jsval result" where
  "md_getPercentageData server body =
     rethrow ''Failed to fetch percentage data'' (request (http_send POST ''/options/percentage'' body) server)"

definition md_getIVData :: "server \<Rightarrow> jsval \<Rightarrow> jsval result" where
  "md_getIVData server body =
     rethrow ''Failed to fetch IV data'' (request (http_send POST ''/options/iv'' body) server)"

definition md_getGreeksData :: "server \<Rightarrow> jsval \<Rightarrow> jsval result" where
  "md_getGreeksData server body =
     rethrow ''Failed to fetch Greeks data'' (request (http_send POST ''/options/delta'' body) server)"

definition md_getFuturesData :: "server \<Rightarrow> jsval \<Rightarrow> jsval result" where
  "md_getFuturesData server body =
     rethrow ''Failed to fetch futures data'' (request (http_send POST ''/options/future'' body) server)"

section \<open>historicalService\<close>

definition HISTORICAL_BASE :: string where
  "HISTORICAL_BASE = ''/historical''"

definition hist_getAvailableExpiries :: "server \<Rightarrow> jsval \<Rightarrow> jsval result" where
  "hist_getAvailableExpiries server symbol =
     request (http_get (HISTORICAL_BASE @ ''/expiries'' @ seg symbol) Undef) server"

definition hist_getAvailableTimes :: "server \<Rightarrow> jsval \<Rightarrow> jsval \<Rightarrow> jsval result" where
  "hist_getAvailableTimes server symbol date =
     request (http_get (HISTORICAL_BASE @ ''/times'' @ seg symbol @ seg date) Undef) server"

definition hist_getReplayData :: "server \<Rightarrow> jsval \<Rightarrow> jsval result" where
  "hist_getReplayData server p =
     request_with p (http_get (HISTORICAL_BASE @ ''/replay'')
       (Obj [(''symbol'', opt p ''symbol''), (''expiry'', opt p ''expiry''),
        (''date'', opt p ''date''), (''start_time'', opt p ''startTime''),
        (''end_time'', opt p ''endTime''),
        (''interval'', or_default p ''interval'' (Num (Fin 5)))])) server"

definition hist_getAvailableDates :: "server \<Rightarrow> jsval \<Rightarrow> jsval \<Rightarrow> jsval result" where
  "hist_getAvailableDates server symbol expiry =
     request (http_get (HISTORICAL_BASE @ ''/dates'' @ seg symbol)
       (Obj (if truthy expiry then [(''expiry'', expiry)] else []))) server"

text \<open>The abort signal of a snapshot request belongs to axios.\<close>

definition hist_getHistoricalSnapshot :: "server \<Rightarrow> jsval \<Rightarrow> jsval result" where
  "hist_getHistoricalSnapshot server p =
     request_with p (http_get (''/options/chain'' @ seg (opt p ''symbol'') @ seg (opt p ''expiry''))
       (Obj [(''mode'', Str ''historical''), (''date'', opt p ''date''), (''time'', opt p ''time''),
        (''include_greeks'', Bool True), (''include_reversal'', Bool False)])) server"

section \<open>screenerService\<close>

definition SCREENER_BASE :: string where
  "SCREENER_BASE = ''/screeners''"

definition scr_getScalpSignals :: "server \<Rightarrow> jsval \<Rightarrow> jsval result" where
  "scr_getScalpSignals server p =
     request_with p (http_get (SCREENER_BASE @ ''/scalp'' @ seg (opt p ''symbol'') @ seg (opt p ''expiry''))
       (Obj [(''min_oi_change_pct'', or_default p ''minOiChangePct'' (Num (Fin 5))),
        (''min_volume'', or_default p ''minVolume'' (Num (Fin 1000)))])) server"

definition scr_getPositionalSignals :: "server \<Rightarrow> jsval \<Rightarrow> jsval result" where
  "scr_getPositionalSignals server p =
     request_with p (http_get (SCREENER_BASE @ ''/positional'' @ seg (opt p ''symbol'') @ seg (opt p ''expiry''))
       (Obj [(''min_oi_buildup'', or_default p ''minOiBuildup'' (Num (Fin 100000)))])) server"

definition scr_getSRSignals :: "server \<Rightarrow> jsval \<Rightarrow> jsval result" where
  "scr_getSRSignals server p =
     request_with p (http_get (SCREENER_BASE @ ''/sr'' @ seg (opt p ''symbol'') @ seg (opt p ''expiry'')) Undef) server"

definition scr_getAllSignals :: "server \<Rightarrow> jsval \<Rightarrow> jsval result" where
  "scr_getAllSignals server p =
     request_with p (http_get (SCREENER_BASE @ ''/all'' @ seg (opt p ''symbol'') @ seg (opt p ''expiry'')) Undef) server"

section \<open>analyticsService\<close>

definition ANALYTICS_BASE :: string where
  "ANALYTICS_BASE = ''/analytics''"

definition an_getStrikeTimeSeries :: "server \<Rightarrow> jsval \<Rightarrow> jsval result" where
  "an_getStrikeTimeSeries server p =
     request_with p (http_get (ANALYTICS_BASE @ ''/timeseries'' @ seg (opt p ''symbol'') @ seg (opt p ''strike''))
       (Obj [(''expiry'', opt p ''expiry''),
        (''option_type'', or_default p ''optionType'' (Str ''CE'')),
        (''field'', or_default p ''field'' (Str ''oi'')),
        (''interval'', or_default p ''interval'' (Str ''auto'')),
        (''limit'', or_default p ''limit'' (Num (Fin 50))),
        (''date'', or_default p ''date'' Null)])) server"

definition an_getMultiViewTimeSeries :: "server \<Rightarrow> jsval \<Rightarrow> jsval result" where
  "an_getMultiViewTimeSeries server p =
     request_with p (http_get (ANALYTICS_BASE @ ''/timeseries'' @ seg (opt p ''symbol'') @ seg (opt p ''strike'') @ ''/multi'')
       (Obj [(''expiry'', opt p ''expiry''),
        (''field'', or_default p ''field'' (Str ''oi'')),
        (''interval'', or_default p ''interval'' (Str ''auto'')),
        (''date'', or_default p ''date'' Null)])) server"

definition an_getSpotTimeSeries :: "server \<Rightarrow> jsval \<Rightarrow> jsval result" where
  "an_getSpotTimeSeries server p =
     request_with p (http_get (ANALYTICS_BASE @ ''/timeseries/spot'' @ seg (opt p ''symbol''))
       (Obj [(''interval'', or_default p ''interval'' (Str ''auto'')),
        (''limit'', or_default p ''limit'' (Num (Fin 100)))])) server"

definition an_getStrikeAnalysis :: "server \<Rightarrow> jsval \<Rightarrow> jsval result" where
  "an_getStrikeAnalysis server p =
     request_with p (http_get (ANALYTICS_BASE @ ''/strike'' @ seg (opt p ''symbol'') @ seg (opt p ''strike''))
       (Obj [(''expiry'', opt p ''expiry'')])) server"

definition an_getFuturesSummary :: "server \<Rightarrow> jsval \<Rightarrow> jsval result" where
  "an_getFuturesSummary server symbol =
     request (http_get (ANALYTICS_BASE @ ''/futures'' @ seg symbol) Undef) server"

definition an_getOIDistribution :: "server \<Rightarrow> jsval \<Rightarrow> jsval result" where
  "an_getOIDistribution server p =
     request_with p (http_get (ANALYTICS_BASE @ ''/oi-distribution'' @ seg (opt p ''symbol'') @ seg (opt p ''expiry''))
       (Obj [(''top_n'', or_default p ''topN'' (Num (Fin 20)))])) server"

definition an_getMaxPainAnalysis :: "server \<Rightarrow> jsval \<Rightarrow> jsval result" where
  "an_getMaxPainAnalysis server p =
     request_with p (http_get (ANALYTICS_BASE @ ''/maxpain'' @ seg (opt p ''symbol'') @ seg (opt p ''expiry'')) Undef) server"

definition an_getIVSkew :: "server \<Rightarrow> jsval \<Rightarrow> jsval result" where
  "an_getIVSkew server p =
     request_with p (http_get (ANALYTICS_BASE @ ''/iv-skew'' @ seg (opt p ''symbol'') @ seg (opt p ''expiry'')) Undef) server"

definition an_getAggregateCOI :: "server \<Rightarrow> jsval \<Rightarrow> jsval result" where
  "an_getAggregateCOI server p =
     request_with p (http_get (ANALYTICS_BASE @ ''/aggregate/coi'' @ seg (opt p ''symbol'') @ seg (opt p ''expiry''))
       (Obj [(''top_n'', or_default p ''topN'' (Num (Fin 30)))])) server"

definition an_getAggregateOI :: "server \<Rightarrow> jsval \<Rightarrow> jsval result" where
  "an_getAggregateOI server p =
     request_with p (http_get (ANALYTICS_BASE @ ''/aggregate/oi'' @ seg (opt p ''symbol'') @ seg (opt p ''expiry''))
       (Obj [(''top_n'', or_default p ''topN'' (Num (Fin 30)))])) server"

definition an_getAggregatePCR :: "server \<Rightarrow> jsval \<Rightarrow> jsval result" where
  "an_getAggregatePCR server p =
     request_with p (http_get (ANALYTICS_BASE @ ''/aggregate/pcr'' @ seg (opt p ''symbol'') @ seg (opt p ''expiry'')) Undef) server"

definition an_getAggregatePercentage :: "server \<Rightarrow> jsval \<Rightarrow> jsval result" where
  "an_getAggregatePercentage server p =
     request_with p (http_get (ANALYTICS_BASE @ ''/aggregate/percentage'' @ seg (opt p ''symbol'') @ seg (opt p ''expiry'')) Undef) server"

definition an_getChartData :: "server \<Rightarrow> jsval \<Rightarrow> jsval result" where
  "an_getChartData server p =
     request_with p (http_get ''/charts/data''
       (Obj [(''symbol'', opt p ''symbol''),
        (''interval'', or_default p ''interval'' (Str ''5'')),
        (''days'', or_default p ''days'' (Num (Fin 30)))])) server"

definition an_getChartIntervals :: "server \<Rightarrow> jsval result" where
  "an_getChartIntervals server =
     request (http_get ''/charts/intervals'' Undef) server"

text \<open>
  \<open>getSymbols\<close> flattens the three segments and names each symbol for the page.  Spreading a
  value that cannot be iterated throws; a string would spread into its characters.
\<close>

fun spread_items :: "jsval \<Rightarrow> jsval list result" where
  "spread_items (Arr xs) = Inr xs"
| "spread_items (Str s) = Inr (map (\<lambda>c. Str [c]) s)"
| "spread_items v = Inl TypeError"

definition named_symbol :: "jsval \<Rightarrow> jsval result" where
  "named_symbol s =
     (if nullish s then Inl TypeError
      else Inr (spread s [(''name'', js_or (opt s ''display_name'') (opt s ''symbol''))]))"

definition segment :: "jsval \<Rightarrow> string \<Rightarrow> jsval list result" where
  "segment raw k = spread_items (js_or (opt (opt raw ''by_segment'') k) (Arr []))"

definition all_symbols :: "jsval \<Rightarrow> jsval result" where
  "all_symbols raw =
     (if nullish raw then Inl TypeError
      else res_bind (segment raw ''indices'') (\<lambda>a.
           res_bind (segment raw ''equities'') (\<lambda>b.
           res_bind (segment raw ''commodities'') (\<lambda>c.
           res_bind (res_map named_symbol (a @ b @ c)) (\<lambda>xs.
             Inr (Obj [(''success'', Bool True), (''data'', Arr xs)]))))))"

definition an_getSymbols :: "server \<Rightarrow> jsval result" where
  "an_getSymbols server = res_bind (request (http_get ''/symbols'' Undef) server) all_symbols"

section \<open>analyticsProService\<close>

definition BASE_URL :: string where
  "BASE_URL = ''/analytics''"

definition pro_getAggregateCOI :: "server \<Rightarrow> jsval \<Rightarrow> jsval \<Rightarrow> jsval \<Rightarrow> jsval result" where
  "pro_getAggregateCOI server symbol expiry topN =
     request (http_get (BASE_URL @ ''/aggregate/coi'' @ seg symbol @ seg expiry)
       (Obj [(''top_n'', default_arg (Num (Fin 30)) topN)])) server"

definition pro_getAggregateOI :: "server \<Rightarrow> jsval \<Rightarrow> jsval \<Rightarrow> jsval \<Rightarrow> jsval result" where
  "pro_getAggregateOI server symbol expiry topN =
     request (http_get (BASE_URL @ ''/aggregate/oi'' @ seg symbol @ seg expiry)
       (Obj [(''top_n'', default_arg (Num (Fin 30)) topN)])) server"

definition pro_getAggregatePCR :: "server \<Rightarrow> jsval \<Rightarrow> jsval \<Rightarrow> jsval result" where
  "pro_getAggregatePCR server symbol expiry =
     request (http_get (BASE_URL @ ''/aggregate/pcr'' @ seg symbol @ seg expiry) Undef) server"

definition pro_getAggregatePercentage :: "server \<Rightarrow> jsval \<Rightarrow> jsval \<Rightarrow> jsval result" where
  "pro_getAggregatePercentage server symbol expiry =
     request (http_get (BASE_URL @ ''/aggregate/percentage'' @ seg symbol @ seg expiry) Undef) server"

definition pro_getStrikeAnalysis :: "server \<Rightarrow> jsval \<Rightarrow> jsval \<Rightarrow> jsval \<Rightarrow> jsval result" where
  "pro_getStrikeAnalysis server symbol strike expiry =
     request (http_get (BASE_URL @ ''/analysis/strike'' @ seg symbol @ seg strike)
       (Obj [(''expiry'', expiry)])) server"

definition pro_getReversalLevels :: "server \<Rightarrow> jsval \<Rightarrow> jsval \<Rightarrow> jsval \<Rightarrow> jsval result" where
  "pro_getReversalLevels server symbol strike expiry =
     request (http_get (BASE_URL @ ''/analysis/reversal'' @ seg symbol @ seg strike)
       (Obj [(''expiry'', expiry)])) server"

definition pro_getFuturesSummary :: "server \<Rightarrow> jsval \<Rightarrow> jsval result" where
  "pro_getFuturesSummary server symbol =
     request (http_get (BASE_URL @ ''/futures'' @ seg symbol) Undef) server"

definition pro_getOIDistribution :: "server \<Rightarrow> jsval \<Rightarrow> jsval \<Rightarrow> jsval result" where
  "pro_getOIDistribution server symbol expiry =
     request (http_get (BASE_URL @ ''/analysis/oi-distribution'' @ seg symbol @ seg expiry) Undef) server"

definition pro_getMaxPain :: "server \<Rightarrow> jsval \<Rightarrow> jsval \<Rightarrow> jsval result" where
  "pro_getMaxPain server symbol expiry =
     request (http_get (BASE_URL @ ''/analysis/maxpain'' @ seg symbol @ seg expiry) Undef) server"

definition pro_getIVSkew :: "server \<Rightarrow> jsval \<Rightarrow> jsval \<Rightarrow> jsval result" where
  "pro_getIVSkew server symbol expiry =
     request (http_get (BASE_URL @ ''/analysis/iv-skew'' @ seg symbol @ seg expiry) Undef) server"

section \<open>performanceAnalytics\<close>

definition perf_getAnalyticsOverview :: "server \<Rightarrow> jsval \<Rightarrow> jsval result" where
  "perf_getAnalyticsOverview server days =
     request (http_get ''/analytics/overview''
       (Obj [(''days'', default_arg (Num (Fin 30)) days)])) server"

definition perf_getStrategyBreakdown :: "server \<Rightarrow> jsval \<Rightarrow> jsval result" where
  "perf_getStrategyBreakdown server days =
     request (http_get ''/analytics/by-strategy''
       (Obj [(''days'', default_arg (Num (Fin 30)) days)])) server"

definition perf_getCalibration :: "server \<Rightarrow> jsval \<Rightarrow> jsval result" where
  "perf_getCalibration server bucketSize =
     request (http_get ''/analytics/calibration''
       (Obj [(''bucket_size'', default_arg (Num (N (1 / 10))) bucketSize)])) server"

definition perf_getTimeSeries :: "server \<Rightarrow> jsval \<Rightarrow> jsval \<Rightarrow> jsval result" where
  "perf_getTimeSeries server granularity periods =
     request (http_get ''/analytics/time-series''
       (Obj [(''granularity'', default_arg (Str ''week'') granularity),
        (''periods'', default_arg (Num (Fin 12)) periods)])) server"

definition perf_getTopStrategies :: "server \<Rightarrow> jsval \<Rightarrow> jsval result" where
  "perf_getTopStrategies server limit =
     request (http_get ''/analytics/top-strategies''
       (Obj [(''limit'', default_arg (Num (Fin 5)) limit)])) server"

definition perf_getFullAnalytics :: "server \<Rightarrow> jsval \<Rightarrow> jsval result" where
  "perf_getFullAnalytics server days =
     request (http_get ''/analytics/full''
       (Obj [(''days'', default_arg (Num (Fin 30)) days)])) server"

section \<open>Properties\<close>

text \<open>The two analytics services send the same request for the aggregates and the futures, but
  not for the analyses: the pro service asks for them under \<open>/analytics/analysis\<close>, a path the
  other service does not use.\<close>

theorem analytics_services_compared:
  shows "pro_getAggregateCOI server symbol expiry topN =
           an_getAggregateCOI server (Obj [(''symbol'', symbol), (''expiry'', expiry), (''topN'', topN)])
       \<and> pro_getAggregateOI server symbol expiry topN =
           an_getAggregateOI server (Obj [(''symbol'', symbol), (''expiry'', expiry), (''topN'', topN)])
       \<and> pro_getAggregatePCR server symbol expiry =
           an_getAggregatePCR server (Obj [(''symbol'', symbol), (''expiry'', expiry)])
       \<and> pro_getAggregatePercentage server symbol expiry =
           an_getAggregatePercentage server (Obj [(''symbol'', symbol), (''expiry'', expiry)])
       \<and> pro_getFuturesSummary server symbol = an_getFuturesSummary server symbol
       \<and> pro_getMaxPain server symbol expiry =
           request (http_get (''/analytics/analysis/maxpain'' @ seg symbol @ seg expiry) Undef) server
       \<and> an_getMaxPainAnalysis server (Obj [(''symbol'', symbol), (''expiry'', expiry)]) =
           request (http_get (''/analytics/maxpain'' @ seg symbol @ seg expiry) Undef) server
       \<and> ''/analytics/analysis/maxpain'' @ seg symbol @ seg expiry \<noteq> ''/analytics/maxpain'' @ seg symbol @ seg expiry"
  by (simp add: pro_getAggregateCOI_def an_getAggregateCOI_def pro_getAggregateOI_def an_getAggregateOI_def
      pro_getAggregatePCR_def an_getAggregatePCR_def pro_getAggregatePercentage_def
      an_getAggregatePercentage_def pro_getFuturesSummary_def an_getFuturesSummary_def pro_getMaxPain_def
      an_getMaxPainAnalysis_def request_def request_with_def destructured_def or_default_def default_arg_def
      BASE_URL_def ANALYTICS_BASE_def)

text \<open>The symbol list is the three segments in the order indices, equities, commodities, nothing
  dropped: every entry carries its display name (its symbol where it has none) as its name and
  keeps its other fields.\<close>

theorem symbols_flattened:
  assumes "opt raw ''by_segment'' = Obj [(''indices'', Arr a), (''equities'', Arr b), (''commodities'', Arr c)]"
    and "\<forall>s \<in> set (a @ b @ c). \<exists>ps. s = Obj ps"
    and "server (http_get ''/symbols'' Undef) = Inr (Obj [(''data'', raw)])"
  shows "\<exists>xs. an_getSymbols server = Inr (Obj [(''success'', Bool True), (''data'', Arr xs)])
       \<and> length xs = length (a @ b @ c)
       \<and> (\<forall>i < length xs. opt (xs ! i) ''name'' =
                 js_or (opt ((a @ b @ c) ! i) ''display_name'') (opt ((a @ b @ c) ! i) ''symbol'')
            \<and> (\<forall>k. k \<noteq> ''name'' \<longrightarrow> opt (xs ! i) k = opt ((a @ b @ c) ! i) k))"
proof -
  let ?s = "a @ b @ c"
  have raw: "\<not> nullish raw" using assms(1) by (cases raw) auto
  have ok: "named_symbol s = Inr (spread s [(''name'', js_or (opt s ''display_name'') (opt s ''symbol''))])"
    if s: "s \<in> set ?s" for s
  proof -
    obtain ps where "s = Obj ps" using assms(2) s by blast
    then show ?thesis by (simp add: named_symbol_def)
  qed
  define xs where "xs = map (\<lambda>s. spread s [(''name'', js_or (opt s ''display_name'') (opt s ''symbol''))]) ?s"
  have "res_map named_symbol ?s = Inr xs" unfolding xs_def by (rule res_map_Inr) (rule ok)
  then have "an_getSymbols server = Inr (Obj [(''success'', Bool True), (''data'', Arr xs)])"
    using assms(1,3) raw
    by (simp add: an_getSymbols_def request_def api_call_def response_data_def get_def all_symbols_def segment_def)
  moreover have "opt (xs ! i) k = (if k = ''name'' then js_or (opt (?s ! i) ''display_name'') (opt (?s ! i) ''symbol'')
      else opt (?s ! i) k)" if i: "i < length ?s" for i k
  proof -
    obtain ps where ps: "?s ! i = Obj ps" using assms(2) nth_mem [OF i] by blast
    have "xs ! i = spread (?s ! i) [(''name'', js_or (opt (?s ! i) ''display_name'') (opt (?s ! i) ''symbol''))]"
      unfolding xs_def by (rule nth_map [OF i])
    then show ?thesis by (simp add: ps spread_def own_put)
  qed
  moreover have "length xs = length ?s" by (simp add: xs_def)
  ultimately show ?thesis by (intro exI [of _ xs]) simp
qed

definition sample_raw :: jsval where
  "sample_raw = Obj [(''by_segment'', Obj [(''indices'', Arr [Obj [(''symbol'', Str ''NIFTY''), (''display_name'', Str ''Nifty 50'')]]),
     (''equities'', Arr [Obj [(''symbol'', Str ''INFY'')]]), (''commodities'', Arr [])])]"

theorem symbols_flattened_witness:
  "\<exists>xs. an_getSymbols (\<lambda>r. Inr (Obj [(''data'', sample_raw)])) = Inr (Obj [(''success'', Bool True), (''data'', Arr xs)])
     \<and> length xs = 2"
proof -
  let ?a = "[Obj [(''symbol'', Str ''NIFTY''), (''display_name'', Str ''Nifty 50'')]]"
  let ?b = "[Obj [(''symbol'', Str ''INFY'')]]"
  let ?server = "\<lambda>r :: http_request. Inr (Obj [(''data'', sample_raw)]) :: jsval result"
  have "opt sample_raw ''by_segment'' = Obj [(''indices'', Arr ?a), (''equities'', Arr ?b), (''commodities'', Arr [])]"
    by (simp add: sample_raw_def)
  moreover have "\<forall>s \<in> set (?a @ ?b @ []). \<exists>ps. s = Obj ps" by simp
  moreover have "?server (http_get ''/symbols'' Undef) = Inr (Obj [(''data'', sample_raw)])" by simp
  ultimately obtain xs where "an_getSymbols ?server = Inr (Obj [(''success'', Bool True), (''data'', Arr xs)])"
    "length xs = length (?a @ ?b @ [])"
    using symbols_flattened [of sample_raw ?a ?b "[]" ?server] by blast
  then show ?thesis by (intro exI [of _ xs]) simp
qed

end
