(* ===== verification/Account_Services.thy ===== *)
theory Account_Services
  imports Market_Services
begin

text \<open>
  The services around the user (src/services): authService.js, profileService.js,
  notificationService.js with its sounds, communityService.js, supportService.js and
  healthCheck.js.
\<close>

section \<open>authService\<close>

definition auth_verifyToken :: "server \<Rightarrow> jsval \<Rightarrow> jsval result" where
  "auth_verifyToken server idToken =
     rethrow ''Token verification failed'' (request (http_send POST ''/auth/verify''
       (Obj [(''id_token'', idToken)])) server)"

definition auth_register :: "server \<Rightarrow> jsval \<Rightarrow> jsval result" where
  "auth_register server idToken =
     rethrow ''Registration failed'' (request (http_send POST ''/auth/register''
       (Obj [(''id_token'', idToken)])) server)"

definition auth_getProfile :: "server \<Rightarrow> jsval result" where
  "auth_getProfile server =
     rethrow ''Failed to fetch profile'' (request (http_get ''/auth/profile'' Undef) server)"

definition auth_updateProfile :: "server \<Rightarrow> jsval \<Rightarrow> jsval result" where
  "auth_updateProfile server profileData =
     rethrow ''Failed to update profile'' (request (http_send PUT ''/auth/profile'' profileData) server)"

definition auth_logout :: "server \<Rightarrow> jsval result" where
  "auth_logout server =
     rethrow ''Logout failed'' (request (http_send POST ''/auth/logout'' Undef) server)"

definition auth_upgradeToPremium :: "server \<Rightarrow> jsval result" where
  "auth_upgradeToPremium server =
     rethrow ''Subscription upgrade failed'' (request (http_send POST ''/auth/upgrade'' Undef) server)"

section \<open>profileService\<close>

definition prof_getMyProfile :: "server \<Rightarrow> jsval result" where
  "prof_getMyProfile server =
     request (http_get ''/profile'' Undef) server"

definition prof_updateMyProfile :: "server \<Rightarrow> jsval \<Rightarrow> jsval result" where
  "prof_updateMyProfile server body =
     request (http_send PUT ''/profile'' body) server"

definition prof_updateNotificationSettings :: "server \<Rightarrow> jsval \<Rightarrow> jsval result" where
  "prof_updateNotificationSettings server settings =
     request (http_send PUT ''/profile/notifications'' settings) server"

definition prof_getMyTradingStats :: "server \<Rightarrow> jsval result" where
  "prof_getMyTradingStats server =
     request (http_get ''/profile/stats'' Undef) server"

definition prof_getActivityLogs :: "server \<Rightarrow> jsval result" where
  "prof_getActivityLogs server =
     request (http_get ''/profile/activity'' Undef) server"

definition prof_changePassword :: "server \<Rightarrow> jsval \<Rightarrow> jsval result" where
  "prof_changePassword server body =
     request (http_send POST ''/profile/security/change-password'' body) server"

definition prof_getStats :: "server \<Rightarrow> jsval result" where
  "prof_getStats server = prof_getMyTradingStats server"

section \<open>notificationService\<close>

definition ntf_getNotifications :: "server \<Rightarrow> jsval \<Rightarrow> jsval result" where
  "ntf_getNotifications server p =
     request_with (or_empty p) (http_get ''/notifications''
       (Obj [(''unread_only'', or_default (or_empty p) ''unreadOnly'' (Bool False)),
        (''limit'', or_default (or_empty p) ''limit'' (Num (Fin 50))),
        (''purpose'', or_default (or_empty p) ''purpose'' Null)])) server"

definition ntf_markAllAsRead :: "server \<Rightarrow> jsval result" where
  "ntf_markAllAsRead server =
     request (http_send POST ''/notifications/read-all'' Undef) server"

definition ntf_markAsRead :: "server \<Rightarrow> jsval \<Rightarrow> jsval result" where
  "ntf_markAsRead server notificationId =
     request (http_send POST (''/notifications'' @ seg notificationId @ ''/read'') Undef) server"

definition ntf_deleteNotification :: "server \<Rightarrow> jsval \<Rightarrow> jsval result" where
  "ntf_deleteNotification server notificationId =
     request (http_send DELETE (''/notifications'' @ seg notificationId) Undef) server"

definition ntf_getPreferences :: "server \<Rightarrow> jsval result" where
  "ntf_getPreferences server =
     request (http_get ''/notifications/preferences'' Undef) server"

definition ntf_updatePreferences :: "server \<Rightarrow> jsval \<Rightarrow> jsval result" where
  "ntf_updatePreferences server preferences =
     request (http_send PUT ''/notifications/preferences'' preferences) server"

definition ntf_registerFCMToken :: "server \<Rightarrow> jsval \<Rightarrow> jsval result" where
  "ntf_registerFCMToken server fcmToken =
     request (http_send POST ''/notifications/preferences/fcm-token''
       (Obj [(''fcm_token'', fcmToken)])) server"

definition ntf_sendTestNotification :: "server \<Rightarrow> jsval result" where
  "ntf_sendTestNotification server =
     request (http_send POST ''/notifications/preferences/test'' Undef) server"

text \<open>\<open>playNotificationSound\<close>: the file that is played and its volume, if any.\<close>

definition NOTIFICATION_SOUNDS :: "(string \<times> jsval) list" where
  "NOTIFICATION_SOUNDS =
     [(''urgent'', Str ''/sounds/urgent.mp3''), (''high'', Str ''/sounds/alert.mp3''),
      (''normal'', Str ''/sounds/notification.mp3''), (''low'', Null)]"

definition playNotificationSound :: "jsval \<Rightarrow> jsval \<Rightarrow> (jsval \<times> jsnum) option" where
  "playNotificationSound priority0 enabled =
     (let priority = default_arg (Str ''normal'') priority0;
          soundFile = own NOTIFICATION_SOUNDS (js_to_string priority)
      in if \<not> truthy (default_arg (Bool True) enabled) then None
         else if \<not> truthy soundFile then None
         else Some (soundFile, if strict_eq priority (Str ''urgent'') then Fin 1 else N (5 / 10)))"

section \<open>communityService\<close>

definition COMMUNITY_BASE :: string where
  "COMMUNITY_BASE = ''/community''"

definition com_getRooms :: "server \<Rightarrow> jsval result" where
  "com_getRooms server =
     request (http_get (COMMUNITY_BASE @ ''/rooms'') Undef) server"

definition com_getRoom :: "server \<Rightarrow> jsval \<Rightarrow> jsval result" where
  "com_getRoom server slug =
     request (http_get (COMMUNITY_BASE @ ''/rooms'' @ seg slug) Undef) server"

definition com_createRoom :: "server \<Rightarrow> jsval \<Rightarrow> jsval result" where
  "com_createRoom server roomData =
     request (http_send POST (COMMUNITY_BASE @ ''/rooms'') roomData) server"

definition com_updateRoom :: "server \<Rightarrow> jsval \<Rightarrow> jsval \<Rightarrow> jsval result" where
  "com_updateRoom server roomId roomData =
     request (http_send PATCH (COMMUNITY_BASE @ ''/rooms'' @ seg roomId) roomData) server"

definition com_getPosts :: "server \<Rightarrow> jsval \<Rightarrow> jsval \<Rightarrow> jsval result" where
  "com_getPosts server slug p =
     request_with (or_empty p) (http_get (COMMUNITY_BASE @ ''/rooms'' @ seg slug @ ''/posts'')
       (Obj [(''page'', or_default (or_empty p) ''page'' (Num (Fin 1))),
        (''page_size'', or_default (or_empty p) ''pageSize'' (Num (Fin 20)))])) server"

definition com_getThread :: "server \<Rightarrow> jsval \<Rightarrow> jsval result" where
  "com_getThread server postId =
     request (http_get (COMMUNITY_BASE @ ''/posts'' @ seg postId) Undef) server"

definition com_createPost :: "server \<Rightarrow> jsval \<Rightarrow> jsval \<Rightarrow> jsval result" where
  "com_createPost server slug postData =
     request (http_send POST (COMMUNITY_BASE @ ''/rooms'' @ seg slug @ ''/posts'') postData) server"

definition com_updatePost :: "server \<Rightarrow> jsval \<Rightarrow> jsval \<Rightarrow> jsval result" where
  "com_updatePost server postId postData =
     request (http_send PATCH (COMMUNITY_BASE @ ''/posts'' @ seg postId) postData) server"

definition com_deletePost :: "server \<Rightarrow> jsval \<Rightarrow> jsval result" where
  "com_deletePost server postId =
     sent_only (http_send DELETE (COMMUNITY_BASE @ ''/posts'' @ seg postId) Undef) server"

definition com_addReaction :: "server \<Rightarrow> jsval \<Rightarrow> jsval \<Rightarrow> jsval result" where
  "com_addReaction server postId reactionType =
     request (http_send POST (COMMUNITY_BASE @ ''/posts'' @ seg postId @ ''/react'')
       (Obj [(''reaction_type'', reactionType)])) server"

definition com_removeReaction :: "server \<Rightarrow> jsval \<Rightarrow> jsval result" where
  "com_removeReaction server postId =
     sent_only (http_send DELETE (COMMUNITY_BASE @ ''/posts'' @ seg postId @ ''/react'') Undef) server"

definition com_getUserReputation :: "server \<Rightarrow> jsval \<Rightarrow> jsval result" where
  "com_getUserReputation server userId =
     request (http_get (COMMUNITY_BASE @ ''/users'' @ seg userId @ ''/reputation'') Undef) server"

definition com_getLeaderboard :: "server \<Rightarrow> jsval \<Rightarrow> jsval result" where
  "com_getLeaderboard server limit =
     request (http_get (COMMUNITY_BASE @ ''/leaderboard'')
       (Obj [(''limit'', default_arg (Num (Fin 20)) limit)])) server"

definition com_getFeatureRequests :: "server \<Rightarrow> jsval \<Rightarrow> jsval result" where
  "com_getFeatureRequests server p =
     request_with (or_empty p) (http_get (COMMUNITY_BASE @ ''/features'')
       (Obj ([(''page'', or_default (or_empty p) ''page'' (Num (Fin 1))),
        (''page_size'', or_default (or_empty p) ''pageSize'' (Num (Fin 20)))] @ (if truthy (or_default (or_empty p) ''status'' Null) then [(''status'', or_default (or_empty p) ''status'' Null)] else [])))) server"

definition com_createFeatureRequest :: "server \<Rightarrow> jsval \<Rightarrow> jsval result" where
  "com_createFeatureRequest server body =
     request (http_send POST (COMMUNITY_BASE @ ''/features'') body) server"

definition com_voteForFeature :: "server \<Rightarrow> jsval \<Rightarrow> jsval result" where
  "com_voteForFeature server featureId =
     request (http_send POST (COMMUNITY_BASE @ ''/features'' @ seg featureId @ ''/vote'') Undef) server"

definition com_unvoteForFeature :: "server \<Rightarrow> jsval \<Rightarrow> jsval result" where
  "com_unvoteForFeature server featureId =
     sent_only (http_send DELETE (COMMUNITY_BASE @ ''/features'' @ seg featureId @ ''/vote'') Undef) server"

definition com_pinPost :: "server \<Rightarrow> jsval \<Rightarrow> jsval \<Rightarrow> jsval result" where
  "com_pinPost server postId isPinned =
     request (http_send POST (COMMUNITY_BASE @ ''/posts'' @ seg postId @ ''/pin'')
       (Obj [(''is_pinned'', isPinned)])) server"

definition com_muteUser :: "server \<Rightarrow> jsval \<Rightarrow> jsval \<Rightarrow> jsval \<Rightarrow> jsval result" where
  "com_muteUser server userId durationHours reason =
     request (http_send POST (COMMUNITY_BASE @ ''/users'' @ seg userId @ ''/mute'')
       (Obj [(''duration_hours'', durationHours), (''reason'', reason)])) server"

definition com_unmuteUser :: "server \<Rightarrow> jsval \<Rightarrow> jsval result" where
  "com_unmuteUser server userId =
     request (http_send POST (COMMUNITY_BASE @ ''/users'' @ seg userId @ ''/unmute'') Undef) server"

definition com_verifyTrader :: "server \<Rightarrow> jsval \<Rightarrow> jsval result" where
  "com_verifyTrader server userId =
     request (http_send POST (COMMUNITY_BASE @ ''/users'' @ seg userId @ ''/verify'') Undef) server"

definition com_updateFeatureRequest :: "server \<Rightarrow> jsval \<Rightarrow> jsval \<Rightarrow> jsval result" where
  "com_updateFeatureRequest server featureId body =
     request (http_send PATCH (COMMUNITY_BASE @ ''/features'' @ seg featureId) body) server"

definition com_getBookmarks :: "server \<Rightarrow> jsval result" where
  "com_getBookmarks server =
     request (http_get (COMMUNITY_BASE @ ''/bookmarks'') Undef) server"

definition com_bookmarkPost :: "server \<Rightarrow> jsval \<Rightarrow> jsval result" where
  "com_bookmarkPost server postId =
     request (http_send POST (COMMUNITY_BASE @ ''/posts'' @ seg postId @ ''/bookmark'') Undef) server"

definition com_removeBookmark :: "server \<Rightarrow> jsval \<Rightarrow> jsval result" where
  "com_removeBookmark server postId =
     sent_only (http_send DELETE (COMMUNITY_BASE @ ''/posts'' @ seg postId @ ''/bookmark'') Undef) server"

section \<open>supportService\<close>

definition sup_getTickets :: "server \<Rightarrow> jsval \<Rightarrow> jsval result" where
  "sup_getTickets server params =
     request (http_get ''/support/tickets''
       (default_arg (Obj []) params)) server"

definition sup_getTicket :: "server \<Rightarrow> jsval \<Rightarrow> jsval result" where
  "sup_getTicket server ident =
     request (http_get (''/support/tickets'' @ seg ident) Undef) server"

definition sup_createTicket :: "server \<Rightarrow> jsval \<Rightarrow> jsval result" where
  "sup_createTicket server body =
     request (http_send POST ''/support/tickets'' body) server"

definition sup_sendMessage :: "server \<Rightarrow> jsval \<Rightarrow> jsval \<Rightarrow> jsval \<Rightarrow> jsval result" where
  "sup_sendMessage server ident message attachments =
     request (http_send POST (''/support/tickets'' @ seg ident @ ''/messages'')
       (Obj [(''message'', message), (''attachments'', default_arg (Arr []) attachments)])) server"

text \<open>An upload is a form with one field, sent with its own content type.\<close>

definition sup_uploadFile :: "server \<Rightarrow> jsval \<Rightarrow> jsval result" where
  "sup_uploadFile server file =
     request (http_send POST ''/support/tickets/upload'' (Obj [(''file'', file)])
       \<lparr>r_headers := [(''Content-Type'', ''multipart/form-data'')]\<rparr>) server"

record page_location =
  l_protocol :: string
  l_hostname :: string
  l_host :: string

definition sup_getWebSocketUrl :: "page_location \<Rightarrow> jsval \<Rightarrow> string" where
  "sup_getWebSocketUrl loc ticketId =
     (let protocol = (if l_protocol loc = ''https:'' then ''wss:'' else ''ws:'');
          host = (if l_hostname loc = ''localhost'' then ''localhost:8000'' else l_host loc)
      in protocol @ ''//'' @ host @ ''/ws/support'' @ seg ticketId)"

section \<open>healthCheck\<close>

text \<open>The base URL comes from the build environment; an empty one counts as missing.\<close>

definition getBaseUrl :: "string option \<Rightarrow> string" where
  "getBaseUrl configured =
     replace_first ''/api/v1'' []
       (case configured of Some u \<Rightarrow> if u = [] then ''http://localhost:8000/api/v1'' else u
        | None \<Rightarrow> ''http://localhost:8000/api/v1'')"

definition health_request :: "string option \<Rightarrow> http_request" where
  "health_request configured = http_get (getBaseUrl configured @ ''/api/v1/health'') Undef"

text \<open>The outcome is only logged; reading the message of a null error would throw.\<close>

definition activateServices :: "string option \<Rightarrow> server \<Rightarrow> jsval result" where
  "activateServices configured server =
     (case response_data (server (health_request configured)) of
        Inr d \<Rightarrow> Inr Undef
      | Inl e \<Rightarrow> res_bind (get (caught e) ''message'') (\<lambda>m. Inr Undef))"

definition checkHealth :: "string option \<Rightarrow> server \<Rightarrow> jsval result" where
  "checkHealth configured server =
     (case response_data (server (health_request configured)) of
        Inr d \<Rightarrow> Inr d
      | Inl e \<Rightarrow> res_bind (get (caught e) ''message'') (\<lambda>m.
          Inr (Obj [(''status'', Str ''error''), (''message'', m)])))"

section \<open>Properties\<close>

text \<open>A health check never rejects over an error that is an object: it resolves to the answer, or
  to a status of its own with the message; and the check of a base URL that ends in the API
  prefix goes to that very prefix.\<close>

lemma replace_first_at:
  "(\<forall>i < length p. take (length pat) (drop i (p @ pat)) \<noteq> pat) \<Longrightarrow> pat \<noteq> [] \<Longrightarrow>
     replace_first pat rep (p @ pat) = p @ rep"
proof (induction p)
  case Nil
  then show ?case by (cases pat) auto
next
  case (Cons c p)
  have "take (length pat) (c # p @ pat) \<noteq> pat" using Cons.prems(1) by force
  moreover have "\<forall>i < length p. take (length pat) (drop i (p @ pat)) \<noteq> pat"
    using Cons.prems(1) by force
  ultimately show ?case using Cons.IH Cons.prems(2) by simp
qed

theorem health_check_settles:
  assumes "\<forall>e. server (health_request (Some (p @ ''/api/v1''))) = Inl (Thrown e) \<longrightarrow> \<not> nullish e"
    and "\<forall>i < length p. take 7 (drop i (p @ ''/api/v1'')) \<noteq> ''/api/v1''"
  shows "r_url (health_request (Some (p @ ''/api/v1''))) = p @ ''/api/v1/health''
       \<and> (\<exists>v. checkHealth (Some (p @ ''/api/v1'')) server = Inr v
            \<and> (response_data (server (health_request (Some (p @ ''/api/v1'')))) = Inr v
               \<or> opt v ''status'' = Str ''error''))"
proof -
  have "getBaseUrl (Some (p @ ''/api/v1'')) = p"
  proof -
    have len: "length ''/api/v1'' = 7" by simp
    have "replace_first ''/api/v1'' [] (p @ ''/api/v1'') = p @ []"
      by (rule replace_first_at) (unfold len, rule assms(2), simp)
    then show ?thesis by (simp add: getBaseUrl_def)
  qed
  then have url: "r_url (health_request (Some (p @ ''/api/v1''))) = p @ ''/api/v1/health''"
    by (simp add: health_request_def http_get_def)
  have "\<exists>v. checkHealth (Some (p @ ''/api/v1'')) server = Inr v
      \<and> (response_data (server (health_request (Some (p @ ''/api/v1'')))) = Inr v \<or> opt v ''status'' = Str ''error'')"
  proof (cases "response_data (server (health_request (Some (p @ ''/api/v1''))))")
    case (Inr d)
    then show ?thesis by (simp add: checkHealth_def)
  next
    case (Inl e)
    then have "\<not> nullish (caught e)"
      using assms(1) by (auto simp: response_data_def caught_def get_def res_bind_def split: sum.splits js_error.splits if_splits)
    then show ?thesis using Inl by (simp add: checkHealth_def get_def)
  qed
  then show ?thesis using url by blast
qed

theorem health_check_settles_witness:
  "r_url (health_request (Some ''http://h:8/api/v1'')) = ''http://h:8/api/v1/health''"
proof -
  have "\<forall>i < length ''http://h:8''. take 7 (drop i (''http://h:8'' @ ''/api/v1'')) \<noteq> ''/api/v1''"
    by (simp add: All_less_Suc2 numeral_eq_Suc)
  then have "r_url (health_request (Some (''http://h:8'' @ ''/api/v1''))) = ''http://h:8'' @ ''/api/v1/health''"
    using health_check_settles [of "\<lambda>r. Inl TypeError" "''http://h:8''"] by blast
  then show ?thesis by simp
qed

text \<open>The methods of the auth service reject with a message, never with the error itself: its
  response and status are lost to the caller.\<close>

lemma auth_error_is_message:
  assumes "server (http_get ''/auth/profile'' Undef) = Inl (Thrown error)" and "\<not> nullish error"
  shows "auth_getProfile server = Inl (Thrown (js_or (opt error ''message'') (Str ''Failed to fetch profile'')))"
  using assms
  by (simp add: auth_getProfile_def rethrow_def request_def api_call_def response_data_def caught_def get_def)

end
