(* ===== verification/Position_Services.thy ===== *)
theory Position_Services
  imports Market_Services Js_Roundtrip
begin

text \<open>
  The services of tracked positions and generated strategies: positionTracker.js and
  strategyOptimizer.js (src/services), with their tables of constants.
\<close>

section \<open>positionTracker\<close>

definition upper_hex :: "int \<Rightarrow> char" where
  "upper_hex n = (if n < 10 then digit_char n else char_of (nat (55 + n)))"

text \<open>\<open>x.a || x.b\<close> on an argument that is an object.\<close>

definition either_of :: "jsval \<Rightarrow> string \<Rightarrow> string \<Rightarrow> jsval" where
  "either_of v a b = js_or (opt v a) (opt v b)"

definition pos_createPosition :: "server \<Rightarrow> jsval \<Rightarrow> jsval result" where
  "pos_createPosition server position =
     request_with position (http_send POST ''/positions/''
       (Obj [(''strategy_type'', either_of position ''strategyType'' ''strategy_type''),
        (''symbol'', js_or (opt position ''symbol'') (Str ''NIFTY'')),
        (''expiry'', opt position ''expiry''), (''legs'', opt position ''legs''),
        (''entry_spot'', either_of position ''entrySpot'' ''entry_spot''),
        (''entry_atm_iv'', either_of position ''entryAtmIv'' ''entry_atm_iv''),
        (''entry_pcr'', either_of position ''entryPcr'' ''entry_pcr''),
        (''entry_metrics'', either_of position ''entryMetrics'' ''entry_metrics''),
        (''market_context'', either_of position ''marketContext'' ''market_context''),
        (''notes'', opt position ''notes''), (''tags'', js_or (opt position ''tags'') (Arr []))])) server"

text \<open>\<open>URLSearchParams\<close>: the application/x-www-form-urlencoded text of the pairs.\<close>

definition form_char :: "char \<Rightarrow> string" where
  "form_char c =
     (let n = char_code c
      in if (48 \<le> n \<and> n \<le> 57) \<or> (65 \<le> n \<and> n \<le> 90) \<or> (97 \<le> n \<and> n \<le> 122) \<or> n \<in> {42, 45, 46, 95} then [c]
         else if n = 32 then ''+''
         else [CHR ''%'', upper_hex (n div 16), upper_hex (n mod 16)])"

definition form_text :: "string \<Rightarrow> string" where
  "form_text s = concat (map form_char s)"

definition form_encode :: "(string \<times> string) list \<Rightarrow> string" where
  "form_encode ps =
     join_with ''&'' (map (\<lambda>(k, v). form_text k @ ''='' @ form_text v) ps)"

definition filter_params :: "jsval \<Rightarrow> (string \<times> string) list" where
  "filter_params filters =
     map (\<lambda>k. (k, js_to_string (opt filters k)))
       (filter (\<lambda>k. truthy (opt filters k)) [''status'', ''symbol'', ''limit'', ''offset''])"

definition pos_listPositions :: "server \<Rightarrow> jsval \<Rightarrow> jsval result" where
  "pos_listPositions server filters =
     request_with (or_empty filters)
       (http_get (''/positions/?'' @ form_encode (filter_params (or_empty filters))) Undef) server"

definition pos_updatePosition :: "server \<Rightarrow> jsval \<Rightarrow> jsval \<Rightarrow> jsval result" where
  "pos_updatePosition server positionId updates =
     request_with updates (http_send PATCH (''/positions'' @ seg positionId)
       (Obj [(''status'', opt updates ''status''),
        (''current_pnl'', either_of updates ''currentPnl'' ''current_pnl''),
        (''notes'', opt updates ''notes''), (''tags'', opt updates ''tags''),
        (''exit_reason'', either_of updates ''exitReason'' ''exit_reason'')])) server"

definition pos_getPosition :: "server \<Rightarrow> jsval \<Rightarrow> jsval result" where
  "pos_getPosition server positionId =
     request (http_get (''/positions'' @ seg positionId) Undef) server"

definition pos_deletePosition :: "server \<Rightarrow> jsval \<Rightarrow> jsval result" where
  "pos_deletePosition server positionId =
     request (http_send DELETE (''/positions'' @ seg positionId) Undef) server"

definition pos_analyzePosition :: "server \<Rightarrow> jsval \<Rightarrow> jsval result" where
  "pos_analyzePosition server positionId =
     request (http_send POST (''/positions'' @ seg positionId @ ''/analyze'') Undef) server"

definition pos_getPositionAlerts :: "server \<Rightarrow> jsval \<Rightarrow> jsval \<Rightarrow> jsval result" where
  "pos_getPositionAlerts server positionId unreadOnly =
     request (http_get (''/positions'' @ seg positionId @ ''/alerts?unread_only='' @ js_to_string (default_arg (Bool False) unreadOnly)) Undef) server"

definition pos_markAlertsRead :: "server \<Rightarrow> jsval \<Rightarrow> jsval \<Rightarrow> jsval result" where
  "pos_markAlertsRead server positionId alertIds =
     request (http_send POST (''/positions'' @ seg positionId @ ''/alerts/mark-read'')
       (Obj [(''alert_ids'', default_arg Null alertIds)])) server"

definition pos_getAllAlerts :: "server \<Rightarrow> jsval \<Rightarrow> jsval \<Rightarrow> jsval result" where
  "pos_getAllAlerts server unreadOnly limit =
     request (http_get (''/positions/alerts/all?unread_only='' @ js_to_string (default_arg (Bool True) unreadOnly) @ ''&limit='' @ js_to_string (default_arg (Num (Fin 50)) limit)) Undef) server"

definition POSITION_STATUS :: "(string \<times> string) list" where
  "POSITION_STATUS =
     [(''RECOMMENDED'', ''recommended''), (''ACTIVE'', ''active''), (''ADJUSTED'', ''adjusted''),
      (''CLOSED'', ''closed''), (''EXPIRED'', ''expired'')]"

definition ALERT_SEVERITY :: "(string \<times> string) list" where
  "ALERT_SEVERITY = [(''INFO'', ''info''), (''WARNING'', ''warning''), (''CRITICAL'', ''critical'')]"

definition ALERT_TYPES :: "(string \<times> string) list" where
  "ALERT_TYPES =
     [(''DELTA_DRIFT'', ''delta_drift''), (''GAMMA_RISK'', ''gamma_risk''), (''THETA_DECAY'', ''theta_decay''),
      (''IV_SPIKE'', ''iv_spike''), (''IV_CRUSH'', ''iv_crush''), (''LEG_TESTED'', ''leg_tested''),
      (''PROFIT_TARGET'', ''profit_target''), (''STOP_LOSS'', ''stop_loss''), (''TIME_WARNING'', ''time_warning'')]"

section \<open>strategyOptimizer\<close>

definition opt_getStrategyTypes :: "server \<Rightarrow> jsval result" where
  "opt_getStrategyTypes server =
     request (http_get ''/strategies/types'' Undef) server"

text \<open>Every branch of \<open>formatExpiry\<close> is the conversion to a string.\<close>

definition formatExpiry :: "jsval \<Rightarrow> jsval" where
  "formatExpiry expiry = (if \<not> truthy expiry then Str [] else Str (js_to_string expiry))"

definition risk_profile :: "jsval \<Rightarrow> jsval" where
  "risk_profile params = js_or (either_of params ''riskProfile'' ''risk_profile'') (Str ''moderate'')"

definition max_capital :: "jsval \<Rightarrow> jsval" where
  "max_capital params = js_or (either_of params ''maxCapital'' ''max_capital'') (Num (Fin 100000))"

definition opt_optimizeStrategy :: "server \<Rightarrow> jsval \<Rightarrow> jsval result" where
  "opt_optimizeStrategy server params =
     request_with params (http_send POST ''/strategies/optimize''
       (Obj [(''strategy_type'', either_of params ''strategyType'' ''strategy_type''),
        (''symbol'', js_or (opt params ''symbol'') (Str ''NIFTY'')),
        (''expiry'', formatExpiry (opt params ''expiry'')),
        (''risk_profile'', risk_profile params), (''max_capital'', max_capital params)])) server"

definition opt_recommendStrategies :: "server \<Rightarrow> jsval \<Rightarrow> jsval result" where
  "opt_recommendStrategies server params =
     request_with params (http_send POST ''/strategies/recommend''
       (Obj [(''symbol'', js_or (opt params ''symbol'') (Str ''NIFTY'')),
        (''expiry'', formatExpiry (opt params ''expiry'')), (''risk_profile'', risk_profile params),
        (''iv_percentile'', either_of params ''ivPercentile'' ''iv_percentile''),
        (''pcr'', opt params ''pcr'')])) server"

definition opt_autoGenerateStrategy :: "server \<Rightarrow> jsval \<Rightarrow> jsval result" where
  "opt_autoGenerateStrategy server params0 =
     (let params = or_empty params0
      in request_with params (http_send POST ''/strategies/auto-generate''
       (Obj [(''symbol'', js_or (opt params ''symbol'') (Str ''NIFTY'')),
        (''risk_profile'', risk_profile params), (''max_capital'', max_capital params),
        (''strategy_type'', js_or (either_of params ''strategyType'' ''strategy_type'') Null),
        (''expiry'', if truthy (opt params ''expiry'') then formatExpiry (opt params ''expiry'') else Null),
        (''include_calendar_spread'',
           Bool (\<not> strict_eq (opt params ''includeCalendarSpread'') (Bool False)))])) server)"

definition STRATEGY_TYPES :: "(string \<times> string) list" where
  "STRATEGY_TYPES =
     [(''IRON_CONDOR'', ''iron_condor''), (''BULL_PUT_SPREAD'', ''bull_put_spread''),
      (''BEAR_CALL_SPREAD'', ''bear_call_spread''), (''LONG_STRADDLE'', ''long_straddle''),
      (''SHORT_STRADDLE'', ''short_straddle''), (''STRANGLE'', ''strangle''),
      (''BULL_CALL_SPREAD'', ''bull_call_spread''), (''BEAR_PUT_SPREAD'', ''bear_put_spread''),
      (''JADE_LIZARD'', ''jade_lizard''), (''CUSTOM'', ''custom'')]"

definition RISK_PROFILES :: "(string \<times> string) list" where
  "RISK_PROFILES =
     [(''CONSERVATIVE'', ''conservative''), (''MODERATE'', ''moderate''), (''AGGRESSIVE'', ''aggressive'')]"

definition STRATEGY_NAMES :: "(string \<times> string) list" where
  "STRATEGY_NAMES =
     [(''iron_condor'', ''Iron Condor''), (''bull_put_spread'', ''Bull Put Spread''),
      (''bear_call_spread'', ''Bear Call Spread''), (''long_straddle'', ''Long Straddle''),
      (''short_straddle'', ''Short Straddle''), (''strangle'', ''Strangle''),
      (''bull_call_spread'', ''Bull Call Spread''), (''bear_put_spread'', ''Bear Put Spread''),
      (''jade_lizard'', ''Jade Lizard''), (''custom'', ''Custom Structure'')]"

definition STRATEGY_CATEGORIES :: "(string \<times> string list) list" where
  "STRATEGY_CATEGORIES =
     [(''NEUTRAL'', [''iron_condor'', ''short_straddle'', ''strangle'']),
      (''BULLISH'', [''bull_put_spread'', ''bull_call_spread'']),
      (''BEARISH'', [''bear_call_spread'', ''bear_put_spread'']),
      (''VOLATILITY'', [''long_straddle'', ''strangle''])]"

section \<open>Properties\<close>

text \<open>Reading the encoded text back, as the backend does.\<close>

fun form_decode_chars :: "string \<Rightarrow> string" where
  "form_decode_chars (a # b # c # cs) =
     (if a = CHR ''%'' then
        (case (hex_val b, hex_val c) of
           (Some i, Some j) \<Rightarrow> char_of (nat (16 * i + j)) # form_decode_chars cs
         | _ \<Rightarrow> a # form_decode_chars (b # c # cs))
      else (if a = CHR ''+'' then CHR '' '' else a) # form_decode_chars (b # c # cs))"
| "form_decode_chars (a # cs) = (if a = CHR ''+'' then CHR '' '' else a) # form_decode_chars cs"
| "form_decode_chars [] = []"

definition form_decode_pair :: "string \<Rightarrow> string \<times> string" where
  "form_decode_pair s =
     (form_decode_chars (takeWhile (\<lambda>c. c \<noteq> CHR ''='') s),
      form_decode_chars (drop 1 (dropWhile (\<lambda>c. c \<noteq> CHR ''='') s)))"

definition form_decode :: "string \<Rightarrow> (string \<times> string) list" where
  "form_decode s = (if s = [] then [] else map form_decode_pair (split_on (CHR ''&'') s))"

lemma upper_hex_facts:
  assumes "0 \<le> n" and "n < 16"
  shows "hex_val (upper_hex n) = Some n"
    and "upper_hex n \<notin> {CHR ''&'', CHR ''='', CHR ''+'', CHR ''%''}"
proof -
  have c: "char_code (upper_hex n) = (if n < 10 then 48 + n else 55 + n)"
    using assms by (simp add: upper_hex_def digit_char_def char_code_def)
  then show "hex_val (upper_hex n) = Some n" using assms by (simp add: hex_val_def)
  have "char_code (CHR ''&'') = 38" "char_code (CHR ''='') = 61" "char_code (CHR ''+'') = 43"
    "char_code (CHR ''%'') = 37"
    by (simp_all add: char_code_def)
  then show "upper_hex n \<notin> {CHR ''&'', CHR ''='', CHR ''+'', CHR ''%''}"
    using c assms by (auto split: if_splits)
qed

lemma form_char_cases:
  "form_char c = [c] \<and> c \<notin> {CHR ''&'', CHR ''='', CHR ''+'', CHR ''%''}
   \<or> (c = CHR '' '' \<and> form_char c = ''+'')
   \<or> form_char c = [CHR ''%'', upper_hex (char_code c div 16), upper_hex (char_code c mod 16)]"
proof -
  have "char_code (CHR ''&'') = 38" "char_code (CHR ''='') = 61" "char_code (CHR ''+'') = 43"
    "char_code (CHR ''%'') = 37"
    by (simp_all add: char_code_def)
  moreover have "c = CHR '' ''" if "char_code c = 32"
  proof -
    have "char_code (CHR '' '') = 32" by (simp add: char_code_def)
    then show ?thesis using that by (simp only: char_code_eq [symmetric])
  qed
  ultimately show ?thesis by (auto simp: form_char_def Let_def)
qed

lemma code_nibbles:
  "0 \<le> char_code c div 16 \<and> char_code c div 16 < 16 \<and> 0 \<le> char_code c mod 16 \<and> char_code c mod 16 < 16
     \<and> 16 * (char_code c div 16) + char_code c mod 16 = char_code c"
  using char_code_range [of c] by auto

lemma form_decode_char: "form_decode_chars (form_char c @ s) = c # form_decode_chars s"
proof -
  consider "form_char c = [c]" "c \<notin> {CHR ''+'', CHR ''%''}" | "c = CHR '' ''" "form_char c = ''+''"
    | "form_char c = [CHR ''%'', upper_hex (char_code c div 16), upper_hex (char_code c mod 16)]"
    using form_char_cases [of c] by blast
  then show ?thesis
  proof cases
    case 1
    then show ?thesis by (cases "c # s" rule: form_decode_chars.cases) auto
  next
    case 2
    then show ?thesis by (cases "CHR ''+'' # s" rule: form_decode_chars.cases) auto
  next
    case 3
    then show ?thesis using upper_hex_facts code_nibbles [of c] by simp
  qed
qed

lemma form_decode_encode: "form_decode_chars (form_text s) = s"
  by (induction s) (simp_all add: form_text_def form_decode_char)

lemma encoded_no_separator:
  "CHR ''&'' \<notin> set (form_text s) \<and> CHR ''='' \<notin> set (form_text s)"
proof -
  have "CHR ''&'' \<notin> set (form_char c) \<and> CHR ''='' \<notin> set (form_char c)" for c
    using form_char_cases [of c] upper_hex_facts(2) [of "char_code c div 16"]
      upper_hex_facts(2) [of "char_code c mod 16"] code_nibbles [of c] by auto
  then show ?thesis by (auto simp: form_text_def)
qed

lemma split_join: "ss \<noteq> [] \<Longrightarrow> (\<forall>s \<in> set ss. c \<notin> set s) \<Longrightarrow> split_on c (join_with [c] ss) = ss"
proof (induction ss)
  case (Cons s ss)
  then show ?case by (cases ss) (auto simp: split_on_append split_on_notin)
qed simp

lemma form_decode_pair_encode:
  "form_decode_pair (form_text k @ ''='' @ form_text v) = (k, v)"
proof -
  have n: "\<And>c. c \<in> set (form_text k) \<Longrightarrow> c \<noteq> CHR ''=''"
    using encoded_no_separator [of k] by blast
  then have "takeWhile (\<lambda>c. c \<noteq> CHR ''='') (form_text k @ ''='' @ form_text v) = form_text k"
    "dropWhile (\<lambda>c. c \<noteq> CHR ''='') (form_text k @ ''='' @ form_text v) = ''='' @ form_text v"
    by (simp_all add: takeWhile_append2 dropWhile_append2)
  then show ?thesis by (simp add: form_decode_pair_def form_decode_encode)
qed

lemma form_decode_form_encode: "form_decode (form_encode ps) = ps"
proof (cases "ps = []")
  case True
  then show ?thesis by (simp add: form_decode_def form_encode_def)
next
  case False
  define es where "es = map (\<lambda>(k, v). form_text k @ ''='' @ form_text v) ps"
  have enc: "form_encode ps = join_with ''&'' es" by (simp only: form_encode_def es_def)
  have es: "es \<noteq> []" "\<forall>s \<in> set es. CHR ''&'' \<notin> set s"
    using False encoded_no_separator by (auto simp: es_def)
  have split: "split_on (CHR ''&'') (join_with ''&'' es) = es" by (rule split_join [OF es])
  have "[] \<notin> set es" by (auto simp: es_def)
  then have "join_with ''&'' es \<noteq> []"
    using es(1) by (cases "(''&'', es)" rule: join_with.cases) auto
  moreover have "map form_decode_pair es = ps"
    unfolding es_def map_map by (rule map_idI) (auto simp: form_decode_pair_encode [simplified])
  ultimately show ?thesis by (simp add: form_decode_def enc split)
qed

lemma filter_params_lookup:
  "distinct (map fst (filter_params filters)) \<and>
   map_of (filter_params filters) k =
     (if k \<in> {''status'', ''symbol'', ''limit'', ''offset''} \<and> truthy (opt filters k)
      then Some (js_to_string (opt filters k)) else None)"
  by (auto simp: filter_params_def)

text \<open>C18: The filters of a listing survive the query string.  The backend reads back from the URL, once each,
  the status, the symbol, the limit and the offset that are truthy, each under its own name and with the text of its
  value, whatever characters that text holds; a filter that is not truthy (an offset of 0) and every other key are absent.\<close>

theorem filters_roundtrip:
  assumes "\<not> nullish filters"
  shows "\<exists>query. pos_listPositions server filters = request (http_get (''/positions/?'' @ query) Undef) server
           \<and> distinct (map fst (form_decode query))
           \<and> (\<forall>k. map_of (form_decode query) k =
                (if k \<in> {''status'', ''symbol'', ''limit'', ''offset''} \<and> truthy (opt filters k)
                 then Some (js_to_string (opt filters k)) else None))"
proof -
  have "or_empty filters = filters" using assms by (auto simp: or_empty_def default_arg_def)
  then have "pos_listPositions server filters =
      request (http_get (''/positions/?'' @ form_encode (filter_params filters)) Undef) server"
    using assms by (simp add: pos_listPositions_def request_with_def request_def destructured_def)
  then show ?thesis
    using filter_params_lookup [of filters]
    by (intro exI [of _ "form_encode (filter_params filters)"]) (simp add: form_decode_form_encode)
qed

text \<open>A page of the listing by symbol: the symbol holds an ampersand, the status is empty.\<close>

theorem filters_roundtrip_witness:
  "\<exists>query. pos_listPositions (\<lambda>r. Inl TypeError)
         (Obj [(''symbol'', Str ''M&M''), (''status'', Str []), (''offset'', Str ''40'')])
       = request (http_get (''/positions/?'' @ query) Undef) (\<lambda>r. Inl TypeError)
     \<and> map_of (form_decode query) ''symbol'' = Some ''M&M'' \<and> map_of (form_decode query) ''offset'' = Some ''40''
     \<and> map_of (form_decode query) ''status'' = None \<and> map_of (form_decode query) ''limit'' = None"
proof -
  let ?f = "Obj [(''symbol'', Str ''M&M''), (''status'', Str []), (''offset'', Str ''40'')]"
  have "\<not> nullish ?f" by simp
  from filters_roundtrip [OF this, of "\<lambda>r. Inl TypeError"] obtain query where
    q: "pos_listPositions (\<lambda>r. Inl TypeError) ?f = request (http_get (''/positions/?'' @ query) Undef) (\<lambda>r. Inl TypeError)"
    and m: "map_of (form_decode query) k =
                (if k \<in> {''status'', ''symbol'', ''limit'', ''offset''} \<and> truthy (opt ?f k)
                 then Some (js_to_string (opt ?f k)) else None)" for k
    by blast
  show ?thesis using q by (intro exI [of _ query]) (simp add: m)
qed

text \<open>A profit and loss of zero cannot be recorded: the update with \<open>currentPnl: 0\<close> is the very
  request of the update that says nothing about it, so the backend keeps the old value.\<close>

theorem zero_pnl_is_not_sent:
  assumes "map_of ps ''currentPnl'' = None" and "map_of ps ''current_pnl'' = None"
  shows "pos_updatePosition server positionId (Obj (put ''currentPnl'' (Num (Fin 0)) ps)) =
           pos_updatePosition server positionId (Obj ps)
         \<and> (\<forall>r > 0. \<exists>req. pos_updatePosition server positionId (Obj (put ''currentPnl'' (Num (Fin r)) ps)) =
              request req server \<and> opt (r_body req) ''current_pnl'' = Num (Fin r))"
proof -
  have own: "own ps ''currentPnl'' = Undef" "own ps ''current_pnl'' = Undef"
    using assms by (simp_all add: own_def)
  have "pos_updatePosition server positionId (Obj (put ''currentPnl'' (Num (Fin 0)) ps)) =
      pos_updatePosition server positionId (Obj ps)"
    using own by (simp add: pos_updatePosition_def request_with_def destructured_def either_of_def own_put)
  moreover have "\<exists>req. pos_updatePosition server positionId (Obj (put ''currentPnl'' (Num (Fin r)) ps)) =
      request req server \<and> opt (r_body req) ''current_pnl'' = Num (Fin r)" if "0 < r" for r
  proof -
    let ?u = "Obj (put ''currentPnl'' (Num (Fin r)) ps)"
    let ?req = "http_send PATCH (''/positions'' @ seg positionId)
       (Obj [(''status'', opt ?u ''status''),
        (''current_pnl'', either_of ?u ''currentPnl'' ''current_pnl''),
        (''notes'', opt ?u ''notes''), (''tags'', opt ?u ''tags''),
        (''exit_reason'', either_of ?u ''exitReason'' ''exit_reason'')])"
    have "pos_updatePosition server positionId ?u = request ?req server"
      by (simp add: pos_updatePosition_def request_with_def request_def destructured_def)
    moreover have "opt (r_body ?req) ''current_pnl'' = Num (Fin r)"
      using that by (simp add: http_send_def either_of_def own_put)
    ultimately show ?thesis by blast
  qed
  ultimately show ?thesis by blast
qed

theorem zero_pnl_is_not_sent_witness:
  "pos_updatePosition (\<lambda>r. Inr (Obj [(''data'', r_body r)])) (Str ''7'')
       (Obj (put ''currentPnl'' (Num (Fin 0)) [(''status'', Str ''active'')])) =
     pos_updatePosition (\<lambda>r. Inr (Obj [(''data'', r_body r)])) (Str ''7'') (Obj [(''status'', Str ''active'')])"
  by (rule zero_pnl_is_not_sent [THEN conjunct1]) simp_all

end
