(* ===== verification/Data_Fetching.thy ===== *)
theory Data_Fetching
  imports Js_Json
begin

text \<open>
  The data-fetching hook and the mutation hook (src/hooks/useDataFetching.js).  The state is
  what React keeps (\<open>useState\<close>), the refs, the module's cache, the requests in flight and the
  retry timers.  A closure of \<open>fetchData\<close> is known by the value of \<open>retryAttempt\<close> it was created
  with: the retry timer calls the closure that scheduled it, not the one of the latest render.
  The fetch function is a parameter: how and when a request settles.  Callbacks are logged.
\<close>

section \<open>Fetching\<close>

record fetch_config =
  g_enabled :: bool
  g_retryCount :: nat
  g_retryDelay :: int
  g_enableCache :: bool
  g_cacheKey :: string
  g_cacheTTL :: int

definition default_config :: fetch_config where
  "default_config =
     \<lparr>g_enabled = True, g_retryCount = 2, g_retryDelay = 1000, g_enableCache = False,
      g_cacheKey = [], g_cacheTTL = 30000\<rparr>"

type_synonym fetch_cache = "(string \<times> jsval \<times> int) list"

datatype callback = OnSuccess jsval | OnError jsval | OnSettled

record fetch_state =
  f_data :: jsval
  f_isLoading :: bool
  f_isInitialLoad :: bool
  f_error :: jsval
  f_retryAttempt :: nat
  f_controller :: "nat option"
  f_next :: nat
  f_aborted :: "nat list"
  f_inflight :: "(nat \<times> nat) list"
  f_timers :: "(int \<times> nat) list"
  f_mounted :: bool
  f_cache :: fetch_cache
  f_calls :: "callback list"

definition fetch_initial :: "fetch_config \<Rightarrow> jsval \<Rightarrow> fetch_cache \<Rightarrow> fetch_state" where
  "fetch_initial cfg initialData cache =
     \<lparr>f_data = initialData, f_isLoading = g_enabled cfg, f_isInitialLoad = True, f_error = Null,
      f_retryAttempt = 0, f_controller = None, f_next = 0, f_aborted = [], f_inflight = [],
      f_timers = [], f_mounted = True, f_cache = cache, f_calls = []\<rparr>"

text \<open>An empty cache key is falsy, as a missing one is.\<close>

definition caching :: "fetch_config \<Rightarrow> bool" where
  "caching cfg \<longleftrightarrow> g_enableCache cfg \<and> g_cacheKey cfg \<noteq> []"

definition getCachedData :: "fetch_config \<Rightarrow> int \<Rightarrow> fetch_cache \<Rightarrow> jsval \<times> fetch_cache" where
  "getCachedData cfg now c =
     (if \<not> caching cfg then (Null, c)
      else case map_of c (g_cacheKey cfg) of
             Some (v, t) \<Rightarrow> if now - t < g_cacheTTL cfg then (v, c) else (Null, del (g_cacheKey cfg) c)
           | None \<Rightarrow> (Null, c))"

definition setCachedData :: "fetch_config \<Rightarrow> int \<Rightarrow> jsval \<Rightarrow> fetch_cache \<Rightarrow> fetch_cache" where
  "setCachedData cfg now v c = (if caching cfg then put (g_cacheKey cfg) (v, now) c else c)"

text \<open>The start of \<open>fetchData(isRetry)\<close>, up to the call of \<open>fetchFn\<close>.\<close>

definition fetchData :: "fetch_config \<Rightarrow> int \<Rightarrow> nat \<Rightarrow> bool \<Rightarrow> fetch_state \<Rightarrow> fetch_state" where
  "fetchData cfg now closure isRetry s =
     (case getCachedData cfg now (f_cache s) of
        (cachedData, c) \<Rightarrow>
          let s1 = s\<lparr>f_cache := c\<rparr>
          in if truthy cachedData \<and> \<not> isRetry
             then s1\<lparr>f_data := cachedData, f_isLoading := False, f_isInitialLoad := False\<rparr>
             else
               let s2 = (case f_controller s1 of
                           Some i \<Rightarrow> s1\<lparr>f_aborted := i # f_aborted s1\<rparr> | None \<Rightarrow> s1);
                   s3 = s2\<lparr>f_controller := Some (f_next s2), f_next := Suc (f_next s2),
                           f_inflight := f_inflight s2 @ [(f_next s2, closure)]\<rparr>
               in if isRetry then s3 else s3\<lparr>f_isLoading := True, f_error := Null\<rparr>)"

definition settled :: "nat \<Rightarrow> fetch_state \<Rightarrow> fetch_state" where
  "settled i s = s\<lparr>f_inflight := filter (\<lambda>r. fst r \<noteq> i) (f_inflight s)\<rparr>"

text \<open>The request resolves: neither its abortion nor its age is looked at.\<close>

definition fetch_resolves :: "fetch_config \<Rightarrow> int \<Rightarrow> nat \<Rightarrow> jsval \<Rightarrow> fetch_state \<Rightarrow> fetch_state" where
  "fetch_resolves cfg now i result s0 =
     (let s = settled i s0
      in if f_mounted s
         then s\<lparr>f_data := result, f_cache := setCachedData cfg now result (f_cache s),
                f_isLoading := False, f_isInitialLoad := False, f_retryAttempt := 0,
                f_calls := f_calls s @ [OnSuccess result]\<rparr>
         else s)"

text \<open>The request with the given closure rejects with an error object.\<close>

definition fetch_rejects :: "fetch_config \<Rightarrow> int \<Rightarrow> nat \<Rightarrow> nat \<Rightarrow> jsval \<Rightarrow> fetch_state \<Rightarrow> fetch_state" where
  "fetch_rejects cfg now i closure err s0 =
     (let s = settled i s0
      in if strict_eq (opt err ''name'') (Str ''AbortError'') then s
         else if \<not> f_mounted s then s
         else if closure < g_retryCount cfg
           then s\<lparr>f_retryAttempt := Suc (f_retryAttempt s),
                  f_timers := f_timers s @ [(now + g_retryDelay cfg * (int closure + 1), closure)]\<rparr>
         else s\<lparr>f_error := js_or (opt err ''message'') (Str ''Failed to fetch data''),
                f_isLoading := False, f_isInitialLoad := False, f_calls := f_calls s @ [OnError err]\<rparr>)"

text \<open>The first retry timer fires.\<close>

definition retry_fires :: "fetch_config \<Rightarrow> int \<Rightarrow> fetch_state \<Rightarrow> fetch_state" where
  "retry_fires cfg now s =
     (case f_timers s of
        [] \<Rightarrow> s
      | (due, closure) # ts \<Rightarrow>
          let s1 = s\<lparr>f_timers := ts\<rparr>
          in if f_mounted s1 then fetchData cfg now closure True s1 else s1)"

text \<open>The effect of a render, its clean-up, and what the hook hands out.\<close>

definition run_effect :: "fetch_config \<Rightarrow> int \<Rightarrow> fetch_state \<Rightarrow> fetch_state" where
  "run_effect cfg now s =
     (let s1 = s\<lparr>f_mounted := True\<rparr>
      in if g_enabled cfg then fetchData cfg now (f_retryAttempt s) False s1 else s1)"

definition clean_up :: "fetch_state \<Rightarrow> fetch_state" where
  "clean_up s =
     (let s1 = s\<lparr>f_mounted := False\<rparr>
      in case f_controller s1 of Some i \<Rightarrow> s1\<lparr>f_aborted := i # f_aborted s1\<rparr> | None \<Rightarrow> s1)"

definition refetch :: "fetch_config \<Rightarrow> int \<Rightarrow> fetch_state \<Rightarrow> fetch_state" where
  "refetch cfg now s = fetchData cfg now (f_retryAttempt s) False (s\<lparr>f_retryAttempt := 0\<rparr>)"

definition clearCache :: "fetch_config \<Rightarrow> fetch_state \<Rightarrow> fetch_state" where
  "clearCache cfg s =
     (if g_cacheKey cfg \<noteq> [] then s\<lparr>f_cache := del (g_cacheKey cfg) (f_cache s)\<rparr> else s)"

definition clearAllCache :: "fetch_cache \<Rightarrow> fetch_cache" where
  "clearAllCache c = []"

definition isRetrying :: "fetch_state \<Rightarrow> bool" where
  "isRetrying s \<longleftrightarrow> 0 < f_retryAttempt s"

section \<open>Mutations\<close>

record mutation_state =
  m_isLoading :: bool
  m_error :: jsval
  m_data :: jsval
  m_calls :: "callback list"

definition mutation_initial :: mutation_state where
  "mutation_initial = \<lparr>m_isLoading = False, m_error = Null, m_data = Null, m_calls = []\<rparr>"

definition mutate_begin :: "mutation_state \<Rightarrow> mutation_state" where
  "mutate_begin s = s\<lparr>m_isLoading := True, m_error := Null\<rparr>"

text \<open>The end of \<open>mutate\<close>: what the caller gets and the state after \<open>finally\<close>.\<close>

definition mutate_end :: "jsval result \<Rightarrow> mutation_state \<Rightarrow> jsval result \<times> mutation_state" where
  "mutate_end outcome s =
     (let (r, s') =
        (case outcome of
           Inr result \<Rightarrow> (Inr result, s\<lparr>m_data := result, m_calls := m_calls s @ [OnSuccess result]\<rparr>)
         | Inl e \<Rightarrow>
             (case get (caught e) ''message'' of
                Inl e' \<Rightarrow> (Inl e', s)
              | Inr m \<Rightarrow> (Inl e,
                  s\<lparr>m_error := js_or m (Str ''Mutation failed''), m_calls := m_calls s @ [OnError (caught e)]\<rparr>)))
      in (r, s'\<lparr>m_isLoading := False, m_calls := m_calls s' @ [OnSettled]\<rparr>))"

definition mutation_reset :: "mutation_state \<Rightarrow> mutation_state" where
  "mutation_reset s = s\<lparr>m_data := Null, m_error := Null, m_isLoading := False\<rparr>"

section \<open>Properties\<close>

text \<open>One round of a fetch that keeps failing: the request in flight rejects, the timer fires.\<close>

definition failing_round :: "fetch_config \<Rightarrow> int \<times> jsval \<Rightarrow> fetch_state \<Rightarrow> fetch_state" where
  "failing_round cfg r s =
     (case f_inflight s of
        [] \<Rightarrow> s
      | (i, closure) # _ \<Rightarrow>
          retry_fires cfg (fst r + g_retryDelay cfg) (fetch_rejects cfg (fst r) i closure (snd r) s))"

definition retrying :: "nat \<Rightarrow> fetch_state \<Rightarrow> bool" where
  "retrying n s \<longleftrightarrow>
     f_error s = Null \<and> f_isLoading s \<and> f_isInitialLoad s \<and> f_retryAttempt s = n \<and> f_mounted s \<and>
     f_timers s = [] \<and> f_calls s = [] \<and> (\<exists>i. f_inflight s = [(i, 0)] \<and> i < f_next s)"

lemma failing_round_retrying:
  assumes "retrying n s" and "0 < g_retryCount cfg" and "\<not> caching cfg"
    and "\<not> strict_eq (opt (snd r) ''name'') (Str ''AbortError'')"
  shows "retrying (Suc n) (failing_round cfg r s)"
  using assms
  by (cases "f_controller s")
    (auto simp: retrying_def failing_round_def fetch_rejects_def settled_def retry_fires_def fetchData_def
      getCachedData_def Let_def)

text \<open>C19: The retry count bounds nothing: the timer calls the closure that scheduled it, which still
  sees the first value of the attempt counter.  A fetch that keeps failing is retried for ever: after
  any number of failures there is one more request on its way, the error has never been shown, the
  hook is still loading and the counter reads the number of failures.\<close>

theorem failing_fetch_never_settles:
  assumes "g_enabled cfg" and "0 < g_retryCount cfg" and "\<not> caching cfg"
    and "\<forall>r \<in> set rounds. \<not> strict_eq (opt (snd r) ''name'') (Str ''AbortError'')"
  shows "retrying (length rounds)
           (fold (failing_round cfg) rounds (run_effect cfg t (fetch_initial cfg initialData cache)))"
proof -
  have start: "retrying 0 (run_effect cfg t (fetch_initial cfg initialData cache))"
    using assms(1,3)
    by (simp add: retrying_def run_effect_def fetch_initial_def fetchData_def getCachedData_def Let_def)
  have "retrying n s \<Longrightarrow> \<forall>r \<in> set rs. \<not> strict_eq (opt (snd r) ''name'') (Str ''AbortError'') \<Longrightarrow>
      retrying (n + length rs) (fold (failing_round cfg) rs s)" for n rs s
  proof (induction rs arbitrary: n s)
    case (Cons r rs)
    have "retrying (Suc n) (failing_round cfg r s)"
      using Cons.prems assms(2,3) by (intro failing_round_retrying) auto
    from Cons.IH [OF this] show ?case using Cons.prems by simp
  qed simp
  from this [OF start assms(4)] show ?thesis by simp
qed

definition server_error :: jsval where
  "server_error = Obj [(''name'', Str ''AxiosError''), (''message'', Str ''Request failed'')]"

theorem failing_fetch_never_settles_witness:
  "f_error (fold (failing_round default_config) (replicate 50 (0, server_error))
      (run_effect default_config 0 (fetch_initial default_config Null []))) = Null"
proof -
  have "retrying (length (replicate 50 (0 :: int, server_error)))
      (fold (failing_round default_config) (replicate 50 (0, server_error))
        (run_effect default_config 0 (fetch_initial default_config Null [])))"
    by (rule failing_fetch_never_settles) (simp_all add: default_config_def caching_def server_error_def)
  then show ?thesis by (simp add: retrying_def)
qed

text \<open>An answer that arrives late wins: when the dependencies change while a request is under way,
  its answer, if the fetch function does not heed the abort signal, replaces the answer to the newer
  request, although the controller of the older one was aborted.\<close>

theorem stale_response_overwrites:
  assumes "g_enabled cfg" and "\<not> caching cfg"
    and "s1 = run_effect cfg t1 (fetch_initial cfg initialData cache)"
    and "s2 = run_effect cfg t2 (clean_up s1)"
    and "s3 = fetch_resolves cfg t4 0 old_answer (fetch_resolves cfg t3 1 new_answer s2)"
  shows "map fst (f_inflight s2) = [0, 1] \<and> f_aborted s3 = [0, 0] \<and> f_controller s3 = Some 1
       \<and> f_data (fetch_resolves cfg t3 1 new_answer s2) = new_answer \<and> f_data s3 = old_answer
       \<and> f_calls s3 = [OnSuccess new_answer, OnSuccess old_answer]"
  using assms
  by (simp add: run_effect_def clean_up_def fetch_initial_def fetchData_def getCachedData_def
      fetch_resolves_def settled_def Let_def)

theorem stale_response_overwrites_witness:
  "f_data (fetch_resolves default_config 3 0 (Str ''NIFTY'') (fetch_resolves default_config 2 1 (Str ''BANKNIFTY'')
     (run_effect default_config 1 (clean_up (run_effect default_config 0 (fetch_initial default_config Null []))))))
   = Str ''NIFTY''"
  using stale_response_overwrites [of default_config, OF _ _ refl refl refl]
  by (simp add: default_config_def caching_def)

lemma js_or_not_null: "js_or a (Str m) \<noteq> Null"
  by (cases a) (auto simp: js_or_def)

text \<open>A mutation always comes to rest: whatever the outcome, loading ends, \<open>onSettled\<close> is called
  last, and the caller gets the outcome itself; the error is null exactly after a success.\<close>

lemma mutation_settles:
  assumes "mutate_end outcome (mutate_begin s) = (r, s')"
    and "\<And>e. outcome = Inl e \<Longrightarrow> \<not> nullish (caught e)"
  shows "r = outcome \<and> \<not> m_isLoading s' \<and> last (m_calls s') = OnSettled
       \<and> (m_error s' = Null \<longleftrightarrow> (\<exists>v. outcome = Inr v))"
proof (cases outcome)
  case (Inr v)
  then show ?thesis using assms(1) by (auto simp: mutate_end_def mutate_begin_def)
next
  case (Inl e)
  then have "\<not> nullish (caught e)" by (rule assms(2))
  then show ?thesis using assms(1) Inl
    by (auto simp: mutate_end_def mutate_begin_def get_def js_or_not_null)
qed

end
