(* ===== verification/Chart_Socket.thy ===== *)
theory Chart_Socket
  imports Js_Json
begin

text \<open>
  The chart WebSocket hook (src/hooks/useChartSocket.js).  The browser's sockets, the reconnect
  timers and the heartbeat are part of the state; every socket ever opened keeps its handlers, so
  an event may come from a socket that is no longer the current one.  The random jitter of a
  reconnect and the decoded message are parameters.  Times are milliseconds.
\<close>

section \<open>State\<close>

datatype ready_state = CONNECTING | OPEN | CLOSING | CLOSED

record ws_state =
  w_sockets :: "(nat \<times> ready_state) list"
  w_current :: "nat option"
  w_isDisconnecting :: bool
  w_attempts :: nat
  w_timers :: "(nat \<times> rat) list"
  w_timerRef :: "nat option"
  w_nextTimer :: nat
  w_heartbeat :: bool
  w_lastPong :: int
  w_isConnected :: bool
  w_error :: jsval
  w_subscription :: jsval
  w_quality :: string
  w_sent :: "string list"
  w_ticks :: "jsval list"

definition ws_initial :: "int \<Rightarrow> ws_state" where
  "ws_initial now =
     \<lparr>w_sockets = [], w_current = None, w_isDisconnecting = False, w_attempts = 0, w_timers = [],
      w_timerRef = None, w_nextTimer = 0, w_heartbeat = False, w_lastPong = now,
      w_isConnected = False, w_error = Null, w_subscription = Null, w_quality = ''unknown'',
      w_sent = [], w_ticks = []\<rparr>"

text \<open>\<open>baseURL.replace(/^http/, "ws").replace("/api/v1", "") + "/ws/charts"\<close>.\<close>

definition getWsUrl :: "string \<Rightarrow> string" where
  "getWsUrl baseURL =
     (if baseURL = [] then ''ws://localhost:8000/ws/charts''
      else replace_first ''/api/v1'' []
             (if take 4 baseURL = ''http'' then ''ws'' @ drop 4 baseURL else baseURL) @ ''/ws/charts'')"

definition ready :: "ws_state \<Rightarrow> nat \<Rightarrow> ready_state option" where
  "ready s i = map_of (w_sockets s) i"

definition set_ready :: "nat \<Rightarrow> ready_state \<Rightarrow> ws_state \<Rightarrow> ws_state" where
  "set_ready i r s = s\<lparr>w_sockets := map (\<lambda>p. if fst p = i then (i, r) else p) (w_sockets s)\<rparr>"

definition current_open :: "ws_state \<Rightarrow> bool" where
  "current_open s \<longleftrightarrow> (case w_current s of Some i \<Rightarrow> ready s i = Some OPEN | None \<Rightarrow> False)"

section \<open>Connecting\<close>

text \<open>\<open>connect\<close>; the constructor of a socket may throw (\<open>Some\<close> error).\<close>

definition connect :: "jsval option \<Rightarrow> ws_state \<Rightarrow> ws_state" where
  "connect thrown s =
     (if current_open s then s
      else
        let s1 = s\<lparr>w_isDisconnecting := False\<rparr>; i = length (w_sockets s)
        in case thrown of
             Some err \<Rightarrow> s1\<lparr>w_error := opt err ''message''\<rparr>
           | None \<Rightarrow> s1\<lparr>w_sockets := w_sockets s @ [(i, CONNECTING)], w_current := Some i\<rparr>)"

definition on_open :: "nat \<Rightarrow> ws_state \<Rightarrow> ws_state" where
  "on_open i s =
     (set_ready i OPEN s)\<lparr>w_isConnected := True, w_error := Null, w_quality := ''good'',
        w_attempts := 0, w_heartbeat := True\<rparr>"

definition type_is :: "jsval \<Rightarrow> string \<Rightarrow> bool" where
  "type_is d t = strict_eq (opt d ''type'') (Str t)"

text \<open>A message that cannot be decoded, or decodes to \<open>null\<close>, is only logged.\<close>

definition on_message :: "int \<Rightarrow> jsval result \<Rightarrow> ws_state \<Rightarrow> ws_state" where
  "on_message now decoded s =
     (case decoded of
        Inl e \<Rightarrow> s
      | Inr d \<Rightarrow>
          if type_is d ''connected'' then s
          else if type_is d ''subscribed''
            then s\<lparr>w_subscription := Obj [(''symbol'', opt d ''symbol''), (''interval'', opt d ''interval'')]\<rparr>
          else if type_is d ''pong'' then s\<lparr>w_lastPong := now\<rparr>
          else if type_is d ''tick'' then s\<lparr>w_ticks := w_ticks s @ [d]\<rparr>
          else if type_is d ''error'' then s\<lparr>w_error := opt d ''message''\<rparr>
          else s)"

definition backoff :: "nat \<Rightarrow> rat" where
  "backoff attempts = min (1000 * 2 ^ attempts) 30000"

definition on_close :: "nat \<Rightarrow> int \<Rightarrow> rat \<Rightarrow> nat \<Rightarrow> ws_state \<Rightarrow> ws_state" where
  "on_close maxAttempts now jitter i s0 =
     (let s = (set_ready i CLOSED s0)\<lparr>w_isConnected := False, w_subscription := Null, w_heartbeat := False\<rparr>
      in if \<not> w_isDisconnecting s \<and> w_attempts s < maxAttempts
           then s\<lparr>w_timers := w_timers s @ [(w_nextTimer s, of_int now + backoff (w_attempts s) + jitter)],
                  w_timerRef := Some (w_nextTimer s), w_nextTimer := Suc (w_nextTimer s)\<rparr>
         else if \<not> w_isDisconnecting s
           then s\<lparr>w_error := Str ''Max reconnection attempts reached'', w_quality := ''disconnected''\<rparr>
         else s)"

definition on_error :: "ws_state \<Rightarrow> ws_state" where
  "on_error s = (if \<not> w_isDisconnecting s then s\<lparr>w_error := Str ''WebSocket connection error''\<rparr> else s)"

definition reconnect_fires :: "nat \<Rightarrow> jsval option \<Rightarrow> ws_state \<Rightarrow> ws_state" where
  "reconnect_fires t thrown s =
     connect thrown (s\<lparr>w_timers := filter (\<lambda>x. fst x \<noteq> t) (w_timers s), w_attempts := Suc (w_attempts s)\<rparr>)"

definition ping :: string where
  "ping = json_stringify (Obj [(''type'', Str ''ping'')])"

definition heartbeat_ticks :: "int \<Rightarrow> ws_state \<Rightarrow> ws_state" where
  "heartbeat_ticks now s =
     (if \<not> w_heartbeat s \<or> \<not> current_open s then s
      else
        let timeSinceLastPong = now - w_lastPong s
        in s\<lparr>w_sent := w_sent s @ [ping],
             w_quality := (if timeSinceLastPong > 30000 then ''poor''
                           else if timeSinceLastPong > 15000 then ''fair'' else ''good'')\<rparr>)"

section \<open>Commands\<close>

definition disconnect :: "nat \<Rightarrow> ws_state \<Rightarrow> ws_state" where
  "disconnect maxAttempts s =
     (let s1 = s\<lparr>w_isDisconnecting := True, w_heartbeat := False\<rparr>;
          s2 = (case w_timerRef s1 of
                  Some t \<Rightarrow> s1\<lparr>w_timers := filter (\<lambda>x. fst x \<noteq> t) (w_timers s1), w_timerRef := None\<rparr>
                | None \<Rightarrow> s1);
          s3 = (case w_current s2 of
                  Some i \<Rightarrow> (if ready s2 i = Some CLOSED then s2 else set_ready i CLOSING s2)\<lparr>w_current := None\<rparr>
                | None \<Rightarrow> s2)
      in s3\<lparr>w_isConnected := False, w_subscription := Null, w_attempts := maxAttempts\<rparr>)"

definition upper_char :: "char \<Rightarrow> char" where
  "upper_char c =
     (let n = char_code c in if 97 \<le> n \<and> n \<le> 122 then char_of (nat (n - 32)) else c)"

definition subscribe :: "string \<Rightarrow> jsval \<Rightarrow> ws_state \<Rightarrow> ws_state" where
  "subscribe symbol interval s =
     (if current_open s
      then s\<lparr>w_sent := w_sent s @ [json_stringify (Obj [(''type'', Str ''subscribe''),
                (''symbol'', Str (map upper_char symbol)), (''interval'', interval)])]\<rparr>
      else s)"

definition unsubscribe :: "ws_state \<Rightarrow> ws_state" where
  "unsubscribe s =
     (if current_open s
      then s\<lparr>w_sent := w_sent s @ [json_stringify (Obj [(''type'', Str ''unsubscribe'')])],
             w_subscription := Null\<rparr>
      else s)"

section \<open>Events\<close>

text \<open>
  What can happen to the hook, with what the browser guarantees: a socket opens while it is
  connecting, closes once, speaks while it is open, and a timer fires once.
\<close>

inductive ws_step :: "nat \<Rightarrow> ws_state \<Rightarrow> ws_state \<Rightarrow> bool" for maxAttempts where
  opens: "ready s i = Some CONNECTING \<Longrightarrow> ws_step maxAttempts s (on_open i s)"
| speaks: "ready s i = Some OPEN \<Longrightarrow> ws_step maxAttempts s (on_message now d s)"
| fails: "ready s i = Some r \<Longrightarrow> r \<noteq> CLOSED \<Longrightarrow> ws_step maxAttempts s (on_error s)"
| closes: "ready s i = Some r \<Longrightarrow> r \<noteq> CLOSED \<Longrightarrow> 0 \<le> jitter \<Longrightarrow> jitter < 1000 \<Longrightarrow>
     ws_step maxAttempts s (on_close maxAttempts now jitter i s)"
| fires: "(t, due) \<in> set (w_timers s) \<Longrightarrow> ws_step maxAttempts s (reconnect_fires t thrown s)"
| ticks: "ws_step maxAttempts s (heartbeat_ticks now s)"
| connects: "ws_step maxAttempts s (connect thrown s)"
| disconnects: "ws_step maxAttempts s (disconnect maxAttempts s)"
| subscribes: "ws_step maxAttempts s (subscribe symbol interval s)"
| unsubscribes: "ws_step maxAttempts s (unsubscribe s)"

section \<open>Reconnecting ends\<close>

text \<open>
  The runs of the hook while no socket opens and nobody touches it: sockets fail and close, and
  reconnect timers fire.  The number counts closings and timers.
\<close>

inductive retry_run :: "nat \<Rightarrow> ws_state \<Rightarrow> nat \<Rightarrow> ws_state \<Rightarrow> bool" for maxAttempts s0 where
  start: "retry_run maxAttempts s0 0 s0"
| failed: "retry_run maxAttempts s0 n s \<Longrightarrow> ready s i = Some r \<Longrightarrow> r \<noteq> CLOSED \<Longrightarrow>
     retry_run maxAttempts s0 n (on_error s)"
| closed: "retry_run maxAttempts s0 n s \<Longrightarrow> ready s i = Some r \<Longrightarrow> r \<noteq> CLOSED \<Longrightarrow> 0 \<le> jitter \<Longrightarrow>
     jitter < 1000 \<Longrightarrow> retry_run maxAttempts s0 (Suc n) (on_close maxAttempts now jitter i s)"
| fired: "retry_run maxAttempts s0 n s \<Longrightarrow> (t, due) \<in> set (w_timers s) \<Longrightarrow>
     retry_run maxAttempts s0 (Suc n) (reconnect_fires t None s)"

definition closed_sockets :: "nat \<Rightarrow> (nat \<times> ready_state) list" where
  "closed_sockets k = map (\<lambda>i. (i, CLOSED)) [0..<k]"

definition idle :: "nat \<Rightarrow> ws_state \<Rightarrow> bool" where
  "idle k s \<longleftrightarrow> \<not> w_isDisconnecting s \<and> w_attempts s = k \<and> w_current s = Some k"

definition trying :: "nat \<Rightarrow> ws_state \<Rightarrow> bool" where
  "trying k s \<longleftrightarrow> idle k s \<and> w_sockets s = closed_sockets k @ [(k, CONNECTING)] \<and> w_timers s = []"

definition pausing :: "nat \<Rightarrow> ws_state \<Rightarrow> bool" where
  "pausing k s \<longleftrightarrow> idle k s \<and> w_sockets s = closed_sockets (Suc k) \<and> (\<exists>x. w_timers s = [x])"

definition gave_up :: "nat \<Rightarrow> ws_state \<Rightarrow> bool" where
  "gave_up k s \<longleftrightarrow> idle k s \<and> w_sockets s = closed_sockets (Suc k) \<and> w_timers s = []
     \<and> w_error s = Str ''Max reconnection attempts reached'' \<and> w_quality s = ''disconnected''"

lemma map_of_closed: "map_of (closed_sockets k) i = (if i < k then Some CLOSED else None)"
  by (induction k) (auto simp: closed_sockets_def map_add_def)

lemma ready_trying: "trying k s \<Longrightarrow> ready s i = (if i < k then Some CLOSED else if i = k then Some CONNECTING else None)"
  by (auto simp: trying_def ready_def map_of_closed map_add_def)

lemma ready_all_closed:
  "w_sockets s = closed_sockets (Suc k) \<Longrightarrow> ready s i = Some r \<Longrightarrow> r = CLOSED"
  by (auto simp: ready_def map_of_closed split: if_splits)

lemma length_closed [simp]: "length (closed_sockets k) = k"
  by (simp add: closed_sockets_def)

lemma close_last:
  "map (\<lambda>p. if fst p = k then (k, CLOSED) else p) (closed_sockets k @ [(k, CONNECTING)]) = closed_sockets (Suc k)"
  by (auto simp: closed_sockets_def)

lemma retry_closed:
  assumes "trying k s"
  shows "if k < maxAttempts then pausing k (on_close maxAttempts now jitter k s)
         else gave_up k (on_close maxAttempts now jitter k s)"
  using assms close_last [of k]
  by (auto simp: trying_def pausing_def gave_up_def idle_def on_close_def set_ready_def Let_def)

lemma retry_fired:
  assumes "pausing k s" and "(t, due) \<in> set (w_timers s)"
  shows "trying (Suc k) (reconnect_fires t None s)"
proof -
  have t: "w_timers s = [(t, due)]" using assms by (auto simp: pausing_def)
  have "\<not> current_open s" if "w_current s' = w_current s" "w_sockets s' = w_sockets s" for s'
    using assms(1) by (auto simp: current_open_def pausing_def idle_def ready_def map_of_closed)
  then have "\<not> current_open (s\<lparr>w_timers := [], w_attempts := Suc (w_attempts s)\<rparr>)"
    using assms(1) by (auto simp: current_open_def pausing_def idle_def ready_def map_of_closed)
  then show ?thesis
    using assms(1) t
    by (simp add: reconnect_fires_def connect_def pausing_def trying_def idle_def Let_def)
qed

lemma retry_run_phases:
  assumes "retry_run maxAttempts s0 n s" and "trying 0 s0"
  shows "(\<exists>k \<le> maxAttempts. n = 2 * k \<and> trying k s) \<or> (\<exists>k < maxAttempts. n = 2 * k + 1 \<and> pausing k s)
       \<or> (n = 2 * maxAttempts + 1 \<and> gave_up maxAttempts s)"
  using assms
proof (induction rule: retry_run.induct)
  case start
  then show ?case by auto
next
  case (failed n s i r)
  have closed: "\<not> pausing k s" "\<not> gave_up k s" for k
    using failed.hyps(2,3) ready_all_closed by (auto simp: pausing_def gave_up_def)
  then obtain k where "k \<le> maxAttempts" "n = 2 * k" "trying k s" using failed by auto
  moreover have "trying k (on_error s)"
    using \<open>trying k s\<close> by (auto simp: on_error_def trying_def idle_def)
  ultimately show ?case by blast
next
  case (closed n s i r jitter now)
  have "\<not> pausing k s" "\<not> gave_up k s" for k
    using closed.hyps(2,3) ready_all_closed by (auto simp: pausing_def gave_up_def)
  then obtain k where k: "k \<le> maxAttempts" "n = 2 * k" "trying k s" using closed by auto
  have "i = k" using closed.hyps(2,3) ready_trying [OF k(3), of i] by (auto split: if_splits)
  then show ?case using retry_closed [OF k(3), of maxAttempts now jitter] k(1,2)
    by (cases "k < maxAttempts") auto
next
  case (fired n s t due)
  have "\<not> trying k s" "\<not> gave_up k s" for k
    using fired.hyps(2) by (auto simp: trying_def gave_up_def)
  then obtain k where "k < maxAttempts" "n = 2 * k + 1" "pausing k s" using fired by auto
  then show ?case using retry_fired fired.hyps(2) by (intro disjI1 exI [of _ "Suc k"]) auto
qed

text \<open>Reconnecting comes to an end: from a first attempt, while no socket opens, there are never more
  than \<open>maxReconnectAttempts + 1\<close> sockets; as long as fewer than twice that many closings and timers
  have happened there is a socket still to close or a timer still to fire; and when all of them have
  happened nothing is pending and the hook shows the failure.\<close>

theorem reconnecting_ends:
  assumes "retry_run maxAttempts (connect None (ws_initial t0)) n s"
  shows "n \<le> 2 * maxAttempts + 1 \<and> length (w_sockets s) \<le> Suc maxAttempts
       \<and> (n < 2 * maxAttempts + 1 \<longrightarrow> (\<exists>i. ready s i = Some CONNECTING) \<or> w_timers s \<noteq> [])
       \<and> (n = 2 * maxAttempts + 1 \<longrightarrow>
            w_timers s = [] \<and> (\<forall>i r. ready s i = Some r \<longrightarrow> r = CLOSED)
            \<and> w_error s = Str ''Max reconnection attempts reached'' \<and> w_quality s = ''disconnected'')"
proof -
  have "trying 0 (connect None (ws_initial t0))"
    by (simp add: connect_def ws_initial_def current_open_def trying_def idle_def closed_sockets_def)
  from retry_run_phases [OF assms this]
  consider (trying) k where "k \<le> maxAttempts" "n = 2 * k" "trying k s"
    | (pausing) k where "k < maxAttempts" "n = 2 * k + 1" "pausing k s"
    | (gave_up) "n = 2 * maxAttempts + 1" "gave_up maxAttempts s" by blast
  then show ?thesis
  proof cases
    case trying
    have "ready s k = Some CONNECTING" using ready_trying [OF trying(3), of k] by simp
    moreover have "length (w_sockets s) = Suc k" using trying(3) by (simp add: trying_def)
    ultimately show ?thesis using trying(1,2) by auto
  next
    case pausing
    have "length (w_sockets s) = Suc k" "w_timers s \<noteq> []" using pausing(3) by (auto simp: pausing_def)
    then show ?thesis using pausing(1,2) by simp
  next
    case gave_up
    then show ?thesis using ready_all_closed [of s maxAttempts] by (auto simp: gave_up_def)
  qed
qed

lemma first_close: "retry_run 0 (connect None (ws_initial 0)) 1 (on_close 0 5 0 0 (connect None (ws_initial 0)))"
proof -
  let ?s = "connect None (ws_initial 0)"
  have "ready ?s 0 = Some CONNECTING"
    by (simp add: connect_def ws_initial_def current_open_def ready_def)
  then have "retry_run 0 ?s (Suc 0) (on_close 0 5 0 0 ?s)"
    by (intro retry_run.closed [OF retry_run.start]) auto
  then show ?thesis by simp
qed

theorem reconnecting_ends_witness:
  "w_quality (on_close 0 5 0 0 (connect None (ws_initial 0))) = ''disconnected''"
  using reconnecting_ends [OF first_close] by simp

section \<open>Reconnect delays\<close>

lemma backoff_bounds: "1000 \<le> backoff k \<and> backoff k \<le> 30000"
proof -
  have "(1 :: rat) \<le> 2 ^ k" by simp
  then show ?thesis by (simp add: backoff_def)
qed

lemma reconnect_delay:
  assumes "0 \<le> jitter" and "jitter < 1000"
    and "w_timers (on_close maxAttempts now jitter i s) = w_timers s @ [(t, due)]"
  shows "of_int now + 1000 \<le> due \<and> due < of_int now + 31000"
  using assms backoff_bounds [of "w_attempts s"]
  by (auto simp: on_close_def set_ready_def Let_def split: if_splits)

section \<open>A late close event\<close>

text \<open>Closing a socket takes a while.  When the hook disconnects and connects again (its effect runs
  again), the close event of the old socket arrives after the new one opened and is taken for the new
  one's: the state says disconnected although the current socket is open, its heartbeat is stopped,
  and the reconnect it schedules does nothing because the socket is open.\<close>

theorem late_close_disconnects_new_socket:
  assumes "current_open s" and "w_current s = Some i"
    and "\<forall>j \<in> set (map fst (w_sockets s)). j < length (w_sockets s)" and "0 < maxAttempts"
    and "s1 = on_open (length (w_sockets s)) (connect None (disconnect maxAttempts s))"
    and "s2 = on_close maxAttempts now jitter i s1"
    and "s3 = reconnect_fires (w_nextTimer s1) None s2"
  shows "w_isConnected s1 \<and> ready s1 i = Some CLOSING
       \<and> current_open s2 \<and> \<not> w_isConnected s2 \<and> \<not> w_heartbeat s2
       \<and> w_sockets s3 = w_sockets s2 \<and> current_open s3 \<and> \<not> w_isConnected s3 \<and> \<not> w_heartbeat s3"
proof -
  let ?n = "length (w_sockets s)"
  have ri: "ready s i = Some OPEN" using assms(1,2) by (simp add: current_open_def)
  have new: "map_of (w_sockets s) ?n = None"
  proof -
    have "?n \<notin> fst ` set (w_sockets s)" using assms(3) by fastforce
    then show ?thesis by (simp add: map_of_eq_None_iff)
  qed
  then have i: "i \<noteq> ?n" using ri by (auto simp: ready_def)
  have upd: "map_of (map (\<lambda>p. if fst p = k then (k, r) else p) xs) j =
      (if j = k \<and> map_of xs k \<noteq> None then Some r else map_of xs j)" for k r j and xs :: "(nat \<times> ready_state) list"
    by (induction xs) auto
  define d where "d = disconnect maxAttempts s"
  have d: "w_sockets d = map (\<lambda>p. if fst p = i then (i, CLOSING) else p) (w_sockets s)"
    "w_current d = None" "w_isDisconnecting d"
    using assms(2) ri
    by (auto simp: d_def disconnect_def set_ready_def ready_def Let_def split: option.split)
  define c where "c = connect None d"
  have c: "w_sockets c = w_sockets d @ [(?n, CONNECTING)]" "w_current c = Some ?n" "\<not> w_isDisconnecting c"
    using d by (simp_all add: c_def connect_def current_open_def Let_def)
  have s1: "w_current s1 = Some ?n" "w_attempts s1 = 0" "w_isConnected s1" "\<not> w_isDisconnecting s1"
    "w_sockets s1 = map (\<lambda>p. if fst p = ?n then (?n, OPEN) else p) (w_sockets c)"
    using c by (simp_all add: assms(5) d_def [symmetric] c_def [symmetric] on_open_def set_ready_def)
  have lookc: "map_of (w_sockets c) j =
      (if j = ?n then Some CONNECTING else if j = i then Some CLOSING else map_of (w_sockets s) j)" for j
  proof -
    have "map_of (w_sockets d) j = (if j = i then Some CLOSING else map_of (w_sockets s) j)" for j
      using ri unfolding d(1) upd by (simp add: ready_def)
    then show ?thesis using new i by (simp add: c(1) map_add_def split: option.split)
  qed
  have look: "map_of (w_sockets s1) j =
      (if j = ?n then Some OPEN else if j = i then Some CLOSING else map_of (w_sockets s) j)" for j
    unfolding s1(5) upd lookc by simp
  have s2: "w_current s2 = Some ?n" "\<not> w_isConnected s2" "\<not> w_heartbeat s2"
    "w_sockets s2 = map (\<lambda>p. if fst p = i then (i, CLOSED) else p) (w_sockets s1)"
    using s1 assms(4) by (simp_all add: assms(6) on_close_def set_ready_def Let_def)
  have open2: "current_open s2" using s2 i look by (simp add: current_open_def ready_def upd)
  then have "s3 = s2\<lparr>w_timers := filter (\<lambda>x. fst x \<noteq> w_nextTimer s1) (w_timers s2), w_attempts := Suc (w_attempts s2)\<rparr>"
    using s2(1) unfolding assms(7) reconnect_fires_def connect_def
    by (simp add: current_open_def ready_def)
  then show ?thesis
    using s1 s2 open2 look i by (simp add: ready_def current_open_def split: option.splits)
qed

definition opened :: ws_state where
  "opened = on_open 0 (connect None (ws_initial 0))"

theorem late_close_disconnects_new_socket_witness:
  "\<not> w_isConnected (on_close 10 7 0 0 (on_open 1 (connect None (disconnect 10 opened))))"
proof -
  have s: "w_sockets opened = [(0, OPEN)]" "w_current opened = Some 0"
    by (simp_all add: opened_def on_open_def connect_def ws_initial_def current_open_def set_ready_def)
  then have "current_open opened" by (simp add: current_open_def ready_def)
  from late_close_disconnects_new_socket [OF this s(2) _ _ refl refl refl, of 10 7 0] show ?thesis
    by (simp add: s)
qed

section \<open>Invariant\<close>

inductive ws_reachable :: "nat \<Rightarrow> ws_state \<Rightarrow> bool" for maxAttempts where
  init: "ws_reachable maxAttempts (ws_initial now)"
| step: "ws_reachable maxAttempts s \<Longrightarrow> ws_step maxAttempts s s' \<Longrightarrow> ws_reachable maxAttempts s'"

definition ws_inv :: "ws_state \<Rightarrow> bool" where
  "ws_inv s \<longleftrightarrow>
     map fst (w_sockets s) = [0..<length (w_sockets s)] \<and> w_heartbeat s = w_isConnected s \<and>
     (w_isConnected s \<longrightarrow> (\<exists>i. ready s i = Some OPEN)) \<and>
     (\<forall>i. w_current s = Some i \<longrightarrow> i < length (w_sockets s))"

lemma ready_set: "ready (set_ready i r s) j = (if j = i \<and> ready s i \<noteq> None then Some r else ready s j)"
proof -
  have "map_of (map (\<lambda>p. if fst p = i then (i, r) else p) xs) j =
      (if j = i \<and> map_of xs i \<noteq> None then Some r else map_of xs j)" for xs :: "(nat \<times> ready_state) list"
    by (induction xs) auto
  then show ?thesis by (simp add: ready_def set_ready_def)
qed

lemma set_ready_fields [simp]:
  "w_heartbeat (set_ready i r s) = w_heartbeat s" "w_isConnected (set_ready i r s) = w_isConnected s"
  "w_current (set_ready i r s) = w_current s" "length (w_sockets (set_ready i r s)) = length (w_sockets s)"
  "map fst (w_sockets (set_ready i r s)) = map fst (w_sockets s)"
  "w_isDisconnecting (set_ready i r s) = w_isDisconnecting s"
  by (simp_all add: set_ready_def)

lemma ready_cong: "w_sockets s = w_sockets s' \<Longrightarrow> ready s = ready s'"
  by (rule ext) (simp add: ready_def)

lemma ws_inv_cong:
  "ws_inv s \<Longrightarrow> w_sockets s' = w_sockets s \<Longrightarrow> w_heartbeat s' = w_heartbeat s \<Longrightarrow>
     w_isConnected s' = w_isConnected s \<Longrightarrow> w_current s' = w_current s \<Longrightarrow> ws_inv s'"
  using ready_cong [of s' s] by (simp add: ws_inv_def)

lemma ws_inv_connect: "ws_inv s \<Longrightarrow> ws_inv (connect thrown s)"
proof (cases "current_open s \<or> (\<exists>e. thrown = Some e)")
  case True
  then show "ws_inv s \<Longrightarrow> ws_inv (connect thrown s)"
    by (erule_tac ws_inv_cong) (auto simp: connect_def Let_def)
next
  case False
  assume inv: "ws_inv s"
  have n: "ready s (length (w_sockets s)) = None"
  proof -
    have "length (w_sockets s) \<notin> set (map fst (w_sockets s))" using inv by (simp only: ws_inv_def set_upt) simp
    then show ?thesis by (simp add: ready_def map_of_eq_None_iff)
  qed
  have look: "ready (connect thrown s) j = (if j = length (w_sockets s) then Some CONNECTING else ready s j)" for j
    using False n by (auto simp: connect_def ready_def map_add_def Let_def split: option.split)
  have kept: "\<exists>j. ready (connect thrown s) j = Some OPEN" if h: "\<exists>j. ready s j = Some OPEN"
  proof -
    obtain j where j: "ready s j = Some OPEN" using h by blast
    then have "j \<noteq> length (w_sockets s)" using n by auto
    then show ?thesis using j look [of j] by (intro exI [of _ j]) simp
  qed
  have "w_sockets (connect thrown s) = w_sockets s @ [(length (w_sockets s), CONNECTING)]"
    "w_heartbeat (connect thrown s) = w_heartbeat s" "w_isConnected (connect thrown s) = w_isConnected s"
    "w_current (connect thrown s) = Some (length (w_sockets s))"
    using False by (simp_all add: connect_def Let_def)
  then show "ws_inv (connect thrown s)" using inv kept by (simp add: ws_inv_def)
qed

lemma ws_step_inv: "ws_step maxAttempts s s' \<Longrightarrow> ws_inv s \<Longrightarrow> ws_inv s'"
proof (induction rule: ws_step.induct)
  case (opens s i)
  have "ready (on_open i s) i = Some OPEN"
    using opens ready_set [of i OPEN s i] by (simp add: on_open_def ready_def)
  then show ?case using opens by (auto simp: ws_inv_def on_open_def)
next
  case (speaks s i now d)
  then show ?case
    by (erule_tac ws_inv_cong) (auto simp: on_message_def split: sum.split)
next
  case (fails s i r)
  then show ?case by (erule_tac ws_inv_cong) (auto simp: on_error_def)
next
  case (closes s i r jitter now)
  then show ?case by (auto simp: ws_inv_def on_close_def Let_def)
next
  case (fires t due s thrown)
  have "ws_inv (s\<lparr>w_timers := filter (\<lambda>x. fst x \<noteq> t) (w_timers s), w_attempts := Suc (w_attempts s)\<rparr>)"
    using fires by (auto intro: ws_inv_cong)
  then show ?case unfolding reconnect_fires_def by (rule ws_inv_connect)
next
  case (ticks s now)
  then show ?case by (erule_tac ws_inv_cong) (auto simp: heartbeat_ticks_def Let_def)
next
  case (connects s thrown)
  then show ?case by (rule ws_inv_connect)
next
  case (disconnects s)
  then show ?case by (auto simp: ws_inv_def disconnect_def Let_def split: option.split)
next
  case (subscribes s symbol interval)
  then show ?case by (erule_tac ws_inv_cong) (auto simp: subscribe_def)
next
  case (unsubscribes s)
  then show ?case by (erule_tac ws_inv_cong) (auto simp: unsubscribe_def)
qed

text \<open>In every reachable state the heartbeat runs exactly while the hook says connected, and while it
  says connected some socket is open (not always the current one).\<close>

theorem connected_means_open:
  assumes "ws_reachable maxAttempts s"
  shows "w_heartbeat s = w_isConnected s \<and> (w_isConnected s \<longrightarrow> (\<exists>i. ready s i = Some OPEN))"
proof -
  from assms have "ws_inv s"
  proof (induction rule: ws_reachable.induct)
    case (init now)
    then show ?case by (simp add: ws_inv_def ws_initial_def)
  next
    case (step s s')
    then show ?case by (blast intro: ws_step_inv)
  qed
  then show ?thesis by (simp add: ws_inv_def)
qed

lemma opened_reachable: "ws_reachable 10 opened"
proof -
  have "ws_reachable 10 (connect None (ws_initial 0))"
    by (rule ws_reachable.step [OF ws_reachable.init]) (rule ws_step.connects)
  moreover have "ready (connect None (ws_initial 0)) 0 = Some CONNECTING"
    by (simp add: connect_def ws_initial_def current_open_def ready_def)
  ultimately show ?thesis unfolding opened_def by (blast intro: ws_reachable.step ws_step.opens)
qed

theorem connected_means_open_witness: "w_heartbeat opened = w_isConnected opened \<and> w_isConnected opened"
  using connected_means_open [OF opened_reachable] by (simp add: opened_def on_open_def)

end
