(* ===== verification/Table_Hooks.thy ===== *)
theory Table_Hooks
  imports Js_Json
begin

text \<open>
  The hooks behind the large tables: keyboard navigation and virtual focus
  (src/hooks/useTableNavigation.js), virtual scrolling and the window on the option chain
  (src/hooks/useVirtualScroll.js).  Row and column numbers are integers, which binary64 computes
  with exactly below $2^{53}$; the quotients of pixel lengths are rounded.  The references to DOM
  elements are dropped; what a hook writes to an element is a result of its operation.
\<close>

section \<open>Keyboard navigation\<close>

record nav_config =
  n_rowCount :: int
  n_colCount :: int
  n_wrapAround :: bool
  n_enabled :: bool

datatype nav_call = CellChange int int | Enter int int | Escape

record nav_state =
  n_row :: int
  n_col :: int
  n_isNavigating :: bool
  n_calls :: "nav_call list"

definition nav_initial :: "int \<Rightarrow> int \<Rightarrow> nav_state" where
  "nav_initial initialRow initialCol =
     \<lparr>n_row = initialRow, n_col = initialCol, n_isNavigating = False, n_calls = []\<rparr>"

definition clamp :: "int \<Rightarrow> int \<Rightarrow> int \<Rightarrow> int" where
  "clamp value lo hi = max lo (min hi value)"

definition setActiveCell :: "nav_config \<Rightarrow> int \<Rightarrow> int \<Rightarrow> nav_state \<Rightarrow> nav_state" where
  "setActiveCell cfg row col s =
     (let newRow = clamp row 0 (n_rowCount cfg - 1); newCol = clamp col 0 (n_colCount cfg - 1)
      in s\<lparr>n_row := newRow, n_col := newCol, n_isNavigating := True,
           n_calls := n_calls s @ [CellChange newRow newCol]\<rparr>)"

text \<open>The two corrections of a wrap, in their order.\<close>

definition wrap :: "int \<Rightarrow> int \<Rightarrow> int" where
  "wrap i count = (let j = (if i < 0 then count - 1 else i) in if j \<ge> count then 0 else j)"

definition navigate :: "nav_config \<Rightarrow> int \<Rightarrow> int \<Rightarrow> nav_state \<Rightarrow> nav_state" where
  "navigate cfg rowDelta colDelta s =
     (let newRow = n_row s + rowDelta; newCol = n_col s + colDelta
      in if n_wrapAround cfg
         then setActiveCell cfg (wrap newRow (n_rowCount cfg)) (wrap newCol (n_colCount cfg)) s
         else setActiveCell cfg (clamp newRow 0 (n_rowCount cfg - 1)) (clamp newCol 0 (n_colCount cfg - 1)) s)"

text \<open>A key press: whether it was handled, and the state.\<close>

definition handleKeyDown :: "nav_config \<Rightarrow> string \<Rightarrow> bool \<Rightarrow> nav_state \<Rightarrow> bool \<times> nav_state" where
  "handleKeyDown cfg key ctrlKey s =
     (if \<not> n_enabled cfg then (False, s)
      else if key = ''ArrowUp'' then (True, navigate cfg (- 1) 0 s)
      else if key = ''ArrowDown'' then (True, navigate cfg 1 0 s)
      else if key = ''ArrowLeft'' then (True, navigate cfg 0 (- 1) s)
      else if key = ''ArrowRight'' then (True, navigate cfg 0 1 s)
      else if key = ''Home'' then
        (True, if ctrlKey then setActiveCell cfg 0 0 s else setActiveCell cfg (n_row s) 0 s)
      else if key = ''End'' then
        (True, if ctrlKey then setActiveCell cfg (n_rowCount cfg - 1) (n_colCount cfg - 1) s
               else setActiveCell cfg (n_row s) (n_colCount cfg - 1) s)
      else if key = ''PageUp'' then (True, navigate cfg (- 10) 0 s)
      else if key = ''PageDown'' then (True, navigate cfg 10 0 s)
      else if key = ''Enter'' \<or> key = '' '' then
        (True, s\<lparr>n_calls := n_calls s @ [Enter (n_row s) (n_col s)]\<rparr>)
      else if key = ''Escape'' then
        (True, s\<lparr>n_isNavigating := False, n_calls := n_calls s @ [Escape]\<rparr>)
      else (False, s))"

text \<open>The effect after a render with other counts.\<close>

definition counts_changed :: "nav_config \<Rightarrow> nav_state \<Rightarrow> nav_state" where
  "counts_changed cfg s =
     (let s1 = (if n_row s \<ge> n_rowCount cfg then s\<lparr>n_row := max 0 (n_rowCount cfg - 1)\<rparr> else s)
      in if n_col s \<ge> n_colCount cfg then s1\<lparr>n_col := max 0 (n_colCount cfg - 1)\<rparr> else s1)"

fun first_row :: "(int \<Rightarrow> bool) \<Rightarrow> nat \<Rightarrow> int \<Rightarrow> int option" where
  "first_row predicate 0 i = None"
| "first_row predicate (Suc n) i = (if predicate i then Some i else first_row predicate n (i + 1))"

definition jumpToRow :: "nav_config \<Rightarrow> (int \<Rightarrow> bool) \<Rightarrow> nav_state \<Rightarrow> bool \<times> nav_state" where
  "jumpToRow cfg predicate s =
     (case first_row predicate (nat (n_rowCount cfg)) 0 of
        Some i \<Rightarrow> (True, setActiveCell cfg i (n_col s) s)
      | None \<Rightarrow> (False, s))"

definition getRowProps :: "nav_state \<Rightarrow> int \<Rightarrow> bool \<times> int" where
  "getRowProps s rowIndex = (rowIndex = n_row s, if rowIndex = n_row s then 0 else - 1)"

definition getCellProps :: "nav_state \<Rightarrow> int \<Rightarrow> int \<Rightarrow> bool \<times> int" where
  "getCellProps s rowIndex colIndex =
     (rowIndex = n_row s \<and> colIndex = n_col s,
      if rowIndex = n_row s \<and> colIndex = n_col s then 0 else - 1)"

section \<open>Virtual focus\<close>

definition focus_key :: "int \<Rightarrow> string \<Rightarrow> int \<Rightarrow> int" where
  "focus_key totalItems key prev =
     (if key = ''ArrowUp'' then max 0 (prev - 1)
      else if key = ''ArrowDown'' then min (totalItems - 1) (prev + 1)
      else if key = ''Home'' then 0
      else if key = ''End'' then totalItems - 1
      else if key = ''PageUp'' then max 0 (prev - 10)
      else if key = ''PageDown'' then min (totalItems - 1) (prev + 10)
      else prev)"

text \<open>The scroll position the hook writes, if any.\<close>

definition scrollToFocusedItem :: "int \<Rightarrow> int \<Rightarrow> rat \<Rightarrow> int \<Rightarrow> rat option" where
  "scrollToFocusedItem visibleStartIndex visibleEndIndex itemHeight focusedIndex =
     (if focusedIndex < visibleStartIndex \<or> focusedIndex > visibleEndIndex
      then Some (rd64 (of_int focusedIndex * itemHeight)) else None)"

section \<open>Virtual scrolling\<close>

record scroll_config =
  v_itemHeight :: rat
  v_overscan :: int
  v_containerHeight :: rat

definition DEFAULT_CONFIG :: scroll_config where
  "DEFAULT_CONFIG = \<lparr>v_itemHeight = 40, v_overscan = 5, v_containerHeight = 600\<rparr>"

definition totalHeight :: "scroll_config \<Rightarrow> int \<Rightarrow> rat" where
  "totalHeight cfg n = rd64 (of_int n * v_itemHeight cfg)"

definition visibleRange :: "scroll_config \<Rightarrow> rat \<Rightarrow> rat \<Rightarrow> int \<Rightarrow> int \<times> int" where
  "visibleRange cfg scrollTop viewportHeight n =
     (let startIndex = max 0 (\<lfloor>rd64 (scrollTop / v_itemHeight cfg)\<rfloor> - v_overscan cfg);
          visibleCount = \<lceil>rd64 (viewportHeight / v_itemHeight cfg)\<rceil>;
          endIndex = min n (startIndex + visibleCount + v_overscan cfg * 2)
      in (startIndex, endIndex))"

text \<open>The rows that are rendered, with their index and top.\<close>

definition virtualItems :: "scroll_config \<Rightarrow> rat \<Rightarrow> rat \<Rightarrow> 'a list \<Rightarrow> (int \<times> 'a \<times> rat) list" where
  "virtualItems cfg scrollTop viewportHeight items =
     (case visibleRange cfg scrollTop viewportHeight (int (length items)) of
        (startIndex, endIndex) \<Rightarrow>
          map (\<lambda>i. (i, items ! nat i, rd64 (of_int i * v_itemHeight cfg))) [startIndex..endIndex - 1])"

definition scrollToIndex :: "scroll_config \<Rightarrow> rat \<Rightarrow> int \<Rightarrow> string \<Rightarrow> rat" where
  "scrollToIndex cfg viewportHeight index align =
     (let h = v_itemHeight cfg;
          targetTop =
            (if align = ''center''
               then rd64 (rd64 (rd64 (of_int index * h) - rd64 (viewportHeight / 2)) + rd64 (h / 2))
             else if align = ''end'' then rd64 (rd64 (of_int (index + 1) * h) - viewportHeight)
             else rd64 (of_int index * h))
      in max 0 targetTop)"

definition isVirtualized :: "'a list \<Rightarrow> bool" where
  "isVirtualized items \<longleftrightarrow> length items > 50"

section \<open>The window on the option chain\<close>

text \<open>The centre: the first strike marked at the money, or the middle.\<close>

definition centre_of :: "bool list \<Rightarrow> int option" where
  "centre_of isATM =
     (if isATM = [] then None
      else Some (case find (\<lambda>i. isATM ! i) [0..<length isATM] of
                   Some i \<Rightarrow> int i | None \<Rightarrow> int (length isATM) div 2))"

definition chain_window :: "int \<Rightarrow> int \<Rightarrow> int option \<Rightarrow> int \<times> int" where
  "chain_window visibleCount n centerIndex =
     (case centerIndex of
        None \<Rightarrow> (0, 0)
      | Some c \<Rightarrow>
          if n = 0 then (0, 0)
          else
            let halfWindow = visibleCount div 2;
                startIndex = max 0 (c - halfWindow);
                endIndex = min n (startIndex + visibleCount)
            in (if endIndex = n then max 0 (endIndex - visibleCount) else startIndex, endIndex))"

definition showMore :: "int \<Rightarrow> int \<Rightarrow> bool \<Rightarrow> int option \<Rightarrow> int option" where
  "showMore visibleCount n up prev =
     (case prev of
        None \<Rightarrow> None
      | Some c \<Rightarrow>
          let step = visibleCount div 2
          in Some (if up then max step (c - step) else min (n - step - 1) (c + step)))"

definition canShowMore :: "int \<Rightarrow> int \<times> int \<Rightarrow> bool \<times> bool" where
  "canShowMore n w = (fst w > 0, snd w < n)"

section \<open>Properties: navigation\<close>

text \<open>Everything that can happen to the table: keys, jumps, cells set from outside, new counts.\<close>

inductive nav_reachable :: "nav_config \<Rightarrow> nav_state \<Rightarrow> bool" where
  init: "nav_reachable cfg (counts_changed cfg (nav_initial r c))" if "0 \<le> r" and "0 \<le> c"
| key: "nav_reachable cfg s \<Longrightarrow> nav_reachable cfg (snd (handleKeyDown cfg k ctrl s))"
| jump: "nav_reachable cfg s \<Longrightarrow> nav_reachable cfg (snd (jumpToRow cfg P s))"
| cell: "nav_reachable cfg s \<Longrightarrow> nav_reachable cfg (setActiveCell cfg row col s)"
| counts: "nav_reachable cfg s \<Longrightarrow> nav_reachable cfg' (counts_changed cfg' s)"

definition in_table :: "nav_config \<Rightarrow> nav_state \<Rightarrow> bool" where
  "in_table cfg s \<longleftrightarrow>
     0 \<le> n_row s \<and> n_row s \<le> max 0 (n_rowCount cfg - 1) \<and> 0 \<le> n_col s \<and> n_col s \<le> max 0 (n_colCount cfg - 1)"

lemma clamp_range: "0 \<le> clamp v 0 hi" "clamp v 0 hi \<le> max 0 hi"
  by (auto simp: clamp_def)

lemma in_table_set [simp]: "in_table cfg (setActiveCell cfg row col s)"
  by (simp add: in_table_def setActiveCell_def clamp_range Let_def)

lemma in_table_navigate [simp]: "in_table cfg (navigate cfg dr dc s)"
  by (simp add: navigate_def Let_def)

lemma in_table_counts: "0 \<le> n_row s \<Longrightarrow> 0 \<le> n_col s \<Longrightarrow> in_table cfg (counts_changed cfg s)"
  by (simp add: in_table_def counts_changed_def Let_def)

lemma in_table_key: "in_table cfg s \<Longrightarrow> in_table cfg (snd (handleKeyDown cfg k ctrl s))"
proof -
  assume "in_table cfg s"
  then have "in_table cfg (s\<lparr>n_calls := cs\<rparr>)" "in_table cfg (s\<lparr>n_isNavigating := b, n_calls := cs\<rparr>)" for cs b
    by (simp_all add: in_table_def)
  then show "in_table cfg (snd (handleKeyDown cfg k ctrl s))"
    using \<open>in_table cfg s\<close>
    by (simp only: handleKeyDown_def if_distrib [of snd] if_distrib [of "in_table cfg"] snd_conv
        in_table_set in_table_navigate if_cancel)
qed

text \<open>The active cell never leaves the table, whatever keys are pressed, cells requested or counts the
  table gets, with and without wrapping; in an empty table it is the cell (0, 0).\<close>

theorem active_cell_in_table:
  assumes "nav_reachable cfg s"
  shows "0 \<le> n_row s \<and> n_row s \<le> max 0 (n_rowCount cfg - 1)
       \<and> 0 \<le> n_col s \<and> n_col s \<le> max 0 (n_colCount cfg - 1)"
proof -
  from assms have "in_table cfg s"
  proof (induction rule: nav_reachable.induct)
    case (init r c cfg)
    then show ?case by (intro in_table_counts) (simp_all add: nav_initial_def)
  next
    case (key cfg s k ctrl)
    from key.IH show ?case by (rule in_table_key)
  next
    case (jump cfg s P)
    then show ?case by (auto simp: jumpToRow_def split: option.split)
  next
    case (cell cfg s row col)
    show ?case by simp
  next
    case (counts cfg s cfg')
    then show ?case by (intro in_table_counts) (simp_all add: in_table_def)
  qed
  then show ?thesis by (simp add: in_table_def)
qed

definition small_table :: nav_config where
  "small_table = \<lparr>n_rowCount = 3, n_colCount = 2, n_wrapAround = False, n_enabled = True\<rparr>"

theorem active_cell_in_table_witness:
  "n_row (snd (handleKeyDown small_table ''PageDown'' False (counts_changed small_table (nav_initial 7 0)))) \<le> 2"
proof -
  have "nav_reachable small_table (snd (handleKeyDown small_table ''PageDown'' False
      (counts_changed small_table (nav_initial 7 0))))"
    by (intro nav_reachable.key nav_reachable.init) simp_all
  from active_cell_in_table [OF this] show ?thesis by (simp add: small_table_def)
qed

text \<open>Jumping finds the first matching row and stays where it is when no row matches.\<close>

lemma first_row_Some:
  "first_row P n i = Some j \<Longrightarrow> i \<le> j \<and> j < i + int n \<and> P j \<and> (\<forall>k. i \<le> k \<and> k < j \<longrightarrow> \<not> P k)"
proof (induction n arbitrary: i)
  case (Suc n)
  show ?case
  proof (cases "P i")
    case True
    then show ?thesis using Suc.prems by auto
  next
    case False
    then have "first_row P n (i + 1) = Some j" using Suc.prems by simp
    note ih = Suc.IH [OF this]
    have "\<not> P k" if k: "i \<le> k" "k < j" for k
    proof (cases "k = i")
      case False
      then have "i + 1 \<le> k" using k(1) by simp
      then show ?thesis using ih k(2) by blast
    qed (use False in simp)
    then show ?thesis using ih by auto
  qed
qed simp

lemma first_row_None: "first_row P n i = None \<Longrightarrow> i \<le> k \<Longrightarrow> k < i + int n \<Longrightarrow> \<not> P k"
proof (induction n arbitrary: i)
  case (Suc n)
  then have "\<not> P i" "first_row P n (i + 1) = None" by (auto split: if_splits)
  then show ?case using Suc.IH [of "i + 1"] Suc.prems by (cases "k = i") auto
qed simp

lemma jump_finds_first:
  assumes "jumpToRow cfg P s = (found, s')" and "0 \<le> n_rowCount cfg"
  shows "if found then P (n_row s') \<and> n_row s' < n_rowCount cfg \<and> (\<forall>k. 0 \<le> k \<and> k < n_row s' \<longrightarrow> \<not> P k)
         else s' = s \<and> (\<forall>k. 0 \<le> k \<and> k < n_rowCount cfg \<longrightarrow> \<not> P k)"
proof (cases "first_row P (nat (n_rowCount cfg)) 0")
  case None
  then show ?thesis using assms first_row_None [OF None] by (auto simp: jumpToRow_def)
next
  case (Some i)
  note i = first_row_Some [OF Some]
  then have "clamp i 0 (n_rowCount cfg - 1) = i" using assms(2) by (auto simp: clamp_def)
  then show ?thesis using assms Some i by (auto simp: jumpToRow_def setActiveCell_def Let_def)
qed

text \<open>In an empty list the keys that look for the last item focus item $-1$.\<close>

lemma focus_in_list:
  assumes "0 < n" and "0 \<le> prev" and "prev < n"
  shows "0 \<le> focus_key n k prev \<and> focus_key n k prev < n"
proof -
  have "0 \<le> max 0 (prev - d) \<and> max 0 (prev - d) < n" "0 \<le> min (n - 1) (prev + d) \<and> min (n - 1) (prev + d) < n"
    if "0 \<le> d" for d
    using assms that by auto
  then show ?thesis
    using assms unfolding focus_key_def by (simp only: if_distrib [of "\<lambda>x. 0 \<le> x \<and> x < n"] split: if_split) simp
qed

lemma focus_leaves_empty_list: "focus_key 0 ''End'' 0 = - 1" "focus_key 0 ''ArrowDown'' 0 = - 1"
  by (simp_all add: focus_key_def)

section \<open>Properties: virtual scrolling\<close>

lemma rounded_floor:
  assumes "0 \<le> q" and "q \<le> 2 ^ 53"
  shows "\<lfloor>q\<rfloor> \<le> \<lfloor>rd64 q\<rfloor>" and "rd64 q \<le> of_int \<lceil>q\<rceil>"
proof -
  have f: "0 \<le> \<lfloor>q\<rfloor>" "\<lfloor>q\<rfloor> \<le> 2 ^ 53" using assms by (auto simp: floor_le_iff)
  have c: "0 \<le> \<lceil>q\<rceil>" "\<lceil>q\<rceil> \<le> 2 ^ 53" using assms by (auto simp: ceiling_le_iff)
  have "of_int \<lfloor>q\<rfloor> \<le> rd64 q" using f by (intro binary64.lower) auto
  then show "\<lfloor>q\<rfloor> \<le> \<lfloor>rd64 q\<rfloor>" by (simp add: le_floor_iff)
  show "rd64 q \<le> of_int \<lceil>q\<rceil>" using c by (intro binary64.upper) auto
qed

text \<open>The arithmetic behind the overscan: the rendered range holds every row that meets the viewport.\<close>

lemma overscan_covers:
  assumes "0 \<le> q" and "q \<le> 2 ^ 53" and "0 \<le> w" and "w \<le> 2 ^ 53" and "2 \<le> k" and "0 \<le> i" and "i < n"
    and "q < of_int (i + 1)" and "of_int i < q + w"
  shows "max 0 (\<lfloor>rd64 q\<rfloor> - k) \<le> i" and "i < min n (max 0 (\<lfloor>rd64 q\<rfloor> - k) + \<lceil>rd64 w\<rceil> + k * 2)"
proof -
  have "\<lceil>q\<rceil> \<le> i + 1" using assms(8) by (simp add: ceiling_le_iff)
  then have "rd64 q \<le> of_int (i + 1)"
    using rounded_floor(2) [OF assms(1,2)] of_int_le_iff order_trans by blast
  then have a: "\<lfloor>rd64 q\<rfloor> \<le> i + 1" "\<lfloor>q\<rfloor> \<le> \<lfloor>rd64 q\<rfloor>"
    using rounded_floor(1) [OF assms(1,2)] by (simp_all add: floor_le_iff)
  have c: "\<lfloor>w\<rfloor> \<le> \<lceil>rd64 w\<rceil>"
    using rounded_floor(1) [OF assms(3,4)] floor_le_ceiling [of "rd64 w"] by linarith
  have fl: "i \<le> \<lfloor>q\<rfloor> + \<lfloor>w\<rfloor> + 1" using assms(9) floor_correct [of q] floor_correct [of w] by linarith
  show "max 0 (\<lfloor>rd64 q\<rfloor> - k) \<le> i" using a(1) assms(5,6) by linarith
  show "i < min n (max 0 (\<lfloor>rd64 q\<rfloor> - k) + \<lceil>rd64 w\<rceil> + k * 2)" using a(2) c fl assms(5,7) by linarith
qed

text \<open>C21: No hole in the viewport: with an overscan of at least two (the default is five) every row that
  meets the viewport is rendered, although the quotients are rounded; each rendered row is a row of
  the list, and at most the visible count and twice the overscan of them are rendered.\<close>

theorem viewport_is_covered:
  assumes "0 < v_itemHeight cfg" and "2 \<le> v_overscan cfg" and "0 \<le> scrollTop" and "0 \<le> viewportHeight"
    and "length items \<le> 2 ^ 53" and "viewportHeight / v_itemHeight cfg \<le> 2 ^ 53"
    and "0 \<le> i" and "i < int (length items)"
    and "of_int i * v_itemHeight cfg < scrollTop + viewportHeight"
    and "scrollTop < of_int (i + 1) * v_itemHeight cfg"
  shows "i \<in> fst ` set (virtualItems cfg scrollTop viewportHeight items)
       \<and> (\<forall>(j, x, top) \<in> set (virtualItems cfg scrollTop viewportHeight items).
            0 \<le> j \<and> j < int (length items) \<and> x = items ! nat j)
       \<and> int (length (virtualItems cfg scrollTop viewportHeight items))
           \<le> \<lceil>rd64 (viewportHeight / v_itemHeight cfg)\<rceil> + 2 * v_overscan cfg"
proof -
  define h where "h = v_itemHeight cfg"
  define q where "q = scrollTop / h"
  define w where "w = viewportHeight / h"
  define n where "n = int (length items)"
  define st where "st = max 0 (\<lfloor>rd64 q\<rfloor> - v_overscan cfg)"
  define en where "en = min n (st + \<lceil>rd64 w\<rceil> + v_overscan cfg * 2)"
  have h: "0 < h" using assms(1) by (simp add: h_def)
  have qw: "0 \<le> q" "0 \<le> w" "w \<le> 2 ^ 53" using assms(3,4,6) h by (simp_all add: q_def w_def h_def)
  have iq: "q < of_int (i + 1)"
    using assms(10) h by (simp add: q_def h_def [symmetric] pos_divide_less_eq)
  have "of_int i * h < scrollTop + viewportHeight" using assms(9) by (simp add: h_def)
  then have "of_int i < (scrollTop + viewportHeight) / h" using h by (simp add: pos_less_divide_eq)
  then have ie: "of_int i < q + w" by (simp add: q_def w_def add_divide_distrib)
  have "n \<le> 2 ^ 53" using assms(5) by (simp add: n_def)
  then have "(of_int (i + 1) :: rat) \<le> of_int (2 ^ 53)"
    using assms(8) unfolding n_def of_int_le_iff by linarith
  then have q53: "q \<le> 2 ^ 53" using iq by simp
  have i: "st \<le> i" "i < en"
    using overscan_covers [OF qw(1) q53 qw(2,3) assms(2,7) assms(8) iq ie] by (simp_all add: st_def en_def n_def)
  have items: "virtualItems cfg scrollTop viewportHeight items =
      map (\<lambda>i. (i, items ! nat i, rd64 (of_int i * v_itemHeight cfg))) [st..en - 1]"
    by (simp add: virtualItems_def visibleRange_def n_def st_def en_def q_def w_def h_def Let_def)
  have "i \<in> fst ` set (virtualItems cfg scrollTop viewportHeight items)"
    using i by (force simp: items image_image)
  moreover have "0 \<le> st" "en \<le> n" by (simp_all add: st_def en_def)
  moreover have "int (length (virtualItems cfg scrollTop viewportHeight items)) \<le> \<lceil>rd64 w\<rceil> + 2 * v_overscan cfg"
    using i by (simp add: items) (simp add: en_def)
  ultimately show ?thesis by (auto simp: items n_def w_def h_def)
qed

theorem viewport_is_covered_witness:
  "100 \<in> fst ` set (virtualItems DEFAULT_CONFIG 4010 600 (replicate 1000 ()))"
  by (rule viewport_is_covered [THEN conjunct1]) (simp_all add: DEFAULT_CONFIG_def)

section \<open>Properties: the window on the option chain\<close>

lemma window_bounds:
  assumes "1 \<le> visibleCount" and "1 \<le> n" and "chain_window visibleCount n (Some c) = (st, en)"
  shows "0 \<le> st \<and> en \<le> n \<and> en - st = min n visibleCount \<and> (0 \<le> c \<and> c < n \<longrightarrow> st \<le> c \<and> c < en)"
proof -
  define half where "half = visibleCount div 2"
  have half: "0 \<le> half" "half < visibleCount" using assms(1) by (auto simp: half_def)
  define a where "a = max 0 (c - half)"
  have en: "en = min n (a + visibleCount)" "st = (if en = n then max 0 (en - visibleCount) else a)"
    using assms(2,3) by (auto simp: chain_window_def Let_def half_def a_def)
  have a: "0 \<le> a" "c - half \<le> a" "0 \<le> c \<Longrightarrow> a \<le> c" using half by (auto simp: a_def)
  show ?thesis
  proof (cases "a + visibleCount < n")
    case True
    then have "en = a + visibleCount" "st = a" using en by auto
    then show ?thesis using True a half assms(1) by auto
  next
    case False
    then have "en = n" "st = max 0 (n - visibleCount)" using en by auto
    then show ?thesis using False a half assms(1) by auto
  qed
qed

lemma showMore_down_iter:
  assumes "0 \<le> step" and "step = visibleCount div 2" and "c \<le> n - step - 1"
  shows "(showMore visibleCount n False ^^ k) (Some c) = Some (min (n - step - 1) (c + int k * step))"
proof (induction k)
  case 0
  then show ?case using assms(3) by simp
next
  case (Suc k)
  have "min (n - step - 1) (min (n - step - 1) (c + int k * step) + step) = min (n - step - 1) (c + int (Suc k) * step)"
    using assms(1) by (simp add: algebra_simps)
  moreover have "showMore visibleCount n False (Some d) = Some (min (n - step - 1) (d + step))" for d
    unfolding assms(2) by (simp add: showMore_def Let_def)
  ultimately show ?case using Suc by simp
qed

text \<open>Whether \<open>showMore("down")\<close> gets to the last strike depends on the parity of the window: with an
  odd count (the default is 21) repeating it reaches the end of the chain from anywhere; with an
  even one it never does, although \<open>canShowMore.down\<close> stays set.\<close>

theorem show_more_reaches_end:
  assumes "2 \<le> visibleCount" and "visibleCount < n" and "0 \<le> c" and "c < n - visibleCount div 2"
  shows "if odd visibleCount
         then \<exists>k. snd (chain_window visibleCount n ((showMore visibleCount n False ^^ k) (Some c))) = n
         else \<forall>k. snd (canShowMore n (chain_window visibleCount n ((showMore visibleCount n False ^^ k) (Some c))))"
proof -
  define step where "step = visibleCount div 2"
  have step: "1 \<le> step" "c \<le> n - step - 1" using assms by (auto simp: step_def)
  note iter = showMore_down_iter [OF _ step_def step(2)]
  show ?thesis
  proof (cases "odd visibleCount")
    case True
    then have vc: "visibleCount = 2 * step + 1" by (auto simp: step_def elim: oddE)
    have "n \<le> c + int (nat n) * step"
    proof -
      have "n * 1 \<le> n * step" using step(1) assms(1,2) by (intro mult_left_mono) auto
      moreover have "int (nat n) = n" using assms(1,2) by simp
      ultimately show ?thesis using assms(3) by simp
    qed
    then have "(showMore visibleCount n False ^^ nat n) (Some c) = Some (n - step - 1)"
      using iter [of "nat n"] step(1) by (simp add: min_def)
    moreover have "snd (chain_window visibleCount n (Some (n - step - 1))) = n"
      using assms(1,2) vc by (simp add: chain_window_def Let_def)
    ultimately show ?thesis using True by metis
  next
    case False
    then have vc: "visibleCount = 2 * step" by (auto simp: step_def)
    have "snd (chain_window visibleCount n (Some d)) < n" if d: "d \<le> n - step - 1" for d
      using assms(1,2) vc d by (auto simp: chain_window_def Let_def)
    then show ?thesis using False iter step(1) by (simp add: canShowMore_def)
  qed
qed

theorem show_more_reaches_end_witness:
  "(\<exists>k. snd (chain_window 21 100 ((showMore 21 100 False ^^ k) (Some 50))) = 100)
   \<and> (\<forall>k. snd (canShowMore 100 (chain_window 20 100 ((showMore 20 100 False ^^ k) (Some 50)))))"
  using show_more_reaches_end [of 21 100 50] show_more_reaches_end [of 20 100 50] by simp

end
