(* ===== verification/Js_Regex.thy ===== *)
theory Js_Regex
  imports Js_Json
begin

text \<open>
  Regular expressions without captures, look-around or flags, as the program's validators use them.
  \<open>RegExp.prototype.test\<close> with both anchors is membership in the language; the matcher takes
  derivatives, so that it computes, and agrees with the declarative meaning.  Strings are ASCII.
\<close>

datatype regex = Never | Eps | Cls "char \<Rightarrow> bool" | Cat regex regex | Alt regex regex | Star regex

inductive in_re :: "regex \<Rightarrow> string \<Rightarrow> bool" where
  eps: "in_re Eps []"
| cls: "P c \<Longrightarrow> in_re (Cls P) [c]"
| cat: "in_re r s \<Longrightarrow> in_re q t \<Longrightarrow> in_re (Cat r q) (s @ t)"
| alt_left: "in_re r s \<Longrightarrow> in_re (Alt r q) s"
| alt_right: "in_re q s \<Longrightarrow> in_re (Alt r q) s"
| star_none: "in_re (Star r) []"
| star_more: "in_re r s \<Longrightarrow> in_re (Star r) t \<Longrightarrow> in_re (Star r) (s @ t)"

inductive_simps in_re_simps [simp]: "in_re Never s" "in_re Eps s" "in_re (Cls P) s" "in_re (Alt r q) s"
inductive_simps in_re_cat: "in_re (Cat r q) s"
inductive_cases in_re_starE: "in_re (Star r) s"

section \<open>Matching by derivatives\<close>

primrec nullable :: "regex \<Rightarrow> bool" where
  "nullable Never = False"
| "nullable Eps = True"
| "nullable (Cls P) = False"
| "nullable (Cat r q) = (nullable r \<and> nullable q)"
| "nullable (Alt r q) = (nullable r \<or> nullable q)"
| "nullable (Star r) = True"

primrec deriv :: "char \<Rightarrow> regex \<Rightarrow> regex" where
  "deriv c Never = Never"
| "deriv c Eps = Never"
| "deriv c (Cls P) = (if P c then Eps else Never)"
| "deriv c (Cat r q) =
     (if nullable r then Alt (Cat (deriv c r) q) (deriv c q) else Cat (deriv c r) q)"
| "deriv c (Alt r q) = Alt (deriv c r) (deriv c q)"
| "deriv c (Star r) = Cat (deriv c r) (Star r)"

text \<open>\<open>/^r$/.test(s)\<close>.\<close>

definition test_re :: "regex \<Rightarrow> string \<Rightarrow> bool" where
  "test_re r s \<longleftrightarrow> nullable (foldl (\<lambda>q c. deriv c q) r s)"

lemma nullable_in_re: "nullable r \<longleftrightarrow> in_re r []"
  by (induction r) (auto simp: in_re_cat intro: in_re.star_none)

lemma in_re_star_Cons: "in_re (Star r) (c # s) \<longleftrightarrow> (\<exists>u v. s = u @ v \<and> in_re r (c # u) \<and> in_re (Star r) v)"
proof
  have "in_re q w \<Longrightarrow> q = Star r \<Longrightarrow> w = c # s \<Longrightarrow> \<exists>u v. s = u @ v \<and> in_re r (c # u) \<and> in_re (Star r) v" for q w
  proof (induction arbitrary: s rule: in_re.induct)
    case (star_more r' x t)
    show ?case
    proof (cases x)
      case Nil
      then show ?thesis using star_more by auto
    next
      case (Cons d u)
      then show ?thesis using star_more by (intro exI [of _ u] exI [of _ t]) auto
    qed
  qed auto
  then show "in_re (Star r) (c # s) \<Longrightarrow> \<exists>u v. s = u @ v \<and> in_re r (c # u) \<and> in_re (Star r) v" by blast
next
  show "\<exists>u v. s = u @ v \<and> in_re r (c # u) \<and> in_re (Star r) v \<Longrightarrow> in_re (Star r) (c # s)"
    using in_re.star_more by fastforce
qed

lemma deriv_in_re: "in_re (deriv c r) s \<longleftrightarrow> in_re r (c # s)"
proof (induction r arbitrary: s)
  case (Cat r q)
  have "in_re (Cat r q) (c # s) \<longleftrightarrow>
      (in_re r [] \<and> in_re q (c # s)) \<or> (\<exists>u v. s = u @ v \<and> in_re r (c # u) \<and> in_re q v)"
    by (auto simp: in_re_cat Cons_eq_append_conv)
  then show ?case using Cat by (auto simp: nullable_in_re in_re_cat)
next
  case (Star r)
  then show ?case by (auto simp: in_re_star_Cons in_re_cat)
qed auto

theorem test_re_in_re: "test_re r s \<longleftrightarrow> in_re r s"
proof -
  have "nullable (foldl (\<lambda>q c. deriv c q) r s) \<longleftrightarrow> in_re r s"
    by (induction s arbitrary: r) (simp_all add: nullable_in_re deriv_in_re)
  then show ?thesis by (simp add: test_re_def)
qed

section \<open>Derived forms\<close>

definition lit :: "char \<Rightarrow> regex" where "lit c = Cls (\<lambda>d. d = c)"
definition plus_re :: "regex \<Rightarrow> regex" where "plus_re r = Cat r (Star r)"
definition opt_re :: "regex \<Rightarrow> regex" where "opt_re r = Alt r Eps"

text \<open>\<open>r{n,n+m}\<close>.\<close>

primrec up_to :: "nat \<Rightarrow> regex \<Rightarrow> regex" where
  "up_to 0 r = Eps"
| "up_to (Suc m) r = opt_re (Cat r (up_to m r))"

primrec between_re :: "nat \<Rightarrow> nat \<Rightarrow> regex \<Rightarrow> regex" where
  "between_re 0 m r = up_to m r"
| "between_re (Suc n) m r = Cat r (between_re n m r)"

lemma in_re_star_cls: "in_re (Star (Cls P)) s \<longleftrightarrow> (\<forall>c \<in> set s. P c)"
proof (induction s)
  case Nil
  show ?case by (simp add: in_re.star_none)
next
  case (Cons c s)
  then show ?case by (auto simp: in_re_star_Cons)
qed

lemma in_re_cls_cat: "in_re (Cat (Cls P) q) s \<longleftrightarrow> (\<exists>c t. s = c # t \<and> P c \<and> in_re q t)"
proof
  show "in_re (Cat (Cls P) q) s \<Longrightarrow> \<exists>c t. s = c # t \<and> P c \<and> in_re q t"
    by (auto simp: in_re_cat)
next
  assume "\<exists>c t. s = c # t \<and> P c \<and> in_re q t"
  then obtain c t where "s = [c] @ t" "P c" "in_re q t" by auto
  then show "in_re (Cat (Cls P) q) s" using in_re.cat [OF in_re.cls] by blast
qed

lemma in_re_lit_cat: "in_re (Cat (lit c) q) s \<longleftrightarrow> (\<exists>t. s = c # t \<and> in_re q t)"
  by (auto simp: lit_def in_re_cls_cat)

lemma in_re_plus_cls: "in_re (plus_re (Cls P)) s \<longleftrightarrow> s \<noteq> [] \<and> (\<forall>c \<in> set s. P c)"
  by (cases s) (auto simp: plus_re_def in_re_cls_cat in_re_star_cls)

lemma in_re_opt_cat: "in_re (Cat (opt_re r) q) s \<longleftrightarrow> in_re (Cat r q) s \<or> in_re q s"
  by (auto simp: in_re_cat opt_re_def)

lemma in_re_up_to: "in_re (up_to m (Cls P)) s \<longleftrightarrow> length s \<le> m \<and> (\<forall>c \<in> set s. P c)"
proof (induction m arbitrary: s)
  case (Suc m)
  then show ?case by (cases s) (auto simp: opt_re_def in_re_cls_cat)
qed auto

lemma in_re_between: "in_re (between_re n m (Cls P)) s \<longleftrightarrow> n \<le> length s \<and> length s \<le> n + m \<and> (\<forall>c \<in> set s. P c)"
proof (induction n arbitrary: s)
  case 0
  then show ?case by (simp add: in_re_up_to)
next
  case (Suc n)
  then show ?case by (cases s) (auto simp: in_re_cls_cat)
qed

end
