(* ===== verification/Form_Validation.thy ===== *)
theory Form_Validation
  imports Js_Regex
begin

text \<open>
  The form library (src/hooks/useFormValidation.js): the validators, the runner, the form hook and
  the common schemas.  A validator is a function of a value and all values that returns a message or
  \<open>null\<close> (\<open>None\<close>); an empty message is falsy and counts as no error.  Strings are ASCII.  A regular
  expression or a predicate handed in by the caller is a parameter.
\<close>

section \<open>Validators\<close>

type_synonym form_values = "(string \<times> jsval) list"
type_synonym validator = "jsval \<Rightarrow> form_values \<Rightarrow> string option"
type_synonym schema = "(string \<times> validator list) list"

text \<open>A default parameter replaces \<open>undefined\<close>, \<open>message || text\<close> an empty message as well.\<close>

definition message_param :: "string option \<Rightarrow> string \<Rightarrow> string" where
  "message_param message d = (case message of None \<Rightarrow> d | Some m \<Rightarrow> m)"

definition message_or :: "string option \<Rightarrow> string \<Rightarrow> string" where
  "message_or message d = (if str_truthy message then the message else d)"

definition unless :: "bool \<Rightarrow> string \<Rightarrow> string option" where
  "unless passes msg = (if passes then None else Some msg)"

definition empty_value :: "jsval \<Rightarrow> bool" where
  "empty_value v \<longleftrightarrow> v = Undef \<or> v = Null \<or> v = Str []"

definition required :: "string option \<Rightarrow> validator" where
  "required message v allValues =
     unless (\<not> empty_value v \<and> v \<noteq> Arr []) (message_param message ''This field is required'')"

definition not_at_space :: "char \<Rightarrow> bool" where
  "not_at_space c \<longleftrightarrow> \<not> is_space c \<and> c \<noteq> CHR ''@''"

definition email_regex :: regex where
  "email_regex =
     Cat (plus_re (Cls not_at_space)) (Cat (lit (CHR ''@''))
       (Cat (plus_re (Cls not_at_space)) (Cat (lit (CHR ''.'')) (plus_re (Cls not_at_space)))))"

definition email :: "string option \<Rightarrow> validator" where
  "email message v allValues =
     (if \<not> truthy v then None
      else unless (test_re email_regex (js_to_string v)) (message_param message ''Please enter a valid email''))"

definition minLength :: "int \<Rightarrow> string option \<Rightarrow> validator" where
  "minLength mn message v allValues =
     (if \<not> truthy v then None
      else unless (mn \<le> int (length (js_to_string v)))
             (message_or message (''Must be at least '' @ show_int mn @ '' characters'')))"

definition maxLength :: "int \<Rightarrow> string option \<Rightarrow> validator" where
  "maxLength mx message v allValues =
     (if \<not> truthy v then None
      else unless (int (length (js_to_string v)) \<le> mx)
             (message_or message (''Must be no more than '' @ show_int mx @ '' characters'')))"

definition minValue :: "jsnum \<Rightarrow> string option \<Rightarrow> validator" where
  "minValue mn message v allValues =
     (if empty_value v then None
      else unless (mn \<le> to_number v) (message_or message (''Must be at least '' @ num_to_string mn)))"

definition maxValue :: "jsnum \<Rightarrow> string option \<Rightarrow> validator" where
  "maxValue mx message v allValues =
     (if empty_value v then None
      else unless (to_number v \<le> mx) (message_or message (''Must be no more than '' @ num_to_string mx)))"

definition pattern :: "(string \<Rightarrow> bool) \<Rightarrow> string option \<Rightarrow> validator" where
  "pattern regex_test message v allValues =
     (if \<not> truthy v then None
      else unless (regex_test (js_to_string v)) (message_param message ''Invalid format''))"

text \<open>A character class without anchors: some character of the text is in it.\<close>

definition contains :: "(char \<Rightarrow> bool) \<Rightarrow> string \<Rightarrow> string option \<Rightarrow> validator" where
  "contains P d message v allValues =
     (if \<not> truthy v then None
      else unless (list_ex P (js_to_string v)) (message_param message d))"

definition is_upper :: "char \<Rightarrow> bool" where
  "is_upper c \<longleftrightarrow> 65 \<le> char_code c \<and> char_code c \<le> 90"

definition is_lower :: "char \<Rightarrow> bool" where
  "is_lower c \<longleftrightarrow> 97 \<le> char_code c \<and> char_code c \<le> 122"

definition is_special :: "char \<Rightarrow> bool" where
  "is_special c \<longleftrightarrow> c \<in> set ''!@#$%^&*(),.?:{}|<>'' \<or> c = CHR 0x22"

definition hasUppercase :: "string option \<Rightarrow> validator" where
  "hasUppercase = contains is_upper ''Must contain at least one uppercase letter''"

definition hasLowercase :: "string option \<Rightarrow> validator" where
  "hasLowercase = contains is_lower ''Must contain at least one lowercase letter''"

definition hasNumber :: "string option \<Rightarrow> validator" where
  "hasNumber = contains is_digit ''Must contain at least one number''"

definition hasSpecialChar :: "string option \<Rightarrow> validator" where
  "hasSpecialChar = contains is_special ''Must contain at least one special character''"

definition field_value :: "form_values \<Rightarrow> string \<Rightarrow> jsval" where
  "field_value vals f = (case map_of vals f of Some v \<Rightarrow> v | None \<Rightarrow> Undef)"

definition matches :: "string \<Rightarrow> string option \<Rightarrow> validator" where
  "matches fieldName message v allValues =
     (if \<not> truthy v then None
      else unless (strict_eq v (field_value allValues fieldName))
             (message_or message (''Must match '' @ fieldName)))"

definition custom :: "(jsval \<Rightarrow> form_values \<Rightarrow> bool) \<Rightarrow> string option \<Rightarrow> validator" where
  "custom validateFn message v allValues =
     unless (validateFn v allValues) (message_param message ''Invalid value'')"

section \<open>The runner\<close>

fun validateField :: "jsval \<Rightarrow> validator list \<Rightarrow> form_values \<Rightarrow> string option" where
  "validateField v [] allValues = None"
| "validateField v (f # fs) allValues =
     (let error = f v allValues in if str_truthy error then error else validateField v fs allValues)"

definition validate_step :: "form_values \<Rightarrow> string \<times> validator list \<Rightarrow>
    (string \<times> string) list \<times> bool \<Rightarrow> (string \<times> string) list \<times> bool" where
  "validate_step values entry acc =
     (case (entry, acc) of ((field, validators), (errors, isValid)) \<Rightarrow>
        let error = validateField (field_value values field) validators values
        in if str_truthy error then (put field (the error) errors, False) else (errors, isValid))"

definition validateForm :: "form_values \<Rightarrow> schema \<Rightarrow> (string \<times> string) list \<times> bool" where
  "validateForm values schema = fold (validate_step values) schema ([], True)"

section \<open>The hook\<close>

record form_options =
  o_validateOnChange :: bool
  o_validateOnBlur :: bool

definition default_options :: form_options where
  "default_options = \<lparr>o_validateOnChange = False, o_validateOnBlur = True\<rparr>"

record form_state =
  fm_values :: form_values
  fm_errors :: "(string \<times> string option) list"
  fm_touched :: "(string \<times> bool) list"
  fm_isSubmitting :: bool

definition resetForm :: "form_values \<Rightarrow> form_state" where
  "resetForm initialValues =
     \<lparr>fm_values = initialValues, fm_errors = [], fm_touched = [], fm_isSubmitting = False\<rparr>"

definition validateSingleField :: "schema \<Rightarrow> string \<Rightarrow> jsval \<Rightarrow> form_state \<Rightarrow> string option" where
  "validateSingleField schema name v s =
     (case map_of schema name of
        None \<Rightarrow> None
      | Some validators \<Rightarrow> validateField v validators (put name v (fm_values s)))"

definition setFieldValue :: "string \<Rightarrow> jsval \<Rightarrow> form_state \<Rightarrow> form_state" where
  "setFieldValue name v s = s\<lparr>fm_values := put name v (fm_values s)\<rparr>"

definition setFieldError :: "string \<Rightarrow> string option \<Rightarrow> form_state \<Rightarrow> form_state" where
  "setFieldError name error s = s\<lparr>fm_errors := put name error (fm_errors s)\<rparr>"

definition clearErrors :: "form_state \<Rightarrow> form_state" where
  "clearErrors s = s\<lparr>fm_errors := []\<rparr>"

text \<open>The input that fires an event: name, value and, for a checkbox, whether it is checked.\<close>

record input =
  i_name :: string
  i_value :: jsval
  i_checked :: "bool option"

definition handleChange :: "schema \<Rightarrow> form_options \<Rightarrow> input \<Rightarrow> form_state \<Rightarrow> form_state" where
  "handleChange schema options i s =
     (let newValue = (case i_checked i of Some c \<Rightarrow> Bool c | None \<Rightarrow> i_value i);
          s1 = setFieldValue (i_name i) newValue s
      in if o_validateOnChange options \<and> map_of (fm_touched s) (i_name i) = Some True
         then setFieldError (i_name i) (validateSingleField schema (i_name i) newValue s) s1 else s1)"

definition handleBlur :: "schema \<Rightarrow> form_options \<Rightarrow> input \<Rightarrow> form_state \<Rightarrow> form_state" where
  "handleBlur schema options i s =
     (let s1 = s\<lparr>fm_touched := put (i_name i) True (fm_touched s)\<rparr>
      in if o_validateOnBlur options
         then setFieldError (i_name i) (validateSingleField schema (i_name i) (i_value i) s) s1 else s1)"

definition validate :: "schema \<Rightarrow> form_state \<Rightarrow> bool \<times> form_state" where
  "validate schema s =
     (case validateForm (fm_values s) schema of
        (newErrors, isValid) \<Rightarrow>
          (isValid, s\<lparr>fm_errors := map (\<lambda>(f, m). (f, Some m)) newErrors,
                      fm_touched := fold (\<lambda>f. put f True) (map fst schema) []\<rparr>))"

text \<open>\<open>handleSubmit\<close> up to the call of \<open>onSubmit\<close> (with what it is called), and after it.\<close>

definition submit_begin :: "schema \<Rightarrow> form_state \<Rightarrow> form_values option \<times> form_state" where
  "submit_begin schema s =
     (case validate schema s of
        (isValid, s1) \<Rightarrow> if isValid then (Some (fm_values s1), s1\<lparr>fm_isSubmitting := True\<rparr>) else (None, s1))"

definition submit_end :: "unit result \<Rightarrow> form_state \<Rightarrow> bool result \<times> form_state" where
  "submit_end outcome s =
     ((case outcome of Inl e \<Rightarrow> Inl e | Inr _ \<Rightarrow> Inr True), s\<lparr>fm_isSubmitting := False\<rparr>)"

definition isValid :: "form_state \<Rightarrow> bool" where
  "isValid s \<longleftrightarrow> list_all (\<lambda>p. \<not> str_truthy (snd p)) (fm_errors s)"

definition isDirty :: "form_state \<Rightarrow> bool" where
  "isDirty s \<longleftrightarrow> list_ex snd (fm_touched s)"

section \<open>The common schemas\<close>

definition phone_regex :: regex where
  "phone_regex =
     Cat (opt_re (lit (CHR ''+''))) (Cat (Cls (\<lambda>c. 49 \<le> char_code c \<and> char_code c \<le> 57))
       (between_re 9 5 (Cls is_digit)))"

definition commonSchemas :: schema where
  "commonSchemas =
     [(''email'', [required None, email None]),
      (''password'', [required None, minLength 8 None, hasUppercase None, hasNumber None]),
      (''strongPassword'', [required None, minLength 12 None, hasUppercase None, hasLowercase None,
          hasNumber None, hasSpecialChar None]),
      (''username'', [required None, minLength 3 None, maxLength 30 None]),
      (''phone'', [pattern (test_re phone_regex) (Some ''Please enter a valid phone number'')])]"

section \<open>The runner reports the first message of each field\<close>

lemma str_truthy_unless [simp]: "str_truthy (unless b m) \<longleftrightarrow> \<not> b \<and> m \<noteq> []"
  by (simp add: unless_def str_truthy_def)

lemma unless_None [simp]: "unless b m = None \<longleftrightarrow> b"
  by (simp add: unless_def)

lemma str_truthy_simps [simp]: "\<not> str_truthy None" "str_truthy (Some m) \<longleftrightarrow> m \<noteq> []"
  by (simp_all add: str_truthy_def)

lemma default_messages [simp]: "message_param None d = d" "message_or None d = d"
  by (simp_all add: message_param_def message_or_def)

lemma validateField_truthy:
  "str_truthy (validateField v fs all) \<longleftrightarrow> (\<exists>f \<in> set fs. str_truthy (f v all))"
  by (induction fs) (auto simp: Let_def str_truthy_def)

lemma validateField_None:
  "validateField v fs all = None \<longleftrightarrow> (\<forall>f \<in> set fs. \<not> str_truthy (f v all))"
  by (induction fs) (auto simp: Let_def str_truthy_def split: option.splits)

lemma validateField_cases: "validateField v fs all = None \<or> str_truthy (validateField v fs all)"
  by (metis validateField_None validateField_truthy)

text \<open>What a form with these values shows, by field.\<close>

definition messages :: "schema \<Rightarrow> form_values \<Rightarrow> string \<Rightarrow> string option" where
  "messages schema values f =
     (case map_of schema f of
        None \<Rightarrow> None | Some validators \<Rightarrow> validateField (field_value values f) validators values)"

definition passes :: "schema \<Rightarrow> form_values \<Rightarrow> bool" where
  "passes schema values \<longleftrightarrow>
     (\<forall>(f, validators) \<in> set schema. \<forall>v \<in> set validators. \<not> str_truthy (v (field_value values f) values))"

lemma validate_step_eq:
  "validate_step values (f, fs) (errors, ok) =
     (case validateField (field_value values f) fs values of
        Some m \<Rightarrow> (put f m errors, False) | None \<Rightarrow> (errors, ok))"
  using validateField_cases [of "field_value values f" fs "values"]
  by (auto simp: validate_step_def Let_def str_truthy_def split: option.splits)

lemma validate_fold:
  assumes "distinct (map fst schema)" and "fold (validate_step values) schema (errors, ok) = (errors', ok')"
    and "\<forall>f \<in> fst ` set schema. map_of errors f = None"
  shows "ok' = (ok \<and> (\<forall>f. messages schema values f = None))
       \<and> (\<forall>f. map_of errors' f = (if f \<in> fst ` set schema then messages schema values f else map_of errors f))"
  using assms
proof (induction schema arbitrary: errors ok)
  case Nil
  then show ?case by (simp add: messages_def)
next
  case (Cons entry schema)
  obtain f fs where entry: "entry = (f, fs)" by (cases entry)
  have f: "f \<notin> fst ` set schema" using Cons.prems(1) entry by simp
  then have unknown: "map_of schema f = None" by (simp add: map_of_eq_None_iff)
  have later: "messages (entry # schema) values g = messages schema values g" if "g \<noteq> f" for g
    using that entry by (simp add: messages_def)
  have here: "messages (entry # schema) values f = validateField (field_value values f) fs values"
    using entry by (simp add: messages_def)
  have none: "messages schema values f = None" using unknown by (simp add: messages_def)
  show ?case
  proof (cases "validateField (field_value values f) fs values")
    case None
    then have "fold (validate_step values) schema (errors, ok) = (errors', ok')"
      using Cons.prems(2) entry by (simp add: validate_step_eq)
    from Cons.IH [OF _ this] Cons.prems(1,3) entry f here later none None show ?thesis
      by (auto simp: image_iff) metis+
  next
    case (Some m)
    then have "fold (validate_step values) schema (put f m errors, False) = (errors', ok')"
      using Cons.prems(2) entry by (simp add: validate_step_eq)
    moreover have "\<forall>g \<in> fst ` set schema. map_of (put f m errors) g = None"
      using Cons.prems(3) entry f by (auto simp: map_of_put)
    ultimately show ?thesis
      using Cons.IH [of "put f m errors" False] Cons.prems(1) entry f here later Some
      by (auto simp: map_of_put image_iff)
  qed
qed

lemma validateForm_spec:
  assumes "distinct (map fst schema)" and "validateForm values schema = (errors, ok)"
  shows "ok = (\<forall>f. messages schema values f = None)" and "map_of errors = messages schema values"
proof -
  have unknown: "messages schema values f = None" if "f \<notin> fst ` set schema" for f
  proof -
    have "map_of schema f = None" using that by (simp add: map_of_eq_None_iff)
    then show ?thesis by (simp add: messages_def)
  qed
  from validate_fold [OF assms(1), of "values" "[]" True errors ok] assms(2)
  show "ok = (\<forall>f. messages schema values f = None)" "map_of errors = messages schema values"
    using unknown by (auto simp: validateForm_def)
qed

lemma passes_messages:
  "distinct (map fst schema) \<Longrightarrow> passes schema values \<longleftrightarrow> (\<forall>f. messages schema values f = None)"
  by (auto simp: passes_def messages_def validateField_None split: option.splits dest: map_of_SomeD)

lemma validateForm_distinct: "distinct (map fst (fst (validateForm values schema)))"
proof -
  have "distinct (map fst (fst (fold (validate_step values) es acc)))" if "distinct (map fst (fst acc))" for es acc
    using that
  proof (induction es arbitrary: acc)
    case (Cons e es)
    obtain f fs errs b where "e = (f, fs)" "acc = (errs, b)" by (metis surj_pair)
    then show ?case using Cons by (auto simp: validate_step_eq distinct_put split: option.split)
  qed simp
  from this [of "([], True)" schema] show ?thesis by (simp add: validateForm_def)
qed

lemma message_nonempty: "messages schema values f = Some m \<Longrightarrow> m \<noteq> []"
  using validateField_cases [of "field_value values f" "the (map_of schema f)" "values"]
  by (cases "map_of schema f") (auto simp: messages_def str_truthy_def)

text \<open>The form is valid exactly when no error is left, and an error that is left has a text.\<close>

lemma validateForm_valid:
  assumes "distinct (map fst schema)" and form: "validateForm values schema = (errors, ok)"
  shows "ok = passes schema values" and "ok \<longleftrightarrow> errors = []"
    and "list_all (\<lambda>p. \<not> str_truthy (snd p)) (map (\<lambda>(f, m). (f, Some m)) errors) \<longleftrightarrow> errors = []"
proof -
  note spec = validateForm_spec [OF assms]
  show "ok = passes schema values" using spec(1) passes_messages [OF assms(1)] by simp
  show "ok \<longleftrightarrow> errors = []"
    using spec by (metis (no_types) map_of.simps(1) map_of_eq_None_iff list.set(1) image_is_empty
        set_empty empty_iff equals0I)
  have entries: "m \<noteq> []" if "(f, m) \<in> set errors" for f m
    using that validateForm_distinct [of "values" schema] form spec(2) message_nonempty [of schema "values" f m]
    by (simp add: map_of_eq_Some_iff [symmetric])
  show "list_all (\<lambda>p. \<not> str_truthy (snd p)) (map (\<lambda>(f, m). (f, Some m)) errors) \<longleftrightarrow> errors = []"
  proof (cases errors)
    case (Cons e es)
    then show ?thesis using entries [of "fst e" "snd e"] by (cases e) simp
  qed simp
qed

section \<open>Properties\<close>

text \<open>
  A form in use, with the number of handlers that run (submits whose \<open>onSubmit\<close> has not settled).  Anything may happen while
  a handler runs, a second submit and a reset included; \<open>alone\<close> says that these two wait until no handler runs.
\<close>

inductive form_step :: "bool \<Rightarrow> schema \<Rightarrow> form_options \<Rightarrow> form_values \<Rightarrow> form_state \<times> nat \<Rightarrow> form_state \<times> nat \<Rightarrow> bool"
  for alone :: bool and schema :: schema and options :: form_options and initialValues :: form_values where
  changed: "form_step alone schema options initialValues (s, n) (handleChange schema options i s, n)"
| blurred: "form_step alone schema options initialValues (s, n) (handleBlur schema options i s, n)"
| value_set: "form_step alone schema options initialValues (s, n) (setFieldValue name v s, n)"
| error_set: "form_step alone schema options initialValues (s, n) (setFieldError name err s, n)"
| cleared: "form_step alone schema options initialValues (s, n) (clearErrors s, n)"
| validated: "validate schema s = (ok, s') \<Longrightarrow> form_step alone schema options initialValues (s, n) (s', n)"
| rejected: "submit_begin schema s = (None, s') \<Longrightarrow> form_step alone schema options initialValues (s, n) (s', n)"
| submitted: "submit_begin schema s = (Some vals, s') \<Longrightarrow> \<not> alone \<or> n = 0 \<Longrightarrow>
    form_step alone schema options initialValues (s, n) (s', Suc n)"
| settled: "form_step alone schema options initialValues (s, Suc n) (snd (submit_end outcome s), n)"
| was_reset: "\<not> alone \<or> n = 0 \<Longrightarrow> form_step alone schema options initialValues (s, n) (resetForm initialValues, n)"

lemma validate_flag: "validate schema s = (ok, s') \<Longrightarrow> fm_isSubmitting s' = fm_isSubmitting s"
  by (auto simp: validate_def split: prod.splits)

lemma submit_begin_flag:
  "submit_begin schema s = (called, s') \<Longrightarrow> fm_isSubmitting s' = (fm_isSubmitting s \<or> called \<noteq> None)"
  by (auto simp: submit_begin_def dest: validate_flag split: prod.splits if_splits)

lemma handler_flags [simp]:
  "fm_isSubmitting (setFieldError name err s) = fm_isSubmitting s"
  "fm_isSubmitting (setFieldValue name v s) = fm_isSubmitting s"
  "fm_isSubmitting (clearErrors s) = fm_isSubmitting s"
  "fm_isSubmitting (handleChange schema options i s) = fm_isSubmitting s"
  "fm_isSubmitting (handleBlur schema options i s) = fm_isSubmitting s"
  "fm_isSubmitting (resetForm initialValues) = False"
  "fm_isSubmitting (snd (submit_end outcome s)) = False"
  by (simp_all add: setFieldError_def setFieldValue_def clearErrors_def handleChange_def handleBlur_def resetForm_def
      submit_end_def Let_def)

definition submitting_ok :: "bool \<Rightarrow> form_state \<times> nat \<Rightarrow> bool" where
  "submitting_ok alone c \<longleftrightarrow>
     (fm_isSubmitting (fst c) \<longrightarrow> 0 < snd c) \<and> (alone \<longrightarrow> snd c \<le> 1 \<and> fm_isSubmitting (fst c) = (0 < snd c))"

lemma form_step_ok:
  "form_step alone schema options initialValues c c' \<Longrightarrow> submitting_ok alone c \<Longrightarrow> submitting_ok alone c'"
  by (induction rule: form_step.induct)
    (auto simp: submitting_ok_def dest: validate_flag submit_begin_flag)

lemma form_run_ok:
  assumes "(form_step alone schema options initialValues)\<^sup>*\<^sup>* (resetForm initialValues, 0) c"
  shows "submitting_ok alone c"
  using assms
proof (induction rule: rtranclp_induct)
  case base
  then show ?case by (simp add: submitting_ok_def)
next
  case (step c c')
  then show ?case using form_step_ok by blast
qed

text \<open>C22: In every state a form reaches, a submit calls the handler exactly when no validator of any field objects,
  with the values as they are; in both cases every field shows the first message of its own validators and nothing else,
  and the hook's validity is the true one.  The form says it is submitting only while a handler runs, and, when second
  submits and resets wait for the running handler, exactly while it runs.\<close>

theorem submit_iff_valid:
  assumes "distinct (map fst schema)"
    and "(form_step alone schema options initialValues)\<^sup>*\<^sup>* (resetForm initialValues, 0) (s, n)"
    and "submit_begin schema s = (called, s1)"
  shows "called = (if passes schema (fm_values s) then Some (fm_values s) else None)
       \<and> isValid s1 = passes schema (fm_values s)
       \<and> (\<forall>f. map_option the (map_of (fm_errors s1) f) = messages schema (fm_values s) f)
       \<and> fm_values s1 = fm_values s
       \<and> (if alone then fm_isSubmitting s = (0 < n) else (fm_isSubmitting s \<longrightarrow> 0 < n))
       \<and> fm_isSubmitting s1 = (fm_isSubmitting s \<or> passes schema (fm_values s))"
proof -
  obtain errors ok where form: "validateForm (fm_values s) schema = (errors, ok)" by (metis surj_pair)
  have shown: "map_of (map (\<lambda>(f, m). (f, Some m)) errors) f = map_option Some (map_of errors f)" for f
    by (induction errors) auto
  note flag = form_run_ok [OF assms(2)]
  show ?thesis
    using assms(3) form shown flag validateForm_valid [OF assms(1) form] validateForm_spec(2) [OF assms(1) form]
    by (cases ok) (auto simp: submit_begin_def validate_def isValid_def submitting_ok_def option.map_comp comp_def option.map_ident)
qed

definition name_form :: schema where
  "name_form = [(''name'', [required None, maxLength 30 None])]"

text \<open>A submit of the empty form is refused; after the name is filled in it is accepted.\<close>

lemma name_form_passes:
  "passes name_form [(''name'', Str ''Ada'')]" "\<not> passes name_form []"
  by (simp_all add: name_form_def passes_def field_value_def required_def maxLength_def empty_value_def)

theorem submit_iff_valid_witness:
  "fst (submit_begin name_form (resetForm [])) = None
   \<and> fst (submit_begin name_form (setFieldValue ''name'' (Str ''Ada'') (resetForm []))) = Some [(''name'', Str ''Ada'')]
   \<and> fm_isSubmitting (snd (submit_begin name_form (setFieldValue ''name'' (Str ''Ada'') (resetForm []))))"
proof -
  let ?s = "setFieldValue ''name'' (Str ''Ada'') (resetForm [])"
  have d: "distinct (map fst name_form)" by (simp add: name_form_def)
  have v: "fm_values (resetForm []) = []" "fm_values ?s = [(''name'', Str ''Ada'')]"
    by (simp_all add: resetForm_def setFieldValue_def put_def)
  have "(form_step True name_form default_options [])\<^sup>*\<^sup>* (resetForm [], 0) (?s, 0)"
    by (rule r_into_rtranclp, rule form_step.value_set)
  note filled = submit_iff_valid [OF d this surjective_pairing]
  have "(form_step True name_form default_options [])\<^sup>*\<^sup>* (resetForm [], 0) (resetForm [], 0)" by simp
  from filled submit_iff_valid [OF d this surjective_pairing] show ?thesis by (simp add: v name_form_passes)
qed

text \<open>A second submit settles first: the form says it is idle while the other handler still runs.\<close>

lemma overlapping_submits_lose_flag:
  assumes "submit_begin schema s = (Some vals, s1)" and "submit_begin schema s1 = (Some vals2, s2)"
  shows "\<exists>s3. (form_step False schema options initialValues)\<^sup>*\<^sup>* (s, 0) (s3, 1) \<and> \<not> fm_isSubmitting s3"
proof (intro exI conjI)
  have "form_step False schema options initialValues (s, 0) (s1, Suc 0)" by (rule form_step.submitted [OF assms(1)]) simp
  moreover have "form_step False schema options initialValues (s1, Suc 0) (s2, Suc (Suc 0))"
    by (rule form_step.submitted [OF assms(2)]) simp
  moreover have "form_step False schema options initialValues (s2, Suc (Suc 0)) (snd (submit_end (Inr ()) s2), Suc 0)"
    by (rule form_step.settled)
  ultimately show "(form_step False schema options initialValues)\<^sup>*\<^sup>* (s, 0) (snd (submit_end (Inr ()) s2), 1)"
    by (simp add: rtranclp.rtrancl_into_rtrancl [OF rtranclp.rtrancl_into_rtrancl [OF r_into_rtranclp]])
qed simp

text \<open>The e-mail check accepts exactly the texts with one at sign, a non-empty local part, a domain with
  an inner dot, and no blank; an empty text is left to \<open>required\<close>.\<close>

theorem email_accepts_iff:
  "email message (Str s) allValues = None \<longleftrightarrow>
     s = [] \<or> (\<exists>l d t. s = l @ ''@'' @ d @ ''.'' @ t \<and> l \<noteq> [] \<and> d \<noteq> [] \<and> t \<noteq> []
                \<and> (\<forall>c \<in> set (l @ d @ t). not_at_space c))"
proof -
  have "in_re email_regex s \<longleftrightarrow> (\<exists>l d t. s = l @ ''@'' @ d @ ''.'' @ t \<and> l \<noteq> [] \<and> d \<noteq> [] \<and> t \<noteq> []
                \<and> (\<forall>c \<in> set (l @ d @ t). not_at_space c))"
    unfolding email_regex_def in_re_cat [of "plus_re _"] in_re_lit_cat in_re_plus_cls
    by (fastforce simp: ball_Un)
  then show ?thesis by (simp add: email_def test_re_in_re)
qed

theorem email_accepts_iff_witness: "email None (Str ''ada@lovelace.org'') [] = None"
proof -
  have "''ada@lovelace.org'' = ''ada'' @ ''@'' @ ''lovelace'' @ ''.'' @ ''org''" by simp
  moreover have "\<forall>c \<in> set (''ada'' @ ''lovelace'' @ ''org''). not_at_space c"
    by (simp add: not_at_space_def is_space_def char_code_def)
  ultimately show ?thesis using email_accepts_iff [of None "''ada@lovelace.org''" "[]"] by blast
qed

text \<open>A text passes the strong-password schema exactly when it has twelve characters, among them an upper
  and a lower case letter, a digit and a special character.\<close>

theorem strong_password_iff:
  "validateField (Str s) (the (map_of commonSchemas ''strongPassword'')) allValues = None \<longleftrightarrow>
     12 \<le> length s \<and> (\<exists>c \<in> set s. is_upper c) \<and> (\<exists>c \<in> set s. is_lower c)
     \<and> (\<exists>c \<in> set s. is_digit c) \<and> (\<exists>c \<in> set s. is_special c)"
  by (auto simp: validateField_None commonSchemas_def required_def minLength_def hasUppercase_def
      hasLowercase_def hasNumber_def hasSpecialChar_def contains_def empty_value_def list_ex_iff)

text \<open>What the hook calls valid is only what it has checked, and \<open>required\<close> does not require a box to
  be ticked: a fresh form is valid, and the blur of an unticked box checks its \<open>value\<close>, not the box.\<close>

lemma fresh_form_is_valid: "isValid (resetForm initialValues)"
  by (simp add: isValid_def resetForm_def)

lemma unticked_box_passes_required:
  "required message (Bool False) allValues = None"
  "i_value i = Str (c # cs) \<Longrightarrow> map_of schema (i_name i) = Some [required message] \<Longrightarrow>
     map_of (fm_errors (handleBlur schema default_options i s)) (i_name i) = Some None"
  by (simp_all add: required_def empty_value_def handleBlur_def default_options_def setFieldError_def
      validateSingleField_def map_of_put unless_def)

end
