(* ===== verification/Highlights.thy ===== *)
theory Highlights
  imports Js_Array
begin

text \<open>
  The highlighting of the option chain (src/hooks/usePercentageHighlights.js): per side and column,
  the percentage of the largest valid value, the rank and the CSS classes of every visible strike.
  The loop bodies over strikes are one definition each; objects keyed by strike are property lists.
\<close>

section \<open>Depth and colour\<close>

definition COLUMNS :: "string list" where
  "COLUMNS = [''volume'', ''oi'', ''oichng'']"

definition SIDES :: "string list" where
  "SIDES = [''ce'', ''pe'']"

text \<open>The strike at the money is missing or a number.\<close>

definition getITMDepth :: "jsnum \<Rightarrow> jsnum option \<Rightarrow> string \<Rightarrow> jsnum" where
  "getITMDepth strike atmStrike side =
     (case atmStrike of
        None \<Rightarrow> Fin 0
      | Some atm \<Rightarrow>
          if \<not> num_truthy atm then Fin 0
          else if side = ''ce'' then (if strike < atm then jround ((atm - strike) / N 50) else Fin 0)
          else (if strike > atm then jround ((strike - atm) / N 50) else Fin 0))"

definition getHighlightColor :: "jsnum \<Rightarrow> nat \<Rightarrow> string \<Rightarrow> string" where
  "getHighlightColor pct rank side =
     (if pct < N 75 then []
      else if pct > N 100
        then ''bg-blue-200 dark:bg-blue-800 text-blue-900 dark:text-blue-100 font-bold border border-blue-300 dark:border-blue-600''
      else if rank = 1
        then (if side = ''ce''
              then ''bg-rose-200 dark:bg-rose-800 text-rose-950 dark:text-white font-bold border border-rose-300 dark:border-rose-600 shadow-sm''
              else ''bg-emerald-200 dark:bg-emerald-800 text-emerald-950 dark:text-white font-bold border border-emerald-300 dark:border-emerald-600 shadow-sm'')
      else if rank = 2
        then ''bg-yellow-100 dark:bg-yellow-900/40 text-yellow-900 dark:text-yellow-100 font-semibold border border-yellow-200 dark:border-yellow-700/50''
      else if rank = 3
        then (if side = ''ce''
              then ''bg-rose-50/50 dark:bg-rose-900/10 text-rose-700 dark:text-rose-300/70''
              else ''bg-emerald-50/50 dark:bg-emerald-900/10 text-emerald-700 dark:text-emerald-300/70'')
      else [])"

section \<open>One column on one side\<close>

record cell =
  h_strike :: jsnum
  h_value :: jsval
  h_rawValue :: jsval
  h_isNegative :: bool
  h_itmDepth :: jsnum
  h_isValidFor100 :: bool

definition side_data :: "jsval \<Rightarrow> string \<Rightarrow> jsnum \<Rightarrow> jsval" where
  "side_data optionData side strike =
     (let oc = opt optionData ''oc'';
          data = js_or (opt oc (num_to_string strike))
                   (js_or (opt oc (num_to_string strike @ ''.000000'')) (Obj []))
      in js_or (opt data side) (Obj []))"

definition cell_of :: "jsval \<Rightarrow> jsnum option \<Rightarrow> string \<Rightarrow> string \<Rightarrow> jsnum \<Rightarrow> cell" where
  "cell_of optionData atmStrike column side strike =
     (let sideData = side_data optionData side strike;
          zero = Num (Fin 0);
          (v, rawValue, isNegative) =
            (if column = ''volume''
               then (let x = js_or (opt sideData ''volume'') zero in (x, x, False))
             else if column = ''oi''
               then (let x = js_or (js_or (opt sideData ''OI'') (opt sideData ''oi'')) zero in (x, x, False))
             else if column = ''oichng''
               then (let x = js_or (opt sideData ''oichng'') zero
                     in (if to_number x > Fin 0 then x else zero, x, to_number x < Fin 0))
             else (zero, zero, False));
          itmDepth = getITMDepth strike atmStrike side
      in \<lparr>h_strike = strike, h_value = v, h_rawValue = rawValue, h_isNegative = isNegative,
          h_itmDepth = itmDepth, h_isValidFor100 = (itmDepth \<le> N 2)\<rparr>)"

definition value_num :: "cell \<Rightarrow> jsnum" where
  "value_num c = to_number (h_value c)"

definition max_value :: "cell list \<Rightarrow> jsnum" where
  "max_value cs =
     (let validValues = filter (\<lambda>v. h_isValidFor100 v \<and> value_num v > Fin 0) cs
      in if validValues \<noteq> [] then max_of (map value_num validValues) else Fin 0)"

definition pct_of :: "string \<Rightarrow> jsnum \<Rightarrow> cell \<Rightarrow> jsnum" where
  "pct_of column maxValue c =
     (if column = ''oichng'' \<and> h_isNegative c
      then abs (to_number (h_rawValue c)) / maxValue * N 100
      else value_num c / maxValue * N 100)"

definition ranked_order :: "cell list \<Rightarrow> cell list" where
  "ranked_order cs = js_sort (\<lambda>a b. value_num b - value_num a) (filter (\<lambda>v. value_num v > Fin 0) cs)"

text \<open>The loop that assigns ranks: index, current rank, last value, ranks by strike.\<close>

type_synonym rank_acc = "nat \<times> nat \<times> jsval \<times> (string \<times> nat) list"

definition rank_step :: "cell \<Rightarrow> rank_acc \<Rightarrow> rank_acc" where
  "rank_step item acc =
     (case acc of (idx, currentRank, lastValue, ranks) \<Rightarrow>
        if value_num item > Fin 0 then
          let (currentRank', lastValue') =
                (if \<not> strict_eq (h_value item) lastValue then (idx + 1, h_value item) else (currentRank, lastValue))
          in (Suc idx, currentRank', lastValue', put (num_to_string (h_strike item)) currentRank' ranks)
        else (Suc idx, currentRank, lastValue, ranks))"

definition ranks_of :: "cell list \<Rightarrow> (string \<times> nat) list" where
  "ranks_of sorted_cells = snd (snd (snd (fold rank_step sorted_cells (0, 0, Null, []))))"

record highlight =
  hl_pct :: jsnum
  hl_rank :: nat
  hl_color :: string

definition highlight_of :: "string \<Rightarrow> string \<Rightarrow> jsnum \<Rightarrow> (string \<times> nat) list \<Rightarrow> cell \<Rightarrow> highlight" where
  "highlight_of column side maxValue ranks item =
     (let pct = pct_of column maxValue item;
          rank = (case map_of ranks (num_to_string (h_strike item)) of Some r \<Rightarrow> r | None \<Rightarrow> 0)
      in \<lparr>hl_pct = pct, hl_rank = rank,
          hl_color = (if value_num item > Fin 0 \<and> \<not> h_isNegative item
                      then getHighlightColor pct rank side else [])\<rparr>)"

definition calculateColumnHighlights ::
  "jsnum list \<Rightarrow> jsval \<Rightarrow> jsnum option \<Rightarrow> string \<Rightarrow> string \<Rightarrow> (string \<times> highlight) list" where
  "calculateColumnHighlights strikes optionData atmStrike column side =
     (let cs = map (cell_of optionData atmStrike column side) strikes;
          maxValue = max_value cs
      in if num_eq maxValue (Fin 0)
         then fold (\<lambda>s. put (num_to_string s) \<lparr>hl_pct = Fin 0, hl_rank = 0, hl_color = []\<rparr>) strikes []
         else fold (\<lambda>c. put (num_to_string (h_strike c))
                          (highlight_of column side maxValue (ranks_of (ranked_order cs)) c)) cs [])"

section \<open>All columns\<close>

type_synonym highlights = "(string \<times> (string \<times> highlight) list) list"

definition merge_column :: "string \<Rightarrow> (string \<times> highlight) list \<Rightarrow> highlights \<Rightarrow> highlights" where
  "merge_column key column result =
     fold (\<lambda>(strike, data) r.
             case map_of r strike of Some e \<Rightarrow> put strike (put key data e) r | None \<Rightarrow> r) column result"

definition usePercentageHighlights :: "jsnum list \<Rightarrow> jsval \<Rightarrow> jsnum option \<Rightarrow> highlights" where
  "usePercentageHighlights visibleStrikes optionData atmStrike =
     (if visibleStrikes = [] \<or> \<not> truthy (opt optionData ''oc'') then []
      else
        fold (\<lambda>(side, column).
               merge_column (side @ ''_'' @ column)
                 (calculateColumnHighlights visibleStrikes optionData atmStrike column side))
          (List.product SIDES COLUMNS)
          (fold (\<lambda>s. put (num_to_string s) []) visibleStrikes []))"

section \<open>Ranks\<close>

text \<open>Cells as the normalised chain gives them: the value is a finite number.\<close>

definition numeric :: "cell \<Rightarrow> bool" where
  "numeric c \<longleftrightarrow> (\<exists>x. h_value c = Num x \<and> fin_double x)"

definition key_of :: "cell \<Rightarrow> string" where
  "key_of c = num_to_string (h_strike c)"

text \<open>One more than the number of larger values.\<close>

definition place :: "cell list \<Rightarrow> cell \<Rightarrow> nat" where
  "place xs c = Suc (length (filter (\<lambda>d. value_num c < value_num d) xs))"

interpretation by_value: descending_by value_num .

lemma numeric_value: "numeric c \<Longrightarrow> fin_double (value_num c)"
  by (auto simp: numeric_def value_num_def)

lemma numeric_eq: "numeric c \<Longrightarrow> numeric d \<Longrightarrow> strict_eq (h_value c) (h_value d) \<longleftrightarrow> value_num c = value_num d"
  by (auto simp: numeric_def value_num_def num_eq_def fin_double_def)

lemma fin_double_less: "fin_double x \<Longrightarrow> fin_double y \<Longrightarrow> \<not> x < y \<longleftrightarrow> y \<le> x"
  by (auto simp: fin_double_def)

lemma fin_double_cases: "fin_double x \<Longrightarrow> fin_double y \<Longrightarrow> x \<le> y \<Longrightarrow> x \<noteq> y \<Longrightarrow> x < y"
  by (auto simp: fin_double_def)

definition descending :: "cell list \<Rightarrow> bool" where
  "descending xs \<longleftrightarrow> sorted_wrt (\<lambda>a b. value_num b \<le> value_num a) xs"

text \<open>The state of the loop after the cells \<open>xs\<close>.\<close>

definition ranked :: "cell list \<Rightarrow> rank_acc \<Rightarrow> bool" where
  "ranked xs acc \<longleftrightarrow>
     (case acc of (idx, currentRank, lastValue, ranks) \<Rightarrow>
        idx = length xs \<and> (xs = [] \<longrightarrow> lastValue = Null)
        \<and> (xs \<noteq> [] \<longrightarrow> lastValue = h_value (last xs) \<and> currentRank = place xs (last xs))
        \<and> (\<forall>c \<in> set xs. map_of ranks (key_of c) = Some (place xs c))
        \<and> fst ` set ranks = key_of ` set xs)"

lemma ranks_loop:
  assumes "\<forall>c \<in> set xs. numeric c \<and> value_num c > Fin 0" and "descending xs" and "distinct (map key_of xs)"
  shows "ranked xs (fold rank_step xs (0, 0, Null, []))"
  using assms
proof (induction xs rule: rev_induct)
  case Nil
  then show ?case by (simp add: ranked_def)
next
  case (snoc x xs)
  obtain idx cur lv ranks where acc: "fold rank_step xs (0, 0, Null, []) = (idx, cur, lv, ranks)"
    by (metis surj_pair)
  have IH: "ranked xs (idx, cur, lv, ranks)"
    using snoc by (simp add: acc descending_def sorted_wrt_append)
  have below: "value_num x \<le> value_num d" if "d \<in> set xs" for d
    using that snoc.prems(2) by (simp add: descending_def sorted_wrt_append)
  have num: "fin_double (value_num d)" if "d \<in> set (xs @ [x])" for d
    using that snoc.prems(1) numeric_value by auto
  have same: "place (xs @ [x]) c = place xs c" if "c \<in> set xs" for c
    using below [OF that] num that fin_double_less [of "value_num c" "value_num x"] by (simp add: place_def)
  have self: "\<not> value_num x < value_num x" using num [of x] by (auto simp: fin_double_def)
  have place: "place (xs @ [x]) x = (if \<not> strict_eq (h_value x) lv then idx + 1 else cur)"
  proof (cases "xs = []")
    case True
    then show ?thesis using IH snoc.prems(1) self by (auto simp: ranked_def place_def numeric_def)
  next
    case False
    then have l: "lv = h_value (last xs)" "cur = place xs (last xs)" "idx = length xs" "last xs \<in> set xs"
      using IH by (auto simp: ranked_def)
    show ?thesis
    proof (cases "value_num x = value_num (last xs)")
      case True
      then show ?thesis using l snoc.prems(1) numeric_eq [of x "last xs"] self by (simp add: place_def)
    next
      case False
      have "value_num x < value_num d" if d: "d \<in> set xs" for d
      proof -
        have "value_num (last xs) \<le> value_num d"
        proof (cases "d = last xs")
          case True
          then show ?thesis using num [of d] d by (auto simp: fin_double_def)
        next
          case False
          have "xs = butlast xs @ [last xs]" using l(4) by (metis append_butlast_last_id empty_iff list.set(1))
          moreover from this have "d \<in> set (butlast xs)" using d False
            by (metis Un_iff empty_iff insert_iff list.set(1,2) set_append)
          ultimately show ?thesis using snoc.prems(2)
            by (metis descending_def sorted_wrt_append list.set_intros(1))
        qed
        moreover have "value_num x < value_num (last xs)"
          using False below [OF l(4)] num l(4) by (intro fin_double_cases) auto
        ultimately show ?thesis using num [of x] num [of d] num [of "last xs"] d l(4) by (auto simp: fin_double_def)
      qed
      then have "filter (\<lambda>d. value_num x < value_num d) xs = xs" by (simp add: filter_id_conv)
      then show ?thesis using False l snoc.prems(1) numeric_eq [of x "last xs"] self by (simp add: place_def)
    qed
  qed
  have step: "fold rank_step (xs @ [x]) (0, 0, Null, []) = (Suc idx, place (xs @ [x]) x,
      (if \<not> strict_eq (h_value x) lv then h_value x else lv), put (key_of x) (place (xs @ [x]) x) ranks)"
    using snoc.prems(1) by (simp add: acc rank_step_def place key_of_def)
  have new: "key_of c \<noteq> key_of x" if "c \<in> set xs" for c
  proof
    assume "key_of c = key_of x"
    then have "key_of x \<in> key_of ` set xs" using that by (metis imageI)
    then show False using snoc.prems(3) by simp
  qed
  have "(if \<not> strict_eq (h_value x) lv then h_value x else lv) = h_value x"
  proof (cases "xs = []")
    case False
    then have "lv = h_value (last xs)" "numeric (last xs)" "numeric x"
      using IH snoc.prems(1) by (auto simp: ranked_def)
    then show ?thesis by (auto simp: numeric_def num_eq_def)
  qed (use IH in \<open>auto simp: ranked_def numeric_def\<close>)
  then show ?case unfolding step using IH same new
    by (auto simp: ranked_def map_of_put keys_put)
qed

lemma ranked_order_facts:
  assumes "\<forall>c \<in> set cs. numeric c"
  shows "set (ranked_order cs) = {c \<in> set cs. value_num c > Fin 0}" and "descending (ranked_order cs)"
    and "value_num c > Fin 0 \<Longrightarrow> c \<in> set cs \<Longrightarrow> place (ranked_order cs) c = place cs c"
proof -
  show members: "set (ranked_order cs) = {c \<in> set cs. value_num c > Fin 0}"
    by (auto simp: ranked_order_def)
  show "descending (ranked_order cs)"
    unfolding descending_def ranked_order_def using assms numeric_value by (intro by_value.sorted_keys) auto
next
  assume c: "value_num c > Fin 0" "c \<in> set cs"
  have larger: "value_num d > Fin 0" if "value_num c < value_num d" for d
    using that c(1) by (cases "value_num c"; cases "value_num d") auto
  have "mset (filter (\<lambda>d. value_num c < value_num d) (ranked_order cs))
      = mset (filter (\<lambda>d. value_num c < value_num d) (filter (\<lambda>d. value_num d > Fin 0) cs))"
    unfolding ranked_order_def by (simp only: mset_filter mset_js_sort)
  then have "length (filter (\<lambda>d. value_num c < value_num d) (ranked_order cs))
      = length (filter (\<lambda>d. value_num c < value_num d) (filter (\<lambda>d. value_num d > Fin 0) cs))"
    by (metis size_mset)
  moreover have "filter (\<lambda>d. value_num c < value_num d) (filter (\<lambda>d. value_num d > Fin 0) cs)
      = filter (\<lambda>d. value_num c < value_num d) cs"
    using larger by (auto intro: filter_cong)
  ultimately show "place (ranked_order cs) c = place cs c" by (simp add: place_def)
qed

lemma map_of_ranks:
  assumes "\<forall>c \<in> set cs. numeric c" and "distinct (map key_of cs)" and "c \<in> set cs"
  shows "map_of (ranks_of (ranked_order cs)) (key_of c) = (if value_num c > Fin 0 then Some (place cs c) else None)"
proof -
  note order = ranked_order_facts [OF assms(1)]
  have inj: "inj_on key_of (set cs)" using assms(2) by (simp add: distinct_map)
  have "distinct cs" using assms(2) by (simp add: distinct_map)
  then have "distinct (ranked_order cs)" by (simp add: ranked_order_def)
  then have "distinct (map key_of (ranked_order cs))"
    using inj order(1) by (auto simp: distinct_map intro: inj_on_subset)
  then have "ranked (ranked_order cs) (fold rank_step (ranked_order cs) (0, 0, Null, []))"
    using assms(1) order(1,2) by (intro ranks_loop) auto
  moreover obtain idx cur lv rs where "fold rank_step (ranked_order cs) (0, 0, Null, []) = (idx, cur, lv, rs)"
    by (metis surj_pair)
  ultimately have ranks: "\<forall>d \<in> set (ranked_order cs). map_of (ranks_of (ranked_order cs)) (key_of d) = Some (place (ranked_order cs) d)"
    "fst ` set (ranks_of (ranked_order cs)) = key_of ` set (ranked_order cs)"
    by (simp_all add: ranked_def ranks_of_def)
  show ?thesis
  proof (cases "value_num c > Fin 0")
    case True
    then show ?thesis using ranks(1) order assms(3) by simp
  next
    case False
    then have "key_of c \<notin> key_of ` set (ranked_order cs)"
      using inj order(1) assms(3) by (auto dest: inj_onD)
    then show ?thesis using False ranks(2) by (simp add: map_of_eq_None_iff)
  qed
qed

lemma map_of_fold_put_key:
  assumes "distinct (map k xs)"
  shows "map_of (fold (\<lambda>x. put (k x) (f x)) xs acc) j
       = (case map_of (map (\<lambda>x. (k x, f x)) xs) j of Some v \<Rightarrow> Some v | None \<Rightarrow> map_of acc j)"
  using assms
proof (induction xs arbitrary: acc)
  case (Cons x xs)
  have "map_of (map (\<lambda>x. (k x, f x)) xs) (k x) = None"
    using Cons.prems by (auto simp: map_of_eq_None_iff)
  then show ?case using Cons by (auto simp: map_of_put split: option.split)
qed simp

lemma max_of_upper:
  assumes "\<forall>x \<in> set xs. \<exists>r. x = Fin r" and "Fin a \<in> set xs"
  shows "\<exists>m. max_of xs = Fin m \<and> a \<le> m"
proof -
  have "\<exists>m. foldl jmax v xs = Fin m \<and> (\<forall>b. v = Fin b \<longrightarrow> b \<le> m) \<and> (\<forall>b. Fin b \<in> set xs \<longrightarrow> b \<le> m)"
    if "\<forall>x \<in> set xs. \<exists>r. x = Fin r" "xs \<noteq> [] \<or> (\<exists>r. v = Fin r)" "v = NInf \<or> (\<exists>r. v = Fin r)" for v xs
    using that
  proof (induction xs arbitrary: v)
    case (Cons x xs)
    then obtain r where x: "x = Fin r" by auto
    have "\<exists>b. jmax v x = Fin b \<and> r \<le> b \<and> (\<forall>c. v = Fin c \<longrightarrow> c \<le> b)"
      using Cons.prems(3) by (auto simp: jmax_def x)
    then obtain b where b: "jmax v x = Fin b" "r \<le> b" "\<forall>c. v = Fin c \<longrightarrow> c \<le> b" by blast
    then show ?case using Cons.IH [of "jmax v x"] Cons.prems(1) x by fastforce
  qed auto
  moreover have "xs \<noteq> []" using assms(2) by auto
  ultimately show ?thesis using assms unfolding max_of_def by blast
qed

section \<open>Properties\<close>

lemma getHighlightColor_empty:
  "getHighlightColor pct rank side \<noteq> [] \<longleftrightarrow> \<not> pct < N 75 \<and> (N 100 < pct \<or> rank \<in> {1, 2, 3})"
  by (simp add: getHighlightColor_def)

lemma pct_bound:
  assumes "\<forall>c \<in> set cs. numeric c" and "c \<in> set cs" and "h_isValidFor100 c" and "value_num c > Fin 0"
  shows "ranged 0 100 (value_num c / max_value cs * N 100)"
proof -
  let ?vs = "map value_num (filter (\<lambda>v. h_isValidFor100 v \<and> value_num v > Fin 0) cs)"
  obtain a where a: "value_num c = Fin a" using numeric_value [of c] assms(1,2) by (auto simp: fin_double_def)
  have "\<forall>x \<in> set ?vs. \<exists>r. x = Fin r" using numeric_value assms(1) by (auto simp: fin_double_def)
  moreover have c: "Fin a \<in> set ?vs" using assms(2-4) a by (auto simp: image_iff intro!: bexI [of _ c])
  ultimately obtain m where m: "max_of ?vs = Fin m" "a \<le> m" using max_of_upper by blast
  have "filter (\<lambda>v. h_isValidFor100 v \<and> value_num v > Fin 0) cs \<noteq> []"
    using assms(2-4) by (auto simp: filter_empty_conv)
  then have "max_value cs = Fin m" using m(1) by (simp add: max_value_def)
  moreover have "ranged 0 1 (Fin a / Fin m)" using assms(4) a m(2) by (intro ranged_ratio) auto
  ultimately show ?thesis
    using ranged_mult [of 0 1 "Fin a / Fin m" 100 100 "N 100"] a by simp
qed

text \<open>What every strike gets when the column has a valid value and the values are numbers: its rank is one
  more than the number of larger values of the column (0 without a positive value), so equal values
  share a rank; a valid strike is shown at most a hundred per cent; and it is coloured exactly when
  its value is positive, at least 75 per cent, and among the first three or above a hundred.\<close>

theorem strike_highlight:
  assumes "distinct (map num_to_string strikes)" and "strike \<in> set strikes"
    and "cs = map (cell_of optionData atmStrike column side) strikes"
    and "c = cell_of optionData atmStrike column side strike"
    and "\<forall>d \<in> set cs. numeric d" and "\<not> num_eq (max_value cs) (Fin 0)"
  shows "\<exists>h. map_of (calculateColumnHighlights strikes optionData atmStrike column side) (num_to_string strike) = Some h
       \<and> hl_rank h = (if value_num c > Fin 0 then Suc (length (filter (\<lambda>d. value_num c < value_num d) cs)) else 0)
       \<and> (h_isValidFor100 c \<and> value_num c > Fin 0 \<and> \<not> h_isNegative c \<longrightarrow> ranged 0 100 (hl_pct h))
       \<and> (hl_color h \<noteq> [] \<longleftrightarrow> value_num c > Fin 0 \<and> \<not> h_isNegative c \<and> \<not> hl_pct h < N 75
             \<and> (N 100 < hl_pct h \<or> hl_rank h \<le> 3))"
proof -
  let ?h = "highlight_of column side (max_value cs) (ranks_of (ranked_order cs)) c"
  have strikes: "h_strike (cell_of optionData atmStrike column side s) = s" for s
    by (simp add: cell_of_def Let_def split: prod.split)
  have keys: "map key_of cs = map num_to_string strikes"
    by (simp add: assms(3) key_of_def strikes)
  have c: "c \<in> set cs" "key_of c = num_to_string strike"
    using assms(2-4) by (auto simp: key_of_def strikes)
  have "map_of (map (\<lambda>d. (key_of d, highlight_of column side (max_value cs) (ranks_of (ranked_order cs)) d)) cs) (key_of c)
      = Some ?h"
    using c(1) keys assms(1) by (intro map_of_is_SomeI) (auto simp: comp_def)
  then have found: "map_of (calculateColumnHighlights strikes optionData atmStrike column side) (num_to_string strike) = Some ?h"
    using assms(1,6) keys c(2)
    by (simp add: calculateColumnHighlights_def assms(3) [symmetric] Let_def map_of_fold_put_key key_of_def [symmetric])
  have rank: "hl_rank ?h = (if value_num c > Fin 0 then place cs c else 0)"
    using map_of_ranks [OF assms(5) _ c(1)] keys assms(1) by (simp add: highlight_of_def Let_def key_of_def)
  have colour: "hl_color ?h \<noteq> [] \<longleftrightarrow> value_num c > Fin 0 \<and> \<not> h_isNegative c \<and> \<not> hl_pct ?h < N 75
      \<and> (N 100 < hl_pct ?h \<or> hl_rank ?h \<in> {1, 2, 3})"
    by (simp add: highlight_of_def Let_def getHighlightColor_empty)
  have "hl_rank ?h \<in> {1, 2, 3} \<longleftrightarrow> hl_rank ?h \<le> 3" if "value_num c > Fin 0"
  proof -
    have "0 < hl_rank ?h" using that rank by (simp add: place_def)
    then show ?thesis by auto
  qed
  moreover have "ranged 0 100 (hl_pct ?h)" if "h_isValidFor100 c" "value_num c > Fin 0" "\<not> h_isNegative c"
    using pct_bound [OF assms(5) c(1) that(1,2)] that(3) by (simp add: highlight_of_def pct_of_def Let_def)
  ultimately show ?thesis using found rank colour by (auto simp: place_def)
qed

lemma show_pos_values: "show_pos 100 = ''100''" "show_pos 200 = ''200''"
  by code_simp+

definition two_strikes :: jsval where
  "two_strikes =
     Obj [(''oc'', Obj [(''100'', Obj [(''ce'', Obj [(''volume'', Num (Fin 50))])]),
                       (''200'', Obj [(''ce'', Obj [(''volume'', Num (Fin 40))])])])]"

lemma two_cells:
  "map (cell_of two_strikes (Some (Fin 100)) ''volume'' ''ce'') [Fin 100, Fin 200] =
     [\<lparr>h_strike = Fin 100, h_value = Num (Fin 50), h_rawValue = Num (Fin 50), h_isNegative = False,
        h_itmDepth = Fin 0, h_isValidFor100 = True\<rparr>,
      \<lparr>h_strike = Fin 200, h_value = Num (Fin 40), h_rawValue = Num (Fin 40), h_isNegative = False,
        h_itmDepth = Fin 0, h_isValidFor100 = True\<rparr>]"
  by (simp add: two_strikes_def cell_of_def side_data_def getITMDepth_def show_pos_values Let_def)

theorem strike_highlight_witness:
  "\<exists>h. map_of (calculateColumnHighlights [Fin 100, Fin 200] two_strikes (Some (Fin 100)) ''volume'' ''ce'') ''200''
        = Some h \<and> hl_rank h = 2"
proof -
  let ?cs = "map (cell_of two_strikes (Some (Fin 100)) ''volume'' ''ce'') [Fin 100, Fin 200]"
  have num: "\<forall>d \<in> set ?cs. numeric d" unfolding two_cells by (simp add: numeric_def)
  have max: "\<not> num_eq (max_value ?cs) (Fin 0)"
    unfolding two_cells by (simp add: max_value_def value_num_def max_of_def jmax_def)
  have keys: "distinct (map num_to_string [Fin 100, Fin 200])" by (simp add: show_pos_values)
  have v: "value_num (cell_of two_strikes (Some (Fin 100)) ''volume'' ''ce'' (Fin 200)) = Fin 40"
    using two_cells by (simp add: value_num_def)
  have larger: "length (filter (\<lambda>d. Fin 40 < value_num d) ?cs) = 1"
    unfolding two_cells by (simp add: value_num_def)
  have "Fin 200 \<in> set [Fin 100, Fin 200]" by simp
  from strike_highlight [OF keys this refl refl num max, unfolded v larger] show ?thesis
    by (auto simp: show_pos_values)
qed

end
