(* ===== verification/Quant_Utils.thy ===== *)
theory Quant_Utils
  imports Js_Array
begin

text \<open>
  The statistics of the utility modules: src/utils/tradingAnalytics.js, src/utils/mlPredictions.js and
  src/utils/quantStats.js.  Series are lists of Numbers; reading an element that does not exist gives
  \<open>undefined\<close>, which is NaN in arithmetic (\<open>elem\<close>).  \<open>Math.pow\<close> is a parameter (\<open>mpow\<close>).
\<close>

section \<open>Series\<close>

definition elem :: "jsnum list \<Rightarrow> nat \<Rightarrow> jsnum" where
  "elem xs i = (if i < length xs then xs ! i else NaN)"

definition average :: "jsnum list \<Rightarrow> jsnum" where
  "average xs = jsum xs / jlen xs"

definition squares :: "(jsnum \<Rightarrow> jsnum \<Rightarrow> jsnum) \<Rightarrow> jsnum \<Rightarrow> jsnum list \<Rightarrow> jsnum" where
  "squares mpow m xs = foldl (\<lambda>acc x. acc + mpow (x - m) (N 2)) (Fin 0) xs"

definition with_index :: "'a list \<Rightarrow> (nat \<times> 'a) list" where
  "with_index xs = zip [0..<length xs] xs"

definition num :: "nat \<Rightarrow> jsnum" where
  "num i = jint (int i)"

section \<open>tradingAnalytics.js\<close>

definition co_moments :: "jsnum \<Rightarrow> jsnum \<Rightarrow> jsnum list \<Rightarrow> jsnum list \<Rightarrow> jsnum" where
  "co_moments m1 m2 xs ys =
     foldl (\<lambda>acc (i, x). acc + (x - m1) * (elem ys i - m2)) (Fin 0) (with_index xs)"

definition calculateBetaAlpha ::
  "(jsnum \<Rightarrow> jsnum \<Rightarrow> jsnum) \<Rightarrow> jsnum list \<Rightarrow> jsnum list \<Rightarrow> jsnum \<times> jsnum" where
  "calculateBetaAlpha mpow returns marketReturns =
     (let avgReturn = average returns; avgMarketReturn = average marketReturns;
          covariance = co_moments avgReturn avgMarketReturn returns marketReturns / jlen returns;
          marketVariance = squares mpow avgMarketReturn marketReturns / jlen marketReturns;
          beta = covariance / marketVariance;
          alpha = avgReturn - beta * avgMarketReturn
      in (beta, alpha))"

text \<open>An array read at a Number: a whole index in range, or \<open>undefined\<close>.\<close>

fun nth_opt :: "'a list \<Rightarrow> jsnum \<Rightarrow> 'a option" where
  "nth_opt xs (Fin r) =
     (if 0 \<le> r \<and> of_int \<lfloor>r\<rfloor> = r \<and> \<lfloor>r\<rfloor> < int (length xs) then Some (xs ! nat \<lfloor>r\<rfloor>) else None)"
| "nth_opt xs _ = None"

definition calculateVaR :: "jsnum list \<Rightarrow> jsnum \<Rightarrow> jsnum option" where
  "calculateVaR returns confidenceLevel =
     nth_opt (sort_numbers returns) (jfloor ((N 1 - confidenceLevel) * jlen returns))"

definition calculateCVaR :: "jsnum list \<Rightarrow> jsnum \<Rightarrow> jsnum" where
  "calculateCVaR returns confidenceLevel =
     (let tailReturns = (case calculateVaR returns confidenceLevel of
                           Some v \<Rightarrow> filter (\<lambda>ret. ret \<le> v) returns | None \<Rightarrow> [])
      in average tailReturns)"

record trend =
  t_slope :: jsnum
  t_intercept :: jsnum
  t_rSquared :: jsnum
  t_prediction :: jsnum

definition slope_of :: "jsnum list \<Rightarrow> jsnum" where
  "slope_of values =
     (let n = jlen values; x = map num [0..<length values];
          sumX = jsum x; sumY = jsum values;
          sumXY = foldl (\<lambda>acc (i, xi). acc + xi * elem values i) (Fin 0) (with_index x);
          sumX2 = foldl (\<lambda>acc xi. acc + xi * xi) (Fin 0) x
      in (n * sumXY - sumX * sumY) / (n * sumX2 - sumX * sumX))"

definition intercept_of :: "jsnum list \<Rightarrow> jsnum" where
  "intercept_of values =
     (jsum values - slope_of values * jsum (map num [0..<length values])) / jlen values"

definition calculateTrendStrength :: "(jsnum \<Rightarrow> jsnum \<Rightarrow> jsnum) \<Rightarrow> jsnum list \<Rightarrow> trend" where
  "calculateTrendStrength mpow values =
     (let n = jlen values; slope = slope_of values; intercept = intercept_of values;
          yMean = jsum values / n;
          ssTotal = squares mpow yMean values;
          ssResidual = foldl (\<lambda>acc (i, yi). acc + mpow (yi - (slope * num i + intercept)) (N 2)) (Fin 0) (with_index values)
      in \<lparr>t_slope = slope, t_intercept = intercept, t_rSquared = N 1 - ssResidual / ssTotal,
          t_prediction = slope * n + intercept\<rparr>)"

definition calculateMomentum :: "jsnum list \<Rightarrow> nat \<Rightarrow> jsnum option list" where
  "calculateMomentum values period =
     drop period
       (map (\<lambda>(i, v). if i < period then None
                     else Some ((v - elem values (i - period)) / elem values (i - period) * N 100)) (with_index values))"

definition changes :: "jsnum list \<Rightarrow> jsnum list" where
  "changes values = map (\<lambda>(i, v). if i = 0 then Fin 0 else v - elem values (i - 1)) (with_index values)"

definition calculateRSI :: "jsnum list \<Rightarrow> nat \<Rightarrow> jsnum" where
  "calculateRSI values period =
     (let gains = map (\<lambda>c. if c > Fin 0 then c else Fin 0) (changes values);
          losses = map (\<lambda>c. if c < Fin 0 then - c else Fin 0) (changes values);
          avgGain = jsum (take period gains) / num period;
          avgLoss = jsum (take period losses) / num period
      in N 100 - N 100 / (N 1 + avgGain / avgLoss))"

record trade_patterns =
  tp_reversals :: nat
  tp_breakouts :: nat
  tp_consolidations :: nat

definition wins :: "string list \<Rightarrow> nat" where
  "wins day = length (filter (\<lambda>t. t = ''Profit'') day)"

definition pattern_step :: "string list \<times> string list \<Rightarrow> trade_patterns \<Rightarrow> trade_patterns" where
  "pattern_step days p =
     (case days of (prevDay, day) \<Rightarrow>
        let currentWins = wins day; prevWins = wins prevDay;
            p1 = (if (prevWins = 0 \<and> currentWins = length day) \<or> (prevWins = length prevDay \<and> currentWins = 0)
                  then p\<lparr>tp_reversals := Suc (tp_reversals p)\<rparr> else p);
            p2 = (if num currentWins > num prevWins * N (3 / 2)
                  then p1\<lparr>tp_breakouts := Suc (tp_breakouts p1)\<rparr> else p1)
        in if abs (num currentWins - num prevWins) \<le> N 1
           then p2\<lparr>tp_consolidations := Suc (tp_consolidations p2)\<rparr> else p2)"

definition identifyPatterns :: "string list list \<Rightarrow> trade_patterns" where
  "identifyPatterns trades =
     fold pattern_step (zip trades (tl trades))
       \<lparr>tp_reversals = 0, tp_breakouts = 0, tp_consolidations = 0\<rparr>"

definition calculateCorrelation ::
  "(jsnum \<Rightarrow> jsnum \<Rightarrow> jsnum) \<Rightarrow> jsnum list \<Rightarrow> jsnum list \<Rightarrow> jsnum" where
  "calculateCorrelation mpow array1 array2 =
     (let mean1 = average array1; mean2 = average array2;
          variance1 = squares mpow mean1 array1; variance2 = squares mpow mean2 array2
      in co_moments mean1 mean2 array1 array2 / jsqrt (variance1 * variance2))"

text \<open>\<open>Math.std\<close> does not exist: calling it throws.\<close>

definition math_std :: "jsnum list \<Rightarrow> jsnum result" where
  "math_std xs = Inl TypeError"

fun attribution :: "(jsnum \<Rightarrow> jsnum \<Rightarrow> jsnum) \<Rightarrow> jsnum list \<Rightarrow> (string \<times> jsnum list) list \<Rightarrow>
    (string \<times> jsnum) list \<Rightarrow> (string \<times> jsnum) list result" where
  "attribution mpow returns [] acc = Inr acc"
| "attribution mpow returns ((factor, series) # fs) acc =
     (let correlation = calculateCorrelation mpow returns series
      in res_bind (math_std series) (\<lambda>a. res_bind (math_std returns) (\<lambda>b.
           attribution mpow returns fs (put factor (correlation * (a / b)) acc))))"

definition calculatePerformanceAttribution ::
  "(jsnum \<Rightarrow> jsnum \<Rightarrow> jsnum) \<Rightarrow> jsnum list \<Rightarrow> (string \<times> jsnum list) list \<Rightarrow> (string \<times> jsnum) list result" where
  "calculatePerformanceAttribution mpow returns factorReturns = attribution mpow returns factorReturns []"

definition calculateVolatilityRegimes :: "(jsnum \<Rightarrow> jsnum \<Rightarrow> jsnum) \<Rightarrow> jsnum list \<Rightarrow> string list" where
  "calculateVolatilityRegimes mpow returns =
     (let m = average returns; stdDev = jsqrt (squares mpow m returns / jlen returns)
      in map (\<lambda>ret. let z = (ret - m) / stdDev
                    in if abs z > N 2 then ''High'' else if abs z > N 1 then ''Medium'' else ''Low'') returns)"

section \<open>mlPredictions.js\<close>

definition slice :: "int \<Rightarrow> int \<Rightarrow> 'a list \<Rightarrow> 'a list" where
  "slice a b xs = take (nat (b - a)) (drop (nat a) xs)"

definition calculateSMA :: "jsnum list \<Rightarrow> nat \<Rightarrow> jsnum option list" where
  "calculateSMA data period =
     map (\<lambda>idx. if int idx < int period - 1 then None
                else Some (jsum (slice (int idx - int period + 1) (int idx + 1) data) / num period)) [0..<length data]"

text \<open>The exponential average of the values so far, latest first.\<close>

definition ema_step :: "jsnum \<Rightarrow> jsnum \<Rightarrow> jsnum list \<Rightarrow> jsnum list" where
  "ema_step k v ema = (v * k + hd ema * (N 1 - k)) # ema"

definition calculateEMA :: "jsnum list \<Rightarrow> nat \<Rightarrow> jsnum list" where
  "calculateEMA data period =
     (let k = N 2 / (num period + N 1)
      in rev (fold (ema_step k) (tl data) [elem data 0]))"

definition calculateMACD :: "jsnum list \<Rightarrow> jsnum list \<times> jsnum list \<times> jsnum list" where
  "calculateMACD data =
     (let ema12 = calculateEMA data 12; ema26 = calculateEMA data 26;
          macd = map (\<lambda>(i, v). v - elem ema26 i) (with_index ema12);
          signal = calculateEMA macd 9;
          histogram = map (\<lambda>(i, v). v - elem signal i) (with_index macd)
      in (macd, signal, histogram))"

definition calculateBollingerBands ::
  "(jsnum \<Rightarrow> jsnum \<Rightarrow> jsnum) \<Rightarrow> jsnum list \<Rightarrow> nat \<Rightarrow> jsnum \<Rightarrow> (jsnum \<times> jsnum \<times> jsnum) option list" where
  "calculateBollingerBands mpow data period stdDev =
     map (\<lambda>(i, m).
            case m of
              None \<Rightarrow> None
            | Some mn \<Rightarrow>
                let std = jsqrt (squares mpow mn (slice (int i - int period + 1) (int i + 1) data) / num period)
                in Some (mn + stdDev * std, mn, mn - stdDev * std))
         (with_index (calculateSMA data period))"

definition linearRegressionForecast :: "jsnum list \<Rightarrow> nat \<Rightarrow> jsnum list \<times> jsnum" where
  "linearRegressionForecast data forecastDays =
     (let slope = slope_of data; intercept = intercept_of data;
          forecast = map (\<lambda>i. slope * num (length data + i) + intercept) [0..<forecastDays];
          deviations = foldl (\<lambda>acc (i, yi). acc + abs (yi - (slope * num i + intercept)) / yi) (Fin 0) (with_index data)
      in (forecast, N 1 - abs (deviations / jlen data)))"

datatype level_type = Support | Resistance

definition levels_at :: "nat \<Rightarrow> jsnum list \<Rightarrow> nat \<Rightarrow> (level_type \<times> jsnum \<times> nat) list" where
  "levels_at sensitivity prices i =
     (let current = prices ! i;
          leftPrices = take sensitivity (drop (i - sensitivity) prices);
          rightPrices = take sensitivity (drop (i + 1) prices)
      in (if list_all (\<lambda>p. current \<le> p) leftPrices \<and> list_all (\<lambda>p. current \<le> p) rightPrices
          then [(Support, current, i)] else []) @
         (if list_all (\<lambda>p. p \<le> current) leftPrices \<and> list_all (\<lambda>p. p \<le> current) rightPrices
          then [(Resistance, current, i)] else []))"

definition findSupportResistance :: "jsnum list \<Rightarrow> nat \<Rightarrow> (level_type \<times> jsnum \<times> nat) list" where
  "findSupportResistance data sensitivity =
     concat (map (levels_at sensitivity data) [sensitivity..<length data - sensitivity])"

definition calculateFibonacciLevels :: "jsnum \<Rightarrow> jsnum \<Rightarrow> (string \<times> jsnum) list" where
  "calculateFibonacciLevels high low =
     (let diff = high - low
      in [(''level0'', high), (''level23_6'', high - diff * N (236 / 1000)), (''level38_2'', high - diff * N (382 / 1000)),
          (''level50_0'', high - diff * N (1 / 2)), (''level61_8'', high - diff * N (618 / 1000)), (''level100'', low)])"

definition normalizeWindow :: "jsnum list \<Rightarrow> jsnum list" where
  "normalizeWindow window =
     (let mn = min_of window; mx = max_of window in map (\<lambda>v. (v - mn) / (mx - mn)) window)"

definition isHeadAndShoulders :: "jsnum list \<Rightarrow> bool" where
  "isHeadAndShoulders w \<longleftrightarrow>
     elem w 1 > elem w 0 \<and> elem w 1 > elem w 2 \<and> elem w 3 > elem w 2 \<and> elem w 3 < elem w 1 \<and> elem w 4 < elem w 3"

definition isDoubleTop :: "jsnum list \<Rightarrow> bool" where
  "isDoubleTop w \<longleftrightarrow>
     elem w 1 > elem w 0 \<and> elem w 1 > elem w 2 \<and> elem w 3 > elem w 2 \<and> abs (elem w 1 - elem w 3) < N (1 / 10)
     \<and> elem w 4 < elem w 3"

definition isDoubleBottom :: "jsnum list \<Rightarrow> bool" where
  "isDoubleBottom w \<longleftrightarrow>
     elem w 1 < elem w 0 \<and> elem w 1 < elem w 2 \<and> elem w 3 < elem w 2 \<and> abs (elem w 1 - elem w 3) < N (1 / 10)
     \<and> elem w 4 > elem w 3"

definition isTriangle :: "jsnum list \<Rightarrow> bool" where
  "isTriangle w \<longleftrightarrow>
     abs ((elem w 2 - elem w 0) / N 2 + (elem w 3 - elem w 1) / N 2) < N (1 / 10)"

definition patterns_at :: "nat \<Rightarrow> jsnum list \<Rightarrow> nat \<Rightarrow> (string \<times> nat) list" where
  "patterns_at windowSize data i =
     (let normalized = normalizeWindow (slice (int i - int windowSize) (int i) data)
      in (if isHeadAndShoulders normalized then [(''Head and Shoulders'', i)] else []) @
         (if isDoubleTop normalized then [(''Double Top'', i)] else []) @
         (if isDoubleBottom normalized then [(''Double Bottom'', i)] else []) @
         (if isTriangle normalized then [(''Triangle'', i)] else []))"

definition recognizePatterns :: "jsnum list \<Rightarrow> nat \<Rightarrow> (string \<times> nat) list" where
  "recognizePatterns data windowSize = concat (map (patterns_at windowSize data) [windowSize..<length data])"

section \<open>quantStats.js\<close>

record oi_regression =
  oi_slope :: jsnum
  oi_rSquared :: jsnum
  oi_bias :: string
  oi_intercept :: "jsnum option"

definition no_regression :: oi_regression where
  "no_regression = \<lparr>oi_slope = Fin 0, oi_rSquared = Fin 0, oi_bias = ''neutral'', oi_intercept = None\<rparr>"

text \<open>A level is a strike with its total open interest.\<close>

definition calculateOIRegression ::
  "(jsnum \<Rightarrow> jsnum \<Rightarrow> jsnum) \<Rightarrow> (jsnum \<times> jsnum) list \<Rightarrow> oi_regression" where
  "calculateOIRegression mpow levels =
     (if length levels < 2 then no_regression
      else
        let maxOI = num_or (max_of (map snd levels)) (N 1);
            minStrike = min_of (map fst levels);
            n = jlen levels;
            pts = map (\<lambda>(strike, oi). ((strike - minStrike) / N 100, oi / maxOI)) levels;
            sumX = foldl (\<lambda>acc (x, y). acc + x) (Fin 0) pts;
            sumY = foldl (\<lambda>acc (x, y). acc + y) (Fin 0) pts;
            sumXY = foldl (\<lambda>acc (x, y). acc + x * y) (Fin 0) pts;
            sumX2 = foldl (\<lambda>acc (x, y). acc + x * x) (Fin 0) pts;
            numerator = n * sumXY - sumX * sumY;
            denominator = n * sumX2 - sumX * sumX
        in if num_eq denominator (Fin 0) then no_regression
           else
             let slope = numerator / denominator;
                 intercept = (sumY - slope * sumX) / n;
                 avgY = sumY / n;
                 ssTotal = foldl (\<lambda>acc (x, y). acc + mpow (y - avgY) (N 2)) (Fin 0) pts;
                 ssRes = foldl (\<lambda>acc (x, y). acc + mpow (y - (slope * x + intercept)) (N 2)) (Fin 0) pts
             in \<lparr>oi_slope = slope,
                  oi_rSquared = (if num_eq ssTotal (Fin 0) then Fin 0 else N 1 - ssRes / ssTotal),
                  oi_bias = (if slope > N (1 / 10) then ''bearish (resistance heavy)''
                             else if slope < N (- 1 / 10) then ''bullish (support heavy)'' else ''neutral''),
                  oi_intercept = Some intercept\<rparr>)"

record smile =
  sm_curvature :: jsnum
  sm_skew :: jsnum
  sm_minIV :: jsnum

definition flat_smile :: smile where
  "flat_smile = \<lparr>sm_curvature = Fin 0, sm_skew = Fin 0, sm_minIV = Fin 0\<rparr>"

text \<open>A point is a strike with its implied volatility.\<close>

definition fitVolatilitySmile :: "(jsnum \<times> jsnum) list \<Rightarrow> (jsnum \<times> jsnum) list \<Rightarrow> jsnum \<Rightarrow> smile" where
  "fitVolatilitySmile callIVs putIVs atmStrike =
     (let data = js_sort (\<lambda>a b. fst a - fst b) (filter (\<lambda>d. snd d > Fin 0) (putIVs @ callIVs))
      in if length data < 3 then flat_smile
         else
           let n = jlen data;
               pts = map (\<lambda>(strike, iv). ((strike - atmStrike) / atmStrike, iv)) data;
               sum = (\<lambda>f. foldl (\<lambda>acc (x, y). acc + f x y) (Fin 0) pts);
               sumX = sum (\<lambda>x y. x); sumX2 = sum (\<lambda>x y. x * x); sumX3 = sum (\<lambda>x y. x * x * x);
               sumX4 = sum (\<lambda>x y. x * x * x * x); sumY = sum (\<lambda>x y. y); sumXY = sum (\<lambda>x y. x * y);
               sumX2Y = sum (\<lambda>x y. x * x * y);
               det = n * (sumX2 * sumX4 - sumX3 * sumX3) - sumX * (sumX * sumX4 - sumX2 * sumX3)
                     + sumX2 * (sumX * sumX3 - sumX2 * sumX2)
           in if abs det < N (1 / 1000000000) then flat_smile
              else
                let detA = sumX2Y * (sumX2 * n - sumX * sumX) - sumXY * (sumX3 * n - sumX2 * sumX)
                           + sumY * (sumX3 * sumX - sumX2 * sumX2)
                in \<lparr>sm_curvature = detA / det * N 100, sm_skew = Fin 0, sm_minIV = min_of (map snd data)\<rparr>)"

record cones =
  co_one :: "jsnum \<times> jsnum"
  co_two :: "jsnum \<times> jsnum"
  co_dailyMove :: jsnum

definition calculateProbabilityCones :: "jsnum \<Rightarrow> jsnum \<Rightarrow> jsnum \<Rightarrow> cones" where
  "calculateProbabilityCones spot iv daysToExpiry =
     (let sigma = iv / N 100; t = daysToExpiry / N 365; stdDev = spot * sigma * jsqrt t
      in \<lparr>co_one = (spot + stdDev, spot - stdDev), co_two = (spot + N 2 * stdDev, spot - N 2 * stdDev),
          co_dailyMove = stdDev\<rparr>)"

section \<open>Properties\<close>

lemma one_plus_nonneg:
  assumes "nonneg_or_nan x"
  shows "N 1 + x = NaN \<or> N 1 + x = PInf \<or> (\<exists>r. N 1 + x = Fin r \<and> 1 \<le> r)"
proof (cases x)
  case (Fin a)
  then have "0 \<le> a" using assms by simp
  then have "1 \<le> rd64 (1 + a)" using binary64.lower [of 1 "1 + a"] by simp
  moreover have "N 1 + x = rnd (1 + a)" using Fin by simp
  ultimately show ?thesis using pow2_pos [of 1024] by (auto simp: rnd_overflow [of "1 + a"] Let_def)
qed (use assms in auto)

lemma hundred_over:
  assumes "1 \<le> r"
  shows "ranged 0 100 (N 100 / Fin r)"
proof -
  have "0 \<le> 100 / r" "100 / r \<le> 100" using assms by (auto simp: pos_divide_le_eq)
  then have "ranged 0 100 (rnd (100 / r))" by (intro ranged_rnd) auto
  then show ?thesis using assms by simp
qed

text \<open>The relative strength index is between 0 and 100 for every series, overflow included, or NaN (when
  neither gains nor losses were seen).\<close>

theorem rsi_range: "calculateRSI values period = NaN \<or> ranged 0 100 (calculateRSI values period)"
proof -
  define g where "g = jsum (take period (map (\<lambda>c. if c > Fin 0 then c else Fin 0) (changes values))) / num period"
  define l where "l = jsum (take period (map (\<lambda>c. if c < Fin 0 then - c else Fin 0) (changes values))) / num period"
  have period: "nonneg_or_nan (num period)" by (simp add: num_def jint_def nonneg_rnd)
  have up: "c > Fin 0 \<Longrightarrow> nonneg_or_nan c" and down: "c < Fin 0 \<Longrightarrow> nonneg_or_nan (- c)" for c
    by (cases c; simp)+
  have "nonneg_or_nan g" "nonneg_or_nan l"
    unfolding g_def l_def using period up down by (auto intro!: nonneg_div jsum_nonneg dest!: in_set_takeD)
  then have "nonneg_or_nan (g / l)" by (rule nonneg_div)
  from one_plus_nonneg [OF this]
  have "N 100 / (N 1 + g / l) = NaN \<or> ranged 0 100 (N 100 / (N 1 + g / l))"
    using hundred_over by auto
  then have "N 100 - N 100 / (N 1 + g / l) = NaN \<or> ranged 0 100 (N 100 - N 100 / (N 1 + g / l))"
  proof
    assume "ranged 0 100 (N 100 / (N 1 + g / l))"
    then have "ranged (100 - 100) (100 - 0) (N 100 - N 100 / (N 1 + g / l))"
      by (intro ranged_diff) auto
    then show ?thesis by simp
  qed (simp add: minus_jsnum_def)
  then show ?thesis by (simp add: calculateRSI_def Let_def g_def l_def)
qed

lemma around_split:
  fixes i s :: nat
  shows "(\<forall>j. i - s \<le> j \<and> j \<le> i + s \<and> j \<noteq> i \<longrightarrow> Q j) \<longleftrightarrow>
    (\<forall>j. i - s \<le> j \<and> j < i \<longrightarrow> Q j) \<and> (\<forall>j. i < j \<and> j \<le> i + s \<longrightarrow> Q j)"
proof (intro iffI conjI allI impI)
  fix j assume "\<forall>j. i - s \<le> j \<and> j \<le> i + s \<and> j \<noteq> i \<longrightarrow> Q j" and "i - s \<le> j \<and> j < i"
  then show "Q j" by (elim allE [of _ j]) auto
next
  fix j assume "\<forall>j. i - s \<le> j \<and> j \<le> i + s \<and> j \<noteq> i \<longrightarrow> Q j" and "i < j \<and> j \<le> i + s"
  then show "Q j" by (elim allE [of _ j]) auto
next
  fix j
  assume "(\<forall>j. i - s \<le> j \<and> j < i \<longrightarrow> Q j) \<and> (\<forall>j. i < j \<and> j \<le> i + s \<longrightarrow> Q j)"
    and "i - s \<le> j \<and> j \<le> i + s \<and> j \<noteq> i"
  then show "Q j" by (elim conjE allE [of _ j]) auto
qed

text \<open>The levels found are exactly the local extrema: the prices with \<open>sensitivity\<close> neighbours on both
  sides none of which is below (support) or above (resistance) them.\<close>

theorem levels_are_extrema:
  "(kind, p, i) \<in> set (findSupportResistance data sensitivity) \<longleftrightarrow>
     sensitivity \<le> i \<and> i + sensitivity < length data \<and> p = data ! i
     \<and> (\<forall>j. i - sensitivity \<le> j \<and> j \<le> i + sensitivity \<and> j \<noteq> i \<longrightarrow>
          (case kind of Support \<Rightarrow> data ! i \<le> data ! j | Resistance \<Rightarrow> data ! j \<le> data ! i))"
proof -
  have near: "list_all P (take s (drop (i - s) data)) \<and> list_all P (take s (drop (i + 1) data)) \<longleftrightarrow>
      (\<forall>j. i - s \<le> j \<and> j \<le> i + s \<and> j \<noteq> i \<longrightarrow> P (data ! j))" if i: "s \<le> i" "i + s < length data" for s P
  proof -
    have "list_all P (take s (drop (i - s) data)) \<longleftrightarrow> (\<forall>j. i - s \<le> j \<and> j < i \<longrightarrow> P (data ! j))"
    proof -
      have "list_all P (take s (drop (i - s) data)) \<longleftrightarrow> (\<forall>n < s. P (data ! (i - s + n)))"
        using i by (simp add: list_all_length)
      also have "\<dots> \<longleftrightarrow> (\<forall>j. i - s \<le> j \<and> j < i \<longrightarrow> P (data ! j))"
      proof (intro iffI allI impI)
        fix j assume all: "\<forall>n < s. P (data ! (i - s + n))" and j: "i - s \<le> j \<and> j < i"
        then have "j - (i - s) < s" "i - s + (j - (i - s)) = j" using i by auto
        then show "P (data ! j)" using all by metis
      next
        fix n assume "\<forall>j. i - s \<le> j \<and> j < i \<longrightarrow> P (data ! j)" "n < s"
        moreover have "i - s \<le> i - s + n" "i - s + n < i" using i \<open>n < s\<close> by auto
        ultimately show "P (data ! (i - s + n))" by blast
      qed
      finally show ?thesis .
    qed
    moreover have "list_all P (take s (drop (i + 1) data)) \<longleftrightarrow> (\<forall>j. i < j \<and> j \<le> i + s \<longrightarrow> P (data ! j))"
    proof -
      have "list_all P (take s (drop (i + 1) data)) \<longleftrightarrow> (\<forall>n < s. P (data ! (i + 1 + n)))"
        using i by (simp add: list_all_length)
      also have "\<dots> \<longleftrightarrow> (\<forall>j. i < j \<and> j \<le> i + s \<longrightarrow> P (data ! j))"
      proof (intro iffI allI impI)
        fix j assume all: "\<forall>n < s. P (data ! (i + 1 + n))" and j: "i < j \<and> j \<le> i + s"
        then have "j - (i + 1) < s" "i + 1 + (j - (i + 1)) = j" by auto
        then show "P (data ! j)" using all by metis
      qed auto
      finally show ?thesis .
    qed
    ultimately show ?thesis by (simp only: around_split)
  qed
  have "(kind, p, i) \<in> set (findSupportResistance data sensitivity) \<longleftrightarrow>
      sensitivity \<le> i \<and> i + sensitivity < length data \<and> (kind, p, i) \<in> set (levels_at sensitivity data i)"
    by (auto simp: findSupportResistance_def levels_at_def Let_def)
  also have "\<dots> \<longleftrightarrow> sensitivity \<le> i \<and> i + sensitivity < length data \<and> p = data ! i
     \<and> (\<forall>j. i - sensitivity \<le> j \<and> j \<le> i + sensitivity \<and> j \<noteq> i \<longrightarrow>
          (case kind of Support \<Rightarrow> data ! i \<le> data ! j | Resistance \<Rightarrow> data ! j \<le> data ! i))"
    using near [of sensitivity "\<lambda>q. data ! i \<le> q"] near [of sensitivity "\<lambda>q. q \<le> data ! i"]
    by (cases kind) (auto simp: levels_at_def Let_def)
  finally show ?thesis .
qed

theorem levels_are_extrema_witness:
  "(Support, N 1, 1) \<in> set (findSupportResistance [N 3, N 1, N 2] 1)
   \<and> (Resistance, N 1, 1) \<notin> set (findSupportResistance [N 3, N 1, N 2] 1)"
proof
  have "[N 3, N 1, N 2] ! 1 \<le> [N 3, N 1, N 2] ! j" if "j \<le> 2" for j :: nat
  proof -
    have "j = 0 \<or> j = 1 \<or> j = 2" using that by arith
    then show ?thesis by auto
  qed
  then show "(Support, N 1, 1) \<in> set (findSupportResistance [N 3, N 1, N 2] 1)"
    using levels_are_extrema [of Support "N 1" 1 "[N 3, N 1, N 2]" 1] by simp
  show "(Resistance, N 1, 1) \<notin> set (findSupportResistance [N 3, N 1, N 2] 1)"
    using levels_are_extrema [of Resistance "N 1" 1 "[N 3, N 1, N 2]" 1] by (auto intro!: exI [of _ 0])
qed

text \<open>The windows stop one short of the end, so the latest value never takes part in a pattern.\<close>

lemma latest_value_ignored: "recognizePatterns (xs @ [a]) windowSize = recognizePatterns (xs @ [b]) windowSize"
proof -
  have "patterns_at windowSize (xs @ [a]) i = patterns_at windowSize (xs @ [b]) i" if "windowSize \<le> i" "i < Suc (length xs)" for i
    using that by (simp add: patterns_at_def slice_def)
  then have "map (patterns_at windowSize (xs @ [a])) [windowSize..<Suc (length xs)] =
      map (patterns_at windowSize (xs @ [b])) [windowSize..<Suc (length xs)]" by (intro map_cong) auto
  then show ?thesis by (simp only: recognizePatterns_def length_append list.size add_0 add_Suc_right add_0_right)
qed

lemma attribution_throws: "factors \<noteq> [] \<Longrightarrow> calculatePerformanceAttribution mpow returns factors = Inl TypeError"
  by (cases factors) (auto simp: calculatePerformanceAttribution_def math_std_def Let_def)

lemma top_is_no_bottom: "isDoubleTop w \<Longrightarrow> \<not> isDoubleBottom w"
  by (cases "elem w 0"; cases "elem w 1") (auto simp: isDoubleTop_def isDoubleBottom_def)

text \<open>The value at risk is one of the returns, and no more of them are smaller than its rank says.\<close>

lemma VaR_is_quantile:
  assumes "calculateVaR returns c = Some v" and "\<forall>x \<in> set returns. fin_double x"
  shows "v \<in> set returns \<and>
    int (length (filter (\<lambda>x. x < v) returns)) \<le> (case jfloor ((N 1 - c) * jlen returns) of Fin r \<Rightarrow> \<lfloor>r\<rfloor> | _ \<Rightarrow> 0)"
proof -
  let ?s = "sort_numbers returns"
  obtain r where r: "jfloor ((N 1 - c) * jlen returns) = Fin r" and i: "0 \<le> r" "\<lfloor>r\<rfloor> < int (length ?s)" "v = ?s ! nat \<lfloor>r\<rfloor>"
    using assms(1) unfolding calculateVaR_def
    by (cases "jfloor ((N 1 - c) * jlen returns)") (auto split: if_splits)
  define k where "k = nat \<lfloor>r\<rfloor>"
  have k: "k < length ?s" "v = ?s ! k" using i by (simp_all add: k_def nat_less_iff)
  have sorted: "sorted_wrt (\<le>) ?s" by (rule sorted_sort_numbers [OF assms(2)])
  have mem: "set ?s = set returns" by (simp add: sort_numbers_def)
  have fin: "fin_double (?s ! j)" if "j < length ?s" for j using that assms(2) mem nth_mem by metis
  have "\<not> ?s ! j < v" if "k \<le> j" "j < length ?s" for j
  proof (cases "j = k")
    case True
    then show ?thesis using k fin [of k] by (auto simp: fin_double_def)
  next
    case False
    then have "?s ! k \<le> ?s ! j" using sorted that by (simp add: sorted_wrt_nth_less)
    then show ?thesis using k fin [of k] fin [of j] that by (auto simp: fin_double_def)
  qed
  then have "filter (\<lambda>x. x < v) (drop k ?s) = []"
    by (auto simp: filter_empty_conv in_set_conv_nth)
  then have "filter (\<lambda>x. x < v) ?s = filter (\<lambda>x. x < v) (take k ?s)"
    by (metis append.right_neutral append_take_drop_id filter_append)
  then have "length (filter (\<lambda>x. x < v) ?s) \<le> k"
    by (metis length_filter_le length_take min.bounded_iff)
  moreover have "mset (filter (\<lambda>x. x < v) ?s) = mset (filter (\<lambda>x. x < v) returns)"
    by (simp add: sort_numbers_def)
  then have "length (filter (\<lambda>x. x < v) ?s) = length (filter (\<lambda>x. x < v) returns)" by (metis size_mset)
  ultimately have "length (filter (\<lambda>x. x < v) returns) \<le> nat \<lfloor>r\<rfloor>" by (simp add: k_def)
  then have "int (length (filter (\<lambda>x. x < v) returns)) \<le> \<lfloor>r\<rfloor>" using i(1) by (simp add: nat_le_iff le_nat_iff)
  moreover have "v \<in> set returns" using k mem nth_mem by blast
  ultimately show ?thesis using r by simp
qed

end
