(* ===== verification/Position_Analytics.thy ===== *)
theory Position_Analytics
  imports Quant_Utils
begin

text \<open>
  Position sizing and the Monte Carlo simulation (src/utils/positionAnalytics.js).  \<open>Math.random\<close> is a
  stream of Numbers, a parameter; the simulation counts how many it has drawn.
\<close>

section \<open>Sizing\<close>

definition calculateKellyCriterion :: "jsnum \<Rightarrow> jsnum \<Rightarrow> jsnum" where
  "calculateKellyCriterion winRate riskRewardRatio =
     (let winProbability = winRate / N 100; lossProbability = N 1 - winProbability;
          kelly = (winProbability * riskRewardRatio - lossProbability) / riskRewardRatio
      in jmax (Fin 0) kelly)"

record conditions =
  k_volatility :: jsnum
  k_trend :: jsnum
  k_liquidity :: jsnum
  k_correlation :: jsnum

definition calculateOptimalPosition :: "jsnum \<Rightarrow> conditions \<Rightarrow> jsnum" where
  "calculateOptimalPosition baseSize c =
     (let m1 = N 1 * (N 2 - k_volatility c);
          m2 = m1 * (N 1 + k_trend c * N (1 / 5));
          m3 = m2 * k_liquidity c;
          m4 = m3 * (N 1 - k_correlation c * N (3 / 10))
      in baseSize * m4)"

record market =
  y_price :: jsnum
  y_stopLoss :: jsnum
  y_target :: jsnum
  y_volatility :: jsval
  y_volume :: jsnum
  y_trend :: jsval

definition calculateSlippage :: "jsnum \<Rightarrow> string \<Rightarrow> jsnum" where
  "calculateSlippage positionImpact liquidityRisk =
     (let baseSlippage = positionImpact * N 100;
          liquidityMultiplier = (if liquidityRisk = ''high'' then N 2
             else if liquidityRisk = ''medium'' then N (3 / 2) else if liquidityRisk = ''low'' then N 1 else NaN)
      in baseSlippage * liquidityMultiplier)"

record risk_metrics =
  x_volatilityRisk :: jsnum
  x_liquidityRisk :: string
  x_positionImpact :: jsnum
  x_slippageEstimate :: jsnum

definition by_volatility :: "jsval \<Rightarrow> jsnum \<Rightarrow> jsnum \<Rightarrow> jsnum \<Rightarrow> jsnum" where
  "by_volatility v high medium low =
     (if v = Str ''high'' then high else if v = Str ''medium'' then medium else low)"

definition calculateRiskMetrics :: "jsnum \<Rightarrow> market \<Rightarrow> risk_metrics" where
  "calculateRiskMetrics quantity m =
     (let atrMultiplier = by_volatility (y_volatility m) (N 2) (N (3 / 2)) (N 1);
          normalizedRange = abs (y_price m - y_stopLoss m) * atrMultiplier;
          liquidityRisk = (if y_volume m < N 100000 then ''high'' else if y_volume m < N 500000 then ''medium'' else ''low'');
          positionImpact = quantity * y_price m / y_volume m
      in \<lparr>x_volatilityRisk = normalizedRange / y_price m, x_liquidityRisk = liquidityRisk,
          x_positionImpact = positionImpact, x_slippageEstimate = calculateSlippage positionImpact liquidityRisk\<rparr>)"

section \<open>Monte Carlo\<close>

definition dailyVolatility :: "market \<Rightarrow> jsnum" where
  "dailyVolatility m = by_volatility (y_volatility m) (N (2 / 100)) (N (15 / 1000)) (N (1 / 100))"

text \<open>One walk: the current price, the days and the random numbers drawn so far.\<close>

function walk :: "(nat \<Rightarrow> jsnum) \<Rightarrow> market \<Rightarrow> jsnum \<Rightarrow> nat \<Rightarrow> nat \<Rightarrow> jsnum \<times> nat \<times> nat" where
  "walk random m currentPrice days drawn =
     (if currentPrice > y_stopLoss m \<and> currentPrice < y_target m \<and> days < 20
      then
        let drift = (y_target m - y_price m) / (y_price m * N 100);
            randomMove = (random drawn - N (1 / 2)) * dailyVolatility m
        in walk random m (currentPrice * (N 1 + randomMove + drift)) (Suc days) (Suc drawn)
      else (currentPrice, days, drawn))"
  by pat_completeness auto
termination
  by (relation "measure (\<lambda>(random, m, currentPrice, days, drawn). 20 - days)") auto

declare walk.simps [simp del]

record outcome =
  z_finalPrice :: jsnum
  z_days :: nat
  z_win :: bool

fun simulate :: "(nat \<Rightarrow> jsnum) \<Rightarrow> market \<Rightarrow> nat \<Rightarrow> nat \<Rightarrow> outcome list" where
  "simulate random m 0 drawn = []"
| "simulate random m (Suc n) drawn =
     (case walk random m (y_price m) 0 drawn of
        (finalPrice, days, drawn') \<Rightarrow>
          \<lparr>z_finalPrice = finalPrice, z_days = days, z_win = (finalPrice \<ge> y_target m)\<rparr> # simulate random m n drawn')"

definition calculateConfidenceScore :: "jsnum \<Rightarrow> jsnum \<Rightarrow> jsnum" where
  "calculateConfidenceScore winRate avgDays =
     (let winRateScore = winRate / N 100;
          durationScore = jmax (Fin 0) (N 1 - avgDays / N 20)
      in (winRateScore * N (7 / 10) + durationScore * N (3 / 10)) * N 100)"

record simulation_result =
  s_winProbability :: string
  s_averageDaysToOutcome :: string
  s_confidenceScore :: jsnum

definition win_rate :: "outcome list \<Rightarrow> jsnum" where
  "win_rate results = jlen (filter z_win results) / jlen results * N 100"

definition avg_days :: "outcome list \<Rightarrow> jsnum" where
  "avg_days results = foldl (\<lambda>sum r. sum + num (z_days r)) (Fin 0) results / jlen results"

definition analyzeMonteCarloResults :: "outcome list \<Rightarrow> simulation_result" where
  "analyzeMonteCarloResults results =
     \<lparr>s_winProbability = to_fixed 2 (win_rate results), s_averageDaysToOutcome = to_fixed 1 (avg_days results),
      s_confidenceScore = calculateConfidenceScore (win_rate results) (avg_days results)\<rparr>"

definition runMonteCarloSimulation :: "(nat \<Rightarrow> jsnum) \<Rightarrow> market \<Rightarrow> nat \<Rightarrow> simulation_result" where
  "runMonteCarloSimulation random m iterations = analyzeMonteCarloResults (simulate random m iterations 0)"

section \<open>Suggestions and entries\<close>

record analysis =
  n_riskRewardRatio :: jsnum
  n_portfolioHeat :: jsnum
  n_volatilityImpact :: jsnum

definition suggestion :: "bool \<Rightarrow> string \<Rightarrow> string \<Rightarrow> string \<Rightarrow> (string \<times> string \<times> string) list" where
  "suggestion applies kind message action = (if applies then [(kind, message, action)] else [])"

definition generateTradingSuggestions :: "jsnum \<Rightarrow> string \<Rightarrow> analysis \<Rightarrow> market \<Rightarrow> (string \<times> string \<times> string) list" where
  "generateTradingSuggestions quantity position_type a m =
     suggestion (n_riskRewardRatio a < N (3 / 2)) ''warning''
       ''Risk:Reward ratio is below recommended minimum of 1.5:1''
       ''Consider adjusting entry price or target to improve R:R ratio'' @
     suggestion (n_portfolioHeat a > N (4 / 10)) ''danger'' ''High portfolio heat detected''
       ''Reduce position size or hedge existing positions'' @
     suggestion (y_volatility m = Str ''high'' \<and> n_volatilityImpact a > N 15) ''info'' ''High market volatility detected''
       ''Consider using options strategies or scaling in gradually'' @
     suggestion (y_volume m < quantity * N 100) ''warning'' ''Position size may impact market liquidity''
       ''Consider breaking up the order or using TWAP/VWAP'' @
     suggestion (y_trend m = Str ''weak'' \<and> position_type = ''long'') ''info'' ''Weak market trend for long position''
       ''Consider waiting for trend confirmation or reducing size''"

record entry =
  e_price :: jsnum
  e_size :: jsnum
  e_conditions :: string

definition calculateOptimalEntries :: "jsnum \<Rightarrow> market \<Rightarrow> entry \<times> entry \<times> entry" where
  "calculateOptimalEntries quantity m =
     (let volatilityFactor = dailyVolatility m
      in (\<lparr>e_price = y_price m * (N 1 - volatilityFactor), e_size = jfloor (quantity * N (4 / 10)),
           e_conditions = ''Market volatility decrease or support level test''\<rparr>,
          \<lparr>e_price = y_price m, e_size = jfloor (quantity * N (3 / 10)),
           e_conditions = ''Current market price with volume confirmation''\<rparr>,
          \<lparr>e_price = y_price m * (N 1 + volatilityFactor), e_size = jfloor (quantity * N (3 / 10)),
           e_conditions = ''Momentum confirmation or breakout''\<rparr>))"

section \<open>The simulation ends, its figures are in range\<close>

lemma walk_days: "walk random m p days drawn = (p', days', drawn') \<Longrightarrow> days \<le> 20 \<Longrightarrow>
   days \<le> days' \<and> days' \<le> 20 \<and> drawn' = drawn + (days' - days)
   \<and> \<not> (p' > y_stopLoss m \<and> p' < y_target m \<and> days' < 20)"
proof (induction random m p days drawn rule: walk.induct)
  case (1 random m p days drawn)
  show ?case
  proof (cases "p > y_stopLoss m \<and> p < y_target m \<and> days < 20")
    case True
    then have "walk random m (p * (N 1 + (random drawn - N (1 / 2)) * dailyVolatility m
        + (y_target m - y_price m) / (y_price m * N 100))) (Suc days) (Suc drawn) = (p', days', drawn')"
      using 1(2) by (simp add: walk.simps [of random m p] Let_def)
    from 1(1) [OF True refl refl this] True show ?thesis by auto
  next
    case False
    then have "walk random m p days drawn = (p, days, drawn)" by (subst walk.simps) auto
    then show ?thesis using 1(2,3) False by auto
  qed
qed

lemma simulate_facts:
  "length (simulate random m n drawn) = n \<and> (\<forall>r \<in> set (simulate random m n drawn). z_days r \<le> 20)"
proof (induction n arbitrary: drawn)
  case (Suc n)
  obtain p d k where w: "walk random m (y_price m) 0 drawn = (p, d, k)" by (metis surj_pair)
  from walk_days [OF this] have "d \<le> 20" by simp
  then show ?case using Suc w by simp
qed simp

lemma weights: "rd64 (rd64 (7 / 10) + rd64 (3 / 10)) = 1" "rd64 (7 / 10) \<le> 1" "rd64 (3 / 10) \<le> 1"
  by code_simp+

lemma rnd_unit: "0 \<le> x \<Longrightarrow> x \<le> 2 \<Longrightarrow> rnd x = Fin (rd64 x)"
  using rnd_between [of 0 x 2] rnd_Fin [of x] by fastforce

lemma weighted_range:
  assumes "ranged 0 1 w" and "ranged 0 1 d"
  shows "ranged 0 1 (w * N (7 / 10) + d * N (3 / 10))"
proof -
  obtain x y where x: "w = Fin x" "0 \<le> x" "x \<le> 1" and y: "d = Fin y" "0 \<le> y" "y \<le> 1"
    using assms by (auto elim!: rangedE)
  define a where "a = rd64 (7 / 10)"
  define b where "b = rd64 (3 / 10)"
  have N: "N (7 / 10) = Fin a" "N (3 / 10) = Fin b" by (simp_all add: rnd_unit a_def b_def)
  have nn: "0 \<le> a" "0 \<le> b" by (simp_all add: a_def b_def binary64.nonneg)
  have le: "a \<le> 1" "b \<le> 1" using weights(2,3) by (simp_all add: a_def b_def)
  have xa: "0 \<le> x * a" "x * a \<le> a" "x * a \<le> 2" using x nn le by (auto simp: mult_left_le_one_le intro: order_trans [of _ a])
  have yb: "0 \<le> y * b" "y * b \<le> b" "y * b \<le> 2" using y nn le by (auto simp: mult_left_le_one_le intro: order_trans [of _ b])
  have p: "0 \<le> rd64 (x * a)" "rd64 (x * a) \<le> a"
    using binary64.nonneg [OF xa(1)] binary64.mono [OF xa(2)] by (simp_all add: a_def rd64_idem)
  have q: "0 \<le> rd64 (y * b)" "rd64 (y * b) \<le> b"
    using binary64.nonneg [OF yb(1)] binary64.mono [OF yb(2)] by (simp_all add: b_def rd64_idem)
  have "rd64 (rd64 (x * a) + rd64 (y * b)) \<le> rd64 (a + b)" using p q by (intro binary64.mono) auto
  also have "\<dots> = 1" using weights(1) by (simp add: a_def b_def)
  finally have "rd64 (rd64 (x * a) + rd64 (y * b)) \<le> 1" .
  moreover have "0 \<le> rd64 (rd64 (x * a) + rd64 (y * b))" using p q by (intro binary64.nonneg) auto
  moreover have "rd64 (x * a) + rd64 (y * b) \<le> 2" using p q le by linarith
  ultimately show ?thesis using p q xa yb by (simp add: N x(1) y(1) rnd_unit)
qed

lemma confidence_range:
  assumes "ranged 0 100 winRate" and "ranged 0 20 avgDays"
  shows "ranged 0 100 (calculateConfidenceScore winRate avgDays)"
proof -
  have "ranged 0 1 (winRate / N 100)" using ranged_div [OF assms(1), of 100 0 1] by simp
  moreover have "ranged 0 1 (avgDays / N 20)" using ranged_div [OF assms(2), of 20 0 1] by simp
  then have "ranged (1 - 1) (1 - 0) (N 1 - avgDays / N 20)" by (intro ranged_diff) auto
  then have "ranged (max 0 0) (max 0 1) (jmax (Fin 0) (N 1 - avgDays / N 20))" by (intro ranged_jmax) auto
  then have "ranged 0 1 (jmax (Fin 0) (N 1 - avgDays / N 20))" by simp
  ultimately have "ranged 0 1 (winRate / N 100 * N (7 / 10) + jmax (Fin 0) (N 1 - avgDays / N 20) * N (3 / 10))"
    by (rule weighted_range)
  from ranged_mult [OF this, of 100 100 "N 100"] show ?thesis
    by (simp add: calculateConfidenceScore_def Let_def)
qed

lemma days_range:
  assumes "\<forall>r \<in> set results. z_days r \<le> 20" and "20 * length results \<le> 2 ^ 53"
  shows "ranged 0 (20 * int (length results)) (foldl (\<lambda>sum r. sum + num (z_days r)) (Fin 0) results)"
  using assms
proof (induction results rule: rev_induct)
  case (snoc r results)
  have "ranged 0 20 (num (z_days r))" using snoc.prems(1) by (simp add: num_def jint_small)
  with snoc have "ranged (0 + 0) (20 * int (length results) + 20)
      (foldl (\<lambda>sum r. sum + num (z_days r)) (Fin 0) results + num (z_days r))"
    by (intro ranged_add) auto
  then show ?case by (simp add: algebra_simps)
qed simp

text \<open>The simulation ends whatever the random numbers are: every walk stops within twenty days, having
  left the band between stop and target or used them up, and the figures reported are in range.\<close>

theorem monte_carlo_in_range:
  assumes "0 < n" and "20 * n \<le> 2 ^ 53" and "results = simulate random m n 0"
  shows "length results = n \<and> (\<forall>r \<in> set results. z_days r \<le> 20)
       \<and> ranged 0 100 (win_rate results) \<and> ranged 0 20 (avg_days results)
       \<and> ranged 0 100 (s_confidenceScore (runMonteCarloSimulation random m n))"
proof -
  have facts: "length results = n" "\<forall>r \<in> set results. z_days r \<le> 20"
    using simulate_facts assms(3) by auto
  have len: "jlen results = Fin (of_int (int n))" using facts assms(2) by (simp add: jlen_def jint_small)
  have fewer: "length (filter z_win results) \<le> n" using facts(1) by (metis length_filter_le)
  then have "jlen (filter z_win results) = Fin (of_int (int (length (filter z_win results))))"
    using assms(2) by (simp add: jlen_def jint_small)
  then have "ranged 0 1 (jlen (filter z_win results) / jlen results)"
    unfolding len using fewer assms(1) by (simp only:) (intro ranged_ratio, auto)
  from ranged_mult [OF this, of 100 100 "N 100"] have w: "ranged 0 100 (win_rate results)"
    by (simp add: win_rate_def)
  have "ranged 0 (20 * int n) (foldl (\<lambda>sum r. sum + num (z_days r)) (Fin 0) results)"
    using days_range [OF facts(2)] facts(1) assms(2) by simp
  from ranged_div [OF this, of "int n" 0 20] have a: "ranged 0 20 (avg_days results)"
    unfolding avg_days_def len using assms(1) by simp
  have "ranged 0 100 (s_confidenceScore (runMonteCarloSimulation random m n))"
    using confidence_range [OF w a] assms(3) by (simp add: runMonteCarloSimulation_def analyzeMonteCarloResults_def)
  then show ?thesis using facts w a by simp
qed

definition quiet_market :: market where
  "quiet_market = \<lparr>y_price = Fin 100, y_stopLoss = Fin 90, y_target = Fin 110, y_volatility = Str ''low'',
     y_volume = Fin 1000000, y_trend = Str ''weak''\<rparr>"

theorem monte_carlo_in_range_witness:
  "ranged 0 100 (s_confidenceScore (runMonteCarloSimulation (\<lambda>i. N (1 / 2)) quiet_market 1000))"
  using monte_carlo_in_range [of 1000, OF _ _ refl] by simp

lemma kelly_not_negative: "nonneg_or_nan (calculateKellyCriterion winRate riskRewardRatio)"
proof -
  have "nonneg_or_nan (jmax (Fin 0) x)" for x by (cases x) (auto simp: jmax_def)
  then show ?thesis by (simp add: calculateKellyCriterion_def Let_def)
qed

end
