(* ===== verification/Chart_Utils.thy ===== *)
theory Chart_Utils
  imports Js_Array
begin

text \<open>
  Helpers of the charts (src/utils/chartUtils.js) and the market narrative (src/utils/marketNarrative.js).
  \<open>debounce\<close> and \<open>throttle\<close> are state machines over calls and timers; a timer that is due fires before
  the next call.  The dates of chartUtils.js go through the time zone of the browser and are left out.
\<close>

section \<open>debounce and throttle\<close>

record 'a debounced =
  b_timeout :: "nat option"
  b_timers :: "(nat \<times> int \<times> 'a) list"
  b_next :: nat
  b_ran :: "(int \<times> 'a) list"

definition debounce :: "'a debounced" where
  "debounce = \<lparr>b_timeout = None, b_timers = [], b_next = 0, b_ran = []\<rparr>"

definition clear_timeout :: "nat option \<Rightarrow> (nat \<times> 'b) list \<Rightarrow> (nat \<times> 'b) list" where
  "clear_timeout t timers = (case t of None \<Rightarrow> timers | Some i \<Rightarrow> filter (\<lambda>x. fst x \<noteq> i) timers)"

definition executedFunction :: "int \<Rightarrow> int \<Rightarrow> 'a \<Rightarrow> 'a debounced \<Rightarrow> 'a debounced" where
  "executedFunction wait now args s =
     s\<lparr>b_timers := clear_timeout (b_timeout s) (b_timers s) @ [(b_next s, now + wait, args)],
       b_timeout := Some (b_next s), b_next := Suc (b_next s)\<rparr>"

text \<open>\<open>later\<close>: the timer \<open>i\<close> fires.\<close>

definition later :: "nat \<times> int \<times> 'a \<Rightarrow> 'a debounced \<Rightarrow> 'a debounced" where
  "later timer s =
     (case timer of (i, due, args) \<Rightarrow>
        s\<lparr>b_timers := clear_timeout (b_timeout s) (filter (\<lambda>x. fst x \<noteq> i) (b_timers s)),
          b_ran := b_ran s @ [(due, args)]\<rparr>)"

definition debounce_until :: "int \<Rightarrow> 'a debounced \<Rightarrow> 'a debounced" where
  "debounce_until now s = fold later (filter (\<lambda>(i, due, args). due \<le> now) (b_timers s)) s"

definition debounce_calls :: "int \<Rightarrow> (int \<times> 'a) list \<Rightarrow> 'a debounced \<Rightarrow> 'a debounced" where
  "debounce_calls wait calls s =
     fold (\<lambda>(now, args) s. executedFunction wait now args (debounce_until now s)) calls s"

record 'a throttled =
  u_inThrottle :: bool
  u_timers :: "int list"
  u_ran :: "(int \<times> 'a) list"

definition throttle :: "'a throttled" where
  "throttle = \<lparr>u_inThrottle = False, u_timers = [], u_ran = []\<rparr>"

definition throttled_call :: "int \<Rightarrow> int \<Rightarrow> 'a \<Rightarrow> 'a throttled \<Rightarrow> 'a throttled" where
  "throttled_call limit now args s =
     (if \<not> u_inThrottle s
      then s\<lparr>u_ran := u_ran s @ [(now, args)], u_inThrottle := True, u_timers := u_timers s @ [now + limit]\<rparr>
      else s)"

definition throttle_until :: "int \<Rightarrow> 'a throttled \<Rightarrow> 'a throttled" where
  "throttle_until now s =
     (if list_ex (\<lambda>due. due \<le> now) (u_timers s)
      then s\<lparr>u_inThrottle := False, u_timers := filter (\<lambda>due. \<not> due \<le> now) (u_timers s)\<rparr> else s)"

definition throttle_calls :: "int \<Rightarrow> (int \<times> 'a) list \<Rightarrow> 'a throttled \<Rightarrow> 'a throttled" where
  "throttle_calls limit calls s =
     fold (\<lambda>(now, args) s. throttled_call limit now args (throttle_until now s)) calls s"

section \<open>Time and levels\<close>

definition convertUTCToISTTimestamp :: "jsnum \<Rightarrow> jsnum" where
  "convertUTCToISTTimestamp utcTimestamp = utcTimestamp + N (11 / 2) * N 60 * N 60"

definition strikes_of :: "(string \<times> jsval) list \<Rightarrow> jsnum list" where
  "strikes_of oc =
     js_sort (\<lambda>a b. a - b) (map (string_to_number \<circ> fst) (filter (\<lambda>p. fst p \<noteq> [] \<and> list_all is_digit (fst p)) oc))"

definition pick :: "(string \<times> jsval) list \<Rightarrow> jsnum list \<Rightarrow> int \<Rightarrow> jsval" where
  "pick oc levels idx =
     (if idx < 0 \<or> int (length levels) \<le> idx then Null
      else js_or (own oc (num_to_string (levels ! nat idx))) Null)"

definition nullish_num :: "jsval \<Rightarrow> jsnum" where
  "nullish_num v = (if nullish v then Fin 0 else to_number v)"

definition average_level :: "jsval \<Rightarrow> jsnum" where
  "average_level d = (nullish_num (opt d ''reversal'') + nullish_num (opt d ''wkly_reversal'')) / N 2"

definition level_names :: "string list" where
  "level_names =
     [''support_1'', ''support_2'', ''support_1_1'', ''support_1_2'', ''support_2_1'', ''support_2_2'',
      ''resistance_1'', ''resistance_2'', ''resistance_1_1'', ''resistance_1_2'', ''resistance_2_1'', ''resistance_2_2'']"

definition no_levels :: "(string \<times> jsval) list" where
  "no_levels = map (\<lambda>n. (n, Null)) level_names"

text \<open>Reversal values are numbers; a chain that is no object is \<open>None\<close>.\<close>

definition computeLevels :: "(string \<times> jsval) list option \<Rightarrow> jsnum \<Rightarrow> (string \<times> jsval) list" where
  "computeLevels oc_opt price =
     (case oc_opt of
        None \<Rightarrow> no_levels
      | Some oc \<Rightarrow>
          let strikes = strikes_of oc
          in if strikes = [] then no_levels
             else
               let below = filter (\<lambda>s. s \<le> price) strikes;
                   above = filter (\<lambda>s. s > price) strikes;
                   n = int (length below);
                   down = (\<lambda>k. pick oc below (n - k)); up = (\<lambda>k. pick oc above k)
               in [(''support_1'', opt (down 1) ''reversal''), (''support_2'', opt (down 1) ''wkly_reversal''),
                   (''support_1_1'', opt (down 2) ''reversal''), (''support_1_2'', opt (down 3) ''reversal''),
                   (''support_2_1'', opt (down 2) ''wkly_reversal''), (''support_2_2'', opt (down 3) ''wkly_reversal''),
                   (''resistance_1'', opt (up 0) ''reversal''), (''resistance_2'', opt (up 0) ''wkly_reversal''),
                   (''resistance_1_1'', opt (up 1) ''reversal''), (''resistance_1_2'', opt (up 2) ''reversal''),
                   (''resistance_2_1'', opt (up 1) ''wkly_reversal''), (''resistance_2_2'', opt (up 2) ''wkly_reversal''),
                   (''support_avg'', Num (average_level (down 1))), (''support_1_1_avg'', Num (average_level (down 2))),
                   (''support_1_2_avg'', Num (average_level (down 3))), (''resistance_avg'', Num (average_level (up 0))),
                   (''resistance_1_1_avg'', Num (average_level (up 1))), (''resistance_1_2_avg'', Num (average_level (up 2)))])"

section \<open>The market narrative\<close>

text \<open>The market-maker data; a missing number is NaN where it is only compared, \<open>None\<close> where it is tested.\<close>

record mm_data =
  q_totalGEX :: jsnum
  q_gammaFlip :: "jsnum option"
  q_supportLevels :: "jsnum list"
  q_resistanceLevels :: "jsnum list"
  q_hedgeDirection :: string
  q_hedgeSize :: jsnum
  q_painThresholdRatio :: "jsnum option"
  q_netVannaFlow :: jsnum

record narrative =
  n_headline :: string
  n_summary :: string
  n_sentiment :: string
  n_score :: int

definition formatSimple :: "jsnum \<Rightarrow> string" where
  "formatSimple x =
     (if x > N 10000000 then to_fixed 1 (x / N 10000000) @ ''Cr''
      else if x > N 100000 then to_fixed 1 (x / N 100000) @ ''L''
      else to_fixed 0 (x / N 1000) @ ''k'')"

definition add_note :: "string \<Rightarrow> int \<Rightarrow> narrative \<Rightarrow> narrative" where
  "add_note text points n = n\<lparr>n_summary := n_summary n @ text, n_score := n_score n + points\<rparr>"

definition gex_regime :: "jsnum \<Rightarrow> narrative \<Rightarrow> narrative" where
  "gex_regime gexInCr n =
     (if gexInCr > N (8 / 10) then
        add_note ''Big players are positioned to buy dips and sell rallies. Expect the market to stay in a range. '' 2
          (n\<lparr>n_headline := ''Market is heavily cushioned (Stable).''\<rparr>)
      else if gexInCr < N (- 8 / 10) then
        add_note ''Big players may trade with the trend, making moves faster and sharper. Be careful of sudden drops or spikes. '' (- 2)
          (n\<lparr>n_headline := ''Market is turbulent (Risk of big moves).'', n_sentiment := ''bearish''\<rparr>)
      else
        add_note ''No strong manipulation by big players detected. Market will move based on news or normal buying/selling. '' 0
          (n\<lparr>n_headline := ''Market is essentially neutral.''\<rparr>))"

definition hedge_note :: "mm_data \<Rightarrow> narrative \<Rightarrow> narrative" where
  "hedge_note d n =
     (if q_hedgeDirection d = ''long'' then
        add_note (''Dealers need to BUY to protect themselves (~'' @ formatSimple (q_hedgeSize d) @
                  '' delta). This acts as a natural support for price. '') 3 n
      else if q_hedgeDirection d = ''short'' then
        add_note (''Dealers need to SELL to protect themselves (~'' @ formatSimple (q_hedgeSize d) @
                  '' delta). This acts as a natural resistance (ceiling). '') (- 3) n
      else n)"

definition support_note :: "mm_data \<Rightarrow> jsnum \<Rightarrow> narrative \<Rightarrow> narrative" where
  "support_note d spotPrice n =
     (case q_supportLevels d of
        strike # _ \<Rightarrow>
          if spotPrice - strike < spotPrice * N (5 / 1000)
          then add_note (''Price is very close to strong support at '' @ num_to_string strike @ ''. Watch for a bounce. '')
                 (if q_totalGEX d > Fin 0 then 2 else 0) n
          else n
      | [] \<Rightarrow> n)"

definition resistance_note :: "mm_data \<Rightarrow> jsnum \<Rightarrow> narrative \<Rightarrow> narrative" where
  "resistance_note d spotPrice n =
     (case q_resistanceLevels d of
        strike # _ \<Rightarrow>
          if strike - spotPrice < spotPrice * N (5 / 1000)
          then add_note (''Price is hitting a wall at '' @ num_to_string strike @ ''. Hard to break through. '')
                 (if q_totalGEX d > Fin 0 then - 2 else 0) n
          else n
      | [] \<Rightarrow> n)"

definition flip_note :: "mm_data \<Rightarrow> jsnum \<Rightarrow> narrative \<Rightarrow> narrative" where
  "flip_note d spotPrice n =
     (case q_gammaFlip d of
        Some gammaFlip \<Rightarrow>
          if num_truthy gammaFlip \<and> abs ((gammaFlip - spotPrice) / spotPrice * N 100) < N (1 / 2)
          then add_note (''CRITICAL: Price is at the '' @ [CHR 0x27] @ ''Flip Level'' @ [CHR 0x27] @ '' ('' @ num_to_string gammaFlip @
                         ''). If it crosses this, the market mood could change instantly. '') 0 n
          else n
      | None \<Rightarrow> n)"

definition warning_sign :: string where
  "warning_sign = [CHR 0xE2, CHR 0x9A, CHR 0xA0, CHR 0xEF, CHR 0xB8, CHR 0x8F]"

definition pain_note :: "mm_data \<Rightarrow> narrative \<Rightarrow> narrative" where
  "pain_note d n =
     (case q_painThresholdRatio d of
        None \<Rightarrow> n
      | Some ratio \<Rightarrow>
          if ratio < N 1
          then add_note (warning_sign @ '' Smart Money is losing money right now. They might fight hard to pin the price to minimize losses. '') 0 n
          else if ratio > N 2
          then add_note (''Smart Money is profitable and relaxed. They likely won'' @ [CHR 0x27] @ ''t manipulate the price today. '') 1 n
          else n)"

definition vanna_note :: "mm_data \<Rightarrow> narrative \<Rightarrow> narrative" where
  "vanna_note d n =
     (if num_truthy (q_netVannaFlow d) \<and> abs (q_netVannaFlow d) > N 100000
      then let buy = (q_netVannaFlow d > Fin 0)
           in add_note (''PREDICTION: Later today, expect slight '' @ (if buy then ''BUY'' else ''SELL'') @
                        '' pressure due to options decay. '') (if buy then 1 else - 1) n
      else n)"

definition conclude :: "narrative \<Rightarrow> narrative" where
  "conclude n =
     (let score = n_score n
      in \<lparr>n_headline = (if score \<le> - 5 then ''High Risk / Bearish Setup Detected.''
                        else if score \<ge> 5 then ''Strong Bullish Setup Detected.'' else n_headline n),
          n_summary = trim_ws (n_summary n),
          n_sentiment = (if score \<ge> 3 then ''bullish'' else if score \<le> - 3 then ''bearish'' else ''neutral''),
          n_score = score\<rparr>)"

definition generateMarketNarrative :: "mm_data option \<Rightarrow> jsnum \<Rightarrow> narrative" where
  "generateMarketNarrative mmData spotPrice =
     (case mmData of
        None \<Rightarrow> \<lparr>n_headline = ''Waiting for data...'', n_summary = ''Data loading.'', n_sentiment = ''neutral'', n_score = 0\<rparr>
      | Some d \<Rightarrow>
          conclude (vanna_note d (pain_note d (flip_note d spotPrice (resistance_note d spotPrice
            (support_note d spotPrice (hedge_note d (gex_regime (q_totalGEX d)
              \<lparr>n_headline = [], n_summary = [], n_sentiment = ''neutral'', n_score = 0\<rparr>))))))))"

section \<open>Properties\<close>

text \<open>What a debounced function is meant to do: a call takes effect, with its own arguments and after the
  wait, exactly when no other call comes within the wait.\<close>

fun debounce_spec :: "int \<Rightarrow> (int \<times> 'a) list \<Rightarrow> (int \<times> 'a) list" where
  "debounce_spec wait [] = []"
| "debounce_spec wait [(t, a)] = [(t + wait, a)]"
| "debounce_spec wait ((t, a) # (t', a') # calls) =
     (if t + wait \<le> t' then [(t + wait, a)] else []) @ debounce_spec wait ((t', a') # calls)"

text \<open>Between calls at most one timer is armed, the one of the latest call.\<close>

definition armed :: "int \<Rightarrow> (int \<times> 'a) list \<Rightarrow> int \<times> 'a \<Rightarrow> 'a debounced \<Rightarrow> bool" where
  "armed wait runs call s \<longleftrightarrow>
     (\<exists>i. b_timers s = [(i, fst call + wait, snd call)] \<and> b_timeout s = Some i \<and> i < b_next s) \<and> b_ran s = runs"

lemma debounce_call_armed:
  assumes "armed wait runs (t, a) s"
  shows "armed wait (runs @ (if t + wait \<le> t' then [(t + wait, a)] else [])) (t', a')
           (executedFunction wait t' a' (debounce_until t' s))"
  using assms
  by (auto simp: armed_def executedFunction_def debounce_until_def later_def clear_timeout_def)

lemma debounce_calls_armed:
  assumes "armed wait runs (t, a) s" and "\<forall>c \<in> set calls. fst c \<le> end_time - wait" and "t + wait \<le> end_time"
  shows "b_ran (debounce_until end_time (debounce_calls wait calls s)) = runs @ debounce_spec wait ((t, a) # calls)"
  using assms
proof (induction calls arbitrary: runs t a s)
  case Nil
  then show ?case
    by (auto simp: armed_def debounce_calls_def debounce_until_def later_def clear_timeout_def)
next
  case (Cons c calls)
  obtain t' a' where c: "c = (t', a')" by (cases c)
  have "t' + wait \<le> end_time" using Cons.prems(2) c by simp
  from Cons.IH [OF debounce_call_armed [OF Cons.prems(1), of t' a'] _ this] Cons.prems(2)
  show ?case by (simp add: debounce_calls_def c)
qed

text \<open>C23: Debouncing meets its specification on every sequence of calls, once enough time has passed.\<close>

theorem debounce_meets_spec:
  assumes "\<forall>c \<in> set calls. fst c + wait \<le> end_time"
  shows "b_ran (debounce_until end_time (debounce_calls wait calls debounce)) = debounce_spec wait calls"
proof (cases calls)
  case Nil
  then show ?thesis by (simp add: debounce_calls_def debounce_until_def debounce_def)
next
  case (Cons c cs)
  obtain t a where c: "c = (t, a)" by (cases c)
  have "armed wait [] (t, a) (executedFunction wait t a (debounce_until t debounce))"
    by (simp add: armed_def executedFunction_def debounce_until_def debounce_def clear_timeout_def)
  moreover have "\<forall>c \<in> set cs. fst c \<le> end_time - wait" "t + wait \<le> end_time"
    using assms by (auto simp: Cons c)
  ultimately have "b_ran (debounce_until end_time (debounce_calls wait cs
      (executedFunction wait t a (debounce_until t debounce)))) = [] @ debounce_spec wait ((t, a) # cs)"
    by (rule debounce_calls_armed)
  then show ?thesis by (simp add: Cons c debounce_calls_def)
qed

theorem debounce_meets_spec_witness:
  "b_ran (debounce_until 900 (debounce_calls 300 [(0, ''N''), (100, ''NI''), (600, ''BANK'')] debounce))
   = [(400, ''NI''), (900, ''BANK'')]"
  using debounce_meets_spec [of "[(0, ''N''), (100, ''NI''), (600, ''BANK'')]" 300 900] by simp

text \<open>A throttled function runs at most once per limit; a call is dropped only within the limit of a run.\<close>

definition spaced :: "int \<Rightarrow> int list \<Rightarrow> bool" where
  "spaced limit ts \<longleftrightarrow> sorted_wrt (\<lambda>x y. x + limit \<le> y) ts"

definition throttle_inv :: "int \<Rightarrow> (int \<times> 'a) list \<Rightarrow> 'a throttled \<Rightarrow> bool" where
  "throttle_inv limit calls s \<longleftrightarrow>
     spaced limit (map fst (u_ran s))
     \<and> (\<forall>c \<in> set calls. c \<in> set (u_ran s) \<or> (\<exists>r \<in> set (u_ran s). fst r \<le> fst c \<and> fst c < fst r + limit))
     \<and> (u_inThrottle s \<longrightarrow> u_ran s \<noteq> [] \<and> u_timers s = [fst (last (u_ran s)) + limit])
     \<and> (\<not> u_inThrottle s \<longrightarrow> u_timers s = [] \<and> u_ran s = [])"

lemma spaced_last: "spaced limit ts \<Longrightarrow> 0 \<le> limit \<Longrightarrow> ts \<noteq> [] \<Longrightarrow> last ts + limit \<le> t \<Longrightarrow> spaced limit (ts @ [t])"
  by (cases ts rule: rev_cases) (auto simp: spaced_def sorted_wrt_append)

theorem throttle_spacing:
  assumes "0 \<le> limit" and "sorted (map fst calls)" and "s = throttle_calls limit calls throttle"
  shows "spaced limit (map fst (u_ran s))
       \<and> (\<forall>c \<in> set calls. c \<in> set (u_ran s) \<or> (\<exists>r \<in> set (u_ran s). fst r \<le> fst c \<and> fst c < fst r + limit))"
proof -
  have "throttle_inv limit calls (throttle_calls limit calls throttle)
      \<and> (\<forall>r \<in> set (u_ran (throttle_calls limit calls throttle)). r \<in> set calls)"
    using assms(2)
  proof (induction calls rule: rev_induct)
    case Nil
    then show ?case by (simp add: throttle_inv_def throttle_calls_def throttle_def spaced_def)
  next
    case (snoc c calls)
    let ?s = "throttle_calls limit calls throttle"
    obtain t a where c: "c = (t, a)" by (cases c)
    have inv: "throttle_inv limit calls ?s" and runs: "\<forall>r \<in> set (u_ran ?s). r \<in> set calls"
      using snoc by (simp_all add: sorted_append)
    have before: "\<forall>r \<in> set (u_ran ?s). fst r \<le> t"
      using runs snoc.prems c by (auto simp: sorted_append)
    have step: "throttle_calls limit (calls @ [(t, a)]) throttle = throttled_call limit t a (throttle_until t ?s)"
      by (simp add: throttle_calls_def)
    show ?case
    proof (cases "u_inThrottle ?s")
      case False
      then have u: "throttle_until t ?s = ?s" using inv by (simp add: throttle_until_def throttle_inv_def)
      then show ?thesis using False inv runs before
        by (auto simp: step throttled_call_def throttle_inv_def spaced_def sorted_wrt_append c)
    next
      case True
      then have l: "u_ran ?s \<noteq> []" "u_timers ?s = [fst (last (u_ran ?s)) + limit]"
        using inv by (simp_all add: throttle_inv_def)
      show ?thesis
      proof (cases "fst (last (u_ran ?s)) + limit \<le> t")
        case reset: True
        have "spaced limit (map fst (u_ran ?s) @ [t])"
          using inv l reset assms(1) by (intro spaced_last) (auto simp: throttle_inv_def last_map)
        then show ?thesis using inv runs l reset
          by (auto simp: step throttled_call_def throttle_until_def throttle_inv_def c)
      next
        case dropped: False
        have "last (u_ran ?s) \<in> set (u_ran ?s)" using l(1) by simp
        then have "\<exists>r \<in> set (u_ran ?s). fst r \<le> t \<and> t < fst r + limit"
          using before dropped by (intro bexI [of _ "last (u_ran ?s)"]) auto
        then show ?thesis using inv runs l dropped True
          by (auto simp: step throttled_call_def throttle_until_def throttle_inv_def c)
      qed
    qed
  qed
  then show ?thesis using assms(3) by (simp add: throttle_inv_def)
qed

theorem throttle_spacing_witness:
  "spaced 100 (map fst (u_ran (throttle_calls 100 [(0, ''a''), (50, ''b''), (120, ''c'')] throttle)))
   \<and> (50, ''b'') \<notin> set (u_ran (throttle_calls 100 [(0, ''a''), (50, ''b''), (120, ''c'')] throttle))"
  using throttle_spacing [of 100 "[(0, ''a''), (50, ''b''), (120, ''c'')]", OF _ _ refl]
  by (simp add: throttle_calls_def throttled_call_def throttle_until_def throttle_def)

lemma score_steps:
  "n_score (gex_regime g n) - n_score n \<in> {- 2, 0, 2}"
  "n_score (gex_regime g n) - n_score n = - 2 \<Longrightarrow> \<not> g > Fin 0"
  "n_score (hedge_note d n) - n_score n \<in> {- 3, 0, 3}"
  "n_score (support_note d p n) - n_score n \<in> {0, 2}"
  "n_score (resistance_note d p n) - n_score n \<in> {- 2, 0}"
  "n_score (resistance_note d p n) - n_score n = - 2 \<Longrightarrow> q_totalGEX d > Fin 0"
  "n_score (flip_note d p n) = n_score n"
  "n_score (pain_note d n) - n_score n \<in> {0, 1}"
  "n_score (vanna_note d n) - n_score n \<in> {- 1, 0, 1}"
proof -
  have "N (8 / 10) > Fin 0 \<and> N (- 8 / 10) < Fin 0" by code_simp
  then show "n_score (gex_regime g n) - n_score n = - 2 \<Longrightarrow> \<not> g > Fin 0"
    by (cases g; cases "N (8 / 10)"; cases "N (- 8 / 10)")
      (auto simp: gex_regime_def add_note_def simp del: rnd_neg_numeral split: if_splits)
  show "n_score (gex_regime g n) - n_score n \<in> {- 2, 0, 2}" by (simp add: gex_regime_def add_note_def)
  show "n_score (hedge_note d n) - n_score n \<in> {- 3, 0, 3}" by (simp add: hedge_note_def add_note_def)
  show "n_score (support_note d p n) - n_score n \<in> {0, 2}"
    by (simp add: support_note_def add_note_def split: list.split)
  show "n_score (resistance_note d p n) - n_score n \<in> {- 2, 0}"
    by (simp add: resistance_note_def add_note_def split: list.split)
  show "n_score (resistance_note d p n) - n_score n = - 2 \<Longrightarrow> q_totalGEX d > Fin 0"
    by (simp add: resistance_note_def add_note_def split: list.splits if_splits)
  show "n_score (flip_note d p n) = n_score n" by (simp add: flip_note_def add_note_def split: option.split)
  show "n_score (pain_note d n) - n_score n \<in> {0, 1}" by (simp add: pain_note_def add_note_def split: option.split)
  show "n_score (vanna_note d n) - n_score n \<in> {- 1, 0, 1}" by (simp add: vanna_note_def add_note_def Let_def)
qed

definition sound_conclusion :: "narrative \<Rightarrow> bool" where
  "sound_conclusion n \<longleftrightarrow>
     - 6 \<le> n_score n \<and> n_score n \<le> 9
     \<and> n_sentiment n = (if 3 \<le> n_score n then ''bullish'' else if n_score n \<le> - 3 then ''bearish'' else ''neutral'')
     \<and> (n_headline n = ''Strong Bullish Setup Detected.'' \<longleftrightarrow> 5 \<le> n_score n)
     \<and> (n_headline n = ''High Risk / Bearish Setup Detected.'' \<longleftrightarrow> n_score n \<le> - 5)"

lemma conclude_sound:
  assumes "- 6 \<le> n_score n" and "n_score n \<le> 9" and "n_headline n \<noteq> ''Strong Bullish Setup Detected.''"
    and "n_headline n \<noteq> ''High Risk / Bearish Setup Detected.''"
  shows "sound_conclusion (conclude n)"
  using assms by (simp add: sound_conclusion_def conclude_def Let_def)

lemma score_sum:
  fixes a b c d e f g :: int
  assumes "a \<in> {- 2, 0, 2}" and "b - a \<in> {- 3, 0, 3}" and "c - b \<in> {0, 2}" and "d - c \<in> {- 2, 0}"
    and "a = - 2 \<Longrightarrow> d - c \<noteq> - 2" and "e = d" and "f - e \<in> {0, 1}" and "g - f \<in> {- 1, 0, 1}"
  shows "- 6 \<le> g \<and> g \<le> 9"
proof -
  have "a \<le> 2" using assms(1) by auto
  moreover have "- 3 \<le> b - a" "b - a \<le> 3" using assms(2) by auto
  moreover have "0 \<le> c - b" "c - b \<le> 2" using assms(3) by auto
  moreover have "d - c \<le> 0" using assms(4) by auto
  moreover have "0 \<le> f - e" "f - e \<le> 1" using assms(7) by auto
  moreover have "- 1 \<le> g - f" "g - f \<le> 1" using assms(8) by auto
  moreover have "a + (d - c) \<ge> - 2" using assms(1,4,5) by auto
  ultimately show ?thesis using assms(6) by linarith
qed

text \<open>The score never leaves the range from -6 to 9 (the code's comment says -10 to 10), and the sentiment
  and the strong headlines are functions of it; the sentiment set by the volatility regime is lost.\<close>

theorem narrative_score_range: "sound_conclusion (generateMarketNarrative (Some d) spotPrice)"
proof -
  define n0 where "n0 = \<lparr>n_headline = [], n_summary = [], n_sentiment = ''neutral'', n_score = 0\<rparr>"
  define n1 where "n1 = gex_regime (q_totalGEX d) n0"
  define n2 where "n2 = hedge_note d n1"
  define n3 where "n3 = support_note d spotPrice n2"
  define n4 where "n4 = resistance_note d spotPrice n3"
  define n5 where "n5 = flip_note d spotPrice n4"
  define n6 where "n6 = pain_note d n5"
  define n7 where "n7 = vanna_note d n6"
  note n = n0_def [symmetric] n1_def [symmetric] n2_def [symmetric] n3_def [symmetric] n4_def [symmetric]
    n5_def [symmetric] n6_def [symmetric] n7_def [symmetric]
  have whole: "generateMarketNarrative (Some d) spotPrice = conclude n7"
    by (simp only: generateMarketNarrative_def option.case n)
  have zero: "n_score n0 = 0" by (simp add: n0_def)
  have keep: "n_headline (hedge_note d m) = n_headline m" "n_headline (support_note d p m) = n_headline m"
    "n_headline (resistance_note d p m) = n_headline m" "n_headline (flip_note d p m) = n_headline m"
    "n_headline (pain_note d m) = n_headline m" "n_headline (vanna_note d m) = n_headline m" for p m
    by (simp_all add: hedge_note_def support_note_def resistance_note_def flip_note_def pain_note_def
        vanna_note_def add_note_def Let_def split: list.split option.split)
  have "n_headline n7 = n_headline n1" by (simp only: n7_def n6_def n5_def n4_def n3_def n2_def keep)
  moreover have "n_headline n1 \<in> {''Market is heavily cushioned (Stable).'', ''Market is turbulent (Risk of big moves).'',
      ''Market is essentially neutral.''}"
    by (simp add: n1_def gex_regime_def add_note_def)
  ultimately have "n_headline n7 \<noteq> ''Strong Bullish Setup Detected.''" "n_headline n7 \<noteq> ''High Risk / Bearish Setup Detected.''"
    by auto
  moreover have "- 6 \<le> n_score n7 \<and> n_score n7 \<le> 9"
  proof (rule score_sum)
    show "n_score n1 \<in> {- 2, 0, 2}" using score_steps(1) [of "q_totalGEX d" n0] by (simp only: n zero diff_0_right)
    show "n_score n1 = - 2 \<Longrightarrow> n_score n4 - n_score n3 \<noteq> - 2"
      using score_steps(2) [of "q_totalGEX d" n0] score_steps(6) [of d spotPrice n3] by (auto simp only: n zero diff_0_right)
    show "n_score n2 - n_score n1 \<in> {- 3, 0, 3}" using score_steps(3) [of d n1] by (simp only: n)
    show "n_score n3 - n_score n2 \<in> {0, 2}" using score_steps(4) [of d spotPrice n2] by (simp only: n)
    show "n_score n4 - n_score n3 \<in> {- 2, 0}" using score_steps(5) [of d spotPrice n3] by (simp only: n)
    show "n_score n5 = n_score n4" using score_steps(7) [of d spotPrice n4] by (simp only: n)
    show "n_score n6 - n_score n5 \<in> {0, 1}" using score_steps(8) [of d n5] by (simp only: n)
    show "n_score n7 - n_score n6 \<in> {- 1, 0, 1}" using score_steps(9) [of d n6] by (simp only: n)
  qed
  ultimately show ?thesis unfolding whole by (intro conclude_sound) auto
qed

lemma fin_double_antisym: "fin_double x \<Longrightarrow> fin_double y \<Longrightarrow> x \<le> y \<Longrightarrow> y \<le> x \<Longrightarrow> x = y"
  by (auto simp: fin_double_def)

lemma fin_double_refl: "fin_double x \<Longrightarrow> x \<le> x"
  by (auto simp: fin_double_def)

lemma sorted_extremes:
  assumes "sorted_wrt (\<le>) xs" and "\<forall>x \<in> set xs. fin_double x" and "s \<in> set xs"
  shows "\<forall>t \<in> set xs. t \<le> s \<Longrightarrow> last xs = s" and "\<forall>t \<in> set xs. s \<le> t \<Longrightarrow> hd xs = s"
proof -
  have ne: "xs \<noteq> []" using assms(3) by auto
  have "x \<le> last xs" if "x \<in> set xs" for x
    using that assms(1,2) ne fin_double_refl
    by (cases xs rule: rev_cases) (auto simp: sorted_wrt_append)
  then show "\<forall>t \<in> set xs. t \<le> s \<Longrightarrow> last xs = s"
    using assms(2,3) ne by (auto intro!: fin_double_antisym)
  have "hd xs \<le> x" if "x \<in> set xs" for x
    using that assms(1,2) ne fin_double_refl by (cases xs) auto
  then show "\<forall>t \<in> set xs. s \<le> t \<Longrightarrow> hd xs = s"
    using assms(2,3) ne by (auto intro!: fin_double_antisym)
qed

text \<open>The first support is the reversal value of the largest strike at or below the price, the first
  resistance that of the smallest strike above it.\<close>

lemma first_levels:
  assumes "\<forall>x \<in> set (strikes_of oc). fin_double x" and "s \<in> set (strikes_of oc)"
  shows "s \<le> price \<Longrightarrow> \<forall>t \<in> set (strikes_of oc). t \<le> price \<longrightarrow> t \<le> s \<Longrightarrow>
           own (computeLevels (Some oc) price) ''support_1'' = opt (own oc (num_to_string s)) ''reversal''"
    and "price < s \<Longrightarrow> \<forall>t \<in> set (strikes_of oc). price < t \<longrightarrow> s \<le> t \<Longrightarrow>
           own (computeLevels (Some oc) price) ''resistance_1'' = opt (own oc (num_to_string s)) ''reversal''"
proof -
  have "sorted_wrt (\<le>) (strikes_of oc)"
    using sorted_sort_numbers assms(1) by (simp add: strikes_of_def sort_numbers_def)
  then have sorted: "sorted_wrt (\<le>) (filter P (strikes_of oc))" for P by (simp add: sorted_wrt_filter)
  have ne: "strikes_of oc \<noteq> []" using assms(2) by auto
  have falsy: "opt (js_or v Null) ''reversal'' = opt v ''reversal''" for v
    by (cases v) (auto simp: js_or_def)
  {
    assume h: "s \<le> price" "\<forall>t \<in> set (strikes_of oc). t \<le> price \<longrightarrow> t \<le> s"
    let ?below = "filter (\<lambda>t. t \<le> price) (strikes_of oc)"
    have below: "?below \<noteq> []" using h(1) assms(2) by (auto simp: filter_empty_conv)
    then have "last ?below = s" using sorted_extremes(1) [OF sorted, of "\<lambda>t. t \<le> price" s] assms h by auto
    moreover have "nat (int (length ?below) - 1) = length ?below - 1" by arith
    ultimately have "?below ! nat (int (length ?below) - 1) = s" using last_conv_nth [OF below] by simp
    then show "own (computeLevels (Some oc) price) ''support_1'' = opt (own oc (num_to_string s)) ''reversal''"
      using ne below by (simp add: computeLevels_def Let_def pick_def falsy)
  next
    assume h: "price < s" "\<forall>t \<in> set (strikes_of oc). price < t \<longrightarrow> s \<le> t"
    let ?above = "filter (\<lambda>t. price < t) (strikes_of oc)"
    have above: "?above \<noteq> []" using h(1) assms(2) by (auto simp: filter_empty_conv)
    then have "hd ?above = s" using sorted_extremes(2) [OF sorted, of "\<lambda>t. price < t" s] assms h by auto
    then have "?above ! 0 = s" using above by (simp add: hd_conv_nth)
    then show "own (computeLevels (Some oc) price) ''resistance_1'' = opt (own oc (num_to_string s)) ''reversal''"
      using ne above by (simp add: computeLevels_def Let_def pick_def falsy)
  }
qed

end
