(* ===== verification/Position_Alerts.thy ===== *)
theory Position_Alerts
  imports Position_Services
begin

text \<open>
  The alert hook (src/hooks/usePositionAlerts.js): polling, the ids that were notified, the counts.
  The answer of the tracker service is a parameter; the calls of \<open>onCriticalAlert\<close> are logged.
  A set of ids is a list; alert ids are strings or numbers.
\<close>

section \<open>The hook\<close>

record alert_state =
  al_alerts :: jsval
  al_loading :: bool
  al_error :: jsval
  al_notified :: "jsval list"
  al_calls :: "jsval list"

definition alerts_initial :: alert_state where
  "alerts_initial = \<lparr>al_alerts = Arr [], al_loading = True, al_error = Null, al_notified = [], al_calls = []\<rparr>"

definition severity_is :: "string \<Rightarrow> jsval \<Rightarrow> bool" where
  "severity_is level a \<longleftrightarrow> strict_eq (opt a ''severity'') (Str (the (map_of ALERT_SEVERITY level)))"

definition new_critical :: "jsval list \<Rightarrow> jsval \<Rightarrow> bool" where
  "new_critical notified a \<longleftrightarrow>
     severity_is ''CRITICAL'' a \<and> \<not> truthy (opt a ''is_read'') \<and> opt a ''id'' \<notin> set notified"

definition notify :: "jsval \<Rightarrow> alert_state \<Rightarrow> alert_state" where
  "notify alert s = s\<lparr>al_calls := al_calls s @ [alert], al_notified := opt alert ''id'' # al_notified s\<rparr>"

text \<open>A poll: \<open>has_callback\<close> says whether \<open>onCriticalAlert\<close> was given; alerts that are \<open>null\<close> make the filter throw.\<close>

definition fetchAlerts :: "bool \<Rightarrow> jsval result \<Rightarrow> alert_state \<Rightarrow> alert_state" where
  "fetchAlerts has_callback outcome s =
     (let s' =
        (case outcome of
           Inl e \<Rightarrow> s\<lparr>al_error := caught e\<rparr>
         | Inr data \<Rightarrow>
             let s1 = s\<lparr>al_alerts := js_or data (Arr []), al_error := Null\<rparr>
             in if has_callback \<and> truthy data \<and> to_number (opt data ''length'') > Fin 0 then
                  (case data of
                     Arr xs \<Rightarrow>
                       if list_ex nullish xs then s1\<lparr>al_error := caught TypeError\<rparr>
                       else fold notify (filter (new_critical (al_notified s1)) xs) s1
                   | _ \<Rightarrow> s1\<lparr>al_error := caught TypeError\<rparr>)
                else s1)
      in s'\<lparr>al_loading := False\<rparr>)"

definition alert_list :: "alert_state \<Rightarrow> jsval list" where
  "alert_list s = (case al_alerts s of Arr xs \<Rightarrow> xs | _ \<Rightarrow> [])"

definition unreadCount :: "alert_state \<Rightarrow> nat" where
  "unreadCount s = length (filter (\<lambda>a. \<not> truthy (opt a ''is_read'')) (alert_list s))"

definition count_of :: "string \<Rightarrow> alert_state \<Rightarrow> nat" where
  "count_of level s =
     length (filter (\<lambda>a. severity_is level a \<and> \<not> truthy (opt a ''is_read'')) (alert_list s))"

definition criticalCount :: "alert_state \<Rightarrow> nat" where "criticalCount = count_of ''CRITICAL''"
definition warningCount :: "alert_state \<Rightarrow> nat" where "warningCount = count_of ''WARNING''"
definition hasCritical :: "alert_state \<Rightarrow> bool" where "hasCritical s \<longleftrightarrow> 0 < criticalCount s"
definition hasWarning :: "alert_state \<Rightarrow> bool" where "hasWarning s \<longleftrightarrow> 0 < warningCount s"

section \<open>Properties\<close>

definition ids :: "jsval list \<Rightarrow> jsval list" where
  "ids xs = map (\<lambda>a. opt a ''id'') xs"

definition distinct_answer :: "jsval result \<Rightarrow> bool" where
  "distinct_answer outcome \<longleftrightarrow> (\<forall>xs. outcome = Inr (Arr xs) \<longrightarrow> distinct (ids xs))"

definition alert_inv :: "alert_state \<Rightarrow> bool" where
  "alert_inv s \<longleftrightarrow> distinct (ids (al_calls s)) \<and> set (al_notified s) = set (ids (al_calls s))"

lemma notify_all:
  "al_calls (fold notify xs s) = al_calls s @ xs \<and> set (al_notified (fold notify xs s)) = set (ids xs) \<union> set (al_notified s)"
  by (induction xs arbitrary: s) (auto simp: notify_def ids_def)

lemma ids_filter: "distinct (ids xs) \<Longrightarrow> distinct (ids (filter P xs))"
  by (induction xs) (auto simp: ids_def)

lemma fetchAlerts_inv: "alert_inv s \<Longrightarrow> distinct_answer outcome \<Longrightarrow> alert_inv (fetchAlerts b outcome s)"
proof -
  assume inv: "alert_inv s" and d: "distinct_answer outcome"
  have new: "alert_inv (fold notify (filter (new_critical (al_notified t)) xs) t)"
    if t: "alert_inv t" "distinct (ids xs)" for t xs
  proof -
    let ?new = "filter (new_critical (al_notified t)) xs"
    have "distinct (ids ?new)" using t(2) by (rule ids_filter)
    moreover have "set (ids ?new) \<inter> set (al_notified t) = {}" by (auto simp: ids_def new_critical_def)
    ultimately show ?thesis using t(1) notify_all [of ?new t]
      by (simp add: alert_inv_def ids_def) blast
  qed
  show ?thesis
  proof (cases outcome)
    case (Inl e)
    then show ?thesis using inv by (simp add: fetchAlerts_def alert_inv_def)
  next
    case (Inr data)
    show ?thesis
    proof (cases data)
      case (Arr xs)
      have "alert_inv (s\<lparr>al_alerts := Arr xs, al_error := Null\<rparr>)" using inv by (simp add: alert_inv_def)
      from new [OF this, of xs] show ?thesis
        using inv d Inr Arr by (auto simp: fetchAlerts_def alert_inv_def distinct_answer_def Let_def)
    qed (use inv Inr in \<open>auto simp: fetchAlerts_def alert_inv_def Let_def\<close>)
  qed
qed

text \<open>However often the alerts are polled, and whatever the answers are as long as one answer does not list
  an id twice, each critical alert is announced at most once, and polling ends the loading state.\<close>

theorem alerts_announced_once:
  assumes "\<forall>outcome \<in> set outcomes. distinct_answer outcome" and "outcomes \<noteq> []"
  shows "distinct (ids (al_calls (fold (fetchAlerts b) outcomes alerts_initial)))
       \<and> \<not> al_loading (fold (fetchAlerts b) outcomes alerts_initial)"
proof -
  have "alert_inv (fold (fetchAlerts b) rs s)" if "\<forall>r \<in> set rs. distinct_answer r" "alert_inv s" for rs s
    using that by (induction rs arbitrary: s) (auto intro: fetchAlerts_inv)
  moreover have "alert_inv alerts_initial" by (simp add: alert_inv_def alerts_initial_def ids_def)
  ultimately have "alert_inv (fold (fetchAlerts b) outcomes alerts_initial)" using assms(1) by blast
  moreover have "\<not> al_loading (fold (fetchAlerts b) outcomes alerts_initial)"
    using assms(2) by (cases outcomes rule: rev_cases) (auto simp: fetchAlerts_def Let_def)
  ultimately show ?thesis by (simp add: alert_inv_def)
qed

definition margin_call :: jsval where
  "margin_call = Obj [(''id'', Str ''a1''), (''severity'', Str ''critical''), (''is_read'', Bool False)]"

theorem alerts_announced_once_witness:
  "distinct (ids (al_calls (fold (fetchAlerts True) [Inr (Arr [margin_call]), Inl TypeError, Inr (Arr [margin_call])]
      alerts_initial)))"
  using alerts_announced_once [of "[Inr (Arr [margin_call]), Inl TypeError, Inr (Arr [margin_call])]" True]
  by (simp add: distinct_answer_def ids_def)

text \<open>An answer that lists an id twice announces it twice.\<close>

lemma repeated_alert_announced_twice:
  "al_calls (fetchAlerts True (Inr (Arr [margin_call, margin_call])) alerts_initial) = [margin_call, margin_call]"
  by (simp add: fetchAlerts_def alerts_initial_def margin_call_def new_critical_def severity_is_def ALERT_SEVERITY_def
      notify_def Let_def jint_small)

end
