(* ===== verification/Chart_Accuracy.thy ===== *)
theory Chart_Accuracy
  imports Highlights Js_Http
begin

text \<open>
  The chart of accuracy (src/hooks/useChartOfAccuracy.js): the strength of support and resistance, the nine
  scenarios, the trading levels, and the hook that prefers the backend's answer.  Open interest, its change
  and prices are numbers where they are given.
\<close>

section \<open>The strength of one side\<close>

definition coa_depth :: "jsnum \<Rightarrow> jsnum \<Rightarrow> string \<Rightarrow> jsnum" where
  "coa_depth strike atmStrike side =
     (if \<not> num_truthy atmStrike then Fin 0
      else if side = ''ce''
        then (if strike < atmStrike then jround ((atmStrike - strike) / N 50) else Fin 0)
        else (if strike > atmStrike then jround ((strike - atmStrike) / N 50) else Fin 0))"

record strike_info =
  k_strike :: jsnum
  k_oi :: jsnum
  k_oiChng :: jsnum
  k_ltp :: jsnum
  k_itmDepth :: jsnum
  k_isValid :: bool

definition strike_info_of :: "jsnum \<Rightarrow> string \<Rightarrow> string \<Rightarrow> jsval \<Rightarrow> strike_info" where
  "strike_info_of atmStrike side strikeKey sideData =
     (let strike = parse_float strikeKey; itmDepth = coa_depth strike atmStrike side
      in \<lparr>k_strike = strike, k_oi = either_num sideData [''OI'', ''oi''],
          k_oiChng = either_num sideData [''oichng'', ''oi_change''], k_ltp = either_num sideData [''ltp''],
          k_itmDepth = itmDepth, k_isValid = (itmDepth \<le> N 2)\<rparr>)"

text \<open>The loop over the entries; an entry that is \<open>null\<close> makes it throw.\<close>

fun side_strikes :: "jsnum \<Rightarrow> string \<Rightarrow> (string \<times> jsval) list \<Rightarrow> strike_info list result" where
  "side_strikes atmStrike side [] = Inr []"
| "side_strikes atmStrike side ((strikeKey, data) # rest) =
     res_bind (get data side) (\<lambda>sideData.
     res_bind (side_strikes atmStrike side rest) (\<lambda>strikes.
       let i = strike_info_of atmStrike side strikeKey sideData
       in Inr (if truthy sideData \<and> k_oi i > Fin 0 then i # strikes else strikes)))"

record side_strength =
  r_strength :: string
  r_strike100 :: jsnum
  r_strike2nd :: "jsnum option"
  r_oi_pct100 :: jsnum
  r_oi_pct2nd :: jsnum
  r_oi100 :: jsnum
  r_oi2nd :: jsnum
  r_oichng100 :: jsnum
  r_oichng2nd :: jsnum

definition strength_of :: "string \<Rightarrow> jsnum \<Rightarrow> strike_info \<Rightarrow> strike_info option \<Rightarrow> string" where
  "strength_of side maxOI strike100 strike2nd =
     (case strike2nd of
        None \<Rightarrow> ''Strong''
      | Some second \<Rightarrow>
          if k_oi second / maxOI * N 100 \<ge> N 75 then
            let is100Weakening = (k_oiChng strike100 < Fin 0); is2ndStrengthening = (k_oiChng second > Fin 0)
            in if k_strike second > k_strike strike100 \<and> is2ndStrengthening then ''WTT''
               else if is100Weakening \<or> (k_strike second < k_strike strike100 \<and> is2ndStrengthening) then ''WTB''
               else if side = ''ce'' then ''WTT'' else ''WTB''
          else ''Strong'')"

definition by_oi_order :: "strike_info list \<Rightarrow> strike_info list" where
  "by_oi_order strikes = js_sort (\<lambda>a b. k_oi b - k_oi a) strikes"

definition side_result :: "string \<Rightarrow> jsnum \<Rightarrow> strike_info list \<Rightarrow> side_strength" where
  "side_result side maxOI withPct =
     (let strike100 = hd withPct;
          strike2nd = (if 1 < length withPct then Some (withPct ! 1) else None);
          second = (\<lambda>f d. case strike2nd of Some s \<Rightarrow> num_or (f s) d | None \<Rightarrow> d);
          pct = (\<lambda>s. k_oi s / maxOI * N 100)
      in \<lparr>r_strength = strength_of side maxOI strike100 strike2nd, r_strike100 = k_strike strike100,
          r_strike2nd = (case strike2nd of
             Some s \<Rightarrow> if num_truthy (k_strike s) then Some (k_strike s) else None | None \<Rightarrow> None),
          r_oi_pct100 = pct strike100, r_oi_pct2nd = second pct (Fin 0), r_oi100 = k_oi strike100,
          r_oi2nd = second k_oi (Fin 0), r_oichng100 = k_oiChng strike100, r_oichng2nd = second k_oiChng (Fin 0)\<rparr>)"

definition calculateSideStrengthLocal :: "jsval \<Rightarrow> jsnum \<Rightarrow> string \<Rightarrow> side_strength option result" where
  "calculateSideStrengthLocal optionChain atmStrike side =
     (if \<not> truthy optionChain then Inr None
      else res_bind (side_strikes atmStrike side (entries optionChain)) (\<lambda>strikes.
        let validStrikes = filter k_isValid strikes; maxOI = max_of (map k_oi validStrikes)
        in Inr (if strikes = [] \<or> validStrikes = [] \<or> num_eq maxOI (Fin 0) then None
                else Some (side_result side maxOI (by_oi_order strikes)))))"

section \<open>Scenarios\<close>

record scenario =
  z_id :: string
  z_bias :: string
  z_name :: string
  z_tradable :: string

definition scenarios :: "(string \<times> scenario) list" where
  "scenarios =
     [(''Strong_Strong'', \<lparr>z_id = ''1.0'', z_bias = ''neutral'', z_name = ''Strong Both'', z_tradable = ''both''\<rparr>),
      (''Strong_WTB'', \<lparr>z_id = ''1.1'', z_bias = ''bearish'', z_name = ''Bearish Pressure'', z_tradable = ''short''\<rparr>),
      (''Strong_WTT'', \<lparr>z_id = ''1.2'', z_bias = ''bullish'', z_name = ''Bullish Pressure'', z_tradable = ''long''\<rparr>),
      (''WTB_Strong'', \<lparr>z_id = ''1.3'', z_bias = ''bearish'', z_name = ''Support Weakness'', z_tradable = ''short''\<rparr>),
      (''WTT_Strong'', \<lparr>z_id = ''1.4'', z_bias = ''bullish'', z_name = ''Support Strength'', z_tradable = ''long''\<rparr>),
      (''WTB_WTB'', \<lparr>z_id = ''1.5'', z_bias = ''bearish'', z_name = ''Blood Bath'', z_tradable = ''short''\<rparr>),
      (''WTT_WTT'', \<lparr>z_id = ''1.6'', z_bias = ''bullish'', z_name = ''Bull Run'', z_tradable = ''long''\<rparr>),
      (''WTB_WTT'', \<lparr>z_id = ''1.7'', z_bias = ''unclear'', z_name = ''Not Tradable'', z_tradable = ''none''\<rparr>),
      (''WTT_WTB'', \<lparr>z_id = ''1.8'', z_bias = ''unclear'', z_name = ''Not Tradable'', z_tradable = ''none''\<rparr>)]"

definition classifyScenarioLocal :: "string \<Rightarrow> string \<Rightarrow> scenario" where
  "classifyScenarioLocal s r =
     (case map_of scenarios (s @ ''_'' @ r) of
        Some z \<Rightarrow> z
      | None \<Rightarrow> \<lparr>z_id = ''?'', z_bias = ''unknown'', z_name = ''Unknown'', z_tradable = ''none''\<rparr>)"

section \<open>Levels and the local analysis\<close>

record levels =
  v_eos :: jsnum
  v_eor :: jsnum
  v_eos_plus1 :: jsnum
  v_eos_minus1 :: jsnum
  v_eor_plus1 :: jsnum
  v_eor_minus1 :: jsnum
  v_top :: "jsnum option"
  v_bottom :: "jsnum option"
  v_trade_at_eos :: bool
  v_trade_at_eor :: bool

definition levels_of :: "scenario \<Rightarrow> jsnum \<Rightarrow> jsnum \<Rightarrow> levels" where
  "levels_of z eos eor =
     \<lparr>v_eos = eos, v_eor = eor, v_eos_plus1 = eos + N 50, v_eos_minus1 = eos - N 50,
      v_eor_plus1 = eor + N 50, v_eor_minus1 = eor - N 50,
      v_top = (if z_tradable z \<noteq> ''long'' then Some eor else None),
      v_bottom = (if z_tradable z \<noteq> ''short'' then Some eos else None),
      v_trade_at_eos = (z_tradable z \<in> {''both'', ''long''}), v_trade_at_eor = (z_tradable z \<in> {''both'', ''short''})\<rparr>"

text \<open>The price of the option at a strike moves the level: \<open>optionChain[strike]?.side\<close>.\<close>

definition extension :: "jsval \<Rightarrow> jsnum \<Rightarrow> string \<Rightarrow> jsnum option" where
  "extension optionChain strike side =
     (let d = opt (opt optionChain (num_to_string strike)) side
      in if truthy d then Some (either_num d [''ltp'']) else None)"

definition recommendation :: "string \<Rightarrow> jsnum \<Rightarrow> jsnum \<Rightarrow> string" where
  "recommendation ident eos eor =
     (case map_of
        [(''1.0'', ''Trade reversals from both EOS ('' @ to_fixed 0 eos @ '') and EOR ('' @ to_fixed 0 eor @ '').''),
         (''1.1'', ''Bearish. Short at EOR ('' @ to_fixed 0 eor @ ''). Avoid longs.''),
         (''1.2'', ''Bullish. Long at EOS ('' @ to_fixed 0 eos @ ''). Avoid shorts.''),
         (''1.3'', ''Bearish. Support weakening. Short at EOR ('' @ to_fixed 0 eor @ '').''),
         (''1.4'', ''Bullish. Support strong. Long at EOS ('' @ to_fixed 0 eos @ '').''),
         (''1.5'', [CHR 0xF0, CHR 0x9F, CHR 0xA9, CHR 0xB8] @ '' Blood bath! Only shorts. No longs.''),
         (''1.6'', [CHR 0xF0, CHR 0x9F, CHR 0x9A, CHR 0x80] @ '' Bull run! Only longs. No shorts.''),
         (''1.7'', [CHR 0xE2, CHR 0x9A, CHR 0xA0, CHR 0xEF, CHR 0xB8, CHR 0x8F] @ '' Not tradable. Both sides unstable.''),
         (''1.8'', [CHR 0xE2, CHR 0x9A, CHR 0xA0, CHR 0xEF, CHR 0xB8, CHR 0x8F] @ '' Not tradable. Both sides unstable.'')]
        ident of Some s \<Rightarrow> s | None \<Rightarrow> ''Unknown'')"

record typed_side = side_strength + r_type :: string

record coa =
  o_scenario :: scenario
  o_support :: typed_side
  o_resistance :: typed_side
  o_levels :: levels
  o_recommendation :: string
  o_spotPrice :: jsnum
  o_atmStrike :: jsnum
  o_source :: string

definition local_coa :: "jsval \<Rightarrow> jsnum \<Rightarrow> jsnum \<Rightarrow> side_strength \<Rightarrow> side_strength \<Rightarrow> coa" where
  "local_coa optionChain spotPrice atmStrike support resistance =
     (let z = classifyScenarioLocal (r_strength support) (r_strength resistance);
          eos = (case extension optionChain (r_strike100 support) ''pe'' of
                   Some ltp \<Rightarrow> r_strike100 support - ltp | None \<Rightarrow> r_strike100 support);
          eor = (case extension optionChain (r_strike100 resistance) ''ce'' of
                   Some ltp \<Rightarrow> r_strike100 resistance + ltp | None \<Rightarrow> r_strike100 resistance)
      in \<lparr>o_scenario = z,
          o_support = side_strength.extend support \<lparr>r_type = ''Support (PE)''\<rparr>,
          o_resistance = side_strength.extend resistance \<lparr>r_type = ''Resistance (CE)''\<rparr>,
          o_levels = levels_of z eos eor, o_recommendation = recommendation (z_id z) eos eor,
          o_spotPrice = spotPrice, o_atmStrike = atmStrike, o_source = ''local''\<rparr>)"

definition calculateLocalCOA :: "jsval \<Rightarrow> jsnum \<Rightarrow> jsnum \<Rightarrow> coa option result" where
  "calculateLocalCOA optionChain spotPrice atmStrike =
     (if \<not> truthy optionChain \<or> \<not> num_truthy spotPrice \<or> \<not> num_truthy atmStrike then Inr None
      else
        res_bind (calculateSideStrengthLocal optionChain atmStrike ''pe'') (\<lambda>support.
        res_bind (calculateSideStrengthLocal optionChain atmStrike ''ce'') (\<lambda>resistance.
          Inr (case (support, resistance) of
                 (Some s, Some r) \<Rightarrow> Some (local_coa optionChain spotPrice atmStrike s r) | _ \<Rightarrow> None))))"

section \<open>The hook\<close>

record coa_state =
  y_apiData :: jsval
  y_coa_loading :: bool
  y_coa_error :: jsval

definition coa_initial :: coa_state where
  "coa_initial = \<lparr>y_apiData = Null, y_coa_loading = False, y_coa_error = Null\<rparr>"

definition coa_symbol :: "jsval \<Rightarrow> jsval" where
  "coa_symbol data = js_or (opt data ''sid'') (Str ''NIFTY'')"

definition fetchCOA_begin :: "jsval \<Rightarrow> jsval \<Rightarrow> coa_state \<Rightarrow> http_request option \<times> coa_state" where
  "fetchCOA_begin symbol expiry s =
     (if \<not> truthy symbol then (None, s)
      else (Some (http_get (''/analytics/'' @ js_to_string symbol @ ''/coa'')
                    (Obj (if truthy expiry then [(''expiry'', expiry)] else []))),
            s\<lparr>y_coa_loading := True, y_coa_error := Null\<rparr>))"

definition fetchCOA_end :: "jsval result \<Rightarrow> coa_state \<Rightarrow> coa_state" where
  "fetchCOA_end outcome s =
     (case response_data outcome of
        Inl e \<Rightarrow> s\<lparr>y_coa_error := caught e, y_apiData := Null, y_coa_loading := False\<rparr>
      | Inr d \<Rightarrow>
          (if truthy (opt d ''success'') then s\<lparr>y_apiData := spread d [(''source'', Str ''api'')]\<rparr> else s)
            \<lparr>y_coa_loading := False\<rparr>)"

datatype coa_result = From_api jsval | From_chain "coa option"

text \<open>What the hook returns; the local analysis may throw during the render.\<close>

definition useChartOfAccuracy :: "jsval \<Rightarrow> jsnum \<Rightarrow> jsnum \<Rightarrow> coa_state \<Rightarrow> coa_result result" where
  "useChartOfAccuracy optionChain spotPrice atmStrike s =
     res_bind (calculateLocalCOA optionChain spotPrice atmStrike) (\<lambda>localData.
       Inr (if truthy (y_apiData s) \<and> \<not> truthy (y_coa_error s) then From_api (y_apiData s)
            else From_chain localData))"

section \<open>The strongest strike\<close>

interpretation by_oi: descending_by k_oi .

text \<open>The first strike in the order has the largest open interest.\<close>

lemma by_oi_order_facts:
  assumes "\<forall>s \<in> set ss. fin_double (k_oi s)" and "ss \<noteq> []"
  shows "by_oi_order ss \<noteq> []" and "set (by_oi_order ss) = set ss" and "hd (by_oi_order ss) \<in> set ss"
    and "t \<in> set ss \<Longrightarrow> k_oi t \<le> k_oi (hd (by_oi_order ss))"
proof -
  show set: "set (by_oi_order ss) = set ss" by (simp add: by_oi_order_def)
  show ne: "by_oi_order ss \<noteq> []" using set assms(2) by (metis set_empty)
  show hd: "hd (by_oi_order ss) \<in> set ss" using set ne by (metis hd_in_set)
  assume t: "t \<in> set ss"
  have le: "k_oi x \<le> k_oi x" if "x \<in> set ss" for x using that assms(1) by (auto simp: fin_double_def)
  obtain x xs where order: "by_oi_order ss = x # xs" using ne by (cases "by_oi_order ss") auto
  have "sorted_wrt (\<lambda>a b. k_oi b \<le> k_oi a) (by_oi_order ss)"
    unfolding by_oi_order_def using assms(1) by (intro by_oi.sorted_keys) auto
  moreover have "t \<in> set (by_oi_order ss)" by (simp only: set t)
  ultimately show "k_oi t \<le> k_oi (hd (by_oi_order ss))" using le [OF t] by (auto simp: order)
qed

lemma side_strikes_positive: "side_strikes atm side es = Inr ss \<Longrightarrow> s \<in> set ss \<Longrightarrow> k_oi s > Fin 0"
proof (induction es arbitrary: ss)
  case (Cons e es)
  then show ?case
    by (cases e) (auto simp: res_bind_def Let_def split: sum.splits if_splits)
qed simp

lemma strength_cases: "strength_of side m a b \<in> {''Strong'', ''WTB'', ''WTT''}"
  by (simp add: strength_of_def Let_def split: option.split)

lemma second_pct: "Fin 75 \<le> num_or x (Fin 0) \<longleftrightarrow> Fin 75 \<le> x"
  by (cases x) (auto simp: num_or_def)

lemma strong_iff:
  "r_strength (side_result side m xs) = ''Strong'' \<longleftrightarrow> \<not> r_oi_pct2nd (side_result side m xs) \<ge> N 75"
  by (simp add: side_result_def strength_of_def Let_def second_pct split: option.split)

text \<open>
  What one side of the chain gives: nothing exactly when no strike with open interest is at most two steps
  in the money; otherwise the strike with the largest open interest of all, and the side is strong
  exactly when the second strike has less than 75 per cent of the largest valid open interest.
\<close>

lemma side_strength_spec:
  assumes "side_strikes atm side (entries oc) = Inr ss" and "truthy oc"
    and "\<forall>s \<in> set ss. fin_double (k_oi s)"
  shows "calculateSideStrengthLocal oc atm side = Inr None \<longleftrightarrow> (\<forall>s \<in> set ss. \<not> k_isValid s)"
    and "calculateSideStrengthLocal oc atm side = Inr (Some r) \<Longrightarrow>
         (\<exists>s \<in> set ss. r_strike100 r = k_strike s \<and> r_oi100 r = k_oi s \<and> (\<forall>t \<in> set ss. k_oi t \<le> k_oi s))
         \<and> r_strength r \<in> {''Strong'', ''WTB'', ''WTT''}
         \<and> (r_strength r = ''Strong'' \<longleftrightarrow> \<not> r_oi_pct2nd r \<ge> N 75)"
proof -
  let ?valid = "filter k_isValid ss"
  have nonzero: "\<not> num_eq (max_of (map k_oi ?valid)) (Fin 0)" if s: "s \<in> set ss" "k_isValid s" for s
  proof -
    obtain a where a: "k_oi s = Fin a" using assms(3) s by (auto simp: fin_double_def)
    have "\<forall>x \<in> set (map k_oi ?valid). \<exists>q. x = Fin q" using assms(3) by (auto simp: fin_double_def)
    moreover have "Fin a \<in> set (map k_oi ?valid)" using s a by (auto simp: image_iff intro!: bexI [of _ s])
    ultimately obtain m where "max_of (map k_oi ?valid) = Fin m" "a \<le> m" using max_of_upper by blast
    moreover have "0 < a" using side_strikes_positive [OF assms(1) s(1)] a by simp
    ultimately show ?thesis by (simp add: num_eq_def)
  qed
  show "calculateSideStrengthLocal oc atm side = Inr None \<longleftrightarrow> (\<forall>s \<in> set ss. \<not> k_isValid s)"
    using assms(1,2) nonzero by (auto simp: calculateSideStrengthLocal_def Let_def filter_empty_conv)
  assume "calculateSideStrengthLocal oc atm side = Inr (Some r)"
  then have ne: "ss \<noteq> []" and r: "r = side_result side (max_of (map k_oi ?valid)) (by_oi_order ss)"
    using assms(1,2) by (auto simp: calculateSideStrengthLocal_def Let_def split: if_splits)
  have "r_strike100 r = k_strike (hd (by_oi_order ss))" "r_oi100 r = k_oi (hd (by_oi_order ss))"
    by (simp_all add: r side_result_def Let_def)
  moreover have "r_strength r \<in> {''Strong'', ''WTB'', ''WTT''}"
    using strength_cases by (simp add: r side_result_def Let_def)
  moreover have "r_strength r = ''Strong'' \<longleftrightarrow> \<not> r_oi_pct2nd r \<ge> N 75" unfolding r by (rule strong_iff)
  ultimately show "(\<exists>s \<in> set ss. r_strike100 r = k_strike s \<and> r_oi100 r = k_oi s \<and> (\<forall>t \<in> set ss. k_oi t \<le> k_oi s))
         \<and> r_strength r \<in> {''Strong'', ''WTB'', ''WTT''}
         \<and> (r_strength r = ''Strong'' \<longleftrightarrow> \<not> r_oi_pct2nd r \<ge> N 75)"
    using by_oi_order_facts [OF assms(3) ne] by blast
qed

section \<open>The nine scenarios\<close>

lemma scenario_table:
  "z_tradable (classifyScenarioLocal ''Strong'' ''Strong'') = ''both''"
  "z_tradable (classifyScenarioLocal ''Strong'' ''WTB'') = ''short''"
  "z_tradable (classifyScenarioLocal ''Strong'' ''WTT'') = ''long''"
  "z_tradable (classifyScenarioLocal ''WTB'' ''Strong'') = ''short''"
  "z_tradable (classifyScenarioLocal ''WTB'' ''WTB'') = ''short''"
  "z_tradable (classifyScenarioLocal ''WTB'' ''WTT'') = ''none''"
  "z_tradable (classifyScenarioLocal ''WTT'' ''Strong'') = ''long''"
  "z_tradable (classifyScenarioLocal ''WTT'' ''WTB'') = ''none''"
  "z_tradable (classifyScenarioLocal ''WTT'' ''WTT'') = ''long''"
  "z_id (classifyScenarioLocal ''Strong'' ''Strong'') = ''1.0''"
  "z_id (classifyScenarioLocal ''Strong'' ''WTB'') = ''1.1''"
  "z_id (classifyScenarioLocal ''Strong'' ''WTT'') = ''1.2''"
  "z_id (classifyScenarioLocal ''WTB'' ''Strong'') = ''1.3''"
  "z_id (classifyScenarioLocal ''WTB'' ''WTB'') = ''1.5''"
  "z_id (classifyScenarioLocal ''WTB'' ''WTT'') = ''1.7''"
  "z_id (classifyScenarioLocal ''WTT'' ''Strong'') = ''1.4''"
  "z_id (classifyScenarioLocal ''WTT'' ''WTB'') = ''1.8''"
  "z_id (classifyScenarioLocal ''WTT'' ''WTT'') = ''1.6''"
  by code_simp+

lemma strength_elim:
  assumes "s \<in> {''Strong'', ''WTB'', ''WTT''}" and "P ''Strong''" and "P ''WTB''" and "P ''WTT''"
  shows "P s"
  using assms by auto

lemma scenario_cases:
  assumes "s \<in> {''Strong'', ''WTB'', ''WTT''}" and "r \<in> {''Strong'', ''WTB'', ''WTT''}"
  shows "z_tradable (classifyScenarioLocal s r) \<in> {''both'', ''long''} \<longleftrightarrow> ''WTB'' \<notin> {s, r}"
    and "z_tradable (classifyScenarioLocal s r) \<in> {''both'', ''short''} \<longleftrightarrow> ''WTT'' \<notin> {s, r}"
    and "z_tradable (classifyScenarioLocal s r) = ''long'' \<longleftrightarrow> ''WTT'' \<in> {s, r} \<and> ''WTB'' \<notin> {s, r}"
    and "z_tradable (classifyScenarioLocal s r) = ''short'' \<longleftrightarrow> ''WTB'' \<in> {s, r} \<and> ''WTT'' \<notin> {s, r}"
  by (rule strength_elim [OF assms(1)]; rule strength_elim [OF assms(2)]; simp add: scenario_table)+

lemma recommendation_known:
  assumes "s \<in> {''Strong'', ''WTB'', ''WTT''}" and "r \<in> {''Strong'', ''WTB'', ''WTT''}"
  shows "recommendation (z_id (classifyScenarioLocal s r)) x y \<noteq> ''Unknown''"
  by (rule strength_elim [OF assms(1)]; rule strength_elim [OF assms(2)]; simp add: scenario_table recommendation_def)

lemma extended_side [simp]:
  "r_strike100 (side_strength.extend s m) = r_strike100 s" "r_strength (side_strength.extend s m) = r_strength s"
  "r_oi100 (side_strength.extend s m) = r_oi100 s"
  by (cases s, simp add: side_strength.defs)+

text \<open>
  C25: The local analysis of a chain: support and resistance are the strikes with the largest open interest of
  their side; every pair of strengths is one of the nine documented scenarios and has a recommendation;
  buying at the support level is allowed exactly when neither side weakens towards the bottom, selling at
  the resistance level exactly when neither weakens towards the top; and a target is left out exactly
  in the scenarios of one direction.
\<close>

theorem local_analysis:
  assumes "calculateLocalCOA oc spot atm = Inr (Some c)"
    and "side_strikes atm ''pe'' (entries oc) = Inr ps" and "side_strikes atm ''ce'' (entries oc) = Inr cs"
    and "\<forall>s \<in> set ps \<union> set cs. fin_double (k_oi s)"
    and "S = r_strength (o_support c)" and "R = r_strength (o_resistance c)" and "l = o_levels c"
  shows "(\<exists>s \<in> set ps. r_strike100 (o_support c) = k_strike s \<and> (\<forall>t \<in> set ps. k_oi t \<le> k_oi s))
       \<and> (\<exists>s \<in> set cs. r_strike100 (o_resistance c) = k_strike s \<and> (\<forall>t \<in> set cs. k_oi t \<le> k_oi s))
       \<and> {S, R} \<subseteq> {''Strong'', ''WTB'', ''WTT''} \<and> o_recommendation c \<noteq> ''Unknown''
       \<and> (v_trade_at_eos l \<longleftrightarrow> ''WTB'' \<notin> {S, R}) \<and> (v_trade_at_eor l \<longleftrightarrow> ''WTT'' \<notin> {S, R})
       \<and> (v_top l = None \<longleftrightarrow> ''WTT'' \<in> {S, R} \<and> ''WTB'' \<notin> {S, R})
       \<and> (v_bottom l = None \<longleftrightarrow> ''WTB'' \<in> {S, R} \<and> ''WTT'' \<notin> {S, R})"
proof -
  have "truthy oc" using assms(1) by (auto simp: calculateLocalCOA_def split: if_splits)
  from assms(1) obtain s r where sr: "calculateSideStrengthLocal oc atm ''pe'' = Inr (Some s)"
    "calculateSideStrengthLocal oc atm ''ce'' = Inr (Some r)" "c = local_coa oc spot atm s r"
    by (auto simp: calculateLocalCOA_def res_bind_def split: if_splits sum.splits option.splits)
  have oi: "\<forall>s \<in> set ps. fin_double (k_oi s)" "\<forall>s \<in> set cs. fin_double (k_oi s)" using assms(4) by auto
  note support = side_strength_spec(2) [OF assms(2) \<open>truthy oc\<close> oi(1) sr(1)]
  note resistance = side_strength_spec(2) [OF assms(3) \<open>truthy oc\<close> oi(2) sr(2)]
  have S: "S = r_strength s" "r_strike100 (o_support c) = r_strike100 s"
    and R: "R = r_strength r" "r_strike100 (o_resistance c) = r_strike100 r"
    using assms(5,6) by (simp_all add: sr(3) local_coa_def Let_def)
  have cases: "S \<in> {''Strong'', ''WTB'', ''WTT''}" "R \<in> {''Strong'', ''WTB'', ''WTT''}"
    using support resistance unfolding S(1) R(1) by blast+
  note scenario = scenario_cases [OF cases]
  have known: "o_recommendation c \<noteq> ''Unknown''"
    using recommendation_known [OF cases] by (simp add: sr(3) local_coa_def Let_def S(1) R(1))
  obtain eos eor where "l = levels_of (classifyScenarioLocal S R) eos eor"
    by (simp add: assms(7) sr(3) local_coa_def Let_def S(1) R(1))
  then have flags: "(v_trade_at_eos l \<longleftrightarrow> z_tradable (classifyScenarioLocal S R) \<in> {''both'', ''long''})
      \<and> (v_trade_at_eor l \<longleftrightarrow> z_tradable (classifyScenarioLocal S R) \<in> {''both'', ''short''})
      \<and> (v_top l = None \<longleftrightarrow> z_tradable (classifyScenarioLocal S R) = ''long'')
      \<and> (v_bottom l = None \<longleftrightarrow> z_tradable (classifyScenarioLocal S R) = ''short'')"
    by (simp add: levels_of_def)
  have "(\<exists>x \<in> set ps. r_strike100 (o_support c) = k_strike x \<and> (\<forall>t \<in> set ps. k_oi t \<le> k_oi x))
      \<and> (\<exists>x \<in> set cs. r_strike100 (o_resistance c) = k_strike x \<and> (\<forall>t \<in> set cs. k_oi t \<le> k_oi x))"
    using support resistance unfolding S(2) R(2) by blast
  then show ?thesis using known flags cases unfolding scenario insert_subset by (simp only: empty_subsetI simp_thms)
qed

definition one_strike :: jsval where
  "one_strike =
     Obj [(''100'', Obj [(''ce'', Obj [(''oi'', Num (Fin 50))]), (''pe'', Obj [(''oi'', Num (Fin 80))])])]"

lemma one_strike_sides:
  "side_strikes (Fin 100) ''pe'' (entries one_strike) =
     Inr [\<lparr>k_strike = Fin 100, k_oi = Fin 80, k_oiChng = Fin 0, k_ltp = Fin 0, k_itmDepth = Fin 0, k_isValid = True\<rparr>]"
  "side_strikes (Fin 100) ''ce'' (entries one_strike) =
     Inr [\<lparr>k_strike = Fin 100, k_oi = Fin 50, k_oiChng = Fin 0, k_ltp = Fin 0, k_itmDepth = Fin 0, k_isValid = True\<rparr>]"
  by code_simp+

theorem local_analysis_witness:
  "\<exists>c. calculateLocalCOA one_strike (Fin 101) (Fin 100) = Inr (Some c)
     \<and> (v_trade_at_eos (o_levels c) \<longleftrightarrow> ''WTB'' \<notin> {r_strength (o_support c), r_strength (o_resistance c)})"
proof -
  obtain s r where "calculateSideStrengthLocal one_strike (Fin 100) ''pe'' = Inr (Some s)"
    "calculateSideStrengthLocal one_strike (Fin 100) ''ce'' = Inr (Some r)"
    using one_strike_sides
    by (simp add: calculateSideStrengthLocal_def max_of_def jmax_def num_eq_def Let_def one_strike_def)
  then obtain c where c: "calculateLocalCOA one_strike (Fin 101) (Fin 100) = Inr (Some c)"
    by (simp add: calculateLocalCOA_def one_strike_def)
  have "\<forall>s \<in> set [\<lparr>k_strike = Fin 100, k_oi = Fin 80, k_oiChng = Fin 0, k_ltp = Fin 0, k_itmDepth = Fin 0, k_isValid = True\<rparr>]
      \<union> set [\<lparr>k_strike = Fin 100, k_oi = Fin 50, k_oiChng = Fin 0, k_ltp = Fin 0, k_itmDepth = Fin 0, k_isValid = True\<rparr>].
      fin_double (k_oi s)" by simp
  from local_analysis [OF c one_strike_sides this refl refl refl] c show ?thesis by blast
qed

section \<open>The answer of the backend\<close>

text \<open>
  When the symbol changes and the backend answers without success, the analysis of the previous symbol
  stays on the screen.
\<close>

lemma unsuccessful_answer_keeps_old_symbol:
  assumes "truthy symbol" and "truthy (y_apiData s)" and "\<not> truthy (opt d ''success'')"
    and "calculateLocalCOA oc spot atm = Inr local"
  shows "useChartOfAccuracy oc spot atm
      (fetchCOA_end (Inr (Obj [(''data'', d)])) (snd (fetchCOA_begin symbol expiry s))) = Inr (From_api (y_apiData s))"
  using assms by (simp add: useChartOfAccuracy_def fetchCOA_end_def fetchCOA_begin_def response_data_def get_def)

end
