(* ===== verification/Multi_Symbol.thy ===== *)
theory Multi_Symbol
  imports Market_Services Options_Service Selectors Highlights
begin

text \<open>
  The multi-symbol hooks: the market overview (src/hooks/useMultiSymbolData.js) with its option chain
  metrics, and the screener (src/hooks/useMultiSymbolScreener.js).  A fetch is a step that starts it and a
  step that finishes it with the backend's answer; the interval and the effects start fetches at any time.
  Numeric fields of a chain are numbers where they are given.
\<close>

section \<open>Metrics of a chain\<close>

definition chain_leg :: "jsval \<Rightarrow> jsnum \<Rightarrow> string \<Rightarrow> jsval" where
  "chain_leg optionChain strike side = opt (opt optionChain (num_to_string strike)) side"

definition leg_oi :: "jsval \<Rightarrow> string \<Rightarrow> jsnum \<Rightarrow> jsnum" where
  "leg_oi oc side strike = either_num (chain_leg oc strike side) [''oi'', ''OI'']"

definition leg_coi :: "jsval \<Rightarrow> string \<Rightarrow> jsnum \<Rightarrow> jsnum" where
  "leg_coi oc side strike = either_num (chain_leg oc strike side) [''coi'', ''COI'', ''oiChange'']"

definition leg_volume :: "jsval \<Rightarrow> string \<Rightarrow> jsnum \<Rightarrow> jsnum" where
  "leg_volume oc side strike = either_num (chain_leg oc strike side) [''volume'', ''Volume'']"

definition chain_strikes :: "jsval \<Rightarrow> jsnum list" where
  "chain_strikes oc = sort_numbers (map parse_float (object_keys oc))"

text \<open>What the writers of the options pay when the price settles at a strike.\<close>

definition pain_step :: "jsval \<Rightarrow> jsnum \<Rightarrow> jsnum \<Rightarrow> jsnum \<Rightarrow> jsnum" where
  "pain_step oc targetStrike totalPain strike =
     (let p1 = (if targetStrike > strike then totalPain + leg_oi oc ''ce'' strike * (targetStrike - strike) else totalPain)
      in if targetStrike < strike then p1 + leg_oi oc ''pe'' strike * (strike - targetStrike) else p1)"

definition total_pain :: "jsval \<Rightarrow> jsnum list \<Rightarrow> jsnum \<Rightarrow> jsnum" where
  "total_pain oc strikes targetStrike = foldl (pain_step oc targetStrike) (Fin 0) strikes"

definition max_pain_strike :: "jsval \<Rightarrow> jsnum list \<Rightarrow> jsnum" where
  "max_pain_strike oc strikes = snd (foldl (argmin_step (total_pain oc strikes)) (PInf, hd strikes) strikes)"

record metrics =
  mt_pcr :: jsnum
  mt_pcrSignal :: string
  mt_pcrVolume :: jsnum
  mt_maxPain :: jsnum
  mt_maxPainDistance :: jsnum
  mt_totalCEOI :: jsnum
  mt_totalPEOI :: jsnum
  mt_totalCECOI :: jsnum
  mt_totalPECOI :: jsnum
  mt_totalCEVolume :: jsnum
  mt_totalPEVolume :: jsnum
  mt_oiSignal :: string
  mt_trend :: string
  mt_trendScore :: int

definition three_way :: "bool \<Rightarrow> bool \<Rightarrow> string" where
  "three_way up down = (if up then ''BULLISH'' else if down then ''BEARISH'' else ''NEUTRAL'')"

definition trend_score :: "jsnum \<Rightarrow> jsnum \<Rightarrow> jsnum \<Rightarrow> jsval \<Rightarrow> jsnum \<Rightarrow> int" where
  "trend_score pcr totalCECOI totalPECOI spot maxPainStrike =
     (if pcr > N (6 / 5) then 2 else if pcr < N (7 / 10) then - 2 else 0)
     + (if totalPECOI > totalCECOI then 1 else if totalCECOI > totalPECOI then - 1 else 0)
     + (if truthy spot \<and> maxPainStrike > to_number spot * N (101 / 100) then 1
        else if truthy spot \<and> maxPainStrike < to_number spot * N (99 / 100) then - 1 else 0)"

definition calculateMetrics :: "jsval \<Rightarrow> jsval \<Rightarrow> metrics option" where
  "calculateMetrics optionChain spot =
     (if \<not> truthy optionChain \<or> object_keys optionChain = [] then None
      else
        let strikes = chain_strikes optionChain;
            total = (\<lambda>f. jsum (map f strikes));
            totalCEOI = total (leg_oi optionChain ''ce''); totalPEOI = total (leg_oi optionChain ''pe'');
            totalCECOI = total (leg_coi optionChain ''ce''); totalPECOI = total (leg_coi optionChain ''pe'');
            totalCEVolume = total (leg_volume optionChain ''ce''); totalPEVolume = total (leg_volume optionChain ''pe'');
            maxPainStrike = max_pain_strike optionChain strikes;
            pcr = (if totalCEOI > Fin 0 then totalPEOI / totalCEOI else Fin 0);
            pcrVolume = (if totalCEVolume > Fin 0 then totalPEVolume / totalCEVolume else Fin 0);
            trendScore = trend_score pcr totalCECOI totalPECOI spot maxPainStrike
        in Some
          \<lparr>mt_pcr = parse_float (to_fixed 3 pcr),
           mt_pcrSignal = three_way (pcr > N (6 / 5)) (pcr < N (7 / 10)),
           mt_pcrVolume = parse_float (to_fixed 3 pcrVolume), mt_maxPain = maxPainStrike,
           mt_maxPainDistance = (if truthy spot then (maxPainStrike - to_number spot) / to_number spot * N 100 else Fin 0),
           mt_totalCEOI = totalCEOI, mt_totalPEOI = totalPEOI, mt_totalCECOI = totalCECOI, mt_totalPECOI = totalPECOI,
           mt_totalCEVolume = totalCEVolume, mt_totalPEVolume = totalPEVolume,
           mt_oiSignal = three_way (totalPECOI > totalCECOI * N (6 / 5)) (totalCECOI > totalPECOI * N (6 / 5)),
           mt_trend = three_way (2 \<le> trendScore) (trendScore \<le> - 2), mt_trendScore = trendScore\<rparr>)"

section \<open>The market overview\<close>

record symbol_data =
  sy_spot :: jsval
  sy_spotChange :: jsval
  sy_spotChangePercent :: jsval
  sy_expiry :: jsval
  sy_atmStrike :: jsval
  sy_atmIV :: jsval
  sy_daysToExpiry :: jsval
  sy_metrics :: "metrics option"
  sy_rawData :: jsval

text \<open>An entry of the hook's data: what was read, or the error.\<close>

type_synonym symbol_entry = "symbol_data option \<times> jsval"

definition read_symbol :: "jsval \<Rightarrow> symbol_data" where
  "read_symbol liveData =
     (let zero = Num (Fin 0); spot_object = opt liveData ''spot'';
          optionChain = js_or (opt liveData ''oc'')
            (js_or (opt (opt (opt liveData ''options'') ''data'') ''oc'') (Obj []));
          spot = js_or (js_or (opt spot_object ''ltp'') (opt liveData ''spot_price'')) spot_object
      in \<lparr>sy_spot = spot, sy_spotChange = js_or (opt spot_object ''change'') zero,
          sy_spotChangePercent = js_or (opt spot_object ''change_percent'') zero,
          sy_expiry = opt liveData ''expiry'', sy_atmStrike = opt liveData ''atm_strike'',
          sy_atmIV = js_or (opt liveData ''atmiv'') (opt liveData ''atm_iv''),
          sy_daysToExpiry = js_or (opt liveData ''days_to_expiry'') (opt liveData ''dte''),
          sy_metrics = calculateMetrics optionChain spot, sy_rawData = liveData\<rparr>)"

definition entry_of :: "jsval \<Rightarrow> symbol_entry" where
  "entry_of liveData =
     (if \<not> truthy liveData \<or> truthy (opt liveData ''error'')
      then (None, js_or (opt liveData ''error'') (Str ''API unavailable''))
      else (Some (read_symbol liveData), Null))"

record multi_state =
  ms_symbols :: jsval
  ms_data :: "(string \<times> symbol_entry) list"
  ms_loading :: bool
  ms_error :: jsval
  ms_lastUpdate :: "int option"
  ms_fetching :: bool
  ms_inflight :: "jsval list"

definition DEFAULT_SYMBOLS :: jsval where
  "DEFAULT_SYMBOLS = Arr [Str ''NIFTY'', Str ''BANKNIFTY'']"

definition multi_initial :: "jsval \<Rightarrow> multi_state" where
  "multi_initial initialSymbols =
     \<lparr>ms_symbols = js_or initialSymbols (Arr []), ms_data = [], ms_loading = True, ms_error = Null,
      ms_lastUpdate = None, ms_fetching = False, ms_inflight = []\<rparr>"

definition some_items :: "jsval \<Rightarrow> bool" where
  "some_items v \<longleftrightarrow> truthy v \<and> to_number (opt v ''length'') > Fin 0"

text \<open>The active symbols arrive; without any, or after an error, the defaults are used.\<close>

definition symbols_loaded :: "jsval result \<Rightarrow> multi_state \<Rightarrow> multi_state" where
  "symbols_loaded outcome s =
     s\<lparr>ms_symbols := (case outcome of
          Inr active \<Rightarrow> if some_items active then active else DEFAULT_SYMBOLS
        | Inl e \<Rightarrow> DEFAULT_SYMBOLS)\<rparr>"

text \<open>\<open>ms_inflight\<close> lists the symbols of the requests that were sent and not answered.\<close>

definition fetchAllSymbols_begin :: "multi_state \<Rightarrow> multi_state" where
  "fetchAllSymbols_begin s =
     (if ms_fetching s \<or> strict_eq (opt (ms_symbols s) ''length'') (Num (Fin 0)) then s
      else s\<lparr>ms_fetching := True, ms_error := Null, ms_inflight := ms_symbols s # ms_inflight s\<rparr>)"

definition newData_of :: "jsval \<Rightarrow> (string \<times> symbol_entry) list" where
  "newData_of batchResponse = fold (\<lambda>k. put k (entry_of (opt batchResponse k))) (object_keys batchResponse) []"

definition fetchAllSymbols_end :: "int \<Rightarrow> jsval \<Rightarrow> jsval result \<Rightarrow> multi_state \<Rightarrow> multi_state" where
  "fetchAllSymbols_end now asked outcome s =
     (case res_bind outcome (\<lambda>batch. if nullish batch then Inl TypeError else Inr batch) of
        Inl e \<Rightarrow> s\<lparr>ms_error := opt (caught e) ''message''\<rparr>
      | Inr batch \<Rightarrow> s\<lparr>ms_data := newData_of batch, ms_lastUpdate := Some now\<rparr>)
     \<lparr>ms_loading := False, ms_fetching := False, ms_inflight := remove1 asked (ms_inflight s)\<rparr>"

section \<open>Totals over the symbols\<close>

definition metrics_in :: "(string \<times> symbol_entry) list \<Rightarrow> metrics list" where
  "metrics_in data = concat (map (\<lambda>(k, d, e). case d of
      Some x \<Rightarrow> (case sy_metrics x of Some m \<Rightarrow> [m] | None \<Rightarrow> []) | None \<Rightarrow> []) data)"

definition sum_metric :: "(metrics \<Rightarrow> jsnum) \<Rightarrow> (string \<times> symbol_entry) list \<Rightarrow> jsnum" where
  "sum_metric f data = foldl (\<lambda>sum d. sum + (case fst (snd d) of
      Some x \<Rightarrow> (case sy_metrics x of Some m \<Rightarrow> num_or (f m) (Fin 0) | None \<Rightarrow> Fin 0) | None \<Rightarrow> Fin 0)) (Fin 0) data"

definition trend_count :: "string \<Rightarrow> (string \<times> symbol_entry) list \<Rightarrow> nat" where
  "trend_count t data = length (filter (\<lambda>m. mt_trend m = t) (metrics_in data))"

record aggregate =
  ag_totalCEOI :: jsnum
  ag_totalPEOI :: jsnum
  ag_totalCECOI :: jsnum
  ag_totalPECOI :: jsnum
  ag_bullishCount :: nat
  ag_bearishCount :: nat
  ag_neutralCount :: nat
  ag_marketSentiment :: string

definition aggregate_of :: "(string \<times> symbol_entry) list \<Rightarrow> aggregate" where
  "aggregate_of data =
     (let bullish = trend_count ''BULLISH'' data; bearish = trend_count ''BEARISH'' data
      in \<lparr>ag_totalCEOI = sum_metric mt_totalCEOI data, ag_totalPEOI = sum_metric mt_totalPEOI data,
          ag_totalCECOI = sum_metric mt_totalCECOI data, ag_totalPECOI = sum_metric mt_totalPECOI data,
          ag_bullishCount = bullish, ag_bearishCount = bearish,
          ag_neutralCount = trend_count ''NEUTRAL'' data,
          ag_marketSentiment = three_way (bullish > bearish + 1) (bearish > bullish + 1)\<rparr>)"

section \<open>The screener\<close>

text \<open>What one symbol yields: its signals, its expiry, its error.\<close>

record scan_result =
  sc_symbol :: string
  sc_signals :: "jsval list"
  sc_expiry :: jsval
  sc_error :: jsval

fun first_item :: "jsval \<Rightarrow> jsval" where
  "first_item (Arr xs) = (case xs of x # _ \<Rightarrow> x | [] \<Rightarrow> Undef)"
| "first_item (Str s) = (case s of c # _ \<Rightarrow> Str [c] | [] \<Rightarrow> Undef)"
| "first_item v = opt v ''0''"

definition screener_call :: "server \<Rightarrow> string \<Rightarrow> jsval \<Rightarrow> jsval result" where
  "screener_call server screenerType p =
     (if screenerType = ''scalp'' then scr_getScalpSignals server p
      else if screenerType = ''positional'' then scr_getPositionalSignals server p
      else if screenerType = ''sr'' then scr_getSRSignals server p
      else scr_getScalpSignals server p)"

text \<open>\<open>signals.map(sig => ({...sig, symbol, expiry}))\<close>; only arrays have \<open>map\<close>.\<close>

definition tag_signals :: "string \<Rightarrow> jsval \<Rightarrow> jsval \<Rightarrow> jsval list result" where
  "tag_signals symbol expiry signals =
     (case signals of
        Arr xs \<Rightarrow> Inr (map (\<lambda>sig. spread sig [(''symbol'', Str symbol), (''expiry'', expiry)]) xs)
      | _ \<Rightarrow> Inl TypeError)"

text \<open>One symbol: the expiry dates (\<open>expiries\<close> is what the options service answers), then the signals.\<close>

definition scan_symbol :: "(string \<Rightarrow> jsval result) \<Rightarrow> server \<Rightarrow> string \<Rightarrow> string \<Rightarrow> scan_result" where
  "scan_symbol expiries server screenerType symbol =
     (let failed = \<lparr>sc_symbol = symbol, sc_signals = [], sc_expiry = Undef, sc_error = Str ''API unavailable''\<rparr>
      in case expiries symbol of
           Inl e \<Rightarrow> failed
         | Inr r \<Rightarrow>
             let dates = js_or (js_or (opt (opt r ''data'') ''expiry_dates'') (opt r ''expiry_dates'')) (Arr [])
             in if strict_eq (opt dates ''length'') (Num (Fin 0))
                then \<lparr>sc_symbol = symbol, sc_signals = [], sc_expiry = Undef, sc_error = Str ''No expiries''\<rparr>
                else
                  let nearestExpiry = first_item dates
                  in case res_bind (screener_call server screenerType
                             (Obj [(''symbol'', Str symbol), (''expiry'', nearestExpiry)]))
                           (\<lambda>response. tag_signals symbol nearestExpiry (js_or (opt response ''signals'') (Arr []))) of
                       Inl e \<Rightarrow> failed
                     | Inr sigs \<Rightarrow>
                         \<lparr>sc_symbol = symbol, sc_signals = sigs, sc_expiry = nearestExpiry, sc_error = Null\<rparr>)"

definition strength :: "jsval \<Rightarrow> jsnum" where
  "strength sig = to_number (js_or (opt sig ''strength'') (Num (Fin 0)))"

definition combine_signals :: "scan_result list \<Rightarrow> jsval list" where
  "combine_signals results =
     js_sort (\<lambda>a b. strength b - strength a) (concat (map sc_signals results))"

record screener_state =
  sn_data :: "(string \<times> scan_result) list"
  sn_allSignals :: "jsval list"
  sn_loading :: bool
  sn_error :: jsval
  sn_lastUpdate :: "int option"
  sn_fetching :: bool
  sn_inflight :: nat

definition screener_initial :: screener_state where
  "screener_initial =
     \<lparr>sn_data = [], sn_allSignals = [], sn_loading = True, sn_error = Null, sn_lastUpdate = None,
      sn_fetching = False, sn_inflight = 0\<rparr>"

definition fetchAllSignals_begin :: "screener_state \<Rightarrow> screener_state" where
  "fetchAllSignals_begin s =
     (if sn_fetching s then s
      else s\<lparr>sn_fetching := True, sn_loading := True, sn_error := Null, sn_inflight := Suc (sn_inflight s)\<rparr>)"

text \<open>All symbols have answered, each with its own outcome; none of them rejects.\<close>

definition fetchAllSignals_end :: "int \<Rightarrow> scan_result list \<Rightarrow> screener_state \<Rightarrow> screener_state" where
  "fetchAllSignals_end now results s =
     s\<lparr>sn_data := fold (\<lambda>r. put (sc_symbol r) r) results [], sn_allSignals := combine_signals results,
       sn_lastUpdate := Some now, sn_loading := False, sn_fetching := False, sn_inflight := sn_inflight s - 1\<rparr>"

record screener_stats =
  st_totalSignals :: nat
  st_buySignals :: nat
  st_sellSignals :: nat
  st_bySymbol :: "(string \<times> nat) list"
  st_strongSignals :: nat

definition stats_of :: "string list \<Rightarrow> screener_state \<Rightarrow> screener_stats" where
  "stats_of symbols s =
     (let count = (\<lambda>P. length (filter P (sn_allSignals s)))
      in \<lparr>st_totalSignals = length (sn_allSignals s),
          st_buySignals = count (\<lambda>x. strict_eq (opt x ''signal'') (Str ''BUY'')),
          st_sellSignals = count (\<lambda>x. strict_eq (opt x ''signal'') (Str ''SELL'')),
          st_bySymbol = fold (\<lambda>k. put k (case map_of (sn_data s) k of
                           Some r \<Rightarrow> length (sc_signals r) | None \<Rightarrow> 0)) symbols [],
          st_strongSignals = count (\<lambda>x. strength x \<ge> N 70)\<rparr>)"

section \<open>Max pain\<close>

lemma max_pain_minimal:
  assumes "strikes \<noteq> []" and "\<forall>t \<in> set strikes. total_pain oc strikes t \<noteq> NaN"
  shows "max_pain_strike oc strikes \<in> set strikes
       \<and> (\<forall>t \<in> set strikes. total_pain oc strikes (max_pain_strike oc strikes) \<le> total_pain oc strikes t)"
proof -
  let ?pain = "total_pain oc strikes"
  obtain p x where f: "foldl (argmin_step ?pain) (PInf, hd strikes) strikes = (p, x)" by (metis surj_pair)
  then have x: "max_pain_strike oc strikes = x" by (simp add: max_pain_strike_def)
  note min = argmin_fold [OF assms(2) _ f]
  show ?thesis
  proof (cases "x \<in> set strikes \<and> p = ?pain x")
    case True
    then show ?thesis using min x by auto
  next
    case False
    then have "p = PInf" "x = hd strikes" using min by auto
    then have "\<forall>t \<in> set strikes. ?pain t = PInf" using min num_order(4) by simp
    then show ?thesis using assms(1) x \<open>x = hd strikes\<close> by (simp add: num_order)
  qed
qed

section \<open>The trend\<close>

lemma trend_score_range: "- 4 \<le> trend_score pcr c p spot m \<and> trend_score pcr c p spot m \<le> 4"
  by (simp add: trend_score_def)

lemma trend_agrees_with_ratio:
  "2 \<le> trend_score pcr c p spot m \<Longrightarrow> \<not> (pcr < N (7 / 10) \<and> \<not> pcr > N (6 / 5))"
  "trend_score pcr c p spot m \<le> - 2 \<Longrightarrow> \<not> pcr > N (6 / 5)"
  by (auto simp: trend_score_def split: if_splits)

lemma three_way_cases:
  "three_way up down = ''BULLISH'' \<longleftrightarrow> up" "three_way up down = ''BEARISH'' \<longleftrightarrow> \<not> up \<and> down"
  "three_way up down = ''NEUTRAL'' \<longleftrightarrow> \<not> up \<and> \<not> down"
  by (auto simp: three_way_def)

lemma chain_strikes_nonempty: "object_keys oc \<noteq> [] \<Longrightarrow> chain_strikes oc \<noteq> []"
proof -
  have "length (chain_strikes oc) = length (object_keys oc)" by (simp add: chain_strikes_def sort_numbers_def)
  then show "object_keys oc \<noteq> [] \<Longrightarrow> chain_strikes oc \<noteq> []" by auto
qed

text \<open>
  The metrics of a chain: the max-pain strike is a strike of the chain at which the options pay least, the
  trend score stays within four points either way, and a trend never contradicts the signal of the
  put-call ratio.
\<close>

theorem metrics_spec:
  assumes "calculateMetrics oc spot = Some m" and "strikes = chain_strikes oc"
    and "\<forall>t \<in> set strikes. total_pain oc strikes t \<noteq> NaN"
  shows "mt_maxPain m \<in> set strikes
       \<and> (\<forall>t \<in> set strikes. total_pain oc strikes (mt_maxPain m) \<le> total_pain oc strikes t)
       \<and> - 4 \<le> mt_trendScore m \<and> mt_trendScore m \<le> 4
       \<and> (mt_trend m = ''BULLISH'' \<longrightarrow> mt_pcrSignal m \<noteq> ''BEARISH'')
       \<and> (mt_trend m = ''BEARISH'' \<longrightarrow> mt_pcrSignal m \<noteq> ''BULLISH'')"
proof -
  define pcr where "pcr = (if jsum (map (leg_oi oc ''ce'') strikes) > Fin 0
      then jsum (map (leg_oi oc ''pe'') strikes) / jsum (map (leg_oi oc ''ce'') strikes) else Fin 0)"
  define x where "x = max_pain_strike oc strikes"
  obtain c p where t: "mt_trendScore m = trend_score pcr c p spot x" "mt_maxPain m = x"
      "mt_pcrSignal m = three_way (pcr > N (6 / 5)) (pcr < N (7 / 10))"
      "mt_trend m = three_way (2 \<le> mt_trendScore m) (mt_trendScore m \<le> - 2)" and keys: "object_keys oc \<noteq> []"
    using assms(1)
    by (simp only: calculateMetrics_def assms(2) [symmetric] Let_def pcr_def [symmetric] x_def [symmetric]
        option.inject split: if_splits) auto
  then have ne: "strikes \<noteq> []" and pain: "mt_maxPain m = max_pain_strike oc strikes"
    using chain_strikes_nonempty by (simp_all add: assms(2) x_def)
  have "mt_trend m = ''BULLISH'' \<longrightarrow> mt_pcrSignal m \<noteq> ''BEARISH''"
    "mt_trend m = ''BEARISH'' \<longrightarrow> mt_pcrSignal m \<noteq> ''BULLISH''"
    using trend_agrees_with_ratio [of pcr c p spot x] unfolding t(3,4) three_way_cases t(1) by blast+
  then show ?thesis
    using max_pain_minimal [OF ne assms(3)] trend_score_range [of pcr c p spot x] by (simp add: pain t(1))
qed

definition small_chain :: jsval where
  "small_chain =
     Obj [(''100'', Obj [(''ce'', Obj [(''oi'', Num (Fin 10)), (''coi'', Num (Fin (- 90)))]),
                        (''pe'', Obj [(''oi'', Num (Fin 20)), (''coi'', Num (Fin (- 100)))])])]"

lemma small_chain_reads:
  "chain_strikes small_chain = [Fin 100]" "object_keys small_chain = [''100'']"
  "total_pain small_chain [Fin 100] (Fin 100) = Fin 0"
  "jsum (map (leg_coi small_chain ''ce'') [Fin 100]) = Fin (- 90)"
  "jsum (map (leg_coi small_chain ''pe'') [Fin 100]) = Fin (- 100)"
  by code_simp+

lemma small_chain_metrics: "\<exists>m. calculateMetrics small_chain spot = Some m"
proof -
  have "truthy small_chain" by (simp add: small_chain_def)
  then show ?thesis
    by (simp only: calculateMetrics_def small_chain_reads(2) Let_def if_False list.distinct simp_thms option.inject)
qed

theorem metrics_spec_witness:
  "\<exists>m. calculateMetrics small_chain (Num (Fin 101)) = Some m \<and> mt_maxPain m = Fin 100"
proof -
  obtain m where m: "calculateMetrics small_chain (Num (Fin 101)) = Some m"
    using small_chain_metrics by blast
  have "\<forall>t \<in> set [Fin 100]. total_pain small_chain [Fin 100] t \<noteq> NaN" by (simp add: small_chain_reads)
  from metrics_spec [OF m small_chain_reads(1) [symmetric] this] m show ?thesis by simp
qed

text \<open>
  When open interest falls on both sides the thresholds turn around: the puts lose more than the calls,
  the score counts that against the market, and the signal says bullish.
\<close>

lemma falling_interest_is_bullish:
  assumes "calculateMetrics small_chain spot = Some m"
  shows "mt_totalPECOI m < mt_totalCECOI m \<and> mt_oiSignal m = ''BULLISH''"
proof -
  have "mt_totalPECOI m = Fin (- 100)" "mt_totalCECOI m = Fin (- 90)"
    "mt_oiSignal m = three_way (Fin (- 100) > Fin (- 90) * N (6 / 5)) (Fin (- 90) > Fin (- 100) * N (6 / 5))"
    using assms unfolding calculateMetrics_def Let_def small_chain_reads
    by (simp_all only: option.inject metrics.simps split: if_splits) auto
  moreover have "Fin (- 90) * N (6 / 5) < Fin (- 100)" by code_simp
  ultimately show ?thesis by (simp add: three_way_def)
qed

section \<open>One request at a time\<close>

inductive multi_step :: "multi_state \<Rightarrow> multi_state \<Rightarrow> bool" where
  loads: "multi_step s (symbols_loaded outcome s)"
| begins: "multi_step s (fetchAllSymbols_begin s)"
| answered: "asked \<in> set (ms_inflight s) \<Longrightarrow> multi_step s (fetchAllSymbols_end now asked outcome s)"

inductive multi_reachable :: "multi_state \<Rightarrow> bool" where
  init: "multi_reachable (multi_initial initialSymbols)"
| step: "multi_reachable s \<Longrightarrow> multi_step s s' \<Longrightarrow> multi_reachable s'"

lemma multi_step_inflight:
  "multi_step s s' \<Longrightarrow> length (ms_inflight s) = (if ms_fetching s then 1 else 0) \<Longrightarrow>
     length (ms_inflight s') = (if ms_fetching s' then 1 else 0)"
  by (induction rule: multi_step.induct)
    (auto simp: symbols_loaded_def fetchAllSymbols_begin_def fetchAllSymbols_end_def length_remove1
        split: if_splits sum.splits)

text \<open>
  C26: In every reachable state of the overview at most one batch request is unanswered, and the flag says
  whether there is one; but a fetch for symbols that arrive meanwhile is dropped, and the answer for the
  old symbols is what the hook then shows.
\<close>

theorem one_batch_in_flight:
  assumes "multi_reachable s" and "s1 = symbols_loaded outcome s"
  shows "length (ms_inflight s) \<le> 1 \<and> (ms_fetching s \<longleftrightarrow> ms_inflight s \<noteq> [])
       \<and> (\<forall>asked \<in> set (ms_inflight s). fetchAllSymbols_begin s1 = s1
            \<and> (\<forall>now batch. \<not> nullish batch \<longrightarrow>
                 ms_data (fetchAllSymbols_end now asked (Inr batch) s1) = newData_of batch
                 \<and> ms_inflight (fetchAllSymbols_end now asked (Inr batch) s1) = []))"
proof -
  from assms(1) have inv: "length (ms_inflight s) = (if ms_fetching s then 1 else 0)"
  proof (induction rule: multi_reachable.induct)
    case (init initialSymbols)
    then show ?case by (simp add: multi_initial_def)
  next
    case (step s s')
    then show ?case using multi_step_inflight by blast
  qed
  then have flag: "ms_fetching s \<longleftrightarrow> ms_inflight s \<noteq> []" "length (ms_inflight s) \<le> 1"
    by (auto split: if_splits)
  have "ms_inflight s = [asked]" if "asked \<in> set (ms_inflight s)" for asked
    using that flag(2) by (cases "ms_inflight s") auto
  then have "remove1 asked (ms_inflight s) = []" if "asked \<in> set (ms_inflight s)" for asked
    using that by fastforce
  then have "fetchAllSymbols_begin s1 = s1 \<and> (\<forall>now batch. \<not> nullish batch \<longrightarrow>
      ms_data (fetchAllSymbols_end now asked (Inr batch) s1) = newData_of batch
      \<and> ms_inflight (fetchAllSymbols_end now asked (Inr batch) s1) = [])" if "asked \<in> set (ms_inflight s)" for asked
    using that flag(1) by (auto simp: assms(2) fetchAllSymbols_begin_def fetchAllSymbols_end_def symbols_loaded_def)
  then show ?thesis using flag by blast
qed

theorem one_batch_in_flight_witness:
  "ms_inflight (fetchAllSymbols_begin (multi_initial DEFAULT_SYMBOLS)) = [DEFAULT_SYMBOLS]
   \<and> length (ms_inflight (fetchAllSymbols_begin (multi_initial DEFAULT_SYMBOLS))) \<le> 1"
proof -
  have "multi_reachable (fetchAllSymbols_begin (multi_initial DEFAULT_SYMBOLS))"
    by (rule multi_reachable.step [OF multi_reachable.init]) (rule multi_step.begins)
  from one_batch_in_flight [OF this refl] show ?thesis
    by (simp add: fetchAllSymbols_begin_def multi_initial_def DEFAULT_SYMBOLS_def num_eq_def jint_small)
qed

section \<open>The screener's signals\<close>

interpretation by_strength: descending_by strength .

lemma tagged:
  assumes "tag_signals symbol expiry signals = Inr xs" and "x \<in> set xs"
  shows "opt x ''symbol'' = Str symbol \<and> opt x ''expiry'' = expiry"
proof (cases signals)
  case (Arr ys)
  then show ?thesis using assms by (auto simp: tag_signals_def spread_def own_put)
qed (use assms in \<open>simp_all add: tag_signals_def\<close>)

lemma scan_symbol_result:
  assumes "r = scan_symbol expiries server type symbol"
  shows "sc_symbol r = symbol"
    and "sc_signals r = [] \<or> sc_error r = Null \<and> (\<exists>sigs. tag_signals symbol (sc_expiry r) sigs = Inr (sc_signals r))"
  unfolding assms scan_symbol_def Let_def res_bind_def by (auto split: sum.split)

lemma scan_symbol_cases:
  "sc_symbol (scan_symbol expiries server type symbol) = symbol"
  "sc_error (scan_symbol expiries server type symbol) \<noteq> Null \<Longrightarrow> sc_signals (scan_symbol expiries server type symbol) = []"
  "x \<in> set (sc_signals (scan_symbol expiries server type symbol)) \<Longrightarrow>
     opt x ''symbol'' = Str symbol \<and> opt x ''expiry'' = sc_expiry (scan_symbol expiries server type symbol)"
  using scan_symbol_result [OF refl, of expiries server type symbol] tagged by auto

lemma count_tagged:
  assumes "distinct ks" and "\<forall>k \<in> set ks. \<forall>x \<in> set (g k). tag x = Str k" and "j \<in> set ks"
  shows "length (filter (\<lambda>x. tag x = Str j) (concat (map g ks))) = length (g j)"
  using assms
proof (induction ks)
  case (Cons k ks)
  have none: "filter (\<lambda>x. tag x = Str j) (g i) = []" if "i \<in> set (k # ks)" "i \<noteq> j" for i
    using Cons.prems(2) that by (auto simp: filter_empty_conv)
  show ?case
  proof (cases "k = j")
    case True
    have "filter (\<lambda>x. tag x = Str j) (concat (map g ks)) = []"
      using Cons.prems(1) none True by (auto simp: filter_empty_conv filter_concat concat_eq_Nil_conv)
    moreover have "filter (\<lambda>x. tag x = Str j) (g k) = g k"
      using Cons.prems(2) True by (auto simp: filter_id_conv)
    ultimately show ?thesis using True by simp
  next
    case False
    then show ?thesis using Cons none [of k] by simp
  qed
qed simp

lemma combined_facts:
  assumes "\<forall>r \<in> set results. \<forall>x \<in> set (sc_signals r). fin_double (strength x)"
  shows "mset (combine_signals results) = mset (concat (map sc_signals results))"
    and "sorted_wrt (\<lambda>a b. strength b \<le> strength a) (combine_signals results)"
proof -
  show "mset (combine_signals results) = mset (concat (map sc_signals results))"
    by (simp add: combine_signals_def)
  show "sorted_wrt (\<lambda>a b. strength b \<le> strength a) (combine_signals results)"
    unfolding combine_signals_def using assms by (intro by_strength.sorted_keys) auto
qed

text \<open>
  A scan of the symbols: the list shows exactly the signals of the symbols that answered, strongest first,
  and the statistics count for each symbol the signals in the list that carry its name.
\<close>

theorem scan_shows_all_signals:
  assumes "distinct symbols" and "results = map (scan_symbol expiries server type) symbols"
    and "\<forall>r \<in> set results. \<forall>x \<in> set (sc_signals r). fin_double (strength x)"
    and "s' = fetchAllSignals_end now results s" and "k \<in> set symbols"
  shows "mset (sn_allSignals s') = mset (concat (map sc_signals results))
       \<and> sorted_wrt (\<lambda>a b. strength b \<le> strength a) (sn_allSignals s')
       \<and> map_of (sn_data s') k = Some (scan_symbol expiries server type k)
       \<and> map_of (st_bySymbol (stats_of symbols s')) k
           = Some (length (filter (\<lambda>x. opt x ''symbol'' = Str k) (sn_allSignals s')))"
proof -
  have all: "sn_allSignals s' = combine_signals results" by (simp add: assms(4) fetchAllSignals_end_def)
  have names: "map sc_symbol results = symbols" by (simp add: assms(2) comp_def scan_symbol_cases map_idI)
  have "map_of (map (\<lambda>r. (sc_symbol r, r)) results) k = Some (scan_symbol expiries server type k)"
    using names assms(1,2,5) by (intro map_of_is_SomeI) (auto simp: comp_def scan_symbol_cases image_iff)
  then have found: "map_of (sn_data s') k = Some (scan_symbol expiries server type k)"
    using names assms(1) by (simp add: assms(4) fetchAllSignals_end_def map_of_fold_put_key)
  have "length (filter (\<lambda>x. opt x ''symbol'' = Str k) (combine_signals results))
      = length (filter (\<lambda>x. opt x ''symbol'' = Str k) (concat (map sc_signals results)))"
    using combined_facts(1) [OF assms(3)] by (metis mset_filter size_mset)
  also have "\<dots> = length (sc_signals (scan_symbol expiries server type k))"
    using count_tagged [of symbols "\<lambda>k. sc_signals (scan_symbol expiries server type k)" "\<lambda>x. opt x ''symbol''" k]
      assms(1,5) scan_symbol_cases(3) by (simp add: assms(2) comp_def)
  finally have count: "length (sc_signals (scan_symbol expiries server type k))
      = length (filter (\<lambda>x. opt x ''symbol'' = Str k) (sn_allSignals s'))" by (simp add: all)
  have "map_of (map (\<lambda>j. (j, case map_of (sn_data s') j of Some r \<Rightarrow> length (sc_signals r) | None \<Rightarrow> 0)) symbols) k
      = Some (length (sc_signals (scan_symbol expiries server type k)))"
    using found assms(1,5) by (intro map_of_is_SomeI) (auto simp: comp_def image_iff)
  then have "map_of (st_bySymbol (stats_of symbols s')) k = Some (length (sc_signals (scan_symbol expiries server type k)))"
    using assms(1) by (simp add: stats_of_def Let_def map_of_fold_put_key [of "\<lambda>k. k", simplified])
  then show ?thesis using combined_facts [OF assms(3)] found count by (simp add: all)
qed

definition sample_expiries :: "string \<Rightarrow> jsval result" where
  "sample_expiries symbol = (if symbol = ''NIFTY'' then Inr (Obj [(''expiry_dates'', Arr [Num (Fin 5)])]) else Inl TypeError)"

definition sample_screener :: server where
  "sample_screener req = Inr (Obj [(''data'', Obj [(''signals'', Arr [Obj [(''strength'', Num (Fin 80))]])])])"

lemma sample_scan:
  "scan_symbol sample_expiries sample_screener ''scalp'' ''NIFTY'' =
     \<lparr>sc_symbol = ''NIFTY'', sc_signals = [Obj [(''strength'', Num (Fin 80)), (''symbol'', Str ''NIFTY''), (''expiry'', Num (Fin 5))]],
      sc_expiry = Num (Fin 5), sc_error = Null\<rparr>"
  "scan_symbol sample_expiries sample_screener ''scalp'' ''OTHER'' =
     \<lparr>sc_symbol = ''OTHER'', sc_signals = [], sc_expiry = Undef, sc_error = Str ''API unavailable''\<rparr>"
  by code_simp+

theorem scan_shows_all_signals_witness:
  "map_of (sn_data (fetchAllSignals_end 0 (map (scan_symbol sample_expiries sample_screener ''scalp'') [''NIFTY'', ''OTHER''])
       screener_initial)) ''NIFTY'' = Some (scan_symbol sample_expiries sample_screener ''scalp'' ''NIFTY'')"
proof -
  let ?rs = "map (scan_symbol sample_expiries sample_screener ''scalp'') [''NIFTY'', ''OTHER'']"
  have fin: "\<forall>r \<in> set ?rs. \<forall>x \<in> set (sc_signals r). fin_double (strength x)"
    by (simp add: sample_scan strength_def)
  have "distinct [''NIFTY'', ''OTHER'']" "''NIFTY'' \<in> set [''NIFTY'', ''OTHER'']" by simp_all
  from scan_shows_all_signals [OF this(1) refl fin refl this(2), of 0 screener_initial] show ?thesis by blast
qed

end
