(* ===== verification/Live_Feed.thy ===== *)
theory Live_Feed
  imports Chart_Socket Js_Http Position_Analytics
begin

text \<open>
  The sockets of the live option chain (src/hooks/useSocket.jsx) and of a community room
  (src/hooks/useCommunitySocket.js).  As in Chart_Socket every socket ever opened keeps its handlers; the
  decoded message, the random number of a reconnect and a constructor that throws are parameters.
  \<open>f_seen_error\<close> is the value of \<open>error\<close> that the message handler captured: \<open>connect\<close> is made once, when
  the error is still \<open>null\<close>.
\<close>

section \<open>State\<close>

type_synonym sockets = "(nat \<times> ready_state) list"

definition put_socket :: "nat \<Rightarrow> ready_state \<Rightarrow> sockets \<Rightarrow> sockets" where
  "put_socket i r xs = map (\<lambda>p. if fst p = i then (i, r) else p) xs"

text \<open>\<open>close()\<close>: nothing happens to a socket that is closed or closing.\<close>

definition close_socket :: "nat option \<Rightarrow> sockets \<Rightarrow> sockets" where
  "close_socket current xs =
     (case current of
        Some i \<Rightarrow> if map_of xs i = Some CLOSED then xs else put_socket i CLOSING xs
      | None \<Rightarrow> xs)"

record feed_config =
  n_autoReconnect :: bool
  n_baseReconnectInterval :: jsnum
  n_maxReconnectInterval :: jsnum
  n_maxReconnectAttempts :: nat
  n_heartbeatInterval :: int
  n_socketUrl :: string

definition feed_defaults :: "string \<Rightarrow> feed_config" where
  "feed_defaults url =
     \<lparr>n_autoReconnect = True, n_baseReconnectInterval = N 1000, n_maxReconnectInterval = N 30000,
      n_maxReconnectAttempts = 10, n_heartbeatInterval = 30000, n_socketUrl = url\<rparr>"

record feed_state =
  f_sockets :: sockets
  f_current :: "nat option"
  f_isDisconnecting :: bool
  f_attempts :: nat
  f_timers :: "(nat \<times> jsnum) list"
  f_timerRef :: "nat option"
  f_nextTimer :: nat
  f_heartbeat :: bool
  f_lastPong :: "int option"
  f_isConnected :: bool
  f_error :: jsval
  f_subscription :: jsval
  f_quality :: string
  f_sent :: "string list"
  f_received :: "jsval list"
  f_seen_error :: jsval

definition feed_initial :: feed_state where
  "feed_initial =
     \<lparr>f_sockets = [], f_current = None, f_isDisconnecting = False, f_attempts = 0, f_timers = [],
      f_timerRef = None, f_nextTimer = 0, f_heartbeat = False, f_lastPong = None, f_isConnected = False,
      f_error = Null, f_subscription = Null, f_quality = ''unknown'', f_sent = [], f_received = [],
      f_seen_error = Null\<rparr>"

definition feed_open :: "feed_state \<Rightarrow> bool" where
  "feed_open s \<longleftrightarrow> (case f_current s of Some i \<Rightarrow> map_of (f_sockets s) i = Some OPEN | None \<Rightarrow> False)"

section \<open>Connecting and reconnecting\<close>

definition getReconnectDelay :: "feed_config \<Rightarrow> jsnum \<Rightarrow> nat \<Rightarrow> jsnum" where
  "getReconnectDelay cfg random attempt =
     (let exponentialDelay = jmin (n_baseReconnectInterval cfg * N (2 ^ attempt)) (n_maxReconnectInterval cfg);
          jitter = exponentialDelay * N (1 / 4) * (random - N (1 / 2)) * N 2
      in jround (exponentialDelay + jitter))"

definition feed_url :: "feed_config \<Rightarrow> string" where
  "feed_url cfg =
     (if \<exists>i < length (n_socketUrl cfg). take 4 (drop i (n_socketUrl cfg)) = ''/ws/'' then n_socketUrl cfg
      else n_socketUrl cfg @ ''/ws/options'')"

definition feed_connect :: "jsval option \<Rightarrow> feed_state \<Rightarrow> feed_state" where
  "feed_connect thrown s =
     (let s1 = s\<lparr>f_sockets := close_socket (f_current s) (f_sockets s), f_isDisconnecting := False\<rparr>;
          i = length (f_sockets s1)
      in case thrown of
           Some err \<Rightarrow> s1\<lparr>f_error := opt err ''message''\<rparr>
         | None \<Rightarrow> s1\<lparr>f_sockets := f_sockets s1 @ [(i, CONNECTING)], f_current := Some i\<rparr>)"

definition feed_onopen :: "nat \<Rightarrow> feed_state \<Rightarrow> feed_state" where
  "feed_onopen i s =
     (let s1 = s\<lparr>f_sockets := put_socket i OPEN (f_sockets s), f_isConnected := True, f_error := Null,
                 f_quality := ''good'', f_attempts := 0, f_heartbeat := True\<rparr>
      in if feed_open s1 then s1\<lparr>f_sent := f_sent s1 @ [ping]\<rparr> else s1)"

text \<open>A message that cannot be decoded, or decodes to \<open>null\<close>, is only logged; anything of an unknown
  type is live data for the callback.\<close>

definition feed_onmessage :: "int \<Rightarrow> jsval result \<Rightarrow> feed_state \<Rightarrow> feed_state" where
  "feed_onmessage now decoded s =
     (case decoded of
        Inl e \<Rightarrow> s
      | Inr d \<Rightarrow>
          if nullish d then s
          else if type_is d ''connected'' then s\<lparr>f_error := Null\<rparr>
          else if type_is d ''subscribed''
            then s\<lparr>f_subscription := Obj [(''symbol'', opt d ''symbol''), (''expiry'', opt d ''expiry'')], f_error := Null\<rparr>
          else if type_is d ''unsubscribed'' then s\<lparr>f_subscription := Null\<rparr>
          else if type_is d ''pong'' then s\<lparr>f_lastPong := Some now\<rparr>
          else if type_is d ''error'' then s\<lparr>f_error := opt d ''message''\<rparr>
          else s\<lparr>f_error := (if truthy (f_seen_error s) then Null else f_error s), f_received := f_received s @ [d]\<rparr>)"

definition feed_onerror :: "feed_state \<Rightarrow> feed_state" where
  "feed_onerror s =
     (if \<not> f_isDisconnecting s
      then s\<lparr>f_error := Str ''WebSocket connection error'', f_isConnected := False, f_quality := ''poor''\<rparr> else s)"

definition feed_onclose :: "feed_config \<Rightarrow> bool \<Rightarrow> jsnum \<Rightarrow> nat \<Rightarrow> feed_state \<Rightarrow> feed_state" where
  "feed_onclose cfg wasClean random i s0 =
     (let s = s0\<lparr>f_sockets := put_socket i CLOSED (f_sockets s0), f_isConnected := False, f_subscription := Null,
                 f_quality := ''unknown'', f_heartbeat := False\<rparr>
      in if n_autoReconnect cfg \<and> f_attempts s < n_maxReconnectAttempts cfg \<and> \<not> wasClean \<and> \<not> f_isDisconnecting s
           then s\<lparr>f_attempts := Suc (f_attempts s),
                  f_timers := f_timers s @ [(f_nextTimer s, getReconnectDelay cfg random (Suc (f_attempts s)))],
                  f_timerRef := Some (f_nextTimer s), f_nextTimer := Suc (f_nextTimer s)\<rparr>
         else if f_attempts s \<ge> n_maxReconnectAttempts cfg \<and> \<not> f_isDisconnecting s
           then s\<lparr>f_error := Str ''WebSocket unavailable - using polling''\<rparr>
         else s)"

definition feed_timer :: "nat \<Rightarrow> jsval option \<Rightarrow> feed_state \<Rightarrow> feed_state" where
  "feed_timer t thrown s = feed_connect thrown (s\<lparr>f_timers := filter (\<lambda>x. fst x \<noteq> t) (f_timers s)\<rparr>)"

definition feed_heartbeat :: "feed_config \<Rightarrow> int \<Rightarrow> feed_state \<Rightarrow> feed_state" where
  "feed_heartbeat cfg now s =
     (if \<not> f_heartbeat s \<or> \<not> feed_open s then s
      else
        s\<lparr>f_sent := f_sent s @ [ping],
          f_quality := (case f_lastPong s of
             None \<Rightarrow> f_quality s
           | Some t \<Rightarrow> if now - t > n_heartbeatInterval cfg * 2 then ''poor''
                      else if 2 * (now - t) > 3 * n_heartbeatInterval cfg then ''degraded'' else ''good'')\<rparr>)"

section \<open>Commands\<close>

definition feed_disconnect :: "feed_state \<Rightarrow> feed_state" where
  "feed_disconnect s =
     s\<lparr>f_isDisconnecting := True,
       f_timers := (case f_timerRef s of Some t \<Rightarrow> filter (\<lambda>x. fst x \<noteq> t) (f_timers s) | None \<Rightarrow> f_timers s),
       f_sockets := close_socket (f_current s) (f_sockets s), f_current := None,
       f_isConnected := False, f_subscription := Null\<rparr>"

definition sendMessage :: "jsval \<Rightarrow> feed_state \<Rightarrow> bool \<times> feed_state" where
  "sendMessage message s =
     (if feed_open s
      then (True, s\<lparr>f_sent := f_sent s @ [case message of Str m \<Rightarrow> m | _ \<Rightarrow> json_stringify message]\<rparr>)
      else (False, s))"

definition feed_subscribe :: "string \<Rightarrow> jsval \<Rightarrow> feed_state \<Rightarrow> bool \<times> feed_state" where
  "feed_subscribe symbol expiry s =
     (if \<not> f_isConnected s then (False, s)
      else sendMessage (Obj [(''type'', Str ''subscribe''), (''sid'', Str (map upper_char symbol)),
                             (''exp_sid'', expiry)]) s)"

definition feed_unsubscribe :: "feed_state \<Rightarrow> bool \<times> feed_state" where
  "feed_unsubscribe s = sendMessage (Obj [(''type'', Str ''unsubscribe'')]) s"

section \<open>Events\<close>

text \<open>The message of a socket is decoded asynchronously: its effect may come after the socket closed.\<close>

inductive feed_step :: "feed_config \<Rightarrow> feed_state \<Rightarrow> feed_state \<Rightarrow> bool" for cfg where
  opens: "map_of (f_sockets s) i = Some CONNECTING \<Longrightarrow> feed_step cfg s (feed_onopen i s)"
| speaks: "feed_step cfg s (feed_onmessage now d s)"
| fails: "feed_step cfg s (feed_onerror s)"
| closes: "map_of (f_sockets s) i = Some r \<Longrightarrow> r \<noteq> CLOSED \<Longrightarrow> ranged 0 1 random \<Longrightarrow>
     feed_step cfg s (feed_onclose cfg wasClean random i s)"
| fires: "(t, d) \<in> set (f_timers s) \<Longrightarrow> feed_step cfg s (feed_timer t thrown s)"
| ticks: "feed_step cfg s (feed_heartbeat cfg now s)"
| connects: "feed_step cfg s (feed_connect thrown s)"
| disconnects: "feed_step cfg s (feed_disconnect s)"
| sends: "feed_step cfg s (snd (sendMessage m s))"
| subscribes: "feed_step cfg s (snd (feed_subscribe symbol expiry s))"
| unsubscribes: "feed_step cfg s (snd (feed_unsubscribe s))"

inductive feed_reachable :: "feed_config \<Rightarrow> feed_state \<Rightarrow> bool" for cfg where
  init: "feed_reachable cfg feed_initial"
| step: "feed_reachable cfg s \<Longrightarrow> feed_step cfg s s' \<Longrightarrow> feed_reachable cfg s'"

section \<open>At most one live socket\<close>

definition live :: "sockets \<Rightarrow> nat \<Rightarrow> bool" where
  "live xs i \<longleftrightarrow> map_of xs i \<in> {Some CONNECTING, Some OPEN}"

definition feed_inv :: "feed_config \<Rightarrow> feed_state \<Rightarrow> bool" where
  "feed_inv cfg s \<longleftrightarrow>
     map fst (f_sockets s) = [0..<length (f_sockets s)]
     \<and> (\<forall>i. live (f_sockets s) i \<longrightarrow> f_current s = Some i)
     \<and> f_attempts s \<le> n_maxReconnectAttempts cfg \<and> f_seen_error s = Null"

lemma put_socket_keys [simp]: "map fst (put_socket i r xs) = map fst xs" "length (put_socket i r xs) = length xs"
  by (simp_all add: put_socket_def comp_def if_distrib [of fst] cong: if_cong)

lemma map_of_put_socket:
  "map_of (put_socket i r xs) j = (if j = i \<and> map_of xs i \<noteq> None then Some r else map_of xs j)"
  unfolding put_socket_def by (induction xs) auto

lemma close_socket_keys [simp]:
  "map fst (close_socket c xs) = map fst xs" "length (close_socket c xs) = length xs"
  by (simp_all add: close_socket_def split: option.split)

lemma live_put_socket: "live (put_socket i r xs) j \<Longrightarrow> r \<in> {CONNECTING, OPEN} \<Longrightarrow> live xs i \<Longrightarrow> live xs j"
  and live_put_closed: "r \<in> {CLOSING, CLOSED} \<Longrightarrow> live (put_socket i r xs) j \<longleftrightarrow> live xs j \<and> j \<noteq> i"
  by (auto simp: live_def map_of_put_socket split: if_splits)

lemma live_close_socket: "live (close_socket c xs) j \<longleftrightarrow> live xs j \<and> c \<noteq> Some j"
  by (auto simp: close_socket_def live_put_closed split: option.split) (simp add: live_def)

lemma feed_inv_connect:
  assumes "feed_inv cfg s"
  shows "feed_inv cfg (feed_connect thrown s)"
proof -
  let ?xs = "close_socket (f_current s) (f_sockets s)"
  have none: "\<not> live ?xs j" for j
    using assms by (auto simp: feed_inv_def live_close_socket)
  have "map fst (?xs @ [(length ?xs, CONNECTING)]) = [0..<Suc (length ?xs)]"
    using assms by (simp add: feed_inv_def)
  moreover have "j = length ?xs" if "live (?xs @ [(length ?xs, CONNECTING)]) j" for j
    using that none [of j] by (auto simp: live_def map_add_def split: option.splits if_splits)
  ultimately show ?thesis
    using assms none
    by (cases thrown) (auto simp: feed_inv_def feed_connect_def Let_def)
qed

lemma feed_inv_keep:
  "feed_inv cfg s \<Longrightarrow> f_sockets s' = f_sockets s \<Longrightarrow> f_current s' = f_current s \<Longrightarrow>
     f_attempts s' = f_attempts s \<Longrightarrow> f_seen_error s' = f_seen_error s \<Longrightarrow> feed_inv cfg s'"
  by (simp add: feed_inv_def)

lemma sendMessage_fields:
  "f_sockets (snd (sendMessage m s)) = f_sockets s" "f_current (snd (sendMessage m s)) = f_current s"
  "f_attempts (snd (sendMessage m s)) = f_attempts s" "f_seen_error (snd (sendMessage m s)) = f_seen_error s"
  by (simp_all add: sendMessage_def)

lemma feed_step_inv: "feed_step cfg s s' \<Longrightarrow> feed_inv cfg s \<Longrightarrow> feed_inv cfg s'"
proof (induction rule: feed_step.induct)
  case (opens s i)
  have "live (f_sockets s) i" using opens(1) by (simp add: live_def)
  then have "\<forall>j. live (put_socket i OPEN (f_sockets s)) j \<longrightarrow> f_current s = Some j"
    using opens(2) live_put_socket [of i OPEN "f_sockets s"] unfolding feed_inv_def by blast
  then show ?case using opens(2) by (auto simp: feed_inv_def feed_onopen_def Let_def)
next
  case (closes s i r random wasClean)
  then show ?case by (auto simp: feed_inv_def feed_onclose_def live_put_closed Let_def)
next
  case (fires t d s thrown)
  have "feed_inv cfg (s\<lparr>f_timers := filter (\<lambda>x. fst x \<noteq> t) (f_timers s)\<rparr>)"
    using fires(2) by (simp add: feed_inv_def)
  then show ?case unfolding feed_timer_def by (rule feed_inv_connect)
next
  case (disconnects s)
  then show ?case by (auto simp: feed_inv_def feed_disconnect_def live_close_socket)
next
  case (speaks s now d)
  then show ?case by (erule_tac feed_inv_keep) (auto simp: feed_onmessage_def feed_inv_def split: sum.split)
next
  case (fails s)
  then show ?case by (erule_tac feed_inv_keep) (auto simp: feed_onerror_def feed_inv_def)
next
  case (ticks s now)
  then show ?case by (erule_tac feed_inv_keep) (auto simp: feed_heartbeat_def feed_inv_def)
next
  case (connects s thrown)
  then show ?case by (rule feed_inv_connect)
next
  case (sends s m)
  then show ?case by (erule_tac feed_inv_keep) (auto simp: sendMessage_fields feed_inv_def)
next
  case (subscribes s symbol expiry)
  then show ?case by (erule_tac feed_inv_keep) (auto simp: feed_subscribe_def sendMessage_fields feed_inv_def)
next
  case (unsubscribes s)
  then show ?case by (erule_tac feed_inv_keep) (auto simp: feed_unsubscribe_def sendMessage_fields feed_inv_def)
qed

lemma feed_reachable_inv: "feed_reachable cfg s \<Longrightarrow> feed_inv cfg s"
proof (induction rule: feed_reachable.induct)
  case init
  then show ?case by (simp add: feed_inv_def feed_initial_def live_def)
next
  case (step s s')
  then show ?case by (blast intro: feed_step_inv)
qed

text \<open>
  C27: However connects, time-outs, closings and messages interleave, at most one socket is connecting or open,
  and it is the current one; no more reconnects are scheduled without an opening than configured; and live
  data never clears an error, because the handler looks at the error of the first render.
\<close>

theorem one_live_socket:
  assumes "feed_reachable cfg s"
  shows "(live (f_sockets s) i \<longrightarrow> f_current s = Some i) \<and> f_attempts s \<le> n_maxReconnectAttempts cfg
       \<and> (\<forall>now d. f_received (feed_onmessage now d s) \<noteq> f_received s \<longrightarrow>
            f_error (feed_onmessage now d s) = f_error s)"
  using feed_reachable_inv [OF assms]
  by (auto simp: feed_inv_def feed_onmessage_def split: sum.split)

definition feed_connecting :: feed_state where
  "feed_connecting = feed_connect None feed_initial"

lemma feed_connecting_reachable: "feed_reachable cfg feed_connecting"
  unfolding feed_connecting_def by (rule feed_reachable.step [OF feed_reachable.init]) (rule feed_step.connects)

theorem one_live_socket_witness: "live (f_sockets feed_connecting) 0 \<and> f_current feed_connecting = Some 0"
proof -
  have "live (f_sockets feed_connecting) 0"
    by (simp add: live_def feed_connecting_def feed_connect_def feed_initial_def close_socket_def Let_def)
  then show ?thesis using one_live_socket [OF feed_connecting_reachable [of "feed_defaults []"], of 0] by simp
qed

section \<open>Reconnect delays\<close>

lemma half_unit:
  assumes "ranged 0 1 random"
  shows "\<exists>u. random - N (1 / 2) = Fin u \<and> - 1 / 2 \<le> u \<and> u \<le> 1 / 2"
proof -
  obtain q where q: "random = Fin q" "0 \<le> q" "q \<le> 1" using assms by (auto elim!: rangedE)
  have h: "rd64 (1 / 2) = 1 / 2" by code_simp
  then have n: "N (1 / 2) = Fin (1 / 2)" by (simp add: rnd_unit)
  have "rd64 (- (1 / 2)) \<le> rd64 (q - 1 / 2)" "rd64 (q - 1 / 2) \<le> rd64 (1 / 2)"
    using q by (auto intro!: rd64_mono)
  then have "- 1 / 2 \<le> rd64 (q - 1 / 2) \<and> rd64 (q - 1 / 2) \<le> 1 / 2" using h rd64_minus [of "1 / 2"] by simp
  moreover have "rnd (q - 1 / 2) = Fin (rd64 (q - 1 / 2))"
    using rnd_between [of "- 1" "q - 1 / 2" 1] q by auto
  ultimately show ?thesis by (simp add: q(1) n minus_jsnum_def)
qed

text \<open>The jitter takes at most a quarter off and adds at most a quarter.\<close>

lemma jittered_delay:
  assumes "ranged 0 1 random" and "0 \<le> m" and "m \<le> 2 ^ 40"
  shows "ranged (6 * m) (10 * m) (jround (Fin (of_int (8 * m)) +
     Fin (of_int (8 * m)) * N (1 / 4) * (random - N (1 / 2)) * N 2))"
proof -
  obtain u where u: "random - N (1 / 2) = Fin u" "- 1 / 2 \<le> u" "u \<le> 1 / 2" using half_unit [OF assms(1)] by blast
  have "rd64 (1 / 4) = 1 / 4" by code_simp
  then have quarter: "N (1 / 4) = Fin (1 / 4)" by (simp add: rnd_unit)
  have a: "Fin (of_int (8 * m)) * N (1 / 4) = Fin (of_int (2 * m))"
    using rnd_of_int [of "2 * m"] assms(2,3) by (simp add: quarter)
  have m: "(0 :: rat) \<le> 2 * of_int m" using assms(2) by simp
  define x where "x = 2 * of_int m * u"
  have "x \<le> 2 * of_int m * (1 / 2)" "2 * of_int m * (- 1 / 2) \<le> x"
    unfolding x_def using u(2,3) m by (intro mult_left_mono; simp)+
  then have "ranged (- m) m (rnd x)" using assms(2,3) by (intro ranged_rnd) simp_all
  then have "ranged (- m) m (Fin (of_int (2 * m)) * Fin u)" by (simp add: x_def)
  then obtain v where v: "Fin (of_int (2 * m)) * Fin u = Fin v" "- of_int m \<le> v" "v \<le> of_int m"
    by (auto elim!: rangedE)
  have "ranged (- 2 * m) (2 * m) (Fin v * N 2)"
    using ranged_rnd [of "- 2 * m" "v * 2" "2 * m"] v(2,3) assms(2,3) by simp
  then have "ranged (8 * m + - 2 * m) (8 * m + 2 * m) (Fin (of_int (8 * m)) + Fin v * N 2)"
    using assms(2,3) by (intro ranged_add) auto
  then obtain w where "Fin (of_int (8 * m)) + Fin v * N 2 = Fin w" "of_int (6 * m) \<le> w" "w \<le> of_int (10 * m)"
    by (auto elim!: rangedE)
  moreover from this have "6 * m \<le> \<lfloor>w + 1 / 2\<rfloor>" "\<lfloor>w + 1 / 2\<rfloor> \<le> 10 * m" by linarith+
  ultimately show ?thesis unfolding a u(1) v(1) by (simp only: jround.simps ranged_Fin of_int_le_iff)
qed

lemma reconnect_base:
  assumes "k \<le> 10"
  shows "jmin (N 1000 * N (2 ^ k)) (N 30000) = Fin (of_int (8 * min (125 * 2 ^ k) 3750))"
proof -
  have small: "(2 :: int) ^ k \<le> 2 ^ 10" using assms by (intro power_increasing) auto
  have "N (2 ^ k) = Fin (2 ^ k)" "rnd (1000 * 2 ^ k) = Fin (1000 * 2 ^ k)"
    using rnd_of_int [of "2 ^ k"] rnd_of_int [of "1000 * 2 ^ k"] small by simp_all
  then have "N 1000 * N (2 ^ k) = Fin (1000 * 2 ^ k)" by simp
  moreover have "(1000 * 2 ^ k \<le> (30000 :: rat)) \<longleftrightarrow> (125 * 2 ^ k \<le> (3750 :: int))"
  proof -
    have "(1000 * 2 ^ k \<le> (30000 :: rat)) \<longleftrightarrow> (of_int (1000 * 2 ^ k) \<le> (of_int 30000 :: rat))" by simp
    also have "\<dots> \<longleftrightarrow> (1000 * 2 ^ k \<le> (30000 :: int))" by (simp only: of_int_le_iff)
    finally show ?thesis by simp
  qed
  ultimately show ?thesis by (auto simp: jmin_def min_def)
qed

text \<open>
  With the default options a lost connection is tried again, after the k-th loss in a row, within a quarter
  of the smaller of \<open>1000 * 2\<^sup>k\<close> and 30000 milliseconds: the first time after one and a half to two and a
  half seconds (the comment in the code says one second), never later than after 37.5 seconds.
\<close>

theorem reconnect_delay_bounds:
  assumes "feed_reachable (feed_defaults url) s" and "ranged 0 1 random"
    and "s' = feed_onclose (feed_defaults url) wasClean random i s" and "f_timers s' = f_timers s @ [(t, d)]"
  shows "1 \<le> f_attempts s' \<and> f_attempts s' \<le> 10 \<and> f_attempts s' = Suc (f_attempts s)
       \<and> ranged (750 * min (2 ^ f_attempts s') 30) (1250 * min (2 ^ f_attempts s') 30) d"
proof -
  let ?k = "f_attempts s'"
  have k: "?k = Suc (f_attempts s)" "?k \<le> 10" and d: "d = getReconnectDelay (feed_defaults url) random ?k"
    using assms(3,4) by (auto simp: feed_onclose_def feed_defaults_def Let_def split: if_splits)
  let ?m = "min (125 * 2 ^ ?k) 3750 :: int"
  have "d = jround (Fin (of_int (8 * ?m)) + Fin (of_int (8 * ?m)) * N (1 / 4) * (random - N (1 / 2)) * N 2)"
    unfolding d getReconnectDelay_def Let_def reconnect_base [OF k(2), symmetric] by (simp add: feed_defaults_def)
  then have "ranged (6 * ?m) (10 * ?m) d" using jittered_delay [OF assms(2), of ?m] by simp
  moreover have "?m = 125 * min (2 ^ ?k) 30" by (simp add: min_def)
  ultimately show ?thesis using k by simp
qed

theorem reconnect_delay_bounds_witness: "ranged 1500 2500 (getReconnectDelay (feed_defaults []) (Fin 0) 1)"
proof -
  let ?s = "feed_onclose (feed_defaults []) False (Fin 0) 0 feed_connecting"
  have timers: "f_timers ?s = f_timers feed_connecting @ [(0, getReconnectDelay (feed_defaults []) (Fin 0) 1)]"
    and attempts: "f_attempts ?s = 1"
    by (simp_all add: feed_onclose_def feed_connecting_def feed_connect_def feed_initial_def feed_defaults_def Let_def)
  have "ranged 0 1 (Fin 0)" by simp
  from reconnect_delay_bounds [OF feed_connecting_reachable this refl timers] show ?thesis by (simp add: attempts)
qed

section \<open>What the clean-up misses\<close>

lemma feed_reachable_steps:
  "feed_reachable cfg s \<Longrightarrow> feed_reachable cfg (feed_connect thrown s)"
  "feed_reachable cfg s \<Longrightarrow> map_of (f_sockets s) i = Some r \<Longrightarrow> r \<noteq> CLOSED \<Longrightarrow> ranged 0 1 random \<Longrightarrow>
     feed_reachable cfg (feed_onclose cfg wasClean random i s)"
  "feed_reachable cfg s \<Longrightarrow> map_of (f_sockets s) i = Some CONNECTING \<Longrightarrow> feed_reachable cfg (feed_onopen i s)"
  by (blast intro: feed_reachable.step feed_step.intros)+

text \<open>
  Only the last reconnect timer is remembered.  When a second connection is started while the first is
  still being made and both fail, two timers run; disconnecting, which is the clean-up of the hook, stops
  the second, and the first one connects again after the component has gone.
\<close>

theorem forgotten_timer_reconnects:
  "\<exists>s t d. feed_reachable (feed_defaults url) s \<and> (t, d) \<in> set (f_timers (feed_disconnect s))
     \<and> (\<exists>i. live (f_sockets (feed_timer t None (feed_disconnect s))) i)
     \<and> \<not> f_isDisconnecting (feed_timer t None (feed_disconnect s))"
proof -
  let ?cfg = "feed_defaults url" and ?zero = "Fin 0"
  define s1 where "s1 = feed_connect None feed_connecting"
  define s2 where "s2 = feed_onclose ?cfg False ?zero 0 s1"
  define s3 where "s3 = feed_onclose ?cfg False ?zero 1 s2"
  note defs = feed_connect_def feed_connecting_def feed_initial_def feed_onclose_def feed_defaults_def
    close_socket_def put_socket_def Let_def
  have s1: "f_sockets s1 = [(0, CLOSING), (1, CONNECTING)]" by (simp add: s1_def defs)
  then have s2: "f_sockets s2 = [(0, CLOSED), (1, CONNECTING)]" by (simp add: s2_def feed_onclose_def put_socket_def Let_def)
  have "feed_reachable ?cfg s1" unfolding s1_def by (intro feed_reachable_steps(1) feed_connecting_reachable)
  then have "feed_reachable ?cfg s2" unfolding s2_def using s1 by (intro feed_reachable_steps(2)) auto
  then have reach: "feed_reachable ?cfg s3" unfolding s3_def using s2 by (intro feed_reachable_steps(2)) auto
  have timers: "\<exists>d e. f_timers s3 = [(0, d), (1, e)]" "f_timerRef s3 = Some 1"
    by (simp_all add: s3_def s2_def s1_def defs)
  then obtain d where timer: "(0, d) \<in> set (f_timers (feed_disconnect s3))" by (auto simp: feed_disconnect_def)
  have none: "map_of (f_sockets (feed_disconnect s3)) i \<noteq> Some CONNECTING" for i
    using s2 by (auto simp: feed_disconnect_def s3_def feed_onclose_def put_socket_def close_socket_def Let_def
        split: option.split if_splits)
  have "\<exists>i. live (f_sockets (feed_timer 0 None (feed_disconnect s3))) i
      \<and> \<not> f_isDisconnecting (feed_timer 0 None (feed_disconnect s3))"
    using feed_reachable_inv [OF reach]
    by (intro exI [of _ 2]) (simp add: feed_timer_def feed_connect_def feed_disconnect_def live_def s3_def s2_def s1_def defs)
  then show ?thesis using reach timer by blast
qed

text \<open>
  Reconnecting by hand while connected closes the old socket.  Its close event, clean, arrives after the
  new socket has opened and is taken for the new one's: the hook says disconnected and stops its heartbeat
  although the current socket is open, and schedules nothing.
\<close>

lemma late_clean_close:
  assumes "feed_reachable cfg s" and "feed_open s" and "f_current s = Some i"
    and "f_attempts s < n_maxReconnectAttempts cfg"
    and "s1 = feed_onopen (length (f_sockets s)) (feed_connect None s)"
    and "s2 = feed_onclose cfg True random i s1"
  shows "f_isConnected s1 \<and> feed_open s2 \<and> \<not> f_isConnected s2 \<and> \<not> f_heartbeat s2 \<and> f_timers s2 = f_timers s"
proof -
  let ?n = "length (f_sockets s)"
  have keys: "map fst (f_sockets s) = [0..<?n]" using feed_reachable_inv [OF assms(1)] by (simp add: feed_inv_def)
  then have new: "map_of (f_sockets s) ?n = None" by (simp add: map_of_eq_None_iff flip: set_map)
  have old: "map_of (f_sockets s) i = Some OPEN" using assms(2,3) by (simp add: feed_open_def)
  then have "i \<noteq> ?n" using new by auto
  then have sockets: "map_of (f_sockets s1) ?n = Some OPEN" "f_current s1 = Some ?n"
    using old new
    by (simp_all add: assms(5) feed_onopen_def feed_connect_def close_socket_def assms(3) map_of_put_socket Let_def map_add_def)
  have "feed_open s2"
    using sockets \<open>i \<noteq> ?n\<close> assms(4)
    by (simp add: assms(6) feed_onclose_def feed_open_def map_of_put_socket Let_def)
  then show ?thesis
    using assms(4) by (simp add: assms(5,6) feed_onclose_def feed_onopen_def feed_connect_def Let_def)
qed

section \<open>Community rooms\<close>

record room_state =
  rs_sockets :: sockets
  rs_current :: "nat option"
  rs_newPosts :: "jsval list"
  rs_isConnected :: bool
  rs_onlineUsers :: jsval

definition room_initial :: room_state where
  "room_initial =
     \<lparr>rs_sockets = [], rs_current = None, rs_newPosts = [], rs_isConnected = False, rs_onlineUsers = Num (Fin 0)\<rparr>"

definition room_url :: "string \<Rightarrow> jsval \<Rightarrow> jsval \<Rightarrow> string" where
  "room_url wsBase roomSlug token =
     wsBase @ ''/community/rooms/'' @ js_to_string roomSlug @ ''/ws?token='' @ js_to_string token"

text \<open>\<open>connect\<close>; a constructor that throws is only logged.\<close>

definition room_connect :: "jsval \<Rightarrow> jsval \<Rightarrow> bool \<Rightarrow> room_state \<Rightarrow> room_state" where
  "room_connect roomSlug token throws s =
     (if \<not> truthy roomSlug \<or> \<not> truthy token \<or> throws then s
      else s\<lparr>rs_sockets := rs_sockets s @ [(length (rs_sockets s), CONNECTING)], rs_current := Some (length (rs_sockets s))\<rparr>)"

definition room_onopen :: "nat \<Rightarrow> room_state \<Rightarrow> room_state" where
  "room_onopen i s = s\<lparr>rs_sockets := put_socket i OPEN (rs_sockets s), rs_isConnected := True\<rparr>"

definition room_onclose :: "nat \<Rightarrow> room_state \<Rightarrow> room_state" where
  "room_onclose i s = s\<lparr>rs_sockets := put_socket i CLOSED (rs_sockets s), rs_isConnected := False\<rparr>"

definition room_onmessage :: "jsval result \<Rightarrow> room_state \<Rightarrow> room_state" where
  "room_onmessage parsed s =
     (case parsed of
        Inl e \<Rightarrow> s
      | Inr message \<Rightarrow>
          if nullish message then s
          else if type_is message ''new_post'' then s\<lparr>rs_newPosts := opt message ''data'' # rs_newPosts s\<rparr>
          else if type_is message ''online_count'' then
            (case get (opt message ''data'') ''count'' of Inl e \<Rightarrow> s | Inr n \<Rightarrow> s\<lparr>rs_onlineUsers := n\<rparr>)
          else s)"

definition room_disconnect :: "room_state \<Rightarrow> room_state" where
  "room_disconnect s =
     (case rs_current s of
        Some i \<Rightarrow> s\<lparr>rs_sockets := close_socket (Some i) (rs_sockets s), rs_current := None\<rparr> | None \<Rightarrow> s)"

definition clearNewPosts :: "room_state \<Rightarrow> room_state" where
  "clearNewPosts s = s\<lparr>rs_newPosts := []\<rparr>"

definition newPostCount :: "room_state \<Rightarrow> nat" where
  "newPostCount s = length (rs_newPosts s)"

text \<open>\<open>reconnect\<close> does not close the socket it replaces: both stay open, each post arrives twice, and
  disconnecting closes only the second.\<close>

lemma room_reconnect_leaks:
  assumes "truthy slug" and "truthy token"
    and "s1 = room_onopen 1 (room_connect slug token False (room_onopen 0 (room_connect slug token False room_initial)))"
    and "post = Obj [(''type'', Str ''new_post''), (''data'', d)]"
  shows "rs_sockets s1 = [(0, OPEN), (1, OPEN)]
       \<and> newPostCount (room_onmessage (Inr post) (room_onmessage (Inr post) s1)) = 2
       \<and> live (rs_sockets (room_disconnect s1)) 0"
  using assms(1,2)
  by (simp add: assms(3,4) room_onopen_def room_connect_def room_initial_def put_socket_def room_onmessage_def type_is_def
      newPostCount_def room_disconnect_def close_socket_def live_def)

end
