(* ===== verification/App_Provider.thy ===== *)
theory App_Provider
  imports Live_Feed Selectors Account_Services
begin

text \<open>
  The application provider (src/context/AppProvider.jsx), which connects the store, the live feed and the
  backend: one definition per effect, from what the render reads to the actions and commands it issues and
  the refs it leaves; the option-chain hook (src/hooks/useOptionsChain.js) and the market-data hook
  (src/hooks/useMarketData.js).  React runs an effect after a render that changed what it depends on.
\<close>

section \<open>What a render reads\<close>

record app_view =
  vw_wsConnected :: bool
  vw_subscription :: jsval
  vw_wsError :: jsval
  vw_isAuthenticated :: jsval
  vw_authLoading :: jsval
  vw_isOc :: jsval
  vw_selectedSymbol :: jsval
  vw_selectedExpiry :: jsval
  vw_isExpiryMatch :: jsval
  vw_ingestedExpiry :: jsval
  vw_user :: jsval
  vw_token :: jsval
  vw_theme :: jsval
  vw_data :: jsval
  vw_isStreaming :: jsval
  vw_exp_sid :: jsval

definition app_view_of :: "root_state \<Rightarrow> feed_state \<Rightarrow> app_view" where
  "app_view_of s feed =
     (let app = selectAppState s
      in \<lparr>vw_wsConnected = f_isConnected feed, vw_subscription = f_subscription feed, vw_wsError = f_error feed,
          vw_isAuthenticated = opt app ''isAuthenticated'', vw_authLoading = opt app ''authLoading'',
          vw_isOc = opt app ''isOc'', vw_selectedSymbol = selectSelectedSymbol s,
          vw_selectedExpiry = selectSelectedExpiry s, vw_isExpiryMatch = selectIsExpiryMatch s,
          vw_ingestedExpiry = selectIngestedExpiry s, vw_user = opt app ''user'', vw_token = opt app ''token'',
          vw_theme = opt app ''theme'', vw_data = opt app ''data'', vw_isStreaming = opt app ''isStreaming'',
          vw_exp_sid = opt app ''exp_sid''\<rparr>)"

fun is_positive_number :: "jsval \<Rightarrow> bool" where
  "is_positive_number (Num x) \<longleftrightarrow> num_truthy x \<and> x > Fin 0"
| "is_positive_number _ \<longleftrightarrow> False"

section \<open>The feed and the store\<close>

text \<open>\<open>handleWebSocketData\<close>, the callback of the feed.\<close>

definition handleWebSocketData :: "jsval \<Rightarrow> jsval \<Rightarrow> data_action list" where
  "handleWebSocketData ingestedExpiry wsData =
     (if type_is wsData ''error'' then []
      else if truthy wsData \<and> (truthy (opt wsData ''oc'') \<or> truthy (opt wsData ''spot'') \<or> truthy (opt wsData ''futures''))
        then
          let incomingExpiry = js_or (opt wsData ''expiry'') (opt (opt wsData ''context'') ''expiry'')
          in (if truthy incomingExpiry \<and> \<not> truthy ingestedExpiry then [SetIngestedExpiry incomingExpiry] else [])
             @ [UpdateLiveData wsData]
      else [])"

text \<open>\<open>enabled: isAuthenticated && isOc\<close>, with the default of the feed for \<open>undefined\<close>.\<close>

definition socket_enabled :: "app_view \<Rightarrow> bool" where
  "socket_enabled v =
     (let enabled = (if truthy (vw_isAuthenticated v) then vw_isOc v else vw_isAuthenticated v)
      in enabled = Undef \<or> truthy enabled)"

definition streaming_effect :: "app_view \<Rightarrow> data_action list" where
  "streaming_effect v =
     (let on = (vw_wsConnected v \<and> truthy (vw_subscription v))
      in [SetStreamingState (Bool on), SetConnectionMethod (Str (if on then ''websocket'' else ''api''))])"

datatype feed_command = Unsubscribe | Subscribe jsval string

text \<open>The commands for the feed and the new \<open>currentSubscriptionRef\<close>.\<close>

definition subscription_effect :: "app_view \<Rightarrow> jsval \<Rightarrow> feed_command list \<times> jsval" where
  "subscription_effect v current =
     (let newKey = vw_selectedSymbol v;
          expiryToUse = (if is_positive_number (vw_selectedExpiry v) then js_to_string (vw_selectedExpiry v) else [])
      in if \<not> vw_wsConnected v \<or> \<not> truthy (vw_isAuthenticated v) \<or> \<not> truthy (vw_isOc v) \<or> \<not> truthy newKey
           \<or> strict_eq current newKey
         then ([], current)
         else ((if truthy current then [Unsubscribe] else []) @ [Subscribe newKey expiryToUse], newKey))"

section \<open>Polling\<close>

definition custom_interval :: "jsval \<Rightarrow> string option \<Rightarrow> jsnum option" where
  "custom_interval user storedRate =
     (let prefRate = opt (opt user ''preferences'') ''refresh_rate''
      in if truthy prefRate then Some (to_number prefRate * N 1000)
         else if str_truthy storedRate then Some (parse_int (replace_first ''s'' [] (the storedRate)) * N 1000)
         else None)"

definition poll_interval :: "app_view \<Rightarrow> string option \<Rightarrow> jsnum" where
  "poll_interval v storedRate =
     or_num (custom_interval (vw_user v) storedRate) (if truthy (vw_isExpiryMatch v) then N 3000 else N 5000)"

record poll_state =
  po_intervals :: "(nat \<times> jsnum) list"
  po_ref :: "nat option"
  po_next :: nat
  po_fetches :: "jsval list"

definition poll_initial :: poll_state where
  "poll_initial = \<lparr>po_intervals = [], po_ref = None, po_next = 0, po_fetches = []\<rparr>"

definition clear_poll :: "poll_state \<Rightarrow> poll_state" where
  "clear_poll s =
     (case po_ref s of
        Some i \<Rightarrow> s\<lparr>po_intervals := filter (\<lambda>x. fst x \<noteq> i) (po_intervals s), po_ref := None\<rparr> | None \<Rightarrow> s)"

definition live_request :: "app_view \<Rightarrow> jsval" where
  "live_request v =
     Obj [(''sid'', vw_selectedSymbol v),
          (''exp_sid'', if is_positive_number (vw_selectedExpiry v) then vw_selectedExpiry v else Null)]"

definition streaming_suffices :: "app_view \<Rightarrow> bool" where
  "streaming_suffices v \<longleftrightarrow>
     truthy (vw_isExpiryMatch v) \<and> vw_wsConnected v \<and> truthy (vw_subscription v) \<and> \<not> truthy (vw_wsError v)"

definition may_fetch :: "app_view \<Rightarrow> bool" where
  "may_fetch v \<longleftrightarrow> truthy (vw_isAuthenticated v) \<and> truthy (vw_isOc v) \<and> truthy (vw_selectedSymbol v)"

text \<open>The effect and its clean-up (\<open>clear_poll\<close>, which only a run that started polling registers).\<close>

definition poll_effect :: "app_view \<Rightarrow> string option \<Rightarrow> poll_state \<Rightarrow> poll_state" where
  "poll_effect v storedRate s0 =
     (let s = clear_poll s0
      in if \<not> may_fetch v \<or> streaming_suffices v then s
         else s\<lparr>po_fetches := po_fetches s @ [live_request v],
                po_intervals := po_intervals s @ [(po_next s, poll_interval v storedRate)],
                po_ref := Some (po_next s), po_next := Suc (po_next s)\<rparr>)"

definition poll_ticks :: "app_view \<Rightarrow> poll_state \<Rightarrow> poll_state" where
  "poll_ticks v s = s\<lparr>po_fetches := po_fetches s @ [live_request v]\<rparr>"

section \<open>The other effects\<close>

definition theme_effect :: "app_view \<Rightarrow> bool" where
  "theme_effect v \<longleftrightarrow> strict_eq (vw_theme v) (Str ''dark'')"

text \<open>Every five minutes: an expired token starts the authentication again.\<close>

definition token_check :: "int \<Rightarrow> auth_env \<Rightarrow> (jsval \<times> auth_env) option" where
  "token_check now e =
     (let storedToken = str_or (local_item e ''authToken'') (session_item e ''authToken'')
      in if str_truthy storedToken \<and> isTokenExpired now storedToken then Some (initializeAuth now e) else None)"

definition header_effect :: "app_view \<Rightarrow> auth_env \<Rightarrow> auth_env" where
  "header_effect v e =
     e\<lparr>a_header := (if truthy (vw_token v) then Some (''Bearer '' @ js_to_string (vw_token v)) else None)\<rparr>"

text \<open>The first load: the symbol to load, if any, and the new value of \<open>initialLoadDoneRef\<close>.\<close>

definition initial_load :: "app_view \<Rightarrow> jsval \<Rightarrow> bool \<Rightarrow> jsval option \<times> bool" where
  "initial_load v symbol loaded =
     (if \<not> truthy (vw_authLoading v) \<and> truthy (vw_isAuthenticated v) \<and> truthy (vw_isOc v) \<and> truthy symbol \<and> \<not> loaded
      then (Some symbol, True) else (None, loaded))"

definition expiry_effect :: "app_view \<Rightarrow> data_action list" where
  "expiry_effect v =
     (let explist = path (vw_data v) [''fut'', ''data'', ''explist'']
      in if \<not> truthy (vw_authLoading v) \<and> truthy (opt explist ''length'') \<and> truthy (vw_isOc v) \<and> \<not> truthy (vw_exp_sid v)
         then (let firstExpiry = (case explist of Arr (x # _) \<Rightarrow> x | Str (c # _) \<Rightarrow> Str [c] | _ \<Rightarrow> opt explist ''0'')
               in if truthy firstExpiry then [SetExpSid firstExpiry] else [])
         else [])"

definition stop_effect :: "app_view \<Rightarrow> data_action list" where
  "stop_effect v =
     (if \<not> truthy (vw_authLoading v) \<and> (\<not> truthy (vw_isOc v) \<or> \<not> truthy (vw_isAuthenticated v)) \<and> truthy (vw_isStreaming v)
      then stopLiveStream else [])"

definition stop_cleanup :: "app_view \<Rightarrow> data_action list" where
  "stop_cleanup v = (if \<not> truthy (vw_authLoading v) \<and> truthy (vw_isStreaming v) then stopLiveStream else [])"

section \<open>The option-chain hook\<close>

record chain_hook =
  cy_isPaused :: bool
  cy_lastUpdated :: "int option"
  cy_isInitialLoad :: bool

definition chain_initial :: chain_hook where
  "chain_initial = \<lparr>cy_isPaused = False, cy_lastUpdated = None, cy_isInitialLoad = True\<rparr>"

definition hasData :: "jsval \<Rightarrow> bool" where
  "hasData data \<longleftrightarrow> truthy data \<and> truthy (opt data ''oc'') \<and> object_keys (opt data ''oc'') \<noteq> []"

text \<open>\<open>changed\<close>: the data is another object than at the last run.\<close>

definition track_updates :: "int \<Rightarrow> jsval \<Rightarrow> bool \<Rightarrow> chain_hook \<Rightarrow> chain_hook" where
  "track_updates now data changed s =
     (if truthy data \<and> changed then s\<lparr>cy_lastUpdated := Some now, cy_isInitialLoad := False\<rparr> else s)"

definition handleRefresh :: "jsval \<Rightarrow> jsval \<Rightarrow> jsval option" where
  "handleRefresh symbol expiry =
     (if truthy symbol
      then Some (Obj [(''symbol'', symbol),
                      (''expiry'', if is_positive_number expiry then Str (js_to_string expiry) else Null)])
      else None)"

definition togglePause :: "chain_hook \<Rightarrow> chain_hook" where
  "togglePause s = s\<lparr>cy_isPaused := \<not> cy_isPaused s\<rparr>"

section \<open>The market-data hook\<close>

text \<open>Every method: it starts, and it finishes with the outcome of its service, which it passes on.\<close>

record market_hook =
  mh_loading :: bool
  mh_error :: jsval

definition market_hook_initial :: market_hook where
  "market_hook_initial = \<lparr>mh_loading = False, mh_error = Null\<rparr>"

definition market_begin :: "market_hook \<Rightarrow> market_hook" where
  "market_begin s = s\<lparr>mh_loading := True, mh_error := Null\<rparr>"

definition market_end :: "jsval result \<Rightarrow> market_hook \<Rightarrow> jsval result \<times> market_hook" where
  "market_end outcome s =
     (outcome, case outcome of
        Inr d \<Rightarrow> s\<lparr>mh_loading := False\<rparr>
      | Inl e \<Rightarrow> s\<lparr>mh_error := opt (caught e) ''message'', mh_loading := False\<rparr>)"

section \<open>Properties\<close>

lemma clear_poll_facts: "po_intervals (clear_poll s) = (case po_ref s of Some i \<Rightarrow> filter (\<lambda>x. fst x \<noteq> i) (po_intervals s) | None \<Rightarrow> po_intervals s)"
  "po_ref (clear_poll s) = None" "po_next (clear_poll s) = po_next s" "po_fetches (clear_poll s) = po_fetches s"
  by (simp_all add: clear_poll_def split: option.split)

definition polls :: "app_view option \<Rightarrow> bool" where
  "polls w \<longleftrightarrow> (case w of Some v \<Rightarrow> may_fetch v \<and> \<not> streaming_suffices v | None \<Rightarrow> False)"

text \<open>The provider's life: its effect runs for new views, intervals fire, the component goes.  The first
  argument is the view of the last run.\<close>

inductive poll_reachable :: "app_view option \<Rightarrow> poll_state \<Rightarrow> bool" where
  init: "poll_reachable None poll_initial"
| runs: "poll_reachable w s \<Longrightarrow> poll_reachable (Some v) (poll_effect v rate (if polls w then clear_poll s else s))"
| fires: "poll_reachable w s \<Longrightarrow> po_intervals s \<noteq> [] \<Longrightarrow> poll_reachable w (poll_ticks v s)"
| unmounts: "poll_reachable w s \<Longrightarrow> poll_reachable None (if polls w then clear_poll s else s)"

definition poll_inv :: "bool \<Rightarrow> poll_state \<Rightarrow> bool" where
  "poll_inv on s \<longleftrightarrow>
     (if on then \<exists>i d. po_ref s = Some i \<and> po_intervals s = [(i, d)] else po_ref s = None \<and> po_intervals s = [])"

lemma poll_inv_clear: "poll_inv on s \<Longrightarrow> poll_inv False (clear_poll s)"
  by (auto simp: poll_inv_def clear_poll_facts split: if_splits)

lemma poll_inv_effect: "poll_inv on s \<Longrightarrow> poll_inv (polls (Some v)) (poll_effect v rate s)"
  using poll_inv_clear [of on s] by (auto simp: poll_effect_def polls_def poll_inv_def Let_def)

text \<open>
  C28: In every order of renders, timer ticks and unmounting, at most one polling interval runs, and it is the one the
  ref holds.  After a render that finds somebody signed in on the option chain with a symbol, it runs exactly when one of
  these fails: the expiries are marked as matching, the feed is connected, it has a subscription, it shows no error.
  Without a user, the option chain or a symbol, and after the provider has gone, no interval is left.
\<close>

theorem one_data_source:
  assumes "poll_reachable w s"
  shows "if \<exists>v. w = Some v \<and> truthy (vw_isAuthenticated v) \<and> truthy (vw_isOc v) \<and> truthy (vw_selectedSymbol v)
           \<and> \<not> (truthy (vw_isExpiryMatch v) \<and> vw_wsConnected v \<and> truthy (vw_subscription v) \<and> \<not> truthy (vw_wsError v))
         then \<exists>i d. po_intervals s = [(i, d)] \<and> po_ref s = Some i
         else po_intervals s = [] \<and> po_ref s = None"
proof -
  have polls: "(\<exists>v. w = Some v \<and> truthy (vw_isAuthenticated v) \<and> truthy (vw_isOc v) \<and> truthy (vw_selectedSymbol v)
           \<and> \<not> (truthy (vw_isExpiryMatch v) \<and> vw_wsConnected v \<and> truthy (vw_subscription v) \<and> \<not> truthy (vw_wsError v)))
        \<longleftrightarrow> polls w"
    by (cases w) (simp_all add: polls_def may_fetch_def streaming_suffices_def)
  from assms have "poll_inv (polls w) s"
  proof (induction rule: poll_reachable.induct)
    case init
    then show ?case by (simp add: poll_inv_def polls_def poll_initial_def)
  next
    case (runs w s v rate)
    have "\<exists>on. poll_inv on (if polls w then clear_poll s else s)"
      using runs.IH poll_inv_clear by (cases "polls w") auto
    then show ?case using poll_inv_effect by blast
  next
    case (fires w s v)
    then show ?case by (auto simp: poll_inv_def poll_ticks_def split: if_splits)
  next
    case (unmounts w s)
    then show ?case using poll_inv_clear [OF unmounts.IH] by (auto simp: polls_def split: if_splits)
  qed
  then show ?thesis unfolding polls by (auto simp: poll_inv_def)
qed

definition sample_view :: app_view where
  "sample_view =
     \<lparr>vw_wsConnected = False, vw_subscription = Null, vw_wsError = Null, vw_isAuthenticated = Bool True,
      vw_authLoading = Bool False, vw_isOc = Bool True, vw_selectedSymbol = Str ''NIFTY'', vw_selectedExpiry = Null,
      vw_isExpiryMatch = Bool True, vw_ingestedExpiry = Null, vw_user = Null, vw_token = Undef, vw_theme = Str ''dark'',
      vw_data = Obj [], vw_isStreaming = Bool False, vw_exp_sid = Null\<rparr>"

text \<open>A render without a connection starts polling; the next, with an error beside the stream, goes on with a new interval.\<close>

theorem one_data_source_witness:
  "length (po_intervals (poll_effect sample_view None poll_initial)) = 1
   \<and> (\<exists>s i d. poll_reachable (Some (sample_view\<lparr>vw_wsConnected := True, vw_subscription := Str ''NIFTY'',
        vw_wsError := Str ''closed''\<rparr>)) s \<and> po_intervals s = [(i, d)] \<and> po_ref s = Some i)"
proof -
  let ?v = "sample_view\<lparr>vw_wsConnected := True, vw_subscription := Str ''NIFTY'', vw_wsError := Str ''closed''\<rparr>"
  have first: "poll_reachable (Some sample_view) (poll_effect sample_view None poll_initial)"
    using poll_reachable.runs [OF poll_reachable.init, of sample_view None] by (simp add: polls_def)
  from one_data_source [OF first] have "length (po_intervals (poll_effect sample_view None poll_initial)) = 1"
    by (auto simp: sample_view_def split: if_splits)
  moreover obtain s where second: "poll_reachable (Some ?v) s" using poll_reachable.runs [OF first, of ?v None] by blast
  from one_data_source [OF second] have "\<exists>i d. po_intervals s = [(i, d)] \<and> po_ref s = Some i"
    by (simp add: sample_view_def)
  ultimately show ?thesis using second by blast
qed

text \<open>
  The mark does not say which expiry the feed streams: the list of expiries from the backend sets it together with the
  selected expiry.  When the feed then sends another expiry, its messages change nothing, the mark stays and nothing polls.
\<close>

lemma other_expiry_starves:
  assumes list: "has_elements (expiry_dates_of payload)" "getLatestExpiry (expiry_dates_of payload) = Inr latest"
    and days: "falls_on latest m d" "falls_on (incomingExpiry raw) m' d'" "\<not> (m = m' \<and> d = d')"
    and message: "truthy (opt raw ''oc'')" "\<not> type_is raw ''error''"
    and view: "vw_wsConnected v" "truthy (vw_subscription v)" "\<not> truthy (vw_wsError v)" "truthy (vw_isExpiryMatch v)"
  shows "\<exists>s. expiryFulfilled payload s0 = Inr s \<and> d_isExpiryMatch s \<and> d_exp_sid s = latest
       \<and> handleWebSocketData (d_ingestedExpiry s) raw = [UpdateLiveData raw] \<and> data_reducer s (UpdateLiveData raw) = Inr s
       \<and> \<not> polls (Some v)"
proof -
  let ?s = "s0\<lparr>d_expDate := expiry_dates_of payload, d_exp_sid := latest, d_ingestedExpiry := latest,
              d_isExpiryMatch := True, d_loading := False\<rparr>"
  have t: "truthy latest" using falls_on_normalized(1) [OF days(1)] .
  have raw: "truthy raw" using message(1) by (cases raw) auto
  have "expiry_mismatch ?s raw" using mismatch_iff_other_day [of ?s m d raw m' d'] days by simp
  then have "data_reducer ?s (UpdateLiveData raw) = Inr ?s" by (simp add: updateLiveData_def)
  moreover have "handleWebSocketData latest raw = [UpdateLiveData raw]"
    using t raw message by (simp add: handleWebSocketData_def Let_def)
  moreover have "expiryFulfilled payload s0 = Inr ?s" using list t by (simp add: expiryFulfilled_def Let_def)
  ultimately show ?thesis using view by (intro exI [of _ ?s]) (simp add: polls_def streaming_suffices_def)
qed

section \<open>After a lost connection\<close>

lemma command_fields:
  "f_subscription (feed_onopen i s) = f_subscription s" "f_subscription (feed_connect thrown s) = f_subscription s"
  by (simp_all add: feed_onopen_def feed_connect_def Let_def split: option.split)

text \<open>
  A lost connection is made again but the stream is not: after the close, the reconnect timer and the new
  opening the feed has no subscription; whatever renders follow for the same symbol, the provider sends no
  subscribe command, because its ref still names the symbol, and polls from then on.
\<close>

theorem stream_never_resumes:
  assumes "s1 = feed_onopen i (feed_timer t None (feed_onclose cfg wasClean random j s))"
    and "\<forall>v \<in> set views. vw_selectedSymbol v = Str symbol" and "symbol \<noteq> []"
    and "v \<in> set views" and "may_fetch v" and "vw_subscription v = f_subscription s1"
  shows "f_subscription s1 = Null \<and> fold (\<lambda>v acc. let (cs, r) = subscription_effect v (snd acc) in (fst acc @ cs, r)) views
           ([], Str symbol) = ([], Str symbol)
       \<and> polls (Some v)"
proof -
  have none: "f_subscription s1 = Null"
    by (simp add: assms(1) command_fields feed_timer_def feed_onclose_def Let_def)
  have "fold (\<lambda>v acc. let (cs, r) = subscription_effect v (snd acc) in (fst acc @ cs, r)) vs ([], Str symbol) = ([], Str symbol)"
    if "\<forall>v \<in> set vs. vw_selectedSymbol v = Str symbol" for vs
    using that by (induction vs) (simp_all add: subscription_effect_def Let_def)
  then show ?thesis using none assms(2,5,6) by (simp add: polls_def streaming_suffices_def)
qed

definition reopened :: feed_state where
  "reopened = feed_onopen 1 (feed_timer 0 None (feed_onclose (feed_defaults []) False (Fin 0) 0
     (feed_onopen 0 feed_connecting)))"

theorem stream_never_resumes_witness:
  "polls (Some (sample_view\<lparr>vw_wsConnected := f_isConnected reopened, vw_subscription := f_subscription reopened\<rparr>))
   \<and> f_isConnected reopened"
proof -
  let ?v = "sample_view\<lparr>vw_wsConnected := f_isConnected reopened, vw_subscription := f_subscription reopened\<rparr>"
  have "\<forall>v \<in> set [?v]. vw_selectedSymbol v = Str ''NIFTY''" "?v \<in> set [?v]" "may_fetch ?v" "''NIFTY'' \<noteq> []"
    by (simp_all add: sample_view_def may_fetch_def)
  then have "polls (Some ?v)" using stream_never_resumes [OF reopened_def, of "[?v]" "''NIFTY''" ?v] by fastforce
  then show ?thesis by (simp add: reopened_def feed_onopen_def Let_def)
qed

section \<open>Dead wiring\<close>

text \<open>
  The provider reads the token from a field the authentication slice does not have: its effect always
  removes the default header, also the one that the start of the application has just set.
\<close>

lemma provider_removes_header:
  "a_header (header_effect (app_view_of s feed) (snd (initializeAuth now e))) = None"
  using dead_selectors by (simp add: header_effect_def app_view_of_def Let_def)

text \<open>The refresh of the option-chain hook names its arguments differently from the thunk, which ignores them.\<close>

lemma refresh_arguments_ignored:
  assumes "handleRefresh symbol expiry = Some params"
  shows "live_params params s = live_params Undef s"
  using assms by (auto simp: handleRefresh_def live_params_def split: if_splits)

text \<open>Two overlapping calls of the market-data hook: the first to finish switches the spinner off.\<close>

lemma loading_ends_early:
  "\<not> mh_loading (snd (market_end outcome (market_begin (market_begin s))))"
  by (simp add: market_end_def market_begin_def split: sum.split)

end
