(* ===== verification/Market_Maker.thy ===== *)
theory Market_Maker
  imports Quant_Utils Chart_Utils Selectors
begin

text \<open>
  The market-maker positioning panel (src/components/analytics/MarketMakerPositioning.jsx): the exposures of
  the dealers per strike and in total, the strength of a level, the gamma regime, max pain, the key levels
  and the narrative (src/utils/marketNarrative.js).  Numeric fields of the chain are numbers where they are
  given.  The operator \<open>**\<close> is a parameter (\<open>mpow\<close>).
\<close>

section \<open>Configuration\<close>

definition cfg_visibleStrikes :: int where "cfg_visibleStrikes = 12"
definition cfg_significantGEX :: jsnum where "cfg_significantGEX = N (3 / 10)"
definition cfg_majorGEX :: jsnum where "cfg_majorGEX = N (4 / 5)"
definition cfg_minOI :: jsnum where "cfg_minOI = N 40000"
definition cfg_moderateLevelRatio :: jsnum where "cfg_moderateLevelRatio = N (3 / 2)"
definition cfg_pinRiskOI :: jsnum where "cfg_pinRiskOI = N 250000"
definition cfg_institutionalGEX :: jsnum where "cfg_institutionalGEX = N 1"
definition cfg_institutionalDelta :: jsnum where "cfg_institutionalDelta = N 10000000"

section \<open>Statistics\<close>

definition mm_mean :: "jsnum list \<Rightarrow> jsnum" where
  "mm_mean arr = (if arr \<noteq> [] then jsum arr / jlen arr else Fin 0)"

definition mm_stdDev :: "(jsnum \<Rightarrow> jsnum \<Rightarrow> jsnum) \<Rightarrow> jsnum list \<Rightarrow> jsnum" where
  "mm_stdDev mpow arr =
     (if length arr < 2 then N 1
      else let m = mm_mean arr
           in num_or (jsqrt (foldl (\<lambda>acc v. acc + mpow (v - m) (N 2)) (Fin 0) arr / jlen arr)) (N 1))"

definition mm_zScore :: "jsnum \<Rightarrow> jsnum \<Rightarrow> jsnum \<Rightarrow> jsnum" where
  "mm_zScore value m sd = (if sd > Fin 0 then (value - m) / sd else Fin 0)"

text \<open>The upper fence; the quartile indices \<open>n * 0.25\<close> and \<open>n * 0.75\<close> are exact for array lengths.\<close>

definition mm_upperBound :: "jsnum list \<Rightarrow> jsnum" where
  "mm_upperBound arr =
     (if length arr < 4 then PInf
      else let sorted = sort_numbers arr; a = sorted ! (length sorted div 4);
               b = sorted ! (3 * length sorted div 4)
           in b + N (3 / 2) * (b - a))"

definition mm_normalize :: "jsnum \<Rightarrow> jsnum" where
  "mm_normalize z = jmin (N 100) (jmax (Fin 0) (z * N 20 + N 50))"

definition formatNumber :: "jsnum \<Rightarrow> string" where
  "formatNumber x =
     (if \<not> num_truthy x then ''0''
      else if abs x \<ge> N 10000000 then to_fixed 2 (x / N 10000000) @ ''Cr''
      else if abs x \<ge> N 100000 then to_fixed 2 (x / N 100000) @ ''L''
      else if abs x \<ge> N 1000 then to_fixed 1 (x / N 1000) @ ''K''
      else to_fixed 0 x)"

section \<open>Levels\<close>

text \<open>A strike of the chain as it is read.\<close>

record chain_row =
  rw_strike :: jsnum
  rw_ceOI :: jsnum
  rw_peOI :: jsnum
  rw_ceOIChg :: jsnum
  rw_peOIChg :: jsnum
  rw_ceDelta :: jsnum
  rw_peDelta :: jsnum
  rw_ceGamma :: jsnum
  rw_peGamma :: jsnum
  rw_ceVega :: jsnum
  rw_peVega :: jsnum
  rw_ceTheta :: jsnum
  rw_peTheta :: jsnum
  rw_ceLTP :: jsnum
  rw_peLTP :: jsnum
  rw_ceVol :: jsnum
  rw_peVol :: jsnum
  rw_ceIV :: jsval
  rw_peIV :: jsval

definition greek :: "jsval \<Rightarrow> string \<Rightarrow> jsnum \<Rightarrow> jsnum" where
  "greek leg k d = to_number (js_or (opt (js_or (opt leg ''optgeeks'') (Obj [])) k) (Num d))"

text \<open>\<open>data.ce\<close> throws when the entry is null; \<open>atmIV\<close> replaces a missing volatility.\<close>

definition read_row :: "jsval \<Rightarrow> string \<times> jsval \<Rightarrow> chain_row result" where
  "read_row atmIV entry =
     res_bind (get (snd entry) ''ce'') (\<lambda>ce. res_bind (get (snd entry) ''pe'') (\<lambda>pe. Inr
       \<lparr>rw_strike = parse_float (fst entry),
        rw_ceOI = either_num ce [''oi'', ''OI''], rw_peOI = either_num pe [''oi'', ''OI''],
        rw_ceOIChg = either_num ce [''oichng'', ''oi_change''], rw_peOIChg = either_num pe [''oichng'', ''oi_change''],
        rw_ceDelta = greek ce ''delta'' (N (1 / 2)), rw_peDelta = greek pe ''delta'' (N (- 1 / 2)),
        rw_ceGamma = greek ce ''gamma'' (Fin 0), rw_peGamma = greek pe ''gamma'' (Fin 0),
        rw_ceVega = greek ce ''vega'' (Fin 0), rw_peVega = greek pe ''vega'' (Fin 0),
        rw_ceTheta = greek ce ''theta'' (Fin 0), rw_peTheta = greek pe ''theta'' (Fin 0),
        rw_ceLTP = either_num ce [''ltp''], rw_peLTP = either_num pe [''ltp''],
        rw_ceVol = either_num ce [''vol''], rw_peVol = either_num pe [''vol''],
        rw_ceIV = js_or (opt ce ''iv'') atmIV, rw_peIV = js_or (opt pe ''iv'') atmIV\<rparr>))"

definition significant :: "chain_row \<Rightarrow> bool" where
  "significant r \<longleftrightarrow> \<not> (rw_ceOI r + rw_peOI r < cfg_minOI)"

record mm_level =
  lv_strike :: jsnum
  lv_gex :: jsnum
  lv_callGEX :: jsnum
  lv_putGEX :: jsnum
  lv_callOI :: jsnum
  lv_putOI :: jsnum
  lv_totalOI :: jsnum
  lv_oiChg :: jsnum
  lv_delta :: jsnum
  lv_gamma :: jsnum
  lv_vega :: jsnum
  lv_theta :: jsnum
  lv_deltaExposure :: jsnum
  lv_premium :: jsnum
  lv_smartMoneyScore :: jsnum
  lv_gammaVelocity :: jsnum
  lv_gravity :: jsnum
  lv_vannaFlow :: jsnum
  lv_charmFlow :: jsnum
  lv_isSupport :: bool
  lv_isResistance :: bool

definition gex_multiplier :: "jsnum \<Rightarrow> jsnum \<Rightarrow> jsnum" where
  "gex_multiplier spotPrice lotSize = spotPrice * spotPrice * N (1 / 100) * lotSize / N 10000000"

text \<open>A greek of the dealers' book at a strike: the opposite of the clients' positions.\<close>

definition dealer_greek :: "jsnum \<Rightarrow> jsnum \<Rightarrow> jsnum \<Rightarrow> chain_row \<Rightarrow> jsnum" where
  "dealer_greek lotSize ceG peG r = - (ceG * rw_ceOI r + peG * rw_peOI r) * lotSize"

definition gravity_of :: "jsnum \<Rightarrow> chain_row \<Rightarrow> jsnum" where
  "gravity_of spotPrice r =
     (let distance = abs (rw_strike r - spotPrice)
      in if distance < N 10 then Fin 0 else (rw_ceOI r + rw_peOI r) / (distance * distance))"

definition level_at :: "jsnum \<Rightarrow> jsnum \<Rightarrow> chain_row \<Rightarrow> mm_level" where
  "level_at spotPrice lotSize r =
     (let multiplier = gex_multiplier spotPrice lotSize; ceOI = rw_ceOI r; peOI = rw_peOI r;
          callGEX = rw_ceGamma r * ceOI * multiplier; putGEX = - rw_peGamma r * peOI * multiplier;
          deltaExposure = abs (rw_ceDelta r) * ceOI + abs (rw_peDelta r) * peOI;
          ceVOI = rw_ceVol r / num_or ceOI (N 1) * rw_ceOIChg r;
          peVOI = rw_peVol r / num_or peOI (N 1) * rw_peOIChg r
      in \<lparr>lv_strike = rw_strike r, lv_gex = callGEX + putGEX, lv_callGEX = callGEX, lv_putGEX = putGEX,
          lv_callOI = ceOI, lv_putOI = peOI, lv_totalOI = ceOI + peOI, lv_oiChg = rw_ceOIChg r + rw_peOIChg r,
          lv_delta = dealer_greek lotSize (rw_ceDelta r) (rw_peDelta r) r,
          lv_gamma = (rw_ceGamma r + rw_peGamma r) / N 2,
          lv_vega = dealer_greek lotSize (rw_ceVega r) (rw_peVega r) r,
          lv_theta = dealer_greek lotSize (rw_ceTheta r) (rw_peTheta r) r,
          lv_deltaExposure = deltaExposure * lotSize,
          lv_premium = rw_ceLTP r * ceOI * lotSize + rw_peLTP r * peOI * lotSize,
          lv_smartMoneyScore = (ceVOI + peVOI) / N 10000,
          lv_gammaVelocity = (rw_ceGamma r * rw_ceOIChg r - rw_peGamma r * rw_peOIChg r) * multiplier,
          lv_gravity = gravity_of spotPrice r,
          lv_vannaFlow = (rw_ceVega r * ceOI + rw_peVega r * peOI) * N (1 / 100) * lotSize * N (- 1),
          lv_charmFlow = (rw_ceTheta r * ceOI + rw_peTheta r * peOI) * N (1 / 10) * lotSize * N (- 1),
          lv_isSupport = (peOI > ceOI * cfg_moderateLevelRatio),
          lv_isResistance = (ceOI > peOI * cfg_moderateLevelRatio)\<rparr>)"

text \<open>The implied volatilities about 5\% out of the money; the code pushes every call twice.\<close>

definition moneyness :: "jsnum \<Rightarrow> chain_row \<Rightarrow> jsnum" where
  "moneyness spotPrice r = (rw_strike r - spotPrice) / spotPrice"

definition otmCallIVs :: "jsnum \<Rightarrow> chain_row list \<Rightarrow> jsval list" where
  "otmCallIVs spotPrice rs = concat (map (\<lambda>r.
     let distPct = moneyness spotPrice r
     in if distPct > N (1 / 25) \<and> distPct < N (3 / 50) \<and> rw_ceLTP r > Fin 0 then [rw_ceIV r, rw_ceIV r] else []) rs)"

definition otmPutIVs :: "jsnum \<Rightarrow> chain_row list \<Rightarrow> jsval list" where
  "otmPutIVs spotPrice rs = concat (map (\<lambda>r.
     let distPct = moneyness spotPrice r
     in if distPct < N (- 1 / 25) \<and> distPct > N (- 3 / 50) \<and> rw_peLTP r > Fin 0 then [rw_peIV r] else []) rs)"

section \<open>The strength of a level\<close>

record benchmarks =
  bm_oi :: "jsnum \<times> jsnum"
  bm_oiUpperBound :: jsnum
  bm_gex :: "jsnum \<times> jsnum"
  bm_delta :: "jsnum \<times> jsnum"
  bm_vega :: "jsnum \<times> jsnum"

definition benchmarks_of :: "(jsnum \<Rightarrow> jsnum \<Rightarrow> jsnum) \<Rightarrow> mm_level list \<Rightarrow> benchmarks" where
  "benchmarks_of mpow levels =
     (let values = (\<lambda>f. filter (\<lambda>v. v > Fin 0) (map f levels)); summary = (\<lambda>vs. (mm_mean vs, mm_stdDev mpow vs));
          oiValues = values lv_totalOI
      in \<lparr>bm_oi = summary oiValues, bm_oiUpperBound = mm_upperBound oiValues,
          bm_gex = summary (values (\<lambda>l. abs (lv_gex l))), bm_delta = summary (values (\<lambda>l. abs (lv_delta l))),
          bm_vega = summary (values (\<lambda>l. abs (lv_vega l)))\<rparr>)"

text \<open>A factor: its name, its z-score, its score and its weight in percent.\<close>

type_synonym level_factor = "string \<times> jsnum \<times> jsnum \<times> int"

definition oi_change_score :: "jsnum \<Rightarrow> jsnum" where
  "oi_change_score oiChg =
     (if oiChg > N 30000 then N 90 else if oiChg > N 15000 then N 75
      else if oiChg < N (- 15000) then N 25 else if oiChg < N (- 30000) then N 10 else N 50)"

definition z_factor :: "string \<Rightarrow> jsnum \<Rightarrow> jsnum \<times> jsnum \<Rightarrow> int \<Rightarrow> level_factor" where
  "z_factor n v b w = (let z = mm_zScore v (fst b) (snd b) in (n, z, mm_normalize z, w))"

definition concentration_ratio :: "mm_level \<Rightarrow> jsnum" where
  "concentration_ratio l =
     (if lv_isSupport l then lv_putOI l / jmax (lv_callOI l) (N 1) else lv_callOI l / jmax (lv_putOI l) (N 1))"

definition level_factors :: "mm_level \<Rightarrow> jsnum \<Rightarrow> benchmarks \<Rightarrow> level_factor list" where
  "level_factors l spotPrice b =
     [z_factor ''oiMagnitude'' (lv_totalOI l) (bm_oi b) 22,
      z_factor ''gexContrib'' (abs (lv_gex l)) (bm_gex b) 20,
      z_factor ''deltaExp'' (abs (lv_delta l)) (bm_delta b) 15,
      (''concentration'', Fin 0, jmin (N 100) (concentration_ratio l * N 25), 15),
      (''proximity'', Fin 0, jmax (Fin 0) (N 100 - abs (lv_strike l - spotPrice) / N 2), 12),
      (''oiChange'', Fin 0, oi_change_score (lv_oiChg l), 10),
      z_factor ''vegaSens'' (abs (lv_vega l)) (bm_vega b) 6]"

text \<open>The sum runs over the factors in the order in which they are computed; the weights are
  LEVEL\_SCORING\_WEIGHTS, the percentages as decimal fractions.\<close>

definition total_score :: "level_factor list \<Rightarrow> jsnum" where
  "total_score fs = foldl (\<lambda>acc (n, z, score, weight). acc + score * N (of_int weight / 100)) (Fin 0) fs"

definition level_status :: "jsnum \<Rightarrow> string" where
  "level_status oiChg =
     (if oiChg > N 20000 then ''building'' else if oiChg < N (- 20000) then ''weakening'' else ''stable'')"

record scored_level = mm_level +
  sl_strength :: jsnum
  sl_factors :: "level_factor list"
  sl_status :: string
  sl_hasPinRisk :: bool
  sl_isAnomaly :: bool
  sl_isInstitutional :: bool

definition calculateLevelStrength :: "mm_level \<Rightarrow> jsnum \<Rightarrow> benchmarks \<Rightarrow> scored_level" where
  "calculateLevelStrength l spotPrice b =
     (let factors = level_factors l spotPrice b
      in mm_level.extend l (scored_level.fields
           (jmin (N 100) (total_score factors)) factors (level_status (lv_oiChg l))
           (lv_gamma l > N (1 / 250) \<and> lv_totalOI l > cfg_pinRiskOI)
           (lv_totalOI l > bm_oiUpperBound b)
           (abs (lv_gex l) \<ge> cfg_institutionalGEX \<or> abs (lv_delta l) \<ge> cfg_institutionalDelta)))"

section \<open>The positioning\<close>

record mm_regime =
  rg_name :: string
  rg_confidence :: jsnum
  rg_description :: string

definition regime_of :: "jsnum \<Rightarrow> mm_regime" where
  "regime_of totalGEX =
     (if totalGEX > cfg_majorGEX then
        \<lparr>rg_name = ''stabilizing'', rg_confidence = jmin (N 95) (N 60 + totalGEX * N 15),
         rg_description = ''Positive gamma: MMs buy dips, sell rallies (mean-reverting)''\<rparr>
      else if totalGEX < - cfg_majorGEX then
        \<lparr>rg_name = ''volatile'', rg_confidence = jmin (N 95) (N 60 + abs totalGEX * N 15),
         rg_description = ''Negative gamma: MMs amplify moves (trending)''\<rparr>
      else if totalGEX > cfg_significantGEX then
        \<lparr>rg_name = ''mildly_stabilizing'', rg_confidence = jmin (N 75) (N 50 + totalGEX * N 20),
         rg_description = ''Slightly positive gamma: mild mean-reversion expected''\<rparr>
      else if totalGEX < - cfg_significantGEX then
        \<lparr>rg_name = ''mildly_volatile'', rg_confidence = jmin (N 75) (N 50 + abs totalGEX * N 20),
         rg_description = ''Slightly negative gamma: some trend amplification''\<rparr>
      else \<lparr>rg_name = ''neutral'', rg_confidence = N 50, rg_description = ''Mixed gamma environment''\<rparr>)"

definition hedge_direction :: "jsnum \<Rightarrow> string" where
  "hedge_direction netDelta =
     (if netDelta > Fin 0 then ''long'' else if netDelta < Fin 0 then ''short'' else ''neutral'')"

definition hedge_interpretation :: "string \<Rightarrow> jsnum \<Rightarrow> string" where
  "hedge_interpretation hedgeDirection hedgeSize =
     (if hedgeDirection = ''long'' then ''MMs need to sell '' @ formatNumber hedgeSize @ '' delta to hedge''
      else if hedgeDirection = ''short'' then ''MMs need to buy '' @ formatNumber hedgeSize @ '' delta to hedge''
      else ''MMs are delta neutral'')"

text \<open>The strike at which the cumulated exposure last changes its sign.\<close>

definition flip_step :: "jsnum \<times> jsnum option \<Rightarrow> scored_level \<Rightarrow> jsnum \<times> jsnum option" where
  "flip_step acc l =
     (let prev = fst acc; cumulativeGEX = prev + lv_gex l
      in (cumulativeGEX,
          if (prev < Fin 0 \<and> cumulativeGEX \<ge> Fin 0) \<or> (prev > Fin 0 \<and> cumulativeGEX \<le> Fin 0)
          then Some (lv_strike l) else snd acc))"

definition gamma_flip :: "scored_level list \<Rightarrow> jsnum option" where
  "gamma_flip levels = snd (foldl flip_step (Fin 0, None) levels)"

text \<open>What the writers pay when the price is \<open>p\<close>, level by level.\<close>

definition payout_at :: "jsnum \<Rightarrow> 'a mm_level_scheme \<Rightarrow> jsnum" where
  "payout_at p l =
     jmax (Fin 0) (p - lv_strike l) * lv_callOI l + jmax (Fin 0) (lv_strike l - p) * lv_putOI l"

definition total_loss :: "'a mm_level_scheme list \<Rightarrow> jsnum \<Rightarrow> jsnum" where
  "total_loss levels p = jsum (map (payout_at p) levels)"

definition max_pain_level :: "mm_level list \<Rightarrow> jsnum" where
  "max_pain_level levels = snd (foldl (argmin_step (total_loss levels)) (PInf, Fin 0) (map lv_strike levels))"

definition liability_step :: "jsnum \<Rightarrow> jsnum \<Rightarrow> mm_level \<Rightarrow> jsnum" where
  "liability_step spotPrice acc l =
     acc + jmax (Fin 0) (spotPrice - lv_strike l) * lv_callOI l + jmax (Fin 0) (lv_strike l - spotPrice) * lv_putOI l"

definition pain_ratio :: "jsnum \<Rightarrow> jsnum \<Rightarrow> mm_level list \<Rightarrow> jsnum" where
  "pain_ratio spotPrice lotSize levels =
     (let currentLiability = foldl (liability_step spotPrice) (Fin 0) levels * lotSize
      in if num_eq currentLiability (Fin 0) then N 10
         else foldl (\<lambda>acc l. acc + lv_premium l) (Fin 0) levels / currentLiability)"

definition key_levels :: "(scored_level \<Rightarrow> bool) \<Rightarrow> scored_level list \<Rightarrow> scored_level list" where
  "key_levels P levels = take 5 (js_sort (\<lambda>a b. sl_strength b - sl_strength a) (filter P levels))"

definition iv_skew :: "jsval \<Rightarrow> jsval list \<Rightarrow> jsval list \<Rightarrow> jsnum" where
  "iv_skew atmIV callIVs putIVs =
     (let avg = (\<lambda>ivs. num_or (mm_mean (map to_number ivs)) (to_number atmIV)) in avg putIVs - avg callIVs)"

text \<open>\<open>fitVolatilitySmile\<close> reads \<open>strike\<close> and \<open>iv\<close> of its points; the panel passes the volatilities
  themselves, which have neither, and \<open>undefined\<close> where none is known.\<close>

definition as_point :: "jsval \<Rightarrow> (jsnum \<times> jsnum) result" where
  "as_point v =
     res_bind (get v ''iv'') (\<lambda>iv. res_bind (get v ''strike'') (\<lambda>strike. Inr (to_number strike, to_number iv)))"

definition vol_smile :: "jsval list \<Rightarrow> jsval list \<Rightarrow> jsnum \<Rightarrow> smile result" where
  "vol_smile callIVs putIVs atmStrike =
     res_bind (res_map as_point putIVs) (\<lambda>ps. res_bind (res_map as_point callIVs) (\<lambda>cs.
       Inr (fitVolatilitySmile cs ps atmStrike)))"

record mm_result =
  mm_totalGEX :: jsnum
  mm_netDelta :: jsnum
  mm_netGamma :: jsnum
  mm_netVega :: jsnum
  mm_netTheta :: jsnum
  mm_gammaFlip :: "jsnum option"
  mm_hedgeDirection :: string
  mm_hedgeSize :: jsnum
  mm_hedgeInterpretation :: string
  mm_supportLevels :: "scored_level list"
  mm_resistanceLevels :: "scored_level list"
  mm_levels :: "scored_level list"
  mm_regime_of :: mm_regime
  mm_pinRisk :: "bool option"
  mm_atmLevel :: "scored_level option"
  mm_totalCallOI :: jsnum
  mm_totalPutOI :: jsnum
  mm_pcr :: jsnum
  mm_bullishLevels :: nat
  mm_bearishLevels :: nat
  mm_institutionalLevels :: nat
  mm_anomalyLevels :: nat
  mm_maxPainStrike :: jsnum
  mm_ivSkew :: jsnum
  mm_narrative :: narrative
  mm_painThresholdRatio :: jsnum
  mm_netVannaFlow :: jsnum
  mm_netCharmFlow :: jsnum
  mm_oiRegression :: oi_regression
  mm_volSmile :: smile
  mm_probCones :: cones

definition score_levels :: "(jsnum \<Rightarrow> jsnum \<Rightarrow> jsnum) \<Rightarrow> jsnum \<Rightarrow> mm_level list \<Rightarrow> scored_level list" where
  "score_levels mpow spotPrice levels =
     map (\<lambda>l. calculateLevelStrength l spotPrice (benchmarks_of mpow levels)) levels"

definition position_of ::
  "(jsnum \<Rightarrow> jsnum \<Rightarrow> jsnum) \<Rightarrow> jsnum \<Rightarrow> jsnum \<Rightarrow> jsnum \<Rightarrow> jsval \<Rightarrow> chain_row list \<Rightarrow> smile \<Rightarrow> mm_result" where
  "position_of mpow spotPrice atmStrike lotSize atmIV all_rows volSmile =
     (let rows = filter significant all_rows;
          unsorted = map (level_at spotPrice lotSize) rows;
          totalGEX = jsum (map lv_gex unsorted); netDelta = jsum (map lv_delta unsorted);
          levels = js_sort (\<lambda>a b. lv_strike a - lv_strike b) unsorted;
          scored = score_levels mpow spotPrice levels;
          supports = key_levels (\<lambda>l. lv_isSupport l \<and> lv_strike l < spotPrice) scored;
          resistances = key_levels (\<lambda>l. lv_isResistance l \<and> lv_strike l > spotPrice) scored;
          gammaFlip = gamma_flip scored; hedgeDirection = hedge_direction netDelta; hedgeSize = abs netDelta;
          totalCallOI = jsum (map rw_ceOI all_rows); totalPutOI = jsum (map rw_peOI all_rows);
          callIVs = otmCallIVs spotPrice rows; putIVs = otmPutIVs spotPrice rows;
          ratio = pain_ratio spotPrice lotSize levels;
          netVannaFlow = foldl (\<lambda>acc l. acc + lv_vannaFlow l) (Fin 0) levels;
          atmLevel = find (\<lambda>l. num_eq (lv_strike l) atmStrike) scored;
          count = (\<lambda>P. length (filter P scored))
      in \<lparr>mm_totalGEX = totalGEX, mm_netDelta = netDelta,
          mm_netGamma = jsum (map (\<lambda>r. dealer_greek lotSize (rw_ceGamma r) (rw_peGamma r) r) rows),
          mm_netVega = jsum (map lv_vega unsorted), mm_netTheta = jsum (map lv_theta unsorted),
          mm_gammaFlip = gammaFlip, mm_hedgeDirection = hedgeDirection, mm_hedgeSize = hedgeSize,
          mm_hedgeInterpretation = hedge_interpretation hedgeDirection hedgeSize,
          mm_supportLevels = supports, mm_resistanceLevels = resistances, mm_levels = scored,
          mm_regime_of = regime_of totalGEX,
          mm_pinRisk = map_option (\<lambda>l. lv_totalOI l > cfg_pinRiskOI) atmLevel, mm_atmLevel = atmLevel,
          mm_totalCallOI = totalCallOI, mm_totalPutOI = totalPutOI, mm_pcr = totalPutOI / totalCallOI,
          mm_bullishLevels = count (\<lambda>l. lv_gex l > Fin 0 \<and> sl_strength l > N 50),
          mm_bearishLevels = count (\<lambda>l. lv_gex l < Fin 0 \<and> sl_strength l > N 50),
          mm_institutionalLevels = count sl_isInstitutional, mm_anomalyLevels = count sl_isAnomaly,
          mm_maxPainStrike = max_pain_level levels, mm_ivSkew = iv_skew atmIV callIVs putIVs,
          mm_narrative = generateMarketNarrative (Some
            \<lparr>q_totalGEX = totalGEX, q_gammaFlip = gammaFlip, q_supportLevels = map lv_strike supports,
             q_resistanceLevels = map lv_strike resistances, q_hedgeDirection = hedgeDirection, q_hedgeSize = hedgeSize,
             q_painThresholdRatio = Some ratio, q_netVannaFlow = netVannaFlow\<rparr>) spotPrice,
          mm_painThresholdRatio = ratio, mm_netVannaFlow = netVannaFlow,
          mm_netCharmFlow = foldl (\<lambda>acc l. acc + lv_charmFlow l) (Fin 0) levels,
          mm_oiRegression = calculateOIRegression mpow (map (\<lambda>l. (lv_strike l, lv_totalOI l)) levels),
          mm_volSmile = volSmile,
          mm_probCones = calculateProbabilityCones spotPrice (to_number atmIV) (N 1)\<rparr>)"

text \<open>The memo of the component: null without a chain or a price, an exception on a null entry or an
  unknown volatility.  It is computed with the current volatility at the money; the source leaves that out of the memo's
  dependencies, so after a change of it alone the panel may show the values of an earlier render.\<close>

definition mmData ::
  "(jsnum \<Rightarrow> jsnum \<Rightarrow> jsnum) \<Rightarrow> (string \<times> jsval) list option \<Rightarrow> jsnum \<Rightarrow> jsnum \<Rightarrow> jsnum \<Rightarrow> jsval
   \<Rightarrow> mm_result option result" where
  "mmData mpow optionChain spotPrice atmStrike selectedLotSize atmIV =
     (case optionChain of
        None \<Rightarrow> Inr None
      | Some chain \<Rightarrow>
          if \<not> num_truthy spotPrice then Inr None
          else res_bind (res_map (read_row atmIV) chain) (\<lambda>rows.
            let rs = filter significant rows
            in res_bind (vol_smile (otmCallIVs spotPrice rs) (otmPutIVs spotPrice rs) atmStrike) (\<lambda>volSmile.
                 Inr (Some (position_of mpow spotPrice atmStrike (num_or selectedLotSize (N 75)) atmIV rows volSmile)))))"

text \<open>The levels shown; without a level at or above the money \<open>findIndex\<close> answers -1.\<close>

definition visibleLevels :: "mm_result option \<Rightarrow> jsnum \<Rightarrow> scored_level list" where
  "visibleLevels data atmStrike =
     (case data of
        None \<Rightarrow> []
      | Some d \<Rightarrow>
          let levels = mm_levels d;
              atmIdx = (case find_index (\<lambda>l. lv_strike l \<ge> atmStrike) levels of Some i \<Rightarrow> int i | None \<Rightarrow> - 1)
          in slice (max 0 (atmIdx - cfg_visibleStrikes))
               (min (int (length levels)) (atmIdx + cfg_visibleStrikes + 1)) levels)"

section \<open>Labels\<close>

definition market_mood :: "mm_result \<Rightarrow> string" where
  "market_mood d =
     (if rg_name (mm_regime_of d) = ''stabilizing'' then ''Range Bound''
      else if rg_name (mm_regime_of d) = ''volatile'' then ''Trending'' else ''Neutral'')"

definition smart_money :: "mm_result \<Rightarrow> string" where
  "smart_money d = (if mm_painThresholdRatio d < N 1 then ''Trapped'' else ''Safe'')"

definition getRegimeGradient :: "string \<Rightarrow> string" where
  "getRegimeGradient regime =
     (if regime = ''stabilizing'' then ''from-blue-600 to-indigo-700''
      else if regime = ''mildly_stabilizing'' then ''from-blue-500 to-sky-600''
      else if regime = ''volatile'' then ''from-red-600 to-rose-700''
      else if regime = ''mildly_volatile'' then ''from-orange-500 to-red-500'' else ''from-gray-500 to-gray-600'')"

definition getStrengthColor :: "jsnum \<Rightarrow> string" where
  "getStrengthColor strength =
     (if strength \<ge> N 75 then ''from-purple-500 to-pink-500'' else if strength \<ge> N 55 then ''from-blue-500 to-indigo-500''
      else if strength \<ge> N 35 then ''from-amber-500 to-orange-500'' else ''from-gray-400 to-gray-500'')"

section \<open>The panel\<close>

text \<open>The open tab and the memoised array of visible levels.  Rendering any tab other than the first calls
  \<open>visibleLevels.sort\<close>, which sorts that array in place.\<close>

record mm_panel =
  pn_tab :: string
  pn_visible :: "scored_level list"

definition by_velocity :: "scored_level list \<Rightarrow> scored_level list" where
  "by_velocity ls = js_sort (\<lambda>a b. abs (lv_gammaVelocity b) - abs (lv_gammaVelocity a)) ls"

definition render_panel :: "mm_panel \<Rightarrow> mm_panel" where
  "render_panel p =
     (if pn_tab p = ''positioning'' then p else p\<lparr>pn_visible := by_velocity (pn_visible p)\<rparr>)"

definition open_panel :: "mm_result option \<Rightarrow> jsnum \<Rightarrow> mm_panel" where
  "open_panel data atmStrike = render_panel \<lparr>pn_tab = ''positioning'', pn_visible = visibleLevels data atmStrike\<rparr>"

definition setActiveTab :: "string \<Rightarrow> mm_panel \<Rightarrow> mm_panel" where
  "setActiveTab t p = render_panel (p\<lparr>pn_tab := t\<rparr>)"

text \<open>The bars of the strike profile: strike and width in percent.\<close>

definition strike_profile :: "mm_panel \<Rightarrow> (jsnum \<times> jsnum) list" where
  "strike_profile p =
     (let maxGex = max_of (map (\<lambda>l. abs (lv_gex l)) (pn_visible p) @ [N (1 / 10)])
      in map (\<lambda>l. (lv_strike l, jmin (N 100) (abs (lv_gex l) / maxGex * N 100))) (pn_visible p))"

definition smart_money_levels :: "mm_panel \<Rightarrow> scored_level list" where
  "smart_money_levels p =
     take 5 (js_sort (\<lambda>a b. abs (lv_smartMoneyScore b) - abs (lv_smartMoneyScore a))
       (filter (\<lambda>l. abs (lv_smartMoneyScore l) > N 1) (pn_visible p)))"

definition velocity_levels :: "mm_panel \<Rightarrow> scored_level list" where
  "velocity_levels p = take 5 (pn_visible p)"

section \<open>Scores\<close>

lemma scored_fields [simp]:
  "lv_strike (calculateLevelStrength l p b) = lv_strike l" "lv_gex (calculateLevelStrength l p b) = lv_gex l"
  "lv_callOI (calculateLevelStrength l p b) = lv_callOI l" "lv_putOI (calculateLevelStrength l p b) = lv_putOI l"
  "lv_isSupport (calculateLevelStrength l p b) = lv_isSupport l"
  "lv_isResistance (calculateLevelStrength l p b) = lv_isResistance l"
  "sl_factors (calculateLevelStrength l p b) = level_factors l p b"
  "sl_strength (calculateLevelStrength l p b) = jmin (N 100) (total_score (level_factors l p b))"
  by (cases l; simp add: calculateLevelStrength_def Let_def mm_level.defs scored_level.defs)+

definition percent_or_nan :: "jsnum \<Rightarrow> bool" where
  "percent_or_nan v \<longleftrightarrow> v = NaN \<or> ranged 0 100 v"

lemma percent_nonneg: "percent_or_nan v \<Longrightarrow> nonneg_or_nan v"
  by (cases v) (auto simp: percent_or_nan_def ranged_def)

lemma percent_clamp: "nonneg_or_nan t \<Longrightarrow> percent_or_nan (jmin (Fin 100) t)"
  by (cases t) (auto simp: percent_or_nan_def jmin_def)

lemma percent_jmax0: "nonneg_or_nan (jmax (Fin 0) x)"
  by (cases x) (auto simp: jmax_def)

lemma percent_normalize: "percent_or_nan (mm_normalize z)"
  by (simp add: mm_normalize_def percent_clamp percent_jmax0)

lemma percent_proximity: "percent_or_nan (jmax (Fin 0) (Fin 100 - abs d / Fin 2))"
proof -
  have nn: "nonneg_or_nan (abs d / Fin 2)" by (intro nonneg_div) (cases d; simp)+
  show ?thesis
proof (cases "abs d / Fin 2")
  case (Fin r)
  then have "0 \<le> r" using nn by simp
  then have "rd64 (100 - r) \<le> 100" using binary64.upper [of "100 - r" 100] by simp
  moreover have "Fin 100 - Fin r = rnd (100 - r)" by (simp add: minus_jsnum_def)
  ultimately have "Fin 100 - Fin r = NInf \<or> (\<exists>s. Fin 100 - Fin r = Fin s \<and> s \<le> 100)"
    using pow2_1024 by (auto simp: rnd_overflow Let_def)
  then show ?thesis using Fin by (auto simp: percent_or_nan_def jmax_def)
qed (use nn in \<open>auto simp: percent_or_nan_def jmax_def minus_jsnum_def\<close>)
qed

lemma percent_oi_change: "percent_or_nan (oi_change_score c)" "oi_change_score c \<noteq> N 10"
proof -
  have "N (- 30000) < N (- 15000)" by code_simp
  then have lt: "c < N (- 30000) \<Longrightarrow> c < N (- 15000)"
    by (cases c; cases "N (- 30000)"; cases "N (- 15000)") (auto simp del: rnd_neg_numeral)
  show "percent_or_nan (oi_change_score c)"
    by (auto simp: oi_change_score_def percent_or_nan_def)
  show "oi_change_score c \<noteq> N 10" using lt by (auto simp: oi_change_score_def)
qed

definition nonneg_interest :: "mm_level \<Rightarrow> bool" where
  "nonneg_interest l \<longleftrightarrow> nonneg_or_nan (lv_callOI l) \<and> nonneg_or_nan (lv_putOI l)"

lemma jmax_one: "nonneg_or_nan v \<Longrightarrow> nonneg_or_nan (jmax v (Fin 1))"
  by (cases v) (auto simp: jmax_def)

lemma concentration_nonneg: "nonneg_interest l \<Longrightarrow> nonneg_or_nan (concentration_ratio l)"
  by (auto simp: nonneg_interest_def concentration_ratio_def intro!: nonneg_div jmax_one)

lemma factors_in_range:
  assumes "nonneg_interest l" and "(n, z, score, w) \<in> set (level_factors l p b)"
  shows "percent_or_nan score"
  using assms concentration_nonneg [OF assms(1)]
  by (auto simp: level_factors_def z_factor_def Let_def percent_normalize percent_oi_change(1)
      intro!: percent_proximity percent_clamp nonneg_mult)

lemma total_score_nonneg:
  assumes "\<forall>(n, z, score, w) \<in> set fs. percent_or_nan score \<and> 0 \<le> w"
  shows "nonneg_or_nan (total_score fs)"
proof -
  have "nonneg_or_nan (foldl (\<lambda>acc (n, z, score, weight). acc + score * N (of_int weight / 100)) a fs)"
    if "nonneg_or_nan a" for a
    using that assms
  proof (induction fs arbitrary: a)
    case (Cons f fs)
    obtain n z score w where f: "f = (n, z, score, w)" by (cases f)
    have "nonneg_or_nan (score * N (of_int w / 100))"
      using Cons.prems(2) by (intro nonneg_mult) (auto simp: f percent_nonneg intro!: nonneg_rnd)
    then show ?case using Cons by (auto simp: f intro!: Cons.IH nonneg_add)
  qed simp
  then show ?thesis by (simp add: total_score_def)
qed

lemma total_score_defined:
  assumes "\<forall>(n, z, score, w) \<in> set fs. ranged 0 100 score \<and> 0 \<le> w \<and> w \<le> 100" and "length fs \<le> 7"
  shows "total_score fs \<noteq> NaN"
proof -
  have "ranged 0 (k + 100 * int (length fs)) (foldl (\<lambda>acc (n, z, score, weight). acc + score * N (of_int weight / 100)) a fs)"
    if "ranged 0 k a" "k + 100 * int (length fs) \<le> 700" "0 \<le> k" for a k
    using that assms(1)
  proof (induction fs arbitrary: a k)
    case (Cons f fs)
    obtain n z score w where f: "f = (n, z, score, w)" by (cases f)
    have "ranged 0 1 (N (of_int w / 100))"
      using Cons.prems(4) by (intro ranged_rnd) (auto simp: f)
    then have "ranged (0 * 0) (100 * 1) (score * N (of_int w / 100))"
      using Cons.prems(4) by (intro ranged_mult) (auto simp: f)
    then have "ranged (0 + 0) (k + 100) (a + score * N (of_int w / 100))"
      using Cons.prems by (intro ranged_add) auto
    then show ?case using Cons.prems Cons.IH [of "k + 100"] by (auto simp: f algebra_simps)
  qed simp
  from this [of 0 "Fin 0"] show ?thesis using assms(2) by (auto simp: total_score_def ranged_def)
qed

lemma level_weights: "(n, z, score, w) \<in> set (level_factors l p b) \<Longrightarrow> 0 \<le> w \<and> w \<le> 100"
  "length (level_factors l p b) = 7"
  by (auto simp: level_factors_def z_factor_def Let_def)

lemma strength_in_range:
  assumes "nonneg_interest l"
  shows "percent_or_nan (sl_strength (calculateLevelStrength l p b))"
    and "sl_strength (calculateLevelStrength l p b) = NaN \<Longrightarrow> \<exists>(n, z, score, w) \<in> set (level_factors l p b). score = NaN"
proof -
  let ?fs = "level_factors l p b"
  have *: "\<forall>(n, z, score, w) \<in> set ?fs. percent_or_nan score \<and> 0 \<le> w \<and> w \<le> 100"
    using factors_in_range [OF assms] level_weights by blast
  then show "percent_or_nan (sl_strength (calculateLevelStrength l p b))"
    by simp (rule percent_clamp, rule total_score_nonneg, force)
  assume "sl_strength (calculateLevelStrength l p b) = NaN"
  then have "total_score ?fs = NaN" by (auto simp: jmin_def split: if_splits)
  then show "\<exists>(n, z, score, w) \<in> set ?fs. score = NaN"
    using total_score_defined [of ?fs] * level_weights(2) [of l p b] by (force simp: percent_or_nan_def)
qed

section \<open>The regime\<close>

lemma gex_thresholds:
  obtains s m where "cfg_significantGEX = Fin s" "cfg_majorGEX = Fin m" "0 < s" "s < m" "m \<le> 1"
proof -
  have "Fin 0 < cfg_significantGEX \<and> cfg_significantGEX < cfg_majorGEX \<and> cfg_majorGEX \<le> Fin 1" by code_simp
  moreover have "Fin 0 < x \<Longrightarrow> x < y \<Longrightarrow> y \<le> Fin 1 \<Longrightarrow> \<exists>s m. x = Fin s \<and> y = Fin m \<and> 0 < s \<and> s < m \<and> m \<le> 1"
    for x y by (cases x; cases y) auto
  ultimately show ?thesis using that by blast
qed

lemma confidence_major:
  assumes "Fin 0 < g"
  shows "ranged 60 95 (jmin (Fin 95) (Fin 60 + g * Fin 15))"
proof (cases g)
  case (Fin r)
  then have "0 \<le> rd64 (r * 15)" using assms by (intro binary64.nonneg) simp
  then have "60 \<le> rd64 (60 + rd64 (r * 15))" using binary64.lower [of 60 "60 + rd64 (r * 15)"] by simp
  then show ?thesis using \<open>0 \<le> rd64 (r * 15)\<close> pow2_pos [of 1024] Fin
    by (auto simp: rnd_overflow Let_def jmin_def)
qed (use assms in \<open>auto simp: jmin_def\<close>)

lemma confidence_mild:
  assumes "Fin 0 < g" and "g \<le> Fin 1"
  shows "ranged 50 70 (jmin (Fin 75) (Fin 50 + g * Fin 20))"
proof -
  have "ranged 0 1 g" using assms by (cases g) auto
  then have "ranged (0 * 20) (1 * 20) (g * Fin 20)" by (intro ranged_mult) auto
  then have "ranged (50 + 0) (50 + 20) (Fin 50 + g * Fin 20)" by (intro ranged_add) auto
  then show ?thesis by (auto simp: jmin_def elim!: rangedE)
qed

definition regime_sound :: "jsnum \<Rightarrow> mm_regime \<Rightarrow> bool" where
  "regime_sound g r \<longleftrightarrow>
     (if g > cfg_majorGEX then rg_name r = ''stabilizing'' \<and> ranged 60 95 (rg_confidence r)
      else if g < - cfg_majorGEX then rg_name r = ''volatile'' \<and> ranged 60 95 (rg_confidence r)
      else if g > cfg_significantGEX then rg_name r = ''mildly_stabilizing'' \<and> ranged 50 70 (rg_confidence r)
      else if g < - cfg_significantGEX then rg_name r = ''mildly_volatile'' \<and> ranged 50 70 (rg_confidence r)
      else rg_name r = ''neutral'' \<and> rg_confidence r = N 50)"

lemma regime_of_sound: "regime_sound g (regime_of g)"
proof -
  obtain s m where c: "cfg_significantGEX = Fin s" "cfg_majorGEX = Fin m" "0 < s" "s < m" "m \<le> 1"
    by (rule gex_thresholds)
  note d = regime_sound_def regime_of_def c(1,2) uminus_jsnum.simps
  consider "g > Fin m" | "\<not> g > Fin m" "g < Fin (- m)" | "\<not> g > Fin m" "\<not> g < Fin (- m)" "g > Fin s"
    | "\<not> g > Fin m" "\<not> g < Fin (- m)" "\<not> g > Fin s" "g < Fin (- s)"
    | "\<not> g > Fin m" "\<not> g < Fin (- m)" "\<not> g > Fin s" "\<not> g < Fin (- s)" by blast
  then show ?thesis
  proof cases
    case 1
    then have "Fin 0 < g" using c(3-5) by (cases g) auto
    then show ?thesis using confidence_major [of g] 1 by (simp add: d)
  next
    case 2
    then have "Fin 0 < abs g" using c(3-5) by (cases g) auto
    then show ?thesis using confidence_major [of "abs g"] 2 by (simp add: d)
  next
    case 3
    then have "Fin 0 < g" "g \<le> Fin 1" using c(3-5) by (cases g; auto)+
    then show ?thesis using confidence_mild [of g] 3 by (simp add: d)
  next
    case 4
    then have "Fin 0 < abs g" "abs g \<le> Fin 1" using c(3-5) by (cases g; auto)+
    then show ?thesis using confidence_mild [of "abs g"] 4 by (simp add: d)
  qed (simp add: d)
qed

section \<open>The result\<close>

lemma mmData_Some:
  assumes "mmData mpow optionChain spotPrice atmStrike lotSize atmIV = Inr (Some d)"
  obtains rows lot sm where "d = position_of mpow spotPrice atmStrike lot atmIV rows sm"
  using assms by (auto simp: mmData_def res_bind_def Let_def split: option.splits if_splits sum.splits)

lemma position_levels:
  assumes "d = position_of mpow spotPrice atmStrike lotSize atmIV rows sm"
  obtains levels b where "mm_levels d = map (\<lambda>l. calculateLevelStrength l spotPrice b) levels"
    and "levels = js_sort (\<lambda>a b. lv_strike a - lv_strike b) (map (level_at spotPrice lotSize) (filter significant rows))"
    and "mm_supportLevels d = key_levels (\<lambda>l. lv_isSupport l \<and> lv_strike l < spotPrice) (mm_levels d)"
    and "mm_resistanceLevels d = key_levels (\<lambda>l. lv_isResistance l \<and> lv_strike l > spotPrice) (mm_levels d)"
    and "mm_regime_of d = regime_of (mm_totalGEX d)" and "mm_maxPainStrike d = max_pain_level levels"
  by (rule that) (simp_all only: assms position_of_def Let_def mm_result.simps score_levels_def)

interpretation by_level_strength: descending_by sl_strength .

interpretation by_level_strike: ascending_by lv_strike .

text \<open>The at most five strongest levels with a property, the strongest first.\<close>

definition strongest_first :: "(scored_level \<Rightarrow> bool) \<Rightarrow> scored_level list \<Rightarrow> scored_level list \<Rightarrow> bool" where
  "strongest_first P levels ks \<longleftrightarrow>
     length ks \<le> 5 \<and> (\<forall>k \<in> set ks. k \<in> set levels \<and> P k)
     \<and> sorted_wrt (\<lambda>a b. sl_strength b \<le> sl_strength a) ks
     \<and> (\<forall>l \<in> set levels. P l \<and> l \<notin> set ks \<longrightarrow> length ks = 5 \<and> (\<forall>k \<in> set ks. sl_strength l \<le> sl_strength k))"

lemma key_levels_strongest:
  assumes "\<forall>l \<in> set levels. fin_double (sl_strength l)"
  shows "strongest_first P levels (key_levels P levels)"
proof -
  let ?s = "js_sort (\<lambda>a b. sl_strength b - sl_strength a) (filter P levels)"
  have "sorted_wrt (\<lambda>a b. sl_strength b \<le> sl_strength a) ?s"
    using assms by (intro by_level_strength.sorted_keys) auto
  then have s: "sorted_wrt (\<lambda>a b. sl_strength b \<le> sl_strength a) (take 5 ?s @ drop 5 ?s)" by simp
  have split: "l \<in> set (drop 5 ?s)" if "l \<in> set levels" "P l" "l \<notin> set (take 5 ?s)" for l
  proof -
    have "l \<in> set (take 5 ?s @ drop 5 ?s)" using that by simp
    then show ?thesis using that(3) unfolding set_append by blast
  qed
  have full: "length (take 5 ?s) = 5" if "l \<in> set (drop 5 ?s)" for l
    using that by (cases "5 \<le> length ?s") auto
  have members: "k \<in> set levels \<and> P k" if "k \<in> set (take 5 ?s)" for k
    using in_set_takeD [OF that] by simp
  have rest: "sl_strength l \<le> sl_strength k" if "k \<in> set (take 5 ?s)" "l \<in> set (drop 5 ?s)" for k l
    using s that unfolding sorted_wrt_append by blast
  have first: "sorted_wrt (\<lambda>a b. sl_strength b \<le> sl_strength a) (take 5 ?s)" "length (take 5 ?s) \<le> 5"
    using s unfolding sorted_wrt_append by simp_all
  show ?thesis
    unfolding strongest_first_def key_levels_def using first members split full rest by blast
qed

lemma strength_double: "double (sl_strength (calculateLevelStrength l p b))"
proof -
  have "double (total_score (level_factors l p b))"
    by (simp add: total_score_def level_factors_def z_factor_def Let_def)
  then show ?thesis by (simp add: jmin_def double_Fin binary64.int_exact [of 100, simplified])
qed

lemma strength_fin:
  assumes "nonneg_interest l" and "sl_strength (calculateLevelStrength l p b) \<noteq> NaN"
  shows "fin_double (sl_strength (calculateLevelStrength l p b))"
  using strength_in_range(1) [OF assms(1), of p b] assms(2) strength_double [of l p b]
  by (auto simp del: scored_fields simp: percent_or_nan_def fin_double_def elim: rangedE)

text \<open>C29: The key levels, where the strikes are finite, the open interest is not negative and the strengths are defined: strikes in order; the supports are the at most five strongest levels below the price
  with one and a half times more puts than calls, the resistances the mirror image above it.\<close>

theorem key_levels_spec:
  assumes "mmData mpow optionChain spotPrice atmStrike lotSize atmIV = Inr (Some d)"
    and "\<forall>l \<in> set (mm_levels d). fin_double (lv_strike l) \<and> nonneg_or_nan (lv_callOI l) \<and> nonneg_or_nan (lv_putOI l)
         \<and> sl_strength l \<noteq> NaN"
  shows "sorted_wrt (\<lambda>a b. lv_strike a \<le> lv_strike b) (mm_levels d)
       \<and> strongest_first (\<lambda>l. lv_isSupport l \<and> lv_strike l < spotPrice) (mm_levels d) (mm_supportLevels d)
       \<and> strongest_first (\<lambda>l. lv_isResistance l \<and> lv_strike l > spotPrice) (mm_levels d) (mm_resistanceLevels d)
       \<and> (\<forall>l \<in> set (mm_levels d). (lv_isSupport l \<longleftrightarrow> lv_putOI l > lv_callOI l * cfg_moderateLevelRatio)
            \<and> (lv_isResistance l \<longleftrightarrow> lv_callOI l > lv_putOI l * cfg_moderateLevelRatio))"
proof -
  obtain rows lot sm where d: "d = position_of mpow spotPrice atmStrike lot atmIV rows sm" using assms(1) by (rule mmData_Some)
  obtain levels b where l: "mm_levels d = map (\<lambda>l. calculateLevelStrength l spotPrice b) levels"
    and levels: "levels = js_sort (\<lambda>a b. lv_strike a - lv_strike b) (map (level_at spotPrice lot) (filter significant rows))"
    and keys: "mm_supportLevels d = key_levels (\<lambda>l. lv_isSupport l \<and> lv_strike l < spotPrice) (mm_levels d)"
      "mm_resistanceLevels d = key_levels (\<lambda>l. lv_isResistance l \<and> lv_strike l > spotPrice) (mm_levels d)"
    using d by (rule position_levels)
  have fin: "fin_double (lv_strike k)" "fin_double (sl_strength (calculateLevelStrength k spotPrice b))" if "k \<in> set levels" for k
    using assms(2) that by (auto simp: l nonneg_interest_def simp del: scored_fields(8) intro!: strength_fin)
  have "sorted_wrt (\<lambda>a b. lv_strike a \<le> lv_strike b) levels"
    unfolding levels using fin by (intro by_level_strike.sorted_keys) (auto simp: levels)
  moreover have "\<forall>k \<in> set (mm_levels d). fin_double (sl_strength k)" using fin(2) by (auto simp: l simp del: scored_fields)
  moreover have "\<forall>k \<in> set levels. (lv_isSupport k \<longleftrightarrow> lv_putOI k > lv_callOI k * cfg_moderateLevelRatio)
      \<and> (lv_isResistance k \<longleftrightarrow> lv_callOI k > lv_putOI k * cfg_moderateLevelRatio)"
    by (auto simp: levels level_at_def Let_def)
  ultimately show ?thesis using key_levels_strongest by (simp add: keys l sorted_wrt_map)
qed

text \<open>The scores: strengths and factor scores are percentages (a strength is NaN only when a score is), the
  score of falling interest is never the lowest, 10, and the regime with its confidence is the one that the
  net exposure calls for, never above 70 in the mild regimes.\<close>

theorem scores_bounded:
  assumes "mmData mpow optionChain spotPrice atmStrike lotSize atmIV = Inr (Some d)"
    and "\<forall>l \<in> set (mm_levels d). nonneg_or_nan (lv_callOI l) \<and> nonneg_or_nan (lv_putOI l)"
  shows "(\<forall>l \<in> set (mm_levels d). percent_or_nan (sl_strength l)
            \<and> (\<forall>(n, z, score, w) \<in> set (sl_factors l). percent_or_nan score \<and> (n = ''oiChange'' \<longrightarrow> score \<noteq> N 10))
            \<and> (sl_strength l = NaN \<longrightarrow> (\<exists>(n, z, score, w) \<in> set (sl_factors l). score = NaN)))
       \<and> regime_sound (mm_totalGEX d) (mm_regime_of d)"
proof -
  obtain rows lot sm where "d = position_of mpow spotPrice atmStrike lot atmIV rows sm" using assms(1) by (rule mmData_Some)
  then obtain levels b where l: "mm_levels d = map (\<lambda>l. calculateLevelStrength l spotPrice b) levels"
    and r: "mm_regime_of d = regime_of (mm_totalGEX d)" by (rule position_levels)
  have oi: "score \<noteq> N 10" if "(''oiChange'', z, score, w) \<in> set (level_factors k spotPrice b)" for z score w k
    using that percent_oi_change(2) by (auto simp: level_factors_def z_factor_def Let_def simp del: rnd_numeral)
  have "percent_or_nan (sl_strength l) \<and> (\<forall>(n, z, score, w) \<in> set (sl_factors l). percent_or_nan score \<and> (n = ''oiChange'' \<longrightarrow> score \<noteq> N 10))
      \<and> (sl_strength l = NaN \<longrightarrow> (\<exists>(n, z, score, w) \<in> set (sl_factors l). score = NaN))"
    if "l \<in> set (mm_levels d)" for l
  proof -
    note m = that [unfolded l set_map]
    obtain k where k: "l = calculateLevelStrength k spotPrice b" "k \<in> set levels" using m by blast
    then have n: "nonneg_interest k" using assms(2) by (auto simp: l nonneg_interest_def)
    show ?thesis
      using strength_in_range [OF n, of spotPrice b] factors_in_range [OF n, of _ _ _ _ spotPrice b]
      by (auto simp: k(1) simp del: scored_fields(8) rnd_numeral dest: oi)
  qed
  then show ?thesis by (simp add: r regime_of_sound)
qed

lemma payout_scored [simp]: "payout_at p (calculateLevelStrength l s b) = payout_at p l"
  by (simp add: payout_at_def)

text \<open>Max pain: with finite losses, the strike shown is the strike of a level at which the writers lose least.\<close>

lemma max_pain_least:
  assumes "mmData mpow optionChain spotPrice atmStrike lotSize atmIV = Inr (Some d)" and "mm_levels d \<noteq> []"
    and "\<forall>l \<in> set (mm_levels d). \<exists>r. total_loss (mm_levels d) (lv_strike l) = Fin r"
  shows "mm_maxPainStrike d \<in> lv_strike ` set (mm_levels d)
       \<and> (\<forall>l \<in> set (mm_levels d). total_loss (mm_levels d) (mm_maxPainStrike d) \<le> total_loss (mm_levels d) (lv_strike l))"
proof -
  obtain rows lot sm where "d = position_of mpow spotPrice atmStrike lot atmIV rows sm" using assms(1) by (rule mmData_Some)
  then obtain levels b where l: "mm_levels d = map (\<lambda>l. calculateLevelStrength l spotPrice b) levels"
    and m: "mm_maxPainStrike d = max_pain_level levels" by (rule position_levels)
  let ?f = "total_loss levels"
  have same: "total_loss (mm_levels d) p = ?f p" for p by (simp add: total_loss_def l comp_def)
  have fin: "\<exists>r. ?f (lv_strike k) = Fin r" if "k \<in> set levels" for k
  proof -
    have "calculateLevelStrength k spotPrice b \<in> set (mm_levels d)" using that by (simp add: l)
    then obtain r where "total_loss (mm_levels d) (lv_strike (calculateLevelStrength k spotPrice b)) = Fin r"
      using assms(3) by blast
    then show ?thesis by (simp add: same)
  qed
  obtain p x where f: "foldl (argmin_step ?f) (PInf, Fin 0) (map lv_strike levels) = (p, x)" by (metis surj_pair)
  have "\<forall>t \<in> set (map lv_strike levels). ?f t \<noteq> NaN" using fin by fastforce
  note least = argmin_fold [OF this _ f]
  obtain k where k: "k \<in> set levels" using assms(2) l by (cases levels) auto
  then obtain r where "?f (lv_strike k) = Fin r" using fin by blast
  then have "p \<noteq> PInf" using least k by (cases p) auto
  then have x: "x \<in> lv_strike ` set levels" "\<forall>t \<in> lv_strike ` set levels. ?f x \<le> ?f t" using least by auto
  have "lv_strike ` set (mm_levels d) = lv_strike ` set levels" by (simp add: l image_image)
  then show ?thesis using x unfolding same m max_pain_level_def f snd_conv by blast
qed

text \<open>The points passed to the smile have no implied volatility: the fit is always the flat one; and one that is
  not known at all makes the panel throw.\<close>

lemma smile_always_flat: "vol_smile (map Num cs) (map Num ps) atmStrike = Inr flat_smile"
proof -
  have "res_map as_point (map Num xs) = Inr (map (\<lambda>x. (NaN, NaN)) xs)" for xs
    by (induction xs) (simp_all add: as_point_def get_def)
  moreover have "filter (\<lambda>d. snd d > Fin 0) (map (\<lambda>x. (NaN, NaN)) xs) = []" for xs :: "jsnum list" by simp
  ultimately show ?thesis by (simp add: vol_smile_def fitVolatilitySmile_def js_sort_def)
qed

lemma unknown_volatility_throws: "Undef \<in> set cs \<Longrightarrow> \<exists>e. vol_smile cs ps atmStrike = Inl e"
proof -
  have "Undef \<in> set xs \<Longrightarrow> \<exists>e. res_map as_point xs = Inl e" for xs
    by (induction xs) (auto simp: as_point_def get_def res_bind_def split: sum.split)
  then show "Undef \<in> set cs \<Longrightarrow> \<exists>e. vol_smile cs ps atmStrike = Inl e"
    by (fastforce simp: vol_smile_def res_bind_def split: sum.split)
qed

section \<open>Advice\<close>

lemma drop_until: "\<not> is_space (hd b) \<Longrightarrow> b \<noteq> [] \<Longrightarrow> \<exists>c'. dropWhile is_space (c @ b) = c' @ b"
  by (induction c) (auto simp: neq_Nil_conv)

lemma trim_keeps:
  assumes "a \<noteq> []" and "\<not> is_space (hd a)" and "b \<noteq> []" and "\<not> is_space (last b)"
  shows "\<exists>c'. trim_ws (a @ b @ c) = a @ b @ c'"
proof -
  have front: "dropWhile is_space (a @ b @ c) = a @ b @ c" using assms(1,2) by (cases a) auto
  have "\<not> is_space (hd (rev b @ rev a))" "rev b @ rev a \<noteq> []" using assms(3,4) by (simp_all add: hd_rev)
  then obtain c' where "dropWhile is_space (rev c @ rev b @ rev a) = c' @ rev b @ rev a"
    using drop_until by blast
  then show ?thesis by (intro exI [of _ "rev c'"]) (simp add: trim_ws_def front)
qed

lemma notes_append:
  "\<exists>w. n_summary (support_note d p n) = n_summary n @ w" "\<exists>w. n_summary (resistance_note d p n) = n_summary n @ w"
  "\<exists>w. n_summary (flip_note d p n) = n_summary n @ w" "\<exists>w. n_summary (pain_note d n) = n_summary n @ w"
  "\<exists>w. n_summary (vanna_note d n) = n_summary n @ w"
  by (auto simp: support_note_def resistance_note_def flip_note_def pain_note_def vanna_note_def add_note_def Let_def
      split: list.split option.split)

lemma narrative_keeps_advice:
  assumes "n_summary (hedge_note q (gex_regime (q_totalGEX q) \<lparr>n_headline = [], n_summary = [], n_sentiment = ''neutral'', n_score = 0\<rparr>))
           = a @ b @ c"
    and "a \<noteq> []" and "\<not> is_space (hd a)" and "b \<noteq> []" and "\<not> is_space (last b)"
  shows "\<exists>w. n_summary (generateMarketNarrative (Some q) p) = a @ b @ w"
proof -
  let ?n = "hedge_note q (gex_regime (q_totalGEX q) \<lparr>n_headline = [], n_summary = [], n_sentiment = ''neutral'', n_score = 0\<rparr>)"
  obtain w1 where 1: "n_summary (support_note q p ?n) = n_summary ?n @ w1" using notes_append(1) by blast
  obtain w2 where 2: "n_summary (resistance_note q p (support_note q p ?n)) = n_summary (support_note q p ?n) @ w2"
    using notes_append(2) by blast
  let ?m = "resistance_note q p (support_note q p ?n)"
  obtain w3 where 3: "n_summary (flip_note q p ?m) = n_summary ?m @ w3" using notes_append(3) by blast
  obtain w4 where 4: "n_summary (pain_note q (flip_note q p ?m)) = n_summary (flip_note q p ?m) @ w4"
    using notes_append(4) by blast
  obtain w5 where 5: "n_summary (vanna_note q (pain_note q (flip_note q p ?m))) = n_summary (pain_note q (flip_note q p ?m)) @ w5"
    using notes_append(5) by blast
  obtain c' where "trim_ws (a @ b @ (c @ w1 @ w2 @ w3 @ w4 @ w5)) = a @ b @ c'" using trim_keeps assms(2-5) by blast
  then show ?thesis
    by (simp add: generateMarketNarrative_def conclude_def Let_def 1 2 3 4 5 assms(1))
qed

lemma regime_text:
  "\<exists>a. a \<noteq> [] \<and> \<not> is_space (hd a) \<and> n_summary (gex_regime g \<lparr>n_headline = [], n_summary = [], n_sentiment = s, n_score = k\<rparr>) = a"
  by (auto simp: gex_regime_def add_note_def is_space_def char_code_def)

lemma hedge_advice:
  "n_summary (hedge_note q n) = (if q_hedgeDirection q = ''long'' then n_summary n @ ''Dealers need to BUY'' @ '' to protect themselves (~''
        @ formatSimple (q_hedgeSize q) @ '' delta). This acts as a natural support for price. ''
      else if q_hedgeDirection q = ''short'' then n_summary n @ ''Dealers need to SELL'' @ '' to protect themselves (~''
        @ formatSimple (q_hedgeSize q) @ '' delta). This acts as a natural resistance (ceiling). '' else n_summary n)"
  by (simp add: hedge_note_def add_note_def)

lemma position_narrative:
  assumes "d = position_of mpow spotPrice atmStrike lotSize atmIV rows sm"
  obtains q where "mm_narrative d = generateMarketNarrative (Some q) spotPrice"
    and "q_hedgeDirection q = hedge_direction (mm_netDelta d)"
    and "mm_hedgeInterpretation d = hedge_interpretation (hedge_direction (mm_netDelta d)) (abs (mm_netDelta d))"
proof -
  have "\<exists>q. mm_narrative d = generateMarketNarrative (Some q) spotPrice \<and> q_hedgeDirection q = hedge_direction (mm_netDelta d)"
    unfolding assms position_of_def Let_def mm_result.simps by (intro exI conjI, rule refl) simp
  then show ?thesis using that by (auto simp: assms position_of_def Let_def)
qed

text \<open>Whenever the dealers' delta is not zero the panel and its narrative advise the opposite: for a positive delta
  the panel says that the market makers need to sell, the narrative that the dealers need to buy, and the other
  way round for a negative one.\<close>

theorem hedge_texts_contradict:
  assumes "mmData mpow optionChain spotPrice atmStrike lotSize atmIV = Inr (Some d)"
  shows "(mm_netDelta d > Fin 0 \<longrightarrow> take 16 (mm_hedgeInterpretation d) = ''MMs need to sell''
            \<and> (\<exists>u w. n_summary (mm_narrative d) = u @ ''Dealers need to BUY'' @ w))
       \<and> (mm_netDelta d < Fin 0 \<longrightarrow> take 15 (mm_hedgeInterpretation d) = ''MMs need to buy''
            \<and> (\<exists>u w. n_summary (mm_narrative d) = u @ ''Dealers need to SELL'' @ w))"
proof -
  obtain rows lot sm where d: "d = position_of mpow spotPrice atmStrike lot atmIV rows sm" using assms by (rule mmData_Some)
  obtain q where n: "mm_narrative d = generateMarketNarrative (Some q) spotPrice"
    and q: "q_hedgeDirection q = hedge_direction (mm_netDelta d)"
    and h: "mm_hedgeInterpretation d = hedge_interpretation (hedge_direction (mm_netDelta d)) (abs (mm_netDelta d))"
    by (rule position_narrative [OF d])
  obtain a where a: "a \<noteq> []" "\<not> is_space (hd a)" and s: "n_summary (gex_regime (q_totalGEX q)
      \<lparr>n_headline = [], n_summary = [], n_sentiment = ''neutral'', n_score = 0\<rparr>) = a" using regime_text by blast
  have keep: "\<exists>w. n_summary (mm_narrative d) = a @ t @ w"
    if "t \<noteq> []" "\<not> is_space (last t)" "n_summary (hedge_note q (gex_regime (q_totalGEX q)
      \<lparr>n_headline = [], n_summary = [], n_sentiment = ''neutral'', n_score = 0\<rparr>)) = a @ t @ c" for t c
    using narrative_keeps_advice [OF that(3) a that(1,2)] by (simp add: n)
  have "\<exists>w. n_summary (mm_narrative d) = a @ ''Dealers need to BUY'' @ w" if "hedge_direction (mm_netDelta d) = ''long''"
    by (rule keep) (simp_all add: hedge_advice s q that is_space_def char_code_def)
  moreover have "\<exists>w. n_summary (mm_narrative d) = a @ ''Dealers need to SELL'' @ w" if "hedge_direction (mm_netDelta d) = ''short''"
    by (rule keep) (simp_all add: hedge_advice s q that is_space_def char_code_def)
  moreover have "mm_netDelta d < Fin 0 \<Longrightarrow> \<not> Fin 0 < mm_netDelta d" by (cases "mm_netDelta d") auto
  ultimately show ?thesis by (auto simp: h hedge_interpretation_def hedge_direction_def)
qed

section \<open>The order of the strike profile\<close>

interpretation velocity_order: descending_by "\<lambda>l :: scored_level. abs (lv_gammaVelocity l)" .

lemma by_velocity_idem:
  assumes "\<forall>l \<in> set ls. fin_double (abs (lv_gammaVelocity l))"
  shows "by_velocity (by_velocity ls) = by_velocity ls"
  using velocity_order.sorted_js_sort [OF assms] unfolding by_velocity_def by (rule velocity_order.js_sort_sorted)

text \<open>The profile shows the visible levels in their order, that of the strikes, as long as no other tab has been
  opened; from the first visit of another tab on it shows them by gamma velocity, also after the return.\<close>

theorem profile_order_lost:
  assumes "p = fold setActiveTab tabs (open_panel data atmStrike)"
    and "\<forall>l \<in> set (visibleLevels data atmStrike). fin_double (abs (lv_gammaVelocity l))"
  shows "pn_visible p = (if \<forall>t \<in> set tabs. t = ''positioning'' then visibleLevels data atmStrike
                         else by_velocity (visibleLevels data atmStrike))
       \<and> map fst (strike_profile p) = map lv_strike (pn_visible p)"
proof -
  let ?v = "visibleLevels data atmStrike"
  have "pn_visible (fold setActiveTab tabs p0) = (if (\<forall>t \<in> set tabs. t = ''positioning'') then pn_visible p0 else by_velocity ?v)"
    if "pn_visible p0 = ?v \<or> pn_visible p0 = by_velocity ?v" for p0
    using that
  proof (induction tabs arbitrary: p0)
    case (Cons t tabs)
    then show ?case using by_velocity_idem [OF assms(2)] by (auto simp: setActiveTab_def render_panel_def)
  qed simp
  then show ?thesis by (simp add: assms(1) open_panel_def render_panel_def strike_profile_def Let_def comp_def)
qed

section \<open>A chain\<close>

definition sample_chain :: "(string \<times> jsval) list" where
  "sample_chain = [(''100'', Obj [(''ce'', Obj [(''oi'', Num (Fin 20000))]), (''pe'', Obj [(''oi'', Num (Fin 60000))])])]"

definition sample_row :: chain_row where
  "sample_row = \<lparr>rw_strike = Fin 100, rw_ceOI = Fin 20000, rw_peOI = Fin 60000, rw_ceOIChg = Fin 0, rw_peOIChg = Fin 0,
     rw_ceDelta = Fin (1 / 2), rw_peDelta = Fin (- 1 / 2), rw_ceGamma = Fin 0, rw_peGamma = Fin 0, rw_ceVega = Fin 0,
     rw_peVega = Fin 0, rw_ceTheta = Fin 0, rw_peTheta = Fin 0, rw_ceLTP = Fin 0, rw_peLTP = Fin 0, rw_ceVol = Fin 0,
     rw_peVol = Fin 0, rw_ceIV = Num (Fin 15), rw_peIV = Num (Fin 15)\<rparr>"

definition sample_result :: mm_result where
  "sample_result = position_of (\<lambda>x y. x * x) (Fin 110) (Fin 100) (Fin 75) (Num (Fin 15)) [sample_row] flat_smile"

lemma sample_mmData:
  "mmData (\<lambda>x y. x * x) (Some sample_chain) (Fin 110) (Fin 100) (Fin 75) (Num (Fin 15)) = Inr (Some sample_result)"
proof -
  have "res_map (read_row (Num (Fin 15))) sample_chain = Inr [sample_row]" by code_simp
  moreover have "vol_smile (otmCallIVs (Fin 110) (filter significant [sample_row]))
      (otmPutIVs (Fin 110) (filter significant [sample_row])) (Fin 100) = Inr flat_smile" by code_simp
  ultimately show ?thesis by (simp only: mmData_def sample_result_def option.case res_bind_simps Let_def) (simp add: num_or_def)
qed

definition sample_lv :: mm_level where
  "sample_lv = \<lparr>lv_strike = Fin 100, lv_gex = Fin 0, lv_callGEX = Fin 0, lv_putGEX = Fin 0, lv_callOI = Fin 20000,
     lv_putOI = Fin 60000, lv_totalOI = Fin 80000, lv_oiChg = Fin 0, lv_delta = Fin 1500000, lv_gamma = Fin 0,
     lv_vega = Fin 0, lv_theta = Fin 0, lv_deltaExposure = Fin 3000000, lv_premium = Fin 0,
     lv_smartMoneyScore = Fin 0, lv_gammaVelocity = Fin 0, lv_gravity = Fin 800, lv_vannaFlow = Fin 0,
     lv_charmFlow = Fin 0, lv_isSupport = True, lv_isResistance = False\<rparr>"

definition sample_scored :: scored_level where
  "sample_scored = calculateLevelStrength sample_lv (Fin 110) (benchmarks_of (\<lambda>x y. x * x) [sample_lv])"

lemma sample_level: "level_at (Fin 110) (Fin 75) sample_row = sample_lv"
  by code_simp

lemma sample_levels:
  "mm_levels sample_result = [sample_scored]" "mm_netDelta sample_result = Fin 1500000"
proof -
  have sig: "significant sample_row" by code_simp
  show "mm_levels sample_result = [sample_scored]"
    by (simp add: sample_result_def position_of_def Let_def sig sample_level score_levels_def js_sort_def sample_scored_def)
  show "mm_netDelta sample_result = Fin 1500000"
    by (simp add: sample_result_def position_of_def Let_def sig sample_level jsum_def) (simp add: sample_lv_def)
qed

lemma sample_strength: "sl_strength sample_scored \<noteq> NaN"
proof -
  have "\<forall>(n, z, score, w) \<in> set (level_factors sample_lv (Fin 110) (benchmarks_of (\<lambda>x y. x * x) [sample_lv])). score \<noteq> NaN"
    by code_simp
  moreover have "nonneg_interest sample_lv" by (simp add: sample_lv_def nonneg_interest_def)
  ultimately show ?thesis unfolding sample_scored_def using strength_in_range(2) by blast
qed

lemma sample_scored_fields:
  "lv_strike sample_scored = Fin 100" "lv_callOI sample_scored = Fin 20000" "lv_putOI sample_scored = Fin 60000"
  by (simp_all add: sample_scored_def sample_lv_def)

theorem key_levels_spec_witness:
  "strongest_first (\<lambda>l. lv_isSupport l \<and> lv_strike l < Fin 110) [sample_scored] (mm_supportLevels sample_result)"
  using key_levels_spec [OF sample_mmData] by (simp add: sample_levels sample_scored_fields sample_strength)

theorem scores_bounded_witness:
  "percent_or_nan (sl_strength sample_scored) \<and> regime_sound (mm_totalGEX sample_result) (mm_regime_of sample_result)"
  using scores_bounded [OF sample_mmData] by (simp add: sample_levels sample_scored_fields)

theorem hedge_texts_contradict_witness:
  "take 16 (mm_hedgeInterpretation sample_result) = ''MMs need to sell''
   \<and> (\<exists>u w. n_summary (mm_narrative sample_result) = u @ ''Dealers need to BUY'' @ w)"
  using hedge_texts_contradict [OF sample_mmData] by (simp add: sample_levels)

definition sample_velocity :: "rat \<Rightarrow> rat \<Rightarrow> scored_level" where
  "sample_velocity strike v =
     calculateLevelStrength (sample_lv\<lparr>lv_strike := Fin strike, lv_gammaVelocity := Fin v\<rparr>) (Fin 110)
       (benchmarks_of (\<lambda>x y. x * x) [sample_lv])"

lemma sample_velocity_fields:
  "lv_strike (sample_velocity s v) = Fin s" "lv_gammaVelocity (sample_velocity s v) = Fin v"
  by (simp_all add: sample_velocity_def calculateLevelStrength_def Let_def mm_level.defs scored_level.defs)

theorem profile_order_lost_witness:
  "map fst (strike_profile (fold setActiveTab [''smartMoney'', ''positioning'']
     (open_panel (Some (sample_result\<lparr>mm_levels := [sample_velocity 100 1, sample_velocity 120 2]\<rparr>)) (Fin 100))))
   = [Fin 120, Fin 100]"
proof -
  let ?d = "Some (sample_result\<lparr>mm_levels := [sample_velocity 100 1, sample_velocity 120 2]\<rparr>)"
  have v: "visibleLevels ?d (Fin 100) = [sample_velocity 100 1, sample_velocity 120 2]"
    by (simp add: visibleLevels_def Let_def cfg_visibleStrikes_def slice_def sample_velocity_fields)
  then have fin: "\<forall>l \<in> set (visibleLevels ?d (Fin 100)). fin_double (abs (lv_gammaVelocity l))"
    using fin_double_int [of 1] by (simp add: sample_velocity_fields)
  show ?thesis
    using profile_order_lost [OF refl fin, of "[''smartMoney'', ''positioning'']"]
    by (simp add: v by_velocity_def js_sort_def sample_velocity_fields minus_jsnum_def)
qed

end
