(* ===== verification/Js_Mono.thy ===== *)
theory Js_Mono
  imports Js_Array
begin

text \<open>
  Order facts of the binary64 arithmetic: sums, differences and products of Numbers are monotone as long as
  they are not NaN, and NaN is absorbing, so that a sum that is not NaN has no NaN among its terms.
\<close>

named_theorems num_absorb

lemma NaN_plus [num_absorb, simp]: "NaN + x = NaN" "x + NaN = NaN"
  by (cases x; simp)+

lemma NaN_minus [num_absorb, simp]: "NaN - x = NaN" "x - NaN = NaN"
  by (simp_all add: minus_jsnum_def)

lemma NaN_times [num_absorb, simp]: "NaN * x = NaN" "x * NaN = NaN"
  by (cases x; simp)+

lemma uminus_NaN [num_absorb, simp]: "- x = NaN \<longleftrightarrow> x = NaN"
  by (cases x) auto

lemma rnd_mono: "x \<le> y \<Longrightarrow> rnd x \<le> rnd y"
  using rd64_mono [of x y] pow2_pos [of 1024] by (auto simp: rnd_overflow Let_def)

lemma rnd_not_NaN [simp]: "rnd x \<noteq> NaN"
  by (simp add: rnd_def Let_def)

lemma rnd_bounds [simp]: "NInf \<le> rnd x" "rnd x \<le> PInf"
  by (cases "rnd x"; use rnd_not_NaN [of x] in simp)+

lemma uminus_mono: "x \<le> y \<Longrightarrow> - y \<le> - (x :: jsnum)"
  by (cases x; cases y) auto

lemma plus_mono:
  "a \<le> b \<Longrightarrow> c \<le> d \<Longrightarrow> a + c \<noteq> NaN \<Longrightarrow> b + d \<noteq> NaN \<Longrightarrow> a + c \<le> b + (d :: jsnum)"
  by (cases a; cases b; cases c; cases d) (auto intro!: rnd_mono simp: num_order)

lemma minus_mono_left: "a \<le> b \<Longrightarrow> a - c \<noteq> NaN \<Longrightarrow> b - c \<noteq> NaN \<Longrightarrow> a - c \<le> b - (c :: jsnum)"
  unfolding minus_jsnum_def by (rule plus_mono) (cases c; simp)+

lemma times_mono_left:
  assumes "a \<le> b" and "Fin 0 \<le> c" and "a * c \<noteq> NaN" and "b * c \<noteq> NaN"
  shows "a * c \<le> b * (c :: jsnum)"
  using assms by (cases a; cases b; cases c) (auto intro!: rnd_mono mult_right_mono simp: num_order mult_nonpos_nonneg split: if_splits)

lemma minus_zero [simp]: "a - a \<le> Fin 0 \<or> a - a = NaN"
  by (cases a) (auto simp: minus_jsnum_def)

lemma le_jmax: "jmax a b \<noteq> NaN \<Longrightarrow> a \<le> jmax a b" "jmax a b \<noteq> NaN \<Longrightarrow> b \<le> jmax a b"
  by (cases a; cases b; auto simp: jmax_def)+

lemma jmax_zero_nonneg: "jmax (Fin 0) x \<noteq> NaN \<Longrightarrow> Fin 0 \<le> jmax (Fin 0) x"
  by (cases x) (auto simp: jmax_def)

lemma rnd_again: "rnd y = Fin r \<Longrightarrow> rnd r = Fin r"
  by (auto simp: rnd_def Let_def rd64_idem split: if_splits)

lemma plus_plus_zero: "(a + b) + Fin 0 = a + (b :: jsnum)"
proof (cases "a + b")
  case (Fin r)
  then show ?thesis using rnd_again by (cases a; cases b) auto
qed auto

lemma jmax_plus_zero: "jmax (Fin 0) (a - b) + Fin 0 = jmax (Fin 0) (a - b)"
  by (simp add: jmax_def minus_jsnum_def plus_plus_zero)

lemma plus_nonneg_le: "Fin 0 \<le> t \<Longrightarrow> x + t \<noteq> NaN \<Longrightarrow> x + Fin 0 = x \<Longrightarrow> x \<le> x + t"
  using plus_mono [of x x "Fin 0" t] by (cases x) auto

text \<open>A sum of terms, term by term.\<close>

lemma foldl_plus_mono:
  assumes "\<forall>x \<in> set xs. f x \<noteq> NaN \<and> g x \<noteq> NaN \<longrightarrow> f x \<le> (g x :: jsnum)" and "a \<le> b"
    and "foldl (\<lambda>t x. t + f x) a xs \<noteq> NaN" and "foldl (\<lambda>t x. t + g x) b xs \<noteq> NaN"
  shows "foldl (\<lambda>t x. t + f x) a xs \<le> foldl (\<lambda>t x. t + g x) b xs"
  using assms
proof (induction xs arbitrary: a b)
  case (Cons x xs)
  have absorb: "foldl (\<lambda>t x. t + h x) NaN ys = NaN" for h :: "'a \<Rightarrow> jsnum" and ys by (induction ys) auto
  have fx: "a + f x \<noteq> NaN" "b + g x \<noteq> NaN" using Cons.prems(3,4) absorb [of f xs] absorb [of g xs] by (auto simp del: NaN_plus)
  then have "f x \<noteq> NaN" "g x \<noteq> NaN" by auto
  then have "a + f x \<le> b + g x" using Cons.prems(1,2) fx by (intro plus_mono) auto
  then show ?case using Cons by simp
qed simp

end
