(* ===== verification/Strategy_Builder.thy ===== *)
theory Strategy_Builder
  imports Js_Mono Strategy_Presets Quant_Utils Selectors Market_Services
begin

text \<open>
  The strategy builders of the analytics page: the classic one (src/components/analytics/StrategyBuilder.jsx), the
  professional one (StrategyBuilderPro.jsx) with its table of legs, its small option chain and its payoff diagram
  (StrategyLegsTable.jsx, MiniOptionChain.jsx, SensibullPayoffDiagram.jsx), and PayoffDiagramPro.jsx.  A leg is the
  object of the program (a \<open>jsval\<close>); its numeric fields are numbers.  What the calculator service answers, the
  identity of a new leg and \<open>Math.exp\<close> are parameters.
\<close>

section \<open>Legs\<close>

definition fld :: "jsval \<Rightarrow> string \<Rightarrow> jsnum" where
  "fld leg k = to_number (opt leg k)"

definition is_call :: "jsval \<Rightarrow> bool" where
  "is_call leg \<longleftrightarrow> strict_eq (opt leg ''type'') (Str ''CE'')"

definition is_buy :: "jsval \<Rightarrow> bool" where
  "is_buy leg \<longleftrightarrow> strict_eq (opt leg ''action'') (Str ''BUY'')"

definition new_leg :: "jsnum \<Rightarrow> jsval \<Rightarrow> jsval \<Rightarrow> jsval \<Rightarrow> jsval" where
  "new_leg ident selectedExpiry lotSize legData =
     (let num = (\<lambda>k d. js_or (opt legData k) (Num d))
      in Obj [(''id'', Num ident), (''strike'', opt legData ''strike''), (''type'', opt legData ''type''),
              (''action'', opt legData ''action''), (''qty'', num ''qty'' (N 1)), (''ltp'', num ''ltp'' (Fin 0)),
              (''iv'', num ''iv'' (N (15 / 100))), (''delta'', num ''delta'' (Fin 0)), (''theta'', num ''theta'' (Fin 0)),
              (''gamma'', num ''gamma'' (Fin 0)), (''vega'', num ''vega'' (Fin 0)),
              (''expiry'', js_or (opt legData ''expiry'') selectedExpiry), (''lotSize'', lotSize)])"

definition has_id :: "jsval \<Rightarrow> jsval \<Rightarrow> bool" where
  "has_id ident leg \<longleftrightarrow> strict_eq (opt leg ''id'') ident"

definition without_leg :: "jsval \<Rightarrow> jsval list \<Rightarrow> jsval list" where
  "without_leg ident legs = filter (\<lambda>l. \<not> has_id ident l) legs"

definition with_updates :: "jsval \<Rightarrow> (string \<times> jsval) list \<Rightarrow> jsval list \<Rightarrow> jsval list" where
  "with_updates ident updates legs = map (\<lambda>l. if has_id ident l then spread l updates else l) legs"

definition with_qty :: "jsval \<Rightarrow> jsnum \<Rightarrow> jsval list \<Rightarrow> jsval list" where
  "with_qty ident qty legs = with_updates ident [(''qty'', Num (jmax (N 1) qty))] legs"

text \<open>Days until the last expiry, which is read as milliseconds; \<open>Date\<close> knows no times beyond 8.64e15.\<close>

definition date_time :: "jsnum \<Rightarrow> jsnum" where
  "date_time t = (case t of Fin r \<Rightarrow> if \<bar>r\<bar> \<le> 8640000000000000 then Fin (of_int (trunc_rat r)) else NaN | _ \<Rightarrow> NaN)"

definition leg_dte :: "jsnum \<Rightarrow> jsval \<Rightarrow> jsnum" where
  "leg_dte now leg =
     jmax (Fin 0) ((date_time (parse_int (js_to_string (opt leg ''expiry''))) - now) / N 86400000)"

definition maxDTE :: "jsnum \<Rightarrow> jsval list \<Rightarrow> jsnum" where
  "maxDTE now legs =
     (if legs = [] then N 30
      else num_or (jceil (foldl (\<lambda>m leg. jmax m (leg_dte now leg)) (Fin 0) legs)) (N 30))"

section \<open>Payoff\<close>

definition leg_intrinsic :: "jsnum \<Rightarrow> jsval \<Rightarrow> jsnum" where
  "leg_intrinsic price leg =
     (if is_call leg then jmax (Fin 0) (price - fld leg ''strike'') else jmax (Fin 0) (fld leg ''strike'' - price))"

text \<open>A bought leg counts with the sign of its result, a sold one with the opposite.\<close>

definition signed_total :: "(jsval \<Rightarrow> jsnum) \<Rightarrow> jsval list \<Rightarrow> jsnum" where
  "signed_total pnl legs = foldl (\<lambda>total leg. total + (if is_buy leg then pnl leg else - pnl leg)) (Fin 0) legs"

definition calcExpiryPayoff :: "jsnum \<Rightarrow> jsval list \<Rightarrow> jsnum \<Rightarrow> jsnum" where
  "calcExpiryPayoff lotSize legs price =
     signed_total (\<lambda>leg. (leg_intrinsic price leg - fld leg ''ltp'') * fld leg ''qty'' * lotSize) legs"

definition time_decay :: "jsnum \<Rightarrow> jsnum \<Rightarrow> jsnum" where
  "time_decay daysToExpiry days = N 1 - jsqrt (jmax (N 1) (daysToExpiry - days) / daysToExpiry)"

definition calcTargetPayoff :: "jsnum \<Rightarrow> jsnum \<Rightarrow> jsval list \<Rightarrow> jsnum \<Rightarrow> jsnum \<Rightarrow> jsnum" where
  "calcTargetPayoff lotSize daysToExpiry legs price daysFwd =
     (if daysFwd \<ge> daysToExpiry then calcExpiryPayoff lotSize legs price
      else let timeDecay = time_decay daysToExpiry daysFwd
           in signed_total (\<lambda>leg.
                let intrinsic = leg_intrinsic price leg;
                    timeValue = jmax (Fin 0) (fld leg ''ltp'' - intrinsic) * (N 1 - timeDecay);
                    currentValue = intrinsic + timeValue
                in (currentValue - fld leg ''ltp'') * fld leg ''qty'' * lotSize) legs)"

definition grid_price :: "jsnum \<Rightarrow> jsnum \<Rightarrow> nat \<Rightarrow> nat \<Rightarrow> jsnum" where
  "grid_price minPrice maxPrice steps i = minPrice + (maxPrice - minPrice) * jint (int i) / jint (int steps)"

record payoff_point =
  pp_price :: jsnum
  pp_expiry :: jsnum
  pp_target :: jsnum

record payoff_data =
  pd_points :: "payoff_point list"
  pd_minPrice :: jsnum
  pd_maxPrice :: jsnum
  pd_minPnL :: jsnum
  pd_maxPnL :: jsnum

definition payoffData :: "jsnum \<Rightarrow> jsnum \<Rightarrow> jsnum \<Rightarrow> jsnum \<Rightarrow> jsval list \<Rightarrow> payoff_data option" where
  "payoffData spotPrice lotSize daysToExpiry targetDays legs =
     (if legs = [] \<or> \<not> num_truthy spotPrice then None
      else let range = spotPrice * N (12 / 100); minPrice = spotPrice - range; maxPrice = spotPrice + range;
               points = map (\<lambda>i. let price = grid_price minPrice maxPrice 80 i
                  in \<lparr>pp_price = price, pp_expiry = calcExpiryPayoff lotSize legs price,
                      pp_target = calcTargetPayoff lotSize daysToExpiry legs price targetDays\<rparr>) [0..<81];
               allPnL = concat (map (\<lambda>p. [pp_expiry p, pp_target p]) points)
           in Some \<lparr>pd_points = points, pd_minPrice = minPrice, pd_maxPrice = maxPrice,
                    pd_minPnL = min_of allPnL, pd_maxPnL = max_of allPnL\<rparr>)"

definition stdDevRange :: "(jsnum \<Rightarrow> jsnum) \<Rightarrow> jsnum \<Rightarrow> jsnum \<Rightarrow> jsnum \<Rightarrow> jsnum \<Rightarrow> jsnum \<times> jsnum \<times> jsnum" where
  "stdDevRange mexp spotPrice avgIV daysToExpiry targetDays =
     (let timeToExpiry = jmax (N 1) (daysToExpiry - targetDays) / N 365; stdMove = avgIV * jsqrt timeToExpiry
      in (spotPrice * mexp (- stdMove), spotPrice * mexp stdMove, stdMove * N 100))"

text \<open>Open interest at the strikes within the diagram: strike, calls, puts.\<close>

definition oiData :: "jsval \<Rightarrow> jsnum \<Rightarrow> jsnum \<Rightarrow> (jsnum \<times> jsnum \<times> jsnum) list" where
  "oiData optionChain minPrice maxPrice =
     (let strikes = filter (\<lambda>s. s \<ge> minPrice \<and> s \<le> maxPrice) (map string_to_number (object_keys optionChain));
          side = (\<lambda>k s. either_num (opt (opt optionChain (num_to_string s)) k) [''oi''])
      in js_sort (\<lambda>a b. fst a - fst b) (map (\<lambda>s. (s, side ''ce'' s, side ''pe'' s)) strikes))"

definition maxOI :: "(jsnum \<times> jsnum \<times> jsnum) list \<Rightarrow> jsnum" where
  "maxOI ds = max_of (N 1 # concat (map (\<lambda>(s, c, p). [c, p]) ds))"

text \<open>The table: the total of a row at a number of days, as the table computes it.\<close>

definition table_total :: "jsnum \<Rightarrow> jsnum \<Rightarrow> jsval list \<Rightarrow> jsnum \<Rightarrow> jsnum \<Rightarrow> jsnum" where
  "table_total lotSize daysToExpiry legs price days =
     signed_total (\<lambda>leg.
       let intrinsic = leg_intrinsic price leg
       in if days \<ge> daysToExpiry then (intrinsic - fld leg ''ltp'') * fld leg ''qty'' * lotSize
          else let timeValue = jmax (Fin 0) (fld leg ''ltp'' - intrinsic) * (N 1 - time_decay daysToExpiry days)
               in (intrinsic + timeValue - fld leg ''ltp'') * fld leg ''qty'' * lotSize) legs"

definition table_targets :: "int list" where
  "table_targets = [- 5, - 3, - 2, - 1, 0, 1, 2, 3, 5]"

definition tabularData :: "jsnum \<Rightarrow> jsnum \<Rightarrow> jsnum \<Rightarrow> jsval list \<Rightarrow> (int \<times> jsnum \<times> jsnum list) list" where
  "tabularData spotPrice lotSize daysToExpiry legs =
     (if legs = [] \<or> \<not> num_truthy spotPrice then []
      else map (\<lambda>pct. let price = spotPrice * (N 1 + jint pct / N 100)
         in (pct, price, map (table_total lotSize daysToExpiry legs price)
               [Fin 0, jfloor (daysToExpiry / N 2), daysToExpiry])) table_targets)"

text \<open>Coordinates of the diagram and the point under the pointer.\<close>

definition chart_x :: "payoff_data \<Rightarrow> jsnum \<Rightarrow> jsnum" where
  "chart_x d price = N 65 + (price - pd_minPrice d) / (pd_maxPrice d - pd_minPrice d) * N 715"

definition chart_y :: "payoff_data \<Rightarrow> jsnum \<Rightarrow> jsnum" where
  "chart_y d pnl = N 30 + (pd_maxPnL d - pnl) / num_or (pd_maxPnL d - pd_minPnL d) (N 1) * N 210"

definition hoveredPoint :: "payoff_data \<Rightarrow> jsnum option \<Rightarrow> payoff_point option" where
  "hoveredPoint d hoveredX =
     (case hoveredX of
        None \<Rightarrow> None
      | Some x \<Rightarrow> if \<not> num_truthy x then None
                  else List.find (\<lambda>p. abs (chart_x d (pp_price p) - x) < N 5) (pd_points d))"

section \<open>The other diagram\<close>

definition calculatePayoffWithTime :: "jsnum \<Rightarrow> jsval list \<Rightarrow> jsnum \<Rightarrow> jsnum \<Rightarrow> jsnum" where
  "calculatePayoffWithTime lotSize legs price timeDecayPct =
     signed_total (\<lambda>leg.
       let intrinsic = leg_intrinsic price leg;
           timeValue = (fld leg ''ltp'' - intrinsic) * (N 1 - timeDecayPct);
           currentValue = jmax intrinsic (intrinsic + timeValue)
       in (currentValue - fld leg ''ltp'') * fld leg ''qty'' * lotSize) legs"

record pro_point =
  pr_price :: jsnum
  pr_expiry :: jsnum
  pr_today :: jsnum
  pr_plus3d :: jsnum
  pr_plus7d :: jsnum

definition pro_points :: "jsnum \<Rightarrow> jsnum \<Rightarrow> jsval list \<Rightarrow> pro_point list option" where
  "pro_points spotPrice lotSize legs =
     (if legs = [] \<or> \<not> num_truthy spotPrice then None
      else let range = spotPrice * N (15 / 100); minPrice = spotPrice - range; maxPrice = spotPrice + range
           in Some (map (\<lambda>i. let price = grid_price minPrice maxPrice 100 i
                in \<lparr>pr_price = price, pr_expiry = calcExpiryPayoff lotSize legs price,
                    pr_today = calculatePayoffWithTime lotSize legs price (Fin 0),
                    pr_plus3d = calculatePayoffWithTime lotSize legs price (N (4 / 10)),
                    pr_plus7d = calculatePayoffWithTime lotSize legs price (N (8 / 10))\<rparr>) [0..<101]))"

definition pro_range :: "pro_point list \<Rightarrow> jsnum \<times> jsnum" where
  "pro_range points =
     (let values = (\<lambda>p. [pr_expiry p, pr_today p, pr_plus3d p, pr_plus7d p])
      in (min_of (map (\<lambda>p. min_of (values p)) points), max_of (map (\<lambda>p. max_of (values p)) points)))"

definition toggleCurve :: "string \<Rightarrow> string list \<Rightarrow> string list" where
  "toggleCurve key prev = (if key \<in> set prev then filter (\<lambda>k. k \<noteq> key) prev else prev @ [key])"

section \<open>The classic builder\<close>

record strategy_metrics =
  sg_totalPremium :: jsnum
  sg_netDelta :: jsnum
  sg_netGamma :: jsnum
  sg_netTheta :: jsnum
  sg_netVega :: jsnum

definition strategyMetrics :: "jsnum \<Rightarrow> jsval list \<Rightarrow> strategy_metrics option" where
  "strategyMetrics lotSize legs =
     (if legs = [] then None
      else let net = (\<lambda>k. foldl (\<lambda>acc leg. acc + fld leg k * fld leg ''qty'' * (if is_buy leg then N 1 else N (- 1))) (Fin 0) legs);
               premium = foldl (\<lambda>acc leg. acc + fld leg ''ltp'' * fld leg ''qty'' * (if is_buy leg then N (- 1) else N 1)) (Fin 0) legs
           in Some \<lparr>sg_totalPremium = premium * lotSize, sg_netDelta = net ''delta'', sg_netGamma = net ''gamma'',
                    sg_netTheta = net ''theta'', sg_netVega = net ''vega''\<rparr>)"

text \<open>The loop over the prices from \<open>price\<close> to \<open>end_price\<close> in steps of ten; it may not end.\<close>

partial_function (option) price_grid :: "jsnum \<Rightarrow> jsnum \<Rightarrow> jsnum list option" where
  "price_grid price end_price =
     (if price \<le> end_price then Option.bind (price_grid (price + N 10) end_price) (\<lambda>ps. Some (price # ps)) else Some [])"

definition classic_payoff :: "jsnum \<Rightarrow> jsval list \<Rightarrow> jsnum \<Rightarrow> jsnum" where
  "classic_payoff lotSize legs price =
     signed_total (\<lambda>leg. (leg_intrinsic price leg - fld leg ''ltp'') * fld leg ''qty'') legs * lotSize"

definition classic_points :: "jsnum \<Rightarrow> jsnum \<Rightarrow> jsval list \<Rightarrow> (jsnum \<times> jsnum) list option" where
  "classic_points spotPrice lotSize legs =
     (if legs = [] then Some []
      else map_option (map (\<lambda>price. (price, classic_payoff lotSize legs price)))
             (price_grid (spotPrice - N 1000) (spotPrice + N 1000)))"

definition crosses :: "jsnum \<Rightarrow> jsnum \<Rightarrow> bool" where
  "crosses before after \<longleftrightarrow> (before < Fin 0 \<and> after \<ge> Fin 0) \<or> (before \<ge> Fin 0 \<and> after < Fin 0)"

fun breakevens :: "(jsnum \<times> jsnum) list \<Rightarrow> jsnum list" where
  "breakevens (a # b # ps) = (if crosses (snd a) (snd b) then [fst b] else []) @ breakevens (b # ps)"
| "breakevens _ = []"

text \<open>The state of the builder: the legs, the preset menu, the presets whose timer runs (with the legs they
  will set), the simulation shown, its timer with what it will send, the requests in flight.\<close>

record sim_params =
  sp_daysForward :: jsnum
  sp_spotOffset :: jsnum
  sp_ivChange :: jsnum
  sp_riskFreeRate :: jsnum

record builder =
  bd_legs :: "jsval list"
  bd_presetOpen :: bool
  bd_presetTimers :: "jsval list list"
  bd_category :: string
  bd_params :: sim_params
  bd_simulation :: jsval
  bd_simulating :: bool
  bd_timer :: "(jsval list \<times> sim_params \<times> jsnum) option"
  bd_sent :: "jsval list"

definition builder_initial :: builder where
  "builder_initial =
     \<lparr>bd_legs = [], bd_presetOpen = False, bd_presetTimers = [], bd_category = ''all'',
      bd_params = \<lparr>sp_daysForward = Fin 0, sp_spotOffset = Fin 0, sp_ivChange = Fin 0, sp_riskFreeRate = N (7 / 100)\<rparr>,
      bd_simulation = Null, bd_simulating = False, bd_timer = None, bd_sent = []\<rparr>"

definition addLeg :: "jsnum \<Rightarrow> jsval \<Rightarrow> jsval \<Rightarrow> jsval \<Rightarrow> builder \<Rightarrow> builder" where
  "addLeg ident selectedExpiry lotSize legData s =
     s\<lparr>bd_legs := bd_legs s @ [new_leg ident selectedExpiry lotSize legData]\<rparr>"

definition removeLeg :: "jsval \<Rightarrow> builder \<Rightarrow> builder" where
  "removeLeg ident s = s\<lparr>bd_legs := without_leg ident (bd_legs s)\<rparr>"

definition updateLegQty :: "jsval \<Rightarrow> jsnum \<Rightarrow> builder \<Rightarrow> builder" where
  "updateLegQty ident qty s = s\<lparr>bd_legs := with_qty ident qty (bd_legs s)\<rparr>"

definition clearAll :: "builder \<Rightarrow> builder" where
  "clearAll s = s\<lparr>bd_legs := [], bd_simulation := Null\<rparr>"

text \<open>Choosing a preset starts a timer of 50 ms that replaces the legs and closes the menu.\<close>

definition applyPreset :: "jsval list \<Rightarrow> builder \<Rightarrow> builder" where
  "applyPreset builtLegs s = (let c = clearAll s in c\<lparr>bd_presetTimers := bd_presetTimers c @ [builtLegs]\<rparr>)"

definition preset_timer :: "builder \<Rightarrow> builder" where
  "preset_timer s =
     (case bd_presetTimers s of
        builtLegs # rest \<Rightarrow> s\<lparr>bd_legs := builtLegs, bd_presetOpen := False, bd_presetTimers := rest\<rparr>
      | [] \<Rightarrow> s)"

definition filteredPresets :: "string \<Rightarrow> preset list" where
  "filteredPresets c =
     (if c = ''all'' then STRATEGY_PRESETS else getPresetsByCategory c)"

text \<open>The effect on a change of the legs, the parameters or the price: the clean-up of the previous run stops its
  timer, then a new one is started.\<close>

definition simulation_effect :: "jsnum \<Rightarrow> builder \<Rightarrow> builder" where
  "simulation_effect spotPrice s =
     (let c = s\<lparr>bd_timer := None\<rparr>
      in if bd_legs c = [] then c\<lparr>bd_simulation := Null\<rparr>
         else c\<lparr>bd_timer := Some (bd_legs c, bd_params c, spotPrice)\<rparr>)"

text \<open>After 300 ms the request is sent; \<open>date\<close> is the ISO string of today plus the days forward.\<close>

definition simulation_request :: "string \<Rightarrow> jsval list \<Rightarrow> sim_params \<Rightarrow> jsnum \<Rightarrow> jsval" where
  "simulation_request date legs params spotPrice =
     Obj [(''legs'', Arr legs), (''spotPrice'', Num (spotPrice * (N 1 + sp_spotOffset params / N 100))),
          (''simulationDate'', Str date), (''ivChange'', Num (sp_ivChange params)),
          (''riskFreeRate'', Num (sp_riskFreeRate params))]"

definition simulation_timer :: "string \<Rightarrow> builder \<Rightarrow> builder" where
  "simulation_timer date s =
     (case bd_timer s of
        None \<Rightarrow> s
      | Some (legs, params, spotPrice) \<Rightarrow>
          s\<lparr>bd_timer := None, bd_simulating := True,
            bd_sent := bd_sent s @ [simulation_request date legs params spotPrice]\<rparr>)"

definition simulation_answer :: "jsval \<Rightarrow> jsval result \<Rightarrow> builder \<Rightarrow> builder" where
  "simulation_answer asked outcome s =
     (case res_bind outcome (\<lambda>r. res_bind (get r ''success'') (\<lambda>ok. Inr (r, ok))) of
        Inr (r, ok) \<Rightarrow> if truthy ok then s\<lparr>bd_simulation := r\<rparr> else s
      | Inl e \<Rightarrow> s)\<lparr>bd_simulating := False, bd_sent := remove1 asked (bd_sent s)\<rparr>"

section \<open>The professional builder\<close>

definition ReferenceError :: "string \<Rightarrow> js_error" where
  "ReferenceError name =
     Thrown (Obj [(''name'', Str ''ReferenceError''), (''message'', Str (name @ '' is not defined''))])"

record pro_builder =
  pb_legs :: "jsval list"
  pb_presetOpen :: bool
  pb_presetTimers :: "jsval list list"
  pb_metrics :: jsval
  pb_metricsLoading :: bool
  pb_priceSlices :: jsval
  pb_slicesLoading :: bool
  pb_timer :: "(jsval list \<times> jsnum) option"

definition pro_initial :: pro_builder where
  "pro_initial =
     \<lparr>pb_legs = [], pb_presetOpen = False, pb_presetTimers = [], pb_metrics = Null, pb_metricsLoading = False,
      pb_priceSlices = Null, pb_slicesLoading = False, pb_timer = None\<rparr>"

definition pro_addLeg :: "jsnum \<Rightarrow> jsval \<Rightarrow> jsval \<Rightarrow> jsval \<Rightarrow> pro_builder \<Rightarrow> pro_builder" where
  "pro_addLeg ident selectedExpiry lotSize legData s =
     s\<lparr>pb_legs := pb_legs s @ [new_leg ident selectedExpiry lotSize legData]\<rparr>"

definition pro_removeLeg :: "jsval \<Rightarrow> pro_builder \<Rightarrow> pro_builder" where
  "pro_removeLeg ident s = s\<lparr>pb_legs := without_leg ident (pb_legs s)\<rparr>"

definition updateLeg :: "jsval \<Rightarrow> (string \<times> jsval) list \<Rightarrow> pro_builder \<Rightarrow> pro_builder" where
  "updateLeg ident updates s = s\<lparr>pb_legs := with_updates ident updates (pb_legs s)\<rparr>"

definition duplicateLeg :: "jsnum \<Rightarrow> jsval \<Rightarrow> pro_builder \<Rightarrow> pro_builder" where
  "duplicateLeg ident leg s = s\<lparr>pb_legs := pb_legs s @ [spread leg [(''id'', Num ident)]]\<rparr>"

text \<open>\<open>clearAll\<close> calls a setter that is not declared anywhere: the updates before it are made, then it throws.\<close>

definition pro_clearAll :: "pro_builder \<Rightarrow> pro_builder \<times> js_error option" where
  "pro_clearAll s =
     (s\<lparr>pb_legs := [], pb_metrics := Null, pb_priceSlices := Null\<rparr>, Some (ReferenceError ''setScenarioMatrix''))"

definition pro_applyPreset :: "jsval list \<Rightarrow> pro_builder \<Rightarrow> pro_builder \<times> js_error option" where
  "pro_applyPreset builtLegs s =
     (case pro_clearAll s of
        (c, Some e) \<Rightarrow> (c, Some e)
      | (c, None) \<Rightarrow> (c\<lparr>pb_presetTimers := pb_presetTimers c @ [builtLegs]\<rparr>, None))"

definition pro_preset_timer :: "pro_builder \<Rightarrow> pro_builder" where
  "pro_preset_timer s =
     (case pb_presetTimers s of
        builtLegs # rest \<Rightarrow> s\<lparr>pb_legs := builtLegs, pb_presetOpen := False, pb_presetTimers := rest\<rparr>
      | [] \<Rightarrow> s)"

definition pro_effect :: "jsnum \<Rightarrow> pro_builder \<Rightarrow> pro_builder" where
  "pro_effect spotPrice s =
     (let c = s\<lparr>pb_timer := None\<rparr>
      in if pb_legs c = [] then c\<lparr>pb_metrics := Null, pb_priceSlices := Null\<rparr>
         else c\<lparr>pb_timer := Some (pb_legs c, spotPrice)\<rparr>)"

text \<open>The timer fetches the metrics and then the slices; each answer is a step of its own.\<close>

definition pro_timer :: "pro_builder \<Rightarrow> pro_builder" where
  "pro_timer s = (if pb_timer s = None then s else s\<lparr>pb_timer := None, pb_metricsLoading := True\<rparr>)"

definition successful :: "jsval result \<Rightarrow> jsval option" where
  "successful outcome =
     (case res_bind outcome (\<lambda>r. res_bind (get r ''success'') (\<lambda>ok. Inr (r, ok))) of
        Inr (r, ok) \<Rightarrow> if truthy ok then Some r else None
      | Inl e \<Rightarrow> None)"

definition metrics_answer :: "jsval result \<Rightarrow> pro_builder \<Rightarrow> pro_builder" where
  "metrics_answer outcome s =
     (case successful outcome of Some r \<Rightarrow> s\<lparr>pb_metrics := r\<rparr> | None \<Rightarrow> s)\<lparr>pb_metricsLoading := False, pb_slicesLoading := True\<rparr>"

definition slices_answer :: "jsval result \<Rightarrow> pro_builder \<Rightarrow> pro_builder" where
  "slices_answer outcome s =
     (case successful outcome of Some r \<Rightarrow> s\<lparr>pb_priceSlices := r\<rparr> | None \<Rightarrow> s)\<lparr>pb_slicesLoading := False\<rparr>"

section \<open>The table of legs\<close>

text \<open>The leg that is edited, with the contents of the three inputs.\<close>

record leg_edit =
  le_id :: jsval
  le_qty :: jsval
  le_entryPrice :: jsval
  le_iv :: string

definition startEditing :: "jsval \<Rightarrow> leg_edit" where
  "startEditing leg =
     \<lparr>le_id = opt leg ''id'', le_qty = opt leg ''qty'', le_entryPrice = js_or (opt leg ''ltp'') (opt leg ''entryPrice''),
      le_iv = to_fixed 1 (fld leg ''iv'' * N 100)\<rparr>"

definition type_qty :: "string \<Rightarrow> leg_edit \<Rightarrow> leg_edit" where
  "type_qty text e = e\<lparr>le_qty := Num (num_or (parse_int text) (N 1))\<rparr>"

definition type_price :: "string \<Rightarrow> leg_edit \<Rightarrow> leg_edit" where
  "type_price text e = e\<lparr>le_entryPrice := Str text\<rparr>"

definition edit_updates :: "leg_edit \<Rightarrow> (string \<times> jsval) list" where
  "edit_updates e =
     (let price = Num (parse_float (js_to_string (le_entryPrice e)))
      in [(''qty'', le_qty e), (''ltp'', price), (''entryPrice'', price), (''iv'', Num (parse_float (le_iv e) / N 100))])"

definition saveEditing :: "leg_edit option \<Rightarrow> pro_builder \<Rightarrow> pro_builder" where
  "saveEditing editing s =
     (case editing of
        Some e \<Rightarrow> if truthy (le_id e) then updateLeg (le_id e) (edit_updates e) s else s
      | None \<Rightarrow> s)"

record leg_totals =
  lt_premium :: jsnum
  lt_delta :: jsnum
  lt_gamma :: jsnum
  lt_theta :: jsnum
  lt_vega :: jsnum

definition totals :: "jsnum \<Rightarrow> jsval list \<Rightarrow> leg_totals" where
  "totals lotSize legs =
     (let sign = (\<lambda>leg. if is_buy leg then N 1 else N (- 1));
          net = (\<lambda>k. foldl (\<lambda>acc leg. acc + num_or (fld leg k) (Fin 0) * fld leg ''qty'' * sign leg) (Fin 0) legs)
      in \<lparr>lt_premium = foldl (\<lambda>acc leg. acc + fld leg ''ltp'' * fld leg ''qty'' * lotSize
                * (if strict_eq (opt leg ''action'') (Str ''SELL'') then N 1 else N (- 1))) (Fin 0) legs,
          lt_delta = net ''delta'', lt_gamma = net ''gamma'', lt_theta = net ''theta'', lt_vega = net ''vega''\<rparr>)"

section \<open>The small option chain\<close>

definition mini_strikes :: "jsval \<Rightarrow> jsnum \<Rightarrow> nat \<Rightarrow> bool \<Rightarrow> jsnum list" where
  "mini_strikes optionChain atmStrike visibleStrikes expanded =
     (if \<not> truthy optionChain then []
      else let all = sort_numbers (map string_to_number (object_keys optionChain));
               atmIndex = (case find_index (\<lambda>s. s \<ge> atmStrike) all of Some i \<Rightarrow> int i | None \<Rightarrow> - 1)
           in if expanded then all
              else let start = max 0 (atmIndex - int (visibleStrikes div 2))
                   in slice start (min (int (length all)) (start + int visibleStrikes)) all)"

text \<open>What a click on Buy or Sell hands to \<open>addLeg\<close>.\<close>

definition mini_leg :: "jsval \<Rightarrow> jsval \<Rightarrow> jsnum \<Rightarrow> string \<Rightarrow> string \<Rightarrow> jsval" where
  "mini_leg optionChain expiry strike typ action =
     (let optionData = opt (opt optionChain (num_to_string strike)) (if typ = ''CE'' then ''ce'' else ''pe'');
          geek = (\<lambda>k d. js_or (opt (opt optionData ''optgeeks'') k) (Num d))
      in Obj [(''strike'', Num strike), (''type'', Str typ), (''action'', Str action), (''expiry'', expiry),
              (''ltp'', js_or (opt optionData ''ltp'') (Num (Fin 0))), (''iv'', js_or (opt optionData ''iv'') (Num (N (15 / 100)))),
              (''delta'', geek ''delta'' (if typ = ''CE'' then N (1 / 2) else N (- 1 / 2))),
              (''theta'', geek ''theta'' (Fin 0)), (''gamma'', geek ''gamma'' (Fin 0)), (''vega'', geek ''vega'' (Fin 0))])"

section \<open>Curves\<close>

definition bought :: "jsval \<Rightarrow> bool" where
  "bought leg \<longleftrightarrow> is_buy leg \<and> Fin 0 \<le> fld leg ''qty''"

definition sold :: "jsval \<Rightarrow> bool" where
  "sold leg \<longleftrightarrow> \<not> is_buy leg \<and> Fin 0 \<le> fld leg ''qty''"

text \<open>The result of a leg whose current value is \<open>v\<close>.\<close>

definition leg_pnl :: "jsnum \<Rightarrow> jsnum \<Rightarrow> jsval \<Rightarrow> jsnum" where
  "leg_pnl lotSize v leg = (v - fld leg ''ltp'') * fld leg ''qty'' * lotSize"

lemma leg_pnl_mono:
  assumes "v \<le> w" and "Fin 0 \<le> fld leg ''qty''" and "Fin 0 \<le> lotSize"
    and "leg_pnl lotSize v leg \<noteq> NaN" and "leg_pnl lotSize w leg \<noteq> NaN"
  shows "leg_pnl lotSize v leg \<le> leg_pnl lotSize w leg"
proof -
  let ?m = "\<lambda>x. (x - fld leg ''ltp'') * fld leg ''qty''"
  have n: "?m v \<noteq> NaN" "?m w \<noteq> NaN" using assms(4,5) unfolding leg_pnl_def by auto
  then have d: "v - fld leg ''ltp'' \<noteq> NaN" "w - fld leg ''ltp'' \<noteq> NaN" by auto
  have "?m v \<le> ?m w" by (intro times_mono_left minus_mono_left assms n d)
  then show ?thesis
    unfolding leg_pnl_def by (rule times_mono_left [OF _ assms(3) assms(4,5) [unfolded leg_pnl_def]])
qed

lemma intrinsic_plus_zero: "leg_intrinsic price leg + Fin 0 = leg_intrinsic price leg"
  by (simp add: leg_intrinsic_def jmax_plus_zero)

lemma time_decay_le: "N 1 - time_decay T d \<noteq> NaN \<Longrightarrow> Fin 0 \<le> N 1 - time_decay T d"
proof -
  have "nonneg_or_nan (jsqrt (jmax (N 1) (T - d) / T))" by (rule jsqrt_nonneg)
  then show "N 1 - time_decay T d \<noteq> NaN \<Longrightarrow> Fin 0 \<le> N 1 - time_decay T d"
    unfolding time_decay_def
  proof (cases "jsqrt (jmax (N 1) (T - d) / T)")
    case (Fin r)
    moreover assume "nonneg_or_nan (jsqrt (jmax (N 1) (T - d) / T))"
    ultimately have "0 \<le> r" by simp
    then have "rnd (1 - r) \<le> rnd 1" by (intro rnd_mono) simp
    then have "rnd (1 - r) \<le> Fin 1" by simp
    then show "Fin 0 \<le> N 1 - (N 1 - jsqrt (jmax (N 1) (T - d) / T))"
      using Fin nonneg_rnd [of "1 - s" for s] by (cases "rnd (1 - r)") (auto simp: minus_jsnum_def intro!: rnd_mono [of 0, simplified])
  qed (auto simp: minus_jsnum_def)
qed

lemma signed_total_mono:
  assumes "\<forall>leg \<in> set legs. f leg \<noteq> NaN \<and> g leg \<noteq> NaN \<longrightarrow> (if is_buy leg then f leg \<le> g leg else g leg \<le> f leg)"
    and "signed_total f legs \<noteq> NaN" and "signed_total g legs \<noteq> NaN"
  shows "signed_total f legs \<le> signed_total g legs"
  unfolding signed_total_def
  by (rule foldl_plus_mono) (use assms in \<open>auto simp: signed_total_def uminus_mono\<close>)

text \<open>A value of a leg that is at least the intrinsic one lifts a bought leg and lowers a sold one.\<close>

lemma pnl_total_order:
  assumes "\<forall>leg \<in> set legs. v leg \<noteq> NaN \<longrightarrow> leg_intrinsic price leg \<le> v leg" and "Fin 0 \<le> lotSize"
    and "\<forall>leg \<in> set legs. Fin 0 \<le> fld leg ''qty''"
    and "calcExpiryPayoff lotSize legs price \<noteq> NaN" and "signed_total (\<lambda>leg. leg_pnl lotSize (v leg) leg) legs \<noteq> NaN"
  shows "\<forall>leg \<in> set legs. is_buy leg \<Longrightarrow> calcExpiryPayoff lotSize legs price \<le> signed_total (\<lambda>leg. leg_pnl lotSize (v leg) leg) legs"
    and "\<forall>leg \<in> set legs. \<not> is_buy leg \<Longrightarrow> signed_total (\<lambda>leg. leg_pnl lotSize (v leg) leg) legs \<le> calcExpiryPayoff lotSize legs price"
proof -
  have e: "calcExpiryPayoff lotSize legs price = signed_total (\<lambda>leg. leg_pnl lotSize (leg_intrinsic price leg) leg) legs"
    by (simp add: calcExpiryPayoff_def leg_pnl_def)
  have step: "leg_pnl lotSize (leg_intrinsic price leg) leg \<le> leg_pnl lotSize (v leg) leg"
    if "leg \<in> set legs" "leg_pnl lotSize (leg_intrinsic price leg) leg \<noteq> NaN" "leg_pnl lotSize (v leg) leg \<noteq> NaN" for leg
  proof -
    have "v leg \<noteq> NaN" using that(3) by (auto simp: leg_pnl_def)
    then show ?thesis using assms(1-3) that by (intro leg_pnl_mono) auto
  qed
  show "\<forall>leg \<in> set legs. is_buy leg \<Longrightarrow> calcExpiryPayoff lotSize legs price \<le> signed_total (\<lambda>leg. leg_pnl lotSize (v leg) leg) legs"
    unfolding e by (rule signed_total_mono) (use step assms(4,5) e in auto)
  show "\<forall>leg \<in> set legs. \<not> is_buy leg \<Longrightarrow> signed_total (\<lambda>leg. leg_pnl lotSize (v leg) leg) legs \<le> calcExpiryPayoff lotSize legs price"
    unfolding e by (rule signed_total_mono) (use step assms(4,5) e in auto)
qed

definition target_value :: "jsnum \<Rightarrow> jsnum \<Rightarrow> jsnum \<Rightarrow> jsval \<Rightarrow> jsnum" where
  "target_value daysToExpiry daysFwd price leg =
     (if daysFwd \<ge> daysToExpiry then leg_intrinsic price leg
      else leg_intrinsic price leg
           + jmax (Fin 0) (fld leg ''ltp'' - leg_intrinsic price leg) * (N 1 - time_decay daysToExpiry daysFwd))"

lemma target_as_total:
  "calcTargetPayoff lotSize T legs price d = signed_total (\<lambda>leg. leg_pnl lotSize (target_value T d price leg) leg) legs"
  by (simp add: calcTargetPayoff_def calcExpiryPayoff_def target_value_def leg_pnl_def Let_def)

lemma target_value_le: "target_value T d price leg \<noteq> NaN \<Longrightarrow> leg_intrinsic price leg \<le> target_value T d price leg"
proof (cases "d \<ge> T")
  case True
  moreover assume "target_value T d price leg \<noteq> NaN"
  ultimately show ?thesis by (simp add: target_value_def num_order)
next
  case False
  let ?a = "jmax (Fin 0) (fld leg ''ltp'' - leg_intrinsic price leg)" and ?b = "N 1 - time_decay T d"
  assume n: "target_value T d price leg \<noteq> NaN"
  have v: "target_value T d price leg = leg_intrinsic price leg + ?a * ?b" using False by (simp add: target_value_def)
  have ab: "?a * ?b \<noteq> NaN" using n unfolding v by (metis NaN_plus(2))
  then have a: "?a \<noteq> NaN" and b: "?b \<noteq> NaN" by (metis NaN_times(1), metis NaN_times(2))
  have "Fin 0 \<le> ?a" "Fin 0 \<le> ?b" using jmax_zero_nonneg [OF a] time_decay_le [OF b] by blast+
  then have "nonneg_or_nan (?a * ?b)" by (intro nonneg_mult) (simp_all add: nonneg_or_nan_def)
  then have "Fin 0 \<le> ?a * ?b" using ab by (simp add: nonneg_or_nan_def)
  then show ?thesis using n unfolding v by (intro plus_nonneg_le) (auto simp: intrinsic_plus_zero)
qed

text \<open>C32: The curves before expiry and the curve at expiry: for bought legs the other curves lie on or above it, for
  sold legs on or below it, at every price, day and speed of decay, wherever the three are numbers and lot size and quantities are not negative.\<close>

theorem curves_ordered:
  assumes "E = calcExpiryPayoff lotSize legs price" and "T = calcTargetPayoff lotSize daysToExpiry legs price daysFwd"
    and "W = calculatePayoffWithTime lotSize legs price timeDecayPct" and "NaN \<notin> {E, T, W}" and "Fin 0 \<le> lotSize"
  shows "((\<forall>leg \<in> set legs. bought leg) \<longrightarrow> E \<le> T \<and> E \<le> W) \<and> ((\<forall>leg \<in> set legs. sold leg) \<longrightarrow> T \<le> E \<and> W \<le> E)"
proof -
  define w where "w = (\<lambda>leg. jmax (leg_intrinsic price leg)
      (leg_intrinsic price leg + (fld leg ''ltp'' - leg_intrinsic price leg) * (N 1 - timeDecayPct)))"
  have W: "W = signed_total (\<lambda>leg. leg_pnl lotSize (w leg) leg) legs"
    by (simp add: assms(3) calculatePayoffWithTime_def leg_pnl_def w_def Let_def)
  have wle: "w leg \<noteq> NaN \<Longrightarrow> leg_intrinsic price leg \<le> w leg" for leg unfolding w_def by (rule le_jmax(1))
  have T: "T = signed_total (\<lambda>leg. leg_pnl lotSize (target_value daysToExpiry daysFwd price leg) leg) legs"
    unfolding assms(2) by (rule target_as_total)
  have n: "calcExpiryPayoff lotSize legs price \<noteq> NaN"
    "signed_total (\<lambda>leg. leg_pnl lotSize (target_value daysToExpiry daysFwd price leg) leg) legs \<noteq> NaN"
    "signed_total (\<lambda>leg. leg_pnl lotSize (w leg) leg) legs \<noteq> NaN"
    using assms(1,4) T W by auto
  have q: "\<forall>leg \<in> set legs. Fin 0 \<le> fld leg ''qty''" if "(\<forall>leg \<in> set legs. bought leg) \<or> (\<forall>leg \<in> set legs. sold leg)"
    using that unfolding bought_def sold_def by blast
  have tv: "\<forall>leg \<in> set legs. target_value daysToExpiry daysFwd price leg \<noteq> NaN
      \<longrightarrow> leg_intrinsic price leg \<le> target_value daysToExpiry daysFwd price leg" using target_value_le by blast
  have wv: "\<forall>leg \<in> set legs. w leg \<noteq> NaN \<longrightarrow> leg_intrinsic price leg \<le> w leg" using wle by blast
  note t = pnl_total_order [OF tv assms(5) _ n(1,2)] and w = pnl_total_order [OF wv assms(5) _ n(1,3)]
  have "E \<le> T \<and> E \<le> W" if b: "\<forall>leg \<in> set legs. bought leg"
  proof -
    have "\<forall>leg \<in> set legs. is_buy leg" using b unfolding bought_def by blast
    then show ?thesis using t(1) [OF q] w(1) [OF q] b unfolding assms(1) T W by blast
  qed
  moreover have "T \<le> E \<and> W \<le> E" if b: "\<forall>leg \<in> set legs. sold leg"
  proof -
    have "\<forall>leg \<in> set legs. \<not> is_buy leg" using b unfolding sold_def by blast
    then show ?thesis using t(2) [OF q] w(2) [OF q] b unfolding assms(1) T W by blast
  qed
  ultimately show ?thesis by blast
qed

text \<open>The table computes what the target curve computes.\<close>

lemma table_agrees_with_curve: "table_total lotSize T legs price days = calcTargetPayoff lotSize T legs price days"
  by (simp add: table_total_def calcTargetPayoff_def calcExpiryPayoff_def Let_def)

text \<open>A bought and a sold call at 100 for 5, with the price at 110, half way to the expiry.\<close>

definition sample_option :: "string \<Rightarrow> jsval" where
  "sample_option action = Obj [(''type'', Str ''CE''), (''action'', Str action), (''strike'', Num (Fin 100)), (''ltp'', Num (Fin 5)),
     (''qty'', Num (Fin 1)), (''expiry'', Num (Fin 1735689600))]"

theorem curves_ordered_witness:
  "calcExpiryPayoff (Fin 50) [sample_option ''BUY''] (Fin 102) \<le> calcTargetPayoff (Fin 50) (Fin 4) [sample_option ''BUY''] (Fin 102) (Fin 3)"
proof -
  have "NaN \<notin> {calcExpiryPayoff (Fin 50) [sample_option ''BUY''] (Fin 102),
      calcTargetPayoff (Fin 50) (Fin 4) [sample_option ''BUY''] (Fin 102) (Fin 3),
      calculatePayoffWithTime (Fin 50) [sample_option ''BUY''] (Fin 102) (Fin 0)}" by code_simp
  moreover have "\<forall>leg \<in> set [sample_option ''BUY'']. bought leg" by code_simp
  ultimately show ?thesis
    using curves_ordered [OF refl refl refl, of "Fin 50" "[sample_option ''BUY'']" "Fin 102" "Fin 4" "Fin 3" "Fin 0"] by simp
qed

section \<open>The loop over the prices\<close>

lemma shifted:
  assumes "\<bar>x\<bar> \<le> 2 ^ 51" and "\<bar>k\<bar> \<le> 1000"
  shows "\<exists>q. rnd (x + of_int k) = Fin q \<and> x + of_int k - 1 \<le> q \<and> q \<le> x + of_int k + 1"
proof -
  have b: "- (2251799813685248 :: rat) \<le> x" "x \<le> 2251799813685248" using assms by (simp_all add: abs_le_iff)
  then have f: "- 2251799813685248 \<le> \<lfloor>x\<rfloor>" "\<lceil>x\<rceil> \<le> 2251799813685248" by (simp_all add: le_floor_iff ceiling_le_iff)
  have fc: "\<lfloor>x\<rfloor> \<le> \<lceil>x\<rceil>" by (rule floor_le_ceiling)
  have "\<exists>q. rnd (x + of_int k) = Fin q \<and> q = rd64 (x + of_int k) \<and> of_int (\<lfloor>x\<rfloor> + k) \<le> q \<and> q \<le> of_int (\<lceil>x\<rceil> + k)"
  proof (rule rnd_between)
    have "(2 :: int) ^ 53 = 9007199254740992" by simp
    then show "\<bar>\<lfloor>x\<rfloor> + k\<bar> \<le> 2 ^ 53" "\<bar>\<lceil>x\<rceil> + k\<bar> \<le> 2 ^ 53" using f fc assms(2) by linarith+
  qed simp_all
  then obtain q where "rnd (x + of_int k) = Fin q" "of_int \<lfloor>x\<rfloor> + of_int k \<le> q" "q \<le> of_int \<lceil>x\<rceil> + of_int k" by auto
  moreover have "x < of_int \<lfloor>x\<rfloor> + 1" "of_int \<lceil>x\<rceil> < x + 1" by linarith+
  ultimately show ?thesis by (intro exI [of _ q]) simp
qed

lemma next_price: "\<bar>p\<bar> \<le> 2 ^ 51 \<Longrightarrow> \<exists>q. Fin p + N 10 = Fin q \<and> p + 9 \<le> q \<and> q \<le> p + 11"
  using shifted [of p 10] by auto

lemma price_grid_step:
  "price \<le> e \<Longrightarrow> price_grid (price + N 10) e = Some ps \<Longrightarrow> price_grid price e = Some (price # ps)"
  "\<not> price \<le> e \<Longrightarrow> price_grid price e = Some []"
  by (simp_all add: price_grid.simps [of price e])

lemma price_grid_bounded:
  assumes "\<bar>p\<bar> \<le> 2 ^ 51" and "\<bar>e\<bar> \<le> 2 ^ 51 - 20" and "e - p \<le> 9 * of_nat n"
  shows "\<exists>ps. price_grid (Fin p) (Fin e) = Some ps \<and> length ps \<le> Suc n
           \<and> sorted_wrt (<) ps \<and> (\<forall>x \<in> set ps. Fin p \<le> x \<and> x \<le> Fin e)"
  using assms
proof (induction n arbitrary: p)
  case 0
  obtain q where q: "Fin p + N 10 = Fin q" "p + 9 \<le> q" using next_price [OF 0(1)] by blast
  show ?case
  proof (cases "p \<le> e")
    case True
    then have "price_grid (Fin q) (Fin e) = Some []" using 0 q(2) by (intro price_grid_step(2)) simp
    then have "price_grid (Fin p) (Fin e) = Some [Fin p]" using True q(1) by (intro price_grid_step(1)) simp_all
    then show ?thesis using True by simp
  qed (use price_grid_step(2) in simp)
next
  case (Suc n)
  obtain q where q: "Fin p + N 10 = Fin q" "p + 9 \<le> q" "q \<le> p + 11" using next_price [OF Suc.prems(1)] by blast
  show ?case
  proof (cases "p \<le> e")
    case True
    have "\<bar>q\<bar> \<le> 2 ^ 51" using Suc.prems(1,2) True q(2,3) by (simp add: abs_le_iff)
    moreover have "e - q \<le> 9 * of_nat n" using Suc.prems(3) q(2) by simp
    ultimately obtain ps where ps: "price_grid (Fin q) (Fin e) = Some ps" "length ps \<le> Suc n" "sorted_wrt (<) ps"
        "\<forall>x \<in> set ps. Fin q \<le> x \<and> x \<le> Fin e" using Suc.IH Suc.prems(2) by blast
    have "price_grid (Fin p) (Fin e) = Some (Fin p # ps)" using True q(1) ps(1) by (intro price_grid_step(1)) simp_all
    moreover have "Fin p < x \<and> Fin p \<le> x" if "x \<in> set ps" for x using ps(4) that q(2) by (cases x) fastforce+
    ultimately show ?thesis using ps True by auto
  qed (use price_grid_step(2) in simp)
qed

lemma price_loop_ends_helper:
  assumes "\<bar>s\<bar> \<le> 2 ^ 50"
  shows "\<exists>points. classic_points (Fin s) lotSize legs = Some points \<and> length points \<le> 224
       \<and> sorted_wrt (<) (map fst points)
       \<and> (\<forall>x \<in> set (map fst points). Fin s - N 1000 \<le> x \<and> x \<le> Fin s + N 1000)"
proof (cases "legs = []")
  case False
  have b: "- (1125899906842624 :: rat) \<le> s" "s \<le> 1125899906842624" using assms by (simp_all add: abs_le_iff)
  then have "\<bar>s\<bar> \<le> 2 ^ 51" by (simp add: abs_le_iff)
  then obtain p e where p: "rnd (s - 1000) = Fin p" "s - 1001 \<le> p" "p \<le> s - 999"
    and e: "rnd (s + 1000) = Fin e" "s + 999 \<le> e" "e \<le> s + 1001"
    using shifted [of s "- 1000"] shifted [of s 1000] by auto
  then have "\<bar>p\<bar> \<le> 2 ^ 51" "\<bar>e\<bar> \<le> 2 ^ 51 - 20" "e - p \<le> 9 * of_nat 223"
    using b by (simp_all add: abs_le_iff)
  from price_grid_bounded [OF this] obtain ps where ps: "price_grid (Fin p) (Fin e) = Some ps" "length ps \<le> 224"
      "sorted_wrt (<) ps" "\<forall>x \<in> set ps. Fin p \<le> x \<and> x \<le> Fin e" by auto
  have ends: "Fin s - N 1000 = Fin p" "Fin s + N 1000 = Fin e" using p(1) e(1) by (simp_all add: minus_jsnum_def)
  have "classic_points (Fin s) lotSize legs = Some (map (\<lambda>price. (price, classic_payoff lotSize legs price)) ps)"
    using False by (simp only: classic_points_def ends ps(1) option.map if_False)
  then show ?thesis unfolding ends using ps(2-4) by (simp add: sorted_wrt_map comp_def)
qed (simp add: classic_points_def)

text \<open>The loop over the prices of the payoff ends, with at most 224 strictly rising prices between a thousand below
  and a thousand above the spot, whenever the spot is within \<open>2^50\<close>.\<close>

theorem price_loop_ends:
  assumes "\<bar>s\<bar> \<le> 2 ^ 50"
  shows "\<exists>points. classic_points (Fin s) lotSize legs = Some points \<and> length points \<le> 224
       \<and> sorted_wrt (<) (map fst points)
       \<and> (\<forall>x \<in> set (map fst points). Fin s - N 1000 \<le> x \<and> x \<le> Fin s + N 1000)"
  using assms by (rule price_loop_ends_helper)

theorem price_loop_ends_witness:
  "\<exists>points. classic_points (Fin 24500) (Fin 50) [sample_option ''BUY''] = Some points \<and> length points \<le> 224"
  using price_loop_ends [of 24500 "Fin 50" "[sample_option ''BUY'']"] by auto

text \<open>Where adding ten changes nothing the loop never ends.\<close>

lemma price_loop_hangs:
  assumes "price + N 10 = price" and "price \<le> e"
  shows "price_grid price e = None"
proof -
  have "p = price \<and> e' = e \<longrightarrow> False" if "price_grid p e' = Some ps" for p e' ps
  proof (rule price_grid.raw_induct [OF _ that, of "\<lambda>p e' ps. p = price \<and> e' = e \<longrightarrow> False"])
    fix rec :: "jsnum \<Rightarrow> jsnum \<Rightarrow> jsnum list option" and p e' y
    assume "\<And>p e' y. rec p e' = Some y \<Longrightarrow> p = price \<and> e' = e \<longrightarrow> False"
      and "(if p \<le> e' then Option.bind (rec (p + N 10) e') (\<lambda>ps. Some (p # ps)) else Some []) = Some y"
    then show "p = price \<and> e' = e \<longrightarrow> False"
      using assms by (fastforce simp: bind_eq_Some_conv simp del: rnd_numeral split: if_splits)
  qed
  then show ?thesis by (cases "price_grid price e") auto
qed

section \<open>Break-even points\<close>

lemma breakevens_subset: "set (breakevens ps) \<subseteq> set (map fst ps)"
  by (induction ps rule: breakevens.induct) auto

lemma breakevens_parity:
  assumes "\<forall>x \<in> set (map snd ps). x \<noteq> NaN" and "ps \<noteq> []"
  shows "odd (length (breakevens ps)) \<longleftrightarrow> (snd (hd ps) < Fin 0) \<noteq> (snd (last ps) < Fin 0)"
  using assms
proof (induction ps rule: breakevens.induct)
  case (1 a b ps)
  have "crosses (snd a) (snd b) \<longleftrightarrow> (snd a < Fin 0) \<noteq> (snd b < Fin 0)"
    using 1(2) num_linear [of "snd a" "Fin 0"] num_linear [of "snd b" "Fin 0"] by (auto simp: crosses_def)
  then show ?case using 1 by auto
qed auto

text \<open>C31: The break-even points of the classic builder, where the payoffs are numbers: prices of the grid, and an odd number of them exactly when the
  strategy loses at one end of the grid and does not lose at the other; in particular at least one then.\<close>

theorem breakevens_found:
  assumes "classic_points spotPrice lotSize legs = Some points" and "legs \<noteq> []" and "points \<noteq> []"
    and "NaN \<notin> set (map snd points)"
  shows "set (breakevens points) \<subseteq> set (map fst points)
       \<and> (odd (length (breakevens points)) \<longleftrightarrow>
            (classic_payoff lotSize legs (fst (hd points)) < Fin 0) \<noteq> (classic_payoff lotSize legs (fst (last points)) < Fin 0))"
proof -
  obtain grid where g: "points = map (\<lambda>price. (price, classic_payoff lotSize legs price)) grid"
    using assms(1,2) by (auto simp: classic_points_def)
  then have "snd (hd points) = classic_payoff lotSize legs (fst (hd points))"
    "snd (last points) = classic_payoff lotSize legs (fst (last points))"
    using assms(3) by (simp_all add: hd_map last_map)
  moreover have "\<forall>x \<in> set (map snd points). x \<noteq> NaN" using assms(4) by blast
  ultimately show ?thesis using breakevens_subset breakevens_parity [OF _ assms(3)] by simp
qed

lemma sample_payoff_defined: "classic_payoff (Fin 50) [sample_option ''BUY''] (Fin x) \<noteq> NaN"
proof -
  have keep: "v - Fin c \<noteq> NaN" "d \<noteq> 0 \<Longrightarrow> v * Fin d \<noteq> NaN" "Fin c + v \<noteq> NaN" if "v \<noteq> NaN" for v c d
    using that by (cases v; simp add: minus_jsnum_def)+
  have "jmax (Fin 0) (Fin x - Fin 100) \<noteq> NaN" using keep(1) [of "Fin x" 100] by (simp add: jmax_def)
  then show ?thesis
    by (simp add: classic_payoff_def signed_total_def leg_intrinsic_def sample_option_def is_call_def is_buy_def fld_def keep)
qed

theorem breakevens_found_witness:
  "\<exists>points. classic_points (Fin 24500) (Fin 50) [sample_option ''BUY''] = Some points \<and> points \<noteq> []
     \<and> set (breakevens points) \<subseteq> set (map fst points)"
proof -
  let ?legs = "[sample_option ''BUY'']"
  have "\<exists>points. classic_points (Fin 24500) (Fin 50) ?legs = Some points
      \<and> (\<forall>x \<in> set (map fst points). Fin 23500 \<le> x \<and> x \<le> Fin 25500)"
    using price_loop_ends_helper [of 24500 "Fin 50" ?legs] by (auto simp: minus_jsnum_def)
  then obtain points where p: "classic_points (Fin 24500) (Fin 50) ?legs = Some points"
    and range: "\<forall>x \<in> set (map fst points). Fin 23500 \<le> x \<and> x \<le> Fin 25500" by blast
  have "Option.bind r (\<lambda>ps. Some (x # ps)) \<noteq> Some []" for r and x :: jsnum by (cases r) simp_all
  then have "price_grid (Fin 23500) (Fin 25500) \<noteq> Some []"
    unfolding price_grid.simps [of "Fin 23500"] by simp
  then have ne: "points \<noteq> []" using p by (auto simp: classic_points_def minus_jsnum_def)
  have "snd q \<noteq> NaN" if "q \<in> set points" for q
  proof -
    have "snd q = classic_payoff (Fin 50) ?legs (fst q)" using p that by (auto simp: classic_points_def)
    moreover have "\<exists>x. fst q = Fin x" using range that by (cases "fst q") fastforce+
    ultimately show ?thesis using sample_payoff_defined by auto
  qed
  then have "NaN \<notin> set (map snd points)" by fastforce
  then show ?thesis using breakevens_found [OF p _ ne] p ne by auto
qed

section \<open>Presets\<close>

text \<open>The events of the professional builder.\<close>

datatype pro_event = ProAdd jsnum jsval jsval jsval | ProRemove jsval | ProUpdate jsval "(string \<times> jsval) list"
  | ProDuplicate jsnum jsval | ProClear | ProPreset "jsval list" | ProPresetTimer | ProEffect jsnum | ProTimer
  | ProMetrics "jsval result" | ProSlices "jsval result" | ProMenu | ProSave "leg_edit option"

fun pro_step :: "pro_event \<Rightarrow> pro_builder \<Rightarrow> pro_builder" where
  "pro_step (ProAdd i e l d) s = pro_addLeg i e l d s"
| "pro_step (ProRemove i) s = pro_removeLeg i s"
| "pro_step (ProUpdate i u) s = updateLeg i u s"
| "pro_step (ProDuplicate i l) s = duplicateLeg i l s"
| "pro_step ProClear s = fst (pro_clearAll s)"
| "pro_step (ProPreset ls) s = fst (pro_applyPreset ls s)"
| "pro_step ProPresetTimer s = pro_preset_timer s"
| "pro_step (ProEffect p) s = pro_effect p s"
| "pro_step ProTimer s = pro_timer s"
| "pro_step (ProMetrics r) s = metrics_answer r s"
| "pro_step (ProSlices r) s = slices_answer r s"
| "pro_step ProMenu s = s\<lparr>pb_presetOpen := \<not> pb_presetOpen s\<rparr>"
| "pro_step (ProSave e) s = saveEditing e s"

lemma no_preset_timer: "pb_presetTimers s = [] \<Longrightarrow> pb_presetTimers (pro_step ev s) = []"
  by (cases ev) (auto simp: pro_addLeg_def pro_removeLeg_def updateLeg_def duplicateLeg_def pro_clearAll_def pro_applyPreset_def
      pro_preset_timer_def pro_effect_def pro_timer_def metrics_answer_def slices_answer_def saveEditing_def Let_def
      split: option.split list.split)

text \<open>Presets: in the classic builder the legs of a chosen preset are there after its timer, and the menu is closed.
  In the professional builder, after any history, choosing a preset throws, removes all legs, starts no timer and
  leaves the menu as it is; the timer, should it run, changes nothing.\<close>

theorem presets_only_in_classic:
  assumes "bd_presetTimers b = []" and "s = fold pro_step events pro_initial"
  shows "bd_legs (preset_timer (applyPreset ls b)) = ls \<and> \<not> bd_presetOpen (preset_timer (applyPreset ls b))
       \<and> (\<exists>s'. pro_applyPreset ls s = (s', Some (ReferenceError ''setScenarioMatrix'')) \<and> pb_legs s' = []
            \<and> pb_presetOpen s' = pb_presetOpen s \<and> pb_presetTimers s' = [] \<and> pro_preset_timer s' = s')"
proof -
  have "pb_presetTimers (fold pro_step events t) = []" if "pb_presetTimers t = []" for t
    using that by (induction events arbitrary: t) (simp_all add: no_preset_timer)
  then have "pb_presetTimers s = []" by (simp add: assms(2) pro_initial_def)
  then show ?thesis
    using assms(1) by (simp add: applyPreset_def clearAll_def preset_timer_def pro_applyPreset_def pro_clearAll_def
        pro_preset_timer_def Let_def)
qed

theorem presets_only_in_classic_witness:
  "bd_legs (preset_timer (applyPreset [sample_option ''BUY''] builder_initial)) = [sample_option ''BUY'']"
  using presets_only_in_classic [of builder_initial _ "[ProMenu]" "[sample_option ''BUY'']", OF _ refl]
  by (simp add: builder_initial_def)

section \<open>Stale answers, days to expiry, edited prices\<close>

text \<open>Two simulations in flight: the answer to the older one, arriving last, is what the builder shows for the
  newer legs.\<close>

lemma late_simulation_is_shown:
  assumes "bd_timer s = Some (old, params, p)" and "s1 = simulation_timer date s"
    and "s2 = simulation_timer date (simulation_effect p (s1\<lparr>bd_legs := new\<rparr>))" and "new \<noteq> []"
    and "truthy (opt r1 ''success'')" and "truthy (opt r2 ''success'')"
  shows "bd_simulation (simulation_answer q1 (Inr r1) (simulation_answer q2 (Inr r2) s2)) = r1
       \<and> bd_legs (simulation_answer q1 (Inr r1) (simulation_answer q2 (Inr r2) s2)) = new
       \<and> last (bd_sent s2) = simulation_request date new (bd_params s) p"
proof -
  have "\<not> nullish r1" "\<not> nullish r2" using assms(5,6) by (cases r1; cases r2; simp)+
  then show ?thesis
    using assms by (simp add: simulation_timer_def simulation_effect_def simulation_answer_def get_def Let_def)
qed

text \<open>Expiries are Unix times in seconds everywhere else in the program; read as milliseconds they lie in 1970, and
  the days to expiry are always the default, 30.\<close>

lemma seconds_give_default_dte:
  assumes "\<forall>leg \<in> set legs. \<exists>n. parse_int (js_to_string (opt leg ''expiry'')) = Fin (of_int n) \<and> 0 \<le> n \<and> n \<le> 10 ^ 11"
    and "10 ^ 12 \<le> t" and "t \<le> 2 ^ 53"
  shows "maxDTE (Fin (of_int t)) legs = N 30"
proof -
  have zero: "leg_dte (Fin (of_int t)) leg = Fin 0" if leg: "leg \<in> set legs" for leg
  proof -
    obtain n where n: "parse_int (js_to_string (opt leg ''expiry'')) = Fin (of_int n)" "0 \<le> n" "n \<le> 10 ^ 11"
      using assms(1) leg by blast
    have d: "date_time (Fin (of_int n)) = Fin (of_int n)" using n by (simp add: date_time_def trunc_rat_def)
    have "Fin (of_int n) - Fin (of_int t) = rnd (of_int (n - t))" by (simp add: minus_jsnum_def)
    also have "\<dots> = Fin (of_int (n - t))" using n assms(2,3) by (intro rnd_of_int) simp
    finally have "leg_dte (Fin (of_int t)) leg = jmax (Fin 0) (rnd (of_int (n - t) / 86400000))"
      by (simp add: leg_dte_def n(1) d)
    moreover have "rnd (of_int (n - t) / 86400000) \<le> rnd 0"
      using n assms(2) by (intro rnd_mono) (simp add: divide_nonpos_pos)
    ultimately show ?thesis by (auto simp: jmax_def) (cases "rnd (of_int (n - t) / 86400000)"; simp)
  qed
  have "foldl (\<lambda>m leg. jmax m (leg_dte (Fin (of_int t)) leg)) (Fin 0) legs = Fin 0"
    using zero by (induction legs) (simp_all add: jmax_def)
  then show ?thesis by (simp add: maxDTE_def num_or_def)
qed

text \<open>Saving the edit of a leg that has the price 0 and no entry price makes its price NaN.\<close>

lemma saving_zero_price:
  assumes "opt leg ''ltp'' = Num (Fin 0)" and "opt leg ''entryPrice'' = Undef"
  shows "(''ltp'', Num NaN) \<in> set (edit_updates (startEditing leg))"
proof -
  have "parse_float ''undefined'' = NaN" by code_simp
  then show ?thesis using assms by (simp add: edit_updates_def startEditing_def js_or_def Let_def)
qed

end
