(* ===== verification/Profile_Overlay.thy ===== *)
theory Profile_Overlay
  imports Js_Mono Quant_Utils Selectors Js_Http
begin

text \<open>
  The profile overlay of the trading chart (src/components/charts/TradingChart.jsx): from the option chain, or
  from the profiles that the backend has computed, the bars drawn beside the candles, the point of control and the
  value area.  Numeric fields of the chain are numbers where they are given; \<open>Math.pow\<close> and the price scale of the
  chart library are parameters.  Characters outside ASCII are written by their UTF-8 bytes.
\<close>

section \<open>Rows\<close>

definition first_num :: "jsval list \<Rightarrow> jsnum" where
  "first_num vs = to_number (foldr js_or vs (Num (Fin 0)))"

record chart_row =
  cr_strikeStr :: string
  cr_strike :: jsnum
  cr_ce_oi :: jsnum
  cr_pe_oi :: jsnum
  cr_ce_oi_chng :: jsnum
  cr_pe_oi_chng :: jsnum
  cr_ce_vol :: jsnum
  cr_pe_vol :: jsnum
  cr_ce_delta :: jsnum
  cr_pe_delta :: jsnum
  cr_ce_gamma :: jsnum
  cr_pe_gamma :: jsnum
  cr_ce_theta :: jsnum
  cr_pe_theta :: jsnum
  cr_ce_vega :: jsnum
  cr_pe_vega :: jsnum
  cr_ce_iv :: jsnum
  cr_pe_iv :: jsnum
  cr_ce_ltp :: jsnum
  cr_pe_ltp :: jsnum
  cr_reversal :: jsval
  cr_wkly_reversal :: jsval
  cr_fut_reversal :: jsval

definition side_num :: "jsval \<Rightarrow> string list \<Rightarrow> jsnum" where
  "side_num side ks = first_num (map (opt side) ks)"

definition side_greek :: "jsval \<Rightarrow> string \<Rightarrow> jsnum" where
  "side_greek side k = first_num [opt (opt side ''optgeeks'') k, opt side k]"

definition chart_row_of :: "string \<times> jsval \<Rightarrow> chart_row result" where
  "chart_row_of entry =
     (let s = snd entry
      in res_bind (get s ''ce'') (\<lambda>c. res_bind (get s ''pe'') (\<lambda>p.
         let ce = js_or c (Obj []); pe = js_or p (Obj []); zero = Num (Fin 0)
         in Inr \<lparr>cr_strikeStr = fst entry, cr_strike = parse_float (fst entry),
              cr_ce_oi = side_num ce [''OI'', ''oi''], cr_pe_oi = side_num pe [''OI'', ''oi''],
              cr_ce_oi_chng = side_num ce [''oichng'', ''oi_change''], cr_pe_oi_chng = side_num pe [''oichng'', ''oi_change''],
              cr_ce_vol = side_num ce [''volume'', ''vol''], cr_pe_vol = side_num pe [''volume'', ''vol''],
              cr_ce_delta = side_greek ce ''delta'', cr_pe_delta = side_greek pe ''delta'',
              cr_ce_gamma = side_greek ce ''gamma'', cr_pe_gamma = side_greek pe ''gamma'',
              cr_ce_theta = side_greek ce ''theta'', cr_pe_theta = side_greek pe ''theta'',
              cr_ce_vega = side_greek ce ''vega'', cr_pe_vega = side_greek pe ''vega'',
              cr_ce_iv = side_num ce [''iv'', ''IV'', ''impliedVolatility''],
              cr_pe_iv = side_num pe [''iv'', ''IV'', ''impliedVolatility''],
              cr_ce_ltp = side_num ce [''ltp''], cr_pe_ltp = side_num pe [''ltp''],
              cr_reversal = js_or (opt s ''reversal'') zero, cr_wkly_reversal = js_or (opt s ''wkly_reversal'') zero,
              cr_fut_reversal = js_or (opt s ''fut_reversal'') zero\<rparr>)))"

section \<open>Statistics over the chain\<close>

record chart_stats =
  cs_avgIv :: jsnum
  cs_maxVol :: jsnum
  cs_maxTotalOi :: jsnum
  cs_spotApprox :: "jsnum option"
  cs_spotPrice :: jsnum

definition greatest :: "(chart_row \<Rightarrow> jsnum) \<Rightarrow> chart_row list \<Rightarrow> jsnum" where
  "greatest f rs = foldl (\<lambda>acc r. jmax acc (f r)) (Fin 0) rs"

definition straddle :: "chart_row \<Rightarrow> jsnum" where
  "straddle r = cr_ce_ltp r + cr_pe_ltp r"

text \<open>The strike taken for the money: the first cheaper straddle that costs anything replaces the best so far,
  which is the first row at the start.\<close>

definition cheapest_straddle :: "chart_row list \<Rightarrow> chart_row option" where
  "cheapest_straddle rs =
     (case rs of
        [] \<Rightarrow> None
      | r0 # _ \<Rightarrow> Some (foldl (\<lambda>best r. if straddle r < straddle best \<and> straddle r > Fin 0 then r else best) r0 rs))"

definition spot_approx :: "jsval \<Rightarrow> chart_row list \<Rightarrow> jsnum option" where
  "spot_approx price rs =
     (if truthy price \<or> min_of (map straddle rs) > Fin 0 then map_option cr_strike (cheapest_straddle rs) else None)"

definition chart_stats_of :: "jsval \<Rightarrow> chart_row list \<Rightarrow> chart_stats" where
  "chart_stats_of price rs =
     \<lparr>cs_avgIv = foldl (\<lambda>acc r. acc + (cr_ce_iv r + cr_pe_iv r)) (Fin 0) rs / num_or (jlen rs * N 2) (N 1),
      cs_maxVol = jmax (jmax (greatest cr_ce_vol rs) (greatest cr_pe_vol rs)) (N 1),
      cs_maxTotalOi = num_or (max_of (map (\<lambda>r. cr_ce_oi r + cr_pe_oi r) rs)) (N 1),
      cs_spotApprox = spot_approx price rs, cs_spotPrice = to_number (js_or price (Num (Fin 0)))\<rparr>"

definition dominance_threshold :: "jsnum \<Rightarrow> jsnum" where
  "dominance_threshold avgIv = (if avgIv > N 15 then N (55 / 100) else if avgIv > N 10 then N (60 / 100) else N (65 / 100))"

definition truthy_spot :: "jsnum option \<Rightarrow> jsnum option" where
  "truthy_spot s = (case s of Some x \<Rightarrow> if num_truthy x then Some x else None | None \<Rightarrow> None)"

definition getAtmProximity :: "(jsnum \<Rightarrow> jsnum \<Rightarrow> jsnum) \<Rightarrow> jsnum option \<Rightarrow> jsnum \<Rightarrow> jsnum" where
  "getAtmProximity mpow spotApprox strike =
     (let spot = (case truthy_spot spotApprox of Some x \<Rightarrow> x | None \<Rightarrow> strike); dist = abs (strike - spot)
      in jmax (N (3 / 10)) (mpow (N (85 / 100)) (dist / N 50)))"

section \<open>Dominance\<close>

record smart_bars =
  sb_ceVal :: jsnum
  sb_peVal :: jsnum
  sb_total :: jsnum
  sb_opacity :: jsnum

definition applySmartDominance :: "jsnum \<Rightarrow> jsnum \<Rightarrow> jsnum \<Rightarrow> jsnum \<Rightarrow> smart_bars" where
  "applySmartDominance threshold ceRaw peRaw atmProximity =
     (let absCe = abs ceRaw; absPe = abs peRaw; total = absCe + absPe
      in if num_eq total (Fin 0) then \<lparr>sb_ceVal = Fin 0, sb_peVal = Fin 0, sb_total = Fin 0, sb_opacity = N (1 / 2)\<rparr>
         else
           let isDominant = (jmax absCe absPe / total > threshold);
               boost = (if atmProximity > N (8 / 10) then N (1 / 10) else Fin 0);
               opacity = (if isDominant then N (85 / 100) + boost else N (1 / 2))
           in if isDominant
              then (if absCe > absPe
                    then \<lparr>sb_ceVal = total * atmProximity, sb_peVal = Fin 0, sb_total = total * atmProximity, sb_opacity = opacity\<rparr>
                    else \<lparr>sb_ceVal = Fin 0, sb_peVal = total * atmProximity, sb_total = total * atmProximity, sb_opacity = opacity\<rparr>)
              else \<lparr>sb_ceVal = absCe * atmProximity, sb_peVal = absPe * atmProximity, sb_total = total * atmProximity,
                    sb_opacity = opacity\<rparr>)"

section \<open>The profiles that show one value per strike\<close>

definition MICRO_VOLUME_THRESHOLD :: jsnum where "MICRO_VOLUME_THRESHOLD = N 100"

definition volume_multiplier :: "jsnum \<Rightarrow> jsnum \<Rightarrow> jsnum" where
  "volume_multiplier maxVol vol = (if vol > MICRO_VOLUME_THRESHOLD then N 1 + vol / maxVol else N (1 / 2))"

definition risk_of :: "jsnum \<Rightarrow> jsnum \<Rightarrow> jsnum \<Rightarrow> jsnum \<Rightarrow> jsnum" where
  "risk_of spot oi delta gamma = oi * abs delta + oi * abs gamma * spot * N (1 / 100)"

definition composite_of :: "jsnum \<Rightarrow> jsnum \<Rightarrow> jsnum \<Rightarrow> jsnum \<Rightarrow> jsnum \<Rightarrow> jsnum" where
  "composite_of oi chng vol delta gamma =
     oi * N (30 / 100) + abs chng * N (25 / 100) + vol * N (20 / 100) + abs delta * N 100 * N (15 / 100)
     + gamma * N 10000 * N (10 / 100)"

definition signed_as :: "jsnum \<Rightarrow> jsnum \<Rightarrow> jsnum" where
  "signed_as x v = (if x < Fin 0 then - v else v)"

text \<open>The bars of a row and the single value; nothing where the row is skipped.\<close>

definition profile_bars ::
  "(jsnum \<Rightarrow> jsnum \<Rightarrow> jsnum) \<Rightarrow> chart_stats \<Rightarrow> string \<Rightarrow> chart_row \<Rightarrow> (smart_bars \<times> jsval) option" where
  "profile_bars mpow st activeProfile r =
     (let dom = applySmartDominance (dominance_threshold (cs_avgIv st));
          prox = getAtmProximity mpow (cs_spotApprox st) (cr_strike r); one = N 1;
          safeAvgIv = (if cs_avgIv st > Fin 0 then cs_avgIv st else N 1)
      in if activeProfile = ''oi'' then
           Some (dom (cr_ce_oi r * volume_multiplier (cs_maxVol st) (cr_ce_vol r))
                     (cr_pe_oi r * volume_multiplier (cs_maxVol st) (cr_pe_vol r)) prox, Null)
         else if activeProfile = ''volume'' then
           (if cr_ce_vol r < MICRO_VOLUME_THRESHOLD \<and> cr_pe_vol r < MICRO_VOLUME_THRESHOLD then None
            else Some (dom (cr_ce_vol r * (cr_ce_iv r / safeAvgIv)) (cr_pe_vol r * (cr_pe_iv r / safeAvgIv)) prox, Null))
         else if activeProfile = ''oi_change'' then
           let ce = cr_ce_oi_chng r * (N 1 + cr_ce_vol r / cs_maxVol st); pe = cr_pe_oi_chng r * (N 1 + cr_pe_vol r / cs_maxVol st);
               b = dom (abs ce) (abs pe) one
           in Some (b\<lparr>sb_ceVal := signed_as ce (sb_ceVal b), sb_peVal := signed_as pe (sb_peVal b)\<rparr>, Null)
         else if activeProfile = ''delta'' then Some (dom (cr_ce_delta r) (cr_pe_delta r) one, Null)
         else if activeProfile = ''gamma'' then Some (dom (cr_ce_gamma r) (cr_pe_gamma r) one, Null)
         else if activeProfile = ''gex'' then
           let ce = risk_of (cs_spotPrice st) (cr_ce_oi r) (cr_ce_delta r) (cr_ce_gamma r);
               pe = risk_of (cs_spotPrice st) (cr_pe_oi r) (cr_pe_delta r) (cr_pe_gamma r)
           in Some (dom ce pe one, Num (ce - pe))
         else if activeProfile = ''delta_oi'' then
           Some (dom (cr_ce_oi r * abs (cr_ce_delta r)) (cr_pe_oi r * abs (cr_pe_delta r)) one, Null)
         else if activeProfile = ''iv_skew'' then
           let smartSkew = (cr_ce_iv r - cr_pe_iv r) * ((cr_ce_oi r + cr_pe_oi r) / cs_maxTotalOi st)
           in Some (dom (if smartSkew > Fin 0 then smartSkew else Fin 0) (if smartSkew < Fin 0 then abs smartSkew else Fin 0) one,
                    Num smartSkew)
         else if activeProfile = ''pcr'' then
           let pcr = (if cr_ce_oi r > Fin 0 then cr_pe_oi r / cr_ce_oi r else Fin 0);
               pcrNorm = jmin (jmax pcr (N (3 / 10))) (N 3)
           in Some (dom (if pcrNorm < N 1 then N 1 - pcrNorm else Fin 0) (if pcrNorm > N 1 then pcrNorm - N 1 else Fin 0) one,
                    Num pcr)
         else if activeProfile = ''oi_strength'' then
           let ce = cr_ce_oi r * abs (cr_ce_delta r) + cr_ce_oi_chng r * N 2; pe = cr_pe_oi r * abs (cr_pe_delta r) + cr_pe_oi_chng r * N 2
           in Some (dom (jmax (Fin 0) ce) (jmax (Fin 0) pe) one, Null)
         else if activeProfile = ''composite'' then
           Some (dom (composite_of (cr_ce_oi r) (cr_ce_oi_chng r) (cr_ce_vol r) (cr_ce_delta r) (cr_ce_gamma r))
                     (composite_of (cr_pe_oi r) (cr_pe_oi_chng r) (cr_pe_vol r) (cr_pe_delta r) (cr_pe_gamma r)) one, Null)
         else if activeProfile = ''vega'' then
           Some (dom (cr_ce_oi r * abs (cr_ce_vega r)) (cr_pe_oi r * abs (cr_pe_vega r)) one, Null)
         else if activeProfile = ''theta'' then
           Some (dom (abs (cr_ce_theta r * cr_ce_oi r)) (abs (cr_pe_theta r * cr_pe_oi r)) one, Null)
         else None)"

section \<open>Points\<close>

text \<open>A point of the overlay; a field that the program leaves out is \<open>undefined\<close>.\<close>

record chart_point =
  cp_strike :: jsval
  cp_total :: jsnum
  cp_ceVal :: jsnum
  cp_peVal :: jsnum
  cp_singleVal :: jsval
  cp_opacity :: jsval
  cp_isCluster :: jsval
  cp_clusterCount :: jsval
  cp_confidenceTier :: jsval
  cp_isDominant :: jsval
  cp_color :: jsval

definition plain_point :: "jsval \<Rightarrow> jsnum \<Rightarrow> jsnum \<Rightarrow> jsnum \<Rightarrow> jsval \<Rightarrow> jsval \<Rightarrow> chart_point" where
  "plain_point strike tot ceVal peVal singleVal opacity =
     \<lparr>cp_strike = strike, cp_total = tot, cp_ceVal = ceVal, cp_peVal = peVal, cp_singleVal = singleVal, cp_opacity = opacity,
      cp_isCluster = Undef, cp_clusterCount = Undef, cp_confidenceTier = Undef, cp_isDominant = Undef, cp_color = Undef\<rparr>"

text \<open>What the pass over the rows accumulates.\<close>

record profile_pass =
  pp_points :: "chart_point list"
  pp_totalSum :: jsnum
  pp_maxVal :: jsnum
  pp_pocStrike :: jsval
  pp_maxTotalVal :: jsnum

definition pass_initial :: profile_pass where
  "pass_initial = \<lparr>pp_points = [], pp_totalSum = Fin 0, pp_maxVal = Fin 0, pp_pocStrike = Null, pp_maxTotalVal = Fin 0\<rparr>"

definition row_pass ::
  "(jsnum \<Rightarrow> jsnum \<Rightarrow> jsnum) \<Rightarrow> chart_stats \<Rightarrow> string \<Rightarrow> profile_pass \<Rightarrow> chart_row \<Rightarrow> profile_pass" where
  "row_pass mpow st activeProfile acc r =
     (case profile_bars mpow st activeProfile r of
        None \<Rightarrow> acc
      | Some (b, singleVal) \<Rightarrow>
          acc\<lparr>pp_maxVal := jmax (pp_maxVal acc) (jmax (abs (sb_ceVal b)) (abs (sb_peVal b))),
              pp_totalSum := pp_totalSum acc + sb_total b,
              pp_pocStrike := (if sb_total b > pp_maxTotalVal acc then Str (cr_strikeStr r) else pp_pocStrike acc),
              pp_maxTotalVal := (if sb_total b > pp_maxTotalVal acc then sb_total b else pp_maxTotalVal acc),
              pp_points := pp_points acc @
                [plain_point (Str (cr_strikeStr r)) (sb_total b) (sb_ceVal b) (sb_peVal b) singleVal (Num (sb_opacity b))]\<rparr>)"

definition rows_pass :: "(jsnum \<Rightarrow> jsnum \<Rightarrow> jsnum) \<Rightarrow> chart_stats \<Rightarrow> string \<Rightarrow> chart_row list \<Rightarrow> profile_pass" where
  "rows_pass mpow st activeProfile rows = foldl (row_pass mpow st activeProfile) pass_initial rows"

section \<open>Reversal levels\<close>

record raw_level =
  rl_strike :: jsnum
  rl_total :: jsnum
  rl_ceVal :: jsnum
  rl_peVal :: jsnum
  rl_rawCe :: jsnum
  rl_rawPe :: jsnum
  rl_isResistance :: bool
  rl_reversalType :: string

definition gamma_mult :: "jsnum \<Rightarrow> jsnum" where
  "gamma_mult gamma = N 1 + abs (num_or gamma (Fin 0)) * N 50"

definition iv_mult :: "jsnum \<Rightarrow> jsnum" where
  "iv_mult iv = N 1 + num_or iv (Fin 0) / N 100"

definition reversal_strength :: "jsnum \<Rightarrow> jsnum \<Rightarrow> jsnum \<Rightarrow> jsnum \<Rightarrow> jsnum" where
  "reversal_strength oi vol gamma iv = (oi * N (7 / 10) + vol * N (3 / 10)) * gamma_mult gamma * iv_mult iv"

definition row_levels :: "jsnum option \<Rightarrow> chart_row \<Rightarrow> raw_level list" where
  "row_levels spotApprox r =
     (let ceStrength = reversal_strength (cr_ce_oi r) (cr_ce_vol r) (cr_ce_gamma r) (cr_ce_iv r);
          peStrength = reversal_strength (cr_pe_oi r) (cr_pe_vol r) (cr_pe_gamma r) (cr_pe_iv r);
          levels = filter (\<lambda>l. num_truthy (fst l) \<and> fst l > Fin 0)
                     [(parse_float (js_to_string (cr_reversal r)), ''Intraday''),
                      (parse_float (js_to_string (cr_wkly_reversal r)), ''Weekly''),
                      (parse_float (js_to_string (cr_fut_reversal r)), ''Future'')]
      in map (\<lambda>l.
           let isResistance = (case truthy_spot spotApprox of Some x \<Rightarrow> fst l > x | None \<Rightarrow> fst l > cr_strike r);
               strength = (if isResistance then ceStrength else peStrength)
           in \<lparr>rl_strike = fst l, rl_total = strength, rl_ceVal = (if isResistance then strength else Fin 0),
               rl_peVal = (if isResistance then Fin 0 else strength), rl_rawCe = ceStrength, rl_rawPe = peStrength,
               rl_isResistance = isResistance, rl_reversalType = snd l\<rparr>) levels)"

section \<open>Clusters of levels\<close>

record level_cluster =
  lc_totalStrength :: jsnum
  lc_ceSum :: jsnum
  lc_peSum :: jsnum
  lc_weightedSum :: jsnum
  lc_points :: "raw_level list"

definition level_ce :: "raw_level \<Rightarrow> jsnum" where "level_ce p = num_or (rl_rawCe p) (rl_ceVal p)"

definition level_pe :: "raw_level \<Rightarrow> jsnum" where "level_pe p = num_or (rl_rawPe p) (rl_peVal p)"

definition new_cluster :: "raw_level \<Rightarrow> level_cluster" where
  "new_cluster p =
     \<lparr>lc_totalStrength = rl_total p, lc_ceSum = level_ce p, lc_peSum = level_pe p,
      lc_weightedSum = rl_strike p * rl_total p, lc_points = [p]\<rparr>"

definition merge_level :: "level_cluster \<Rightarrow> raw_level \<Rightarrow> level_cluster" where
  "merge_level c p =
     \<lparr>lc_totalStrength = lc_totalStrength c + rl_total p, lc_ceSum = lc_ceSum c + level_ce p,
      lc_peSum = lc_peSum c + level_pe p, lc_weightedSum = lc_weightedSum c + rl_strike p * rl_total p,
      lc_points = lc_points c @ [p]\<rparr>"

definition cluster_center :: "level_cluster \<Rightarrow> jsnum" where
  "cluster_center c = lc_weightedSum c / lc_totalStrength c"

text \<open>The loop over the sorted levels, with the clusters finished so far and the current one.\<close>

fun cluster_levels :: "jsnum \<Rightarrow> level_cluster option \<Rightarrow> raw_level list \<Rightarrow> level_cluster list" where
  "cluster_levels threshold None [] = []"
| "cluster_levels threshold (Some c) [] = [c]"
| "cluster_levels threshold None (p # ps) = cluster_levels threshold (Some (new_cluster p)) ps"
| "cluster_levels threshold (Some c) (p # ps) =
     (if abs (rl_strike p - cluster_center c) < threshold then cluster_levels threshold (Some (merge_level c p)) ps
      else c # cluster_levels threshold (Some (new_cluster p)) ps)"

definition sort_levels :: "raw_level list \<Rightarrow> raw_level list" where
  "sort_levels ps = js_sort (\<lambda>a b. rl_strike a - rl_strike b) ps"

definition cluster_threshold :: "jsnum option \<Rightarrow> raw_level list \<Rightarrow> jsnum" where
  "cluster_threshold spotApprox sorted_levels =
     (case truthy_spot spotApprox of Some x \<Rightarrow> x | None \<Rightarrow> (case sorted_levels of [] \<Rightarrow> NaN | p # _ \<Rightarrow> rl_strike p)) * N (5 / 10000)"

definition level_clusters :: "jsnum option \<Rightarrow> raw_level list \<Rightarrow> level_cluster list" where
  "level_clusters spotApprox ps =
     (let sorted_levels = sort_levels ps in cluster_levels (cluster_threshold spotApprox sorted_levels) None sorted_levels)"

section \<open>From clusters to points\<close>

definition dominance_ratio :: "level_cluster \<Rightarrow> jsnum" where
  "dominance_ratio c = jmax (lc_ceSum c) (lc_peSum c) / lc_totalStrength c"

definition cluster_dominant :: "level_cluster \<Rightarrow> bool" where
  "cluster_dominant c \<longleftrightarrow> dominance_ratio c > N (60 / 100)"

definition strengths_mean :: "level_cluster list \<Rightarrow> jsnum" where
  "strengths_mean cs = jsum (map lc_totalStrength cs) / jlen cs"

definition strengths_max :: "level_cluster list \<Rightarrow> jsnum" where
  "strengths_max cs = max_of (map lc_totalStrength cs)"

definition noise_threshold :: "bool \<Rightarrow> jsval \<Rightarrow> level_cluster list \<Rightarrow> jsnum" where
  "noise_threshold isAutoPilot meta cs =
     (if isAutoPilot \<and> truthy (opt meta ''recommended_threshold'') then to_number (opt meta ''recommended_threshold'')
      else jmax (strengths_max cs * N (5 / 100)) (strengths_mean cs * N (1 / 2)))"

definition tier_one :: "(jsnum \<Rightarrow> jsnum \<Rightarrow> jsnum) \<Rightarrow> bool \<Rightarrow> jsval \<Rightarrow> level_cluster list \<Rightarrow> level_cluster \<Rightarrow> bool" where
  "tier_one mpow isAutoPilot meta cs c \<longleftrightarrow>
     cluster_dominant c \<and>
     (if isAutoPilot \<and> truthy (opt meta ''std_dev'')
      then lc_totalStrength c > to_number (opt meta ''noise_floor'') + N 2 * to_number (opt meta ''std_dev'')
      else lc_totalStrength c > strengths_mean cs
             + N (3 / 2) * jsqrt (squares mpow (strengths_mean cs) (map lc_totalStrength cs) / jlen cs)
         \<or> lc_totalStrength c > strengths_max cs * N (8 / 10))"

definition cluster_point :: "bool \<Rightarrow> level_cluster \<Rightarrow> chart_point" where
  "cluster_point isTier1 c =
     (let isResistance = (lc_peSum c \<le> lc_ceSum c); isDominant = cluster_dominant c; strength = lc_totalStrength c
      in \<lparr>cp_strike = Num (cluster_center c), cp_total = strength,
          cp_ceVal = (if isDominant then (if isResistance then strength else Fin 0) else lc_ceSum c),
          cp_peVal = (if isDominant then (if isResistance then Fin 0 else strength) else lc_peSum c),
          cp_singleVal = Num strength,
          cp_opacity = Num (if isTier1 then N 1 else if isDominant then N (65 / 100) else N (40 / 100)),
          cp_isCluster = Bool True, cp_clusterCount = Num (jlen (lc_points c)),
          cp_confidenceTier = Num (if isTier1 then N 1 else N 2), cp_isDominant = Bool isDominant, cp_color = Undef\<rparr>)"

definition reversal_points ::
  "(jsnum \<Rightarrow> jsnum \<Rightarrow> jsnum) \<Rightarrow> bool \<Rightarrow> jsval \<Rightarrow> jsnum option \<Rightarrow> raw_level list \<Rightarrow> chart_point list" where
  "reversal_points mpow isAutoPilot meta spotApprox ps =
     (let cs = level_clusters spotApprox ps;
          relevant = filter (\<lambda>c. lc_totalStrength c > noise_threshold isAutoPilot meta cs) cs
      in map (\<lambda>c. cluster_point (tier_one mpow isAutoPilot meta cs c) c) relevant)"

definition strongest_point :: "chart_point list \<Rightarrow> chart_point option" where
  "strongest_point ps =
     (case ps of [] \<Rightarrow> None | p0 # _ \<Rightarrow> Some (foldl (\<lambda>best d. if cp_total d > cp_total best then d else best) p0 ps))"

definition reversal_pass ::
  "(jsnum \<Rightarrow> jsnum \<Rightarrow> jsnum) \<Rightarrow> bool \<Rightarrow> jsval \<Rightarrow> chart_stats \<Rightarrow> chart_row list \<Rightarrow> profile_pass" where
  "reversal_pass mpow isAutoPilot meta st rows =
     (let ps = reversal_points mpow isAutoPilot meta (cs_spotApprox st) (concat (map (row_levels (cs_spotApprox st)) rows))
      in case strongest_point ps of
           None \<Rightarrow> pass_initial
         | Some poc \<Rightarrow>
             \<lparr>pp_points = ps, pp_totalSum = jsum (map cp_total ps), pp_maxVal = max_of (map cp_total ps),
              pp_pocStrike = Str (js_to_string (cp_strike poc)), pp_maxTotalVal = cp_total poc\<rparr>)"

section \<open>The value area\<close>

definition by_total :: "chart_point list \<Rightarrow> chart_point list" where
  "by_total ps = js_sort (\<lambda>a b. cp_total b - cp_total a) ps"

text \<open>Strikes are taken from the largest total on until the running sum reaches the threshold.\<close>

fun value_area :: "jsnum \<Rightarrow> jsnum \<Rightarrow> chart_point list \<Rightarrow> jsval list" where
  "value_area vaThreshold currentSum [] = []"
| "value_area vaThreshold currentSum (p # ps) =
     (let s = currentSum + cp_total p
      in cp_strike p # (if s \<ge> vaThreshold then [] else value_area vaThreshold s ps))"

definition va_strikes :: "jsnum \<Rightarrow> chart_point list \<Rightarrow> jsval list" where
  "va_strikes totalSum ps = value_area (totalSum * N (70 / 100)) (Fin 0) (by_total ps)"

section \<open>The data of the overlay\<close>

record profile_data =
  pd_dataPoints :: "chart_point list"
  pd_maxVal :: jsnum
  pd_pocStrike :: jsval
  pd_vaStrikes :: "jsval list"
  pd_meta :: jsval

definition delta_sign :: string where "delta_sign = [CHR 0xCE, CHR 0x94]"
definition gamma_sign :: string where "gamma_sign = [CHR 0xCE, CHR 0x93]"
definition theta_sign :: string where "theta_sign = [CHR 0xCE, CHR 0x98]"
definition times_sign :: string where "times_sign = [CHR 0xC3, CHR 0x97]"
definition up_arrow :: string where "up_arrow = [CHR 0xE2, CHR 0x86, CHR 0x91]"

definition labels :: "string \<Rightarrow> string \<Rightarrow> string \<Rightarrow> string list \<Rightarrow> jsval" where
  "labels title ce pe flags =
     Obj ([(''name'', Str title), (''ceLabel'', Str ce), (''peLabel'', Str pe)] @ map (\<lambda>f. (f, Bool True)) flags)"

definition profileMeta :: jsval where
  "profileMeta = Obj
     [(''oi'', labels ''Smart OI (Liquidity)'' ''CE Liq'' ''PE Liq'' []),
      (''volume'', labels ''Smart Volume (Conviction)'' ''CE Conv'' ''PE Conv'' []),
      (''oi_change'', labels ''Smart Flow (Vol. Wgt)'' ''CE Flow'' ''PE Flow'' [''showSign'']),
      (''delta'', labels ''Delta'' (''CE '' @ delta_sign) (''PE '' @ delta_sign) []),
      (''gamma'', labels ''Gamma'' (''CE '' @ gamma_sign) (''PE '' @ gamma_sign) []),
      (''gex'', labels ''Smart Exposure (Risk)'' ''CE Risk'' ''PE Risk'' [''showNet'']),
      (''delta_oi'', labels ''Delta-Weighted OI'' (''CE '' @ delta_sign @ times_sign @ ''OI'') (''PE '' @ delta_sign @ times_sign @ ''OI'') []),
      (''iv_skew'', labels ''Smart Skew (OI Wgt)'' (''CE IV'' @ up_arrow) (''PE IV'' @ up_arrow) [''showNet'']),
      (''pcr'', labels ''PCR Sentiment'' ''Bearish'' ''Bullish'' [''showRatio'']),
      (''oi_strength'', labels ''OI Strength'' ''CE Str'' ''PE Str'' []),
      (''composite'', labels ''Composite'' ''CE Score'' ''PE Score'' []),
      (''reversal'', labels ''Reversal Zones'' ''Resist. Str'' ''Support Str'' []),
      (''vega'', labels ''Vega Exposure'' ''CE Vega'' ''PE Vega'' []),
      (''theta'', labels ''Theta Decay'' (''CE '' @ theta_sign) (''PE '' @ theta_sign) [])]"

definition fallback_data ::
  "(jsnum \<Rightarrow> jsnum \<Rightarrow> jsnum) \<Rightarrow> bool \<Rightarrow> jsval \<Rightarrow> jsval \<Rightarrow> string \<Rightarrow> chart_row list \<Rightarrow> profile_data option" where
  "fallback_data mpow isAutoPilot meta price activeProfile rows =
     (let st = chart_stats_of price rows;
          pass = (if activeProfile = ''reversal'' then reversal_pass mpow isAutoPilot meta st rows
                  else rows_pass mpow st activeProfile rows)
      in if num_eq (pp_maxVal pass) (Fin 0) then None
         else Some \<lparr>pd_dataPoints = pp_points pass, pd_maxVal = pp_maxVal pass, pd_pocStrike = pp_pocStrike pass,
                    pd_vaStrikes = va_strikes (pp_totalSum pass) (pp_points pass), pd_meta = opt profileMeta activeProfile\<rparr>)"

text \<open>The profiles of the backend; \<open>data_points\<close> is an array of objects when it is there.\<close>

definition backend_point :: "jsval \<Rightarrow> chart_point" where
  "backend_point p =
     \<lparr>cp_strike = Str (js_to_string (opt p ''strike'')),
      cp_total = first_num [opt p ''total''], cp_ceVal = first_num [opt p ''ce_val''], cp_peVal = first_num [opt p ''pe_val''],
      cp_singleVal = js_or (js_or (js_or (opt p ''single_val'') (opt p ''net_risk'')) (opt p ''pcr'')) Null,
      cp_opacity = js_or (opt p ''opacity'') (Num (N (8 / 10))),
      cp_isCluster = js_or (opt p ''is_cluster'') (Bool False), cp_clusterCount = js_or (opt p ''cluster_count'') (Num (N 1)),
      cp_confidenceTier = js_or (opt p ''confidence_tier'') (Num (N 2)),
      cp_isDominant = js_or (opt p ''is_dominant'') (Bool False), cp_color = Undef\<rparr>"

definition backend_data :: "string \<Rightarrow> jsval \<Rightarrow> profile_data" where
  "backend_data activeProfile bp =
     (let points = map backend_point (case js_or (opt bp ''data_points'') (Arr []) of Arr ps \<Rightarrow> ps | _ \<Rightarrow> []);
          totalSum = foldl (\<lambda>acc d. acc + cp_total d) (Fin 0) points
      in \<lparr>pd_dataPoints = points,
          pd_maxVal = to_number (js_or (opt bp ''max_val'') (Num (max_of (map (\<lambda>d. jmax (cp_ceVal d) (cp_peVal d)) points)))),
          pd_pocStrike = (case by_total points of [] \<Rightarrow> Undef | p # _ \<Rightarrow> cp_strike p),
          pd_vaStrikes = va_strikes totalSum points,
          pd_meta = Obj [(''name'', js_or (opt bp ''name'') (Str activeProfile)), (''ceLabel'', js_or (opt bp ''ce_label'') (Str ''CE'')),
                         (''peLabel'', js_or (opt bp ''pe_label'') (Str ''PE'')), (''showSign'', js_or (opt bp ''show_sign'') (Bool False)),
                         (''showNet'', js_or (opt bp ''show_net'') (Bool False)), (''showRatio'', js_or (opt bp ''show_ratio'') (Bool False))]\<rparr>)"

definition profileData ::
  "(jsnum \<Rightarrow> jsnum \<Rightarrow> jsnum) \<Rightarrow> bool \<Rightarrow> jsval \<Rightarrow> jsval \<Rightarrow> string \<Rightarrow> jsval \<Rightarrow> profile_data option result" where
  "profileData mpow isAutoPilot optionsData price activeProfile oc =
     (let bp = opt (opt optionsData ''profiles'') activeProfile
      in if \<not> truthy oc \<or> activeProfile = ''none'' then Inr None
         else if truthy bp then Inr (Some (backend_data activeProfile bp))
         else res_bind (res_map chart_row_of (map (\<lambda>k. (k, opt oc k)) (object_keys oc))) (\<lambda>rows.
                Inr (fallback_data mpow isAutoPilot (opt optionsData ''meta'') price activeProfile rows)))"

section \<open>Drawing\<close>

record bar =
  br_y :: jsnum
  br_ceWidth :: jsnum
  br_peWidth :: jsnum
  br_isVA :: bool
  br_isPOC :: bool
  br_ceUnwinding :: bool
  br_peUnwinding :: bool
  br_customColor :: jsval
  br_opacity :: jsval

definition maxBarWidth :: "jsnum \<Rightarrow> jsnum" where
  "maxBarWidth width = (width - N 65) * N (40 / 100)"

definition bar_of :: "(jsnum \<Rightarrow> jsnum option) \<Rightarrow> jsnum \<Rightarrow> jsnum \<Rightarrow> string \<Rightarrow> profile_data \<Rightarrow> chart_point \<Rightarrow> bar option" where
  "bar_of priceToCoordinate width height activeProfile d p =
     (case priceToCoordinate (parse_float (js_to_string (cp_strike p))) of
        None \<Rightarrow> None
      | Some y \<Rightarrow>
          if y < Fin 0 \<or> y > height then None
          else Some \<lparr>br_y = y,
                     br_ceWidth = abs (cp_ceVal p) / pd_maxVal d * maxBarWidth width,
                     br_peWidth = abs (cp_peVal p) / pd_maxVal d * maxBarWidth width,
                     br_isVA = (cp_strike p \<in> set (pd_vaStrikes d)), br_isPOC = strict_eq (cp_strike p) (pd_pocStrike d),
                     br_ceUnwinding = (activeProfile = ''oi_change'' \<and> cp_ceVal p < Fin 0),
                     br_peUnwinding = (activeProfile = ''oi_change'' \<and> cp_peVal p < Fin 0),
                     br_customColor = cp_color p, br_opacity = cp_opacity p\<rparr>)"

definition bars_of :: "(jsnum \<Rightarrow> jsnum option) \<Rightarrow> jsnum \<Rightarrow> jsnum \<Rightarrow> string \<Rightarrow> profile_data \<Rightarrow> bar list" where
  "bars_of priceToCoordinate width height activeProfile d =
     List.map_filter (bar_of priceToCoordinate width height activeProfile d) (pd_dataPoints d)"

type_synonym rgb = "nat \<times> nat \<times> nat"

definition ceColor :: rgb where "ceColor = (239, 68, 68)"
definition peColor :: rgb where "peColor = (34, 197, 94)"

text \<open>What is painted: a bar filled with a colour of its own, flat, or as a gradient between two opacities, the border
  of an unwinding bar, the line and the label of the point of control.\<close>

datatype paint =
    Fill_Custom jsval jsnum jsnum jsnum
  | Fill_Flat rgb jsnum jsnum jsnum jsnum
  | Fill_Gradient rgb jsnum jsnum jsnum jsnum jsnum
  | Border rgb jsnum jsnum jsnum jsnum
  | Poc_Line jsnum jsnum jsnum
  | Poc_Label jsnum jsnum

definition fill_side :: "rgb \<Rightarrow> bool \<Rightarrow> jsnum \<Rightarrow> jsnum \<Rightarrow> jsnum \<Rightarrow> bar \<Rightarrow> paint list" where
  "fill_side color unwinding startX w y0 b =
     (if w > N (1 / 2) then
        let baseOpacity = (if br_isVA b then N (60 / 100) else N (25 / 100));
            op = to_number (js_or (br_opacity b) (Num baseOpacity)); x = startX - w
        in if truthy (br_customColor b) then [Fill_Custom (br_customColor b) x y0 w]
           else if unwinding then [Fill_Flat color (op * N (4 / 10)) x y0 w]
           else [Fill_Gradient color (op * N (3 / 10)) op x y0 w]
      else [])"

definition fill_bar :: "jsnum \<Rightarrow> bar \<Rightarrow> paint list" where
  "fill_bar startX b =
     fill_side ceColor (br_ceUnwinding b) startX (br_ceWidth b) (br_y b - N 5 - N 1) b
     @ fill_side peColor (br_peUnwinding b) startX (br_peWidth b) (br_y b + N 1) b"

definition border_bar :: "jsnum \<Rightarrow> bar \<Rightarrow> paint list" where
  "border_bar startX b =
     (let lineOpacity = (if br_isVA b then N (8 / 10) else N (4 / 10))
      in (if br_ceUnwinding b \<and> br_ceWidth b > N (1 / 2)
          then [Border ceColor lineOpacity (startX - br_ceWidth b) (br_y b - N 5 - N 1) (br_ceWidth b)] else [])
       @ (if br_peUnwinding b \<and> br_peWidth b > N (1 / 2)
          then [Border peColor lineOpacity (startX - br_peWidth b) (br_y b + N 1) (br_peWidth b)] else []))"

definition poc_bar :: "jsnum \<Rightarrow> bar \<Rightarrow> paint list" where
  "poc_bar startX b =
     (let w = jmax (br_ceWidth b) (br_peWidth b)
      in [Poc_Line (startX - w - N 10) (startX + N 5) (br_y b), Poc_Label (startX - w - N 14) (br_y b + N 3)])"

definition draw_profile :: "(jsnum \<Rightarrow> jsnum option) \<Rightarrow> jsnum \<Rightarrow> jsnum \<Rightarrow> string \<Rightarrow> profile_data \<Rightarrow> paint list" where
  "draw_profile priceToCoordinate width height activeProfile d =
     (let bars = bars_of priceToCoordinate width height activeProfile d; startX = width - N 65
      in concat (map (fill_bar startX) bars) @ concat (map (border_bar startX) bars)
         @ concat (map (poc_bar startX) (filter br_isPOC bars)))"

section \<open>Every point carries its opacity\<close>

definition opaque :: "profile_data \<Rightarrow> bool" where
  "opaque d \<longleftrightarrow> (\<forall>p \<in> set (pd_dataPoints d). truthy (cp_opacity p))"

lemma opacity_numbers:
  "num_truthy (N (1 / 2))" "num_truthy (N (85 / 100) + N (1 / 10))" "num_truthy (N (85 / 100) + Fin 0)"
  "num_truthy (N 1)" "num_truthy (N (65 / 100))" "num_truthy (N (40 / 100))" "num_truthy (N (8 / 10))"
  by code_simp+

lemma smart_opacity [simp]: "num_truthy (sb_opacity (applySmartDominance t a b x))"
  using opacity_numbers by (auto simp only: applySmartDominance_def Let_def smart_bars.simps split: if_split)

lemma cluster_opacity [simp]: "truthy (cp_opacity (cluster_point tier c))"
  using opacity_numbers by (auto simp only: cluster_point_def Let_def chart_point.simps truthy.simps split: if_split)

lemma profile_bars_opacity: "profile_bars mpow st prof r = Some (b, v) \<Longrightarrow> num_truthy (sb_opacity b)"
  by (auto simp: profile_bars_def Let_def split: if_splits)

lemma rows_pass_points:
  assumes "p \<in> set (pp_points (foldl (row_pass mpow st prof) acc rows))"
    and "\<forall>p \<in> set (pp_points acc). P p"
    and "\<And>r b v. profile_bars mpow st prof r = Some (b, v) \<Longrightarrow>
           P (plain_point (Str (cr_strikeStr r)) (sb_total b) (sb_ceVal b) (sb_peVal b) v (Num (sb_opacity b)))"
  shows "P p"
  using assms(1,2)
proof (induction rows arbitrary: acc)
  case (Cons r rows)
  show ?case using Cons.prems
    by (auto intro!: Cons.IH [of "row_pass mpow st prof acc r"] simp: row_pass_def assms(3) split: option.splits prod.splits)
qed simp

lemma rows_pass_opaque: "p \<in> set (pp_points (rows_pass mpow st prof rows)) \<Longrightarrow> truthy (cp_opacity p)"
  unfolding rows_pass_def
  by (erule rows_pass_points) (auto simp: pass_initial_def plain_point_def dest: profile_bars_opacity)

lemma reversal_pass_opaque: "p \<in> set (pp_points (reversal_pass mpow ap meta st rows)) \<Longrightarrow> truthy (cp_opacity p)"
  by (auto simp: reversal_pass_def reversal_points_def Let_def pass_initial_def split: option.splits)

lemma backend_opaque: "opaque (backend_data prof bp)"
  using opacity_numbers(7) by (auto simp only: opaque_def backend_data_def backend_point_def Let_def js_or_def
      profile_data.simps chart_point.simps truthy.simps set_map image_iff split: if_split)

lemma fallback_opaque: "fallback_data mpow ap meta price prof rows = Some d \<Longrightarrow> opaque d"
  by (auto simp: fallback_data_def Let_def opaque_def dest: rows_pass_opaque reversal_pass_opaque split: if_splits)

lemma profileData_opaque: "profileData mpow ap od price prof oc = Inr (Some d) \<Longrightarrow> opaque d"
  by (auto simp: profileData_def Let_def backend_opaque res_bind_def dest: fallback_opaque split: if_splits sum.splits)

text \<open>Painting a list of bars is painting point by point.\<close>

lemma concat_map_filter:
  "concat (map f (List.map_filter g xs)) = concat (map (\<lambda>x. case g x of None \<Rightarrow> [] | Some b \<Rightarrow> f b) xs)"
  by (induction xs) (auto simp: List.map_filter_simps split: option.splits)

lemma concat_filter: "concat (map f (filter P xs)) = concat (map (\<lambda>x. if P x then f x else []) xs)"
  by (induction xs) auto

lemma draw_profile_points:
  "draw_profile ptc width height prof d =
     (let x = width - N 65; side = (\<lambda>f. concat (map (\<lambda>p. case bar_of ptc width height prof d p of None \<Rightarrow> [] | Some b \<Rightarrow> f b)
                                                 (pd_dataPoints d)))
      in side (fill_bar x) @ side (border_bar x) @ side (\<lambda>b. if br_isPOC b then poc_bar x b else []))"
  by (simp add: draw_profile_def bars_of_def Let_def concat_map_filter concat_filter)

lemma bar_of_va:
  "bar_of ptc width height prof (d\<lparr>pd_vaStrikes := V\<rparr>) p =
     map_option (\<lambda>b. b\<lparr>br_isVA := (cp_strike p \<in> set V)\<rparr>) (bar_of ptc width height prof d p)"
  by (simp add: bar_of_def split: option.splits)

lemma fill_bar_va: "truthy (br_opacity b) \<Longrightarrow> fill_bar x (b\<lparr>br_isVA := v\<rparr>) = fill_bar x b"
  by (simp add: fill_bar_def fill_side_def Let_def)

lemma poc_bar_va: "poc_bar x (b\<lparr>br_isVA := v\<rparr>) = poc_bar x b"
  by (simp add: poc_bar_def)

lemma bar_of_fields:
  assumes "bar_of ptc width height prof d p = Some b"
  shows "br_opacity b = cp_opacity p" "br_isPOC b \<longleftrightarrow> strict_eq (cp_strike p) (pd_pocStrike d)"
    "br_ceWidth b = abs (cp_ceVal p) / pd_maxVal d * maxBarWidth width"
    "br_peWidth b = abs (cp_peVal p) / pd_maxVal d * maxBarWidth width"
    "prof \<noteq> ''oi_change'' \<Longrightarrow> \<not> br_ceUnwinding b \<and> \<not> br_peUnwinding b"
  using assms by (auto simp: bar_of_def split: option.splits if_splits)

text \<open>
  The value area is worked out but never seen.  Every point of every profile, of the backend or computed
  here, brings its own opacity, which takes the place of the brighter fill meant for the value area; the border that
  also depends on it exists only in the profile of open-interest changes.  In all other profiles the
  overlay is painted alike whatever the value area is.
\<close>

theorem value_area_never_drawn:
  assumes "profileData mpow isAutoPilot optionsData price activeProfile oc = Inr (Some d)" and "activeProfile \<noteq> ''oi_change''"
  shows "draw_profile priceToCoordinate width height activeProfile (d\<lparr>pd_vaStrikes := V\<rparr>)
       = draw_profile priceToCoordinate width height activeProfile d"
proof -
  have opq: "truthy (cp_opacity p)" if "p \<in> set (pd_dataPoints d)" for p
    using profileData_opaque [OF assms(1)] that by (simp add: opaque_def)
  have same: "(case bar_of ptc width height activeProfile (d\<lparr>pd_vaStrikes := V\<rparr>) p of None \<Rightarrow> [] | Some b \<Rightarrow> f b)
      = (case bar_of ptc width height activeProfile d p of None \<Rightarrow> [] | Some b \<Rightarrow> f b)"
    if "p \<in> set (pd_dataPoints d)" and "\<And>b v. truthy (br_opacity b) \<Longrightarrow> \<not> br_ceUnwinding b \<Longrightarrow> \<not> br_peUnwinding b \<Longrightarrow>
          f (b\<lparr>br_isVA := v\<rparr>) = f b" for p ptc and f :: "bar \<Rightarrow> paint list"
    using that(2) opq [OF that(1)] bar_of_fields [of ptc width height activeProfile d p] assms(2)
    by (auto simp: bar_of_va split: option.splits)
  show ?thesis
    unfolding draw_profile_points Let_def profile_data.simps
    by (intro arg_cong2 [where f = "(@)"] arg_cong [where f = concat] map_cong refl same)
      (auto simp: fill_bar_va poc_bar_va border_bar_def)
qed

section \<open>The point of control\<close>

lemma reversal_strikes: "p \<in> set (reversal_points mpow ap meta spot ps) \<Longrightarrow> \<exists>x. cp_strike p = Num x"
  by (auto simp: reversal_points_def cluster_point_def Let_def)

text \<open>
  C42: In the reversal profile, the one shown first, no bar is ever marked as the point of control: its
  strike is kept as a string and compared with \<open>===\<close> with the strikes of the clusters, which are numbers.
\<close>

theorem reversal_poc_never_marked:
  assumes "fallback_data mpow isAutoPilot meta price ''reversal'' rows = Some d"
    and "b \<in> set (bars_of priceToCoordinate width height ''reversal'' d)"
  shows "\<not> br_isPOC b"
proof -
  obtain p where p: "p \<in> set (pd_dataPoints d)" "bar_of priceToCoordinate width height ''reversal'' d p = Some b"
    using assms(2) by (auto simp: bars_of_def List.map_filter_def)
  have "(\<exists>x. cp_strike p = Num x) \<and> (\<exists>s. pd_pocStrike d = Str s)"
    using assms(1) p(1) reversal_strikes
    by (auto simp: fallback_data_def Let_def reversal_pass_def pass_initial_def split: if_splits option.splits) 
  then show ?thesis using bar_of_fields(2) [OF p(2)] by auto
qed

interpretation by_point_total: descending_by cp_total .

section \<open>What the value area is\<close>

definition running_total :: "chart_point list \<Rightarrow> jsnum" where
  "running_total ps = foldl (\<lambda>s p. s + cp_total p) (Fin 0) ps"

lemma value_area_prefix:
  "\<exists>n \<le> length ps. value_area thr acc ps = map cp_strike (take n ps)
     \<and> (n = length ps \<or> thr \<le> foldl (\<lambda>s p. s + cp_total p) acc (take n ps))
     \<and> (\<forall>k. 0 < k \<and> k < n \<longrightarrow> \<not> thr \<le> foldl (\<lambda>s p. s + cp_total p) acc (take k ps))"
proof (induction ps arbitrary: acc)
  case (Cons p ps)
  show ?case
  proof (cases "thr \<le> acc + cp_total p")
    case True
    then show ?thesis by (intro exI [of _ 1]) auto
  next
    case False
    obtain n where n: "n \<le> length ps" "value_area thr (acc + cp_total p) ps = map cp_strike (take n ps)"
      "n = length ps \<or> thr \<le> foldl (\<lambda>s p. s + cp_total p) (acc + cp_total p) (take n ps)"
      "\<And>k. 0 < k \<Longrightarrow> k < n \<Longrightarrow> \<not> thr \<le> foldl (\<lambda>s p. s + cp_total p) (acc + cp_total p) (take k ps)"
      using Cons.IH [of "acc + cp_total p"] by blast
    have "\<not> thr \<le> foldl (\<lambda>s p. s + cp_total p) acc (take k (p # ps))" if "0 < k" "k < Suc n" for k
      using that n(4) [of "k - 1"] False by (cases k; cases "k - 1") auto
    then show ?thesis using n(1-3) False by (intro exI [of _ "Suc n"]) auto
  qed
qed simp

text \<open>
  C33: The value area of a profile with finite totals is the shortest run of points, taken from the largest total down, whose
  running sum reaches 70% of the total sum (all points, where none does), and no point left out has a larger total
  than one that is in it.
\<close>

theorem value_area_spec:
  assumes "list_all (\<lambda>p. fin_double (cp_total p)) ps"
  shows "\<exists>inside outside. by_total ps = inside @ outside \<and> va_strikes totalSum ps = map cp_strike inside
     \<and> (outside = [] \<or> totalSum * N (70 / 100) \<le> running_total inside)
     \<and> (\<forall>k. 0 < k \<and> k < length inside \<longrightarrow> \<not> totalSum * N (70 / 100) \<le> running_total (take k inside))
     \<and> (\<forall>p \<in> set inside. \<forall>q \<in> set outside. cp_total q \<le> cp_total p)"
proof -
  obtain n where n: "n \<le> length (by_total ps)" "va_strikes totalSum ps = map cp_strike (take n (by_total ps))"
    "n = length (by_total ps) \<or> totalSum * N (70 / 100) \<le> running_total (take n (by_total ps))"
    "\<And>k. 0 < k \<Longrightarrow> k < n \<Longrightarrow> \<not> totalSum * N (70 / 100) \<le> running_total (take k (by_total ps))"
    using value_area_prefix [of "by_total ps" "totalSum * N (70 / 100)" "Fin 0"]
    unfolding va_strikes_def running_total_def by blast
  have "sorted_wrt (\<lambda>a b. cp_total b \<le> cp_total a) (take n (by_total ps) @ drop n (by_total ps))"
    using by_point_total.sorted_keys [of ps] assms by (simp add: by_total_def list_all_iff)
  then have "\<forall>p \<in> set (take n (by_total ps)). \<forall>q \<in> set (drop n (by_total ps)). cp_total q \<le> cp_total p"
    by (subst (asm) sorted_wrt_append) blast
  moreover have "\<forall>k. 0 < k \<and> k < length (take n (by_total ps)) \<longrightarrow>
      \<not> totalSum * N (70 / 100) \<le> running_total (take k (take n (by_total ps)))"
    using n(1,4) by (auto simp: min_def)
  ultimately show ?thesis using n(2,3)
    by (intro exI [of _ "take n (by_total ps)"] exI [of _ "drop n (by_total ps)"]) auto
qed

section \<open>Bars stay within their part of the chart\<close>

lemma share_at_most_one:
  assumes "Fin 0 \<le> x" and "x \<le> m"
  shows "x / m = NaN \<or> (\<exists>t. x / m = Fin t \<and> t \<le> 1)"
proof (cases m)
  case (Fin r)
  then obtain q where q: "x = Fin q" "0 \<le> q" "q \<le> r" using assms by (cases x) auto
  have "rnd (q / r) \<le> Fin 1" using rnd_mono [of "q / r" 1] q by (simp add: divide_le_eq)
  moreover have "Fin 0 \<le> rnd (q / r)" using rnd_mono [of 0 "q / r"] q by simp
  ultimately show ?thesis using Fin q by (cases "rnd (q / r)") auto
qed (use assms in \<open>cases x; simp\<close>)+

lemma share_fits:
  assumes "Fin 0 \<le> x" and "x \<le> m" and "Fin 0 \<le> w" and "\<And>b. w = Fin b \<Longrightarrow> rnd b = Fin b"
  shows "\<not> w < x / m * (w :: jsnum)"
proof -
  have top: "\<not> y < NaN" "\<not> PInf < y" for y by (cases y; simp)+
  consider "x / m = NaN" | t where "x / m = Fin t" "t \<le> 1" using share_at_most_one [OF assms(1,2)] by blast
  then show ?thesis
  proof cases
    case 2
    show ?thesis
    proof (cases w)
      case w: (Fin b)
      then have "0 \<le> b" using assms(3) by simp
      then have "t * b \<le> b" using 2(2) mult_right_mono [of t 1 b] by simp
      then have "rnd (t * b) \<le> Fin b" using rnd_mono assms(4) [OF w] by metis
      then show ?thesis using 2(1) w by (cases "rnd (t * b)") auto
    qed (use assms(3) top in simp_all)
  qed (simp add: top)
qed

text \<open>In the pass over the rows the greatest side value is a bound of both sides of every point.\<close>

definition within_max :: "profile_pass \<Rightarrow> bool" where
  "within_max acc \<longleftrightarrow> pp_maxVal acc = NaN \<or>
     (\<forall>p \<in> set (pp_points acc). abs (cp_ceVal p) \<le> pp_maxVal acc \<and> abs (cp_peVal p) \<le> pp_maxVal acc)"

lemma row_pass_within: "within_max acc \<Longrightarrow> within_max (row_pass mpow st prof acc r)"
proof (cases "profile_bars mpow st prof r")
  case (Some bv)
  obtain b v where bv: "bv = (b, v)" by (cases bv)
  let ?m = "pp_maxVal acc" and ?c = "abs (sb_ceVal b)" and ?p = "abs (sb_peVal b)"
  assume acc: "within_max acc"
  have "jmax ?m (jmax ?c ?p) = NaN \<or> ?m \<le> jmax ?m (jmax ?c ?p) \<and> ?c \<le> jmax ?m (jmax ?c ?p) \<and> ?p \<le> jmax ?m (jmax ?c ?p)
      \<and> ?m \<noteq> NaN"
    using le_jmax [of ?m "jmax ?c ?p"] le_jmax [of ?c ?p] jsnum_le_trans [of _ "jmax ?c ?p" "jmax ?m (jmax ?c ?p)"]
    by (cases "?m = NaN"; cases "jmax ?c ?p = NaN") (auto simp: jmax_def)
  then show ?thesis using acc jsnum_le_trans [of _ ?m "jmax ?m (jmax ?c ?p)"]
    by (auto simp: within_max_def row_pass_def Some bv plain_point_def)
qed (simp add: row_pass_def)

lemma rows_pass_within: "within_max (rows_pass mpow st prof rows)"
proof -
  have "within_max acc \<Longrightarrow> within_max (foldl (row_pass mpow st prof) acc rows)" for acc
    by (induction rows arbitrary: acc) (auto intro: row_pass_within)
  then show ?thesis by (simp add: rows_pass_def within_max_def pass_initial_def)
qed

lemma maxBarWidth_facts:
  assumes "N 65 \<le> width" and "maxBarWidth width \<noteq> NaN"
  shows "Fin 0 \<le> maxBarWidth width" "maxBarWidth width = Fin b \<Longrightarrow> rnd b = Fin b"
proof -
  obtain c where c: "rnd (2 / 5) = Fin c" "0 \<le> c"
    using ranged_rnd [of 0 "2 / 5" 1] by (auto elim!: rangedE)
  have left: "Fin 0 \<le> width - Fin 65" using assms(1) rnd_mono [of 0] by (cases width) (auto simp: minus_jsnum_def)
  then show "Fin 0 \<le> maxBarWidth width"
    using assms(2) c rnd_mono [of 0] by (cases "width - Fin 65") (auto simp: maxBarWidth_def split: if_splits)
  show "maxBarWidth width = Fin b \<Longrightarrow> rnd b = Fin b"
    using rnd_again c by (cases "width - Fin 65") (auto simp: maxBarWidth_def split: if_splits)
qed

lemma bar_width_fits:
  assumes "N 65 \<le> width" and "x \<le> m" and "Fin 0 \<le> x"
  shows "\<not> maxBarWidth width < x / m * maxBarWidth width"
proof (cases "maxBarWidth width = NaN")
  case False
  then show ?thesis using assms maxBarWidth_facts [OF assms(1) False] by (intro share_fits) auto
qed simp

lemma abs_nonneg: "x \<noteq> NaN \<Longrightarrow> Fin 0 \<le> abs (x :: jsnum)"
  by (cases x) auto

text \<open>
  In every computed profile but the one of reversal levels the bars stay within the 40% of the chart set aside for
  them: on a canvas that is wider than the padding no bar is longer than the maximal length.
\<close>

theorem bars_fit:
  assumes "fallback_data mpow isAutoPilot meta price activeProfile rows = Some d" and "activeProfile \<noteq> ''reversal''"
    and "N 65 \<le> width" and "b \<in> set (bars_of priceToCoordinate width height activeProfile d)"
  shows "\<not> maxBarWidth width < br_ceWidth b \<and> \<not> maxBarWidth width < br_peWidth b"
proof -
  obtain p where p: "p \<in> set (pd_dataPoints d)" "bar_of priceToCoordinate width height activeProfile d p = Some b"
    using assms(4) by (auto simp: bars_of_def List.map_filter_def)
  have "pd_maxVal d = NaN \<or> abs (cp_ceVal p) \<le> pd_maxVal d \<and> abs (cp_peVal p) \<le> pd_maxVal d"
    using assms(1,2) p(1) rows_pass_within [of mpow "chart_stats_of price rows" activeProfile rows]
    by (auto simp: fallback_data_def Let_def within_max_def split: if_splits)
  then consider "pd_maxVal d = NaN" | "abs (cp_ceVal p) \<le> pd_maxVal d" "abs (cp_peVal p) \<le> pd_maxVal d" by blast
  then show ?thesis
  proof cases
    case 1
    have "x / NaN = NaN \<and> \<not> y < NaN" for x y :: jsnum by (cases x; cases y) auto
    then show ?thesis using 1 by (simp add: bar_of_fields(3,4) [OF p(2)])
  next
    case 2
    then have "cp_ceVal p \<noteq> NaN" "cp_peVal p \<noteq> NaN" by auto
    then show ?thesis using 2 assms(3) by (simp add: bar_of_fields(3,4) [OF p(2)] bar_width_fits abs_nonneg)
  qed
qed

section \<open>Clusters\<close>

text \<open>A cluster is its first level with the others merged into it one after another.\<close>

definition merged :: "level_cluster \<Rightarrow> bool" where
  "merged c \<longleftrightarrow> lc_points c \<noteq> [] \<and> c = foldl merge_level (new_cluster (hd (lc_points c))) (tl (lc_points c))"

lemma cluster_points [simp]: "lc_points (new_cluster p) = [p]" "lc_points (merge_level c p) = lc_points c @ [p]"
  by (simp_all add: new_cluster_def merge_level_def)

lemma merged_new [simp]: "merged (new_cluster p)"
  by (simp add: merged_def)

lemma merged_merge: "merged c \<Longrightarrow> merged (merge_level c p)"
proof -
  assume c: "merged c"
  then have "lc_points (merge_level c p) \<noteq> [] \<and> hd (lc_points (merge_level c p)) = hd (lc_points c)
      \<and> tl (lc_points (merge_level c p)) = tl (lc_points c) @ [p]" by (simp add: merged_def merge_level_def)
  then show ?thesis using c unfolding merged_def by (simp (no_asm_simp))
qed

definition apart :: "jsnum \<Rightarrow> level_cluster \<Rightarrow> level_cluster \<Rightarrow> bool" where
  "apart threshold c c' \<longleftrightarrow> \<not> abs (rl_strike (hd (lc_points c')) - cluster_center c) < threshold"

definition first_level :: "level_cluster option \<Rightarrow> raw_level list \<Rightarrow> raw_level" where
  "first_level cur ps = (case cur of Some c \<Rightarrow> hd (lc_points c) | None \<Rightarrow> hd ps)"

lemma cluster_levels_spec:
  assumes "pred_option merged cur"
  shows "concat (map lc_points (cluster_levels thr cur ps)) = (case cur of None \<Rightarrow> [] | Some c \<Rightarrow> lc_points c) @ ps
    \<and> list_all merged (cluster_levels thr cur ps) \<and> successively (apart thr) (cluster_levels thr cur ps)
    \<and> (cluster_levels thr cur ps \<noteq> [] \<longrightarrow> hd (lc_points (hd (cluster_levels thr cur ps))) = first_level cur ps)"
  using assms
proof (induction thr cur ps rule: cluster_levels.induct)
  case (3 thr p ps)
  then show ?case by (auto simp: first_level_def)
next
  case (4 thr c p ps)
  show ?case
  proof (cases "\<bar>rl_strike p - cluster_center c\<bar> < thr")
    case True
    then show ?thesis using 4 merged_merge [of c p] by (auto simp: first_level_def merged_def hd_append)
  next
    case False
    let ?cs = "cluster_levels thr (Some (new_cluster p)) ps"
    have IH: "concat (map lc_points ?cs) = p # ps" "list_all merged ?cs" "successively (apart thr) ?cs"
      "?cs \<noteq> [] \<longrightarrow> hd (lc_points (hd ?cs)) = p"
      using 4(2) [OF False] by (auto simp: first_level_def)
    then have "successively (apart thr) (c # ?cs)" using False by (auto simp: successively_Cons apart_def)
    then show ?thesis using False IH 4(3) by (simp add: first_level_def)
  qed
qed (auto simp: first_level_def)

text \<open>
  C34: Clustering loses and repeats no level: the clusters, read one after another, are the sorted levels; each
  cluster is its first level with the others merged into it in order, so its sums are those of its levels; and a cluster
  ends only where the next level is not within the threshold of its weighted centre.
\<close>

theorem clusters_partition:
  "concat (map lc_points (level_clusters spotApprox ps)) = sort_levels ps
   \<and> mset (concat (map lc_points (level_clusters spotApprox ps))) = mset ps
   \<and> list_all merged (level_clusters spotApprox ps)
   \<and> successively (apart (cluster_threshold spotApprox (sort_levels ps))) (level_clusters spotApprox ps)"
  using cluster_levels_spec [of None "cluster_threshold spotApprox (sort_levels ps)" "sort_levels ps"]
  by (simp add: level_clusters_def sort_levels_def Let_def)

lemma row_level_fields:
  assumes "p \<in> set (row_levels spot r)"
  obtains ce pe res where "rl_rawCe p = ce" "rl_rawPe p = pe" "rl_total p = (if res then ce else pe)"
    "rl_ceVal p = (if res then ce else Fin 0)" "rl_peVal p = (if res then Fin 0 else pe)"
proof -
  have "rl_total p = (if rl_isResistance p then rl_rawCe p else rl_rawPe p)
      \<and> rl_ceVal p = (if rl_isResistance p then rl_rawCe p else Fin 0) \<and> rl_peVal p = (if rl_isResistance p then Fin 0 else rl_rawPe p)"
    using assms unfolding row_levels_def Let_def set_map by (elim imageE, hypsubst_thin) simp
  then show ?thesis using that by blast
qed

text \<open>A cluster of one level of positive strength always passes the test of dominance: the sum it is compared with counts
  the strength of one side only.  A contested zone needs two levels.\<close>

lemma lone_level_dominant:
  assumes "p \<in> set (row_levels spot r)" and "rl_total p = Fin t" and "0 < t"
  shows "cluster_dominant (new_cluster p)"
proof -
  let ?x = "jmax (level_ce p) (level_pe p)"
  obtain ce pe res where p: "rl_rawCe p = ce" "rl_rawPe p = pe" "rl_total p = (if res then ce else pe)"
    "rl_ceVal p = (if res then ce else Fin 0)" "rl_peVal p = (if res then Fin 0 else pe)"
    by (rule row_level_fields [OF assms(1)])
  have sides: "level_ce p = Fin t \<and> level_pe p \<noteq> NaN \<or> level_pe p = Fin t \<and> level_ce p \<noteq> NaN"
    using p assms(2,3) by (cases res; cases ce; cases pe) (simp_all add: level_ce_def level_pe_def num_or_def)
  then have x: "Fin t \<le> ?x" "?x \<noteq> NaN" by (cases "level_ce p"; cases "level_pe p"; auto simp: jmax_def)+
  have low: "rnd (3 / 5) < Fin 1" by code_simp
  have "rnd (3 / 5) < ?x / Fin t"
  proof (cases ?x)
    case (Fin q)
    then have "1 \<le> q / t" using x assms(3) by simp
    then have "Fin 1 \<le> rnd (q / t)" using rnd_mono [of 1] by simp
    then show ?thesis using Fin low assms(3) by (cases "rnd (3 / 5)"; cases "rnd (q / t)") simp_all
  qed (use x assms(3) low in \<open>cases "rnd (3 / 5)"; simp\<close>)+
  then show ?thesis by (simp add: cluster_dominant_def dominance_ratio_def new_cluster_def assms(2))
qed

section \<open>Samples\<close>

definition sample_chain_row :: chart_row where
  "sample_chain_row =
     \<lparr>cr_strikeStr = ''100'', cr_strike = Fin 100, cr_ce_oi = Fin 10, cr_pe_oi = Fin 0, cr_ce_oi_chng = Fin 0, cr_pe_oi_chng = Fin 0,
      cr_ce_vol = Fin 0, cr_pe_vol = Fin 0, cr_ce_delta = Fin 1, cr_pe_delta = Fin 0, cr_ce_gamma = Fin 0, cr_pe_gamma = Fin 0,
      cr_ce_theta = Fin 0, cr_pe_theta = Fin 0, cr_ce_vega = Fin 0, cr_pe_vega = Fin 0, cr_ce_iv = Fin 0, cr_pe_iv = Fin 0,
      cr_ce_ltp = Fin 0, cr_pe_ltp = Fin 0, cr_reversal = Str ''101'', cr_wkly_reversal = Num (Fin 0), cr_fut_reversal = Num (Fin 0)\<rparr>"

definition sample_meta :: jsval where
  "sample_meta = Obj [(''recommended_threshold'', Num (Fin 1))]"

lemma bar_somewhere:
  assumes "pd_dataPoints d \<noteq> []"
  obtains b where "b \<in> set (bars_of (\<lambda>x. Some (Fin 100)) (Fin 500) (Fin 500) prof d)"
proof -
  obtain p where p: "p \<in> set (pd_dataPoints d)" using assms hd_in_set by blast
  obtain b where "bar_of (\<lambda>x. Some (Fin 100)) (Fin 500) (Fin 500) prof d p = Some b"
    by (simp add: bar_of_def)
  then show ?thesis using p that by (auto simp: bars_of_def List.map_filter_def image_iff intro!: bexI [of _ p])
qed

lemma sample_delta: "\<exists>d. fallback_data mpow True sample_meta Undef ''delta'' [sample_chain_row] = Some d \<and> pd_dataPoints d \<noteq> []"
proof -
  have "applySmartDominance t (Fin 1) (Fin 0) (Fin 1) = b \<Longrightarrow> abs (sb_ceVal b) = Fin 1 \<and> abs (sb_peVal b) = Fin 0" for t b
    by (auto simp: applySmartDominance_def Let_def)
  then show ?thesis
    by (simp add: fallback_data_def Let_def rows_pass_def row_pass_def pass_initial_def profile_bars_def sample_chain_row_def jmax_def)
qed

lemma sample_reversal:
  "\<exists>d. fallback_data mpow True sample_meta Undef ''reversal'' [sample_chain_row] = Some d \<and> pd_dataPoints d \<noteq> []"
proof -
  have read: "parse_float ''101'' = Fin 101" "parse_float ''0'' = Fin 0" by code_simp+
  have strength: "reversal_strength (Fin 10) (Fin 0) (Fin 0) (Fin 0) = Fin 7" by code_simp
  have spot: "spot_approx Undef [sample_chain_row] = None"
    by (simp add: spot_approx_def min_of_def straddle_def sample_chain_row_def jmin_def)
  obtain p where p: "row_levels None sample_chain_row = [p]" "rl_total p = Fin 7"
    by (simp add: row_levels_def Let_def sample_chain_row_def read strength truthy_spot_def)
  have "level_clusters None [p] = [new_cluster p]"
    by (simp add: level_clusters_def sort_levels_def js_sort_def Let_def)
  then show ?thesis using p
    by (simp add: fallback_data_def Let_def reversal_pass_def reversal_points_def chart_stats_of_def spot noise_threshold_def
        sample_meta_def new_cluster_def strongest_point_def cluster_point_def max_of_def jmax_def)
qed

definition sample_backend :: jsval where
  "sample_backend = Obj [(''data_points'', Arr
     [Obj [(''strike'', Num (Fin 100)), (''total'', Num (Fin 8)), (''ce_val'', Num (Fin 5)), (''pe_val'', Num (Fin 3))]])]"

theorem value_area_never_drawn_witness:
  "draw_profile (\<lambda>x. Some x) (Fin 500) (Fin 500) ''oi'' (backend_data ''oi'' sample_backend\<lparr>pd_vaStrikes := []\<rparr>)
     = draw_profile (\<lambda>x. Some x) (Fin 500) (Fin 500) ''oi'' (backend_data ''oi'' sample_backend)"
proof -
  have "profileData (\<lambda>x y. x) True (Obj [(''profiles'', Obj [(''oi'', sample_backend)])]) Undef ''oi'' (Obj [])
      = Inr (Some (backend_data ''oi'' sample_backend))"
    by (simp add: profileData_def Let_def sample_backend_def)
  then show ?thesis by (rule value_area_never_drawn) simp
qed

theorem reversal_poc_never_marked_witness:
  "\<exists>d b. fallback_data (\<lambda>x y. x) True sample_meta Undef ''reversal'' [sample_chain_row] = Some d
     \<and> b \<in> set (bars_of (\<lambda>x. Some (Fin 100)) (Fin 500) (Fin 500) ''reversal'' d) \<and> \<not> br_isPOC b"
  using sample_reversal [of "\<lambda>x y. x"] bar_somewhere [of _ "''reversal''"] reversal_poc_never_marked by metis

theorem bars_fit_witness:
  "\<exists>d b. fallback_data (\<lambda>x y. x) True sample_meta Undef ''delta'' [sample_chain_row] = Some d
     \<and> b \<in> set (bars_of (\<lambda>x. Some (Fin 100)) (Fin 500) (Fin 500) ''delta'' d) \<and> \<not> maxBarWidth (Fin 500) < br_ceWidth b"
proof -
  obtain d where s: "fallback_data (\<lambda>x y. x) True sample_meta Undef ''delta'' [sample_chain_row] = Some d" "pd_dataPoints d \<noteq> []"
    using sample_delta by blast
  obtain b where b: "b \<in> set (bars_of (\<lambda>x. Some (Fin 100)) (Fin 500) (Fin 500) ''delta'' d)"
    by (rule bar_somewhere [OF s(2)])
  have "\<not> maxBarWidth (Fin 500) < br_ceWidth b \<and> \<not> maxBarWidth (Fin 500) < br_peWidth b"
    by (rule bars_fit [OF s(1) _ _ b]) simp_all
  then show ?thesis using s(1) b by blast
qed

definition total_point :: "string \<Rightarrow> int \<Rightarrow> chart_point" where
  "total_point k n = plain_point (Str k) (Fin (of_int n)) (Fin 0) (Fin 0) Null (Num (Fin 1))"

theorem value_area_spec_witness:
  "\<exists>inside outside. by_total [total_point ''a'' 2, total_point ''b'' 7, total_point ''c'' 1] = inside @ outside
     \<and> va_strikes (Fin 10) [total_point ''a'' 2, total_point ''b'' 7, total_point ''c'' 1] = map cp_strike inside
     \<and> (\<forall>p \<in> set inside. \<forall>q \<in> set outside. cp_total q \<le> cp_total p)"
  using value_area_spec [of "[total_point ''a'' 2, total_point ''b'' 7, total_point ''c'' 1]" "Fin 10"]
    fin_double_int [of 1] fin_double_int [of 2] fin_double_int [of 7]
  by (auto simp: total_point_def plain_point_def)

end
