(* ===== verification/Trading_Chart.thy ===== *)
theory Trading_Chart
  imports Ui_Slices Chart_Utils Chart_Socket Js_Http Js_Format
begin

text \<open>
  The trading chart (src/components/charts/TradingChart.jsx): the candle series and its price lines, the price
  display, the fetch of candles with its polling, live ticks, the support and resistance lines and the drawing tool.
  The chart library is a parameter as far as it computes (\<open>coordinateToPrice\<close>); the series is the list of the
  calls it got, a price line is on the chart from \<open>createPriceLine\<close> to \<open>removePriceLine\<close>.  The clock time
  of a candle in the viewer's zone is a parameter (\<open>fmt\<close>).  The overlay of profiles is in Profile_Overlay.
\<close>

section \<open>State\<close>

record ohlc =
  oh_open :: jsval
  oh_high :: jsval
  oh_low :: jsval
  oh_close :: jsval
  oh_time :: jsval

datatype series_call = SetData "jsval list" | Update jsval

record price_line =
  pl_price :: jsnum
  pl_color :: string
  pl_solid :: bool
  pl_axisLabelBackgroundColor :: string
  pl_title :: string

record trading_chart =
  tc_slice :: chart_state
  tc_hasSeries :: bool
  tc_series :: "series_call list"
  tc_ohlc :: ohlc
  tc_livePrice :: jsval
  tc_lines :: "(string \<times> nat) list"
  tc_shown :: "(nat \<times> price_line) list"
  tc_nextLine :: nat
  tc_userLines :: "nat list"
  tc_drawing :: bool
  tc_customInterval :: string
  tc_showCustom :: bool
  tc_polling :: "(jsval \<times> jsval) option"
  tc_requests :: "(jsval \<times> jsval) list"

definition tc_initial :: "chart_state \<Rightarrow> trading_chart" where
  "tc_initial slice =
     (let zero = Num (Fin 0)
      in \<lparr>tc_slice = slice, tc_hasSeries = False, tc_series = [],
          tc_ohlc = \<lparr>oh_open = zero, oh_high = zero, oh_low = zero, oh_close = zero, oh_time = Str []\<rparr>, tc_livePrice = Null,
          tc_lines = [], tc_shown = [], tc_nextLine = 0, tc_userLines = [], tc_drawing = False, tc_customInterval = [],
          tc_showCustom = False, tc_polling = None, tc_requests = []\<rparr>)"

definition tc_dispatch :: "chart_action \<Rightarrow> trading_chart \<Rightarrow> trading_chart" where
  "tc_dispatch a s = s\<lparr>tc_slice := chart_reducer (tc_slice s) a\<rparr>"

definition tc_status :: "string \<Rightarrow> trading_chart \<Rightarrow> trading_chart" where
  "tc_status st = tc_dispatch (SetConnectionStatus (Str st))"

section \<open>Support and resistance lines\<close>

record theme_colors =
  th_supportColor :: string
  th_resistanceColor :: string
  th_nearersupportColor :: string
  th_nearerresistanceColor :: string

definition themeColors :: "string \<Rightarrow> theme_colors" where
  "themeColors theme =
     (if theme = ''dark''
      then \<lparr>th_supportColor = ''#38bdf8'', th_resistanceColor = ''#fbbf24'', th_nearersupportColor = ''#4ade80'',
            th_nearerresistanceColor = ''#f87171''\<rparr>
      else \<lparr>th_supportColor = ''#0ea5e9'', th_resistanceColor = ''#f59e0b'', th_nearersupportColor = ''#22c55e'',
            th_nearerresistanceColor = ''#ef4444''\<rparr>)"

type_synonym line_config = "string \<times> string \<times> string"

definition dailyLines :: "theme_colors \<Rightarrow> line_config list" where
  "dailyLines c =
     [(''support_1'', ''S1'', th_nearersupportColor c), (''support_1_1'', ''S1.1'', th_supportColor c),
      (''support_1_2'', ''S1.2'', th_supportColor c), (''resistance_1'', ''R1'', th_nearerresistanceColor c),
      (''resistance_1_1'', ''R1.1'', th_resistanceColor c), (''resistance_1_2'', ''R1.2'', th_resistanceColor c)]"

definition weeklyLines :: "theme_colors \<Rightarrow> line_config list" where
  "weeklyLines c =
     [(''support_2'', ''S2'', th_nearersupportColor c), (''support_2_1'', ''S2.1'', th_supportColor c),
      (''support_2_2'', ''S2.2'', th_supportColor c), (''resistance_2'', ''R2'', th_nearerresistanceColor c),
      (''resistance_2_1'', ''R2.1'', th_resistanceColor c), (''resistance_2_2'', ''R2.2'', th_resistanceColor c)]"

definition avgLines :: "line_config list" where
  "avgLines =
     [(''support_avg'', ''S-Avg'', ''#a855f7''), (''support_1_1_avg'', ''S1.1-Avg'', ''#c084fc''),
      (''support_1_2_avg'', ''S1.2-Avg'', ''#c084fc''), (''resistance_avg'', ''R-Avg'', ''#f97316''),
      (''resistance_1_1_avg'', ''R1.1-Avg'', ''#fb923c''), (''resistance_1_2_avg'', ''R1.2-Avg'', ''#fb923c'')]"

definition getLineConfigs :: "chart_state \<Rightarrow> theme_colors \<Rightarrow> line_config list" where
  "getLineConfigs slice c =
     (if truthy (ch_daily slice) then dailyLines c else []) @ (if truthy (ch_weekly slice) then weeklyLines c else [])
     @ (if truthy (ch_avg slice) then avgLines else [])"

text \<open>The line of a level, none where the level is missing or no number.\<close>

definition is_major :: "string \<Rightarrow> bool" where
  "is_major key \<longleftrightarrow> key \<in> set [''support_1'', ''support_2'', ''resistance_1'', ''resistance_2'']"

definition str_includes :: "string \<Rightarrow> string \<Rightarrow> bool" where
  "str_includes sub s \<longleftrightarrow> list_ex (\<lambda>i. take (length sub) (drop i s) = sub) [0..<Suc (length s)]"

definition line_of :: "(string \<times> jsval) list \<Rightarrow> line_config \<Rightarrow> price_line option" where
  "line_of levels cfg =
     (case cfg of (key, title, color) \<Rightarrow>
        let v = own levels key; price = parse_float (js_to_string v)
        in if nullish v \<or> price = NaN then None
           else Some \<lparr>pl_price = price, pl_color = color, pl_solid = is_major key,
                      pl_axisLabelBackgroundColor = (if str_includes ''support'' key then ''#002B36'' else ''#360000''), pl_title = title\<rparr>)"

definition remove_lines :: "trading_chart \<Rightarrow> trading_chart" where
  "remove_lines s = s\<lparr>tc_shown := filter (\<lambda>p. fst p \<notin> snd ` set (tc_lines s)) (tc_shown s), tc_lines := []\<rparr>"

definition create_line :: "(string \<times> jsval) list \<Rightarrow> trading_chart \<Rightarrow> line_config \<Rightarrow> trading_chart" where
  "create_line levels s cfg =
     (case line_of levels cfg of
        None \<Rightarrow> s
      | Some l \<Rightarrow> s\<lparr>tc_shown := tc_shown s @ [(tc_nextLine s, l)], tc_lines := put (fst cfg) (tc_nextLine s) (tc_lines s),
                    tc_nextLine := Suc (tc_nextLine s)\<rparr>)"

definition drawSupportResistanceLines :: "theme_colors \<Rightarrow> (string \<times> jsval) list option \<Rightarrow> trading_chart \<Rightarrow> trading_chart" where
  "drawSupportResistanceLines c levels_opt s =
     (case levels_opt of
        None \<Rightarrow> s
      | Some levels \<Rightarrow>
          if \<not> tc_hasSeries s then s
          else foldl (create_line levels) (remove_lines s) (getLineConfigs (tc_slice s) c))"

text \<open>The levels follow the price of the display, which is text once a candle has been shown.\<close>

definition supportResistanceLevels :: "jsval \<Rightarrow> trading_chart \<Rightarrow> (string \<times> jsval) list option" where
  "supportResistanceLevels oc s =
     (let price = oh_close (tc_ohlc s)
      in if \<not> truthy oc \<or> \<not> truthy price then None
         else Some (computeLevels (case oc of Obj ps \<Rightarrow> Some ps | _ \<Rightarrow> None) (to_number price)))"

definition lines_effect :: "theme_colors \<Rightarrow> jsval \<Rightarrow> trading_chart \<Rightarrow> trading_chart" where
  "lines_effect c oc s =
     (if supportResistanceLevels oc s \<noteq> None \<and> tc_hasSeries s \<and> strict_eq (ch_connectionStatus (tc_slice s)) (Str ''connected'')
      then drawSupportResistanceLines c (supportResistanceLevels oc s) s else s)"

section \<open>The chart and the drawing tool\<close>

text \<open>Creating the chart; \<open>False\<close> stands for a library call that throws.\<close>

definition init_chart :: "bool \<Rightarrow> trading_chart \<Rightarrow> trading_chart" where
  "init_chart created s =
     (if tc_hasSeries s then s else if created then s\<lparr>tc_hasSeries := True\<rparr> else tc_status ''error'' s)"

definition unmount_chart :: "trading_chart \<Rightarrow> trading_chart" where
  "unmount_chart s = s\<lparr>tc_hasSeries := False, tc_series := [], tc_shown := [], tc_lines := [], tc_userLines := [], tc_polling := None\<rparr>"

definition user_line :: "string \<Rightarrow> jsnum \<Rightarrow> price_line" where
  "user_line theme price =
     \<lparr>pl_price = price, pl_color = (if theme = ''dark'' then ''#60a5fa'' else ''#2563eb''), pl_solid = True,
      pl_axisLabelBackgroundColor = [], pl_title = ''Level''\<rparr>"

definition handleClick :: "(jsnum \<Rightarrow> jsnum option) \<Rightarrow> string \<Rightarrow> jsnum option \<Rightarrow> trading_chart \<Rightarrow> trading_chart" where
  "handleClick coordinateToPrice theme y s =
     (if \<not> tc_hasSeries s \<or> \<not> tc_drawing s then s
      else case y of
             None \<Rightarrow> s
           | Some yy \<Rightarrow>
               (case coordinateToPrice yy of
                  None \<Rightarrow> s
                | Some price \<Rightarrow> s\<lparr>tc_shown := tc_shown s @ [(tc_nextLine s, user_line theme price)],
                                   tc_userLines := tc_userLines s @ [tc_nextLine s], tc_nextLine := Suc (tc_nextLine s)\<rparr>))"

definition toggle_drawing :: "trading_chart \<Rightarrow> trading_chart" where
  "toggle_drawing s = s\<lparr>tc_drawing := \<not> tc_drawing s\<rparr>"

section \<open>Candles\<close>

definition fixed2 :: "jsval \<Rightarrow> jsval result" where
  "fixed2 v = (case v of Num x \<Rightarrow> Inr (Str (to_fixed 2 x)) | _ \<Rightarrow> Inl TypeError)"

definition ohlc_of :: "(jsval \<Rightarrow> string) \<Rightarrow> jsval \<Rightarrow> ohlc result" where
  "ohlc_of fmt candle =
     res_bind (fixed2 (opt candle ''open'')) (\<lambda>a. res_bind (fixed2 (opt candle ''high'')) (\<lambda>b.
     res_bind (fixed2 (opt candle ''low'')) (\<lambda>c. res_bind (fixed2 (opt candle ''close'')) (\<lambda>d.
       Inr \<lparr>oh_open = a, oh_high = b, oh_low = c, oh_close = d, oh_time = Str (fmt (opt candle ''time''))\<rparr>))))"

definition format_candle :: "jsval \<Rightarrow> jsval result" where
  "format_candle candle =
     (if nullish candle then Inl TypeError
      else Inr (Obj (map (\<lambda>k. (k, opt candle k)) [''time'', ''open'', ''high'', ''low'', ''close''])))"

definition by_time :: "jsval list \<Rightarrow> jsval list" where
  "by_time cs = js_sort (\<lambda>a b. to_number (opt a ''time'') - to_number (opt b ''time'')) cs"

text \<open>
  A tick of the socket; what is thrown is thrown after the series has been updated.  The series itself is taken not to
  throw: the chart library may refuse an update older than its last point, and then the display would stay as it was.
\<close>

definition handleChartTick :: "(jsval \<Rightarrow> string) \<Rightarrow> jsval \<Rightarrow> trading_chart \<Rightarrow> trading_chart \<times> unit result" where
  "handleChartTick fmt tickData s =
     (let candle = opt tickData ''candle''
      in if \<not> tc_hasSeries s \<or> \<not> truthy candle then (s, Inr ())
         else case format_candle candle of
                Inl e \<Rightarrow> (s, Inl e)
              | Inr f \<Rightarrow>
                  let s1 = s\<lparr>tc_series := tc_series s @ [Update f]\<rparr>
                  in case ohlc_of fmt candle of
                       Inl e \<Rightarrow> (s1, Inl e)
                     | Inr o1 \<Rightarrow> (s1\<lparr>tc_ohlc := o1, tc_livePrice := opt candle ''close''\<rparr>, Inr ()))"

text \<open>The cursor over the chart shows the candle under it.\<close>

definition hover_value :: "jsval \<Rightarrow> jsval result" where
  "hover_value v = (if nullish v then Inr (Num (Fin 0)) else res_bind (fixed2 v) (\<lambda>t. Inr (js_or t (Num (Fin 0)))))"

definition crosshair_move :: "(jsval \<Rightarrow> string) \<Rightarrow> jsval \<Rightarrow> jsval \<Rightarrow> trading_chart \<Rightarrow> trading_chart \<times> unit result" where
  "crosshair_move fmt time data s =
     (if \<not> truthy time \<or> \<not> truthy data then (s, Inr ())
      else case res_bind (hover_value (opt data ''open'')) (\<lambda>a. res_bind (hover_value (opt data ''high'')) (\<lambda>b.
                res_bind (hover_value (opt data ''low'')) (\<lambda>c. res_bind (hover_value (opt data ''close'')) (\<lambda>d.
                  Inr \<lparr>oh_open = a, oh_high = b, oh_low = c, oh_close = d, oh_time = Str (fmt time)\<rparr>)))) of
             Inl e \<Rightarrow> (s, Inl e)
           | Inr o1 \<Rightarrow> (s\<lparr>tc_ohlc := o1\<rparr>, Inr ()))"

section \<open>Fetching\<close>

definition chartSymbol :: "jsval \<Rightarrow> trading_chart \<Rightarrow> jsval" where
  "chartSymbol sid s = js_or (js_or sid (opt (ch_currentSymbol (tc_slice s)) ''symbol'')) (Str ''NIFTY'')"

definition chart_query :: "jsval \<times> jsval \<Rightarrow> jsval" where
  "chart_query q = Obj [(''symbol'', fst q), (''interval'', snd q), (''days'', Num (Fin 30))]"

definition fetchChartData :: "jsval \<times> jsval \<Rightarrow> trading_chart \<Rightarrow> trading_chart" where
  "fetchChartData q s = (tc_status ''loading'' s)\<lparr>tc_requests := tc_requests s @ [q]\<rparr>"

text \<open>The answer of a request, whichever it was; \<open>candles\<close> is an array where it is there.\<close>

definition candles_of :: "jsval \<Rightarrow> jsval list" where
  "candles_of data = (case opt data ''candles'' of Arr cs \<Rightarrow> cs | _ \<Rightarrow> [])"

definition show_candles :: "(jsval \<Rightarrow> string) \<Rightarrow> jsval list \<Rightarrow> trading_chart \<Rightarrow> trading_chart" where
  "show_candles fmt cs s =
     (if \<not> tc_hasSeries s then s
      else let s1 = s\<lparr>tc_series := tc_series s @ [SetData cs]\<rparr>; lastCandle = last cs
           in case ohlc_of fmt lastCandle of
                Inl e \<Rightarrow> tc_status ''error'' s1
              | Inr o1 \<Rightarrow> tc_status ''connected'' (tc_dispatch (SetChartData (Arr cs))
                             (s1\<lparr>tc_ohlc := o1, tc_livePrice := opt lastCandle ''close''\<rparr>)))"

definition chart_answer :: "(jsval \<Rightarrow> string) \<Rightarrow> jsval result \<Rightarrow> trading_chart \<Rightarrow> trading_chart" where
  "chart_answer fmt r s =
     (case r of
        Inl e \<Rightarrow> tc_status ''error'' s
      | Inr data \<Rightarrow>
          if truthy (opt data ''success'') \<and> candles_of data \<noteq> []
          then (case res_map format_candle (candles_of data) of
                  Inl e \<Rightarrow> tc_status ''error'' s
                | Inr cs \<Rightarrow> show_candles fmt (by_time cs) s)
          else tc_status ''error'' s)"

definition settle_request :: "(jsval \<Rightarrow> string) \<Rightarrow> (jsval \<times> jsval) \<Rightarrow> jsval result \<Rightarrow> trading_chart \<Rightarrow> trading_chart" where
  "settle_request fmt q r s = (chart_answer fmt r s)\<lparr>tc_requests := remove1 q (tc_requests s)\<rparr>"

text \<open>The effect of a symbol or an interval: one fetch, and polling every five seconds while the socket is down.\<close>

definition load_effect :: "jsval \<Rightarrow> bool \<Rightarrow> trading_chart \<Rightarrow> trading_chart" where
  "load_effect sid wsConnected s =
     (let q = (chartSymbol sid s, ch_timeframe (tc_slice s))
      in if \<not> truthy (fst q) \<or> \<not> tc_hasSeries s then s\<lparr>tc_polling := None\<rparr>
         else (fetchChartData q s)\<lparr>tc_polling := (if wsConnected then None else Some q)\<rparr>)"

definition poll_fires :: "trading_chart \<Rightarrow> trading_chart" where
  "poll_fires s = (case tc_polling s of None \<Rightarrow> s | Some q \<Rightarrow> fetchChartData q s)"

definition subscribe_effect :: "jsval \<Rightarrow> bool \<Rightarrow> trading_chart \<Rightarrow> ws_state \<Rightarrow> ws_state" where
  "subscribe_effect sid wsConnected s w =
     (if wsConnected \<and> truthy (chartSymbol sid s) \<and> truthy (ch_timeframe (tc_slice s))
      then subscribe (js_to_string (chartSymbol sid s)) (ch_timeframe (tc_slice s)) w else w)"

definition choose_first :: "jsval list \<Rightarrow> trading_chart \<Rightarrow> trading_chart" where
  "choose_first xs s =
     (if xs \<noteq> [] \<and> \<not> truthy (ch_currentSymbol (tc_slice s)) then tc_dispatch (SetCurrentSymbol (hd xs)) s else s)"

definition defaultSymbols :: "jsval list" where
  "defaultSymbols = [Obj [(''symbol'', Str ''NIFTY''), (''name'', Str ''NIFTY 50'')]]"

text \<open>The answer of \<open>getSymbols\<close>, whose \<open>data\<close> is an array where it is there.\<close>

definition loadSymbols :: "jsval result \<Rightarrow> trading_chart \<Rightarrow> trading_chart" where
  "loadSymbols r s =
     (case res_bind r (\<lambda>v. get v ''data'') of
        Inl e \<Rightarrow> choose_first defaultSymbols (tc_dispatch (SetSymbols (Arr defaultSymbols)) s)
      | Inr data \<Rightarrow>
          let xs = (case data of Arr ys \<Rightarrow> ys | _ \<Rightarrow> [])
          in choose_first xs (tc_dispatch (SetSymbols (Arr xs)) s))"

definition handleCustomTimeframe :: "trading_chart \<Rightarrow> trading_chart" where
  "handleCustomTimeframe s =
     (if tc_customInterval s \<noteq> [] \<and> parse_int (tc_customInterval s) > Fin 0
      then (tc_dispatch (SetTimeframe (Str (tc_customInterval s))) s)\<lparr>tc_showCustom := False, tc_customInterval := []\<rparr>
      else s)"

definition timeframes :: "(string \<times> string) list" where
  "timeframes = [(''15S'', ''15s''), (''1'', ''1min''), (''2'', ''2min''), (''3'', ''3min''), (''5'', ''5min''), (''10'', ''10min''),
                 (''15'', ''15min''), (''30'', ''30min''), (''60'', ''1H''), (''D'', ''Daily'')]"

section \<open>Steps of the chart\<close>

inductive chart_step :: "trading_chart \<Rightarrow> trading_chart \<Rightarrow> bool" where
  "chart_step s (init_chart created s)"
| "chart_step s (unmount_chart s)"
| "chart_step s (lines_effect c oc s)"
| "chart_step s (handleClick coordinateToPrice theme y s)"
| "chart_step s (toggle_drawing s)"
| "chart_step s (fst (handleChartTick fmt tickData s))"
| "chart_step s (fst (crosshair_move fmt time data s))"
| "chart_step s (settle_request fmt q r s)"
| "chart_step s (load_effect sid wsConnected s)"
| "chart_step s (poll_fires s)"
| "chart_step s (loadSymbols r s)"
| "chart_step s (handleCustomTimeframe s)"
| "chart_step s (tc_dispatch a s)"

inductive chart_reachable :: "trading_chart \<Rightarrow> bool" where
  start: "chart_reachable (tc_initial slice)"
| step: "chart_reachable s \<Longrightarrow> chart_step s s' \<Longrightarrow> chart_reachable s'"

text \<open>The lines on the chart are those the map knows and those the user drew, each once.\<close>

definition line_parts :: "trading_chart \<Rightarrow> (nat \<times> price_line) list \<times> (string \<times> nat) list \<times> nat list \<times> nat" where
  "line_parts s = (tc_shown s, tc_lines s, tc_userLines s, tc_nextLine s)"

definition lines_inv :: "trading_chart \<Rightarrow> bool" where
  "lines_inv s \<longleftrightarrow> distinct (map fst (tc_shown s)) \<and> fst ` set (tc_shown s) \<subseteq> {..<tc_nextLine s}
     \<and> fst ` set (tc_shown s) = snd ` set (tc_lines s) \<union> set (tc_userLines s)
     \<and> snd ` set (tc_lines s) \<inter> set (tc_userLines s) = {}"

named_theorems chart_parts

lemma lines_inv_cong: "line_parts s' = line_parts s \<Longrightarrow> lines_inv s' = lines_inv s"
  by (simp add: line_parts_def lines_inv_def)

lemma dispatch_parts [chart_parts, simp]: "line_parts (tc_dispatch a s) = line_parts s"
  by (simp add: line_parts_def tc_dispatch_def)

lemma status_parts [chart_parts, simp]: "line_parts (tc_status st s) = line_parts s"
  by (simp add: tc_status_def)

lemma init_parts [chart_parts, simp]: "line_parts (init_chart created s) = line_parts s"
  by (simp add: init_chart_def) (simp add: line_parts_def)

lemma toggle_parts [chart_parts, simp]: "line_parts (toggle_drawing s) = line_parts s"
  by (simp add: toggle_drawing_def line_parts_def)

lemma tick_parts [chart_parts, simp]: "line_parts (fst (handleChartTick fmt t s)) = line_parts s"
  by (auto simp: handleChartTick_def Let_def line_parts_def split: sum.splits)

lemma hover_parts [chart_parts, simp]: "line_parts (fst (crosshair_move fmt t d s)) = line_parts s"
  by (auto simp: crosshair_move_def line_parts_def split: sum.splits)

lemma fetch_parts [chart_parts, simp]: "line_parts (fetchChartData q s) = line_parts s"
  using status_parts [of "''loading''" s] by (simp add: fetchChartData_def line_parts_def)

lemma show_parts [chart_parts, simp]: "line_parts (show_candles fmt cs s) = line_parts s"
  by (auto simp: show_candles_def Let_def split: sum.splits) (auto simp: line_parts_def)

lemma answer_parts [chart_parts, simp]: "line_parts (chart_answer fmt r s) = line_parts s"
  by (auto simp: chart_answer_def split: sum.splits)

lemma settle_parts [chart_parts, simp]: "line_parts (settle_request fmt q r s) = line_parts s"
  using answer_parts [of fmt r s] by (simp add: settle_request_def line_parts_def)

lemma load_parts [chart_parts, simp]: "line_parts (load_effect sid ws s) = line_parts s"
  using fetch_parts [of _ s] by (auto simp: load_effect_def Let_def line_parts_def)

lemma poll_parts [chart_parts, simp]: "line_parts (poll_fires s) = line_parts s"
  by (auto simp: poll_fires_def split: option.splits)

lemma symbols_parts [chart_parts, simp]: "line_parts (loadSymbols r s) = line_parts s"
  by (auto simp: loadSymbols_def choose_first_def Let_def split: sum.splits)

lemma custom_parts [chart_parts, simp]: "line_parts (handleCustomTimeframe s) = line_parts s"
  using dispatch_parts [of "SetTimeframe (Str (tc_customInterval s))" s]
  by (simp add: handleCustomTimeframe_def line_parts_def)

section \<open>Redrawing\<close>

lemma create_line_fields [simp]:
  "tc_userLines (create_line levels s cfg) = tc_userLines s" "tc_slice (create_line levels s cfg) = tc_slice s"
  "tc_hasSeries (create_line levels s cfg) = tc_hasSeries s"
  by (simp_all add: create_line_def split: option.split)

lemma remove_lines_fields [simp]:
  "tc_userLines (remove_lines s) = tc_userLines s" "tc_slice (remove_lines s) = tc_slice s" "tc_lines (remove_lines s) = []"
  "tc_nextLine (remove_lines s) = tc_nextLine s"
  by (simp_all add: remove_lines_def)

text \<open>Drawing the lines of some configurations appends them with new numbers.\<close>

lemma create_lines:
  assumes "distinct (map fst cfgs)" and "fst ` set cfgs \<inter> fst ` set (tc_lines s) = {}"
  shows "\<exists>new. tc_shown (foldl (create_line levels) s cfgs) = tc_shown s @ new
     \<and> map snd new = List.map_filter (line_of levels) cfgs
     \<and> map fst new = [tc_nextLine s..<tc_nextLine s + length new]
     \<and> tc_nextLine (foldl (create_line levels) s cfgs) = tc_nextLine s + length new
     \<and> snd ` set (tc_lines (foldl (create_line levels) s cfgs)) = snd ` set (tc_lines s) \<union> fst ` set new
     \<and> tc_userLines (foldl (create_line levels) s cfgs) = tc_userLines s"
  using assms
proof (induction cfgs arbitrary: s)
  case (Cons cfg cfgs)
  let ?s = "create_line levels s cfg"
  show ?case
  proof (cases "line_of levels cfg")
    case None
    then show ?thesis using Cons.IH [of s] Cons.prems by (simp add: create_line_def List.map_filter_simps)
  next
    case (Some l)
    have s: "tc_shown ?s = tc_shown s @ [(tc_nextLine s, l)]" "tc_nextLine ?s = Suc (tc_nextLine s)"
      "tc_lines ?s = put (fst cfg) (tc_nextLine s) (tc_lines s)" "tc_userLines ?s = tc_userLines s"
      by (simp_all add: create_line_def Some)
    have "{p \<in> set (tc_lines s). fst p \<noteq> fst cfg} = set (tc_lines s)" using Cons.prems(2) by force
    then have ids: "snd ` set (tc_lines ?s) = insert (tc_nextLine s) (snd ` set (tc_lines s))" by (simp add: s set_put)
    have "fst ` set cfgs \<inter> fst ` set (tc_lines ?s) = {}" using Cons.prems by (auto simp: s keys_put)
    then obtain new where new: "tc_shown (foldl (create_line levels) ?s cfgs) = tc_shown ?s @ new"
      "map snd new = List.map_filter (line_of levels) cfgs" "map fst new = [tc_nextLine ?s..<tc_nextLine ?s + length new]"
      "tc_nextLine (foldl (create_line levels) ?s cfgs) = tc_nextLine ?s + length new"
      "snd ` set (tc_lines (foldl (create_line levels) ?s cfgs)) = snd ` set (tc_lines ?s) \<union> fst ` set new"
      "tc_userLines (foldl (create_line levels) ?s cfgs) = tc_userLines ?s"
      using Cons.IH [of ?s] Cons.prems(1) by auto
    have "map fst ((tc_nextLine s, l) # new) = [tc_nextLine s..<tc_nextLine s + length ((tc_nextLine s, l) # new)]"
      using new(3) by (simp add: s upt_conv_Cons del: upt_Suc)
    moreover have "snd ` set (tc_lines (foldl (create_line levels) ?s cfgs))
        = snd ` set (tc_lines s) \<union> fst ` set ((tc_nextLine s, l) # new)"
      using new(5) unfolding ids by simp
    ultimately show ?thesis
      using new(1,2,4,6) by (intro exI [of _ "(tc_nextLine s, l) # new"]) (simp add: s Some List.map_filter_simps)
  qed
qed (simp add: List.map_filter_simps)

lemma config_keys: "distinct (map fst (getLineConfigs slice c))"
  by (cases "truthy (ch_daily slice)"; cases "truthy (ch_weekly slice)"; cases "truthy (ch_avg slice)";
      simp add: getLineConfigs_def dailyLines_def weeklyLines_def avgLines_def)

lemma shown_kept:
  assumes "lines_inv s"
  shows "tc_shown (remove_lines s) = filter (\<lambda>p. fst p \<in> set (tc_userLines s)) (tc_shown s)"
  using assms unfolding remove_lines_def lines_inv_def
  by (auto intro!: filter_cong)

lemma lines_inv_draw:
  assumes "lines_inv s"
  shows "lines_inv (drawSupportResistanceLines c lv s)"
proof (cases "lv = None \<or> \<not> tc_hasSeries s")
  case True
  then show ?thesis using assms by (auto simp: drawSupportResistanceLines_def split: option.split)
next
  case False
  then obtain levels where lv: "lv = Some levels" by auto
  let ?s = "foldl (create_line levels) (remove_lines s) (getLineConfigs (tc_slice s) c)"
  obtain new where new: "tc_shown ?s = tc_shown (remove_lines s) @ new"
    "map fst new = [tc_nextLine s..<tc_nextLine s + length new]" "tc_nextLine ?s = tc_nextLine s + length new"
    "snd ` set (tc_lines ?s) = fst ` set new" "tc_userLines ?s = tc_userLines s"
    using create_lines [OF config_keys [of "tc_slice s" c], of "remove_lines s" levels] by auto
  have ids: "fst ` set new = {tc_nextLine s..<tc_nextLine s + length new}" "distinct (map fst new)"
    using new(2) by (simp_all flip: list.set_map)
  have old: "set (tc_userLines s) \<subseteq> fst ` set (tc_shown s)" "fst ` set (tc_shown s) \<subseteq> {..<tc_nextLine s}"
    using assms unfolding lines_inv_def by blast+
  have kept: "fst ` set (tc_shown (remove_lines s)) = set (tc_userLines s)"
    using old(1) unfolding shown_kept [OF assms] by force
  have "distinct (map fst (tc_shown (remove_lines s)))"
    unfolding shown_kept [OF assms] using assms by (simp add: lines_inv_def distinct_map_filter)
  moreover have user: "set (tc_userLines s) \<subseteq> {..<tc_nextLine s}" using old by blast
  ultimately have "lines_inv ?s"
    using new ids kept unfolding lines_inv_def by (auto simp: image_Un)
  then show ?thesis using False by (simp add: drawSupportResistanceLines_def lv)
qed

lemma lines_inv_user:
  assumes "lines_inv s"
  shows "lines_inv (s\<lparr>tc_shown := tc_shown s @ [(tc_nextLine s, l)], tc_userLines := tc_userLines s @ [tc_nextLine s],
           tc_nextLine := Suc (tc_nextLine s)\<rparr>)"
proof -
  let ?A = "fst ` set (tc_shown s)" and ?n = "tc_nextLine s" and ?L = "snd ` set (tc_lines s)" and ?U = "set (tc_userLines s)"
  have inv: "distinct (map fst (tc_shown s))" "?A \<subseteq> {..<?n}" "?A = ?L \<union> ?U" "?L \<inter> ?U = {}"
    using assms unfolding lines_inv_def by blast+
  have "?n \<notin> ?A" using inv(2) by blast
  then have n: "?n \<notin> ?L" "?n \<notin> ?A" using inv(3) by simp_all
  let ?t = "s\<lparr>tc_shown := tc_shown s @ [(?n, l)], tc_userLines := tc_userLines s @ [?n], tc_nextLine := Suc ?n\<rparr>"
  have t: "fst ` set (tc_shown ?t) = insert ?n ?A" "set (tc_userLines ?t) = insert ?n ?U" "snd ` set (tc_lines ?t) = ?L"
    "tc_nextLine ?t = Suc ?n" by simp_all
  have "distinct (map fst (tc_shown s) @ [?n])" using inv(1) n(2) by (simp del: set_map add: set_map [symmetric])
  then have "distinct (map fst (tc_shown ?t))" by simp
  moreover have "insert ?n ?A \<subseteq> {..<Suc ?n}" using inv(2) unfolding lessThan_Suc by blast
  moreover have "insert ?n ?A = ?L \<union> (insert ?n ?U)" using inv(3) by blast
  moreover have "?L \<inter> insert ?n ?U = {}" using inv(4) n(1) by (simp only: Int_insert_right if_False)
  ultimately show ?thesis unfolding lines_inv_def t by (intro conjI)
qed

lemma lines_inv_step: "chart_step s s' \<Longrightarrow> lines_inv s \<Longrightarrow> lines_inv s'"
proof (induction rule: chart_step.induct)
  case (2 s)
  then show ?case by (simp add: unmount_chart_def lines_inv_def)
next
  case (3 s c oc)
  then show ?case by (simp add: lines_effect_def lines_inv_draw)
next
  case (4 s ctp theme y)
  then show ?case by (simp add: handleClick_def lines_inv_user split: option.split)
qed (erule lines_inv_cong [THEN iffD2, rotated]; simp)+

lemma lines_inv_reachable: "chart_reachable s \<Longrightarrow> lines_inv s"
proof (induction rule: chart_reachable.induct)
  case (start slice)
  then show ?case by (simp add: tc_initial_def lines_inv_def Let_def)
next
  case (step s s')
  then show ?case by (blast intro: lines_inv_step)
qed

text \<open>
  C35: Redrawing leaks no line: in every reachable state with a chart series, drawing the levels leaves on the chart exactly
  one line for each level of the families switched on that is a number, in the order of the table, and the lines of the
  user as they were, whatever had been drawn before.
\<close>

theorem redraw_exact:
  assumes "chart_reachable s" and "tc_hasSeries s" and "s' = drawSupportResistanceLines c (Some levels) s"
  shows "map snd (filter (\<lambda>p. fst p \<notin> set (tc_userLines s)) (tc_shown s'))
           = List.map_filter (line_of levels) (getLineConfigs (tc_slice s) c)
       \<and> filter (\<lambda>p. fst p \<in> set (tc_userLines s)) (tc_shown s') = filter (\<lambda>p. fst p \<in> set (tc_userLines s)) (tc_shown s)
       \<and> tc_userLines s' = tc_userLines s"
proof -
  note inv = lines_inv_reachable [OF assms(1)]
  have s': "s' = foldl (create_line levels) (remove_lines s) (getLineConfigs (tc_slice s) c)"
    using assms(2,3) by (simp add: drawSupportResistanceLines_def)
  obtain new where new: "tc_shown s' = tc_shown (remove_lines s) @ new"
    "map snd new = List.map_filter (line_of levels) (getLineConfigs (tc_slice s) c)"
    "map fst new = [tc_nextLine s..<tc_nextLine s + length new]" "tc_userLines s' = tc_userLines s"
    using create_lines [OF config_keys [of "tc_slice s" c], of "remove_lines s" levels] s' by auto
  have "set (tc_userLines s) \<subseteq> {..<tc_nextLine s}" using inv by (auto simp: lines_inv_def)
  moreover have "fst ` set new = {tc_nextLine s..<tc_nextLine s + length new}" using new(3) by (simp flip: list.set_map)
  ultimately have fresh: "\<forall>p \<in> set new. fst p \<notin> set (tc_userLines s)" by force
  show ?thesis
    using fresh new by (simp add: shown_kept [OF inv] filter_empty_conv)
qed

theorem redraw_exact_witness:
  "map snd (tc_shown (drawSupportResistanceLines (themeColors ''dark'') (Some [(''support_2'', Num (Fin 90)), (''resistance_2'', Null)])
      (init_chart True (tc_initial chart_initial))))
    = List.map_filter (line_of [(''support_2'', Num (Fin 90)), (''resistance_2'', Null)]) (weeklyLines (themeColors ''dark''))"
proof -
  let ?s = "init_chart True (tc_initial chart_initial)"
  have reach: "chart_reachable ?s" by (rule chart_reachable.step [OF chart_reachable.start chart_step.intros(1)])
  have s: "tc_hasSeries ?s" "tc_userLines ?s = []" "getLineConfigs (tc_slice ?s) c = weeklyLines c" for c
    by (simp_all add: init_chart_def tc_initial_def chart_initial_def getLineConfigs_def Let_def)
  show ?thesis using redraw_exact [OF reach s(1) refl, of "themeColors ''dark''" "[(''support_2'', Num (Fin 90)), (''resistance_2'', Null)]"]
    unfolding s by simp
qed

section \<open>Answers are not matched with requests\<close>

text \<open>An answer that can be shown: the candles in order and the display of the last one.\<close>

definition good_answer :: "(jsval \<Rightarrow> string) \<Rightarrow> jsval \<Rightarrow> jsval list \<Rightarrow> ohlc \<Rightarrow> bool" where
  "good_answer fmt data cs o1 \<longleftrightarrow>
     truthy (opt data ''success'') \<and> candles_of data \<noteq> []
     \<and> (\<exists>fs. res_map format_candle (candles_of data) = Inr fs \<and> by_time fs = cs) \<and> ohlc_of fmt (last cs) = Inr o1"

lemma good_answer_shown:
  assumes "good_answer fmt data cs o1" and "tc_hasSeries s" and "s' = settle_request fmt q (Inr data) s"
  shows "tc_series s' = tc_series s @ [SetData cs]" and "tc_ohlc s' = o1" and "tc_livePrice s' = opt (last cs) ''close''"
    and "ch_connectionStatus (tc_slice s') = Str ''connected''" and "ch_chartData (tc_slice s') = cs"
    and "tc_polling s' = tc_polling s" and "tc_hasSeries s'" and "chartSymbol sid s' = chartSymbol sid s"
  using assms
  by (auto simp: good_answer_def settle_request_def chart_answer_def show_candles_def Let_def tc_status_def tc_dispatch_def chartSymbol_def)

text \<open>
  C36: A late answer shows the wrong instrument.  When the symbol has been switched from one to another and the answer for the
  new one arrives first, the answer for the old one, arriving later, takes its place: the chart, the display, the
  live price and the candles of the store are those of the old symbol, reported as connected, while the page asks
  for the new one.
\<close>

theorem late_candles_shown:
  assumes "tc_hasSeries s" and "truthy sidA" and "truthy sidB"
    and "good_answer fmt dataA csA oA" and "good_answer fmt dataB csB oB"
    and "s1 = load_effect sidA ws s" and "s2 = load_effect sidB ws s1"
    and "s3 = settle_request fmt (sidB, ch_timeframe (tc_slice s)) (Inr dataB) s2"
    and "s4 = settle_request fmt (sidA, ch_timeframe (tc_slice s)) (Inr dataA) s3"
  shows "(sidA, ch_timeframe (tc_slice s)) \<in> set (tc_requests s2) \<and> (sidB, ch_timeframe (tc_slice s)) \<in> set (tc_requests s2)
       \<and> last (tc_series s3) = SetData csB \<and> last (tc_series s4) = SetData csA
       \<and> tc_ohlc s4 = oA \<and> tc_livePrice s4 = opt (last csA) ''close'' \<and> ch_chartData (tc_slice s4) = csA
       \<and> ch_connectionStatus (tc_slice s4) = Str ''connected'' \<and> chartSymbol sidB s4 = sidB"
proof -
  have load: "tc_hasSeries (load_effect sid ws t) = tc_hasSeries t \<and> ch_timeframe (tc_slice (load_effect sid ws t)) = ch_timeframe (tc_slice t)
      \<and> tc_requests (load_effect sid ws t) = tc_requests t @ [(sid, ch_timeframe (tc_slice t))]"
    if "truthy sid" "tc_hasSeries t" for sid t
    using that by (simp add: load_effect_def Let_def chartSymbol_def fetchChartData_def tc_status_def tc_dispatch_def)
  have series: "tc_hasSeries s1" "tc_hasSeries s2" using load assms(1-3,6,7) by auto
  note B = good_answer_shown [OF assms(5) series(2) assms(8)]
  note A = good_answer_shown [OF assms(4) B(7) assms(9)]
  have "chartSymbol sidB s4 = sidB" using assms(3) by (simp add: chartSymbol_def)
  then show ?thesis using load assms(1-3,6,7) A(1-5) B(1) series(1) by simp
qed

definition one_candle :: "rat \<Rightarrow> jsval" where
  "one_candle x = Obj (map (\<lambda>k. (k, Num (Fin x))) [''time'', ''open'', ''high'', ''low'', ''close''])"

definition one_answer :: "rat \<Rightarrow> jsval" where
  "one_answer x = Obj [(''success'', Bool True), (''candles'', Arr [one_candle x])]"

lemma one_answer_good:
  "\<exists>o1. good_answer fmt (one_answer x) [one_candle x] o1"
  by (simp add: good_answer_def one_answer_def one_candle_def candles_of_def format_candle_def by_time_def js_sort_def ohlc_of_def fixed2_def)

theorem late_candles_shown_witness:
  "let s = init_chart True (tc_initial chart_initial); q = (\<lambda>sid. (Str sid, Str ''10''));
       s2 = load_effect (Str ''B'') True (load_effect (Str ''A'') True s);
       s4 = settle_request (\<lambda>t. []) (q ''A'') (Inr (one_answer 1)) (settle_request (\<lambda>t. []) (q ''B'') (Inr (one_answer 2)) s2)
   in last (tc_series s4) = SetData [one_candle 1] \<and> chartSymbol (Str ''B'') s4 = Str ''B''"
proof -
  let ?s = "init_chart True (tc_initial chart_initial)"
  have s: "tc_hasSeries ?s" "ch_timeframe (tc_slice ?s) = Str ''10''"
    by (simp_all add: init_chart_def tc_initial_def chart_initial_def Let_def)
  obtain oA oB where good: "good_answer (\<lambda>t. []) (one_answer 1) [one_candle 1] oA" "good_answer (\<lambda>t. []) (one_answer 2) [one_candle 2] oB"
    using one_answer_good by blast
  show ?thesis
    using late_candles_shown [OF s(1) _ _ good refl refl refl refl, of "Str ''A''" "Str ''B''" True] by (simp add: s(2) Let_def)
qed

section \<open>The interval of one minute\<close>

text \<open>Choosing one minute stores the empty text: nothing is subscribed to, the request asks for the empty interval, and no
  button is shown as chosen.\<close>

lemma one_minute_never_live:
  fixes s defines "s1 \<equiv> tc_dispatch (SetTimeframe (Str ''1'')) s"
  shows "subscribe_effect sid ws s1 w = w"
    and "tc_hasSeries s \<Longrightarrow> last (tc_requests (load_effect sid ws s1)) = (chartSymbol sid s1, Str [])"
    and "\<not> list_ex (\<lambda>tf. strict_eq (ch_timeframe (tc_slice s1)) (Str (fst tf))) timeframes"
proof -
  have s1: "ch_timeframe (tc_slice s1) = Str []" "tc_hasSeries s1 = tc_hasSeries s"
    by (simp_all add: s1_def tc_dispatch_def)
  show "subscribe_effect sid ws s1 w = w" by (simp add: subscribe_effect_def s1)
  have "truthy (chartSymbol sid s1)" by (simp add: chartSymbol_def js_or_def)
  then show "last (tc_requests (load_effect sid ws s1)) = (chartSymbol sid s1, Str [])" if "tc_hasSeries s"
    using that s1 by (simp add: load_effect_def Let_def fetchChartData_def)
  show "\<not> list_ex (\<lambda>tf. strict_eq (ch_timeframe (tc_slice s1)) (Str (fst tf))) timeframes"
    by (simp add: s1 timeframes_def)
qed

section \<open>Levels of averages and of the cursor\<close>

text \<open>An average of missing levels is 0, a number: below the lowest strike the average supports are lines at the price 0.\<close>

lemma averages_at_zero:
  assumes "strikes_of oc \<noteq> []" and "filter (\<lambda>k. k \<le> price) (strikes_of oc) = []"
  shows "\<exists>l. line_of (computeLevels (Some oc) price) (''support_avg'', title, color) = Some l \<and> pl_price l = Fin 0"
proof -
  have "own (computeLevels (Some oc) price) ''support_avg'' = Num (Fin 0)"
    using assms by (simp add: computeLevels_def Let_def pick_def average_level_def nullish_num_def)
  moreover have "parse_float (num_to_string (Fin 0)) = Fin 0" by code_simp
  ultimately show ?thesis by (simp add: line_of_def Let_def)
qed

text \<open>The levels follow the candle under the cursor, not the last price.\<close>

lemma cursor_moves_levels:
  assumes "truthy time" and "opt data ''open'' = Num a" and "opt data ''high'' = Num b" and "opt data ''low'' = Num c"
    and "opt data ''close'' = Num (Fin r)" and "0 \<le> r" and "r < 10 ^ 21" and "truthy data" and "truthy oc"
    and "s' = fst (crosshair_move fmt time data s)"
  shows "supportResistanceLevels oc s' =
      Some (computeLevels (case oc of Obj ps \<Rightarrow> Some ps | _ \<Rightarrow> None) (to_number (Str (to_fixed 2 (Fin r)))))
    \<and> tc_livePrice s' = tc_livePrice s"
proof -
  have "to_fixed 2 (Fin r) \<noteq> []" using assms(6,7) parse_fixed_digits [of r 2] by simp
  then have "supportResistanceLevels oc s' = Some (computeLevels (case oc of Obj ps \<Rightarrow> Some ps | _ \<Rightarrow> None) (to_number (oh_close (tc_ohlc s'))))
      \<and> oh_close (tc_ohlc s') = Str (to_fixed 2 (Fin r)) \<and> tc_livePrice s' = tc_livePrice s"
    using assms by (simp add: crosshair_move_def hover_value_def fixed2_def supportResistanceLevels_def Let_def)
  then show ?thesis by simp
qed

end
