(* ===== verification/Js_Roundtrip_Num.thy ===== *)
theory Js_Roundtrip_Num
  imports Js_Roundtrip
begin

text \<open>
  The shortest decimal of an integer below $10^{15}$ is its digits: the printer of Numbers and the
  reader of JSON agree on the integers the program stores (times in milliseconds, counts, ids).
\<close>

section \<open>Printing an integer\<close>

lemma digit_char_0: "digit_char 0 = CHR ''0''"
  by code_simp

lemma show_nat_zeros: "0 < s \<Longrightarrow> show_nat (s * 10 ^ j) = show_nat s @ replicate j (CHR ''0'')"
proof (induction j)
  case (Suc j)
  have m: "0 < s * 10 ^ j" using Suc.prems by simp
  have "show_nat (10 * (s * 10 ^ j)) = show_nat (s * 10 ^ j) @ [digit_char 0]"
    using m by (subst show_nat.simps) auto
  then show ?case using Suc by (simp add: digit_char_0 algebra_simps replicate_append_same)
qed simp

lemma show_nat_length:
  "0 < n \<Longrightarrow> 10 ^ (length (show_nat n) - 1) \<le> n \<and> n < 10 ^ length (show_nat n)"
proof (induction n rule: show_nat.induct)
  case (1 n)
  show ?case
  proof (cases "n < 10")
    case True
    then show ?thesis using 1(2) by (subst (1 2) show_nat.simps) simp
  next
    case False
    let ?l = "length (show_nat (n div 10))"
    have IH: "10 ^ (?l - 1) \<le> n div 10" "n div 10 < 10 ^ ?l" using 1 False by auto
    have l: "0 < ?l" using show_nat_digits [of "n div 10"] False by auto
    have "length (show_nat n) = Suc ?l" using False by (subst show_nat.simps) simp
    moreover have "10 ^ ?l = 10 * (10 :: int) ^ (?l - 1)" using l by (cases ?l) auto
    moreover have "10 * (n div 10) \<le> n" "n < 10 * (n div 10) + 10" by presburger+
    ultimately show ?thesis using IH by (simp only: diff_Suc_1 power_Suc) linarith
  qed
qed

lemma dec_exp_spec: "r < 10 ^ e \<Longrightarrow> 10 ^ e \<le> 10 * r \<Longrightarrow> e \<le> fuel \<Longrightarrow> dec_exp fuel r = int e"
proof (induction e arbitrary: r fuel)
  case 0
  then show ?case by (cases fuel) auto
next
  case (Suc e)
  obtain f where f: "fuel = Suc f" "e \<le> f" using Suc.prems(3) by (cases fuel) auto
  have "(1 :: rat) \<le> 10 ^ e" by simp
  also have "\<dots> \<le> r" using Suc.prems(2) by simp
  finally have "1 \<le> r" .
  moreover have "dec_exp f (r / 10) = int e" using Suc.prems f by (intro Suc.IH) auto
  ultimately show ?case using f by simp
qed

lemma rounded_multiple:
  assumes "0 < n" and "n < 10 ^ 15" and "10 ^ j \<le> n"
  shows "rd64 (of_int (rne (of_int n / of_int (10 ^ j))) * of_int (10 ^ j)) = of_int (rne (of_int n / of_int (10 ^ j)) * 10 ^ j)"
proof -
  let ?s = "rne (of_int n / of_int (10 ^ j) :: rat)"
  have p: "(0 :: rat) < of_int (10 ^ j)" by simp
  have b: "of_int ?s - 1 / 2 \<le> (of_int n / of_int (10 ^ j) :: rat)" "(of_int n / of_int (10 ^ j) :: rat) \<le> of_int ?s + 1 / 2"
    using rne_bounds by blast+
  have "(of_int ?s - 1 / 2) * of_int (10 ^ j) \<le> (of_int n :: rat)"
    using b(1) p by (simp only: pos_le_divide_eq)
  then have "of_int (2 * (?s * 10 ^ j)) \<le> (of_int (2 * n + 10 ^ j) :: rat)" by (simp add: algebra_simps)
  then have up: "2 * (?s * 10 ^ j) \<le> 2 * n + 10 ^ j" by (simp only: of_int_le_iff)
  have "(of_int n :: rat) \<le> (of_int ?s + 1 / 2) * of_int (10 ^ j)"
    using b(2) p by (simp only: pos_divide_le_eq)
  then have "(of_int (2 * n - 10 ^ j) :: rat) \<le> of_int (2 * (?s * 10 ^ j))" by (simp add: algebra_simps)
  then have low: "2 * n - 10 ^ j \<le> 2 * (?s * 10 ^ j)" by (simp only: of_int_le_iff)
  have "\<bar>?s * 10 ^ j\<bar> \<le> 2 ^ 53" using up low assms by auto
  from binary64.int_exact [OF this] show ?thesis by simp
qed

lemma shortest_int:
  assumes "0 < n" and "n < 10 ^ 15" and "10 ^ (e - 1) \<le> n" and "0 < e"
  shows "1 \<le> k \<Longrightarrow> k \<le> e \<Longrightarrow> e \<le> k + fuel \<Longrightarrow>
    \<exists>s k'. shortest fuel (of_int n) (int e) (int k) = (s, int k') \<and> 1 \<le> k' \<and> k' \<le> e \<and> s * 10 ^ (e - k') = n"
proof (induction fuel arbitrary: k)
  case 0
  then have "k = e" by simp
  then show ?case by (auto simp: pow10_def intro!: exI [of _ e]) (use assms(4) in simp)
next
  case (Suc fuel)
  let ?s = "rne (of_int n / pow10 (int e - int k))"
  have pow: "pow10 (int e - int k) = of_int (10 ^ (e - k))"
    using Suc.prems(2) by (simp add: pow10_def nat_diff_distrib)
  have "(10 :: int) ^ (e - k) \<le> 10 ^ (e - 1)" using Suc.prems(1) by (intro power_increasing) auto
  then have "10 ^ (e - k) \<le> n" using assms(3) by (rule order_trans)
  then have exact: "rd64 (of_int ?s * pow10 (int e - int k)) = of_int (?s * 10 ^ (e - k))"
    unfolding pow using assms by (intro rounded_multiple) auto
  show ?case
  proof (cases "?s * 10 ^ (e - k) = n")
    case True
    then have "shortest (Suc fuel) (of_int n) (int e) (int k) = (?s, int k)"
      using exact by (simp only: shortest.simps Let_def if_True simp_thms)
    then show ?thesis using True Suc.prems(1,2) by blast
  next
    case False
    then have ne: "rd64 (of_int ?s * pow10 (int e - int k)) \<noteq> of_int n"
      unfolding exact by (simp only: of_int_eq_iff simp_thms)
    have "k \<noteq> e"
    proof
      assume "k = e"
      then have "?s = n" by (simp add: pow10_def)
      then show False using False \<open>k = e\<close> by simp
    qed
    then have "\<exists>s k'. shortest fuel (of_int n) (int e) (int (Suc k)) = (s, int k') \<and> 1 \<le> k' \<and> k' \<le> e \<and> s * 10 ^ (e - k') = n"
      using Suc.prems by (intro Suc.IH) auto
    moreover have "shortest (Suc fuel) (of_int n) (int e) (int k) = shortest fuel (of_int n) (int e) (int (Suc k))"
      using ne by (simp add: Let_def add.commute)
    ultimately show ?thesis by simp
  qed
qed

lemma show_pos_int:
  assumes "0 < n" and "n < 10 ^ 15"
  shows "show_pos (of_int n) = show_nat n"
proof -
  define e where "e = length (show_nat n)"
  have e: "10 ^ (e - 1) \<le> n" "n < 10 ^ e" "0 < e"
    using show_nat_length [OF assms(1)] show_nat_digits [of n] assms(1) by (auto simp: e_def)
  have "(10 :: int) ^ (e - 1) < 10 ^ 15" using e(1) assms(2) by linarith
  then have e15: "e \<le> 15" using power_less_imp_less_exp [of "10 :: int" "e - 1" 15] by simp
  have "10 ^ e = 10 * (10 :: int) ^ (e - 1)" using e(3) by (cases e) auto
  then have "(of_int (10 ^ e) :: rat) \<le> of_int (10 * n)" using e(1) by (simp only: of_int_le_iff)
  moreover have "(of_int n :: rat) < of_int (10 ^ e)" using e(2) by (simp only: of_int_less_iff)
  ultimately have exp: "dec_exp 400 (of_int n) = int e" using e15 by (intro dec_exp_spec) auto
  obtain s k where s: "shortest 16 (of_int n) (int e) (int 1) = (s, int k)" "1 \<le> k" "k \<le> e" "s * 10 ^ (e - k) = n"
    using shortest_int [OF assms e(1) e(3), of 1 16] e(3) e15 by auto
  have "0 < s" using s(4) assms(1) by (metis zero_less_mult_pos2 zero_less_numeral zero_less_power)
  then have digits: "show_nat s @ replicate (e - k) (CHR ''0'') = show_nat n"
    using show_nat_zeros [of s "e - k"] s(4) by simp
  have "s \<noteq> 10 ^ nat (int k)"
  proof
    assume "s = 10 ^ nat (int k)"
    then have "n = 10 ^ (k + (e - k))" using s(4) by (simp add: power_add)
    then show False using e(2) s(3) by simp
  qed
  then show ?thesis using exp s digits e15 by (simp add: show_pos_def Let_def nat_diff_distrib)
qed

lemma num_to_string_int:
  assumes "\<bar>n\<bar> < 10 ^ 15"
  shows "num_to_string (Fin (of_int n)) = show_int n"
proof (cases n "0 :: int" rule: linorder_cases)
  case less
  then have "show_pos (of_int (- n)) = show_nat (- n)" using assms by (intro show_pos_int) auto
  then show ?thesis using less by (simp add: show_int_def)
next
  case equal
  then show ?thesis by (simp add: show_int_def show_nat.simps digit_char_0)
next
  case greater
  then have "show_pos (of_int n) = show_nat n" using assms by (intro show_pos_int) auto
  then show ?thesis using greater by (simp add: show_int_def)
qed

end
