(* ===== verification/Js_Roundtrip_Value.thy ===== *)
theory Js_Roundtrip_Value
  imports Js_Roundtrip_Num
begin

text \<open>
  \<open>JSON.parse(JSON.stringify(v))\<close> for the values the program keeps in storage: strings, booleans,
  \<open>null\<close>, integers below $10^{15}$, arrays and objects of these.  What comes back is \<open>strip v\<close>:
  the value without its undefined members.
\<close>

section \<open>Values that survive\<close>

text \<open>The property order of an object: index keys first, ascending; no key twice.\<close>

definition key_ordered :: "(string \<times> 'v) list \<Rightarrow> bool" where
  "key_ordered ps \<longleftrightarrow> distinct (map fst ps) \<and> sorted_wrt (\<lambda>p q. \<not> key_before (fst q) (fst p)) ps"

fun storable :: "jsval \<Rightarrow> bool" where
  "storable Undef = True"
| "storable Null = True"
| "storable (Bool b) = True"
| "storable (Num x) = (case x of Fin r \<Rightarrow> of_int \<lfloor>r\<rfloor> = r \<and> \<bar>\<lfloor>r\<rfloor>\<bar> < 10 ^ 15 | _ \<Rightarrow> False)"
| "storable (Str s) = True"
| "storable (Arr xs) = (\<forall>x \<in> set xs. storable x)"
| "storable (Obj ps) = ((\<forall>p \<in> set ps. storable (snd p)) \<and> key_ordered ps)"

fun strip :: "jsval \<Rightarrow> jsval" where
  "strip (Arr xs) = Arr (map (\<lambda>x. if x = Undef then Null else strip x) xs)"
| "strip (Obj ps) = Obj (map (\<lambda>(k, v). (k, strip v)) (filter (\<lambda>p. snd p \<noteq> Undef) ps))"
| "strip v = v"

lemma strip_Undef [simp]: "strip v = Undef \<longleftrightarrow> v = Undef"
  by (cases v) auto

lemma own_strip: "own (map (\<lambda>(k, v). (k, strip v)) (filter (\<lambda>p. snd p \<noteq> Undef) ps)) k =
    (if distinct (map fst ps) then strip (own ps k) else own (map (\<lambda>(k, v). (k, strip v)) (filter (\<lambda>p. snd p \<noteq> Undef) ps)) k)"
proof (induction ps)
  case (Cons p ps)
  obtain j v where p: "p = (j, v)" by (cases p)
  have none: "own (map (\<lambda>(k, v). (k, strip v)) (filter (\<lambda>p. snd p \<noteq> Undef) ps)) j = Undef"
    if "j \<notin> fst ` set ps"
  proof -
    have "map_of (map (\<lambda>(k, v). (k, strip v)) (filter (\<lambda>p. snd p \<noteq> Undef) ps)) j = None"
      using that by (auto simp: map_of_eq_None_iff image_iff)
    then show ?thesis by (simp add: own_def)
  qed
  show ?case using Cons none by (auto simp: p)
qed simp

section \<open>Numbers in JSON\<close>

text \<open>What may follow a value: the end, a comma or a closing bracket.\<close>

definition ends :: "string \<Rightarrow> bool" where
  "ends s \<longleftrightarrow> s = [] \<or> hd s \<in> {CHR '','', CHR '']'', CHR ''}''}"

lemma ends_simps [simp]: "ends []" "ends (CHR '','' # s)" "ends (CHR '']'' # s)" "ends (CHR ''}'' # s)"
  by (simp_all add: ends_def)

lemma ends_no_number:
  assumes "ends rest"
  shows "takeWhile is_digit rest = []" "dropWhile is_digit rest = rest" "rest = [] \<or> hd rest \<notin> {CHR ''.'', CHR ''e'', CHR ''E''}"
  using assms by (cases rest; auto simp: ends_def is_digit_def char_code_def)+

lemma digits_split:
  assumes "\<forall>c \<in> set ds. is_digit c" and "ends rest"
  shows "takeWhile is_digit (ds @ rest) = ds" "dropWhile is_digit (ds @ rest) = rest"
  using assms ends_no_number [OF assms(2)] by (simp_all add: takeWhile_append dropWhile_append)

lemma parse_unsigned_digits:
  assumes "\<forall>c \<in> set ds. is_digit c" and "ds \<noteq> []" and "ends rest"
  shows "parse_unsigned (ds @ rest) = Some (rnd (of_int (digits_val ds)), rest)"
proof -
  have "take 8 (ds @ rest) \<noteq> ''Infinity''" using assms(1,2) digit_not(3) by (cases ds) auto
  then show ?thesis using digits_split [OF assms(1,3)] ends_no_number(3) [OF assms(3)] assms(2)
    by (auto simp: parse_unsigned_def Let_def pow10_def)
qed

lemma show_nat_hd: "0 < n \<Longrightarrow> hd (show_nat n) \<noteq> CHR ''0''"
proof (induction n rule: show_nat.induct)
  case (1 n)
  show ?case
  proof (cases "n < 10")
    case True
    then have "char_code (digit_char n) \<noteq> char_code (CHR ''0'')"
      using 1(2) digit_char_facts(2) [of n] by (simp add: char_code_def)
    then show ?thesis using True by (auto simp: show_nat.simps [of n])
  next
    case False
    then show ?thesis using 1 show_nat_digits [of "n div 10"] by (auto simp: show_nat.simps [of n])
  qed
qed

lemma json_number_int:
  assumes "\<bar>n\<bar> < 10 ^ 15" and "ends rest"
  shows "json_number (show_int n @ rest) = Some (Fin (of_int n), rest)"
proof -
  have digits: "\<forall>c \<in> set (show_nat m). is_digit c" "show_nat m \<noteq> []" "digits_val (show_nat m) = m" if "0 \<le> m" for m
    using show_nat_digits [OF that] digits_val_show_nat [OF that] by auto
  have lead: "\<not> (hd (show_nat m) = CHR ''0'' \<and> length (show_nat m) \<noteq> 1)" if "0 \<le> m" for m
    using show_nat_hd [of m] that by (cases "m = 0") (auto simp: show_nat.simps [of 0])
  have dot: "rest = [] \<or> hd rest \<noteq> CHR ''.''" using ends_no_number(3) [OF assms(2)] by auto
  have round: "rnd (of_int m) = Fin (of_int m)" if "\<bar>m\<bar> < 10 ^ 15" for m using that by (intro rnd_of_int) auto
  show ?thesis
  proof (cases "n < 0")
    case True
    then have m: "0 \<le> - n" "\<bar>- n\<bar> < 10 ^ 15" using assms(1) by auto
    note d = digits [OF m(1)]
    have "parse_unsigned (show_nat (- n) @ rest) = Some (Fin (of_int (- n)), rest)"
      using parse_unsigned_digits [OF d(1,2) assms(2)] d(3) round [OF m(2)] by simp
    then show ?thesis using True digits_split [OF d(1) assms(2)] d(2) lead [OF m(1)] dot
      by (auto simp: show_int_def json_number_def Let_def parse_signed_def)
  next
    case False
    then have m: "0 \<le> n" by simp
    note d = digits [OF m]
    have p: "parse_unsigned (show_nat n @ rest) = Some (Fin (of_int n), rest)"
      using parse_unsigned_digits [OF d(1,2) assms(2)] d(3) round [OF assms(1)] by simp
    obtain c cs where c: "show_nat n = c # cs" using d(2) by (cases "show_nat n") auto
    then have "c \<noteq> CHR ''-''" "c \<noteq> CHR ''+''" using d(1) digit_not(1,2) by auto
    then show ?thesis using False digits_split [OF d(1) assms(2)] lead [OF m] dot p
      by (auto simp: show_int_def json_number_def Let_def parse_signed_def c)
  qed
qed

section \<open>Values\<close>

definition visible :: "char \<Rightarrow> bool" where
  "visible c \<longleftrightarrow> char_code c \<notin> {9, 10, 13, 32} \<and> c \<notin> {CHR '']'', CHR ''}''}"

lemma skip_ws_visible [simp]: "visible c \<Longrightarrow> skip_ws (c # cs) = c # cs"
  by (simp add: skip_ws_def visible_def)

lemma skip_ws_marks [simp]:
  "skip_ws (CHR '','' # s) = CHR '','' # s" "skip_ws (CHR '']'' # s) = CHR '']'' # s"
  "skip_ws (CHR ''}'' # s) = CHR ''}'' # s" "skip_ws (CHR '':'' # s) = CHR '':'' # s"
  "skip_ws (CHR ''\"'' # s) = CHR ''\"'' # s" "skip_ws (CHR ''{'' # s) = CHR ''{'' # s"
  "skip_ws (CHR ''['' # s) = CHR ''['' # s"
  by (simp_all add: skip_ws_def char_code_def)

lemma show_int_start:
  "\<exists>c cs. show_int n = c # cs \<and> (is_digit c \<or> c = CHR ''-'')"
proof (cases "n < 0")
  case False
  then obtain c cs where "show_nat n = c # cs" "is_digit c" using show_nat_digits [of n] by (cases "show_nat n") auto
  then show ?thesis using False by (simp add: show_int_def)
qed (simp add: show_int_def)

definition parses :: "jsval \<Rightarrow> jsval \<Rightarrow> bool" where
  "parses v w \<longleftrightarrow>
     (\<forall>fuel rest. length (json_stringify v) \<le> fuel \<longrightarrow> ends rest \<longrightarrow>
        json_value fuel (json_stringify v @ rest) = Some (w, rest))
     \<and> json_stringify v \<noteq> [] \<and> visible (hd (json_stringify v))"

lemma parses_number:
  assumes "\<bar>n\<bar> < 10 ^ 15"
  shows "parses (Num (Fin (of_int n))) (Num (Fin (of_int n)))"
proof -
  obtain c cs where c: "show_int n = c # cs" "is_digit c \<or> c = CHR ''-''" using show_int_start by blast
  have v: "visible c" using c(2) by (auto simp: visible_def is_digit_def char_code_def)
  have ne: "c \<noteq> CHR ''{''" "c \<noteq> CHR ''[''" "c \<noteq> CHR ''\"''" "c \<noteq> CHR ''n''" "c \<noteq> CHR ''t''" "c \<noteq> CHR ''f''"
    using c(2) by (auto simp: is_digit_def char_code_def)
  have "json_value (Suc f) (show_int n @ rest) = Some (Num (Fin (of_int n)), rest)" if "ends rest" for f rest
    using json_number_int [OF assms that] v ne by (simp add: c(1))
  then have "json_value fuel (show_int n @ rest) = Some (Num (Fin (of_int n)), rest)"
    if "length (show_int n) \<le> fuel" "ends rest" for fuel rest
    using that c(1) by (cases fuel) auto
  then show ?thesis using num_to_string_int [OF assms] v by (simp add: parses_def c(1))
qed

lemma parses_string: "parses (Str s) (Str s)"
proof -
  have "json_value (Suc f) (json_quote s @ rest) = Some (Str s, rest)" for f rest
    using json_string_quote [of s rest] by (simp add: json_quote_split)
  then have "json_value fuel (json_quote s @ rest) = Some (Str s, rest)" if "length (json_quote s) \<le> fuel" for fuel rest
    using that by (cases fuel) (auto simp: json_quote_def)
  then show ?thesis by (simp add: parses_def) (simp add: json_quote_def visible_def char_code_def)
qed

lemma parses_word:
  "parses Undef Null" "parses Null Null" "parses (Bool b) (Bool b)"
proof -
  have "json_value fuel (''null'' @ rest) = Some (Null, rest)" if "4 \<le> fuel" for fuel rest
    using that by (cases fuel) (auto simp: visible_def char_code_def)
  then show "parses Undef Null" "parses Null Null"
    by (simp_all add: parses_def visible_def char_code_def)
  have "json_value fuel (''true'' @ rest) = Some (Bool True, rest)" "json_value fuel (''false'' @ rest) = Some (Bool False, rest)"
    if "4 \<le> fuel" for fuel rest
    using that by (cases fuel; auto simp: visible_def char_code_def)+
  then show "parses (Bool b) (Bool b)"
    by (cases b) (simp_all add: parses_def visible_def char_code_def)
qed

lemma put_last: "k \<notin> fst ` set acc \<Longrightarrow> \<forall>p \<in> set acc. \<not> key_before k (fst p) \<Longrightarrow> put k v acc = acc @ [(k, v)]"
  by (simp add: put_def takeWhile_eq_all_conv [THEN iffD2] dropWhile_eq_Nil_conv [THEN iffD2])

lemma fold_put_ordered: "key_ordered (acc @ ps) \<Longrightarrow> fold (\<lambda>(k, v). put k v) ps acc = acc @ ps"
proof (induction ps arbitrary: acc)
  case (Cons p ps)
  obtain k v where p: "p = (k, v)" by (cases p)
  have "put k v acc = acc @ [(k, v)]"
    using Cons.prems p by (intro put_last) (auto simp: key_ordered_def sorted_wrt_append)
  then show ?case using Cons p by simp
qed simp

lemma key_ordered_filter: "key_ordered ps \<Longrightarrow> key_ordered (filter P ps)"
  by (simp add: key_ordered_def sorted_wrt_filter distinct_map_filter)

lemma key_ordered_values: "key_ordered ps \<Longrightarrow> key_ordered (map (\<lambda>(k, v). (k, f v)) ps)"
  by (simp add: key_ordered_def sorted_wrt_map case_prod_unfold comp_def)

section \<open>Arrays and objects\<close>

lemma parsesD:
  "parses v w \<Longrightarrow> length (json_stringify v) \<le> fuel \<Longrightarrow> ends rest \<Longrightarrow>
     json_value fuel (json_stringify v @ rest) = Some (w, rest)"
  by (simp add: parses_def)

lemma parses_elems:
  assumes "\<forall>x \<in> set xs. parses x (w x)" and "xs \<noteq> []"
    and "length (join_with '','' (map json_stringify xs)) < fuel"
  shows "json_elems fuel (join_with '','' (map json_stringify xs) @ CHR '']'' # rest) = Some (map w xs, rest)"
  using assms
proof (induction xs arbitrary: fuel)
  case (Cons x xs)
  obtain f where f: "fuel = Suc f" using Cons.prems(3) by (cases fuel) auto
  have x: "parses x (w x)" using Cons.prems(1) by simp
  show ?case
  proof (cases xs)
    case Nil
    then show ?thesis using parsesD [OF x, of f] Cons.prems(3) f by simp
  next
    case (Cons y ys)
    let ?text = "join_with '','' (map json_stringify xs)"
    have join: "join_with '','' (json_stringify x # map json_stringify xs) = json_stringify x @ CHR '','' # ?text"
      using Cons by simp
    have "json_elems f (?text @ CHR '']'' # rest) = Some (map w xs, rest)"
      using Cons.IH [of f] Cons.prems Cons f join by simp
    moreover have "json_value f (json_stringify x @ CHR '','' # ?text @ CHR '']'' # rest)
        = Some (w x, CHR '','' # ?text @ CHR '']'' # rest)"
      using Cons.prems(3) f join by (intro parsesD [OF x]) auto
    ultimately show ?thesis by (simp add: f join)
  qed
qed simp

definition member_text :: "string \<times> jsval \<Rightarrow> string" where
  "member_text p = json_quote (fst p) @ '':'' @ json_stringify (snd p)"

lemma json_members_step:
  assumes "parses (snd p) v" and "length (member_text p) \<le> f" and "e \<in> {CHR '','', CHR ''}''}"
  shows "json_members (Suc f) acc (member_text p @ e # rest) =
     (if e = CHR ''}'' then Some (put (fst p) v acc, rest) else json_members f (put (fst p) v acc) rest)"
proof -
  have val: "json_value f (json_stringify (snd p) @ e # rest) = Some (v, e # rest)"
    using assms by (intro parsesD [OF assms(1)]) (auto simp: member_text_def)
  have key: "json_string (concat (map json_char (fst p)) @ CHR ''\"'' # CHR '':'' # json_stringify (snd p) @ e # rest)
      = Some (fst p, CHR '':'' # json_stringify (snd p) @ e # rest)"
    by (rule json_string_quote)
  have whole: "member_text p @ e # rest =
      CHR ''\"'' # concat (map json_char (fst p)) @ CHR ''\"'' # CHR '':'' # json_stringify (snd p) @ e # rest"
    by (simp add: member_text_def json_quote_def)
  have "skip_ws (e # rest) = e # rest" using assms(3) by auto
  then show ?thesis using assms(3) by (auto simp: whole key val)
qed

lemma parses_members:
  assumes "\<forall>p \<in> set qs. parses (snd p) (w (snd p))" and "qs \<noteq> []"
    and "length (join_with '','' (map member_text qs)) < fuel"
  shows "json_members fuel acc (join_with '','' (map member_text qs) @ CHR ''}'' # rest)
       = Some (fold (\<lambda>(k, v). put k v) (map (\<lambda>(k, v). (k, w v)) qs) acc, rest)"
  using assms
proof (induction qs arbitrary: fuel acc)
  case (Cons p qs)
  obtain f where f: "fuel = Suc f" using Cons.prems(3) by (cases fuel) auto
  obtain k v where p: "p = (k, v)" by (cases p)
  have v: "parses (snd p) (w v)" using Cons.prems(1) p by simp
  show ?case
  proof (cases qs)
    case Nil
    then show ?thesis using json_members_step [OF v, of f "CHR ''}''" acc rest] Cons.prems(3) f p
      by (simp del: json_members.simps)
  next
    case (Cons q qs')
    let ?text = "join_with '','' (map member_text qs)"
    have join: "join_with '','' (member_text p # map member_text qs) = member_text p @ CHR '','' # ?text" using Cons by simp
    have l: "length (member_text p) \<le> f" using Cons.prems(3) f join by simp
    have "json_members f (put k (w v) acc) (?text @ CHR ''}'' # rest)
        = Some (fold (\<lambda>(k, v). put k v) (map (\<lambda>(k, v). (k, w v)) qs) (put k (w v) acc), rest)"
      using Cons.IH [of f] Cons.prems Cons f join by simp
    then show ?thesis using json_members_step [OF v l, of "CHR '',''" acc "?text @ CHR ''}'' # rest"]
      by (simp add: f join [unfolded p] p del: json_members.simps)
  qed
qed simp

lemma text_of_object:
  "json_stringify (Obj ps) = CHR ''{'' # join_with '','' (map member_text (filter (\<lambda>p. snd p \<noteq> Undef) ps)) @ ''}''"
proof -
  have "concat (map (\<lambda>(k, v). if v = Undef then [] else [json_quote k @ '':'' @ json_stringify v]) ps)
      = map member_text (filter (\<lambda>p. snd p \<noteq> Undef) ps)"
    by (induction ps) (auto simp: member_text_def)
  then show ?thesis by simp
qed

lemma join_start: "ss \<noteq> [] \<Longrightarrow> hd ss \<noteq> [] \<Longrightarrow> \<exists>t. join_with sep ss = hd (hd ss) # t"
  by (cases ss rule: list.exhaust; cases "tl ss") (auto simp: neq_Nil_conv)

theorem storable_parses: "storable v \<Longrightarrow> parses v (if v = Undef then Null else strip v)"
proof (induction v rule: json_stringify.induct)
  case (4 x)
  then obtain r where r: "x = Fin r" "of_int \<lfloor>r\<rfloor> = r" "\<bar>\<lfloor>r\<rfloor>\<bar> < 10 ^ 15" by (auto split: jsnum.splits)
  from parses_number [OF r(3)] show ?case unfolding r(1,2) by simp
next
  case (6 xs)
  show ?case
  proof (cases "xs = []")
    case True
    have "json_value (Suc f) (''[]'' @ rest) = Some (Arr [], rest)" for f rest
      by simp
    then have "json_value fuel (''[]'' @ rest) = Some (Arr [], rest)" if "2 \<le> fuel" for fuel rest
      using that by (cases fuel) auto
    then show ?thesis using True by (simp add: parses_def visible_def char_code_def)
  next
    case False
    let ?w = "\<lambda>x. if x = Undef then Null else strip x"
    let ?text = "join_with '','' (map json_stringify xs)"
    have xs: "\<forall>x \<in> set xs. parses x (?w x)" using 6 by auto
    then have "hd (map json_stringify xs) \<noteq> []" "visible (hd (hd (map json_stringify xs)))"
      using False by (cases xs; simp add: parses_def)+
    then obtain c t where t: "?text = c # t" "visible c" using join_start [of "map json_stringify xs" "'',''"] False by auto
    have "json_value (Suc f) (CHR ''['' # ?text @ CHR '']'' # rest) = Some (Arr (map ?w xs), rest)"
      if "length ?text < f" for f rest
      using parses_elems [OF xs False that, of rest] t by (auto simp: visible_def)
    then have "json_value fuel (CHR ''['' # ?text @ CHR '']'' # rest) = Some (Arr (map ?w xs), rest)"
      if "length ?text + 2 \<le> fuel" for fuel rest
      using that by (cases fuel) auto
    then show ?thesis by (simp add: parses_def visible_def char_code_def)
  qed
next
  case (7 ps)
  let ?qs = "filter (\<lambda>p. snd p \<noteq> Undef) ps"
  let ?text = "join_with '','' (map member_text ?qs)"
  have qs: "\<forall>p \<in> set ?qs. parses (snd p) (strip (snd p))"
  proof
    fix p assume "p \<in> set ?qs"
    moreover obtain k v where "p = (k, v)" by (cases p)
    ultimately show "parses (snd p) (strip (snd p))" using 7 by (auto dest: bspec)
  qed
  have ordered: "key_ordered (map (\<lambda>(k, v). (k, strip v)) ?qs)"
    using 7 by (intro key_ordered_values key_ordered_filter) auto
  show ?case
  proof (cases "?qs = []")
    case True
    have "json_value (Suc f) (''{}'' @ rest) = Some (Obj [], rest)" for f rest
      by simp
    then have "json_value fuel (''{}'' @ rest) = Some (Obj [], rest)" if "2 \<le> fuel" for fuel rest
      using that by (cases fuel) auto
    then show ?thesis using True by (simp only: parses_def text_of_object) (simp add: visible_def char_code_def)
  next
    case False
    have "hd (map member_text ?qs) = CHR ''\"'' # tl (member_text (hd ?qs))"
      using False by (cases ?qs) (auto simp: member_text_def json_quote_def)
    then obtain t where t: "?text = CHR ''\"'' # t" using join_start [of "map member_text ?qs" "'',''"] False by auto
    have "json_value (Suc f) (CHR ''{'' # ?text @ CHR ''}'' # rest) = Some (strip (Obj ps), rest)"
      if "length ?text < f" for f rest
      using parses_members [OF qs False that, of "[]" rest] fold_put_ordered [of "[]"] ordered t
      by simp
    then have "json_value fuel (CHR ''{'' # ?text @ CHR ''}'' # rest) = Some (strip (Obj ps), rest)"
      if "length ?text + 2 \<le> fuel" for fuel rest
      using that by (cases fuel) auto
    then show ?thesis by (simp only: parses_def text_of_object) (simp add: visible_def char_code_def)
  qed
qed (use parses_word parses_string in auto)

corollary json_roundtrip:
  assumes "storable v" and "v \<noteq> Undef"
  shows "json_parse (json_stringify v) = Inr (strip v)"
  using parsesD [OF storable_parses [OF assms(1)], of "Suc (length (json_stringify v))" "[]"] assms(2)
  by (simp add: json_parse_def skip_ws_def)

end
