(* ===== verification/Table_Settings.thy ===== *)
theory Table_Settings
  imports Js_Http Js_Json Js_Roundtrip_Value
begin

text \<open>
  The settings of the option-chain table: the contexts of the columns and of the table
  (src/context/ColumnConfigContext.jsx, TableSettingsContext.jsx), the dialogs that change them
  (src/components/features/options/ColumnSelector.jsx, TableSettingsModal.jsx), and the columns that the header
  (TableHeader.jsx) and the rows (StrikeRow.jsx) lay out from them.  A provider's state is the settings and
  \<open>localStorage\<close>, which takes every item.
\<close>

section \<open>Columns\<close>

record column =
  cl_id :: string
  cl_label :: string
  cl_side :: string
  cl_category :: string
  cl_defaultVisible :: bool
  cl_width :: string

definition mk_column :: "string \<Rightarrow> string \<Rightarrow> string \<Rightarrow> string \<Rightarrow> bool \<Rightarrow> string \<Rightarrow> column" where
  "mk_column i label side category shown width =
     \<lparr>cl_id = i, cl_label = label, cl_side = side, cl_category = category, cl_defaultVisible = shown, cl_width = width\<rparr>"

definition AVAILABLE_COLUMNS :: "column list" where
  "AVAILABLE_COLUMNS =
     [
      mk_column ''ce_ltp'' ''LTP'' ''ce'' ''price'' True ''w-20'',
      mk_column ''ce_chng'' ''Chg'' ''ce'' ''price'' False ''w-16'',
      mk_column ''ce_volume'' ''Volume'' ''ce'' ''volume'' True ''w-20'',
      mk_column ''ce_oi'' ''OI'' ''ce'' ''oi'' True ''w-24'',
      mk_column ''ce_oichng'' ''OI Chg'' ''ce'' ''oi'' True ''w-20'',
      mk_column ''ce_iv'' ''IV'' ''ce'' ''greeks'' True ''w-16'',
      mk_column ''ce_delta'' ''Delta'' ''ce'' ''greeks'' True ''w-16'',
      mk_column ''ce_gamma'' ''Gamma'' ''ce'' ''greeks'' True ''w-16'',
      mk_column ''ce_theta'' ''Theta'' ''ce'' ''greeks'' False ''w-16'',
      mk_column ''ce_vega'' ''Vega'' ''ce'' ''greeks'' True ''w-16'',
      mk_column ''ce_buildup'' ''Buildup'' ''ce'' ''analysis'' True ''w-16'',
      mk_column ''ce_bid'' ''Bid'' ''ce'' ''depth'' False ''w-16'',
      mk_column ''ce_ask'' ''Ask'' ''ce'' ''depth'' False ''w-16'',
      mk_column ''ce_pcr'' ''PCR'' ''ce'' ''analysis'' False ''w-16'',
      mk_column ''pe_ltp'' ''LTP'' ''pe'' ''price'' True ''w-20'',
      mk_column ''pe_chng'' ''Chg'' ''pe'' ''price'' False ''w-16'',
      mk_column ''pe_volume'' ''Volume'' ''pe'' ''volume'' True ''w-20'',
      mk_column ''pe_oi'' ''OI'' ''pe'' ''oi'' True ''w-24'',
      mk_column ''pe_oichng'' ''OI Chg'' ''pe'' ''oi'' True ''w-20'',
      mk_column ''pe_iv'' ''IV'' ''pe'' ''greeks'' True ''w-16'',
      mk_column ''pe_delta'' ''Delta'' ''pe'' ''greeks'' True ''w-16'',
      mk_column ''pe_gamma'' ''Gamma'' ''pe'' ''greeks'' True ''w-16'',
      mk_column ''pe_theta'' ''Theta'' ''pe'' ''greeks'' False ''w-16'',
      mk_column ''pe_vega'' ''Vega'' ''pe'' ''greeks'' True ''w-16'',
      mk_column ''pe_buildup'' ''Buildup'' ''pe'' ''analysis'' True ''w-16'',
      mk_column ''pe_bid'' ''Bid'' ''pe'' ''depth'' False ''w-16'',
      mk_column ''pe_ask'' ''Ask'' ''pe'' ''depth'' False ''w-16'',
      mk_column ''pe_pcr'' ''PCR'' ''pe'' ''analysis'' False ''w-16'',
      mk_column ''strike_reversal'' ''Reversal'' ''strike'' ''signals'' False ''w-20'',
      mk_column ''strike_signals'' ''Signals'' ''strike'' ''signals'' False ''w-24'']"

definition COLUMN_CATEGORIES :: "(string \<times> string \<times> string) list" where
  "COLUMN_CATEGORIES =
     [(''oi'', ''Open Interest'', ''bg-blue-500''), (''volume'', ''Volume'', ''bg-purple-500''), (''price'', ''Price'', ''bg-green-500''), (''greeks'', ''Greeks'', ''bg-orange-500''), (''depth'', ''Market Depth'', ''bg-cyan-500''), (''analysis'', ''Analysis'', ''bg-pink-500''), (''signals'', ''Signals'', ''bg-yellow-500'')]"

definition columns_key :: string where "columns_key = ''option_chain_columns''"

definition DEFAULT_CE_ORDER :: "string list" where
  "DEFAULT_CE_ORDER = [''ce_iv'', ''ce_delta'', ''ce_oichng'', ''ce_oi'', ''ce_volume'', ''ce_ltp'']"

definition DEFAULT_PE_ORDER :: "string list" where
  "DEFAULT_PE_ORDER = [''pe_ltp'', ''pe_volume'', ''pe_oi'', ''pe_oichng'', ''pe_delta'', ''pe_iv'']"

definition defaultVisibility :: jsval where
  "defaultVisibility = Obj (map (\<lambda>c. (cl_id c, Bool (cl_defaultVisible c))) AVAILABLE_COLUMNS)"

definition default_columns :: jsval where
  "default_columns = Obj [(''visibility'', defaultVisibility), (''ceOrder'', Arr (map Str DEFAULT_CE_ORDER)),
                          (''peOrder'', Arr (map Str DEFAULT_PE_ORDER))]"

record provider =
  pv_state :: jsval
  pv_local :: "(string \<times> string) list"

text \<open>What a provider starts with: the stored text where it is there and can be read.\<close>

definition stored_value :: "string \<Rightarrow> (string \<times> string) list \<Rightarrow> jsval option" where
  "stored_value key local =
     (case map_of local key of
        None \<Rightarrow> None
      | Some t \<Rightarrow> if t = [] then None else (case json_parse t of Inl _ \<Rightarrow> None | Inr v \<Rightarrow> Some v))"

definition load_columns :: "(string \<times> string) list \<Rightarrow> provider" where
  "load_columns local =
     \<lparr>pv_state = (case stored_value columns_key local of None \<Rightarrow> default_columns | Some v \<Rightarrow> v), pv_local = local\<rparr>"

definition save_state :: "string \<Rightarrow> jsval \<Rightarrow> provider \<Rightarrow> provider" where
  "save_state key v p = \<lparr>pv_state = v, pv_local = put key (json_stringify v) (pv_local p)\<rparr>"

definition toggleColumn :: "string \<Rightarrow> provider \<Rightarrow> provider result" where
  "toggleColumn columnId p =
     res_bind (get (pv_state p) ''visibility'') (\<lambda>vis. res_bind (get vis columnId) (\<lambda>old.
       Inr (save_state columns_key
              (spread (pv_state p) [(''visibility'', spread vis [(columnId, Bool (\<not> truthy old))])]) p)))"

definition setColumnsVisibility :: "(string \<times> jsval) list \<Rightarrow> provider \<Rightarrow> provider result" where
  "setColumnsVisibility updates p =
     res_bind (get (pv_state p) ''visibility'') (\<lambda>vis.
       Inr (save_state columns_key (spread (pv_state p) [(''visibility'', spread vis updates)]) p))"

definition resetToDefaults :: "provider \<Rightarrow> provider" where
  "resetToDefaults p = save_state columns_key default_columns p"

definition isColumnVisible :: "provider \<Rightarrow> string \<Rightarrow> jsval result" where
  "isColumnVisible p columnId =
     res_bind (get (pv_state p) ''visibility'') (\<lambda>vis. res_bind (get vis columnId) (\<lambda>v.
       Inr (if nullish v then Bool False else v)))"

text \<open>What a condition on \<open>isColumnVisible\<close> tests, where the state can be read.\<close>

definition shown :: "provider \<Rightarrow> string \<Rightarrow> bool" where
  "shown p columnId = (case isColumnVisible p columnId of Inl _ \<Rightarrow> False | Inr v \<Rightarrow> truthy v)"

definition visible_ids :: "provider \<Rightarrow> string list \<Rightarrow> string list result" where
  "visible_ids p order =
     res_bind (res_map (\<lambda>i. res_bind (get (pv_state p) ''visibility'') (\<lambda>vis. get vis i)) order) (\<lambda>vs.
       Inr (map fst (filter (\<lambda>x. truthy (snd x)) (zip order vs))))"

definition getVisibleColumns :: "provider \<Rightarrow> string \<Rightarrow> column list result" where
  "getVisibleColumns p side =
     res_bind (get (pv_state p) (if side = ''ce'' then ''ceOrder'' else ''peOrder'')) (\<lambda>order.
       case order of
         Arr ids \<Rightarrow> res_bind (visible_ids p (map js_to_string ids)) (\<lambda>visible.
           Inr (List.map_filter (\<lambda>i. find (\<lambda>c. cl_id c = i) AVAILABLE_COLUMNS) visible))
       | _ \<Rightarrow> Inl TypeError)"

section \<open>The presets of the selector and of the dialog\<close>

definition TRADING_PRESETS :: "(string \<times> string list) list" where
  "TRADING_PRESETS =
     [
      (''default'', [''ce_iv'', ''ce_delta'', ''ce_oichng'', ''ce_oi'', ''ce_volume'', ''ce_ltp'', ''pe_ltp'', ''pe_volume'', ''pe_oi'', ''pe_oichng'', ''pe_delta'', ''pe_iv'']),
      (''buyer'', [''ce_ltp'', ''ce_chng'', ''ce_iv'', ''ce_delta'', ''ce_theta'', ''ce_volume'', ''pe_volume'', ''pe_theta'', ''pe_delta'', ''pe_iv'', ''pe_chng'', ''pe_ltp'']),
      (''seller'', [''ce_oi'', ''ce_oichng'', ''ce_buildup'', ''ce_ltp'', ''ce_theta'', ''ce_bid'', ''ce_ask'', ''pe_ask'', ''pe_bid'', ''pe_theta'', ''pe_ltp'', ''pe_buildup'', ''pe_oichng'', ''pe_oi'']),
      (''bullish'', [''ce_ltp'', ''ce_chng'', ''ce_iv'', ''ce_delta'', ''ce_volume'', ''ce_oichng'', ''pe_oi'', ''pe_oichng'', ''pe_buildup'', ''pe_theta'', ''pe_ltp'']),
      (''bearish'', [''ce_oi'', ''ce_oichng'', ''ce_buildup'', ''ce_theta'', ''ce_ltp'', ''pe_ltp'', ''pe_chng'', ''pe_iv'', ''pe_delta'', ''pe_volume'', ''pe_oichng'']),
      (''scalper'', [''ce_ltp'', ''ce_chng'', ''ce_bid'', ''ce_ask'', ''ce_volume'', ''pe_volume'', ''pe_ask'', ''pe_bid'', ''pe_chng'', ''pe_ltp'']),
      (''greeks'', [''ce_iv'', ''ce_delta'', ''ce_gamma'', ''ce_theta'', ''ce_vega'', ''ce_ltp'', ''pe_ltp'', ''pe_vega'', ''pe_theta'', ''pe_gamma'', ''pe_delta'', ''pe_iv'']),
      (''oiAnalysis'', [''ce_oi'', ''ce_oichng'', ''ce_buildup'', ''ce_volume'', ''ce_ltp'', ''pe_ltp'', ''pe_volume'', ''pe_buildup'', ''pe_oichng'', ''pe_oi'']),
      (''compact'', [''ce_oi'', ''ce_ltp'', ''pe_ltp'', ''pe_oi''])]"

definition preset_updates :: "string list \<Rightarrow> (string \<times> jsval) list" where
  "preset_updates columns = map (\<lambda>c. (cl_id c, Bool (cl_id c \<in> set columns))) AVAILABLE_COLUMNS"

definition applyPreset :: "string \<Rightarrow> provider \<Rightarrow> provider result" where
  "applyPreset presetKey p =
     (case map_of TRADING_PRESETS presetKey of
        None \<Rightarrow> Inr p
      | Some columns \<Rightarrow> setColumnsVisibility (preset_updates columns) p)"

text \<open>The custom tab lists the columns under their categories; a group no column names is empty.\<close>

definition columnsByCategory :: "string \<Rightarrow> column list" where
  "columnsByCategory category = filter (\<lambda>c. cl_category c = category) AVAILABLE_COLUMNS"

text \<open>
  The actions among the fields of the context's value, each on its argument.  A component that takes a field the value
  does not have gets undefined; calling it throws.
\<close>

definition columnConfigValue :: "(string \<times> (jsval \<Rightarrow> provider \<Rightarrow> provider result)) list" where
  "columnConfigValue =
     [(''toggleColumn'', \<lambda>a. toggleColumn (js_to_string a)),
      (''setColumnsVisibility'', \<lambda>a. setColumnsVisibility (entries a)),
      (''resetToDefaults'', \<lambda>_ p. Inr (resetToDefaults p))]"

definition call_action :: "(string \<times> ('a \<Rightarrow> provider \<Rightarrow> provider result)) list \<Rightarrow> string \<Rightarrow> 'a \<Rightarrow> provider \<Rightarrow> provider result" where
  "call_action actions f a p = (case map_of actions f of None \<Rightarrow> Inl TypeError | Some g \<Rightarrow> g a p)"

definition COLUMN_GROUPS :: "(string \<times> string \<times> string list) list" where
  "COLUMN_GROUPS =
     [(''price'', ''Price Data'', [''ltp'', ''chng'', ''bid'', ''ask'']),
      (''oi'', ''Open Interest'', [''oi'', ''oichng'', ''buildup'']),
      (''greeks'', ''Greeks'', [''iv'', ''delta'', ''gamma'', ''theta'', ''vega'']),
      (''volume'', ''Volume'', [''volume''])]"

definition both_visible :: "provider \<Rightarrow> string \<Rightarrow> bool" where
  "both_visible p col \<longleftrightarrow> shown p (''ce_'' @ col) \<and> shown p (''pe_'' @ col)"

definition dialog_column :: "string \<Rightarrow> provider \<Rightarrow> provider result" where
  "dialog_column col p =
     res_bind (call_action columnConfigValue ''toggleColumn'' (Str (''ce_'' @ col)) p) (\<lambda>p1.
       call_action columnConfigValue ''toggleColumn'' (Str (''pe_'' @ col)) p1)"

definition dialog_preset :: "string \<Rightarrow> provider \<Rightarrow> provider result" where
  "dialog_preset key p = call_action columnConfigValue ''applyPreset'' (Str key) p"

section \<open>Table settings\<close>

definition table_key :: string where "table_key = ''option_chain_table_settings''"

definition DEFAULT_SETTINGS :: "(string \<times> jsval) list" where
  "DEFAULT_SETTINGS =
     [(''sortOrder'', Str ''desc''), (''highlightITM'', Bool True), (''compactMode'', Bool True), (''showStrikePanel'', Bool False),
      (''selectedStrike'', Null), (''strikesPerPage'', Num (Fin 21))]"

definition load_settings :: "(string \<times> string) list \<Rightarrow> provider" where
  "load_settings local =
     \<lparr>pv_state = (case stored_value table_key local of
                    None \<Rightarrow> Obj DEFAULT_SETTINGS | Some v \<Rightarrow> spread (Obj DEFAULT_SETTINGS) (entries v)), pv_local = local\<rparr>"

definition updateSetting :: "string \<Rightarrow> jsval \<Rightarrow> provider \<Rightarrow> provider" where
  "updateSetting key v p = save_state table_key (spread (pv_state p) [(key, v)]) p"

definition toggleSortOrder :: "provider \<Rightarrow> provider" where
  "toggleSortOrder p =
     updateSetting ''sortOrder'' (Str (if strict_eq (opt (pv_state p) ''sortOrder'') (Str ''asc'') then ''desc'' else ''asc'')) p"

definition toggleITMHighlight :: "provider \<Rightarrow> provider" where
  "toggleITMHighlight p = updateSetting ''highlightITM'' (Bool (\<not> truthy (opt (pv_state p) ''highlightITM''))) p"

definition toggleCompactMode :: "provider \<Rightarrow> provider" where
  "toggleCompactMode p = updateSetting ''compactMode'' (Bool (\<not> truthy (opt (pv_state p) ''compactMode''))) p"

definition selectStrike :: "jsval \<Rightarrow> provider \<Rightarrow> provider" where
  "selectStrike strike p =
     p\<lparr>pv_state := spread (pv_state p) [(''selectedStrike'', strike), (''showStrikePanel'', Bool (strike \<noteq> Null))]\<rparr>"

definition resetSettings :: "provider \<Rightarrow> provider" where
  "resetSettings p = save_state table_key (Obj DEFAULT_SETTINGS) p"

definition arg :: "jsval list \<Rightarrow> nat \<Rightarrow> jsval" where
  "arg xs i = (if i < length xs then xs ! i else Undef)"

definition tableSettingsValue :: "(string \<times> (jsval list \<Rightarrow> provider \<Rightarrow> provider result)) list" where
  "tableSettingsValue =
     [(''updateSetting'', \<lambda>a p. Inr (updateSetting (js_to_string (arg a 0)) (arg a 1) p)),
      (''toggleSortOrder'', \<lambda>_ p. Inr (toggleSortOrder p)),
      (''toggleITMHighlight'', \<lambda>_ p. Inr (toggleITMHighlight p)),
      (''toggleCompactMode'', \<lambda>_ p. Inr (toggleCompactMode p)),
      (''selectStrike'', \<lambda>a p. Inr (selectStrike (arg a 0) p)),
      (''resetSettings'', \<lambda>_ p. Inr (resetSettings p))]"

text \<open>The buttons beside the number of visible strikes; the stored number is a number.\<close>

definition dialog_strikes :: "jsnum \<Rightarrow> provider \<Rightarrow> provider result" where
  "dialog_strikes n p = call_action tableSettingsValue ''setStrikesPerPage'' [Num n] p"

definition strikes_up :: "provider \<Rightarrow> provider result" where
  "strikes_up p = dialog_strikes (jmin (N 51) (to_number (opt (pv_state p) ''strikesPerPage'') + N 2)) p"

definition strikes_down :: "provider \<Rightarrow> provider result" where
  "strikes_down p = dialog_strikes (jmax (N 11) (to_number (opt (pv_state p) ''strikesPerPage'') - N 2)) p"

datatype table_op =
    Update_Setting string jsval
  | Toggle_Sort_Order
  | Toggle_ITM
  | Toggle_Compact
  | Select_Strike jsval
  | Reset_Settings

fun table_step :: "table_op \<Rightarrow> provider \<Rightarrow> provider" where
  "table_step (Update_Setting k v) p = updateSetting k v p"
| "table_step Toggle_Sort_Order p = toggleSortOrder p"
| "table_step Toggle_ITM p = toggleITMHighlight p"
| "table_step Toggle_Compact p = toggleCompactMode p"
| "table_step (Select_Strike v) p = selectStrike v p"
| "table_step Reset_Settings p = resetSettings p"

section \<open>Header and rows\<close>

text \<open>The cells of the header, those of a row, and the columns the first line of the header counts for its span.\<close>

definition ce_header :: "(string \<Rightarrow> bool) \<Rightarrow> string list" where
  "ce_header vis =
     filter vis [''ce_iv'', ''ce_delta'', ''ce_gamma'', ''ce_theta'', ''ce_vega'', ''ce_oichng'', ''ce_oi'', ''ce_volume'', ''ce_buildup'', ''ce_ltp'']
     @ (if vis ''ce_chng'' \<and> \<not> vis ''ce_ltp'' then [''ce_chng''] else []) @ filter vis [''ce_bid'', ''ce_ask'']"

definition ce_row :: "(string \<Rightarrow> bool) \<Rightarrow> string list" where
  "ce_row vis =
     filter vis [''ce_iv'', ''ce_delta'', ''ce_gamma'', ''ce_theta'', ''ce_vega'', ''ce_oichng'', ''ce_oi'', ''ce_volume'', ''ce_buildup'',
                 ''ce_ltp'', ''ce_bid'', ''ce_ask'']"

definition pe_header :: "(string \<Rightarrow> bool) \<Rightarrow> string list" where
  "pe_header vis =
     filter vis [''pe_bid'', ''pe_ask'', ''pe_ltp''] @ (if vis ''pe_chng'' \<and> \<not> vis ''pe_ltp'' then [''pe_chng''] else [])
     @ filter vis [''pe_buildup'', ''pe_volume'', ''pe_oi'', ''pe_oichng'', ''pe_delta'', ''pe_iv'', ''pe_gamma'', ''pe_theta'', ''pe_vega'']"

definition pe_row :: "(string \<Rightarrow> bool) \<Rightarrow> string list" where
  "pe_row vis =
     filter vis [''pe_bid'', ''pe_ask'', ''pe_ltp'', ''pe_buildup'', ''pe_volume'', ''pe_oi'', ''pe_oichng'', ''pe_delta'', ''pe_iv'',
                 ''pe_gamma'', ''pe_theta'', ''pe_vega'']"

definition ceColumns :: "string list" where
  "ceColumns = [''ce_iv'', ''ce_delta'', ''ce_gamma'', ''ce_theta'', ''ce_vega'', ''ce_oichng'', ''ce_oi'', ''ce_volume'', ''ce_ltp'',
                ''ce_chng'', ''ce_buildup'', ''ce_bid'', ''ce_ask'']"

definition peColumns :: "string list" where
  "peColumns = [''pe_ltp'', ''pe_chng'', ''pe_bid'', ''pe_ask'', ''pe_volume'', ''pe_oi'', ''pe_oichng'', ''pe_delta'', ''pe_iv'',
                ''pe_gamma'', ''pe_theta'', ''pe_vega'', ''pe_buildup'']"

definition colspan :: "(string \<Rightarrow> bool) \<Rightarrow> string list \<Rightarrow> nat" where
  "colspan vis cols = (let n = length (filter vis cols) in if n = 0 then 1 else n)"

text \<open>The side of the table lines up: each header cell stands over its cells, and the first line spans them all.\<close>

definition ce_aligned :: "(string \<Rightarrow> bool) \<Rightarrow> bool" where
  "ce_aligned vis \<longleftrightarrow> ce_header vis = ce_row vis \<and> colspan vis ceColumns = length (ce_row vis)"

definition pe_aligned :: "(string \<Rightarrow> bool) \<Rightarrow> bool" where
  "pe_aligned vis \<longleftrightarrow> pe_header vis = pe_row vis \<and> colspan vis peColumns = length (pe_row vis)"


section \<open>Reading what was written\<close>

lemma own_fold_put:
  assumes "distinct (map fst ps)" and "(k, v) \<in> set ps"
  shows "own (fold (\<lambda>(j, x) acc. put j x acc) ps acc) k = v"
proof -
  from split_list [OF assms(2)] obtain as bs where ps: "ps = as @ (k, v) # bs" by blast
  then have "k \<notin> fst ` set bs" using assms(1) by auto
  then show ?thesis
    using map_of_fold_put [of k bs "put k v (fold (\<lambda>(j, x) acc. put j x acc) as acc)"]
    by (simp add: ps own_def map_of_put)
qed

lemma own_fold_put_other:
  "k \<notin> fst ` set ps \<Longrightarrow> own (fold (\<lambda>(j, x) acc. put j x acc) ps acc) k = own acc k"
  by (simp add: own_def map_of_fold_put)

lemma column_ids_distinct: "distinct (map cl_id AVAILABLE_COLUMNS)"
  by (simp add: AVAILABLE_COLUMNS_def mk_column_def)

lemma get_Obj [simp]: "get (Obj ps) k = Inr (own ps k)"
  by (simp add: get_def)

lemma saved_state [simp]: "pv_state (save_state key v p) = v"
  by (simp add: save_state_def)

lemma stored_value_saved:
  assumes "storable v" and "v = Obj ps"
  shows "stored_value key (pv_local (save_state key v p)) = Some (strip v)"
proof -
  have "json_stringify v \<noteq> []" by (simp add: assms(2) text_of_object)
  then show ?thesis using json_roundtrip [OF assms(1)]
    by (simp add: stored_value_def save_state_def map_of_put assms(2) del: strip.simps)
qed

lemma own_strip_storable:
  "storable (Obj ps) \<Longrightarrow> opt (strip (Obj ps)) k = strip (own ps k)"
  using own_strip [of ps k] by (simp add: key_ordered_def)

section \<open>Properties\<close>

definition stores :: "table_op \<Rightarrow> bool" where
  "stores op = (case op of Select_Strike _ \<Rightarrow> False | _ \<Rightarrow> True)"

lemma stored_step:
  "stores op \<Longrightarrow> \<exists>ps. table_step op p = save_state table_key (Obj ps) p"
  by (cases op) (auto simp: stores_def updateSetting_def toggleSortOrder_def toggleITMHighlight_def
      toggleCompactMode_def resetSettings_def spread_def)

lemma reload_saved:
  assumes ok: "storable (Obj ps)"
  shows "opt (pv_state (load_settings (pv_local (save_state table_key (Obj ps) p)))) k =
    (if own ps k = Undef then own DEFAULT_SETTINGS k else strip (own ps k))"
proof -
  let ?qs = "map (\<lambda>(k, v). (k, strip v)) (filter (\<lambda>p. snd p \<noteq> Undef) ps)"
  have loaded: "pv_state (load_settings (pv_local (save_state table_key (Obj ps) p)))
      = Obj (fold (\<lambda>(k, x) acc. put k x acc) ?qs DEFAULT_SETTINGS)"
    using stored_value_saved [OF ok refl, of table_key p] by (simp add: load_settings_def spread_def)
  have dist: "distinct (map fst ps)" using ok by (simp add: key_ordered_def)
  show ?thesis
  proof (cases "own ps k = Undef")
    case True
    have "b = Undef" if "(k, b) \<in> set ps" for b
      using map_of_is_SomeI [OF dist that] True by (simp add: own_def)
    then have "k \<notin> fst ` set ?qs" by auto
    then show ?thesis using True by (simp add: loaded own_fold_put_other)
  next
    case False
    then have "(k, own ps k) \<in> set ps" by (auto simp: own_def split: option.splits dest!: map_of_SomeD)
    then have "(k, strip (own ps k)) \<in> set ?qs" using False by force
    moreover have "distinct (map fst ?qs)"
      using dist by (auto simp: distinct_map inj_on_def comp_def split_beta)
    ultimately show ?thesis using False by (simp add: loaded own_fold_put del: set_map)
  qed
qed

lemma storable_defaults: "storable (Obj DEFAULT_SETTINGS)"
  by (simp add: DEFAULT_SETTINGS_def key_ordered_def key_before_def index_key_def is_digit_def char_code_def)

lemma own_sortOrder: "own DEFAULT_SETTINGS ''sortOrder'' = Str ''desc''"
  by (simp add: DEFAULT_SETTINGS_def)

text \<open>
  C37: The settings of the table survive a reload: after every operation that stores, on settings JSON keeps (\<open>storable\<close>: whole
  numbers below $10^{15}$, objects with their keys in property order), a
  new provider reads for each key the value of the old one (less undefined members), and the default for a key that was
  undefined.
\<close>

theorem settings_survive_reload:
  assumes "stores op" and "storable (pv_state (table_step op p))"
  shows "opt (pv_state (load_settings (pv_local (table_step op p)))) k =
    (if opt (pv_state (table_step op p)) k = Undef then own DEFAULT_SETTINGS k else strip (opt (pv_state (table_step op p)) k))"
proof -
  obtain ps where step: "table_step op p = save_state table_key (Obj ps) p" using stored_step [OF assms(1)] by blast
  then show ?thesis using reload_saved [of ps p k] assms(2) by simp
qed

theorem settings_survive_reload_witness:
  "opt (pv_state (load_settings (pv_local (table_step Reset_Settings \<lparr>pv_state = Null, pv_local = []\<rparr>)))) ''sortOrder'' = Str ''desc''"
proof -
  have "pv_state (table_step Reset_Settings \<lparr>pv_state = Null, pv_local = []\<rparr>) = Obj DEFAULT_SETTINGS"
    by (simp add: resetSettings_def)
  from settings_survive_reload [of Reset_Settings "\<lparr>pv_state = Null, pv_local = []\<rparr>" "''sortOrder''", unfolded this]
  show ?thesis using storable_defaults by (simp add: stores_def own_sortOrder del: table_step.simps storable.simps)
qed

text \<open>The columns survive a reload as they are.\<close>

lemma columns_survive_reload:
  "storable (Obj ps) \<Longrightarrow> pv_state (load_columns (pv_local (save_state columns_key (Obj ps) p))) = strip (Obj ps)"
  using stored_value_saved [of "Obj ps" ps columns_key p] by (simp add: load_columns_def)

text \<open>Selecting a strike writes nothing, but the next stored operation writes the selection with it.\<close>

lemma selection_is_stored_later:
  assumes "v \<noteq> Undef" and "storable (pv_state (toggleCompactMode (selectStrike v p)))"
  shows "pv_local (selectStrike v p) = pv_local p"
    and "opt (pv_state (load_settings (pv_local (toggleCompactMode (selectStrike v p))))) ''selectedStrike'' = strip v"
proof -
  show "pv_local (selectStrike v p) = pv_local p" by (simp add: selectStrike_def)
  let ?q = "selectStrike v p"
  obtain ps where ps: "toggleCompactMode ?q = save_state table_key (Obj ps) ?q"
    using stored_step [of Toggle_Compact ?q] by (auto simp: stores_def)
  moreover have "own ps ''selectedStrike'' = v"
    using arg_cong [OF ps, of pv_state] by (auto simp: toggleCompactMode_def updateSetting_def selectStrike_def spread_def own_put)
  ultimately show "opt (pv_state (load_settings (pv_local (toggleCompactMode ?q)))) ''selectedStrike'' = strip v"
    using reload_saved [of ps ?q "''selectedStrike''"] assms by simp
qed

text \<open>
  Header and rows line up on the side of the calls exactly when the change column is off and some column is on: the
  header then has one cell for each cell of a row, in the same order, and its first line spans them all.  The same on the
  side of the puts.
\<close>

lemma columns_aligned_iff:
  "(ce_aligned vis \<longleftrightarrow> \<not> vis ''ce_chng'' \<and> ce_row vis \<noteq> []) \<and> (pe_aligned vis \<longleftrightarrow> \<not> vis ''pe_chng'' \<and> pe_row vis \<noteq> [])"
proof
  have ce: "length (filter vis ceColumns) = length (ce_row vis) + (if vis ''ce_chng'' then 1 else 0)"
    by (simp add: ceColumns_def ce_row_def)
  have "ce_header vis = ce_row vis \<longleftrightarrow> \<not> (vis ''ce_chng'' \<and> \<not> vis ''ce_ltp'')"
    by (auto simp: ce_header_def ce_row_def)
  then show "ce_aligned vis \<longleftrightarrow> \<not> vis ''ce_chng'' \<and> ce_row vis \<noteq> []"
    using ce by (auto simp: ce_aligned_def colspan_def Let_def)
  have pe: "length (filter vis peColumns) = length (pe_row vis) + (if vis ''pe_chng'' then 1 else 0)"
    by (simp add: peColumns_def pe_row_def)
  have "pe_header vis = pe_row vis \<longleftrightarrow> \<not> (vis ''pe_chng'' \<and> \<not> vis ''pe_ltp'')"
    by (auto simp: pe_header_def pe_row_def)
  then show "pe_aligned vis \<longleftrightarrow> \<not> vis ''pe_chng'' \<and> pe_row vis \<noteq> []"
    using pe by (auto simp: pe_aligned_def colspan_def Let_def)
qed


text \<open>What is shown after the presets and the switches.\<close>

lemma shown_saved:
  "shown (save_state key (spread s [(''visibility'', spread vis ups)]) p) c \<longleftrightarrow>
     truthy (own (fold (\<lambda>(k, x) acc. put k x acc) ups (entries vis)) c)"
proof -
  have "truthy v \<Longrightarrow> \<not> nullish v" for v by (cases v) auto
  then show ?thesis by (auto simp: shown_def isColumnVisible_def spread_def own_put)
qed

lemma shown_preset:
  assumes "map_of TRADING_PRESETS key = Some cols" and "applyPreset key p = Inr p'" and "c \<in> cl_id ` set AVAILABLE_COLUMNS"
  shows "shown p' c \<longleftrightarrow> c \<in> set cols"
proof -
  obtain vis where p': "p' = save_state columns_key (spread (pv_state p) [(''visibility'', spread vis (preset_updates cols))]) p"
    using assms(1,2) by (auto simp: applyPreset_def setColumnsVisibility_def res_bind_def split: sum.splits)
  have "distinct (map fst (preset_updates cols))" and "(c, Bool (c \<in> set cols)) \<in> set (preset_updates cols)"
    using column_ids_distinct assms(3) by (auto simp: preset_updates_def comp_def)
  then show ?thesis by (simp add: p' shown_saved own_fold_put)
qed

lemma laid_out_columns:
  "set ceColumns \<subseteq> cl_id ` set AVAILABLE_COLUMNS" "set peColumns \<subseteq> cl_id ` set AVAILABLE_COLUMNS"
  by (simp_all add: ceColumns_def peColumns_def AVAILABLE_COLUMNS_def mk_column_def)

lemma aligned_cong:
  assumes "\<And>c. c \<in> set ceColumns \<union> set peColumns \<Longrightarrow> f c = g c"
  shows "ce_aligned f = ce_aligned g" and "pe_aligned f = pe_aligned g"
proof -
  have "f ''ce_chng'' = g ''ce_chng''" "f ''pe_chng'' = g ''pe_chng''"
    by (simp_all add: assms ceColumns_def peColumns_def)
  moreover have "ce_row f = ce_row g" "pe_row f = pe_row g"
    unfolding ce_row_def pe_row_def by (rule filter_cong; auto simp: ceColumns_def peColumns_def intro!: assms)+
  ultimately show "ce_aligned f = ce_aligned g" "pe_aligned f = pe_aligned g" by (simp_all add: columns_aligned_iff)
qed

lemma preset_rows:
  "map (\<lambda>(k, cols). (k, (ce_aligned (\<lambda>c. c \<in> set cols) \<and> pe_aligned (\<lambda>c. c \<in> set cols)))) TRADING_PRESETS =
   [(''default'', True), (''buyer'', False), (''seller'', True), (''bullish'', False), (''bearish'', False), (''scalper'', False),
    (''greeks'', True), (''oiAnalysis'', True), (''compact'', True)]"
  by (simp add: TRADING_PRESETS_def columns_aligned_iff ce_row_def pe_row_def)

text \<open>
  From the preset to the layout: after a preset, header and rows line up on both sides exactly when it is none of
  buyer, bullish, bearish and scalper.  Those four show a change column beside the price column, which the header counts
  and no row has.
\<close>

theorem presets_misalign:
  assumes "key \<in> fst ` set TRADING_PRESETS" and "applyPreset key p = Inr p'"
  shows "ce_aligned (shown p') \<and> pe_aligned (shown p') \<longleftrightarrow> key \<notin> {''buyer'', ''bullish'', ''bearish'', ''scalper''}"
proof -
  obtain cols where cols: "map_of TRADING_PRESETS key = Some cols"
    using assms(1) by (metis map_of_eq_None_iff not_None_eq)
  have "shown p' c = (c \<in> set cols)" if "c \<in> set ceColumns \<union> set peColumns" for c
    using that shown_preset [OF cols assms(2)] laid_out_columns by blast
  from aligned_cong [OF this, of "\<lambda>c. c"]
  have al: "ce_aligned (shown p') = ce_aligned (\<lambda>c. c \<in> set cols)" "pe_aligned (shown p') = pe_aligned (\<lambda>c. c \<in> set cols)"
    by simp_all
  have "(key, ce_aligned (\<lambda>c. c \<in> set cols) \<and> pe_aligned (\<lambda>c. c \<in> set cols))
      \<in> set (map (\<lambda>(k, cols). (k, (ce_aligned (\<lambda>c. c \<in> set cols) \<and> pe_aligned (\<lambda>c. c \<in> set cols)))) TRADING_PRESETS)"
    using map_of_SomeD [OF cols] by force
  then show ?thesis unfolding al preset_rows by auto
qed

theorem presets_misalign_witness:
  "\<exists>p'. applyPreset ''buyer'' \<lparr>pv_state = default_columns, pv_local = []\<rparr> = Inr p' \<and> \<not> (ce_aligned (shown p') \<and> pe_aligned (shown p'))"
proof -
  obtain p' where p': "applyPreset ''buyer'' \<lparr>pv_state = default_columns, pv_local = []\<rparr> = Inr p'"
    by (simp add: applyPreset_def TRADING_PRESETS_def setColumnsVisibility_def default_columns_def)
  have "''buyer'' \<in> fst ` set TRADING_PRESETS" by (simp add: TRADING_PRESETS_def)
  from presets_misalign [OF this p'] p' show ?thesis by simp
qed

text \<open>The settings hold the columns' visibility as an object, as every operation leaves it.\<close>

definition visibility_of :: "provider \<Rightarrow> (string \<times> jsval) list option" where
  "visibility_of p = (case pv_state p of Obj ps \<Rightarrow> (case own ps ''visibility'' of Obj vs \<Rightarrow> Some vs | _ \<Rightarrow> None) | _ \<Rightarrow> None)"

lemma visibility_ofE:
  assumes "visibility_of p = Some vs"
  obtains ps where "pv_state p = Obj ps" and "own ps ''visibility'' = Obj vs"
  using assms by (auto simp: visibility_of_def split: jsval.splits)

lemma toggleColumn_shown:
  assumes "visibility_of p = Some vs"
  obtains p' vs' where "toggleColumn c p = Inr p'" and "visibility_of p' = Some vs'"
    and "\<And>d. shown p' d \<longleftrightarrow> (if d = c then \<not> shown p c else shown p d)"
proof -
  obtain ps where ps: "pv_state p = Obj ps" "own ps ''visibility'' = Obj vs" by (rule visibility_ofE [OF assms])
  have old: "shown p d \<longleftrightarrow> truthy (own vs d)" for d
    by (cases "own vs d") (auto simp: shown_def isColumnVisible_def ps)
  let ?ups = "[(c, Bool (\<not> truthy (own vs c)))]"
  let ?p = "save_state columns_key (spread (Obj ps) [(''visibility'', spread (Obj vs) ?ups)]) p"
  have "toggleColumn c p = Inr ?p" by (simp add: toggleColumn_def ps)
  moreover have "visibility_of ?p = Some (put c (Bool (\<not> truthy (own vs c))) vs)"
    by (simp add: visibility_of_def spread_def own_put)
  moreover have "shown ?p d \<longleftrightarrow> (if d = c then \<not> shown p c else shown p d)" for d
    by (simp add: shown_saved old own_put)
  ultimately show ?thesis by (rule that)
qed

text \<open>
  The dialog's button of a column switches both sides and keeps every other column, so that a column shown on one
  side only is still shown on one side only, after any number of presses: the button never shows it on both.
\<close>

theorem dialog_keeps_mixed:
  assumes "visibility_of p = Some vs"
  shows "\<exists>p'. dialog_column col p = Inr p' \<and> visibility_of p' \<noteq> None
    \<and> (\<forall>c. shown p' c = (if c = ''ce_'' @ col \<or> c = ''pe_'' @ col then \<not> shown p c else shown p c))
    \<and> (both_visible p' col \<longleftrightarrow> \<not> shown p (''ce_'' @ col) \<and> \<not> shown p (''pe_'' @ col))"
proof -
  obtain p1 vs1 where p1: "toggleColumn (''ce_'' @ col) p = Inr p1" "visibility_of p1 = Some vs1"
    "\<And>d. shown p1 d \<longleftrightarrow> (if d = ''ce_'' @ col then \<not> shown p (''ce_'' @ col) else shown p d)"
    using toggleColumn_shown [OF assms, of "''ce_'' @ col"] by blast
  obtain p2 vs2 where p2: "toggleColumn (''pe_'' @ col) p1 = Inr p2" "visibility_of p2 = Some vs2"
    "\<And>d. shown p2 d \<longleftrightarrow> (if d = ''pe_'' @ col then \<not> shown p1 (''pe_'' @ col) else shown p1 d)"
    using toggleColumn_shown [OF p1(2), of "''pe_'' @ col"] by blast
  have "dialog_column col p = Inr p2"
    using p1(1) p2(1) by (simp add: dialog_column_def call_action_def columnConfigValue_def)
  then show ?thesis by (intro exI [of _ p2]) (auto simp: p2 p1 both_visible_def)
qed

theorem dialog_keeps_mixed_witness:
  "\<exists>p'. dialog_column ''buildup'' \<lparr>pv_state = default_columns, pv_local = []\<rparr> = Inr p' \<and> \<not> both_visible p' ''buildup''"
proof -
  let ?p = "\<lparr>pv_state = default_columns, pv_local = []\<rparr>"
  obtain vs where "visibility_of ?p = Some vs" by (simp add: visibility_of_def default_columns_def defaultVisibility_def)
  from dialog_keeps_mixed [OF this, of "''buildup''"]
  obtain p' where p': "dialog_column ''buildup'' ?p = Inr p'"
    "both_visible p' ''buildup'' \<longleftrightarrow> \<not> shown ?p ''ce_buildup'' \<and> \<not> shown ?p ''pe_buildup''" by auto
  have "shown ?p ''ce_buildup''"
    by (simp add: shown_def isColumnVisible_def default_columns_def defaultVisibility_def AVAILABLE_COLUMNS_def mk_column_def)
  then show ?thesis using p' by blast
qed

text \<open>
  The dialog's presets and its number of strikes throw whatever the settings are: it takes applyPreset and
  setStrikesPerPage from context values that do not have them.
\<close>

lemma dialog_presets_throw: "dialog_preset key p = Inl TypeError"
  by (simp add: dialog_preset_def call_action_def columnConfigValue_def)

lemma dialog_strikes_throw: "strikes_up p = Inl TypeError" "strikes_down p = Inl TypeError"
  by (simp_all add: strikes_up_def strikes_down_def dialog_strikes_def call_action_def tableSettingsValue_def)

end
