(* ===== verification/Option_Table.thy ===== *)
theory Option_Table
  imports Table_Settings Selectors Js_Mono
begin

text \<open>
  The option-chain table (src/components/features/options/OptionChainTable.jsx): where its chain and strikes come from,
  its local state and handlers, the rows (StrikeRow.jsx), the marker of the spot price between the rows
  (SpotIndicatorRow.jsx) and the panel of sums below (AggregatePanel.jsx).  Fields that the chain gives as numbers are
  numbers.
\<close>

section \<open>The numbers of a row\<close>

definition em_dash :: string where "em_dash = [CHR 0xE2, CHR 0x80, CHR 0x94]"

definition short_number :: "jsnum \<Rightarrow> string" where
  "short_number x =
     (let a = abs x; sgn_text = (if x < Fin 0 then ''-'' else [])
      in if N (10 ^ 12) \<le> a then sgn_text @ to_fixed 2 (a / N (10 ^ 12)) @ ''T''
         else if N (10 ^ 9) \<le> a then sgn_text @ to_fixed 2 (a / N (10 ^ 9)) @ ''B''
         else if N (10 ^ 6) \<le> a then sgn_text @ to_fixed 2 (a / N (10 ^ 6)) @ ''M''
         else if N (10 ^ 3) \<le> a then sgn_text @ to_fixed 1 (a / N (10 ^ 3)) @ ''K''
         else sgn_text @ to_fixed 0 a)"

definition formatNumber :: "jsval \<Rightarrow> string" where
  "formatNumber num =
     (if nullish num then em_dash else if strict_eq num (Num (Fin 0)) then ''0'' else short_number (to_number num))"

text \<open>\<open>v?.toFixed(n) || '--'\<close>: only numbers have the method.\<close>

fun fixed_text :: "nat \<Rightarrow> jsval \<Rightarrow> string result" where
  "fixed_text n (Num x) = Inr (to_fixed n x)"
| "fixed_text n Undef = Inr em_dash"
| "fixed_text n Null = Inr em_dash"
| "fixed_text n v = Inl TypeError"

definition greek :: "jsval \<Rightarrow> string \<Rightarrow> jsval" where
  "greek leg g = opt (opt leg ''optgeeks'') g"

definition plus_sign :: "jsval \<Rightarrow> string" where
  "plus_sign v = (if Fin 0 < to_number v then ''+'' else [])"

text \<open>The main text of a cell, by the column less its side; \<open>type\<close> of the build-up is printed as it is.\<close>

definition cell_text :: "bool \<Rightarrow> jsval \<Rightarrow> string \<Rightarrow> string result" where
  "cell_text call leg col =
     (if col = ''iv'' then fixed_text 1 (opt leg ''iv'')
      else if col = ''delta'' then fixed_text 3 (greek leg ''delta'')
      else if col = ''gamma'' then fixed_text 5 (greek leg ''gamma'')
      else if col = ''theta'' then fixed_text 2 (greek leg ''theta'')
      else if col = ''vega'' then fixed_text 3 (greek leg ''vega'')
      else if col = ''oichng'' then Inr (plus_sign (opt leg ''oichng'') @ formatNumber (opt leg ''oichng''))
      else if col = ''oi'' then
        Inr (formatNumber (if call then js_or (opt leg ''OI'') (opt leg ''oi'')
                           else js_or (js_or (opt leg ''OI'') (opt leg ''oi'')) (Num (Fin 0))))
      else if col = ''volume'' then Inr (formatNumber (opt leg ''volume''))
      else if col = ''buildup'' then Inr (if nullish (opt leg ''btyp'') then [] else js_to_string (opt leg ''btyp''))
      else if col = ''ltp'' then fixed_text 2 (opt leg ''ltp'')
      else if col \<in> {''bid'', ''ask''} then
        Inr (if truthy (opt leg col) then js_to_string (opt leg col) else em_dash)
      else Inr [])"

text \<open>The name and colour a build-up type is shown with; an unknown type is shown as neutral.\<close>

definition BUILDUP_TYPES :: "(string \<times> string \<times> string) list" where
  "BUILDUP_TYPES =
     [(''LB'', ''LONG BUILDUP'', ''success''), (''SB'', ''SHORT BUILDUP'', ''danger''), (''SC'', ''SHORT COVERING'', ''success''),
      (''LC'', ''LONG UNWINDING'', ''danger''), (''NT'', ''NEUTRAL'', ''default'')]"

definition buildup_of :: "string \<Rightarrow> string \<times> string" where
  "buildup_of t = (case map_of BUILDUP_TYPES t of Some b \<Rightarrow> b | None \<Rightarrow> (''NEUTRAL'', ''default''))"

definition isATM :: "jsnum \<Rightarrow> jsval \<Rightarrow> bool" where
  "isATM strike atmStrike \<longleftrightarrow> abs (strike - to_number atmStrike) < N (1 / 100)"

definition isITM :: "jsval \<Rightarrow> bool" where
  "isITM leg \<longleftrightarrow> strict_eq (opt leg ''mness'') (Str ''I'')"

text \<open>The background of a cell: a highlight goes before the in-the-money tint.\<close>

definition cell_background :: "bool \<Rightarrow> bool \<Rightarrow> string \<Rightarrow> string" where
  "cell_background showITM itm highlight =
     (if highlight \<noteq> [] then highlight
      else if showITM \<and> itm then ''bg-yellow-50/50 dark:bg-yellow-900/10'' else [])"

text \<open>The highlights of a strike: colour and percentage of a column, where it has one.\<close>

type_synonym highlights = "string \<Rightarrow> (string \<times> jsnum) option"

definition getHighlight :: "highlights \<Rightarrow> string \<Rightarrow> string" where
  "getHighlight hl key = (case hl key of Some h \<Rightarrow> fst h | None \<Rightarrow> [])"

definition getPct :: "highlights \<Rightarrow> string \<Rightarrow> jsnum" where
  "getPct hl key = (case hl key of Some h \<Rightarrow> (if num_truthy (snd h) then snd h else Fin 0) | None \<Rightarrow> Fin 0)"

definition sign_color :: "string \<Rightarrow> jsval \<Rightarrow> string" where
  "sign_color none v =
     (if Fin 0 < to_number v then ''text-green-600'' else if to_number v < Fin 0 then ''text-red-600'' else none)"

text \<open>The second line of a cell, the field and the value a click passes on, and the background.\<close>

definition has_share :: "string \<Rightarrow> bool" where
  "has_share col \<longleftrightarrow> col \<in> {''oichng'', ''oi'', ''volume''}"

definition cell_sub :: "highlights \<Rightarrow> string \<Rightarrow> jsval \<Rightarrow> string \<Rightarrow> string result" where
  "cell_sub hl side leg col =
     (if has_share col
      then let pct = getPct hl (side @ ''_'' @ col) in Inr (if Fin 0 < pct then to_fixed 0 pct @ ''%'' else [])
      else if col = ''ltp''
      then res_bind (if nullish (opt leg ''p_chng'') then Inr ''0'' else fixed_text 1 (opt leg ''p_chng''))
             (\<lambda>t. Inr (plus_sign (opt leg ''p_chng'') @ t))
      else Inr [])"

definition cell_click_value :: "jsval \<Rightarrow> string \<Rightarrow> string \<times> jsval" where
  "cell_click_value leg col =
     (if col \<in> {''delta'', ''gamma'', ''theta'', ''vega''} then (col, greek leg col)
      else if col = ''oi'' then (''OI'', opt leg ''OI'')
      else if col = ''buildup'' then (''buildup'', opt leg ''btyp'')
      else (col, opt leg col))"

record row_cell =
  rc_id :: string
  rc_text :: string
  rc_sub :: string
  rc_click :: "string \<times> jsval"
  rc_background :: string

definition row_cell_of :: "jsval \<Rightarrow> highlights \<Rightarrow> string \<Rightarrow> jsval \<Rightarrow> string \<Rightarrow> row_cell result" where
  "row_cell_of settings hl side leg col =
     res_bind (cell_text (side = ''ce'') leg col) (\<lambda>t. res_bind (cell_sub hl side leg col) (\<lambda>sub.
       Inr \<lparr>rc_id = side @ ''_'' @ col, rc_text = t, rc_sub = sub, rc_click = cell_click_value leg col,
            rc_background = cell_background (truthy (opt settings ''highlightITM'')) (isITM leg)
              (if has_share col then getHighlight hl (side @ ''_'' @ col) else [])\<rparr>))"

text \<open>The cells of one side of a row: the visible columns of the side (their ids begin with its two letters).\<close>

definition call_cells :: "(string \<Rightarrow> bool) \<Rightarrow> jsval \<Rightarrow> highlights \<Rightarrow> jsval \<Rightarrow> row_cell list result" where
  "call_cells vis settings hl leg = res_map (\<lambda>i. row_cell_of settings hl ''ce'' leg (drop 3 i)) (ce_row vis)"

definition put_cells :: "(string \<Rightarrow> bool) \<Rightarrow> jsval \<Rightarrow> highlights \<Rightarrow> jsval \<Rightarrow> row_cell list result" where
  "put_cells vis settings hl leg = res_map (\<lambda>i. row_cell_of settings hl ''pe'' leg (drop 3 i)) (pe_row vis)"

text \<open>The tooltip of the implied volatility.\<close>

definition greekItems :: "string list" where
  "greekItems = [''delta'', ''gamma'', ''theta'', ''vega'', ''rho'', ''vanna'', ''vomma'', ''charm'', ''speed'', ''zomma'',
                 ''color'', ''ultima'']"

definition greeks_tooltip :: "jsval \<Rightarrow> bool \<Rightarrow> (string \<times> string) list option result" where
  "greeks_tooltip optgeeks isVisible =
     (if \<not> isVisible \<or> \<not> truthy optgeeks then Inr None
      else res_bind (res_map (\<lambda>k. fixed_text 4 (opt optgeeks k)) greekItems) (\<lambda>ts. Inr (Some (zip greekItems ts))))"

record row_pcr =
  rp_oiPcr :: jsnum
  rp_oiChngPcr :: jsnum
  rp_volPcr :: jsnum

definition side_of :: "jsval \<Rightarrow> string \<Rightarrow> jsval" where
  "side_of row side = js_or (opt row side) (Obj [])"

definition row_pcr_of :: "jsval \<Rightarrow> row_pcr" where
  "row_pcr_of row =
     (let ce = side_of row ''ce''; pe = side_of row ''pe'';
          ce_oi = either_num ce [''OI'', ''oi'']; pe_oi = either_num pe [''OI'', ''oi''];
          ce_chng = either_num ce [''oichng'', ''oi_change'']; pe_chng = either_num pe [''oichng'', ''oi_change''];
          ce_vol = either_num ce [''volume'', ''vol'']; pe_vol = either_num pe [''volume'', ''vol'']
      in \<lparr>rp_oiPcr = (if Fin 0 < ce_oi then pe_oi / ce_oi else Fin 0),
          rp_oiChngPcr = (if num_eq ce_chng (Fin 0) then Fin 0 else pe_chng / ce_chng),
          rp_volPcr = (if Fin 0 < ce_vol then pe_vol / ce_vol else Fin 0)\<rparr>)"

definition getPCRColor :: "jsnum \<Rightarrow> string" where
  "getPCRColor v =
     (if \<not> num_truthy v then ''text-gray-400 bg-gray-100 dark:bg-gray-700''
      else if N (12 / 10) < v then ''text-green-700 bg-green-100 dark:bg-green-900/50 dark:text-green-300''
      else if N (8 / 10) < v then ''text-amber-700 bg-amber-100 dark:bg-amber-900/50 dark:text-amber-300''
      else ''text-red-700 bg-red-100 dark:bg-red-900/50 dark:text-red-300'')"

text \<open>The three ratios under a strike, less the letters before them, and the colour of the second.\<close>

definition pcr_texts :: "row_pcr \<Rightarrow> string list \<times> string" where
  "pcr_texts r =
     ([if Fin 0 < rp_oiPcr r then to_fixed 1 (rp_oiPcr r) else em_dash,
       if num_eq (rp_oiChngPcr r) (Fin 0) then em_dash else to_fixed 1 (abs (rp_oiChngPcr r)),
       if Fin 0 < rp_volPcr r then to_fixed 1 (rp_volPcr r) else em_dash],
      getPCRColor (abs (rp_oiChngPcr r)))"

section \<open>The strikes of the table\<close>

definition all_strikes :: "jsval \<Rightarrow> jsnum list" where
  "all_strikes oc = sort_numbers (filter (\<lambda>x. x \<noteq> NaN) (map string_to_number (object_keys oc)))"

definition closest_strike :: "jsnum \<Rightarrow> jsnum \<Rightarrow> jsnum list \<Rightarrow> jsnum" where
  "closest_strike atm x xs = foldl (\<lambda>prev curr. if abs (curr - atm) < abs (prev - atm) then curr else prev) x xs"

text \<open>The window of a historical chain: around the strike closest to the money, or from the lowest strike on.\<close>

definition external_strikes :: "jsval \<Rightarrow> nat \<Rightarrow> jsnum list \<Rightarrow> jsnum list" where
  "external_strikes atmStrike strikeCount strikes =
     (case strikes of
        [] \<Rightarrow> []
      | x # xs \<Rightarrow>
          if \<not> truthy atmStrike then take strikeCount strikes
          else let closest = closest_strike (to_number atmStrike) x xs
               in case find_index (\<lambda>y. num_eq y closest) strikes of
                    None \<Rightarrow> []
                  | Some atmIndex \<Rightarrow>
                      let start = atmIndex - strikeCount div 2; stop = min (length strikes) (start + strikeCount)
                      in drop start (take stop strikes))"

record table_source =
  ts_raw :: jsval
  ts_atm :: jsval
  ts_strikes :: "jsnum list"

text \<open>The chain given from outside, normalized when it has an \<open>oc\<close>.\<close>

definition processedData :: "jsval \<Rightarrow> jsval result" where
  "processedData externalData =
     (if truthy externalData \<and> truthy (opt externalData ''oc'')
      then res_bind (normalizeBackendData externalData) (\<lambda>n. Inr (path n [''options'', ''data'']))
      else Inr externalData)"

definition shouldUseRedux :: "bool option \<Rightarrow> bool \<Rightarrow> bool" where
  "shouldUseRedux isLiveMode showControls = (case isLiveMode of None \<Rightarrow> showControls | Some b \<Rightarrow> b)"

definition table_source_of :: "bool \<Rightarrow> jsval \<Rightarrow> nat \<Rightarrow> root_state \<Rightarrow> table_source result" where
  "table_source_of useRedux externalData strikeCount s =
     res_bind (processedData externalData) (\<lambda>d.
       if useRedux
       then Inr \<lparr>ts_raw = selectOptionsData s, ts_atm = selectATMStrike s, ts_strikes = selectStrikesAroundATM strikeCount s\<rparr>
       else if truthy externalData
       then res_bind (get d ''atm_strike'') (\<lambda>atmStrike.
         let oc = js_or (opt externalData ''option_chain'') (opt externalData ''oc'')
         in Inr \<lparr>ts_raw = d, ts_atm = atmStrike,
                 ts_strikes = (if truthy oc then external_strikes atmStrike strikeCount (all_strikes oc) else [])\<rparr>)
       else Inr \<lparr>ts_raw = Null, ts_atm = Num (Fin 0), ts_strikes = []\<rparr>)"

definition sortedStrikes :: "jsval \<Rightarrow> jsnum list \<Rightarrow> jsnum list" where
  "sortedStrikes sortOrder strikes =
     (if strict_eq sortOrder (Str ''asc'') then js_sort (\<lambda>a b. a - b) strikes else js_sort (\<lambda>a b. b - a) strikes)"

definition strikeData :: "jsval \<Rightarrow> jsnum \<Rightarrow> jsval" where
  "strikeData oc strike =
     (let k = num_to_string strike in js_or (js_or (opt oc k) (opt oc (k @ ''.000000''))) (Obj []))"

section \<open>The state of the table\<close>

record table_view =
  tv_strikeCount :: nat
  tv_selectedCell :: jsval
  tv_selectedStrikeData :: jsval
  tv_strikeModalData :: jsval
  tv_aggregateColumn :: jsval

text \<open>The number of strikes is read from the settings once, when the table is mounted; it is a whole number.\<close>

definition table_mount :: "jsval \<Rightarrow> table_view" where
  "table_mount settings =
     (let n = to_number (js_or (opt settings ''strikesPerPage'') (Num (N 21)))
      in \<lparr>tv_strikeCount = (case n of Fin r \<Rightarrow> nat \<lfloor>r\<rfloor> | _ \<Rightarrow> 0), tv_selectedCell = Null, tv_selectedStrikeData = Null,
          tv_strikeModalData = Null, tv_aggregateColumn = Null\<rparr>)"

definition handleShowMore :: "table_view \<Rightarrow> table_view" where
  "handleShowMore v = v\<lparr>tv_strikeCount := tv_strikeCount v + 20\<rparr>"

definition handleCellClick :: "jsval \<Rightarrow> table_view \<Rightarrow> table_view" where
  "handleCellClick cellData v = v\<lparr>tv_selectedCell := cellData\<rparr>"

definition handleCloseModal :: "table_view \<Rightarrow> table_view" where
  "handleCloseModal v = v\<lparr>tv_selectedCell := Null\<rparr>"

definition handleStrikeSelect :: "jsval \<Rightarrow> table_view \<times> provider \<Rightarrow> table_view \<times> provider" where
  "handleStrikeSelect d vp = ((fst vp)\<lparr>tv_selectedStrikeData := d\<rparr>, selectStrike (opt d ''strike'') (snd vp))"

definition handleClosePanel :: "table_view \<times> provider \<Rightarrow> table_view \<times> provider" where
  "handleClosePanel vp = ((fst vp)\<lparr>tv_selectedStrikeData := Null\<rparr>, selectStrike Null (snd vp))"

definition handleStrikeClick :: "jsval \<Rightarrow> table_view \<Rightarrow> table_view" where
  "handleStrikeClick d v = v\<lparr>tv_strikeModalData := d\<rparr>"

definition handleCloseStrikeModal :: "table_view \<Rightarrow> table_view" where
  "handleCloseStrikeModal v = v\<lparr>tv_strikeModalData := Null\<rparr>"

definition handleColumnClick :: "jsval \<Rightarrow> table_view \<Rightarrow> table_view" where
  "handleColumnClick c v = v\<lparr>tv_aggregateColumn := c\<rparr>"

definition handleCloseAggregateModal :: "table_view \<Rightarrow> table_view" where
  "handleCloseAggregateModal v = v\<lparr>tv_aggregateColumn := Null\<rparr>"

text \<open>What a click on a cell and on a strike passes on.\<close>

definition cell_click :: "jsnum \<Rightarrow> jsval \<Rightarrow> string \<Rightarrow> string \<Rightarrow> jsval \<Rightarrow> jsval" where
  "cell_click strike row side field v =
     (let leg = side_of row (if side = ''ce'' then ''ce'' else ''pe'')
      in Obj [(''strike'', Num strike), (''side'', Str side), (''field'', Str field), (''value'', v),
              (''symbol'', opt leg ''sym''), (''sid'', opt leg ''sid''), (''fullData'', row)])"

definition strike_click :: "jsnum \<Rightarrow> jsval \<Rightarrow> jsval" where
  "strike_click strike row =
     spread (Obj [(''strike'', Num strike), (''ce'', side_of row ''ce''), (''pe'', side_of row ''pe'')]) (entries row)"

section \<open>The marker of the spot price\<close>

text \<open>The first gap between two rows, in the order of display, that the spot price lies strictly inside.\<close>

fun gap_index :: "jsnum \<Rightarrow> jsnum list \<Rightarrow> nat option" where
  "gap_index spot (a # b # xs) =
     (if jmin a b < spot \<and> spot < jmax a b then Some 0 else map_option Suc (gap_index spot (b # xs)))"
| "gap_index spot _ = None"

definition rowIndex :: "jsnum option \<Rightarrow> jsnum list \<Rightarrow> nat option" where
  "rowIndex spot strikes =
     (case spot of None \<Rightarrow> None | Some x \<Rightarrow> if \<not> num_truthy x then None else gap_index x strikes)"

definition topPosition :: "jsnum \<Rightarrow> jsnum \<Rightarrow> nat \<Rightarrow> jsnum" where
  "topPosition headerHeight rowHeight i = headerHeight + N (of_nat (i + 1)) * rowHeight"

definition marker_top :: "jsval \<Rightarrow> jsnum option \<Rightarrow> jsnum list \<Rightarrow> jsnum option" where
  "marker_top settings spot strikes =
     map_option (topPosition (N 28) (if truthy (opt settings ''compactMode'') then N 51 else N 80)) (rowIndex spot strikes)"

definition spotFutDiff :: "jsnum option \<Rightarrow> jsnum option \<Rightarrow> jsnum option" where
  "spotFutDiff fut spot =
     (case (fut, spot) of (Some f, Some x) \<Rightarrow> if num_truthy f \<and> num_truthy x then Some (f - x) else None | _ \<Rightarrow> None)"

section \<open>The panel of sums\<close>

record side_sums =
  ag_oi :: jsnum
  ag_oiChg :: jsnum
  ag_volume :: jsnum
  ag_ltpSum :: jsnum
  ag_premiumSum :: jsnum
  ag_delta :: jsnum
  ag_gamma :: jsnum
  ag_theta :: jsnum
  ag_vega :: jsnum
  ag_iv :: jsnum
  ag_ivCount :: jsnum

definition no_sums :: side_sums where
  "no_sums = \<lparr>ag_oi = Fin 0, ag_oiChg = Fin 0, ag_volume = Fin 0, ag_ltpSum = Fin 0, ag_premiumSum = Fin 0,
     ag_delta = Fin 0, ag_gamma = Fin 0, ag_theta = Fin 0, ag_vega = Fin 0, ag_iv = Fin 0, ag_ivCount = Fin 0\<rparr>"

definition add_greeks :: "jsval \<Rightarrow> side_sums \<Rightarrow> side_sums" where
  "add_greeks g a =
     (if truthy g
      then a\<lparr>ag_delta := ag_delta a + either_num g [''delta''], ag_gamma := ag_gamma a + either_num g [''gamma''],
             ag_theta := ag_theta a + either_num g [''theta''], ag_vega := ag_vega a + either_num g [''vega'']\<rparr>
      else a)"

definition add_iv :: "jsval \<Rightarrow> side_sums \<Rightarrow> side_sums" where
  "add_iv iv a =
     (if Fin 0 < to_number iv then a\<lparr>ag_iv := ag_iv a + to_number iv, ag_ivCount := ag_ivCount a + Fin 1\<rparr> else a)"

definition add_leg :: "jsval \<Rightarrow> side_sums \<Rightarrow> side_sums" where
  "add_leg leg a =
     (if \<not> truthy leg then a
      else let oi = either_num leg [''OI'', ''oi'']; ltp = either_num leg [''ltp'']
           in add_iv (opt leg ''iv'') (add_greeks (opt leg ''optgeeks'')
                (a\<lparr>ag_oi := ag_oi a + oi, ag_oiChg := ag_oiChg a + either_num leg [''oichng''],
                   ag_volume := ag_volume a + either_num leg [''volume''], ag_ltpSum := ag_ltpSum a + ltp,
                   ag_premiumSum := ag_premiumSum a + ltp * oi\<rparr>)))"

definition side_total :: "jsval \<Rightarrow> string \<Rightarrow> jsnum list \<Rightarrow> side_sums" where
  "side_total oc side strikes = foldl (\<lambda>a k. add_leg (opt (strikeData oc k) side) a) no_sums strikes"

record aggregates =
  gg_ce :: side_sums
  gg_pe :: side_sums
  gg_avgIv :: "jsnum \<times> jsnum"
  gg_pcr :: jsnum
  gg_pcrChg :: jsnum
  gg_volPcr :: jsnum
  gg_net :: "jsnum list"

definition avg_iv :: "side_sums \<Rightarrow> jsnum" where
  "avg_iv a = (if Fin 0 < ag_ivCount a then ag_iv a / ag_ivCount a else Fin 0)"

definition calculateAggregates :: "jsval \<Rightarrow> jsnum list \<Rightarrow> aggregates option" where
  "calculateAggregates optionData strikes =
     (if \<not> truthy (opt optionData ''oc'') \<or> strikes = [] then None
      else let ce = side_total (opt optionData ''oc'') ''ce'' strikes; pe = side_total (opt optionData ''oc'') ''pe'' strikes
           in Some \<lparr>gg_ce = ce, gg_pe = pe, gg_avgIv = (avg_iv ce, avg_iv pe),
                gg_pcr = (if Fin 0 < ag_oi ce then ag_oi pe / ag_oi ce else Fin 0),
                gg_pcrChg = (if num_eq (ag_oiChg ce) (Fin 0) then Fin 0 else ag_oiChg pe / ag_oiChg ce),
                gg_volPcr = (if Fin 0 < ag_volume ce then ag_volume pe / ag_volume ce else Fin 0),
                gg_net = [ag_delta ce + ag_delta pe, ag_gamma ce + ag_gamma pe, ag_theta ce + ag_theta pe,
                          ag_vega ce + ag_vega pe]\<rparr>)"

text \<open>The cards of the panel: label, format, and the values of calls, of puts and of both (where it is shown).\<close>

definition rupee :: string where "rupee = [CHR 0xE2, CHR 0x82, CHR 0xB9]"

definition formatCurrency :: "jsval \<Rightarrow> string" where
  "formatCurrency num = (if nullish num then em_dash else rupee @ formatNumber num)"

definition formatValue :: "string \<Rightarrow> jsval \<Rightarrow> string result" where
  "formatValue fmt v =
     (if fmt = ''currency'' then Inr (formatCurrency v)
      else if fmt = ''decimal'' then fixed_text 2 v
      else if fmt = ''greek'' then fixed_text 4 v
      else Inr (formatNumber v))"

definition metric_cards :: "aggregates \<Rightarrow> (string \<times> string \<times> jsval list) list" where
  "metric_cards g =
     (let ce = gg_ce g; pe = gg_pe g
      in [(''Total OI'', ''number'', [Num (ag_oi ce), Num (ag_oi pe)]),
          (''OI Change'', ''number'', [Num (ag_oiChg ce), Num (ag_oiChg pe)]),
          (''Volume'', ''number'', [Num (ag_volume ce), Num (ag_volume pe)]),
          (''LTP Sum'', ''currency'', [Num (ag_ltpSum ce), Num (ag_ltpSum pe)]),
          (''Avg IV'', ''decimal'', [Num (fst (gg_avgIv g)), Num (snd (gg_avgIv g))]),
          (''Net Delta'', ''greek'', [Num (ag_delta ce), Num (ag_delta pe), Num (gg_net g ! 0)]),
          (''Net Theta'', ''greek'', [Num (ag_theta ce), Num (ag_theta pe), Num (gg_net g ! 2)]),
          (''Net Gamma'', ''greek'', [Num (ag_gamma ce), Num (ag_gamma pe), Num (gg_net g ! 1)]),
          (''Premium (CE)'', ''currency'', [Num (ag_premiumSum ce), Null]),
          (''Premium (PE)'', ''currency'', [Null, Num (ag_premiumSum pe)]),
          (''Net Vega'', ''greek'', [Num (ag_vega ce), Num (ag_vega pe), Num (gg_net g ! 3)])])"

definition card_texts :: "string \<times> string \<times> jsval list \<Rightarrow> string list result" where
  "card_texts c = res_map (formatValue (fst (snd c))) (snd (snd c))"

definition badge_color :: "jsnum \<Rightarrow> string" where
  "badge_color v =
     (if \<not> num_truthy v then ''bg-gray-200 text-gray-600''
      else if N (12 / 10) < v then ''bg-green-200 text-green-800 dark:bg-green-900/50 dark:text-green-300''
      else if N (8 / 10) < v then ''bg-yellow-200 text-yellow-800 dark:bg-yellow-900/50 dark:text-yellow-300''
      else ''bg-red-200 text-red-800 dark:bg-red-900/50 dark:text-red-300'')"

definition badge :: "jsnum \<Rightarrow> string \<times> string" where
  "badge v = (badge_color v, if Fin 0 < v then to_fixed 2 v else em_dash)"

text \<open>The panel shows the sums over the visible strikes, or over every strike of the chain; the chain is the store's when
the table has none.\<close>

definition panel_data :: "table_source \<Rightarrow> root_state \<Rightarrow> jsval" where
  "panel_data t s = js_or (ts_raw t) (selectOptionsData s)"

definition panel_strikes :: "jsval \<Rightarrow> jsnum list" where
  "panel_strikes optionData =
     (if \<not> truthy (opt optionData ''oc'') then []
      else sort_numbers (filter (\<lambda>x. x \<noteq> NaN) (map parse_float (object_keys (opt optionData ''oc'')))))"

definition panel_sums :: "string \<Rightarrow> table_source \<Rightarrow> root_state \<Rightarrow> aggregates option" where
  "panel_sums viewMode t s =
     (let d = panel_data t s
      in calculateAggregates d (if viewMode = ''visible'' then ts_strikes t else panel_strikes d))"

interpretation descending: descending_by "\<lambda>x. x" .

section \<open>Windows around the money\<close>

lemma closest_strike_fold:
  "foldl (argmin_step (\<lambda>y. abs (y - atm))) (abs (x - atm), x) xs = (abs (closest_strike atm x xs - atm), closest_strike atm x xs)"
  by (induction xs arbitrary: x) (simp_all add: closest_strike_def argmin_step_def)

lemma abs_diff_num: "abs (Fin r - Fin a) \<noteq> NaN"
proof -
  have "Fin r - Fin a = rnd (r - a)" by (simp add: minus_jsnum_def)
  moreover have "rnd q \<noteq> NaN" for q by (auto simp: rnd_overflow Let_def)
  moreover have "x \<noteq> NaN \<Longrightarrow> abs x \<noteq> NaN" for x :: jsnum by (cases x) auto
  ultimately show ?thesis by simp
qed

lemma closest_strike_least:
  assumes "\<forall>y \<in> set (x # xs). \<exists>r. y = Fin r" and "atm = Fin a"
  shows "closest_strike atm x xs \<in> set (x # xs) \<and> (\<forall>y \<in> set (x # xs). abs (closest_strike atm x xs - atm) \<le> abs (y - atm))"
proof -
  have ok: "abs (y - atm) \<noteq> NaN" if y: "y \<in> set (x # xs)" for y
  proof -
    obtain r where "y = Fin r" using bspec [OF assms(1) y] by (elim exE)
    then show ?thesis by (simp only: assms(2) abs_diff_num not_False_eq_True)
  qed
  let ?f = "\<lambda>y. abs (y - atm)"
  let ?c = "closest_strike atm x xs"
  have all: "\<forall>y \<in> set xs. ?f y \<noteq> NaN" and hd: "?f x \<noteq> NaN" using ok by auto
  note R = argmin_fold [where f = ?f, OF all hd closest_strike_fold]
  have "?f ?c \<le> ?f x" using R by (elim conjE)
  moreover have "\<forall>y \<in> set xs. ?f ?c \<le> ?f y" using R by (elim conjE)
  moreover have "?c \<in> set xs \<or> ?c = x" using R by (elim conjE disjE) simp_all
  ultimately show ?thesis by auto
qed

lemma window_around:
  assumes "i < length xs" and "1 \<le> n" and "a = i - n div 2" and "b = min (length xs) (a + n)"
  shows "xs ! i \<in> set (drop a (take b xs))" and "length (drop a (take b xs)) \<le> n"
    and "take a xs @ drop a (take b xs) @ drop b xs = xs"
proof -
  have ab: "a \<le> i" "i < b" "b \<le> length xs" using assms by auto
  then have "drop a (take b xs) ! (i - a) = xs ! i" and "i - a < length (drop a (take b xs))" by auto
  then show "xs ! i \<in> set (drop a (take b xs))" by (metis nth_mem)
  show "length (drop a (take b xs)) \<le> n" by (simp add: assms(4))
  have "take b xs = take a xs @ drop a (take b xs)"
    using ab by (metis append_take_drop_id less_imp_le_nat min.absorb1 order.trans take_take)
  then show "take a xs @ drop a (take b xs) @ drop b xs = xs" by (metis append_assoc append_take_drop_id)
qed

section \<open>Properties\<close>

lemma gap_index_Some:
  "gap_index spot xs = Some i \<Longrightarrow> Suc i < length xs \<and> jmin (xs ! i) (xs ! Suc i) < spot \<and> spot < jmax (xs ! i) (xs ! Suc i)"
  by (induction spot xs arbitrary: i rule: gap_index.induct) (auto split: if_splits)

lemma gap_index_None:
  "Suc i < length xs \<Longrightarrow> jmin (xs ! i) (xs ! Suc i) < spot \<Longrightarrow> spot < jmax (xs ! i) (xs ! Suc i) \<Longrightarrow> gap_index spot xs \<noteq> None"
proof (induction spot xs arbitrary: i rule: gap_index.induct)
  case (1 spot a b xs)
  show ?case
  proof (cases i)
    case 0
    then show ?thesis using 1 by simp
  next
    case (Suc k)
    then show ?thesis using 1 by auto
  qed
qed auto

lemma num_less_trans: "x < y \<Longrightarrow> y < z \<Longrightarrow> x < (z :: jsnum)"
  by (cases x; cases y; cases z) auto

lemma num_less_irrefl: "\<not> x < (x :: jsnum)"
  by (cases x) auto

lemma min_max_less: "x < y \<Longrightarrow> jmin x y = x \<and> jmax x y = y \<and> jmin y x = x \<and> jmax y x = (y :: jsnum)"
  by (cases x; cases y) (auto simp: jmin_def jmax_def)

text \<open>In strictly ordered rows the gap with the spot price splits them.\<close>

lemma ascending_gap:
  assumes "sorted_wrt (<) xs" and "Suc i < length xs" and "xs ! i < spot" and "spot < xs ! Suc i" and "k < length xs"
  shows "if k \<le> i then xs ! k < (spot :: jsnum) else spot < xs ! k"
proof (cases "k \<le> i")
  case True
  then have "k = i \<or> xs ! k < xs ! i" using sorted_wrt_nth_less [OF assms(1), of k i] assms(2) by (cases "k = i") simp_all
  then show ?thesis using True assms(3,4) num_less_trans by auto
next
  case False
  then have "k = Suc i \<or> xs ! Suc i < xs ! k" using sorted_wrt_nth_less [OF assms(1), of "Suc i" k] assms(5) by (cases "k = Suc i") simp_all
  then show ?thesis using False assms(3,4) num_less_trans by auto
qed

lemma descending_gap:
  assumes "sorted_wrt (\<lambda>a b. b < a) xs" and "Suc i < length xs" and "xs ! Suc i < spot" and "spot < xs ! i" and "k < length xs"
  shows "if k \<le> i then (spot :: jsnum) < xs ! k else xs ! k < spot"
proof (cases "k \<le> i")
  case True
  then have "k = i \<or> xs ! i < xs ! k" using sorted_wrt_nth_less [OF assms(1), of k i] assms(2) by (cases "k = i") simp_all
  then show ?thesis using True assms(3,4) num_less_trans by auto
next
  case False
  then have "k = Suc i \<or> xs ! k < xs ! Suc i" using sorted_wrt_nth_less [OF assms(1), of "Suc i" k] assms(5) by (cases "k = Suc i") simp_all
  then show ?thesis using False assms(3,4) num_less_trans by auto
qed

lemma gap_splits:
  assumes "sorted_wrt (<) xs \<or> sorted_wrt (\<lambda>a b. b < a) xs" and "Suc i < length xs"
    and "jmin (xs ! i) (xs ! Suc i) < spot" and "spot < jmax (xs ! i) (xs ! Suc i)" and "k < length xs"
  shows "xs ! k \<noteq> spot \<and> (xs ! k < spot \<longleftrightarrow> (k \<le> i \<longleftrightarrow> xs ! i < xs ! Suc i))"
proof -
  have asym: "x < y \<Longrightarrow> \<not> y < x" for x y :: jsnum by (cases x; cases y) auto
  from assms(1) show ?thesis
  proof
    assume asc: "sorted_wrt (<) xs"
    then have lt: "xs ! i < xs ! Suc i" using assms(2) by (simp add: sorted_wrt_nth_less)
    then have "xs ! i < spot" "spot < xs ! Suc i" using assms(3,4) min_max_less [OF lt] by simp_all
    from ascending_gap [OF asc assms(2) this assms(5)] lt show ?thesis
      by (auto simp: num_less_irrefl split: if_splits dest: asym)
  next
    assume desc: "sorted_wrt (\<lambda>a b. b < a) xs"
    then have lt: "xs ! Suc i < xs ! i" using assms(2) sorted_wrt_nth_less [OF desc, of i "Suc i"] by simp
    then have "xs ! Suc i < spot" "spot < xs ! i" using assms(3,4) min_max_less [OF lt] by simp_all
    from descending_gap [OF desc assms(2) this assms(5)] lt show ?thesis
      by (auto simp: num_less_irrefl split: if_splits dest: asym)
  qed
qed

text \<open>
  In historical mode with no data the table shows nothing, and so does the panel of sums over the visible strikes; but
  with the view on all strikes the panel shows the sums of the live chain in the store.
\<close>

theorem panel_falls_back_to_live:
  assumes "truthy (selectOptionsData s)"
  shows "\<exists>t. table_source_of False Null n s = Inr t \<and> ts_raw t = Null \<and> ts_strikes t = []
    \<and> panel_sums ''visible'' t s = None
    \<and> panel_sums ''all'' t s = calculateAggregates (selectOptionsData s) (panel_strikes (selectOptionsData s))"
proof -
  let ?t = "\<lparr>ts_raw = Null, ts_atm = Num (Fin 0), ts_strikes = []\<rparr>"
  have "table_source_of False Null n s = Inr ?t" by (simp add: table_source_of_def processedData_def)
  moreover have "panel_data ?t s = selectOptionsData s" by (simp add: panel_data_def js_or_def)
  ultimately show ?thesis by (intro exI [of _ ?t]) (simp add: panel_sums_def calculateAggregates_def Let_def)
qed

theorem panel_falls_back_to_live_witness:
  "\<exists>s t. table_source_of False Null 21 s = Inr t \<and> ts_strikes t = []
    \<and> panel_sums ''all'' t s = calculateAggregates (selectOptionsData s) (panel_strikes (selectOptionsData s))
    \<and> panel_strikes (selectOptionsData s) \<noteq> []"
proof -
  let ?d = "data_initial\<lparr>d_data := Obj [(''options'', Obj [(''data'', Obj [(''oc'', Obj [(''100'', Obj [])])])])]\<rparr>"
  define s where "s = \<lparr>r_user = Null, r_theme = theme_initial, r_data = ?d, r_optionChain = popup_initial,
      r_tca = tca_initial, r_config = localURLs None None, r_auth = auth_initial, r_toast = [],
      r_chart = chart_initial\<rparr>"
  have d: "selectOptionsData s = Obj [(''oc'', Obj [(''100'', Obj [])])]"
    by (simp add: selectOptionsData_def path_def in_data_def data_object_def s_def)
  have "object_keys (Obj [(''100'', Obj [])]) = [''100'']" by (simp add: object_keys_def)
  moreover have "parse_float ''100'' = Fin 100" by code_simp
  ultimately have "panel_strikes (selectOptionsData s) \<noteq> []"
    by (simp add: d panel_strikes_def sort_numbers_def js_sort_def)
  moreover from panel_falls_back_to_live [of s 21] obtain t where "table_source_of False Null 21 s = Inr t \<and> ts_strikes t = []
      \<and> panel_sums ''all'' t s = calculateAggregates (selectOptionsData s) (panel_strikes (selectOptionsData s))"
    by (auto simp: d)
  ultimately show ?thesis by blast
qed

text \<open>
  C40: The spot price, when it is not zero, between the rows: in strictly ordered rows, ascending or descending, the marker stands after row i
  exactly when the price lies strictly between the strikes of rows i and i + 1; a price that is one of the strikes has no
  marker.
\<close>

theorem marker_between_rows:
  assumes "sorted_wrt (<) strikes \<or> sorted_wrt (\<lambda>a b. b < a) strikes" and "num_truthy spot"
  shows "(rowIndex (Some spot) strikes = Some i \<longleftrightarrow>
      Suc i < length strikes \<and> jmin (strikes ! i) (strikes ! Suc i) < spot \<and> spot < jmax (strikes ! i) (strikes ! Suc i))
    \<and> (spot \<in> set strikes \<longrightarrow> rowIndex (Some spot) strikes = None)"
proof -
  let ?gap = "\<lambda>i. Suc i < length strikes \<and> jmin (strikes ! i) (strikes ! Suc i) < spot \<and> spot < jmax (strikes ! i) (strikes ! Suc i)"
  have row: "rowIndex (Some spot) strikes = gap_index spot strikes" using assms(2) by (simp add: rowIndex_def)
  have found: "gap_index spot strikes = Some j \<Longrightarrow> ?gap j" for j by (rule gap_index_Some)
  have apart: "\<not> m < n" if "?gap m" "?gap n" for m n
    using gap_splits [OF assms(1), of m spot n] gap_splits [OF assms(1), of m spot "Suc n"]
      gap_splits [OF assms(1), of n spot n] gap_splits [OF assms(1), of n spot "Suc n"] that by auto
  have unique: "m = n" if "?gap m" "?gap n" for m n
    using apart [OF that] apart [OF that(2,1)] by linarith
  have "rowIndex (Some spot) strikes = Some i \<longleftrightarrow> ?gap i"
    using found unique gap_index_None [of i strikes spot] unfolding row by (metis option.exhaust)
  moreover have "rowIndex (Some spot) strikes = None" if mem: "spot \<in> set strikes"
  proof (rule ccontr)
    assume "rowIndex (Some spot) strikes \<noteq> None"
    then obtain j where "?gap j" using found unfolding row by blast
    moreover obtain k where "k < length strikes" "strikes ! k = spot" using mem by (auto simp: in_set_conv_nth)
    ultimately show False using gap_splits [OF assms(1), of j spot k] by blast
  qed
  ultimately show ?thesis by blast
qed

theorem marker_between_rows_witness:
  "rowIndex (Some (N 105)) [N 120, N 110, N 100] = Some 1 \<and> rowIndex (Some (N 110)) [N 120, N 110, N 100] = None"
proof -
  have "sorted_wrt (\<lambda>a b. b < a) [N 120, N 110, N 100]" by simp
  from marker_between_rows [OF disjI2 [OF this], of "N 105" 1] marker_between_rows [OF disjI2 [OF this], of "N 110"]
  show ?thesis by (simp add: jmin_def jmax_def)
qed

lemma closest_window:
  assumes "xs \<noteq> []" and "\<forall>y \<in> set xs. fin_double y" and "a \<noteq> 0" and "1 \<le> n"
  shows "\<exists>pre post. xs = pre @ external_strikes (Num (Fin a)) n xs @ post
    \<and> length (external_strikes (Num (Fin a)) n xs) \<le> n
    \<and> (\<exists>c \<in> set (external_strikes (Num (Fin a)) n xs). \<forall>y \<in> set xs. abs (c - Fin a) \<le> abs (y - Fin a))"
proof -
  obtain x ys where xs: "xs = x # ys" using assms(1) by (cases xs) auto
  let ?c = "closest_strike (Fin a) x ys"
  have "\<forall>y \<in> set (x # ys). \<exists>r. y = Fin r" using assms(2) unfolding xs fin_double_def by blast
  from closest_strike_least [OF this refl, of a]
  have c: "?c \<in> set xs" "\<forall>y \<in> set xs. abs (?c - Fin a) \<le> abs (y - Fin a)" unfolding xs by blast+
  obtain r where r: "?c = Fin r" using c(1) assms(2) unfolding fin_double_def by blast
  then obtain i where i: "find_index (\<lambda>y. num_eq y ?c) xs = Some i"
    using c(1) find_index_None [of "\<lambda>y. num_eq y ?c" xs] by (cases "find_index (\<lambda>y. num_eq y ?c) xs") auto
  then have len: "i < length xs" and eq: "xs ! i = ?c" using find_index_less [OF i] r by (auto simp: num_eq_def)
  define m where "m = i - n div 2"
  define b where "b = min (length xs) (m + n)"
  have w: "external_strikes (Num (Fin a)) n xs = drop m (take b xs)"
    using i assms(3) by (simp add: external_strikes_def xs Let_def m_def b_def del: find_index.simps)
  note around = window_around [OF len assms(4) m_def b_def]
  show ?thesis unfolding w using around c(2) eq by metis
qed

text \<open>
  C39: The strikes of a historical chain with a money strike: they are a run of the chain's strikes in ascending order, no
  more than asked for, with a strike closest to the money among them, and the rows show just these, ascending or
  descending as the settings say.
\<close>

theorem historical_window:
  assumes "table_source_of False externalData n s = Inr t" and "truthy externalData"
    and "ts_atm t = Num (Fin a)" and "a \<noteq> 0" and "1 \<le> n"
    and "xs = all_strikes (js_or (opt externalData ''option_chain'') (opt externalData ''oc''))"
    and "xs \<noteq> []" and "\<forall>y \<in> set xs. fin_double y"
  shows "sorted_wrt (\<le>) xs \<and> (\<exists>pre post. xs = pre @ ts_strikes t @ post) \<and> length (ts_strikes t) \<le> n
    \<and> (\<exists>c \<in> set (ts_strikes t). \<forall>y \<in> set xs. abs (c - Fin a) \<le> abs (y - Fin a))
    \<and> mset (sortedStrikes order (ts_strikes t)) = mset (ts_strikes t)
    \<and> sorted_wrt (if strict_eq order (Str ''asc'') then (\<le>) else (\<lambda>x y. y \<le> x)) (sortedStrikes order (ts_strikes t))"
proof -
  let ?oc = "js_or (opt externalData ''option_chain'') (opt externalData ''oc'')"
  have oc: "truthy ?oc"
  proof (rule ccontr)
    assume "\<not> truthy ?oc"
    then have "entries ?oc = []" by (cases ?oc) auto
    then show False using assms(6,7) by (simp add: all_strikes_def object_keys_def sort_numbers_def js_sort_def)
  qed
  obtain d where "processedData externalData = Inr d" "get d ''atm_strike'' = Inr (ts_atm t)"
    and w: "ts_strikes t = external_strikes (ts_atm t) n xs"
    using assms(1,2) oc by (auto simp: table_source_of_def res_bind_def Let_def assms(6) split: sum.splits)
  from closest_window [OF assms(7,8,4,5)]
  obtain pre post where run: "xs = pre @ ts_strikes t @ post" "length (ts_strikes t) \<le> n"
    and c: "\<exists>c \<in> set (ts_strikes t). \<forall>y \<in> set xs. abs (c - Fin a) \<le> abs (y - Fin a)"
    unfolding w assms(3) by blast
  have "set (ts_strikes t) \<subseteq> set xs" using run(1) by (metis Un_subset_iff set_append sup_ge1 sup_ge2)
  then have fin: "\<forall>y \<in> set (ts_strikes t). fin_double y" using assms(8) by blast
  have "sorted_wrt (\<le>) xs" using assms(8) sorted_sort_numbers unfolding assms(6) all_strikes_def
    by (simp add: sort_numbers_def)
  moreover have "sorted_wrt (if strict_eq order (Str ''asc'') then (\<le>) else (\<lambda>x y. y \<le> x)) (sortedStrikes order (ts_strikes t))"
    using ascending.sorted_keys [OF fin] descending.sorted_keys [OF fin] by (simp add: sortedStrikes_def)
  ultimately show ?thesis using run c by (auto simp: sortedStrikes_def)
qed

theorem historical_window_witness:
  "\<forall>s. \<exists>ext t. table_source_of False ext 1 s = Inr t \<and> all_strikes (opt ext ''option_chain'') = [N 100, N 110] \<and> length (ts_strikes t) = 1"
proof
  fix s
  let ?oc = "Obj [(''100'', Obj []), (''110'', Obj [])]"
  let ?e = "Obj [(''option_chain'', ?oc), (''atm_strike'', Num (N 101))]"
  have keys: "object_keys ?oc = [''100'', ''110'']" by (simp add: object_keys_def)
  have nums: "string_to_number ''100'' = Fin 100" "string_to_number ''110'' = Fin 110" by code_simp+
  have diff: "Fin 100 - Fin 110 = Fin (- 10)" by code_simp
  have xs: "[N 100, N 110] = all_strikes (js_or (opt ?e ''option_chain'') (opt ?e ''oc''))"
    by (simp add: all_strikes_def keys nums sort_numbers_def js_sort_def diff)
  let ?t = "\<lparr>ts_raw = ?e, ts_atm = Num (N 101), ts_strikes = external_strikes (Num (N 101)) 1 [N 100, N 110]\<rparr>"
  have t: "table_source_of False ?e 1 s = Inr ?t"
    using xs by (simp add: table_source_of_def processedData_def Let_def)
  have "\<forall>y \<in> set [N 100, N 110]. fin_double y" by simp
  from historical_window [OF t _ _ _ _ xs _ this, of 101]
  have "length (ts_strikes ?t) \<le> 1" and "ts_strikes ?t \<noteq> []" by auto
  then have "length (ts_strikes ?t) = 1" by (cases "ts_strikes ?t") auto
  moreover have "all_strikes (opt ?e ''option_chain'') = [N 100, N 110]" using xs by simp
  ultimately show "\<exists>ext t. table_source_of False ext 1 s = Inr t
      \<and> all_strikes (opt ext ''option_chain'') = [N 100, N 110] \<and> length (ts_strikes t) = 1" using t by blast
qed

text \<open>A call without open interest is shown with a dash, a put with 0.\<close>

lemma missing_interest_texts:
  assumes "\<not> truthy (opt leg ''OI'')" and "opt leg ''oi'' = Undef"
  shows "cell_text True leg ''oi'' = Inr em_dash" and "cell_text False leg ''oi'' = Inr ''0''"
  using assms by (simp_all add: cell_text_def js_or_def formatNumber_def)

section \<open>Rows under their header\<close>

definition numeric :: "jsval \<Rightarrow> bool" where
  "numeric v \<longleftrightarrow> nullish v \<or> (\<exists>x. v = Num x)"

lemma fixed_text_numeric: "numeric v \<Longrightarrow> \<exists>t. fixed_text n v = Inr t"
  by (cases v) (auto simp: numeric_def)

text \<open>
  The fields of a leg that a row prints: with \<open>toFixed\<close>, or, for the build-up and the best prices, as they are, where an
  object would make the drawing throw.
\<close>

definition primitive :: "jsval \<Rightarrow> bool" where
  "primitive v \<longleftrightarrow> numeric v \<or> (\<exists>t. v = Str t)"

definition printable :: "jsval \<Rightarrow> bool" where
  "printable leg \<longleftrightarrow> numeric (opt leg ''iv'') \<and> numeric (opt leg ''ltp'') \<and> numeric (opt leg ''p_chng'')
     \<and> numeric (greek leg ''delta'') \<and> numeric (greek leg ''gamma'') \<and> numeric (greek leg ''theta'') \<and> numeric (greek leg ''vega'')
     \<and> primitive (opt leg ''btyp'') \<and> primitive (opt leg ''bid'') \<and> primitive (opt leg ''ask'')"

lemma row_cell_total:
  assumes "printable leg"
  shows "\<exists>c. row_cell_of settings hl side leg col = Inr c \<and> rc_id c = side @ ''_'' @ col
           \<and> cell_text (side = ''ce'') leg col = Inr (rc_text c)"
proof -
  have "\<exists>t. cell_text call leg col = Inr t" for call
    using assms fixed_text_numeric by (simp add: cell_text_def printable_def)
  moreover have "\<exists>t. cell_sub hl side leg col = Inr t"
    using assms fixed_text_numeric [of "opt leg ''p_chng''" 1] by (auto simp: cell_sub_def printable_def Let_def)
  ultimately obtain t sub where "cell_text (side = ''ce'') leg col = Inr t" "cell_sub hl side leg col = Inr sub" by blast
  then show ?thesis by (simp add: row_cell_of_def)
qed

lemma side_ids:
  "i \<in> set (ce_row vis) \<Longrightarrow> ''ce'' @ ''_'' @ drop 3 i = i" "i \<in> set (pe_row vis) \<Longrightarrow> ''pe'' @ ''_'' @ drop 3 i = i"
  unfolding ce_row_def pe_row_def set_filter by (elim CollectE conjE; auto)+

text \<open>The columns a leg has cells for.\<close>

definition leg_columns :: "string set" where
  "leg_columns = {''iv'', ''delta'', ''gamma'', ''theta'', ''vega'', ''oichng'', ''oi'', ''volume'', ''buildup'', ''ltp'', ''bid'', ''ask''}"

lemma some_column:
  "(\<exists>c \<in> leg_columns. vis (''ce_'' @ c)) \<longleftrightarrow> ce_row vis \<noteq> []" "(\<exists>c \<in> leg_columns. vis (''pe_'' @ c)) \<longleftrightarrow> pe_row vis \<noteq> []"
  by (simp_all add: leg_columns_def ce_row_def pe_row_def)

lemma res_map_cells:
  assumes "\<And>x. x \<in> set xs \<Longrightarrow> \<exists>y. f x = Inr y \<and> P x y"
  shows "\<exists>ys. res_map f xs = Inr ys \<and> list_all2 P xs ys"
  using assms by (induction xs) fastforce+

lemma side_cells:
  assumes "printable leg" and "\<And>i. i \<in> set ids \<Longrightarrow> side @ ''_'' @ drop 3 i = i"
  shows "\<exists>cs. res_map (\<lambda>i. row_cell_of settings hl side leg (drop 3 i)) ids = Inr cs
    \<and> list_all2 (\<lambda>i c. rc_id c = i \<and> cell_text (side = ''ce'') leg (drop 3 i) = Inr (rc_text c)) ids cs"
  by (rule res_map_cells) (metis row_cell_total [OF assms(1)] assms(2))

text \<open>
  C38: From the settings to a row: with the change columns off and at least one of the columns of each side on, a row of
  legs whose printed fields are numbers or missing (the build-up and the best prices also texts) is drawn without an
  exception; it has exactly one cell for each header cell, in the order of the header, each with the text of the column
  its header names, and the first line of the header spans just these cells.
\<close>

theorem row_under_header:
  assumes "printable ce" and "printable pe" and "\<not> vis ''ce_chng''" and "\<not> vis ''pe_chng''"
    and "\<exists>c \<in> leg_columns. vis (''ce_'' @ c)" and "\<exists>c \<in> leg_columns. vis (''pe_'' @ c)"
  shows "\<exists>cs ps. call_cells vis settings hl ce = Inr cs \<and> put_cells vis settings hl pe = Inr ps
    \<and> list_all2 (\<lambda>i c. rc_id c = i \<and> cell_text True ce (drop 3 i) = Inr (rc_text c)) (ce_header vis) cs
    \<and> list_all2 (\<lambda>i c. rc_id c = i \<and> cell_text False pe (drop 3 i) = Inr (rc_text c)) (pe_header vis) ps
    \<and> length cs = colspan vis ceColumns \<and> length ps = colspan vis peColumns"
proof -
  have "ce_aligned vis" "pe_aligned vis" using assms(3-6) columns_aligned_iff some_column by blast+
  then have header: "ce_header vis = ce_row vis" "pe_header vis = pe_row vis"
    and span: "colspan vis ceColumns = length (ce_row vis)" "colspan vis peColumns = length (pe_row vis)"
    by (simp_all add: ce_aligned_def pe_aligned_def)
  from side_cells [OF assms(1) side_ids(1)] side_cells [OF assms(2) side_ids(2)] show ?thesis
    unfolding call_cells_def put_cells_def header span by (fastforce dest: list_all2_lengthD)
qed

text \<open>The columns that are on at first, with empty legs.\<close>

theorem row_under_header_witness:
  "\<exists>cs ps. call_cells (\<lambda>c. c \<in> set (DEFAULT_CE_ORDER @ DEFAULT_PE_ORDER)) (Obj DEFAULT_SETTINGS) (\<lambda>_. None) (Obj []) = Inr cs
    \<and> put_cells (\<lambda>c. c \<in> set (DEFAULT_CE_ORDER @ DEFAULT_PE_ORDER)) (Obj DEFAULT_SETTINGS) (\<lambda>_. None) (Obj []) = Inr ps
    \<and> length cs = 6 \<and> length ps = 6"
proof -
  let ?vis = "\<lambda>c. c \<in> set (DEFAULT_CE_ORDER @ DEFAULT_PE_ORDER)"
  have leg: "printable (Obj [])" by (simp add: printable_def numeric_def primitive_def greek_def)
  have off: "\<not> ?vis ''ce_chng''" "\<not> ?vis ''pe_chng''" by (simp_all add: DEFAULT_CE_ORDER_def DEFAULT_PE_ORDER_def)
  have on: "\<exists>c \<in> leg_columns. ?vis (''ce_'' @ c)" "\<exists>c \<in> leg_columns. ?vis (''pe_'' @ c)"
    by (rule bexI [of _ "''iv''"]; simp add: DEFAULT_CE_ORDER_def DEFAULT_PE_ORDER_def leg_columns_def)+
  have "colspan ?vis ceColumns = 6" "colspan ?vis peColumns = 6"
    by (simp_all add: colspan_def Let_def ceColumns_def peColumns_def DEFAULT_CE_ORDER_def DEFAULT_PE_ORDER_def)
  with row_under_header [OF leg leg off on, of "Obj DEFAULT_SETTINGS" "\<lambda>_. None"] show ?thesis by metis
qed

end
