(* ===== verification/Spec2Isabelle.thy ===== *)
theory Spec2Isabelle
  imports Data_Slice Auth_Slice Buildup Ui_Slices Selectors Greeks Options_Service
    Strategy_Presets Account_Services Position_Services Data_Fetching Chart_Socket Table_Hooks Form_Validation Highlights
    Position_Analytics Chart_Utils Position_Alerts Chart_Accuracy Multi_Symbol App_Provider Market_Maker Strategy_Builder Profile_Overlay Trading_Chart
    Option_Table
    Js_Roundtrip_Value
begin

text \<open>
  Verification library of the Stockify trading front end (services/ocd-frontend): the logic
  between the backend's REST and WebSocket interfaces and the React components, that is the Redux store with its
  thunks, the HTTP client and the services over it, the hooks, the Greeks worker and the
  numerical utilities.  Paths below are relative to services/ocd-frontend/src.

  \<^bold>\<open>How the program is put together.\<close>  The components dispatch actions and thunks to the store
  (context/store.js) and read it through selectors.  A thunk of context/dataSlice.js calls the backend
  through axios, normalises the answer and puts it into the slice; the socket delivers live
  messages to the same reducer.  context/authSlice.js keeps the user, the token in \<open>localStorage\<close>,
  the default header and the timers that refresh the token; services/apiClient.js reads the token
  from \<open>localStorage\<close> for each request, and every other service sends its requests through it.  Hooks keep their
  own state (a cache, a socket, a form, a cursor) in React state and refs.

  \<^bold>\<open>The language.\<close>
  Js_Number: Number as binary64 (a finite double is its rational; the locale \<open>rounding\<close> and its
  interpretation \<open>binary64\<close>; range lemmas in \<open>num_range\<close>).  Js_Value: dynamic values, property access, truthiness, conversions,
  \<open>JSON.stringify\<close>, \<open>toFixed\<close>.  Js_Date: days, \<open>toISOString\<close>.  Js_Json: \<open>JSON.parse\<close>, \<open>atob\<close>.  Js_Store: \<open>Map\<close> and
  web storage (locale \<open>keyed_store\<close>, interpreted as \<open>props\<close>).  Js_Array: \<open>sort\<close>, \<open>reduce\<close> (locale
  \<open>comparator\<close>; its sublocales \<open>ascending_by\<close> and \<open>descending_by\<close> for the comparators that subtract a key, interpreted as
  \<open>ascending\<close>, \<open>descending\<close>, \<open>by_strike\<close>, \<open>by_oi\<close>, \<open>by_value\<close>, \<open>by_strength\<close>, \<open>by_point_total\<close> and others), the search for a least element (\<open>argmin_fold\<close>).  Js_Mono: the arithmetic of doubles is monotone and
  keeps NaN, so two sums with the same order of additions compare term by term.  Js_Http: requests.  Js_Format, Js_Roundtrip,
  Js_Roundtrip_Num and Js_Roundtrip_Value: printing and reading back.  Js_Regex: regular expressions by derivatives.
  Js_Sim: refinement of a stateful component by its specification (locale \<open>simulation\<close>).

  \<^bold>\<open>The components.\<close>
  Data_Slice models context/dataSlice.js: the slice as a record, each action as a constructor of \<open>data_action\<close>,
  the normaliser, the thunks as begin and end steps with the table of requests in flight.  It shows
  that a live message is stored exactly when its expiry is the selected day, that a successful fetch leaves the normalised answer
  in the slice, that two thunks with one key send one request, and the types reachable states keep.
  Auth_Slice models context/authSlice.js with both storages, the header, the timers and the Firebase listeners, and the
  sign-in of the forms components/auth/Login.jsx and Register.jsx: what signing out leaves, when a reload signs in, that a
  reachable state is consistent (invariant of the step relation \<open>auth_step\<close>), and where a refresh stores its token.
  Buildup models services/buildupAnalytics.js: bounds of scores and confidences, the marks of the cluster miner.
  Ui_Slices and Selectors model the remaining slices, the root state of context/store.js and context/selectors.js.
  Greeks models public/workers/greeks.worker.js and hooks/useGreeksWorker.js: the range of the deltas,
  each request settles once, worker and fallback agree on intrinsic values.
  Api_Client models services/apiClient.js: the toast limiter refines a sliding-window specification (\<open>limiter\<close>), each failure has
  the documented effect.  Options_Service models services/optionsService.js: its cache refines a map with expiring entries (\<open>cache_session\<close>).
  Calculator_Service, Market_Services, Account_Services and Position_Services model the other services method by method:
  the request a method builds from its arguments and what it makes of the outcome.  Strategy_Presets models constants/strategyPresets.js.
  Data_Fetching, Chart_Socket, Table_Hooks, Form_Validation, Highlights and Position_Alerts model the hooks useDataFetching,
  useChartSocket, useTableNavigation and useVirtualScroll, useFormValidation, usePercentageHighlights, usePositionAlerts as
  transition functions over records of their state, with the properties of reachable states and of sequences of events.
  Quant_Utils, Position_Analytics and Chart_Utils model utils/tradingAnalytics.js, mlPredictions.js, quantStats.js,
  positionAnalytics.js, chartUtils.js and marketNarrative.js.
  Chart_Accuracy and Multi_Symbol model the hooks useChartOfAccuracy, useMultiSymbolData and useMultiSymbolScreener: the status
  of a level against the spot, the batch requests, the signals a scan keeps and their order.  Live_Feed models
  hooks/useSocket.jsx and hooks/useCommunitySocket.js: sockets, heartbeat, reconnection with its delays and timers.
  App_Provider models the effects of context/AppProvider.jsx and the hooks useOptionsChain and useMarketData: the subscription of
  the feed, what the store takes from it, and the polling that replaces it.
  Market_Maker and Strategy_Builder model the computations inside components/analytics: of MarketMakerPositioning.jsx the profile of
  positions by strike, its key levels and scores; of StrategyBuilder.jsx, StrategyBuilderPro.jsx, SensibullPayoffDiagram.jsx,
  PayoffDiagramPro.jsx, StrategyLegsTable.jsx and MiniOptionChain.jsx the legs as state with their operations, the payoff
  curves, the break-even search and the simulation requests.  The price loop of a curve is a \<open>partial_function\<close>: \<open>price_loop_ends\<close> says when it
  returns, \<open>price_loop_hangs\<close> that a step lost to rounding never does.
  Profile_Overlay and Trading_Chart model components/charts/TradingChart.jsx: the rows, statistics, profiles, clusters of
  levels and the value area with what is painted of them; the state of the chart with its price lines, candles, ticks,
  cursor, polling and intervals.  They show that the value area is the shortest run that reaches its share, that clustering
  loses no level, that redrawing leaves exactly the lines of the levels switched on, and that an answer for the previous
  symbol is shown when it arrives last.
  Table_Settings models context/ColumnConfigContext.jsx and TableSettingsContext.jsx with the dialogs that change them
  (components/features/options/ColumnSelector.jsx, TableSettingsModal.jsx) and the columns of header and rows
  (TableHeader.jsx, StrikeRow.jsx); Option_Table models OptionChainTable.jsx, the cells of StrikeRow.jsx, SpotIndicatorRow.jsx
  and AggregatePanel.jsx.  They show that the settings survive a reload, when the cells of a row stand under their headers,
  which strikes a historical chain shows and where the marker of the spot price stands.
  This theory holds what spans components: a session that survives a reload of the page.

  \<^bold>\<open>Conventions.\<close>  A throw is \<open>Inl\<close> of an error, a value \<open>Inr\<close>.  An await splits an operation into a step that starts it
  and a step that finishes it with the outcome as a parameter; the steps may be interleaved with any others.  Time is an
  integer of milliseconds; within one synchronous call the clock stands still.  Strings are lists of bytes, as ASCII and UTF-8
  text is.  Strings the program shows only to the user are kept as the source writes them.

  \<^bold>\<open>Bounds.\<close>  Integers are exact up to $2^{53}$ (\<open>jint_small\<close>); counters and indices are integers under that bound.
  \<open>dec_exp\<close> searches decimal exponents between -400 and 400 (doubles lie between $10^{-324}$ and $10^{309}$); the
  shortest digits number 17 at most; the JSON reader has as fuel the length of the text plus one, and each
  recursive call consumes a character; the walk of the simulation ends after twenty days.  The two zeros are one value.

  \<^bold>\<open>Parameters.\<close>  The network, the backend, Firebase, Redux Toolkit's choice of request ids, the regular expressions a caller hands in,
  \<open>Math.random\<close>, and \<open>Math.exp\<close>, \<open>Math.log\<close>, \<open>Math.pow\<close>, which ECMAScript leaves to the engine.  Laws assumed of them are
  named in the theorems that need them.

  \<^bold>\<open>Not modelled.\<close>  The markup and styling of the JSX components and pages (of the components, only the computations named above
  are modelled); the hooks for push notifications, keyboard shortcuts and accessibility; the Firebase glue; \<open>Intl\<close> and
  locale formatting, which belong to the browser; memoisation and re-rendering; services/admin-frontend (TypeScript); the Python
  services, the Rust extension and the deployment files.

  \<^bold>\<open>Next.\<close>  The computations of the other analytics components (UnusualActivityScanner.jsx, AnalyticsCharts.jsx), the modals
  of the option chain, and the profile and settings forms.
\<close>

section \<open>A session survives a reload\<close>

lemma key_ordered_put: "distinct (map fst ps) \<Longrightarrow> distinct (map fst (put k v ps))"
  by (rule distinct_put)

lemma own_distinct_strip: "distinct (map fst ps) \<Longrightarrow>
    own (map (\<lambda>(k, v). (k, strip v)) (filter (\<lambda>p. snd p \<noteq> Undef) ps)) k = strip (own ps k)"
  by (subst own_strip) simp

lemma user_data_token:
  assumes "user_data now user token b = Obj ps"
  shows "own ps ''token'' = Str token"
proof -
  have unch: "own (fold (\<lambda>(k, x) acc. put k x acc) (map (\<lambda>k. (k, f k)) ks) qs) j = own qs j" if "j \<notin> set ks" for f ks qs j
    using that by (induction ks arbitrary: qs) (auto simp: own_put)
  have "''token'' \<notin> set backend_fields" by (simp add: backend_fields_def)
  then show ?thesis using assms unch
    by (auto simp: user_data_def spread_def)
qed

text \<open>
  C24: Signing in and coming back: after the first Firebase event has signed a user in (with no user left in
  sessionStorage only, and with a user record of whole numbers below $10^{15}$ and keys in property order), closing the page and opening it again later finds the same user, as long as the
  token has not expired: every field reads as in the store before (undefined fields aside, which JSON
  does not keep), the default header is set, and every request of the API client carries the token.
\<close>

theorem session_survives_reload:
  assumes "first_auth_event now user (Inr token) verify (s, e) = ((s1, e1), theme)" and "truthy user"
    and "uses_local e" and "storable (user_data now user token (backend_user verify))"
    and "\<not> isTokenExpired t2 (Some token)" and "\<not> expired_in t2 (a_session e)"
    and "initializeAuth t2 (env_initial (a_local e1) (a_session e1)) = (r, e2)"
    and "c_env c = e2"
  shows "\<exists>u. r = Obj [(''user'', u), (''isAuthenticated'', Bool True)]
       \<and> (\<forall>k. opt u k = strip (opt (u_user s1) k)) \<and> opt u ''token'' = Str token
       \<and> a_header e2 = Some (''Bearer '' @ token)
       \<and> map_of (r_headers (api_send c req)) ''Authorization'' = Some (''Bearer '' @ token)"
proof -
  define ud where "ud = user_data now user token (backend_user verify)"
  obtain ps where ps: "ud = Obj ps" unfolding ud_def using user_data_obj [of now user token "backend_user verify"] by blast
  have token: "own ps ''token'' = Str token" using user_data_token ps by (simp add: ud_def)
  have distinct: "distinct (map fst ps)" using assms(4) by (simp add: ud_def [symmetric] ps key_ordered_def)
  have ne: "token \<noteq> []" using assms(5) by (auto simp: isTokenExpired_def str_truthy_def)
  have dispatch: "auth_dispatch now (s, e') (SetUser ud) = (s', e'') \<Longrightarrow>
      u_user s' = ud \<and> a_local e'' = a_local e' \<and> a_session e'' = a_session e'" for e' s' e''
    by (auto simp: auth_dispatch_def setUser_def get_def ps res_bind_def split: sum.splits if_splits)
  have signed_in: "u_user s1 = ud" "a_local e1 = put ''authToken'' token (put ''user'' (json_stringify ud) (a_local e))"
    "a_session e1 = a_session e"
    using assms(1-3) dispatch
    by (auto simp: first_auth_event_def Let_def ud_def [symmetric] store_user_def split: prod.splits)
  define e0 where "e0 = env_initial (a_local e1) (a_session e1)"
  have json: "json_parse (json_stringify ud) = Inr (strip ud)"
    using json_roundtrip [of ud] assms(4) by (simp add: ud_def [symmetric] ps)
  have items: "stored e0 ''user'' = Some (json_stringify ud)" "stored e0 ''authToken'' = Some token"
    "local_item e0 ''authToken'' = Some token"
    using ne by (simp_all add: e0_def env_initial_def stored_def str_or_def local_item_def signed_in map_of_put ps)
  have live: "\<not> expired_in t2 (a_local e0)" "\<not> expired_in t2 (a_session e0)"
    using assms(5,6) by (simp_all add: e0_def env_initial_def expired_in_def signed_in map_of_put)
  then have cleared: "clearExpiredTokens t2 e0 = (False, e0)"
    using clearExpiredTokens_none [of t2 e0] by (cases "clearExpiredTokens t2 e0") auto
  have "str_truthy (Some (json_stringify ud))" "str_truthy (Some token)" using ne by (simp_all add: str_truthy_def ps)
  then have init: "r = Obj [(''user'', spread (strip ud) [(''token'', Str token)]), (''isAuthenticated'', Bool True)]"
    "e2 = scheduleTokenRefresh t2 (e0\<lparr>a_header := Some (''Bearer '' @ token)\<rparr>)"
    using assms(5,7) cleared items json by (simp_all add: initializeAuth_def e0_def [symmetric] Let_def)
  have field: "own (put ''token'' (Str token) (map (\<lambda>(k, v). (k, strip v)) (filter (\<lambda>p. snd p \<noteq> Undef) ps))) k = strip (own ps k)" for k
    using token own_distinct_strip [OF distinct] by (simp add: own_put)
  have "map_of (r_headers (api_send c req)) ''Authorization'' = Some (''Bearer '' @ token)"
    using items(3) ne init(2) assms(8)
    by (simp add: api_send_def request_interceptor_def local_item_def str_truthy_def map_of_put)
  then show ?thesis using init field signed_in(1) token ps by (simp add: spread_def)
qed

definition ada :: jsval where
  "ada = Obj [(''uid'', Str ''u1''), (''email'', Str ''ada@example.org'')]"

theorem session_survives_reload_witness:
  "\<exists>u. fst (initializeAuth 3500000 (env_initial
       (a_local (snd (fst (first_auth_event 0 ada (Inr ''h.eyJleHAiOjQwMDB9.s'') (Inl TypeError) (auth_initial, env_initial [] [])))))
       [])) = Obj [(''user'', u), (''isAuthenticated'', Bool True)] \<and> opt u ''email'' = Str ''ada@example.org''"
proof -
  let ?t = "''h.eyJleHAiOjQwMDB9.s''"
  obtain s1 e1 th where ev: "first_auth_event 0 ada (Inr ?t) (Inl TypeError) (auth_initial, env_initial [] []) = ((s1, e1), th)"
    by (metis surj_pair)
  have local: "uses_local (env_initial [] [])"
    by (simp add: uses_local_def stored_def str_or_def local_item_def session_item_def env_initial_def str_truthy_def)
  have data: "user_data 0 ada ?t (backend_user (Inl TypeError)) =
      Obj [(''uid'', Str ''u1''), (''email'', Str ''ada@example.org''), (''displayName'', Undef), (''photoURL'', Undef),
           (''token'', Str ?t), (''tokenExpiry'', Num (Fin 3300000)), (''lastRefresh'', Str (to_iso 0))]"
    by (simp add: user_data_def spread_def backend_user_def ada_def jint_small)
  have storable: "storable (user_data 0 ada ?t (backend_user (Inl TypeError)))"
    unfolding data by (simp add: key_ordered_def key_before_def index_key_def is_digit_def char_code_def)
  have session: "a_session e1 = []"
    using ev local by (auto simp: first_auth_event_def ada_def Let_def auth_dispatch_def setUser_def get_def store_user_def
        env_initial_def user_data_def spread_def split: prod.splits if_splits sum.splits)
  obtain r e2 where init: "initializeAuth 3500000 (env_initial (a_local e1) (a_session e1)) = (r, e2)" by (metis surj_pair)
  have live: "\<not> isTokenExpired 3500000 (Some ?t)" 
    using token_exp_read(1) [OF _ sample_token, of 4000 3500000] by (simp add: get_def)
  have user: "u_user s1 = user_data 0 ada ?t (backend_user (Inl TypeError))"
    using ev by (auto simp: first_auth_event_def ada_def Let_def auth_dispatch_def setUser_def get_def
        user_data_def spread_def split: prod.splits if_splits sum.splits)
  have clear: "\<not> expired_in 3500000 (a_session (env_initial [] []))"
    by (simp add: expired_in_def env_initial_def str_truthy_def)
  have signed: "truthy ada" by (simp add: ada_def)
  obtain u where "r = Obj [(''user'', u), (''isAuthenticated'', Bool True)]" and
    "opt u ''email'' = strip (opt (u_user s1) ''email'')"
    using session_survives_reload [OF ev signed local storable live clear init, of "\<lparr>c_env = e2, c_toasts = toasts_initial,
        c_pathname = [], c_href = None\<rparr>"] by force
  moreover have "opt (u_user s1) ''email'' = Str ''ada@example.org''" by (simp add: user data)
  ultimately show ?thesis using init session by (simp add: ev)
qed

end
